(* ===== verification/CmPrelude.thy ===== *)
theory CmPrelude
  imports Complex_Main "HOL-Library.AList" "HOL-Library.Multiset"
begin

text \<open>
  Generic material shared by the components: JavaScript maps and records as insertion-ordered
  association lists, first-occurrence de-duplication (the behaviour of a JavaScript set that is
  spread into an array), list surgery, strings, and the result type used for code that throws.

  A JavaScript \<open>Map\<close> or string-keyed record keeps the position of a key that is overwritten and
  appends a new key at the end; \<^const>\<open>AList.update\<close> does the same.  Keys that look like array
  indices (which a JavaScript object would list first) are outside the model.
\<close>

section \<open>Collections of facts\<close>

named_theorems jmap_simps "lookup and key facts about insertion-ordered maps"
named_theorems result_simps "case facts about results"

section \<open>Insertion-ordered maps\<close>

type_synonym ('k, 'v) jmap = "('k \<times> 'v) list"

abbreviation jget :: "('k, 'v) jmap \<Rightarrow> 'k \<Rightarrow> 'v option" where
  "jget m k \<equiv> map_of m k"

abbreviation jset :: "'k \<Rightarrow> 'v \<Rightarrow> ('k, 'v) jmap \<Rightarrow> ('k, 'v) jmap" where
  "jset k v m \<equiv> AList.update k v m"

abbreviation jremove :: "'k \<Rightarrow> ('k, 'v) jmap \<Rightarrow> ('k, 'v) jmap" where
  "jremove k m \<equiv> AList.delete k m"

abbreviation jkeys :: "('k, 'v) jmap \<Rightarrow> 'k list" where
  "jkeys m \<equiv> map fst m"

definition jhas :: "('k, 'v) jmap \<Rightarrow> 'k \<Rightarrow> bool" where
  "jhas m k = (jget m k \<noteq> None)"

text \<open>The nullish-coalescing operator.\<close>

fun opt_or :: "'a option \<Rightarrow> 'a \<Rightarrow> 'a" where
  "opt_or None d = d"
| "opt_or (Some x) d = x"

fun opt_else :: "'a option \<Rightarrow> 'a option \<Rightarrow> 'a option" where
  "opt_else None y = y"
| "opt_else (Some x) y = Some x"

abbreviation jget_list :: "('k, 'v list) jmap \<Rightarrow> 'k \<Rightarrow> 'v list" where
  "jget_list m k \<equiv> opt_or (jget m k) []"

text \<open>Object spread: the entries of the second map are assigned onto the first.\<close>

definition jspread :: "('k, 'v) jmap \<Rightarrow> ('k, 'v) jmap \<Rightarrow> ('k, 'v) jmap" where
  "jspread base over = fold (\<lambda>(k, v) m. jset k v m) over base"

text \<open>A list per key, built by pushing one element after the other.\<close>

definition jpush :: "'k \<Rightarrow> 'v \<Rightarrow> ('k, 'v list) jmap \<Rightarrow> ('k, 'v list) jmap" where
  "jpush k v m = jset k (jget_list m k @ [v]) m"

definition jgroup :: "('e \<Rightarrow> 'k) \<Rightarrow> ('e \<Rightarrow> 'v) \<Rightarrow> 'e list \<Rightarrow> ('k, 'v list) jmap" where
  "jgroup key val es = fold (\<lambda>e m. jpush (key e) (val e) m) es []"

text \<open>Spreading a set built from a list: duplicates go, first occurrences keep their order.\<close>

definition dedupe :: "'a list \<Rightarrow> 'a list" where
  "dedupe xs = rev (remdups (rev xs))"

lemma opt_or_eq_case: "opt_or x d = (case x of None \<Rightarrow> d | Some y \<Rightarrow> y)"
  by (cases x) simp_all

lemma jget_jset [simp, jmap_simps]: "jget (jset k v m) k' = (if k' = k then Some v else jget m k')"
  by (simp add: update_conv')

lemma jget_jremove [simp, jmap_simps]: "jget (jremove k m) k' = (if k' = k then None else jget m k')"
  by (simp add: delete_conv')

lemma distinct_jset [simp, intro]: "distinct (jkeys m) \<Longrightarrow> distinct (jkeys (jset k v m))"
  by (rule distinct_update)

lemma set_jkeys_jset [simp, jmap_simps]: "fst ` set (jset k v m) = insert k (fst ` set m)"
  by (induction m) auto

lemma jkeys_jset: "jkeys (jset k v m) = (if k \<in> fst ` set m then jkeys m else jkeys m @ [k])"
  by (induction m) auto

lemma set_jkeys_jremove [simp, jmap_simps]: "fst ` set (jremove k m) = fst ` set m - {k}"
  by (induction m) auto

lemma distinct_jremove [simp, intro]: "distinct (jkeys m) \<Longrightarrow> distinct (jkeys (jremove k m))"
  by (rule distinct_delete)

lemma jhas_iff_key: "jhas m k \<longleftrightarrow> k \<in> fst ` set m"
  unfolding jhas_def by (auto simp: map_of_eq_None_iff)

lemma jget_Some_key: "jget m k = Some v \<Longrightarrow> k \<in> fst ` set m"
  by (metis map_of_eq_None_iff option.distinct(1))

lemma key_jget_Some: "k \<in> fst ` set m \<Longrightarrow> \<exists>v. jget m k = Some v"
  by (metis map_of_eq_None_iff not_None_eq)

lemma jhas_jset [simp, jmap_simps]: "jhas (jset k v m) k' \<longleftrightarrow> k' = k \<or> jhas m k'"
  by (simp add: jhas_def)

lemma jhas_jremove [simp, jmap_simps]: "jhas (jremove k m) k' \<longleftrightarrow> k' \<noteq> k \<and> jhas m k'"
  by (simp add: jhas_def)

lemma jget_map_val: "jget (map (\<lambda>(k, v). (k, f k v)) m) k = map_option (f k) (jget m k)"
  by (induction m) auto

lemma jkeys_map_val [simp]: "jkeys (map (\<lambda>(k, v). (k, f k v)) m) = jkeys m"
  by (induction m) auto

lemma jget_jspread: "distinct (jkeys over) \<Longrightarrow> jget (jspread base over) k = opt_else (jget over k) (jget base k)"
  unfolding jspread_def
proof (induction over arbitrary: base)
  case (Cons p over)
  obtain k0 v0 where p: "p = (k0, v0)" by (cases p)
  have "k0 \<notin> fst ` set over" using Cons.prems p by simp
  hence "jget over k0 = None" by (simp add: map_of_eq_None_iff)
  thus ?case using Cons p by auto
qed simp

lemma distinct_jspread [simp, intro]: "distinct (jkeys base) \<Longrightarrow> distinct (jkeys (jspread base over))"
  unfolding jspread_def by (induction over arbitrary: base) auto

lemma set_jkeys_jspread [simp]: "fst ` set (jspread base over) = fst ` set base \<union> fst ` set over"
  unfolding jspread_def
  by (induction over arbitrary: base) (simp_all add: case_prod_beta del: Un_insert_left, simp add: Un_insert_left)

section \<open>De-duplication\<close>

lemma set_dedupe [simp]: "set (dedupe xs) = set xs"
  by (simp add: dedupe_def)

lemma distinct_dedupe [simp]: "distinct (dedupe xs)"
  by (simp add: dedupe_def)

lemma dedupe_Nil [simp]: "dedupe [] = []"
  by (simp add: dedupe_def)

lemma dedupe_snoc: "dedupe (xs @ [x]) = (if x \<in> set xs then dedupe xs else dedupe xs @ [x])"
  by (simp add: dedupe_def)

lemma dedupe_eq_Nil_iff [simp]: "dedupe xs = [] \<longleftrightarrow> xs = []"
  by (metis set_dedupe set_empty)

lemma dedupe_distinct: "distinct xs \<Longrightarrow> dedupe xs = xs"
  by (simp add: dedupe_def distinct_remdups_id)

lemma length_dedupe_le: "length (dedupe xs) \<le> length xs"
  by (simp add: dedupe_def) (metis length_remdups_leq length_rev)

section \<open>The interface of a keyed store\<close>

text \<open>
  Lookup, store and key order of a JavaScript map, stated as laws.  What the client proves from them
  is the content of a map of lists that is filled by repeatedly appending to the list of a key:
  the topology, the graph and the planning validation all build their indices that way.
\<close>

locale keyed_store =
  fixes lookup :: "'s \<Rightarrow> 'k \<Rightarrow> 'v list option"
    and store :: "'k \<Rightarrow> 'v list \<Rightarrow> 's \<Rightarrow> 's"
    and keys :: "'s \<Rightarrow> 'k list"
  assumes lookup_store: "lookup (store k v s) k' = (if k' = k then Some v else lookup s k')"
    and keys_store: "keys (store k v s) = (if k \<in> set (keys s) then keys s else keys s @ [k])"
    and lookup_keys: "lookup s k \<noteq> None \<longleftrightarrow> k \<in> set (keys s)"
begin

definition append_to :: "'k \<Rightarrow> 'v \<Rightarrow> 's \<Rightarrow> 's" where
  "append_to k v s = store k (opt_or (lookup s k) [] @ [v]) s"

lemma lookup_append_to:
  "lookup (append_to k v s) k' = (if k' = k then Some (opt_or (lookup s k) [] @ [v]) else lookup s k')"
  by (simp add: append_to_def lookup_store)

lemma lookup_fold_append:
  "opt_or (lookup (fold (\<lambda>e. append_to (key e) (val e)) es s) k) []
     = opt_or (lookup s k) [] @ [val e. e \<leftarrow> es, key e = k]"
  by (induction es arbitrary: s) (auto simp: lookup_append_to)

lemma keys_fold_append:
  assumes "distinct (keys s)"
  shows "keys (fold (\<lambda>e. append_to (key e) (val e)) es s) = dedupe (keys s @ map key es)"
    and "distinct (keys (fold (\<lambda>e. append_to (key e) (val e)) es s))"
proof -
  have "keys (fold (\<lambda>e. append_to (key e) (val e)) es s) = dedupe (keys s @ map key es)"
  proof (induction es rule: rev_induct)
    case Nil
    show ?case using assms by (simp add: dedupe_distinct)
  next
    case (snoc e es)
    show ?case
      using snoc dedupe_snoc [of "keys s @ map key es" "key e"] by (simp add: append_to_def keys_store)
  qed
  thus "keys (fold (\<lambda>e. append_to (key e) (val e)) es s) = dedupe (keys s @ map key es)"
    and "distinct (keys (fold (\<lambda>e. append_to (key e) (val e)) es s))" by simp_all
qed

lemma lookup_fold_append_None:
  assumes "distinct (keys s)" "k \<notin> set (keys s)"
  shows "lookup (fold (\<lambda>e. append_to (key e) (val e)) es s) k = None \<longleftrightarrow> k \<notin> key ` set es"
proof -
  have "lookup (fold (\<lambda>e. append_to (key e) (val e)) es s) k \<noteq> None \<longleftrightarrow> k \<in> set (keys s) \<union> key ` set es"
    unfolding lookup_keys keys_fold_append(1) [OF assms(1)] by simp
  thus ?thesis using assms(2) by auto
qed

end

interpretation jm: keyed_store jget "AList.update" jkeys
  by unfold_locales (auto simp: jkeys_jset map_of_eq_None_iff)

lemma jpush_append_to: "jpush = jm.append_to"
  by (intro ext) (simp add: jpush_def jm.append_to_def)

lemma jget_list_jgroup: "jget_list (jgroup key val es) k = [val e. e \<leftarrow> es, key e = k]"
  using jm.lookup_fold_append [of key val es "[]" k] by (simp add: jgroup_def jpush_append_to)

lemma jkeys_jgroup: "jkeys (jgroup key val es) = dedupe (map key es)"
  using jm.keys_fold_append(1) [of "[]" key val es] by (simp add: jgroup_def jpush_append_to)

lemma distinct_jgroup [simp]: "distinct (jkeys (jgroup key val es))"
  by (simp add: jkeys_jgroup)

lemma jget_jgroup:
  "jget (jgroup key val es) k = (if k \<in> key ` set es then Some [val e. e \<leftarrow> es, key e = k] else None)"
proof (cases "k \<in> key ` set es")
  case True
  hence "jget (jgroup key val es) k \<noteq> None"
    using jm.lookup_fold_append_None [of "[]" k key val es] by (simp add: jgroup_def jpush_append_to)
  thus ?thesis using True jget_list_jgroup [of key val es k] by auto
next
  case False
  thus ?thesis
    using jm.lookup_fold_append_None [of "[]" k key val es] by (simp add: jgroup_def jpush_append_to)
qed

section \<open>Lists and strings\<close>

text \<open>\<open>splice(i, 1)\<close>.\<close>

definition remove_at :: "nat \<Rightarrow> 'a list \<Rightarrow> 'a list" where
  "remove_at i xs = take i xs @ drop (Suc i) xs"

lemma length_remove_at [simp]: "i < length xs \<Longrightarrow> length (remove_at i xs) = length xs - 1"
  by (simp add: remove_at_def)

lemma mset_remove_at: "i < length xs \<Longrightarrow> mset xs = add_mset (xs ! i) (mset (remove_at i xs))"
  by (metis id_take_nth_drop mset.simps(2) mset_append remove_at_def union_mset_add_mset_right)

fun find_index_from :: "nat \<Rightarrow> ('a \<Rightarrow> bool) \<Rightarrow> 'a list \<Rightarrow> nat option" where
  "find_index_from i P [] = None"
| "find_index_from i P (x # xs) = (if P x then Some i else find_index_from (Suc i) P xs)"

abbreviation find_index :: "('a \<Rightarrow> bool) \<Rightarrow> 'a list \<Rightarrow> nat option" where
  "find_index P xs \<equiv> find_index_from 0 P xs"

lemma find_index_from_Some:
  "find_index_from i P xs = Some j \<Longrightarrow> i \<le> j \<and> j < i + length xs \<and> P (xs ! (j - i)) \<and> (\<forall>n < j - i. \<not> P (xs ! n))"
proof (induction xs arbitrary: i)
  case (Cons x xs)
  show ?case
  proof (cases "P x")
    case False
    hence IH: "Suc i \<le> j \<and> j < Suc i + length xs \<and> P (xs ! (j - Suc i)) \<and> (\<forall>n < j - Suc i. \<not> P (xs ! n))"
      using Cons.IH [of "Suc i"] Cons.prems by (metis find_index_from.simps(2))
    hence "j - i = Suc (j - Suc i)" by linarith
    thus ?thesis using IH False by (auto simp: nth_Cons split: nat.split)
  qed (use Cons in auto)
qed simp

lemma find_index_Some:
  "find_index P xs = Some j \<Longrightarrow> j < length xs \<and> P (xs ! j) \<and> (\<forall>n < j. \<not> P (xs ! n))"
  using find_index_from_Some [of 0 P xs j] by simp

lemma find_index_from_None: "find_index_from i P xs = None \<longleftrightarrow> (\<forall>x \<in> set xs. \<not> P x)"
  by (induction xs arbitrary: i) auto

fun join_strings :: "string \<Rightarrow> string list \<Rightarrow> string" where
  "join_strings sep [] = []"
| "join_strings sep [x] = x"
| "join_strings sep (x # y # ys) = x @ sep @ join_strings sep (y # ys)"

function string_of_nat :: "nat \<Rightarrow> string" where
  "string_of_nat n = (if n < 10 then [char_of (48 + n)] else string_of_nat (n div 10) @ [char_of (48 + n mod 10)])"
  by pat_completeness auto
termination by (relation "measure id") auto

declare string_of_nat.simps [simp del]

definition starts_with :: "string \<Rightarrow> string \<Rightarrow> bool" where
  "starts_with p s = (take (length p) s = p)"

definition ends_with :: "string \<Rightarrow> string \<Rightarrow> bool" where
  "ends_with p s = (length p \<le> length s \<and> drop (length s - length p) s = p)"

fun str_includes :: "string \<Rightarrow> string \<Rightarrow> bool" where
  "str_includes p [] = (p = [])"
| "str_includes p (c # s) = (starts_with p (c # s) \<or> str_includes p s)"

text \<open>\<open>lastIndexOf\<close>; \<open>None\<close> is the result -1.\<close>

fun last_index_of :: "string \<Rightarrow> string \<Rightarrow> nat option" where
  "last_index_of p [] = (if p = [] then Some 0 else None)"
| "last_index_of p (c # s) =
    (case last_index_of p s of
       Some i \<Rightarrow> Some (Suc i)
     | None \<Rightarrow> if starts_with p (c # s) then Some 0 else None)"

lemma starts_with_iff: "starts_with p s \<longleftrightarrow> (\<exists>t. s = p @ t)"
proof
  assume "starts_with p s"
  hence "s = p @ drop (length p) s" by (metis append_take_drop_id starts_with_def)
  thus "\<exists>t. s = p @ t" ..
qed (auto simp: starts_with_def)

lemma str_includes_iff: "str_includes p s \<longleftrightarrow> (\<exists>a b. s = a @ p @ b)"
proof (induction s)
  case (Cons c s)
  note IH = Cons.IH
  show ?case
  proof
    assume "str_includes p (c # s)"
    thus "\<exists>a b. c # s = a @ p @ b"
      using Cons by (metis append_Cons append_Nil str_includes.simps(2) starts_with_iff)
  next
    assume "\<exists>a b. c # s = a @ p @ b"
    then obtain a b where ab: "c # s = a @ p @ b" by blast
    show "str_includes p (c # s)"
    proof (cases a)
      case Nil
      hence "starts_with p (c # s)" using ab unfolding starts_with_iff by auto
      thus ?thesis by simp
    next
      case (Cons d a')
      hence "s = a' @ p @ b" using ab by simp
      hence "str_includes p s" using IH by blast
      thus ?thesis by simp
    qed
  qed
qed auto

lemma str_includes_append: "str_includes p s \<Longrightarrow> str_includes p (a @ s @ b)"
  unfolding str_includes_iff by (metis append.assoc)

section \<open>Results\<close>

text \<open>A loop whose body may throw: the first error stops it.\<close>

fun fold_result :: "('a \<Rightarrow> 's \<Rightarrow> 'e + 's) \<Rightarrow> 'a list \<Rightarrow> 's \<Rightarrow> 'e + 's" where
  "fold_result f [] s = Inr s"
| "fold_result f (x # xs) s = (case f x s of Inl e \<Rightarrow> Inl e | Inr s' \<Rightarrow> fold_result f xs s')"

fun bind_result :: "'e + 'a \<Rightarrow> ('a \<Rightarrow> 'e + 'b) \<Rightarrow> 'e + 'b" where
  "bind_result (Inl e) f = Inl e"
| "bind_result (Inr x) f = f x"

definition is_ok :: "'e + 'a \<Rightarrow> bool" where
  "is_ok r = (case r of Inl _ \<Rightarrow> False | Inr _ \<Rightarrow> True)"

lemma is_ok_simps [simp, result_simps]: "is_ok (Inr x)" "\<not> is_ok (Inl e)"
  by (simp_all add: is_ok_def)

lemma is_ok_iff: "is_ok r \<longleftrightarrow> (\<exists>x. r = Inr x)"
  by (cases r) simp_all

lemma bind_result_Inr_iff [result_simps]: "bind_result r f = Inr y \<longleftrightarrow> (\<exists>x. r = Inr x \<and> f x = Inr y)"
  by (cases r) auto

lemma bind_result_Inl_iff [result_simps]: "bind_result r f = Inl e \<longleftrightarrow> r = Inl e \<or> (\<exists>x. r = Inr x \<and> f x = Inl e)"
  by (cases r) auto

lemma fold_result_append:
  "fold_result f (xs @ ys) s = (case fold_result f xs s of Inl e \<Rightarrow> Inl e | Inr s' \<Rightarrow> fold_result f ys s')"
  by (induction xs arbitrary: s) (auto split: sum.split)

lemma fold_result_unit_ok:
  "fold_result (\<lambda>x u. f x) xs u = Inr () \<longleftrightarrow> (\<forall>x \<in> set xs. f x = Inr ())"
  by (induction xs arbitrary: u) (auto split: sum.split)

text \<open>An invariant of a throwing loop, and what is known when it stops with an error.\<close>

lemma fold_result_inv:
  assumes "fold_result f xs s = Inr s'"
    and "I s"
    and "\<And>x t t'. x \<in> set xs \<Longrightarrow> I t \<Longrightarrow> f x t = Inr t' \<Longrightarrow> I t'"
  shows "I s'"
  using assms
proof (induction xs arbitrary: s)
  case (Cons x xs)
  obtain t where t: "f x s = Inr t" "fold_result f xs t = Inr s'"
    using Cons.prems(1) by (auto split: sum.splits)
  have "I t" by (rule Cons.prems(3) [OF _ Cons.prems(2) t(1)]) simp
  show ?case by (rule Cons.IH [OF t(2) \<open>I t\<close>]) (rule Cons.prems(3), simp_all)
qed simp

text \<open>What each step establishes and later steps keep holds for all elements at the end.\<close>

lemma fold_result_each:
  assumes "fold_result f xs s = Inr s'" "I s"
    and "\<And>x t t'. x \<in> set xs \<Longrightarrow> I t \<Longrightarrow> f x t = Inr t' \<Longrightarrow> I t' \<and> Q x t'"
    and "\<And>x y t t'. y \<in> set xs \<Longrightarrow> I t \<Longrightarrow> f y t = Inr t' \<Longrightarrow> Q x t \<Longrightarrow> Q x t'"
  shows "I s' \<and> (\<forall>x \<in> set xs. Q x s')"
  using assms
proof (induction xs arbitrary: s)
  case (Cons y ys)
  obtain t where t: "f y s = Inr t" "fold_result f ys t = Inr s'"
    using Cons.prems(1) by (auto split: sum.splits)
  have y: "I t \<and> Q y t" by (rule Cons.prems(3) [OF _ Cons.prems(2) t(1)]) simp
  have rest: "I s' \<and> (\<forall>x \<in> set ys. Q x s')"
  proof (rule Cons.IH [OF t(2)])
    show "I t" using y by simp
  next
    fix x u u' assume "x \<in> set ys" "I u" "f x u = Inr u'"
    thus "I u' \<and> Q x u'" by (intro Cons.prems(3) [of x u u']) simp_all
  next
    fix x z u u' assume "z \<in> set ys" "I u" "f z u = Inr u'" "Q x u"
    thus "Q x u'" by (intro Cons.prems(4) [of z u u' x]) simp_all
  qed
  have "I s' \<and> Q y s'" using t(2)
  proof (rule fold_result_inv [where I = "\<lambda>u. I u \<and> Q y u"])
    show "I t \<and> Q y t" by (rule y)
  next
    fix x u u' assume a: "x \<in> set ys" "I u \<and> Q y u" "f x u = Inr u'"
    have "I u' \<and> Q x u'" using a by (intro Cons.prems(3) [of x u u']) simp_all
    moreover have "Q y u'" using a by (intro Cons.prems(4) [of x u u' y]) simp_all
    ultimately show "I u' \<and> Q y u'" by simp
  qed
  thus ?case using rest by simp
qed simp

lemma fold_result_total_inv:
  assumes "I s" "\<And>x t. x \<in> set xs \<Longrightarrow> I t \<Longrightarrow> \<exists>t'. f x t = Inr t' \<and> I t'"
  shows "\<exists>s'. fold_result f xs s = Inr s' \<and> I s'"
  using assms
proof (induction xs arbitrary: s)
  case (Cons x xs)
  obtain t where t: "f x s = Inr t" "I t" using Cons.prems(2) [of x s] Cons.prems(1) by auto
  have "\<exists>s'. fold_result f xs t = Inr s' \<and> I s'"
    by (rule Cons.IH [OF t(2)]) (rule Cons.prems(2), simp_all)
  thus ?case using t(1) by simp
qed simp

end
