(* ===== verification/Contracts.thy ===== *)
theory Contracts
  imports CmPrelude
begin

text \<open>
  The data of \<open>contracts/workflowTypes.ts\<close>, \<open>contracts/runTypes.ts\<close> and
  \<open>contracts/retryPolicySpec.types.ts\<close>: workflows, items, run states and the errors the engine throws.
  An optional property is an \<open>option\<close> field, a string-keyed record is an insertion-ordered map,
  time stamps are the ISO strings the code stores, and counters and limits are integers.
\<close>

section \<open>Base types\<close>

type_synonym workflow_id = string
type_synonym node_id = string
type_synonym port_key = string
type_synonym run_id = string
type_synonym activation_id = string
type_synonym token_id = string
type_synonym iso_time = string

text \<open>Values of JavaScript that the engine carries without looking inside them, or compares.\<close>

datatype jsval =
    JUndefined
  | JNull
  | JBool bool
  | JNum rat
  | JStr string
  | JArr "jsval list"
  | JObj "(string \<times> jsval) list"

text \<open>A dependency-injection token is a class (an identity and its \<open>name\<close>), a string or a symbol.\<close>

datatype type_token =
    ClassToken nat string
  | StringToken string
  | SymbolToken string

section \<open>Errors\<close>

text \<open>
  The error classes the engine distinguishes by name or by \<open>instanceof\<close>.  \<open>StackOverflow\<close> is
  the outcome of a recursion of the model that ran out of fuel: the counterpart is the
  \<open>RangeError\<close> of an unbounded recursion.  \<open>err_nodeId\<close> is the node of a \<open>NodeInstantiationError\<close>.
\<close>

datatype error_kind =
    PlainError
  | NodeInstantiationErr
  | RunSuspendedErr
  | SuspensionRequestErr
  | CredentialUnboundErr
  | WebhookControlErr
  | StackOverflow

record js_error =
  err_kind :: error_kind
  err_message :: string
  err_name :: string
  err_stack :: "string option"
  err_details :: "jsval option"
  err_nodeId :: "node_id option"

definition plain_error :: "string \<Rightarrow> js_error" where
  "plain_error msg =
    \<lparr>err_kind = PlainError, err_message = msg, err_name = ''Error'', err_stack = None, err_details = None, err_nodeId = None\<rparr>"

definition stack_overflow :: js_error where
  "stack_overflow =
    \<lparr>err_kind = StackOverflow, err_message = ''Maximum call stack size exceeded'', err_name = ''RangeError'',
     err_stack = None, err_details = None, err_nodeId = None\<rparr>"

lemma plain_error_not_overflow [simp]: "plain_error msg \<noteq> stack_overflow"
  by (simp add: plain_error_def stack_overflow_def)

lemma plain_error_eq_iff [simp]: "plain_error a = plain_error b \<longleftrightarrow> a = b"
  by (simp add: plain_error_def)

lemma plain_error_sel [simp]:
  "err_kind (plain_error msg) = PlainError" "err_message (plain_error msg) = msg"
  "err_name (plain_error msg) = ''Error''" "err_details (plain_error msg) = None" "err_nodeId (plain_error msg) = None"
  by (simp_all add: plain_error_def)

section \<open>Workflow definitions\<close>

datatype node_kind = TriggerKind | NodeKind

record output_ref =
  or_node :: node_id
  or_output :: port_key

record input_ref =
  ir_node :: node_id
  ir_input :: port_key

record edge =
  e_from :: output_ref
  e_to :: input_ref

record node_connection =
  cn_parentNodeId :: node_id
  cn_connectionName :: string
  cn_childNodeIds :: "node_id list"

datatype execution_mode = LocalMode | WorkerMode

record execution_hint =
  eh_hint :: "execution_mode option"
  eh_queue :: "string option"

datatype retry_policy =
    NoneRetry
  | FixedRetry (fr_maxAttempts: rat) (fr_delayMs: rat)
  | ExponentialRetry (er_maxAttempts: rat) (er_initialDelayMs: rat) (er_multiplier: rat)
      (er_maxDelayMs: "rat option") (er_jitter: "bool option")

text \<open>A handler is given inline (an object of the configuration, named by a number) or by token.\<close>

datatype handler_spec = InlineHandler nat | TokenHandler type_token

datatype empty_batch = SkipEmpty | RunOnceEmpty
datatype trigger_mode = LiveTrigger | TestTrigger

record node_config =
  nc_kind :: node_kind
  nc_type :: type_token
  nc_name :: "string option"
  nc_id :: "node_id option"
  nc_icon :: "string option"
  nc_execution :: "execution_hint option"
  nc_retryPolicy :: "retry_policy option"
  nc_nodeErrorHandler :: "handler_spec option"
  nc_continueWhenEmptyOutput :: "bool option"
  nc_declaredOutputPorts :: "port_key list option"
  nc_declaredInputPorts :: "port_key list option"
  nc_emitsAssertions :: bool
  nc_emptyBatchExecution :: "empty_batch option"
  nc_triggerKind :: "trigger_mode option"
  nc_fields :: "(string, jsval) jmap"

record node_def =
  nd_id :: node_id
  nd_kind :: node_kind
  nd_type :: type_token
  nd_name :: "string option"
  nd_config :: node_config

datatype storage_mode = StoreAll | StoreSuccess | StoreError | StoreNever
datatype storage_policy = StorageMode storage_mode | StorageResolver type_token

record prune_policy =
  pp_runDataRetentionSeconds :: "int option"
  pp_binaryRetentionSeconds :: "int option"
  pp_telemetrySpanRetentionSeconds :: "int option"
  pp_telemetryArtifactRetentionSeconds :: "int option"
  pp_telemetryMetricRetentionSeconds :: "int option"

record policy_snapshot =
  ps_retentionSeconds :: "int option"
  ps_binaryRetentionSeconds :: "int option"
  ps_telemetrySpanRetentionSeconds :: "int option"
  ps_telemetryArtifactRetentionSeconds :: "int option"
  ps_telemetryMetricRetentionSeconds :: "int option"
  ps_storagePolicy :: storage_mode

record policy_defaults =
  pd_retentionSeconds :: "int option"
  pd_binaryRetentionSeconds :: "int option"
  pd_telemetrySpanRetentionSeconds :: "int option"
  pd_telemetryArtifactRetentionSeconds :: "int option"
  pd_telemetryMetricRetentionSeconds :: "int option"
  pd_storagePolicy :: "storage_mode option"

record workflow =
  wf_id :: workflow_id
  wf_name :: string
  wf_nodes :: "node_def list"
  wf_edges :: "edge list"
  wf_connections :: "node_connection list option"
  wf_discoveryPathSegments :: "string list option"
  wf_prunePolicy :: "prune_policy option"
  wf_storagePolicy :: "storage_policy option"
  wf_workflowErrorHandler :: "handler_spec option"

section \<open>Items\<close>

record binary_attachment =
  ba_id :: string
  ba_storageKey :: string
  ba_mimeType :: string
  ba_size :: int
  ba_storageDriver :: string
  ba_previewKind :: string
  ba_createdAt :: iso_time
  ba_runId :: run_id
  ba_workflowId :: workflow_id
  ba_nodeId :: node_id
  ba_activationId :: activation_id
  ba_filename :: "string option"
  ba_sha256 :: "string option"

record paired_item =
  pi_nodeId :: node_id
  pi_output :: port_key
  pi_itemIndex :: nat

record item =
  it_json :: jsval
  it_binary :: "(string, binary_attachment) jmap option"
  it_meta :: "(string, jsval) jmap option"
  it_paired :: "paired_item list option"

type_synonym items = "item list"

text \<open>Items per port; a port whose JavaScript entry is \<open>undefined\<close> is an absent key.\<close>

type_synonym node_outputs = "(port_key, items) jmap"
type_synonym inputs_by_port = "(port_key, items) jmap"

definition json_item :: "jsval \<Rightarrow> item" where
  "json_item v = \<lparr>it_json = v, it_binary = None, it_meta = None, it_paired = None\<rparr>"

section \<open>Run state\<close>

record test_context =
  tc_testSuiteRunId :: string
  tc_testCaseIndex :: nat
  tc_testCaseLabel :: "string option"

record parent_ref =
  pr_runId :: run_id
  pr_workflowId :: workflow_id
  pr_nodeId :: node_id
  pr_subworkflowDepth :: "int option"
  pr_engineMaxNodeActivations :: "int option"
  pr_engineMaxSubworkflowDepth :: "int option"
  pr_testContext :: "test_context option"

datatype run_mode = ManualRun | DebugRun

record execution_options =
  eo_localOnly :: "bool option"
  eo_webhook :: "bool option"
  eo_mode :: "run_mode option"
  eo_sourceWorkflowId :: "workflow_id option"
  eo_sourceRunId :: "run_id option"
  eo_derivedFromRunId :: "run_id option"
  eo_isMutable :: "bool option"
  eo_subworkflowDepth :: "int option"
  eo_maxNodeActivations :: "int option"
  eo_maxSubworkflowDepth :: "int option"
  eo_testContext :: "test_context option"

definition empty_execution_options :: execution_options where
  "empty_execution_options =
    \<lparr>eo_localOnly = None, eo_webhook = None, eo_mode = None, eo_sourceWorkflowId = None, eo_sourceRunId = None,
     eo_derivedFromRunId = None, eo_isMutable = None, eo_subworkflowDepth = None, eo_maxNodeActivations = None,
     eo_maxSubworkflowDepth = None, eo_testContext = None\<rparr>"

text \<open>\<open>EngineRunCounters\<close> has the single field \<open>completedNodeActivations\<close>.\<close>

record engine_counters =
  ec_completedNodeActivations :: int

datatype stop_condition = WorkflowCompleted | NodeCompletedStop node_id

record reset_request =
  rr_clearFromNodeId :: node_id

record run_control =
  rc_stopCondition :: "stop_condition option"

record snapshot_node =
  sn_id :: node_id
  sn_kind :: node_kind
  sn_name :: "string option"
  sn_nodeTokenId :: token_id
  sn_configTokenId :: token_id
  sn_tokenName :: "string option"
  sn_configTokenName :: "string option"
  sn_config :: jsval
  sn_inspectorSummary :: "(string \<times> string) list option"

record workflow_snapshot =
  ws_id :: workflow_id
  ws_name :: string
  ws_nodes :: "snapshot_node list"
  ws_edges :: "edge list"
  ws_workflowErrorHandlerConfigured :: "bool option"
  ws_connections :: "node_connection list option"

record mutable_node_state =
  mn_pinnedOutputsByPort :: "node_outputs option"
  mn_lastDebugInput :: "items option"

record mutable_run_state =
  mr_nodesById :: "(node_id, mutable_node_state) jmap"

record collect_state =
  cs_expectedInputs :: "port_key list"
  cs_received :: inputs_by_port

record queue_entry =
  qe_nodeId :: node_id
  qe_input :: items
  qe_toInput :: "port_key option"
  qe_batchId :: "string option"
  qe_from :: "output_ref option"
  qe_collect :: "collect_state option"

datatype node_status =
    NsPending | NsQueued | NsRunning | NsCompleted | NsFailed | NsSkipped
  | NsHitlApproved | NsHitlRejected | NsHitlTimeout | NsHitlAutoAccepted | NsHitlCancelled

record node_error =
  ne_message :: string
  ne_name :: "string option"
  ne_stack :: "string option"
  ne_details :: "jsval option"

record node_snapshot =
  ns_runId :: run_id
  ns_workflowId :: workflow_id
  ns_nodeId :: node_id
  ns_activationId :: "activation_id option"
  ns_parent :: "parent_ref option"
  ns_status :: node_status
  ns_usedPinnedOutput :: "bool option"
  ns_queuedAt :: "iso_time option"
  ns_startedAt :: "iso_time option"
  ns_finishedAt :: "iso_time option"
  ns_updatedAt :: iso_time
  ns_inputsByPort :: "inputs_by_port option"
  ns_outputs :: "node_outputs option"
  ns_error :: "node_error option"
  ns_childRunId :: "run_id option"

record connection_invocation =
  ci_invocationId :: string
  ci_runId :: run_id
  ci_workflowId :: workflow_id
  ci_connectionNodeId :: node_id
  ci_parentAgentNodeId :: node_id
  ci_parentAgentActivationId :: activation_id
  ci_status :: node_status
  ci_managedInput :: "jsval option"
  ci_managedOutput :: "jsval option"
  ci_statusLabel :: "string option"
  ci_subjectName :: "string option"
  ci_error :: "node_error option"
  ci_queuedAt :: "iso_time option"
  ci_startedAt :: "iso_time option"
  ci_finishedAt :: "iso_time option"
  ci_updatedAt :: iso_time
  ci_iterationId :: "string option"
  ci_itemIndex :: "nat option"
  ci_parentInvocationId :: "string option"

record invocation_append_args =
  ia_invocationId :: string
  ia_connectionNodeId :: node_id
  ia_parentAgentNodeId :: node_id
  ia_parentAgentActivationId :: activation_id
  ia_status :: node_status
  ia_managedInput :: "jsval option"
  ia_managedOutput :: "jsval option"
  ia_statusLabel :: "string option"
  ia_subjectName :: "string option"
  ia_error :: "node_error option"
  ia_queuedAt :: "iso_time option"
  ia_startedAt :: "iso_time option"
  ia_finishedAt :: "iso_time option"
  ia_iterationId :: "string option"
  ia_itemIndex :: "nat option"
  ia_parentInvocationId :: "string option"

record current_state =
  cu_outputsByNode :: "(node_id, node_outputs) jmap"
  cu_nodeSnapshotsByNodeId :: "(node_id, node_snapshot) jmap"
  cu_connectionInvocations :: "connection_invocation list option"
  cu_mutableState :: "mutable_run_state option"

record current_state_request =
  cr_workflow :: workflow
  cr_items :: "items option"
  cr_parent :: "parent_ref option"
  cr_executionOptions :: "execution_options option"
  cr_workflowSnapshot :: "workflow_snapshot option"
  cr_mutableState :: "mutable_run_state option"
  cr_currentState :: "current_state option"
  cr_stopCondition :: "stop_condition option"
  cr_reset :: "reset_request option"

record frontier_plan =
  fp_rootNodeId :: "node_id option"
  fp_rootNodeInput :: "items option"
  fp_queue :: "queue_entry list"
  fp_currentState :: current_state
  fp_stopCondition :: stop_condition
  fp_satisfiedNodeIds :: "node_id list"
  fp_skippedNodeIds :: "node_id list"
  fp_clearedNodeIds :: "node_id list"
  fp_preservedPinnedNodeIds :: "node_id list"

datatype run_status = RunRunning | RunPending | RunCompleted | RunFailed | RunSuspended | RunHalted

datatype halt_reason = HitlRejected | HitlTimeout | HitlCancelled

record run_summary =
  su_runId :: run_id
  su_workflowId :: workflow_id
  su_startedAt :: iso_time
  su_status :: run_status
  su_finishedAt :: "iso_time option"
  su_parent :: "parent_ref option"
  su_executionOptions :: "execution_options option"

record pending_execution =
  pe_runId :: run_id
  pe_activationId :: activation_id
  pe_workflowId :: workflow_id
  pe_nodeId :: node_id
  pe_itemsIn :: nat
  pe_inputsByPort :: inputs_by_port
  pe_receiptId :: string
  pe_queue :: "string option"
  pe_batchId :: "string option"
  pe_enqueuedAt :: iso_time

record scheduling_state =
  ss_pending :: "pending_execution option"
  ss_queue :: "queue_entry list"

datatype on_timeout = HaltOnTimeout | AutoAcceptOnTimeout

record suspension_entry =
  se_taskId :: string
  se_nodeId :: node_id
  se_activationId :: activation_id
  se_itemIndex :: nat
  se_decisionSchemaHash :: string
  se_deliveryRef :: jsval
  se_timeoutAt :: iso_time
  se_onTimeout :: on_timeout

record task_actor =
  ta_actorId :: string
  ta_displayName :: "string option"

datatype resume_decision =
    Decided jsval task_actor iso_time
  | TimedOut iso_time
  | AutoAccepted iso_time

record task_handle =
  th_taskId :: string
  th_runId :: run_id
  th_nodeId :: node_id
  th_expiresAt :: iso_time
  th_resumeUrl :: string
  th_metadata :: "(string, jsval) jmap option"

record resume_context =
  rx_decision :: resume_decision
  rx_delivery :: jsval
  rx_task :: task_handle

record pending_resume =
  pu_activationId :: activation_id
  pu_nodeId :: node_id
  pu_resumeContext :: resume_context

record run_state =
  rs_runId :: run_id
  rs_workflowId :: workflow_id
  rs_startedAt :: iso_time
  rs_finishedAt :: "iso_time option"
  rs_revision :: "int option"
  rs_parent :: "parent_ref option"
  rs_executionOptions :: "execution_options option"
  rs_control :: "run_control option"
  rs_workflowSnapshot :: "workflow_snapshot option"
  rs_mutableState :: "mutable_run_state option"
  rs_policySnapshot :: "policy_snapshot option"
  rs_engineCounters :: "engine_counters option"
  rs_status :: run_status
  rs_reason :: "halt_reason option"
  rs_pending :: "pending_execution option"
  rs_queue :: "queue_entry list"
  rs_outputsByNode :: "(node_id, node_outputs) jmap"
  rs_nodeSnapshotsByNodeId :: "(node_id, node_snapshot) jmap"
  rs_connectionInvocations :: "connection_invocation list option"
  rs_suspension :: "suspension_entry list option"
  rs_pendingResume :: "pending_resume option"

record create_run_args =
  ca_runId :: run_id
  ca_workflowId :: workflow_id
  ca_startedAt :: iso_time
  ca_parent :: "parent_ref option"
  ca_executionOptions :: "execution_options option"
  ca_control :: "run_control option"
  ca_workflowSnapshot :: "workflow_snapshot option"
  ca_mutableState :: "mutable_run_state option"
  ca_policySnapshot :: "policy_snapshot option"
  ca_engineCounters :: "engine_counters option"

record run_header =
  rh_runId :: run_id
  rh_workflowId :: workflow_id
  rh_startedAt :: iso_time

datatype run_result =
    ResCompleted run_header items
  | ResPending run_header pending_execution
  | ResFailed run_header string
  | ResHalted run_header halt_reason

datatype webhook_status = WhPending | WhCompleted

record webhook_result =
  wr_header :: run_header
  wr_runStatus :: webhook_status
  wr_response :: items

text \<open>Statuses after which the engine starts no further node of the run.\<close>

fun terminal_status :: "run_status \<Rightarrow> bool" where
  "terminal_status RunCompleted = True"
| "terminal_status RunFailed = True"
| "terminal_status RunHalted = True"
| "terminal_status _ = False"

section \<open>End time of a run (\<open>RunFinishedAtFactory\<close>)\<close>

text \<open>Comparison of strings by code units.\<close>

fun string_less :: "string \<Rightarrow> string \<Rightarrow> bool" where
  "string_less _ [] = False"
| "string_less [] (_ # _) = True"
| "string_less (a # as) (b # bs) =
    ((of_char a :: nat) < of_char b \<or> (a = b \<and> string_less as bs))"

text \<open>An empty string is falsy.\<close>

definition truthy_string :: "string option \<Rightarrow> bool" where
  "truthy_string s = (case s of None \<Rightarrow> False | Some t \<Rightarrow> t \<noteq> [])"

definition max_finishedAt :: "iso_time option \<Rightarrow> node_snapshot \<Rightarrow> iso_time option" where
  "max_finishedAt mx snap =
    (case ns_finishedAt snap of
       None \<Rightarrow> mx
     | Some t \<Rightarrow> if t \<noteq> [] \<and> (case mx of None \<Rightarrow> True | Some m \<Rightarrow> m = [] \<or> string_less m t) then Some t else mx)"

definition resolve_finishedAt :: "run_state \<Rightarrow> iso_time option" where
  "resolve_finishedAt st =
    (if truthy_string (rs_finishedAt st) \<and> rs_status st \<noteq> RunRunning \<and> rs_status st \<noteq> RunPending
     then rs_finishedAt st
     else if rs_status st = RunRunning \<or> rs_status st = RunPending then None
     else fold (\<lambda>snap mx. max_finishedAt mx snap) (map snd (rs_nodeSnapshotsByNodeId st)) None)"

lemma resolve_finishedAt_active:
  "rs_status st = RunRunning \<or> rs_status st = RunPending \<Longrightarrow> resolve_finishedAt st = None"
  by (auto simp: resolve_finishedAt_def)

end
