(* ===== verification/Classifier.thy ===== *)
theory Classifier
  imports Contracts
begin

text \<open>
  Which nodes of a workflow take part in the execution graph
  (\<open>WorkflowExecutableNodeClassifier\<close>), the ids of connection-owned children
  (\<open>ConnectionNodeIdFactory\<close>, \<open>NodeIterationIdFactory\<close>, \<open>ConnectionInvocationIdFactory\<close>) and the
  adjacency index \<open>ExecutableGraph\<close>.  Proved here: the classification, the default start node, and
  the round trip between building and parsing a connection node id.
\<close>

section \<open>Executable nodes\<close>

definition connection_owned_ids :: "workflow \<Rightarrow> node_id list" where
  "connection_owned_ids w = dedupe (concat (map cn_childNodeIds (opt_or (wf_connections w) [])))"

definition is_connection_owned :: "workflow \<Rightarrow> node_id \<Rightarrow> bool" where
  "is_connection_owned w n = (n \<in> set (connection_owned_ids w))"

definition is_executable :: "workflow \<Rightarrow> node_id \<Rightarrow> bool" where
  "is_executable w n = (n \<notin> set (connection_owned_ids w))"

definition filter_executable :: "workflow \<Rightarrow> node_def list \<Rightarrow> node_def list" where
  "filter_executable w nodes = filter (\<lambda>n. is_executable w (nd_id n)) nodes"

definition edge_executable :: "workflow \<Rightarrow> edge \<Rightarrow> bool" where
  "edge_executable w e = (is_executable w (or_node (e_from e)) \<and> is_executable w (ir_node (e_to e)))"

definition incoming_counts :: "workflow \<Rightarrow> (node_id, nat) jmap" where
  "incoming_counts w =
    fold (\<lambda>e m. if edge_executable w e
                then jset (ir_node (e_to e)) (Suc (opt_or (jget m (ir_node (e_to e))) 0)) m else m)
      (wf_edges w)
      (fold (\<lambda>n m. if is_executable w (nd_id n) then jset (nd_id n) 0 m else m) (wf_nodes w) [])"

definition no_executable_nodes :: "workflow \<Rightarrow> js_error" where
  "no_executable_nodes w = plain_error (''Workflow '' @ wf_id w @ '' has no executable nodes'')"

definition first_executable_id :: "workflow \<Rightarrow> node_id option" where
  "first_executable_id w = map_option nd_id (find (\<lambda>n. is_executable w (nd_id n)) (wf_nodes w))"

definition last_executable_id :: "workflow \<Rightarrow> js_error + node_id" where
  "last_executable_id w =
    (case find (\<lambda>n. is_executable w (nd_id n)) (rev (wf_nodes w)) of
       Some n \<Rightarrow> Inr (nd_id n)
     | None \<Rightarrow> Inl (no_executable_nodes w))"

definition default_start_id :: "workflow \<Rightarrow> js_error + node_id" where
  "default_start_id w =
    (let trigger = map_option nd_id
           (find (\<lambda>n. nd_kind n = TriggerKind \<and> is_executable w (nd_id n)) (wf_nodes w))
     in if truthy_string trigger then Inr (the trigger)
        else
          let incoming = incoming_counts w;
              start = map_option nd_id
                (find (\<lambda>n. is_executable w (nd_id n) \<and> opt_or (jget incoming (nd_id n)) 0 = 0) (wf_nodes w))
          in case opt_else start (first_executable_id w) of
               Some n \<Rightarrow> Inr n
             | None \<Rightarrow> Inl (no_executable_nodes w))"

lemma is_executable_iff: "is_executable w n \<longleftrightarrow> \<not> is_connection_owned w n"
  by (simp add: is_executable_def is_connection_owned_def)

lemma connection_owned_iff:
  "is_connection_owned w n \<longleftrightarrow> (\<exists>c \<in> set (opt_or (wf_connections w) []). n \<in> set (cn_childNodeIds c))"
  by (auto simp: is_connection_owned_def connection_owned_ids_def)

lemma no_connections_executable [simp]: "wf_connections w = None \<Longrightarrow> is_executable w n"
  by (simp add: is_executable_def connection_owned_ids_def)

lemma find_None_iff_all: "find P xs = None \<longleftrightarrow> (\<forall>x \<in> set xs. \<not> P x)"
  by (auto simp: find_None_iff)

lemma find_Some_mem: "find P xs = Some x \<Longrightarrow> x \<in> set xs \<and> P x"
  by (auto simp: find_Some_iff)

lemma incoming_counts_init:
  "opt_or (jget (fold (\<lambda>n m. if is_executable w (nd_id n) then jset (nd_id n) 0 m else m) ns m) k) 0
     = (if \<exists>n \<in> set ns. nd_id n = k \<and> is_executable w k then 0 else opt_or (jget m k) (0::nat))"
  by (induction ns arbitrary: m) auto

lemma incoming_counts_edges:
  "opt_or (jget (fold (\<lambda>e m. if edge_executable w e
        then jset (ir_node (e_to e)) (Suc (opt_or (jget m (ir_node (e_to e))) 0)) m else m) es m) k) 0
     = length (filter (\<lambda>e. edge_executable w e \<and> ir_node (e_to e) = k) es) + opt_or (jget m k) 0"
  by (induction es arbitrary: m) auto

lemma incoming_counts_eq:
  "opt_or (jget (incoming_counts w) k) 0
     = length (filter (\<lambda>e. edge_executable w e \<and> ir_node (e_to e) = k) (wf_edges w))"
  unfolding incoming_counts_def incoming_counts_edges by (simp add: incoming_counts_init)

lemma default_start_executable:
  assumes "default_start_id w = Inr n"
  shows "is_executable w n \<and> n \<in> nd_id ` set (wf_nodes w)"
proof -
  have found: "is_executable w n \<and> n \<in> nd_id ` set (wf_nodes w)"
    if "map_option nd_id (find (\<lambda>n. P n \<and> is_executable w (nd_id n)) (wf_nodes w)) = Some n" for P
    using that find_Some_mem by fastforce
  show ?thesis
  proof (cases "truthy_string (map_option nd_id
           (find (\<lambda>n. nd_kind n = TriggerKind \<and> is_executable w (nd_id n)) (wf_nodes w)))")
    case True
    then show ?thesis
      using assms found [of "\<lambda>n. nd_kind n = TriggerKind"]
      by (auto simp: default_start_id_def truthy_string_def split: option.splits)
  next
    case False
    hence "opt_else (map_option nd_id (find (\<lambda>n. is_executable w (nd_id n)
              \<and> opt_or (jget (incoming_counts w) (nd_id n)) 0 = 0) (wf_nodes w))) (first_executable_id w) = Some n"
      using assms by (simp add: default_start_id_def Let_def split: option.splits)
    then consider
        "map_option nd_id (find (\<lambda>n. is_executable w (nd_id n)
              \<and> opt_or (jget (incoming_counts w) (nd_id n)) 0 = 0) (wf_nodes w)) = Some n"
      | "first_executable_id w = Some n"
      by (metis opt_else.simps not_None_eq)
    then show ?thesis
    proof cases
      case 1
      then show ?thesis
        using found [of "\<lambda>n. opt_or (jget (incoming_counts w) (nd_id n)) 0 = 0"] by (simp add: conj_commute)
    next
      case 2
      then show ?thesis using found [of "\<lambda>_. True"] by (simp add: first_executable_id_def)
    qed
  qed
qed

section \<open>Connection node ids\<close>

definition conn_segment :: string where
  "conn_segment = ''__conn__''"

definition tool_marker :: string where
  "tool_marker = conn_segment @ ''tool'' @ conn_segment"

definition mcp_marker :: string where
  "mcp_marker = conn_segment @ ''mcp'' @ conn_segment"

definition is_js_space :: "char \<Rightarrow> bool" where
  "is_js_space c = ((of_char c :: nat) \<in> {9, 10, 11, 12, 13, 32, 160})"

definition js_trim :: "string \<Rightarrow> string" where
  "js_trim s = rev (dropWhile is_js_space (rev (dropWhile is_js_space s)))"

definition lower_char :: "char \<Rightarrow> char" where
  "lower_char c =
    (let n = (of_char c :: nat)
     in if 65 \<le> n \<and> n \<le> 90 \<or> 192 \<le> n \<and> n \<le> 222 \<and> n \<noteq> 215 then char_of (n + 32) else c)"

definition is_slug_char :: "char \<Rightarrow> bool" where
  "is_slug_char c = (let n = (of_char c :: nat) in 97 \<le> n \<and> n \<le> 122 \<or> 48 \<le> n \<and> n \<le> 57)"

text \<open>\<open>replace(/[^a-z0-9]+/g, "_")\<close>; the flag says that the previous character was replaced.\<close>

fun squash_runs :: "bool \<Rightarrow> string \<Rightarrow> string" where
  "squash_runs inRun [] = []"
| "squash_runs inRun (c # s) =
    (if is_slug_char c then c # squash_runs False s
     else if inRun then squash_runs True s else CHR ''_'' # squash_runs True s)"

definition strip_underscores :: "string \<Rightarrow> string" where
  "strip_underscores s =
    rev (dropWhile (\<lambda>c. c = CHR ''_'') (rev (dropWhile (\<lambda>c. c = CHR ''_'') s)))"

definition normalize_tool_name :: "string \<Rightarrow> string" where
  "normalize_tool_name t =
    (let s = strip_underscores (squash_runs False (map lower_char (js_trim t)))
     in if s = [] then ''tool'' else s)"

definition language_model_connection_id :: "node_id \<Rightarrow> node_id" where
  "language_model_connection_id p = p @ conn_segment @ ''llm''"

definition tool_connection_id :: "node_id \<Rightarrow> string \<Rightarrow> node_id" where
  "tool_connection_id p t = p @ tool_marker @ normalize_tool_name t"

definition mcp_connection_id :: "node_id \<Rightarrow> string \<Rightarrow> node_id" where
  "mcp_connection_id p srv = p @ mcp_marker @ srv"

definition is_mcp_connection_id :: "node_id \<Rightarrow> bool" where
  "is_mcp_connection_id n = str_includes mcp_marker n"

definition is_language_model_connection_id :: "node_id \<Rightarrow> bool" where
  "is_language_model_connection_id n = ends_with (conn_segment @ ''llm'') n"

definition is_tool_connection_id :: "node_id \<Rightarrow> bool" where
  "is_tool_connection_id n = str_includes tool_marker n"

text \<open>The parent and the rest around the last occurrence of a marker; both must be non-empty.\<close>

definition split_at_marker :: "string \<Rightarrow> node_id \<Rightarrow> (node_id \<times> string) option" where
  "split_at_marker marker n =
    (case last_index_of marker n of
       None \<Rightarrow> None
     | Some i \<Rightarrow>
         (let p = take i n; rest = drop (i + length marker) n
          in if p = [] \<or> rest = [] then None else Some (p, rest)))"

definition parse_mcp_connection_id :: "node_id \<Rightarrow> (node_id \<times> string) option" where
  "parse_mcp_connection_id n = (if is_mcp_connection_id n then split_at_marker mcp_marker n else None)"

definition parse_language_model_connection_id :: "node_id \<Rightarrow> node_id option" where
  "parse_language_model_connection_id n =
    (if is_language_model_connection_id n
     then (let p = take (length n - length (conn_segment @ ''llm'')) n in if p = [] then None else Some p)
     else None)"

definition parse_tool_connection_id :: "node_id \<Rightarrow> (node_id \<times> string) option" where
  "parse_tool_connection_id n = (if is_tool_connection_id n then split_at_marker tool_marker n else None)"

definition is_connection_owned_descendant :: "node_id \<Rightarrow> node_id \<Rightarrow> bool" where
  "is_connection_owned_descendant p n = starts_with (p @ conn_segment) n"

section \<open>Iteration and invocation ids\<close>

text \<open>The random UUID is an argument.\<close>

definition iteration_id :: "string \<Rightarrow> string" where
  "iteration_id uuid = ''iter_'' @ uuid"

definition iteration_id_for_test :: "string \<Rightarrow> nat \<Rightarrow> string" where
  "iteration_id_for_test seed n = ''iter_'' @ seed @ ''_'' @ string_of_nat n"

definition iteration_id_for_connection :: "node_id \<Rightarrow> nat \<Rightarrow> string" where
  "iteration_id_for_connection conn n = ''iter_'' @ conn @ ''_'' @ string_of_nat n"

definition invocation_id :: "string \<Rightarrow> string" where
  "invocation_id uuid = ''cinv_'' @ uuid"

definition invocation_id_for_test :: "run_id \<Rightarrow> node_id \<Rightarrow> nat \<Rightarrow> string" where
  "invocation_id_for_test r conn n = ''cinv_'' @ r @ ''_'' @ conn @ ''_'' @ string_of_nat n"

section \<open>The adjacency index \<open>ExecutableGraph\<close>\<close>

type_synonym adjacency = "(node_id, (port_key, input_ref list) jmap) jmap"

definition adjacency_add :: "edge \<Rightarrow> adjacency \<Rightarrow> adjacency" where
  "adjacency_add e m =
    (let byPort = opt_or (jget m (or_node (e_from e))) [];
         next' = jget_list byPort (or_output (e_from e)) @ [e_to e]
     in jset (or_node (e_from e)) (jset (or_output (e_from e)) next' byPort) m)"

definition executable_graph :: "workflow \<Rightarrow> adjacency" where
  "executable_graph w = fold adjacency_add (wf_edges w) []"

definition graph_next :: "adjacency \<Rightarrow> node_id \<Rightarrow> port_key \<Rightarrow> input_ref list" where
  "graph_next m n out = (case jget m n of None \<Rightarrow> [] | Some byPort \<Rightarrow> jget_list byPort out)"

lemma graph_next_adjacency_add:
  "graph_next (adjacency_add e m) n out
     = graph_next m n out @ (if or_node (e_from e) = n \<and> or_output (e_from e) = out then [e_to e] else [])"
  by (auto simp: graph_next_def adjacency_add_def Let_def split: option.split)

lemma graph_next_fold:
  "graph_next (fold adjacency_add es m) n out
     = graph_next m n out @ [e_to e. e \<leftarrow> es, or_node (e_from e) = n \<and> or_output (e_from e) = out]"
  by (induction es arbitrary: m) (auto simp: graph_next_adjacency_add)

section \<open>Parsing what was built\<close>

lemma last_index_of_append:
  "last_index_of p s = Some i \<Longrightarrow> last_index_of p (a @ s) = Some (length a + i)"
  by (induction a) simp_all

lemma last_index_of_None: "p \<noteq> [] \<Longrightarrow> last_index_of p s = None \<longleftrightarrow> \<not> str_includes p s"
  by (induction s) (auto split: option.splits)

lemma last_index_of_unique:
  assumes "p = c # p'" "\<not> str_includes p (p' @ b)"
  shows "last_index_of p (a @ p @ b) = Some (length a)"
proof -
  have "last_index_of p (p' @ b) = None" using assms by (simp add: last_index_of_None)
  hence "last_index_of p (p @ b) = Some 0" using assms(1) by (simp add: starts_with_def)
  thus ?thesis using last_index_of_append by fastforce
qed

lemma split_at_marker_unique:
  assumes "m = c # m'" "\<not> str_includes m (m' @ b)" "a \<noteq> []" "b \<noteq> []"
  shows "split_at_marker m (a @ m @ b) = Some (a, b)"
  using last_index_of_unique [OF assms(1,2), of a] assms(3,4) by (simp add: split_at_marker_def)

lemma squash_runs_no_double: "\<not> str_includes ''__'' (squash_runs r s) \<and> (r \<longrightarrow> \<not> starts_with ''_'' (squash_runs r s))"
proof (induction s arbitrary: r)
  case (Cons c s)
  have U: "\<not> is_slug_char CHR ''_''" by (simp add: is_slug_char_def)
  show ?case using Cons.IH [of True] Cons.IH [of False] U by (auto simp: starts_with_def)
qed (simp add: starts_with_def)

lemma str_includes_suffix: "str_includes p (dropWhile P s) \<Longrightarrow> str_includes p s"
  by (induction s) (auto split: if_splits)

lemma str_includes_prefix: "str_includes p a \<Longrightarrow> str_includes p (a @ b)"
  using str_includes_append [of p a "[]" b] by simp

lemma rev_dropWhile_prefix: "\<exists>t. s = rev (dropWhile P (rev s)) @ t"
  by (metis rev_append rev_rev_ident takeWhile_dropWhile_id)

lemma normalize_tool_name_no_double: "\<not> str_includes ''__'' (normalize_tool_name t)"
proof -
  let ?q = "squash_runs False (map lower_char (js_trim t))"
  let ?d = "dropWhile (\<lambda>c. c = CHR ''_'') ?q"
  obtain r where r: "?d = strip_underscores ?q @ r"
    using rev_dropWhile_prefix [of ?d] unfolding strip_underscores_def by metis
  have "\<not> str_includes ''__'' ?d" using squash_runs_no_double str_includes_suffix by blast
  hence "\<not> str_includes ''__'' (strip_underscores ?q)" using r str_includes_prefix by metis
  thus ?thesis by (simp add: normalize_tool_name_def Let_def starts_with_def)
qed

lemma normalize_tool_name_nonempty: "normalize_tool_name t \<noteq> []"
  by (simp add: normalize_tool_name_def Let_def)

lemma normalize_tool_name_head: "hd (normalize_tool_name t) \<noteq> CHR ''_''"
proof -
  let ?q = "squash_runs False (map lower_char (js_trim t))"
  let ?d = "dropWhile (\<lambda>c. c = CHR ''_'') ?q"
  obtain r where r: "?d = strip_underscores ?q @ r"
    using rev_dropWhile_prefix [of ?d] unfolding strip_underscores_def by metis
  show ?thesis
  proof (cases "strip_underscores ?q = []")
    case False
    hence "hd (strip_underscores ?q) = hd ?d" using r by (metis hd_append2)
    moreover have "?d \<noteq> []" using r False by simp
    ultimately show ?thesis
      using hd_dropWhile [of "\<lambda>c. c = CHR ''_''" ?q] False by (simp add: normalize_tool_name_def Let_def)
  qed (simp add: normalize_tool_name_def Let_def)
qed

lemma str_includes_Cons_not: "\<not> starts_with p (c # s) \<Longrightarrow> str_includes p (c # s) \<longleftrightarrow> str_includes p s"
  by simp

lemma starts_with_Nil [simp]: "starts_with p [] \<longleftrightarrow> p = []"
  by (auto simp: starts_with_def)

lemma starts_with_Cons [simp]: "starts_with (a # p) (b # s) \<longleftrightarrow> a = b \<and> starts_with p s"
  by (auto simp: starts_with_def)

lemma starts_with_empty [simp]: "starts_with [] s"
  by (simp add: starts_with_def)

text \<open>No occurrence of a marker starts inside the marker itself when the rest has no double underscore.\<close>

lemma tool_marker_last:
  assumes "\<not> str_includes ''__'' b" "b = x # b'" "x \<noteq> CHR ''_''"
  shows "\<not> str_includes tool_marker (tl tool_marker @ b)"
proof -
  have no: "\<not> str_includes (''__'' @ q) b" for q
    using assms(1) unfolding str_includes_iff by (metis append.assoc)
  have dbl: "\<not> starts_with (a @ ''__'' @ q) b" for a q
    using assms(1) unfolding starts_with_iff str_includes_iff by (metis append.assoc)
  have tb: "\<not> starts_with (''tool__'' @ q) b" for q using dbl [of "''tool''" q] by simp
  have cb: "\<not> starts_with (''conn__'' @ q) b" for q using dbl [of "''conn''" q] by simp
  show ?thesis
    using no [of "''conn__tool__conn__''"] tb [of "''conn__''"] cb [of "''tool__conn__''"] assms(2,3)
    by (simp add: tool_marker_def conn_segment_def)
qed

lemma tool_connection_split:
  assumes "p \<noteq> []"
  shows "split_at_marker tool_marker (p @ tool_marker @ normalize_tool_name t) = Some (p, normalize_tool_name t)"
proof -
  obtain x b where nb: "normalize_tool_name t = x # b"
    using normalize_tool_name_nonempty by (cases "normalize_tool_name t") auto
  hence "x \<noteq> CHR ''_''" using normalize_tool_name_head [of t] by simp
  hence "\<not> str_includes tool_marker (tl tool_marker @ normalize_tool_name t)"
    using tool_marker_last [OF normalize_tool_name_no_double nb] by blast
  moreover have "tool_marker = hd tool_marker # tl tool_marker" by (simp add: tool_marker_def conn_segment_def)
  ultimately show ?thesis
    using split_at_marker_unique [OF _ _ assms normalize_tool_name_nonempty] by blast
qed

text \<open>
  Round trip of tool connection ids: parsing the id built for a tool of a parent gives back exactly the
  parent and the normalised tool name, whatever the parent id (it may itself be a connection node id, as for
  nested agents) and whatever the tool's display name.
\<close>

theorem tool_connection_roundtrip:
  "p \<noteq> [] \<Longrightarrow> parse_tool_connection_id (tool_connection_id p t) = Some (p, normalize_tool_name t)"
  using tool_connection_split [of p t]
  by (auto simp: parse_tool_connection_id_def tool_connection_id_def is_tool_connection_id_def str_includes_iff)

theorem tool_connection_roundtrip_witness:
  "parse_tool_connection_id (tool_connection_id ''agent__conn__tool__conn__sub'' ''Search Mail'')
     = Some (''agent__conn__tool__conn__sub'', normalize_tool_name ''Search Mail'')
   \<and> normalize_tool_name '' Search  Mail! '' = ''search_mail''"
  by (rule conjI, rule tool_connection_roundtrip, simp, code_simp)

lemma language_model_connection_roundtrip:
  "p \<noteq> [] \<Longrightarrow> parse_language_model_connection_id (language_model_connection_id p) = Some p"
  by (simp add: parse_language_model_connection_id_def is_language_model_connection_id_def ends_with_def
      language_model_connection_id_def conn_segment_def Let_def)

lemma connection_ids_are_descendants:
  "is_connection_owned_descendant p (language_model_connection_id p)"
  "is_connection_owned_descendant p (tool_connection_id p t)"
  "is_connection_owned_descendant p (mcp_connection_id p srv)"
  by (auto simp: is_connection_owned_descendant_def language_model_connection_id_def tool_connection_id_def
      tool_marker_def mcp_connection_id_def mcp_marker_def starts_with_iff)

text \<open>The graph index returns the targets of the edges that leave a port, in declaration order.\<close>

lemma graph_next_executable_graph:
  "graph_next (executable_graph w) n out
     = [e_to e. e \<leftarrow> wf_edges w, or_node (e_from e) = n \<and> or_output (e_from e) = out]"
  unfolding executable_graph_def graph_next_fold by (simp add: graph_next_def)

end
