(* ===== verification/Topology.thy ===== *)
theory Topology
  imports Classifier
begin

text \<open>
  \<open>planning/WorkflowTopologyPlanner.ts\<close>: the indices of a workflow the planner works on.  Every map is
  built in the order of the declared nodes and edges.  Two edges into the same input of a node get
  collect keys of the form \<open>source:port\<close>, so that a merge node can tell them apart.
\<close>

record topo_in =
  ti_from :: output_ref
  ti_input :: port_key
  ti_collectKey :: port_key

record topo_out =
  to_output :: port_key
  to_nodeId :: node_id
  to_input :: port_key
  to_collectKey :: port_key

record topology =
  tp_defsById :: "(node_id, node_def) jmap"
  tp_outgoingByNode :: "(node_id, topo_out list) jmap"
  tp_incomingByNode :: "(node_id, topo_in list) jmap"
  tp_expectedInputsByNode :: "(node_id, port_key list) jmap"
  tp_rootNodeIds :: "node_id list"

definition topology_defs :: "workflow \<Rightarrow> (node_id, node_def) jmap" where
  "topology_defs w =
    fold (\<lambda>n m. if is_executable w (nd_id n) then jset (nd_id n) n m else m) (wf_nodes w) []"

text \<open>The loops over \<open>wf.edges\<close> skip an edge with an end that is not executable.\<close>

definition executable_edges :: "workflow \<Rightarrow> edge list" where
  "executable_edges w = filter (edge_executable w) (wf_edges w)"

definition incoming_raw :: "workflow \<Rightarrow> (node_id, topo_in list) jmap" where
  "incoming_raw w =
    jgroup (\<lambda>e. ir_node (e_to e))
      (\<lambda>e. \<lparr>ti_from = e_from e, ti_input = ir_input (e_to e), ti_collectKey = ir_input (e_to e)\<rparr>)
      (executable_edges w)"

definition count_inputs :: "topo_in list \<Rightarrow> (port_key, nat) jmap" where
  "count_inputs edges = fold (\<lambda>e m. jset (ti_input e) (Suc (opt_or (jget m (ti_input e)) 0)) m) edges []"

definition duplicate_input_counts :: "(node_id, topo_in list) jmap \<Rightarrow> (node_id, (port_key, nat) jmap) jmap" where
  "duplicate_input_counts incoming = map (\<lambda>(n, edges). (n, count_inputs edges)) incoming"

definition collect_key_for :: "(port_key, nat) jmap \<Rightarrow> output_ref \<Rightarrow> port_key \<Rightarrow> port_key" where
  "collect_key_for counts src inp =
    (if 1 < opt_or (jget counts inp) 0 then or_node src @ '':'' @ or_output src else inp)"

definition topology_incoming :: "workflow \<Rightarrow> (node_id, topo_in list) jmap" where
  "topology_incoming w =
    (let raw = incoming_raw w; dups = duplicate_input_counts raw
     in map (\<lambda>(n, edges). (n, map (\<lambda>e. e\<lparr>ti_collectKey :=
                collect_key_for (opt_or (jget dups n) []) (ti_from e) (ti_input e)\<rparr>) edges)) raw)"

definition topology_outgoing :: "workflow \<Rightarrow> (node_id, topo_out list) jmap" where
  "topology_outgoing w =
    (let dups = duplicate_input_counts (incoming_raw w)
     in jgroup (\<lambda>e. or_node (e_from e))
          (\<lambda>e. \<lparr>to_output = or_output (e_from e), to_nodeId = ir_node (e_to e), to_input = ir_input (e_to e),
                to_collectKey = collect_key_for (opt_or (jget dups (ir_node (e_to e))) []) (e_from e) (ir_input (e_to e))\<rparr>)
          (executable_edges w))"

definition topology_expected :: "(node_id, topo_in list) jmap \<Rightarrow> (node_id, port_key list) jmap" where
  "topology_expected incoming = map (\<lambda>(n, edges). (n, dedupe (map ti_collectKey edges))) incoming"

definition topology_roots :: "workflow \<Rightarrow> (node_id, topo_in list) jmap \<Rightarrow> node_id list" where
  "topology_roots w incoming =
    map nd_id (filter (\<lambda>n. is_executable w (nd_id n) \<and> \<not> jhas incoming (nd_id n)) (wf_nodes w))"

definition topology_of :: "workflow \<Rightarrow> topology" where
  "topology_of w =
    \<lparr>tp_defsById = topology_defs w,
     tp_outgoingByNode = topology_outgoing w,
     tp_incomingByNode = topology_incoming w,
     tp_expectedInputsByNode = topology_expected (topology_incoming w),
     tp_rootNodeIds = topology_roots w (topology_incoming w)\<rparr>"

text \<open>The lookups with their \<open>?? []\<close> defaults, as every client of the topology writes them.\<close>

abbreviation topo_outgoing :: "topology \<Rightarrow> node_id \<Rightarrow> topo_out list" where
  "topo_outgoing tp n \<equiv> jget_list (tp_outgoingByNode tp) n"

abbreviation topo_incoming :: "topology \<Rightarrow> node_id \<Rightarrow> topo_in list" where
  "topo_incoming tp n \<equiv> jget_list (tp_incomingByNode tp) n"

abbreviation topo_expected :: "topology \<Rightarrow> node_id \<Rightarrow> port_key list" where
  "topo_expected tp n \<equiv> jget_list (tp_expectedInputsByNode tp) n"

section \<open>Content of the indices\<close>

definition edges_into :: "workflow \<Rightarrow> node_id \<Rightarrow> edge list" where
  "edges_into w n = filter (\<lambda>e. ir_node (e_to e) = n) (executable_edges w)"

definition edges_out_of :: "workflow \<Rightarrow> node_id \<Rightarrow> edge list" where
  "edges_out_of w n = filter (\<lambda>e. or_node (e_from e) = n) (executable_edges w)"

text \<open>The collect key an edge should have: its input, unless another edge uses the same input.\<close>

definition edge_collect_key :: "workflow \<Rightarrow> edge \<Rightarrow> port_key" where
  "edge_collect_key w e =
    (if 1 < length (filter (\<lambda>e'. ir_input (e_to e') = ir_input (e_to e)) (edges_into w (ir_node (e_to e))))
     then or_node (e_from e) @ '':'' @ or_output (e_from e) else ir_input (e_to e))"

lemma concat_map_if_filter: "concat (map (\<lambda>e. if P e then [f e] else []) es) = map f (filter P es)"
  by (induction es) auto

lemma count_inputs_fold:
  "opt_or (jget (fold (\<lambda>e m. jset (ti_input e) (Suc (opt_or (jget m (ti_input e)) 0)) m) edges m) i) 0
     = length (filter (\<lambda>e. ti_input e = i) edges) + opt_or (jget m i) 0"
  by (induction edges arbitrary: m) auto

lemma count_inputs_eq:
  "opt_or (jget (count_inputs edges) i) 0 = length (filter (\<lambda>e. ti_input e = i) edges)"
  unfolding count_inputs_def count_inputs_fold by simp

lemma jget_list_incoming_raw:
  "jget_list (incoming_raw w) n =
     map (\<lambda>e. \<lparr>ti_from = e_from e, ti_input = ir_input (e_to e), ti_collectKey = ir_input (e_to e)\<rparr>) (edges_into w n)"
  by (simp add: incoming_raw_def jget_list_jgroup concat_map_if_filter edges_into_def)

lemma opt_or_map_option_Nil: "f [] = [] \<Longrightarrow> opt_or (map_option f x) [] = f (opt_or x [])"
  by (cases x) simp_all

lemma collect_key_for_eq:
  assumes "n = ir_node (e_to e)"
  shows "collect_key_for (opt_or (jget (duplicate_input_counts (incoming_raw w)) n) []) (e_from e) (ir_input (e_to e))
    = edge_collect_key w e"
proof -
  have "opt_or (jget (opt_or (jget (duplicate_input_counts (incoming_raw w)) n) []) i) 0
      = length (filter (\<lambda>e. ir_input (e_to e) = i) (edges_into w n))" for i
  proof -
    have "opt_or (jget (duplicate_input_counts (incoming_raw w)) n) [] = count_inputs (jget_list (incoming_raw w) n)"
      unfolding duplicate_input_counts_def jget_map_val
      by (rule opt_or_map_option_Nil) (simp add: count_inputs_def)
    thus ?thesis
      by (simp add: count_inputs_eq jget_list_incoming_raw filter_map comp_def)
  qed
  thus ?thesis using assms by (simp add: collect_key_for_def edge_collect_key_def)
qed

lemma topo_incoming_eq:
  "topo_incoming (topology_of w) n =
     map (\<lambda>e. \<lparr>ti_from = e_from e, ti_input = ir_input (e_to e), ti_collectKey = edge_collect_key w e\<rparr>) (edges_into w n)"
proof -
  let ?f = "\<lambda>n edges. map (\<lambda>e. e\<lparr>ti_collectKey := collect_key_for
      (opt_or (jget (duplicate_input_counts (incoming_raw w)) n) []) (ti_from e) (ti_input e)\<rparr>) edges"
  have "topo_incoming (topology_of w) n = ?f n (jget_list (incoming_raw w) n)"
    unfolding topology_of_def topology_incoming_def Let_def topology.simps jget_map_val
    by (rule opt_or_map_option_Nil) simp
  also have "\<dots> = map (\<lambda>e. \<lparr>ti_from = e_from e, ti_input = ir_input (e_to e), ti_collectKey = edge_collect_key w e\<rparr>)
      (edges_into w n)"
    by (auto simp: jget_list_incoming_raw edges_into_def collect_key_for_eq)
  finally show ?thesis .
qed

lemma topo_outgoing_eq:
  "topo_outgoing (topology_of w) n =
     map (\<lambda>e. \<lparr>to_output = or_output (e_from e), to_nodeId = ir_node (e_to e), to_input = ir_input (e_to e),
               to_collectKey = edge_collect_key w e\<rparr>) (edges_out_of w n)"
  by (simp add: topology_of_def topology_outgoing_def Let_def jget_list_jgroup concat_map_if_filter
      edges_out_of_def collect_key_for_eq)

lemma topo_expected_eq:
  "topo_expected (topology_of w) n = dedupe (map (edge_collect_key w) (edges_into w n))"
proof -
  have "topo_expected (topology_of w) n = dedupe (map ti_collectKey (topo_incoming (topology_of w) n))"
    unfolding topology_of_def topology_expected_def topology.simps jget_map_val
    by (rule opt_or_map_option_Nil) simp
  thus ?thesis by (simp add: topo_incoming_eq comp_def)
qed

lemma edges_into_iff: "e \<in> set (edges_into w n) \<longleftrightarrow> e \<in> set (wf_edges w) \<and> edge_executable w e \<and> ir_node (e_to e) = n"
  by (auto simp: edges_into_def executable_edges_def)

lemma edges_out_of_iff:
  "e \<in> set (edges_out_of w n) \<longleftrightarrow> e \<in> set (wf_edges w) \<and> edge_executable w e \<and> or_node (e_from e) = n"
  by (auto simp: edges_out_of_def executable_edges_def)

lemma jget_topology_defs_fold:
  "jget (fold (\<lambda>n m. if is_executable w (nd_id n) then jset (nd_id n) n m else m) (ns :: node_def list) m) k
     = opt_else (find (\<lambda>n. nd_id n = k \<and> is_executable w k) (rev ns)) (jget m k)"
proof (induction ns arbitrary: m)
  case (Cons n ns)
  have F: "find P (xs @ [x]) = opt_else (find P xs) (if P x then Some x else None)" for P xs and x :: node_def
    by (induction xs) auto
  show ?case
    by (cases "find (\<lambda>n. nd_id n = k \<and> is_executable w k) (rev ns)") (auto simp: Cons.IH F)
qed simp

lemma tp_defsById_eq:
  "jget (tp_defsById (topology_of w)) k = find (\<lambda>n. nd_id n = k \<and> is_executable w k) (rev (wf_nodes w))"
  using jget_topology_defs_fold [of w "wf_nodes w" "[]" k]
  by (simp add: topology_of_def topology_defs_def)
     (cases "find (\<lambda>n. nd_id n = k \<and> is_executable w k) (rev (wf_nodes w))"; simp)

lemma jhas_tp_defsById:
  "jhas (tp_defsById (topology_of w)) k \<longleftrightarrow> is_executable w k \<and> k \<in> nd_id ` set (wf_nodes w)"
  by (auto simp: jhas_def tp_defsById_eq find_None_iff)

lemma tp_defsById_mem:
  "jget (tp_defsById (topology_of w)) k = Some d \<Longrightarrow> d \<in> set (wf_nodes w) \<and> nd_id d = k \<and> is_executable w k"
  by (auto simp: tp_defsById_eq dest: find_Some_mem)

lemma distinct_defs_fold:
  "distinct (jkeys m) \<Longrightarrow>
     distinct (jkeys (fold (\<lambda>n m. if is_executable w (nd_id n) then jset (nd_id n) n m else m) ns m))"
  by (induction ns arbitrary: m) auto

lemma distinct_tp_defsById [simp]: "distinct (jkeys (tp_defsById (topology_of w)))"
  unfolding topology_of_def topology_defs_def by (simp add: distinct_defs_fold)

lemma jhas_topology_incoming: "jhas (topology_incoming w) n \<longleftrightarrow> edges_into w n \<noteq> []"
  by (auto simp: jhas_def topology_incoming_def Let_def jget_map_val incoming_raw_def jget_jgroup
           edges_into_def filter_empty_conv)

lemma jhas_tp_expected: "jhas (tp_expectedInputsByNode (topology_of w)) n \<longleftrightarrow> edges_into w n \<noteq> []"
  unfolding jhas_topology_incoming [symmetric]
  by (simp add: topology_of_def topology_expected_def jhas_def jget_map_val)

lemma tp_roots_iff:
  "n \<in> set (tp_rootNodeIds (topology_of w)) \<longleftrightarrow>
     n \<in> nd_id ` set (wf_nodes w) \<and> is_executable w n \<and> edges_into w n = []"
  by (auto simp: topology_of_def topology_roots_def jhas_topology_incoming)

section \<open>Properties\<close>

lemma output_ref_eq_iff: "r = \<lparr>or_node = a, or_output = out\<rparr> \<longleftrightarrow> or_node r = a \<and> or_output r = (out :: port_key)"
  by (cases r) simp

lemma mem_topo_outgoing:
  "\<lparr>to_output = out, to_nodeId = b, to_input = i, to_collectKey = k\<rparr> \<in> set (topo_outgoing (topology_of w) a) \<longleftrightarrow>
     (\<exists>e \<in> set (wf_edges w). edge_executable w e \<and> e_from e = \<lparr>or_node = a, or_output = out\<rparr>
        \<and> ir_node (e_to e) = b \<and> ir_input (e_to e) = i \<and> edge_collect_key w e = k)"
  unfolding topo_outgoing_eq set_map image_iff Bex_def edges_out_of_iff output_ref_eq_iff by auto

lemma mem_topo_incoming:
  "\<lparr>ti_from = r, ti_input = i, ti_collectKey = k\<rparr> \<in> set (topo_incoming (topology_of w) b) \<longleftrightarrow>
     (\<exists>e \<in> set (wf_edges w). edge_executable w e \<and> e_from e = r
        \<and> ir_node (e_to e) = b \<and> ir_input (e_to e) = i \<and> edge_collect_key w e = k)"
  unfolding topo_incoming_eq set_map image_iff Bex_def edges_into_iff by auto

text \<open>
  Incoming and outgoing index agree: an edge is listed under its source (with its target, input and collect
  key) exactly when it is listed under its target (with its source, input and the same collect key).
\<close>

theorem topology_indices_agree:
  "(\<lparr>to_output = out, to_nodeId = b, to_input = i, to_collectKey = k\<rparr> \<in> set (topo_outgoing (topology_of w) a))
     = (\<lparr>ti_from = \<lparr>or_node = a, or_output = out\<rparr>, ti_input = i, ti_collectKey = k\<rparr> \<in> set (topo_incoming (topology_of w) b))"
  unfolding mem_topo_outgoing mem_topo_incoming by (auto simp: output_ref_eq_iff)

text \<open>The expected inputs are the collect keys of the incoming edges, each once.\<close>

lemma topo_expected_set: "set (topo_expected (topology_of w) n) = ti_collectKey ` set (topo_incoming (topology_of w) n)"
  by (simp add: topo_expected_eq topo_incoming_eq image_image)

lemma topo_expected_distinct [simp]: "distinct (topo_expected (topology_of w) n)"
  by (simp add: topo_expected_eq)

lemma topo_outgoing_collectKey:
  "e \<in> set (topo_outgoing (topology_of w) a) \<Longrightarrow> to_collectKey e \<in> set (topo_expected (topology_of w) (to_nodeId e))"
  by (auto simp: topo_outgoing_eq topo_expected_eq edges_out_of_iff edges_into_iff image_iff)

lemma topo_outgoing_edge:
  "e \<in> set (topo_outgoing (topology_of w) a) \<Longrightarrow>
     \<exists>d \<in> set (wf_edges w). edge_executable w d \<and> or_node (e_from d) = a \<and> ir_node (e_to d) = to_nodeId e"
  by (auto simp: topo_outgoing_eq edges_out_of_iff)

text \<open>No colon in the node ids and ports of the workflow's edges.\<close>

definition colon_free :: "workflow \<Rightarrow> bool" where
  "colon_free w = list_all (\<lambda>e. CHR '':'' \<notin> set (or_node (e_from e)) \<and> CHR '':'' \<notin> set (or_output (e_from e))
      \<and> CHR '':'' \<notin> set (ir_input (e_to e))) (wf_edges w)"

lemma colon_split_unique:
  "a @ CHR '':'' # b = a' @ CHR '':'' # b' \<Longrightarrow> CHR '':'' \<notin> set a \<Longrightarrow> CHR '':'' \<notin> set a' \<Longrightarrow> a = a' \<and> b = b'"
proof (induction a arbitrary: a')
  case Nil
  thus ?case by (cases a') auto
next
  case (Cons x a)
  thus ?case by (cases a') auto
qed

lemma filter_length_le_one: "x \<in> set (filter P xs) \<Longrightarrow> y \<in> set (filter P xs) \<Longrightarrow> \<not> 1 < length (filter P xs) \<Longrightarrow> x = y"
  by (cases "filter P xs"; cases "tl (filter P xs)") auto

lemma collect_key_source:
  assumes "colon_free w"
    and "e \<in> set (topo_incoming (topology_of w) n)"
    and "e' \<in> set (topo_incoming (topology_of w) n)"
    and "ti_collectKey e = ti_collectKey e'"
  shows "ti_from e = ti_from e'"
proof -
  obtain d d' where d: "d \<in> set (edges_into w n)" "e = \<lparr>ti_from = e_from d, ti_input = ir_input (e_to d), ti_collectKey = edge_collect_key w d\<rparr>"
    and d': "d' \<in> set (edges_into w n)" "e' = \<lparr>ti_from = e_from d', ti_input = ir_input (e_to d'), ti_collectKey = edge_collect_key w d'\<rparr>"
    using assms(2,3) by (auto simp: topo_incoming_eq)
  have keys: "edge_collect_key w d = edge_collect_key w d'" using assms(4) d(2) d'(2) by simp
  have nodes: "ir_node (e_to d) = n" "ir_node (e_to d') = n" using d(1) d'(1) by (auto simp: edges_into_iff)
  have cf: "CHR '':'' \<notin> set (or_node (e_from x))" "CHR '':'' \<notin> set (ir_input (e_to x))" if "x \<in> set (edges_into w n)" for x
    using assms(1) that by (auto simp: colon_free_def list_all_iff edges_into_iff)
  let ?dup = "\<lambda>x. 1 < length (filter (\<lambda>y. ir_input (e_to y) = ir_input (e_to x)) (edges_into w n))"
  have key: "edge_collect_key w x = (if ?dup x then or_node (e_from x) @ '':'' @ or_output (e_from x) else ir_input (e_to x))"
    if "ir_node (e_to x) = n" for x using that by (simp add: edge_collect_key_def)
  show ?thesis
  proof (cases "?dup d")
    case True
    hence k: "or_node (e_from d) @ '':'' @ or_output (e_from d) = edge_collect_key w d'" using key nodes(1) keys by simp
    have "?dup d'"
    proof (rule ccontr)
      assume "\<not> ?dup d'"
      hence "ir_input (e_to d') = or_node (e_from d) @ '':'' @ or_output (e_from d)" using key nodes(2) k by simp
      thus False using cf(2) [OF d'(1)] by simp
    qed
    hence "or_node (e_from d) @ CHR '':'' # or_output (e_from d) = or_node (e_from d') @ CHR '':'' # or_output (e_from d')"
      using key nodes(2) k by simp
    hence "or_node (e_from d) = or_node (e_from d') \<and> or_output (e_from d) = or_output (e_from d')"
      using cf(1) [OF d(1)] cf(1) [OF d'(1)] by (rule colon_split_unique)
    hence "e_from d = e_from d'" by simp
    thus ?thesis using d(2) d'(2) by simp
  next
    case False
    have "\<not> ?dup d'"
    proof
      assume "?dup d'"
      hence "ir_input (e_to d) = or_node (e_from d') @ '':'' @ or_output (e_from d')" using key nodes keys False by simp
      thus False using cf(2) [OF d(1)] by simp
    qed
    hence "ir_input (e_to d) = ir_input (e_to d')" using key nodes keys False by simp
    hence "d = d'" using filter_length_le_one [of d "\<lambda>y. ir_input (e_to y) = ir_input (e_to d)" "edges_into w n" d'] d(1) d'(1) False by simp
    thus ?thesis using d(2) d'(2) by simp
  qed
qed

lemma outgoing_key_source:
  assumes "colon_free w" "e \<in> set (topo_outgoing (topology_of w) a)" "e' \<in> set (topo_outgoing (topology_of w) a')"
    and "to_nodeId e = to_nodeId e'" "to_collectKey e = to_collectKey e'"
  shows "a = a' \<and> to_output e = to_output e'"
proof -
  have inc: "\<lparr>ti_from = \<lparr>or_node = n, or_output = to_output d\<rparr>, ti_input = to_input d, ti_collectKey = to_collectKey d\<rparr>
      \<in> set (topo_incoming (topology_of w) (to_nodeId d))" if d: "d \<in> set (topo_outgoing (topology_of w) n)" for d n
  proof -
    have "\<lparr>to_output = to_output d, to_nodeId = to_nodeId d, to_input = to_input d, to_collectKey = to_collectKey d\<rparr> = d"
      by simp
    thus ?thesis using d mem_topo_outgoing unfolding mem_topo_incoming by metis
  qed
  show ?thesis
    using collect_key_source [OF assms(1) inc [OF assms(2)]] inc [OF assms(3)] assms(4,5) by fastforce
qed

text \<open>
  A collect key never mixes two data streams: two incoming edges of a node that share a collect key have the
  same source node and the same source port, when no id or port of the workflow contains a colon.  So the items
  stored under a key of a merge node are the items of one output port.
\<close>

theorem collect_key_determines_source:
  assumes "colon_free w"
    and "e \<in> set (topo_incoming (topology_of w) n)"
    and "e' \<in> set (topo_incoming (topology_of w) n)"
    and "ti_collectKey e = ti_collectKey e'"
  shows "ti_from e = ti_from e'"
  using assms by (rule collect_key_source)

end
