(* ===== verification/Planning.thy ===== *)
theory Planning
  imports Topology
begin

text \<open>
  \<open>planning/EngineWorkflowPlanningFactory.ts\<close>: the check that a workflow has no directed cycle, by a
  three-colour depth-first search that throws on an edge to a node it is still visiting.  The recursion
  is on fuel, the number of declared nodes plus one; it is proved that the fuel never runs out, and that
  the check accepts exactly the workflows whose edges between declared executable nodes are acyclic.
\<close>

section \<open>Node instances\<close>

text \<open>
  What the planner asks of a node instance: its \<open>kind\<close>, whether \<open>execute\<close> and
  \<open>executeMulti\<close> are functions, and the name of its constructor.
\<close>

record node_instance =
  ni_kind :: "node_kind option"
  ni_hasExecute :: bool
  ni_hasExecuteMulti :: bool
  ni_ctorName :: "string option"

type_synonym node_instances = "(node_id, node_instance) jmap"

section \<open>The depth-first search\<close>

datatype visit_state = Unvisited | Visiting | VisitDone

fun visit_rank :: "visit_state \<Rightarrow> nat" where
  "visit_rank Unvisited = 0"
| "visit_rank Visiting = 1"
| "visit_rank VisitDone = 2"

lemma visit_rank_inj: "visit_rank a = visit_rank b \<longleftrightarrow> a = b"
  by (cases a; cases b) simp_all

text \<open>A visit only moves a node forward in this order.\<close>

instantiation visit_state :: linorder
begin

definition less_eq_visit_state :: "visit_state \<Rightarrow> visit_state \<Rightarrow> bool" where
  "a \<le> b \<longleftrightarrow> visit_rank a \<le> visit_rank b"

definition less_visit_state :: "visit_state \<Rightarrow> visit_state \<Rightarrow> bool" where
  "a < b \<longleftrightarrow> visit_rank a < visit_rank b"

instance
  by standard (auto simp: less_eq_visit_state_def less_visit_state_def visit_rank_inj [symmetric])

end

type_synonym visit_map = "(node_id, visit_state) jmap"
type_synonym destinations = "(node_id, node_id list) jmap"

definition cycle_error :: "node_id \<Rightarrow> node_id \<Rightarrow> js_error" where
  "cycle_error a b =
    plain_error (''Workflow graph contains a directed cycle (edge '' @ a @ '' -> '' @ b @ '').'')"

fun depth_first_search :: "nat \<Rightarrow> destinations \<Rightarrow> node_id \<Rightarrow> visit_map \<Rightarrow> js_error + visit_map" where
  "depth_first_search 0 out n vs = Inl stack_overflow"
| "depth_first_search (Suc fuel) out n vs =
    (case fold_result
        (\<lambda>to vs'. case jget vs' to of
            Some Visiting \<Rightarrow> Inl (cycle_error n to)
          | Some Unvisited \<Rightarrow> depth_first_search fuel out to vs'
          | _ \<Rightarrow> Inr vs')
        (jget_list out n) (jset n Visiting vs) of
       Inl e \<Rightarrow> Inl e
     | Inr vs' \<Rightarrow> Inr (jset n VisitDone vs'))"

definition initial_visit_state :: "workflow \<Rightarrow> visit_map" where
  "initial_visit_state w =
    fold (\<lambda>n m. if is_executable w (nd_id n) then jset (nd_id n) Unvisited m else m) (wf_nodes w) []"

definition dfs_outgoing :: "workflow \<Rightarrow> destinations" where
  "dfs_outgoing w = jgroup (\<lambda>e. or_node (e_from e)) (\<lambda>e. ir_node (e_to e)) (executable_edges w)"

definition dfs_fuel :: "workflow \<Rightarrow> nat" where
  "dfs_fuel w = Suc (length (wf_nodes w))"

definition validate_acyclic :: "workflow \<Rightarrow> js_error + unit" where
  "validate_acyclic w =
    (case fold_result
        (\<lambda>n vs. if is_executable w (nd_id n) \<and> jget vs (nd_id n) = Some Unvisited
                then depth_first_search (dfs_fuel w) (dfs_outgoing w) (nd_id n) vs else Inr vs)
        (wf_nodes w) (initial_visit_state w) of
       Inl e \<Rightarrow> Inl e
     | Inr _ \<Rightarrow> Inr ())"

section \<open>Correctness of the search\<close>

abbreviation in_state :: "visit_map \<Rightarrow> visit_state \<Rightarrow> node_id set" where
  "in_state vs s \<equiv> {n. jget vs n = Some s}"

definition search_edges :: "node_id set \<Rightarrow> destinations \<Rightarrow> (node_id \<times> node_id) set" where
  "search_edges D out = {(a, b). a \<in> D \<and> b \<in> D \<and> b \<in> set (jget_list out a)}"

text \<open>
  What holds between two visits: the map covers the declared nodes, the finished nodes are closed under
  the edges, and no cycle runs through finished nodes.
\<close>

definition search_inv :: "node_id set \<Rightarrow> destinations \<Rightarrow> visit_map \<Rightarrow> bool" where
  "search_inv D out vs \<longleftrightarrow>
     fst ` set vs = D
   \<and> search_edges D out `` in_state vs VisitDone \<subseteq> in_state vs VisitDone
   \<and> acyclic (search_edges D out \<inter> in_state vs VisitDone \<times> in_state vs VisitDone)"

definition advanced :: "visit_map \<Rightarrow> visit_map \<Rightarrow> bool" where
  "advanced vs vs' \<longleftrightarrow> in_state vs' Visiting = in_state vs Visiting \<and> in_state vs VisitDone \<subseteq> in_state vs' VisitDone"

text \<open>A thrown error names an edge that closes a cycle.\<close>

definition cycle_witness :: "(node_id \<times> node_id) set \<Rightarrow> js_error \<Rightarrow> bool" where
  "cycle_witness E err \<longleftrightarrow> (\<exists>a b. err = cycle_error a b \<and> (a, b) \<in> E \<and> (b, a) \<in> E\<^sup>*)"

lemma advanced_refl [simp]: "advanced vs vs"
  by (simp add: advanced_def)

lemma advanced_visiting: "advanced vs vs' \<Longrightarrow> jget vs' k = Some Visiting \<longleftrightarrow> jget vs k = Some Visiting"
  by (simp add: advanced_def set_eq_iff)

lemma advanced_done: "advanced vs vs' \<Longrightarrow> jget vs k = Some VisitDone \<Longrightarrow> jget vs' k = Some VisitDone"
  by (auto simp: advanced_def)

lemma advanced_trans [trans]: "advanced a b \<Longrightarrow> advanced b c \<Longrightarrow> advanced a c"
  by (auto simp: advanced_def)

lemma visit_state_cases_map:
  assumes "k \<in> fst ` set vs"
  shows "jget vs k = Some Unvisited \<or> jget vs k = Some Visiting \<or> jget vs k = Some VisitDone"
  using key_jget_Some [OF assms] visit_state.exhaust by metis

lemma advanced_unvisited:
  assumes "advanced vs vs'" "fst ` set vs = D" "fst ` set vs' = D"
  shows "in_state vs' Unvisited \<subseteq> in_state vs Unvisited"
proof
  fix k assume k: "k \<in> in_state vs' Unvisited"
  hence "jget vs' k = Some Unvisited" by simp
  hence "k \<in> fst ` set vs'" by (rule jget_Some_key)
  hence "jget vs k = Some Unvisited \<or> jget vs k = Some Visiting \<or> jget vs k = Some VisitDone"
    using assms(2,3) visit_state_cases_map [of k vs] by simp
  moreover have "jget vs k \<noteq> Some Visiting"
  proof
    assume "jget vs k = Some Visiting"
    hence "k \<in> in_state vs' Visiting" using assms(1) by (simp add: advanced_def)
    thus False using k by simp
  qed
  ultimately show "k \<in> in_state vs Unvisited" using k assms(1) by (auto simp: advanced_def)
qed

lemma acyclic_add_source:
  assumes "acyclic (R - {n} \<times> UNIV)" "n \<notin> Range R"
  shows "acyclic R"
proof (rule acyclicI, intro allI notI)
  fix x assume c: "(x, x) \<in> R\<^sup>+"
  have avoid: "(x, y) \<in> (R - {n} \<times> UNIV)\<^sup>+" if "(x, y) \<in> R\<^sup>+" "x \<noteq> n" for y
    using that
  proof (induction rule: trancl_induct)
    case (step y z)
    have "y \<noteq> n" using step.hyps(1) assms(2) by (metis RangeI trancl.cases)
    hence "(y, z) \<in> R - {n} \<times> UNIV" using step.hyps(2) by simp
    thus ?case using step by (meson trancl.trancl_into_trancl)
  qed auto
  have "x \<noteq> n" using c assms(2) by (metis RangeI trancl.cases)
  thus False using avoid [OF c] assms(1) by (auto simp: acyclic_def)
qed

text \<open>Finishing a node whose successors are all finished keeps the invariant.\<close>

lemma search_inv_finish:
  assumes inv: "search_inv D out vs" and n: "n \<in> D" "n \<notin> in_state vs VisitDone"
    and succs: "\<forall>b \<in> set (jget_list out n) \<inter> D. b \<in> in_state vs VisitDone"
  shows "search_inv D out (jset n VisitDone vs)"
proof -
  let ?E = "search_edges D out" and ?F = "in_state vs VisitDone"
  have done': "in_state (jset n VisitDone vs) VisitDone = insert n ?F" by auto
  have closed: "?E `` insert n ?F \<subseteq> ?F"
    using inv succs by (auto simp: search_inv_def search_edges_def)
  have "acyclic (?E \<inter> insert n ?F \<times> insert n ?F)"
  proof (rule acyclic_add_source)
    have "?E \<inter> insert n ?F \<times> insert n ?F - {n} \<times> UNIV \<subseteq> ?E \<inter> ?F \<times> ?F" using closed by auto
    moreover have "acyclic (?E \<inter> ?F \<times> ?F)" using inv by (simp add: search_inv_def)
    ultimately show "acyclic (?E \<inter> insert n ?F \<times> insert n ?F - {n} \<times> UNIV)"
      using acyclic_subset by blast
    show "n \<notin> Range (?E \<inter> insert n ?F \<times> insert n ?F)" using closed n(2) by auto
  qed
  thus ?thesis
    using inv n(1) closed unfolding search_inv_def done' by auto
qed

lemma search_inv_start:
  assumes "search_inv D out vs" "n \<in> D" "jget vs n = Some Unvisited"
  shows "search_inv D out (jset n Visiting vs)"
proof -
  have "in_state (jset n Visiting vs) VisitDone = in_state vs VisitDone" using assms(3) by auto
  thus ?thesis using assms(1,2) unfolding search_inv_def by auto
qed

text \<open>The contract of one visit, with everything the caller needs of its result.\<close>

definition visit_post :: "node_id set \<Rightarrow> destinations \<Rightarrow> node_id \<Rightarrow> visit_map \<Rightarrow> js_error + visit_map \<Rightarrow> bool" where
  "visit_post D out n vs r \<longleftrightarrow>
    (case r of
       Inl err \<Rightarrow> cycle_witness (search_edges D out) err
     | Inr vs' \<Rightarrow> search_inv D out vs' \<and> advanced vs vs' \<and> n \<in> in_state vs' VisitDone)"

definition visit_pre :: "node_id set \<Rightarrow> destinations \<Rightarrow> nat \<Rightarrow> node_id \<Rightarrow> visit_map \<Rightarrow> bool" where
  "visit_pre D out fuel n vs \<longleftrightarrow>
     finite D \<and> search_inv D out vs \<and> n \<in> D \<and> jget vs n = Some Unvisited
   \<and> card (in_state vs Unvisited) \<le> fuel
   \<and> (\<forall>v \<in> in_state vs Visiting. (v, n) \<in> (search_edges D out)\<^sup>*)"

lemma finite_in_state: "fst ` set vs = D \<Longrightarrow> finite (in_state vs s)"
  by (rule finite_subset [of _ "fst ` set vs"]) (auto dest: jget_Some_key)

text \<open>The loop over the destinations of \<open>n\<close>, given the contract of the visits it makes.\<close>

lemma visit_loop:
  assumes visit: "\<And>to vs. visit_pre D out fuel to vs \<Longrightarrow> visit_post D out to vs (visit to vs)"
    and "finite D" "n \<in> D" "search_inv D out vs"
    and "card (in_state vs Unvisited) \<le> fuel"
    and "n \<in> in_state vs Visiting"
    and "\<forall>v \<in> in_state vs Visiting. (v, n) \<in> (search_edges D out)\<^sup>*"
    and "set tos \<subseteq> set (jget_list out n)"
  shows "case fold_result (\<lambda>to vs'. case jget vs' to of
            Some Visiting \<Rightarrow> Inl (cycle_error n to)
          | Some Unvisited \<Rightarrow> visit to vs'
          | _ \<Rightarrow> Inr vs') tos vs of
     Inl err \<Rightarrow> cycle_witness (search_edges D out) err
   | Inr vs' \<Rightarrow> search_inv D out vs' \<and> advanced vs vs' \<and> (\<forall>b \<in> set tos \<inter> D. b \<in> in_state vs' VisitDone)"
  using assms(4-8)
proof (induction tos arbitrary: vs)
  case (Cons to tos)
  let ?E = "search_edges D out"
  let ?body = "\<lambda>to vs'. case jget vs' to of Some Visiting \<Rightarrow> Inl (cycle_error n to)
          | Some Unvisited \<Rightarrow> visit to vs' | _ \<Rightarrow> Inr vs'"
  have keys: "fst ` set vs = D" using Cons.prems(1) by (simp add: search_inv_def)
  have edge: "(n, to) \<in> ?E" if "to \<in> D" using Cons.prems(5) assms(3) that by (auto simp: search_edges_def)
  have step: "case ?body to vs of Inl err \<Rightarrow> cycle_witness ?E err
     | Inr vs' \<Rightarrow> search_inv D out vs' \<and> advanced vs vs' \<and> (to \<in> D \<longrightarrow> to \<in> in_state vs' VisitDone)"
  proof (cases "to \<in> D")
    case False
    hence "jget vs to = None" using keys by (simp add: map_of_eq_None_iff)
    thus ?thesis using Cons.prems(1) False by simp
  next
    case True
    hence "to \<in> fst ` set vs" using keys by simp
    from visit_state_cases_map [OF this]
    consider "jget vs to = Some Unvisited" | "jget vs to = Some Visiting" | "jget vs to = Some VisitDone"
      by blast
    thus ?thesis
    proof cases
      case 1
      have "visit_pre D out fuel to vs"
        using Cons.prems 1 True assms(2) edge by (auto simp: visit_pre_def intro: rtrancl_into_rtrancl)
      hence "visit_post D out to vs (visit to vs)" by (rule visit)
      thus ?thesis using 1 by (auto simp: visit_post_def split: sum.splits)
    next
      case 2
      hence "(to, n) \<in> ?E\<^sup>*" using Cons.prems(4) by simp
      thus ?thesis using 2 edge [OF True] by (auto simp: cycle_witness_def)
    next
      case 3
      thus ?thesis using Cons.prems(1) by simp
    qed
  qed
  show ?case
  proof (cases "?body to vs")
    case (Inl err)
    thus ?thesis using step by simp
  next
    case (Inr vs1)
    hence inv1: "search_inv D out vs1" and adv1: "advanced vs vs1"
      and done1: "to \<in> D \<longrightarrow> to \<in> in_state vs1 VisitDone" using step by simp_all
    have keys1: "fst ` set vs1 = D" using inv1 by (simp add: search_inv_def)
    have "card (in_state vs1 Unvisited) \<le> card (in_state vs Unvisited)"
      using card_mono [OF finite_in_state [OF keys] advanced_unvisited [OF adv1 keys keys1]] .
    hence "card (in_state vs1 Unvisited) \<le> fuel" using Cons.prems(2) by simp
    moreover have "in_state vs1 Visiting = in_state vs Visiting" using adv1 by (simp add: advanced_def)
    ultimately have rest: "case fold_result ?body tos vs1 of Inl err \<Rightarrow> cycle_witness ?E err
       | Inr vs' \<Rightarrow> search_inv D out vs' \<and> advanced vs1 vs' \<and> (\<forall>b \<in> set tos \<inter> D. b \<in> in_state vs' VisitDone)"
      using Cons.IH [OF inv1] Cons.prems by simp
    have "fold_result ?body (to # tos) vs = fold_result ?body tos vs1" using Inr by simp
    thus ?thesis
      using rest adv1 done1 by (auto simp: advanced_def split: sum.splits)
  qed
qed simp

lemma visit_correct: "visit_pre D out fuel n vs \<Longrightarrow> visit_post D out n vs (depth_first_search fuel out n vs)"
proof (induction fuel arbitrary: n vs)
  case 0
  hence "in_state vs Unvisited = {}"
    using finite_in_state [of vs D Unvisited] by (auto simp: visit_pre_def search_inv_def)
  thus ?case using 0 by (auto simp: visit_pre_def)
next
  case (Suc fuel)
  let ?vs = "jset n Visiting vs"
  have pre: "finite D" "search_inv D out vs" "n \<in> D" "jget vs n = Some Unvisited"
    "\<forall>v \<in> in_state vs Visiting. (v, n) \<in> (search_edges D out)\<^sup>*"
    using Suc.prems by (auto simp: visit_pre_def)
  have keys: "fst ` set vs = D" using pre(2) by (simp add: search_inv_def)
  have "in_state ?vs Unvisited = in_state vs Unvisited - {n}" by auto
  hence card: "card (in_state ?vs Unvisited) \<le> fuel"
    using Suc.prems pre(4) finite_in_state [OF keys, of Unvisited]
    by (simp only: card_Diff_singleton mem_Collect_eq visit_pre_def) linarith
  have "\<forall>v \<in> in_state ?vs Visiting. (v, n) \<in> (search_edges D out)\<^sup>*" using pre(5) by auto
  note loop = visit_loop [OF Suc.IH pre(1,3) search_inv_start [OF pre(2,3,4)] card _ this subset_refl]
  show ?case
  proof (cases "depth_first_search (Suc fuel) out n vs")
    case (Inl err)
    thus ?thesis using loop by (auto simp: visit_post_def split: sum.splits)
  next
    case (Inr vs')
    then obtain vs1 where vs': "vs' = jset n VisitDone vs1"
      and vs1: "search_inv D out vs1" "advanced ?vs vs1"
        "\<forall>b \<in> set (jget_list out n) \<inter> D. b \<in> in_state vs1 VisitDone"
      using loop by (auto split: sum.splits)
    have n1: "jget vs1 n = Some Visiting" using vs1(2) by (auto simp: advanced_def)
    have "search_inv D out vs'"
      unfolding vs' using search_inv_finish [OF vs1(1) pre(3) _ vs1(3)] n1 by simp
    moreover have "advanced vs vs'"
      using vs1(2) pre(4) unfolding advanced_def vs' by (auto split: if_splits)
    ultimately show ?thesis using Inr vs' by (simp add: visit_post_def)
  qed
qed


section \<open>Correctness of the validation\<close>

definition declared_nodes :: "workflow \<Rightarrow> node_id set" where
  "declared_nodes w = {n \<in> nd_id ` set (wf_nodes w). is_executable w n}"

text \<open>The edges between declared executable nodes.\<close>

definition declared_edges :: "workflow \<Rightarrow> (node_id \<times> node_id) set" where
  "declared_edges w = {(a, b). a \<in> declared_nodes w \<and> b \<in> declared_nodes w
      \<and> (\<exists>e \<in> set (wf_edges w). or_node (e_from e) = a \<and> ir_node (e_to e) = b)}"

lemma finite_declared_nodes [simp]: "finite (declared_nodes w)"
  by (simp add: declared_nodes_def)

lemma dfs_outgoing_eq: "set (jget_list (dfs_outgoing w) a) = {b. \<exists>e \<in> set (wf_edges w). edge_executable w e \<and> or_node (e_from e) = a \<and> ir_node (e_to e) = b}"
  unfolding dfs_outgoing_def jget_list_jgroup concat_map_if_filter executable_edges_def by auto

lemma search_edges_declared: "search_edges (declared_nodes w) (dfs_outgoing w) = declared_edges w"
proof -
  have "b \<in> set (jget_list (dfs_outgoing w) a) \<longleftrightarrow> (\<exists>e \<in> set (wf_edges w). or_node (e_from e) = a \<and> ir_node (e_to e) = b)"
    if "a \<in> declared_nodes w" "b \<in> declared_nodes w" for a b
    using that unfolding dfs_outgoing_eq declared_nodes_def edge_executable_def by blast
  thus ?thesis by (auto simp: search_edges_def declared_edges_def)
qed

lemma initial_visit_fold:
  "fst ` set (fold (\<lambda>n m. if is_executable w (nd_id n) then jset (nd_id n) Unvisited m else m) ns m)
     = fst ` set m \<union> {n \<in> nd_id ` set ns. is_executable w n}"
  by (induction ns arbitrary: m) auto

lemma initial_visit_unvisited:
  "jget (fold (\<lambda>n m. if is_executable w (nd_id n) then jset (nd_id n) Unvisited m else m) ns m) k
     = (if \<exists>n \<in> set ns. nd_id n = k \<and> is_executable w k then Some Unvisited else jget m k)"
  by (induction ns arbitrary: m) auto

lemma initial_visit_keys: "fst ` set (initial_visit_state w) = declared_nodes w"
  unfolding initial_visit_state_def initial_visit_fold by (simp add: declared_nodes_def)

lemma initial_visit_state_in: "in_state (initial_visit_state w) Visiting = {}" "in_state (initial_visit_state w) VisitDone = {}"
  unfolding initial_visit_state_def initial_visit_unvisited by auto

lemma initial_search_inv: "search_inv (declared_nodes w) out (initial_visit_state w)"
  unfolding search_inv_def initial_visit_state_in initial_visit_keys by (simp add: acyclic_def)

lemma in_state_card_le:
  assumes "fst ` set vs = declared_nodes w"
  shows "card (in_state vs s) \<le> dfs_fuel w"
proof -
  have "in_state vs s \<subseteq> declared_nodes w" using assms by (auto dest: jget_Some_key)
  hence "card (in_state vs s) \<le> card (declared_nodes w)" by (simp add: card_mono)
  also have "\<dots> \<le> card (nd_id ` set (wf_nodes w))" by (auto simp: declared_nodes_def intro: card_mono)
  also have "\<dots> \<le> length (wf_nodes w)" by (metis card_image_le card_length finite_set le_trans)
  finally show ?thesis by (simp add: dfs_fuel_def)
qed

abbreviation visit_node :: "workflow \<Rightarrow> node_def \<Rightarrow> visit_map \<Rightarrow> js_error + visit_map" where
  "visit_node w n vs \<equiv>
     (if is_executable w (nd_id n) \<and> jget vs (nd_id n) = Some Unvisited
      then depth_first_search (dfs_fuel w) (dfs_outgoing w) (nd_id n) vs else Inr vs)"

lemma visit_node_correct:
  assumes "search_inv (declared_nodes w) (dfs_outgoing w) vs" "in_state vs Visiting = {}" "n \<in> set (wf_nodes w)"
  shows "case visit_node w n vs of
     Inl err \<Rightarrow> cycle_witness (declared_edges w) err
   | Inr vs' \<Rightarrow> search_inv (declared_nodes w) (dfs_outgoing w) vs' \<and> advanced vs vs'
       \<and> (is_executable w (nd_id n) \<longrightarrow> nd_id n \<in> in_state vs' VisitDone)"
proof -
  have keys: "fst ` set vs = declared_nodes w" using assms(1) by (simp add: search_inv_def)
  have d: "is_executable w (nd_id n) \<Longrightarrow> nd_id n \<in> declared_nodes w" using assms(3) by (simp add: declared_nodes_def)
  show ?thesis
  proof (cases "is_executable w (nd_id n) \<and> jget vs (nd_id n) = Some Unvisited")
    case True
    have "visit_pre (declared_nodes w) (dfs_outgoing w) (dfs_fuel w) (nd_id n) vs"
      using assms(1,2) True d in_state_card_le [OF keys] by (auto simp: visit_pre_def)
    from visit_correct [OF this] show ?thesis
      using True by (auto simp: visit_post_def search_edges_declared split: sum.splits)
  next
    case False
    moreover have "jget vs (nd_id n) = Some VisitDone" if "is_executable w (nd_id n)"
      using visit_state_cases_map [of "nd_id n" vs] keys d [OF that] False that assms(2) by auto
    ultimately show ?thesis using assms(1) by auto
  qed
qed

lemma visit_nodes_correct:
  assumes "search_inv (declared_nodes w) (dfs_outgoing w) vs" "in_state vs Visiting = {}" "set ns \<subseteq> set (wf_nodes w)"
  shows "case fold_result (visit_node w) ns vs of
     Inl err \<Rightarrow> cycle_witness (declared_edges w) err
   | Inr vs' \<Rightarrow> search_inv (declared_nodes w) (dfs_outgoing w) vs' \<and> advanced vs vs'
       \<and> (\<forall>n \<in> set ns. is_executable w (nd_id n) \<longrightarrow> nd_id n \<in> in_state vs' VisitDone)"
  using assms
proof (induction ns arbitrary: vs)
  case (Cons n ns)
  note one = visit_node_correct [OF Cons.prems(1,2), of n]
  show ?case
  proof (cases "visit_node w n vs")
    case (Inl err)
    thus ?thesis using one Cons.prems(3) by simp
  next
    case (Inr vs1)
    hence v1: "search_inv (declared_nodes w) (dfs_outgoing w) vs1" "advanced vs vs1"
      "is_executable w (nd_id n) \<longrightarrow> nd_id n \<in> in_state vs1 VisitDone"
      using one Cons.prems(3) by auto
    have "in_state vs1 Visiting = {}" using v1(2) Cons.prems(2) by (simp add: advanced_def)
    note IH = Cons.IH [OF v1(1) this]
    have "fold_result (visit_node w) (n # ns) vs = fold_result (visit_node w) ns vs1" using Inr by simp
    thus ?thesis using IH Cons.prems(3) v1 by (auto simp: advanced_def split: sum.splits)
  qed
qed simp

lemma validate_acyclic_Inr_iff: "validate_acyclic w = Inr () \<longleftrightarrow> acyclic (declared_edges w)"
proof -
  note all = visit_nodes_correct [OF initial_search_inv initial_visit_state_in(1) subset_refl, of w]
  show ?thesis
  proof (cases "fold_result (visit_node w) (wf_nodes w) (initial_visit_state w)")
    case (Inl err)
    then obtain a b where "(a, b) \<in> declared_edges w" "(b, a) \<in> (declared_edges w)\<^sup>*"
      using all by (auto simp: cycle_witness_def)
    hence "\<not> acyclic (declared_edges w)" by (meson acyclic_def rtrancl_into_trancl2)
    thus ?thesis using Inl by (simp add: validate_acyclic_def)
  next
    case (Inr vs)
    hence vs: "search_inv (declared_nodes w) (dfs_outgoing w) vs"
      "\<forall>n \<in> set (wf_nodes w). is_executable w (nd_id n) \<longrightarrow> nd_id n \<in> in_state vs VisitDone"
      using all by auto
    have "declared_nodes w \<subseteq> in_state vs VisitDone" using vs(2) unfolding declared_nodes_def by blast
    hence "declared_edges w \<subseteq> declared_edges w \<inter> in_state vs VisitDone \<times> in_state vs VisitDone"
      by (auto simp: declared_edges_def)
    moreover have "acyclic (declared_edges w \<inter> in_state vs VisitDone \<times> in_state vs VisitDone)"
      using vs(1) by (simp add: search_inv_def search_edges_declared)
    ultimately have "acyclic (declared_edges w)" using acyclic_subset by blast
    thus ?thesis using Inr by (simp add: validate_acyclic_def)
  qed
qed

text \<open>
  C5. The cycle check decides acyclicity: it accepts a workflow exactly when the edges between its declared
  executable nodes form no directed cycle.
\<close>

theorem validate_acyclic_iff: "validate_acyclic w = Inr () \<longleftrightarrow> acyclic (declared_edges w)"
  by (rule validate_acyclic_Inr_iff)

text \<open>
  The check always ends and never reports a cycle that is not there: the recursion never runs out of
  fuel, and an error names an edge \<open>a -> b\<close> of the workflow such that \<open>b\<close> reaches \<open>a\<close>.
\<close>

theorem validate_acyclic_error_is_cycle:
  "validate_acyclic w = Inl err \<Longrightarrow>
     err \<noteq> stack_overflow \<and> (\<exists>a b. err = cycle_error a b \<and> (a, b) \<in> declared_edges w \<and> (b, a) \<in> (declared_edges w)\<^sup>*)"
  using visit_nodes_correct [OF initial_search_inv initial_visit_state_in(1) subset_refl, of w]
  by (auto simp: validate_acyclic_def cycle_witness_def cycle_error_def split: sum.splits)

text \<open>Every visit moves nodes forward in the order of the visit states.\<close>

lemma visit_advances:
  assumes "visit_pre D out fuel n vs" "depth_first_search fuel out n vs = Inr vs'" "jget vs k = Some s"
  shows "\<exists>s'. jget vs' k = Some s' \<and> s \<le> s'"
proof -
  have post: "search_inv D out vs'" "advanced vs vs'"
    using visit_correct [OF assms(1)] assms(2) by (auto simp: visit_post_def)
  have "fst ` set vs = D" "fst ` set vs' = D" using assms(1) post(1) by (simp_all add: visit_pre_def search_inv_def)
  hence "k \<in> fst ` set vs'" using jget_Some_key [OF assms(3)] by simp
  from key_jget_Some [OF this] obtain s' where s': "jget vs' k = Some s'" ..
  have "s = VisitDone \<longrightarrow> s' = VisitDone" using advanced_done [OF post(2)] assms(3) s' by force
  moreover have "s = Visiting \<longleftrightarrow> s' = Visiting" using advanced_visiting [OF post(2), of k] assms(3) s' by simp
  ultimately have "s \<le> s'" by (cases s; cases s') (simp_all add: less_eq_visit_state_def)
  with s' show ?thesis by blast
qed

section \<open>Node kinds (\<open>RunQueuePlanner.validateNodeKinds\<close>)\<close>

definition is_multi_input_node :: "node_instance option \<Rightarrow> bool" where
  "is_multi_input_node inst = (case inst of None \<Rightarrow> False | Some i \<Rightarrow> ni_hasExecuteMulti i)"

definition has_runnable_execute :: "node_instance option \<Rightarrow> bool" where
  "has_runnable_execute inst = (case inst of None \<Rightarrow> False | Some i \<Rightarrow> ni_kind i = Some NodeKind \<and> ni_hasExecute i)"

definition supports_fan_in_merge :: "node_instance option \<Rightarrow> bool" where
  "supports_fan_in_merge inst = (has_runnable_execute inst \<and> \<not> is_multi_input_node inst)"

definition validate_node_kind :: "node_instances \<Rightarrow> node_id \<times> port_key list \<Rightarrow> js_error + unit" where
  "validate_node_kind insts entry =
    (case entry of (n, inputs) \<Rightarrow>
      if length inputs \<le> 1 then
        (case inputs of
           [] \<Rightarrow> Inr ()
         | only # _ \<Rightarrow>
             if only \<noteq> [] \<and> only \<noteq> ''in'' \<and> \<not> is_multi_input_node (jget insts n)
             then Inl (plain_error (''Node '' @ n @ '' only supports input '' @ [CHR 0x27] @ ''in'' @ [CHR 0x27]
                    @ '' (got '' @ [CHR 0x27] @ only @ [CHR 0x27] @ '').''))
             else Inr ())
      else if \<not> is_multi_input_node (jget insts n) \<and> \<not> supports_fan_in_merge (jget insts n)
      then Inl (plain_error (''Node '' @ n @ '' has '' @ string_of_nat (length inputs)
                    @ '' inbound edges but does not support multi-input execution.''))
      else Inr ())"

definition validate_node_kinds :: "topology \<Rightarrow> node_instances \<Rightarrow> js_error + unit" where
  "validate_node_kinds tp insts = fold_result (\<lambda>entry _. validate_node_kind insts entry) (tp_expectedInputsByNode tp) ()"

text \<open>The result of \<open>EngineWorkflowPlanningFactory.create\<close>: the topology and the instances the planner works on.\<close>

record planner =
  pl_topology :: topology
  pl_nodeInstances :: node_instances

definition create_planner :: "(workflow \<Rightarrow> js_error + node_instances) \<Rightarrow> workflow \<Rightarrow> js_error + planner" where
  "create_planner createNodes w =
    bind_result (validate_acyclic w) (\<lambda>_.
    bind_result (createNodes w) (\<lambda>insts.
      let pl = \<lparr>pl_topology = topology_of w, pl_nodeInstances = insts\<rparr>
      in bind_result (validate_node_kinds (pl_topology pl) (pl_nodeInstances pl)) (\<lambda>_. Inr pl)))"

text \<open>
  \<open>NodeInstanceFactory\<close>: the instances of all nodes of a workflow.  How an instance is made from a type is an
  argument; the nodes that stand in for a missing runtime type are made here.
\<close>

definition missing_node_token :: type_token where
  "missing_node_token = ClassToken 0 ''MissingRuntimeNodeToken''"

definition missing_trigger_token :: type_token where
  "missing_trigger_token = ClassToken 0 ''MissingRuntimeTriggerToken''"

definition create_by_type :: "(type_token \<Rightarrow> js_error + node_instance) \<Rightarrow> type_token \<Rightarrow> js_error + node_instance" where
  "create_by_type resolve t =
    (if t = missing_node_token
     then Inr \<lparr>ni_kind = Some NodeKind, ni_hasExecute = True, ni_hasExecuteMulti = False, ni_ctorName = Some ''MissingRuntimeNode''\<rparr>
     else if t = missing_trigger_token
     then Inr \<lparr>ni_kind = Some TriggerKind, ni_hasExecute = True, ni_hasExecuteMulti = False, ni_ctorName = Some ''MissingRuntimeTrigger''\<rparr>
     else resolve t)"

fun token_text :: "type_token \<Rightarrow> string" where
  "token_text (ClassToken _ name) = name"
| "token_text (StringToken s) = s"
| "token_text (SymbolToken s) = ''Symbol('' @ s @ '')''"

definition node_instantiation_error :: "node_id \<Rightarrow> string \<Rightarrow> js_error \<Rightarrow> js_error" where
  "node_instantiation_error n nodeType original =
    \<lparr>err_kind = NodeInstantiationErr,
     err_message = ''Failed to instantiate node '' @ [CHR 0x22] @ n @ [CHR 0x22] @ '' (type '' @ nodeType @ ''): '' @ err_message original,
     err_name = ''NodeInstantiationError'', err_stack = err_stack original, err_details = None, err_nodeId = Some n\<rparr>"

definition create_nodes :: "(type_token \<Rightarrow> js_error + node_instance) \<Rightarrow> workflow \<Rightarrow> js_error + node_instances" where
  "create_nodes createByType w =
    fold_result
      (\<lambda>d insts. case createByType (nd_type d) of
         Inr i \<Rightarrow> Inr (jset (nd_id d) i insts)
       | Inl e \<Rightarrow>
           if err_kind e = NodeInstantiationErr then Inl e
           else Inl (node_instantiation_error (nd_id d) (token_text (nd_type d)) e))
      (wf_nodes w) []"

lemma create_planner_Inr_iff:
  "create_planner createNodes w = Inr pl \<longleftrightarrow>
     validate_acyclic w = Inr () \<and> createNodes w = Inr (pl_nodeInstances pl)
   \<and> validate_node_kinds (topology_of w) (pl_nodeInstances pl) = Inr () \<and> pl_topology pl = topology_of w"
  by (auto simp: create_planner_def Let_def bind_result_Inr_iff)

lemma tp_expected_entry:
  "(n, inputs) \<in> set (tp_expectedInputsByNode (topology_of w)) \<longleftrightarrow>
     inputs = topo_expected (topology_of w) n \<and> edges_into w n \<noteq> []"
proof -
  have d: "distinct (jkeys (tp_expectedInputsByNode (topology_of w)))"
    by (simp add: topology_of_def topology_expected_def topology_incoming_def incoming_raw_def Let_def del: map_map)
  have "jget (tp_expectedInputsByNode (topology_of w)) n
      = (if edges_into w n \<noteq> [] then Some (topo_expected (topology_of w) n) else None)"
    using jhas_tp_expected [of w n] by (cases "jget (tp_expectedInputsByNode (topology_of w)) n") (auto simp: jhas_def)
  thus ?thesis unfolding map_of_eq_Some_iff [OF d, symmetric] by (cases "edges_into w n = []") auto
qed

text \<open>
  An accepted workflow only sends several inputs to nodes that can take them: a node with two or more
  expected inputs has an instance with \<open>executeMulti\<close> or a runnable \<open>execute\<close>, and a node whose only
  input is not called \<open>in\<close> (nor empty) has one with \<open>executeMulti\<close>.
\<close>

theorem create_planner_node_kinds:
  assumes "create_planner createNodes w = Inr pl"
  shows "(1 < length (topo_expected (pl_topology pl) n) \<longrightarrow>
            is_multi_input_node (jget (pl_nodeInstances pl) n) \<or> supports_fan_in_merge (jget (pl_nodeInstances pl) n))
       \<and> (\<forall>p. topo_expected (pl_topology pl) n = [p] \<longrightarrow> p \<noteq> ''in'' \<longrightarrow> p \<noteq> [] \<longrightarrow>
            is_multi_input_node (jget (pl_nodeInstances pl) n))"
proof (cases "edges_into w n = []")
  case True
  hence "topo_expected (topology_of w) n = []" by (simp add: topo_expected_eq)
  thus ?thesis using assms by (simp add: create_planner_Inr_iff)
next
  case False
  hence "(n, topo_expected (topology_of w) n) \<in> set (tp_expectedInputsByNode (topology_of w))"
    by (simp add: tp_expected_entry)
  hence ok: "validate_node_kind (pl_nodeInstances pl) (n, topo_expected (topology_of w) n) = Inr ()"
    using assms by (simp add: create_planner_Inr_iff validate_node_kinds_def fold_result_unit_ok)
  have pl: "pl_topology pl = topology_of w" using assms by (simp add: create_planner_Inr_iff)
  show ?thesis
    unfolding pl
  proof (intro conjI impI allI)
    assume "1 < length (topo_expected (topology_of w) n)"
    thus "is_multi_input_node (jget (pl_nodeInstances pl) n) \<or> supports_fan_in_merge (jget (pl_nodeInstances pl) n)"
      using ok by (simp add: validate_node_kind_def split: if_splits)
  next
    fix p assume "topo_expected (topology_of w) n = [p]" "p \<noteq> ''in''" "p \<noteq> []"
    thus "is_multi_input_node (jget (pl_nodeInstances pl) n)"
      using ok by (simp add: validate_node_kind_def split: if_splits)
  qed
qed

end
