(* ===== verification/Sample.thy ===== *)
theory Sample
  imports Planning
begin

text \<open>
  A small concrete workflow for the witnesses: a trigger, a router with two ports, a node on each branch and
  a merge node that collects both branches.  The left branch node keeps going on empty input.
\<close>

definition sample_config :: "node_kind \<Rightarrow> bool option \<Rightarrow> node_config" where
  "sample_config k cont =
    \<lparr>nc_kind = k, nc_type = ClassToken 1 ''Sample'', nc_name = None, nc_id = None, nc_icon = None, nc_execution = None,
     nc_retryPolicy = None, nc_nodeErrorHandler = None, nc_continueWhenEmptyOutput = cont, nc_declaredOutputPorts = None,
     nc_declaredInputPorts = None, nc_emitsAssertions = False, nc_emptyBatchExecution = None, nc_triggerKind = None,
     nc_fields = []\<rparr>"

definition sample_node :: "node_id \<Rightarrow> node_kind \<Rightarrow> bool option \<Rightarrow> node_def" where
  "sample_node n k cont =
    \<lparr>nd_id = n, nd_kind = k, nd_type = ClassToken 1 ''Sample'', nd_name = None, nd_config = sample_config k cont\<rparr>"

definition sample_edge :: "node_id \<Rightarrow> port_key \<Rightarrow> node_id \<Rightarrow> port_key \<Rightarrow> edge" where
  "sample_edge a out b i = \<lparr>e_from = \<lparr>or_node = a, or_output = out\<rparr>, e_to = \<lparr>ir_node = b, ir_input = i\<rparr>\<rparr>"

definition sample_of :: "node_def list \<Rightarrow> edge list \<Rightarrow> workflow" where
  "sample_of nodes edges =
    \<lparr>wf_id = ''wf'', wf_name = ''sample'', wf_nodes = nodes, wf_edges = edges, wf_connections = None,
     wf_discoveryPathSegments = None, wf_prunePolicy = None, wf_storagePolicy = None, wf_workflowErrorHandler = None\<rparr>"

definition sample_workflow :: workflow where
  "sample_workflow = sample_of
    [sample_node ''t'' TriggerKind None, sample_node ''if'' NodeKind None, sample_node ''a'' NodeKind None,
     sample_node ''b'' NodeKind None, sample_node ''m'' NodeKind None]
    [sample_edge ''t'' ''main'' ''if'' ''in'', sample_edge ''if'' ''true'' ''a'' ''in'',
     sample_edge ''if'' ''false'' ''b'' ''in'', sample_edge ''a'' ''main'' ''m'' ''left'',
     sample_edge ''b'' ''main'' ''m'' ''right'']"

definition sample_instance :: "bool \<Rightarrow> node_instance" where
  "sample_instance multi =
    \<lparr>ni_kind = Some NodeKind, ni_hasExecute = \<not> multi, ni_hasExecuteMulti = multi, ni_ctorName = Some ''Sample''\<rparr>"

definition sample_instances :: "workflow \<Rightarrow> node_instances" where
  "sample_instances w = map (\<lambda>n. (nd_id n, sample_instance (nd_id n = ''m''))) (wf_nodes w)"

definition sample_factory :: "workflow \<Rightarrow> js_error + node_instances" where
  "sample_factory w = Inr (sample_instances w)"

definition sample_planner :: planner where
  "sample_planner = \<lparr>pl_topology = topology_of sample_workflow, pl_nodeInstances = sample_instances sample_workflow\<rparr>"

definition sample_item :: "string \<Rightarrow> item" where
  "sample_item s = json_item (JStr s)"

text \<open>A workflow with a cycle.\<close>

definition sample_cyclic :: workflow where
  "sample_cyclic = sample_of
    [sample_node ''a'' NodeKind None, sample_node ''b'' NodeKind None]
    [sample_edge ''a'' ''main'' ''b'' ''in'', sample_edge ''b'' ''main'' ''a'' ''in'']"

text \<open>Two nodes that both feed both inputs of a merge node.\<close>

definition sample_fan :: workflow where
  "sample_fan = sample_of
    [sample_node ''a'' NodeKind None, sample_node ''b'' NodeKind None, sample_node ''m'' NodeKind None]
    [sample_edge ''a'' ''main'' ''m'' ''x'', sample_edge ''b'' ''main'' ''m'' ''x'',
     sample_edge ''a'' ''main'' ''m'' ''y'', sample_edge ''b'' ''main'' ''m'' ''y'']"

lemma sample_planner_created: "create_planner sample_factory sample_workflow = Inr sample_planner"
proof -
  have "validate_acyclic sample_workflow = Inr ()" by code_simp
  moreover have "validate_node_kinds (topology_of sample_workflow) (sample_instances sample_workflow) = Inr ()" by code_simp
  ultimately show ?thesis by (simp add: create_planner_Inr_iff sample_planner_def sample_factory_def)
qed

text \<open>Witnesses of the planning properties.\<close>

lemma collect_key_determines_source_witness:
  "ti_from \<lparr>ti_from = \<lparr>or_node = ''a'', or_output = ''main''\<rparr>, ti_input = ''x'', ti_collectKey = ''a:main''\<rparr>
     = ti_from \<lparr>ti_from = \<lparr>or_node = ''a'', or_output = ''main''\<rparr>, ti_input = ''y'', ti_collectKey = ''a:main''\<rparr>"
  by (rule collect_key_determines_source [of sample_fan _ "''m''"]; code_simp)

lemma validate_acyclic_error_witness:
  "\<exists>a b. validate_acyclic sample_cyclic = Inl (cycle_error a b) \<and> (a, b) \<in> declared_edges sample_cyclic"
proof -
  have "\<not> is_ok (validate_acyclic sample_cyclic)" by code_simp
  then obtain err where "validate_acyclic sample_cyclic = Inl err" by (cases "validate_acyclic sample_cyclic") auto
  thus ?thesis using validate_acyclic_error_is_cycle [of sample_cyclic err] by blast
qed

lemma create_planner_node_kinds_witness:
  "is_multi_input_node (jget (pl_nodeInstances sample_planner) ''m'') \<or> supports_fan_in_merge (jget (pl_nodeInstances sample_planner) ''m'')"
proof -
  have "1 < length (topo_expected (pl_topology sample_planner) ''m'')" by code_simp
  thus ?thesis using create_planner_node_kinds [OF sample_planner_created] by blast
qed

end
