(* ===== verification/QueuePlanner.thy ===== *)
theory QueuePlanner
  imports Sample
begin

text \<open>
  \<open>planning/RunQueuePlanner.ts\<close>: the queue of jobs of a run.  A node with one ordinary input gets one
  entry per delivery; a node that merges several inputs gets one collect entry per batch, which fills up
  until every expected input has arrived.  The queue is passed explicitly; the recursion of
  \<open>propagateEmptyPath\<close> and \<open>enqueueEdge\<close> runs on fuel, which is proved sufficient for every acyclic
  workflow.
\<close>

section \<open>Operations\<close>

datatype planned_activation =
    SingleActivation (pa_nodeId: node_id) (pa_input: items) (pa_batchId: string)
  | MultiActivation (pa_nodeId: node_id) (pa_inputsByPort: inputs_by_port) (pa_batchId: string)

type_synonym run_queue = "queue_entry list"

definition default_batch :: string where
  "default_batch = ''batch_1''"

definition entry_batch :: "queue_entry \<Rightarrow> string" where
  "entry_batch q = opt_or (qe_batchId q) default_batch"

definition sum_items_by_port :: "inputs_by_port \<Rightarrow> nat" where
  "sum_items_by_port m = sum_list (map (\<lambda>(_, its). length its) m)"

definition uses_topology_collect :: "topology \<Rightarrow> node_id \<Rightarrow> bool" where
  "uses_topology_collect tp n =
    (let expected = topo_expected tp n
     in if length expected \<noteq> 1 \<or> hd expected \<noteq> ''in'' then True else 1 < length (topo_incoming tp n))"

definition routes_to_collect :: "planner \<Rightarrow> node_id \<Rightarrow> bool" where
  "routes_to_collect pl n =
    (uses_topology_collect (pl_topology pl) n \<or> is_multi_input_node (jget (pl_nodeInstances pl) n))"

definition continues_after_empty :: "topology \<Rightarrow> node_id \<Rightarrow> bool" where
  "continues_after_empty tp n =
    (case jget (tp_defsById tp) n of
       None \<Rightarrow> False
     | Some d \<Rightarrow> nc_continueWhenEmptyOutput (nd_config d) = Some True)"

record enqueue_args =
  ea_batchId :: string
  ea_to :: topo_out
  ea_from :: output_ref
  ea_items :: items

definition single_entry :: "enqueue_args \<Rightarrow> queue_entry" where
  "single_entry a =
    \<lparr>qe_nodeId = to_nodeId (ea_to a), qe_input = ea_items a, qe_toInput = Some (to_collectKey (ea_to a)),
     qe_batchId = Some (ea_batchId a), qe_from = Some (ea_from a), qe_collect = None\<rparr>"

definition is_collect_for :: "node_id \<Rightarrow> string \<Rightarrow> queue_entry \<Rightarrow> bool" where
  "is_collect_for n b q = (qe_nodeId q = n \<and> entry_batch q = b \<and> qe_collect q \<noteq> None)"

definition new_collect :: "port_key list \<Rightarrow> node_id \<Rightarrow> string \<Rightarrow> queue_entry" where
  "new_collect expected n b =
    \<lparr>qe_nodeId = n, qe_input = [], qe_toInput = None, qe_batchId = Some b, qe_from = None,
     qe_collect = Some \<lparr>cs_expectedInputs = expected, cs_received = []\<rparr>\<rparr>"

definition receive :: "port_key \<Rightarrow> items \<Rightarrow> queue_entry \<Rightarrow> queue_entry" where
  "receive k its q =
    q\<lparr>qe_collect := map_option (\<lambda>c. c\<lparr>cs_received := jset k its (cs_received c)\<rparr>) (qe_collect q)\<rparr>"

fun update_first :: "('a \<Rightarrow> bool) \<Rightarrow> ('a \<Rightarrow> 'a) \<Rightarrow> 'a list \<Rightarrow> 'a list" where
  "update_first P f [] = []"
| "update_first P f (x # xs) = (if P x then f x # xs else x # update_first P f xs)"

definition enqueue_collect :: "planner \<Rightarrow> enqueue_args \<Rightarrow> run_queue \<Rightarrow> run_queue" where
  "enqueue_collect pl a queue =
    (let n = to_nodeId (ea_to a); b = ea_batchId a;
         expected = topo_expected (pl_topology pl) n;
         queue' = (if find (is_collect_for n b) queue = None then queue @ [new_collect expected n b] else queue)
     in update_first (is_collect_for n b) (receive (to_collectKey (ea_to a)) (ea_items a)) queue')"

text \<open>\<open>propagateEmptyPath\<close>, with the call of \<open>enqueueEdge\<close> as an argument.\<close>

definition propagate_empty_path ::
  "(enqueue_args \<Rightarrow> node_id option \<Rightarrow> run_queue \<Rightarrow> js_error + run_queue) \<Rightarrow> topology
    \<Rightarrow> node_id \<Rightarrow> string \<Rightarrow> node_id \<Rightarrow> run_queue \<Rightarrow> js_error + run_queue" where
  "propagate_empty_path enq tp n b src queue =
    fold_result
      (\<lambda>e q. enq \<lparr>ea_batchId = b, ea_to = e, ea_from = \<lparr>or_node = n, or_output = to_output e\<rparr>, ea_items = []\<rparr> (Some src) q)
      (topo_outgoing tp n) queue"

fun enqueue_edge :: "nat \<Rightarrow> planner \<Rightarrow> enqueue_args \<Rightarrow> node_id option \<Rightarrow> run_queue \<Rightarrow> js_error + run_queue" where
  "enqueue_edge 0 pl a emptySource queue = Inl stack_overflow"
| "enqueue_edge (Suc fuel) pl a emptySource queue =
    (if \<not> routes_to_collect pl (to_nodeId (ea_to a)) then
       if ea_items a = [] then
         let source = opt_or emptySource (or_node (ea_from a))
         in if continues_after_empty (pl_topology pl) source
            then Inr (queue @ [single_entry a])
            else propagate_empty_path (enqueue_edge fuel pl) (pl_topology pl) (to_nodeId (ea_to a)) (ea_batchId a) source queue
       else Inr (queue @ [single_entry a])
     else Inr (enqueue_collect pl a queue))"

text \<open>The recursion leaves a node through its outgoing edges, so the nodes that have some bound its depth.\<close>

definition enqueue_fuel :: "planner \<Rightarrow> nat" where
  "enqueue_fuel pl = Suc (length (tp_outgoingByNode (pl_topology pl)))"

definition seed_from_trigger :: "planner \<Rightarrow> node_id \<Rightarrow> items \<Rightarrow> string \<Rightarrow> js_error + run_queue" where
  "seed_from_trigger pl start its b =
    fold_result
      (\<lambda>e q. if to_output e \<noteq> ''main'' then Inr q
             else enqueue_edge (enqueue_fuel pl) pl
                    \<lparr>ea_batchId = b, ea_to = e, ea_from = \<lparr>or_node = start, or_output = ''main''\<rparr>, ea_items = its\<rparr> None q)
      (topo_outgoing (pl_topology pl) start) []"

definition apply_outputs :: "planner \<Rightarrow> run_queue \<Rightarrow> node_id \<Rightarrow> node_outputs \<Rightarrow> string \<Rightarrow> js_error + run_queue" where
  "apply_outputs pl queue n outputs b =
    fold_result
      (\<lambda>e q. enqueue_edge (enqueue_fuel pl) pl
               \<lparr>ea_batchId = b, ea_to = e, ea_from = \<lparr>or_node = n, or_output = to_output e\<rparr>,
                ea_items = jget_list outputs (to_output e)\<rparr> None q)
      (topo_outgoing (pl_topology pl) n) queue"

definition collect_ready :: "queue_entry \<Rightarrow> bool" where
  "collect_ready q =
    (case qe_collect q of
       None \<Rightarrow> False
     | Some c \<Rightarrow> list_all (jhas (cs_received c)) (cs_expectedInputs c))"

definition try_dequeue_collect :: "run_queue \<Rightarrow> nat \<Rightarrow> (planned_activation \<times> run_queue) option" where
  "try_dequeue_collect queue i =
    (let q = queue ! i
     in case qe_collect q of
          None \<Rightarrow> None
        | Some c \<Rightarrow>
            if collect_ready q
            then Some (MultiActivation (qe_nodeId q) (cs_received c) (entry_batch q), remove_at i queue)
            else None)"

definition resolve_ready_collect :: "run_queue \<Rightarrow> (planned_activation \<times> run_queue) option" where
  "resolve_ready_collect queue =
    (case find_index collect_ready queue of None \<Rightarrow> None | Some i \<Rightarrow> try_dequeue_collect queue i)"

definition fill_missing :: "queue_entry \<Rightarrow> queue_entry" where
  "fill_missing q =
    q\<lparr>qe_collect := map_option (\<lambda>c. c\<lparr>cs_received :=
        fold (\<lambda>i m. if jhas m i then m else jset i [] m) (cs_expectedInputs c) (cs_received c)\<rparr>) (qe_collect q)\<rparr>"

definition has_received :: "queue_entry \<Rightarrow> bool" where
  "has_received q = (case qe_collect q of None \<Rightarrow> False | Some c \<Rightarrow> cs_received c \<noteq> [])"

text \<open>
  A sealed collect is one that got something and will get no more, as no other job is left; the missing
  inputs count as empty.  Once filled it is ready, so the loop of the code stops at the first candidate.
\<close>

definition resolve_sealed_collect :: "run_queue \<Rightarrow> (planned_activation \<times> run_queue) option" where
  "resolve_sealed_collect queue =
    (case find_index has_received queue of
       None \<Rightarrow> None
     | Some i \<Rightarrow> try_dequeue_collect (queue[i := fill_missing (queue ! i)]) i)"

definition quoted :: "string \<Rightarrow> string" where
  "quoted s = CHR 0x22 # s @ [CHR 0x22]"

definition token_class_name :: "type_token \<Rightarrow> string option" where
  "token_class_name t = (case t of ClassToken _ s \<Rightarrow> Some s | _ \<Rightarrow> None)"

definition format_node_label :: "planner \<Rightarrow> node_id \<Rightarrow> string" where
  "format_node_label pl n =
    (let d = jget (tp_defsById (pl_topology pl)) n;
         inst = jget (pl_nodeInstances pl) n;
         typeName = opt_or (opt_else (case d of None \<Rightarrow> None | Some x \<Rightarrow> token_class_name (nd_type x))
                                     (case inst of None \<Rightarrow> None | Some i \<Rightarrow> ni_ctorName i)) ''Node'';
         name = (case d of None \<Rightarrow> None | Some x \<Rightarrow> nd_name x)
     in if truthy_string name then quoted (the name) @ '' ('' @ typeName @ '':'' @ n @ '')''
        else typeName @ '':'' @ n)"

definition find_sources :: "planner \<Rightarrow> node_id \<Rightarrow> port_key \<Rightarrow> string list" where
  "find_sources pl n i =
    concat (map (\<lambda>(src, edges). map (\<lambda>_. format_node_label pl src)
                    (filter (\<lambda>e. to_nodeId e = n \<and> to_collectKey e = i) edges))
      (tp_outgoingByNode (pl_topology pl)))"

definition describe_missing_inputs :: "planner \<Rightarrow> node_id \<Rightarrow> port_key list \<Rightarrow> string" where
  "describe_missing_inputs pl n missing =
    (if missing = [] then ''none''
     else join_strings '', ''
       (map (\<lambda>i. let srcs = find_sources pl n i
                 in if srcs = [] then i else i @ '' from '' @ join_strings '' or '' srcs) missing))"

definition describe_received_inputs :: "inputs_by_port \<Rightarrow> string" where
  "describe_received_inputs received =
    (if received = [] then ''none''
     else join_strings '', ''
       (map (\<lambda>(i, its). i @ '' ('' @ string_of_nat (length its) @ '' item''
              @ (if length its = 1 then [] else ''s'') @ '')'') received))"

definition describe_unsatisfied_collect :: "planner \<Rightarrow> queue_entry \<Rightarrow> string" where
  "describe_unsatisfied_collect pl q =
    (let expected = (case qe_collect q of None \<Rightarrow> [] | Some c \<Rightarrow> cs_expectedInputs c);
         received = (case qe_collect q of None \<Rightarrow> [] | Some c \<Rightarrow> cs_received c);
         missing = filter (\<lambda>i. i \<notin> set (jkeys received)) expected
     in join_strings '' ''
          [''Multi-input collect is stuck at '' @ format_node_label pl (qe_nodeId q) @ '' (batchId='' @ entry_batch q @ '').'',
           ''Expected inputs: ['' @ join_strings '', '' expected @ ''].'',
           ''Received inputs: '' @ describe_received_inputs received @ ''.'',
           ''Missing inputs: '' @ describe_missing_inputs pl (qe_nodeId q) missing @ ''.''])"

function next_activation :: "planner \<Rightarrow> run_queue \<Rightarrow> js_error + (planned_activation option \<times> run_queue)" where
  "next_activation pl queue =
    (case resolve_ready_collect queue of
       Some (act, queue') \<Rightarrow> Inr (Some act, queue')
     | None \<Rightarrow>
         (case find_index (\<lambda>q. qe_collect q = None) queue of
            None \<Rightarrow>
              (if queue = [] then Inr (None, [])
               else case resolve_sealed_collect queue of
                      Some (act, queue') \<Rightarrow> Inr (Some act, queue')
                    | None \<Rightarrow> Inl (plain_error (describe_unsatisfied_collect pl (hd queue))))
          | Some i \<Rightarrow>
              (let job = queue ! i; queue' = remove_at i queue
               in case jget (tp_defsById (pl_topology pl)) (qe_nodeId job) of
                    None \<Rightarrow> next_activation pl queue'
                  | Some d \<Rightarrow>
                      if nd_kind d \<noteq> NodeKind then next_activation pl queue'
                      else Inr (Some (SingleActivation (qe_nodeId job) (qe_input job) (entry_batch job)), queue'))))"
  by pat_completeness auto
termination
  by (relation "measure (\<lambda>(_, q). length q)") (auto dest!: find_index_Some)

declare next_activation.simps [simp del]

section \<open>The recursion ends\<close>

definition execution_edges :: "workflow \<Rightarrow> (node_id \<times> node_id) set" where
  "execution_edges w = {(a, b). \<exists>e \<in> set (wf_edges w). edge_executable w e \<and> or_node (e_from e) = a \<and> ir_node (e_to e) = b}"

text \<open>Every end of an edge between executable nodes is a declared node.\<close>

definition edges_declared :: "workflow \<Rightarrow> bool" where
  "edges_declared w = list_all (\<lambda>e. edge_executable w e \<longrightarrow>
      or_node (e_from e) \<in> nd_id ` set (wf_nodes w) \<and> ir_node (e_to e) \<in> nd_id ` set (wf_nodes w)) (wf_edges w)"

lemma execution_edges_declared: "edges_declared w \<Longrightarrow> execution_edges w = declared_edges w"
proof -
  assume d: "edges_declared w"
  have "(a, b) \<in> execution_edges w \<longleftrightarrow> (a, b) \<in> declared_edges w" for a b
    using d
    unfolding execution_edges_def declared_edges_def declared_nodes_def edges_declared_def list_all_iff
      edge_executable_def mem_Collect_eq case_prod_conv
    by metis
  thus ?thesis by auto
qed

lemma topo_outgoing_execution: "e \<in> set (topo_outgoing (topology_of w) a) \<Longrightarrow> (a, to_nodeId e) \<in> execution_edges w"
  using topo_outgoing_edge unfolding execution_edges_def by fastforce

lemma execution_edges_Domain: "Domain (execution_edges w) = set (jkeys (tp_outgoingByNode (topology_of w)))"
  by (auto simp: topology_of_def topology_outgoing_def Let_def jkeys_jgroup execution_edges_def executable_edges_def
      Domain_iff image_iff)

definition reach_sources :: "workflow \<Rightarrow> node_id \<Rightarrow> node_id set" where
  "reach_sources w n = {m \<in> Domain (execution_edges w). (n, m) \<in> (execution_edges w)\<^sup>*}"

lemma finite_reach_sources [simp]: "finite (reach_sources w n)"
  unfolding reach_sources_def execution_edges_Domain by simp

lemma card_reach_sources: "card (reach_sources w n) \<le> length (tp_outgoingByNode (topology_of w))"
proof -
  have "card (reach_sources w n) \<le> card (set (jkeys (tp_outgoingByNode (topology_of w))))"
    unfolding reach_sources_def execution_edges_Domain by (rule card_mono) auto
  also have "\<dots> \<le> length (jkeys (tp_outgoingByNode (topology_of w)))" by (rule card_length)
  finally show ?thesis by simp
qed

lemma reach_sources_decrease:
  assumes "acyclic (execution_edges w)" "(a, b) \<in> execution_edges w"
  shows "card (reach_sources w b) < card (reach_sources w a)"
proof (rule psubset_card_mono)
  have "reach_sources w b \<subseteq> reach_sources w a"
    using assms(2) by (auto simp: reach_sources_def intro: converse_rtrancl_into_rtrancl)
  moreover have "a \<in> reach_sources w a" using assms(2) by (auto simp: reach_sources_def)
  moreover have "a \<notin> reach_sources w b"
    using assms by (auto simp: reach_sources_def acyclic_def dest: rtrancl_into_trancl2)
  ultimately show "reach_sources w b \<subset> reach_sources w a" by blast
qed simp

lemma fold_result_total: "(\<And>x s. x \<in> set xs \<Longrightarrow> \<exists>s'. f x s = Inr s') \<Longrightarrow> \<exists>s'. fold_result f xs s = Inr s'"
proof (induction xs arbitrary: s)
  case (Cons x xs)
  obtain s1 where "f x s = Inr s1" using Cons.prems [of x s] by auto
  moreover have "\<exists>s'. fold_result f xs s1 = Inr s'" by (rule Cons.IH) (simp add: Cons.prems)
  ultimately show ?case by simp
qed simp

lemma enqueue_edge_total:
  assumes "acyclic (execution_edges w)" "pl_topology pl = topology_of w"
  shows "card (reach_sources w (to_nodeId (ea_to a))) < fuel \<Longrightarrow> \<exists>q'. enqueue_edge fuel pl a src q = Inr q'"
proof (induction fuel arbitrary: a src q)
  case (Suc fuel)
  let ?n = "to_nodeId (ea_to a)"
  have "\<exists>q'. propagate_empty_path (enqueue_edge fuel pl) (pl_topology pl) ?n (ea_batchId a) s q = Inr q'" for s
    unfolding propagate_empty_path_def
  proof (rule fold_result_total)
    fix e q1 assume "e \<in> set (topo_outgoing (pl_topology pl) ?n)"
    hence "(?n, to_nodeId e) \<in> execution_edges w" using assms(2) topo_outgoing_execution by simp
    hence "card (reach_sources w (to_nodeId e)) < fuel"
      using reach_sources_decrease [OF assms(1)] Suc.prems by fastforce
    thus "\<exists>q'. enqueue_edge fuel pl \<lparr>ea_batchId = ea_batchId a, ea_to = e,
        ea_from = \<lparr>or_node = ?n, or_output = to_output e\<rparr>, ea_items = []\<rparr> (Some s) q1 = Inr q'"
      by (intro Suc.IH) simp
  qed
  thus ?case by (simp add: Let_def)
qed simp

lemma enqueue_edge_fuel:
  assumes "acyclic (execution_edges w)" "pl_topology pl = topology_of w"
  shows "\<exists>q'. enqueue_edge (enqueue_fuel pl) pl a src q = Inr q'"
  by (rule enqueue_edge_total [OF assms]) (simp add: enqueue_fuel_def assms(2) card_reach_sources less_Suc_eq_le)

lemma apply_outputs_total:
  assumes "acyclic (execution_edges w)" "pl_topology pl = topology_of w"
  shows "\<exists>q'. apply_outputs pl q n outs b = Inr q'"
  unfolding apply_outputs_def by (rule fold_result_total) (rule enqueue_edge_fuel [OF assms])

lemma seed_from_trigger_total:
  assumes "acyclic (execution_edges w)" "pl_topology pl = topology_of w"
  shows "\<exists>q'. seed_from_trigger pl n its b = Inr q'"
  unfolding seed_from_trigger_def
  by (rule fold_result_total) (simp add: enqueue_edge_fuel [OF assms])

lemma create_planner_acyclic:
  assumes "create_planner createNodes w = Inr pl" "edges_declared w"
  shows "acyclic (execution_edges w)" "pl_topology pl = topology_of w"
  using assms by (auto simp: create_planner_Inr_iff validate_acyclic_Inr_iff execution_edges_declared)

text \<open>
  C39. Routing always ends: in a workflow the planning accepts and whose edges join declared nodes, seeding
  from a trigger and applying the outputs of a node return a queue, whatever the outputs (the walk along
  empty paths never overflows).
\<close>

theorem routing_terminates:
  assumes "create_planner createNodes w = Inr pl" "edges_declared w"
  shows "(\<exists>q'. apply_outputs pl q n outs b = Inr q') \<and> (\<exists>q'. seed_from_trigger pl n its b = Inr q')"
  using apply_outputs_total seed_from_trigger_total create_planner_acyclic [OF assms] by blast

section \<open>The queue invariant\<close>

text \<open>
  A collect entry expects the inputs of its node, has received at least one of them and nothing else, and is
  the only one of its node and batch.
\<close>

definition collect_ok :: "topology \<Rightarrow> queue_entry \<Rightarrow> bool" where
  "collect_ok tp q =
    (case qe_collect q of
       None \<Rightarrow> True
     | Some c \<Rightarrow> cs_expectedInputs c = topo_expected tp (qe_nodeId q) \<and> cs_received c \<noteq> []
         \<and> distinct (jkeys (cs_received c)) \<and> set (jkeys (cs_received c)) \<subseteq> set (cs_expectedInputs c))"

definition collect_slot :: "queue_entry \<Rightarrow> node_id \<times> string" where
  "collect_slot q = (qe_nodeId q, entry_batch q)"

definition queue_inv :: "topology \<Rightarrow> run_queue \<Rightarrow> bool" where
  "queue_inv tp queue =
    (list_all (collect_ok tp) queue \<and> distinct (map collect_slot (filter (\<lambda>q. qe_collect q \<noteq> None) queue)))"

lemma queue_inv_Nil [simp]: "queue_inv tp []"
  by (simp add: queue_inv_def)

lemma queue_inv_snoc_single: "queue_inv tp q \<Longrightarrow> queue_inv tp (q @ [single_entry a])"
  by (simp add: queue_inv_def collect_ok_def single_entry_def)

lemma update_first_skip: "\<forall>x \<in> set xs. \<not> P x \<Longrightarrow> update_first P f (xs @ ys) = xs @ update_first P f ys"
  by (induction xs) auto

lemma find_Some_split: "find P xs = Some x \<Longrightarrow> \<exists>as bs. xs = as @ x # bs \<and> P x \<and> (\<forall>y \<in> set as. \<not> P y)"
proof (induction xs)
  case (Cons y ys)
  show ?case
  proof (cases "P y")
    case True
    hence "y # ys = [] @ x # ys \<and> P x \<and> (\<forall>y \<in> set []. \<not> P y)" using Cons.prems by simp
    thus ?thesis by blast
  next
    case False
    then obtain as bs where "ys = as @ x # bs" "P x" "\<forall>y \<in> set as. \<not> P y" using Cons by auto
    hence "y # ys = (y # as) @ x # bs \<and> P x \<and> (\<forall>z \<in> set (y # as). \<not> P z)" using False by simp
    thus ?thesis by blast
  qed
qed simp

lemma receive_sel [simp]:
  "qe_nodeId (receive k its q) = qe_nodeId q" "entry_batch (receive k its q) = entry_batch q"
  "qe_collect (receive k its q) = map_option (\<lambda>c. c\<lparr>cs_received := jset k its (cs_received c)\<rparr>) (qe_collect q)"
  by (simp_all add: receive_def entry_batch_def)

lemma new_collect_sel [simp]:
  "qe_nodeId (new_collect es n b) = n" "entry_batch (new_collect es n b) = b"
  "qe_collect (new_collect es n b) = Some \<lparr>cs_expectedInputs = es, cs_received = []\<rparr>"
  by (simp_all add: new_collect_def entry_batch_def)

lemma jset_nonempty [simp]: "jset k v m \<noteq> []"
  by (cases m) (auto split: if_splits)

text \<open>The two shapes of the queue after a delivery to a collect node.\<close>

lemma enqueue_collect_cases:
  obtains (fresh) "\<forall>q \<in> set queue. \<not> is_collect_for (to_nodeId (ea_to a)) (ea_batchId a) q"
      "enqueue_collect pl a queue = queue @ [receive (to_collectKey (ea_to a)) (ea_items a)
         (new_collect (topo_expected (pl_topology pl) (to_nodeId (ea_to a))) (to_nodeId (ea_to a)) (ea_batchId a))]"
  | (present) as x bs where "queue = as @ x # bs" "is_collect_for (to_nodeId (ea_to a)) (ea_batchId a) x"
      "\<forall>y \<in> set as. \<not> is_collect_for (to_nodeId (ea_to a)) (ea_batchId a) y"
      "enqueue_collect pl a queue = as @ receive (to_collectKey (ea_to a)) (ea_items a) x # bs"
proof (cases "find (is_collect_for (to_nodeId (ea_to a)) (ea_batchId a)) queue")
  case None
  hence no: "\<forall>q \<in> set queue. \<not> is_collect_for (to_nodeId (ea_to a)) (ea_batchId a) q" by (auto simp: find_None_iff)
  show ?thesis
    by (rule fresh [OF no])
       (simp add: enqueue_collect_def Let_def None update_first_skip [OF no] is_collect_for_def new_collect_def entry_batch_def)
next
  case (Some x)
  then obtain as bs where s: "queue = as @ x # bs" "is_collect_for (to_nodeId (ea_to a)) (ea_batchId a) x"
      "\<forall>y \<in> set as. \<not> is_collect_for (to_nodeId (ea_to a)) (ea_batchId a) y" using find_Some_split by metis
  show ?thesis
    by (rule present [OF s]) (simp add: enqueue_collect_def Let_def Some, simp add: s update_first_skip)
qed

lemma queue_inv_enqueue_collect:
  assumes "queue_inv (pl_topology pl) queue"
    and "to_collectKey (ea_to a) \<in> set (topo_expected (pl_topology pl) (to_nodeId (ea_to a)))"
  shows "queue_inv (pl_topology pl) (enqueue_collect pl a queue)"
proof (cases rule: enqueue_collect_cases [of queue a pl])
  case fresh
  let ?new = "receive (to_collectKey (ea_to a)) (ea_items a)
      (new_collect (topo_expected (pl_topology pl) (to_nodeId (ea_to a))) (to_nodeId (ea_to a)) (ea_batchId a))"
  have "(to_nodeId (ea_to a), ea_batchId a) \<notin> collect_slot ` set (filter (\<lambda>q. qe_collect q \<noteq> None) queue)"
    using fresh(1) by (auto simp: collect_slot_def is_collect_for_def)
  moreover have "collect_slot ?new = (to_nodeId (ea_to a), ea_batchId a)" "qe_collect ?new \<noteq> None"
    by (simp_all add: collect_slot_def)
  moreover have "collect_ok (pl_topology pl) ?new"
    using assms(2) by (simp add: collect_ok_def)
  ultimately show ?thesis
    using assms(1) unfolding fresh(2) queue_inv_def by simp
next
  case (present as x bs)
  obtain c where c: "qe_collect x = Some c" using present(2) by (auto simp: is_collect_for_def)
  have node: "qe_nodeId x = to_nodeId (ea_to a)" using present(2) by (simp add: is_collect_for_def)
  have slot: "collect_slot (receive k its x) = collect_slot x" for k its by (simp add: collect_slot_def)
  have "collect_ok (pl_topology pl) x" using assms(1) unfolding present(1) queue_inv_def by simp
  hence "collect_ok (pl_topology pl) (receive (to_collectKey (ea_to a)) (ea_items a) x)"
    using c assms(2) node by (auto simp: collect_ok_def)
  thus ?thesis
    using assms(1) [unfolded present(1)] c slot unfolding present(4) queue_inv_def by simp
qed

text \<open>Well-formed arguments: an edge of the topology and its source.\<close>

lemma queue_inv_enqueue_edge:
  assumes tp: "pl_topology pl = topology_of w"
  shows "\<lbrakk>enqueue_edge fuel pl a src queue = Inr queue'; queue_inv (pl_topology pl) queue;
     to_collectKey (ea_to a) \<in> set (topo_expected (pl_topology pl) (to_nodeId (ea_to a)))\<rbrakk>
   \<Longrightarrow> queue_inv (pl_topology pl) queue'"
proof (induction fuel arbitrary: a src queue queue')
  case (Suc fuel)
  let ?n = "to_nodeId (ea_to a)"
  have through: "queue_inv (pl_topology pl) q2"
    if "propagate_empty_path (enqueue_edge fuel pl) (pl_topology pl) ?n (ea_batchId a) s queue = Inr q2" for s q2
    using that unfolding propagate_empty_path_def
  proof (rule fold_result_inv [where I = "queue_inv (pl_topology pl)"])
    fix e t t'
    assume e: "e \<in> set (topo_outgoing (pl_topology pl) ?n)" "queue_inv (pl_topology pl) t"
      "enqueue_edge fuel pl \<lparr>ea_batchId = ea_batchId a, ea_to = e,
        ea_from = \<lparr>or_node = ?n, or_output = to_output e\<rparr>, ea_items = []\<rparr> (Some s) t = Inr t'"
    show "queue_inv (pl_topology pl) t'"
      using Suc.IH [OF e(3,2)] topo_outgoing_collectKey [of e w ?n] e(1) tp by simp
  qed (rule Suc.prems(2))
  show ?case
    using Suc.prems through queue_inv_enqueue_collect queue_inv_snoc_single
    by (auto simp: Let_def split: if_splits)
qed simp

lemma queue_inv_apply_outputs:
  assumes "pl_topology pl = topology_of w" "apply_outputs pl q n outs b = Inr q'" "queue_inv (pl_topology pl) q"
  shows "queue_inv (pl_topology pl) q'"
  using assms(2) unfolding apply_outputs_def
proof (rule fold_result_inv [where I = "queue_inv (pl_topology pl)"])
  fix e t t'
  assume e: "e \<in> set (topo_outgoing (pl_topology pl) n)" "queue_inv (pl_topology pl) t"
    "enqueue_edge (enqueue_fuel pl) pl \<lparr>ea_batchId = b, ea_to = e, ea_from = \<lparr>or_node = n, or_output = to_output e\<rparr>,
                ea_items = jget_list outs (to_output e)\<rparr> None t = Inr t'"
  show "queue_inv (pl_topology pl) t'"
    using queue_inv_enqueue_edge [OF assms(1) e(3,2)] topo_outgoing_collectKey [of e w n] e(1) assms(1) by simp
qed (rule assms(3))

lemma queue_inv_seed:
  assumes "pl_topology pl = topology_of w" "seed_from_trigger pl n its b = Inr q'"
  shows "queue_inv (pl_topology pl) q'"
  using assms(2) unfolding seed_from_trigger_def
proof (rule fold_result_inv [where I = "queue_inv (pl_topology pl)"])
  fix e t t'
  assume e: "e \<in> set (topo_outgoing (pl_topology pl) n)" "queue_inv (pl_topology pl) t"
    "(if to_output e \<noteq> ''main'' then Inr t else enqueue_edge (enqueue_fuel pl) pl
        \<lparr>ea_batchId = b, ea_to = e, ea_from = \<lparr>or_node = n, or_output = ''main''\<rparr>, ea_items = its\<rparr> None t) = Inr t'"
  show "queue_inv (pl_topology pl) t'"
  proof (cases "to_output e = ''main''")
    case True
    hence "enqueue_edge (enqueue_fuel pl) pl
        \<lparr>ea_batchId = b, ea_to = e, ea_from = \<lparr>or_node = n, or_output = ''main''\<rparr>, ea_items = its\<rparr> None t = Inr t'"
      using e(3) by simp
    from queue_inv_enqueue_edge [OF assms(1) this e(2)] show ?thesis
      using topo_outgoing_collectKey [of e w n] e(1) assms(1) by simp
  qed (use e in simp)
qed simp

section \<open>Taking the next activation\<close>

text \<open>The activation a collect entry stands for.\<close>

definition collect_activation :: "queue_entry \<Rightarrow> planned_activation" where
  "collect_activation q =
    MultiActivation (qe_nodeId q) (case qe_collect q of None \<Rightarrow> [] | Some c \<Rightarrow> cs_received c) (entry_batch q)"

lemma collect_ready_collect: "collect_ready q \<Longrightarrow> qe_collect q \<noteq> None"
  by (auto simp: collect_ready_def split: option.splits)

lemma try_dequeue_ready:
  "collect_ready (q ! i) \<Longrightarrow> try_dequeue_collect q i = Some (collect_activation (q ! i), remove_at i q)"
  by (cases "qe_collect (q ! i)") (auto simp: try_dequeue_collect_def collect_activation_def Let_def dest: collect_ready_collect)

lemma resolve_ready_eq:
  "resolve_ready_collect q =
    (case find_index collect_ready q of None \<Rightarrow> None | Some i \<Rightarrow> Some (collect_activation (q ! i), remove_at i q))"
  by (cases "find_index collect_ready q")
     (auto simp: resolve_ready_collect_def try_dequeue_ready dest!: find_index_Some)

lemma resolve_ready_None_iff: "resolve_ready_collect q = None \<longleftrightarrow> (\<forall>x \<in> set q. \<not> collect_ready x)"
  by (simp add: resolve_ready_eq find_index_from_None [of 0, symmetric] split: option.split)

lemma resolve_ready_Some:
  "resolve_ready_collect q = Some (act, q') \<Longrightarrow>
     \<exists>i. i < length q \<and> collect_ready (q ! i) \<and> (\<forall>j < i. \<not> collect_ready (q ! j))
       \<and> act = collect_activation (q ! i) \<and> q' = remove_at i q"
  by (auto simp: resolve_ready_eq split: option.splits dest!: find_index_Some)

lemma fill_missing_jhas:
  "jhas (fold (\<lambda>i m. if jhas m i then m else jset i [] m) es m) k \<longleftrightarrow> jhas m k \<or> k \<in> set es"
  by (induction es arbitrary: m) auto

lemma fill_missing_jget:
  "jget (fold (\<lambda>i m. if jhas m i then m else jset i [] m) es m) k
     = opt_else (jget m k) (if k \<in> set es then Some [] else None)"
proof (induction es arbitrary: m)
  case Nil
  show ?case by (cases "jget m k") simp_all
next
  case (Cons e es)
  show ?case
    by (cases "jhas m e"; simp add: Cons.IH; cases "jget m k") (auto simp: jhas_def)
qed

lemma fill_missing_ready: "qe_collect q \<noteq> None \<Longrightarrow> collect_ready (fill_missing q)"
  by (auto simp: collect_ready_def fill_missing_def fill_missing_jhas list_all_iff)

lemma fill_missing_sel [simp]: "qe_nodeId (fill_missing q) = qe_nodeId q" "entry_batch (fill_missing q) = entry_batch q"
  by (simp_all add: fill_missing_def entry_batch_def)

lemma remove_at_update [simp]: "remove_at i (xs[i := x]) = remove_at i xs"
  by (simp add: remove_at_def)

lemma has_received_collect: "has_received q \<Longrightarrow> qe_collect q \<noteq> None"
  by (auto simp: has_received_def split: option.splits)

lemma resolve_sealed_eq:
  "resolve_sealed_collect q =
    (case find_index has_received q of None \<Rightarrow> None
     | Some i \<Rightarrow> Some (collect_activation (fill_missing (q ! i)), remove_at i q))"
proof (cases "find_index has_received q")
  case (Some i)
  hence i: "i < length q" "has_received (q ! i)" using find_index_Some [OF Some] by simp_all
  have "collect_ready (q[i := fill_missing (q ! i)] ! i)"
    using i fill_missing_ready [OF has_received_collect [OF i(2)]] by simp
  from try_dequeue_ready [OF this] show ?thesis using Some i(1) by (simp add: resolve_sealed_collect_def)
qed (simp add: resolve_sealed_collect_def)

lemma resolve_sealed_None_iff: "resolve_sealed_collect q = None \<longleftrightarrow> (\<forall>x \<in> set q. \<not> has_received x)"
  by (simp add: resolve_sealed_eq find_index_from_None [of 0, symmetric] split: option.split)

lemma resolve_sealed_Some:
  "resolve_sealed_collect q = Some (act, q') \<Longrightarrow>
     \<exists>i. i < length q \<and> has_received (q ! i) \<and> act = collect_activation (fill_missing (q ! i)) \<and> q' = remove_at i q"
  by (auto simp: resolve_sealed_eq split: option.splits dest!: find_index_Some)

lemma mset_remove_at_subset: "i < length q \<Longrightarrow> mset (remove_at i q) \<subset># mset q"
  by (simp add: mset_remove_at)

lemma set_remove_at: "set (remove_at i xs) \<subseteq> set xs"
  by (auto simp: remove_at_def dest: in_set_takeD in_set_dropD)

lemma filter_map_remove_at_distinct:
  assumes "distinct (map f (filter P xs))"
  shows "distinct (map f (filter P (remove_at i xs)))"
proof (cases "i < length xs")
  case True
  thus ?thesis
    using assms unfolding remove_at_def
    by (subst (asm) id_take_nth_drop [OF True]) (auto split: if_splits)
qed (use assms in \<open>simp add: remove_at_def\<close>)

lemma queue_inv_remove_at: "queue_inv tp q \<Longrightarrow> queue_inv tp (remove_at i q)"
  using set_remove_at [of i q] filter_map_remove_at_distinct [of collect_slot _ q i]
  by (auto simp: queue_inv_def list_all_iff)

text \<open>One rule for everything that holds of the result: a case per exit of the loop and one for a dropped job.\<close>

lemma next_activation_rule [consumes 1, case_names ready empty sealed job skip]:
  assumes "next_activation pl q = Inr r"
    and ready: "\<And>q i. \<lbrakk>i < length q; collect_ready (q ! i); \<forall>j < i. \<not> collect_ready (q ! j)\<rbrakk>
      \<Longrightarrow> P q (Some (collect_activation (q ! i)), remove_at i q)"
    and empty: "P [] (None, [])"
    and sealed: "\<And>q i. \<lbrakk>i < length q; has_received (q ! i); \<forall>x \<in> set q. qe_collect x \<noteq> None \<and> \<not> collect_ready x\<rbrakk>
      \<Longrightarrow> P q (Some (collect_activation (fill_missing (q ! i))), remove_at i q)"
    and job: "\<And>q i d. \<lbrakk>i < length q; qe_collect (q ! i) = None; \<forall>x \<in> set q. \<not> collect_ready x;
        jget (tp_defsById (pl_topology pl)) (qe_nodeId (q ! i)) = Some d; nd_kind d = NodeKind\<rbrakk>
      \<Longrightarrow> P q (Some (SingleActivation (qe_nodeId (q ! i)) (qe_input (q ! i)) (entry_batch (q ! i))), remove_at i q)"
    and skip: "\<And>q i r. \<lbrakk>i < length q; qe_collect (q ! i) = None; \<forall>x \<in> set q. \<not> collect_ready x;
        \<not> (\<exists>d. jget (tp_defsById (pl_topology pl)) (qe_nodeId (q ! i)) = Some d \<and> nd_kind d = NodeKind);
        P (remove_at i q) r\<rbrakk> \<Longrightarrow> P q r"
  shows "P q r"
  using assms(1)
proof (induction q arbitrary: r rule: measure_induct_rule [where f = length])
  case (less q)
  show ?case
  proof (cases "resolve_ready_collect q")
    case (Some res)
    then obtain i where i: "i < length q" "collect_ready (q ! i)" "\<forall>j < i. \<not> collect_ready (q ! j)"
      "res = (collect_activation (q ! i), remove_at i q)"
      using resolve_ready_Some [of q "fst res" "snd res"] by (metis prod.collapse)
    hence "r = (Some (collect_activation (q ! i)), remove_at i q)"
      using less.prems Some by (simp add: next_activation.simps [of pl q])
    thus ?thesis using ready [OF i(1-3)] by simp
  next
    case None
    note noReady = None [unfolded resolve_ready_None_iff]
    show ?thesis
    proof (cases "find_index (\<lambda>x. qe_collect x = None) q")
      case None2: None
      hence all: "\<forall>x \<in> set q. qe_collect x \<noteq> None" by (simp add: find_index_from_None)
      show ?thesis
      proof (cases "resolve_sealed_collect q")
        case None3: None
        thus ?thesis using less.prems None None2 empty by (simp add: next_activation.simps [of pl q] split: if_splits)
      next
        case (Some res)
        then obtain i where i: "i < length q" "has_received (q ! i)" "res = (collect_activation (fill_missing (q ! i)), remove_at i q)"
          using resolve_sealed_Some [of q "fst res" "snd res"] by (metis prod.collapse)
        have "r = (Some (collect_activation (fill_missing (q ! i))), remove_at i q)"
          using less.prems None None2 Some i by (auto simp: next_activation.simps [of pl q] split: if_splits)
        thus ?thesis using sealed [OF i(1,2)] all noReady by simp
      qed
    next
      case (Some i)
      hence i: "i < length q" "qe_collect (q ! i) = None" using find_index_Some [OF Some] by simp_all
      let ?def = "jget (tp_defsById (pl_topology pl)) (qe_nodeId (q ! i))"
      show ?thesis
      proof (cases "\<exists>d. ?def = Some d \<and> nd_kind d = NodeKind")
        case True
        then obtain d where d: "?def = Some d" "nd_kind d = NodeKind" by blast
        have "r = (Some (SingleActivation (qe_nodeId (q ! i)) (qe_input (q ! i)) (entry_batch (q ! i))), remove_at i q)"
          using less.prems None Some d by (simp add: next_activation.simps [of pl q] Let_def)
        thus ?thesis using job [OF i noReady d] by simp
      next
        case False
        have "next_activation pl (remove_at i q) = Inr r"
          using less.prems None Some False by (simp add: next_activation.simps [of pl q] Let_def split: option.splits if_splits)
        hence "P (remove_at i q) r" using less.IH [of "remove_at i q"] i(1) by simp
        thus ?thesis using skip [OF i noReady False] by simp
      qed
    qed
  qed
qed

text \<open>Every step takes something out of the queue; without an activation the queue has been emptied.\<close>

lemma next_activation_shrinks:
  "next_activation pl q = Inr (act, q') \<Longrightarrow> (case act of None \<Rightarrow> q' = [] | Some _ \<Rightarrow> mset q' \<subset># mset q)"
proof (induction q "(act, q')" arbitrary: act q' rule: next_activation_rule)
  case (skip q i)
  thus ?case using mset_remove_at_subset [of i q] by (auto split: option.splits)
qed (simp_all add: mset_remove_at_subset)

lemma queue_inv_next_activation:
  assumes "next_activation pl q = Inr (act, q')" "queue_inv tp q"
  shows "queue_inv tp q'"
  using assms by (induction q "(act, q')" arbitrary: act q' rule: next_activation_rule) (simp_all add: queue_inv_remove_at)

text \<open>With the invariant there is always something to run: the stuck collect of the error message cannot arise.\<close>

lemma next_activation_total: "queue_inv tp q \<Longrightarrow> \<exists>r. next_activation pl q = Inr r"
proof (induction q rule: measure_induct_rule [where f = length])
  case (less q)
  show ?case
  proof (cases "find_index (\<lambda>x. qe_collect x = None) q")
    case None
    have "has_received (hd q)" if "q \<noteq> []"
    proof -
      have "qe_collect (hd q) \<noteq> None" using None that by (simp add: find_index_from_None)
      moreover have "collect_ok tp (hd q)" using less.prems that by (simp add: queue_inv_def list_all_iff)
      ultimately show ?thesis by (auto simp: has_received_def collect_ok_def)
    qed
    hence "q = [] \<or> resolve_sealed_collect q \<noteq> None" by (auto simp: resolve_sealed_None_iff)
    thus ?thesis
      using None by (cases "resolve_ready_collect q") (auto simp: next_activation.simps [of pl q])
  next
    case (Some i)
    hence "i < length q" using find_index_Some by blast
    hence "\<exists>r. next_activation pl (remove_at i q) = Inr r"
      using less.IH [of "remove_at i q"] queue_inv_remove_at [OF less.prems] by simp
    thus ?thesis using Some by (auto simp: next_activation.simps [of pl q] Let_def split: option.split)
  qed
qed

text \<open>
  C4. The queue of a run never gets stuck: from a queue that satisfies the invariant, applying the outputs of
  any node keeps the invariant, and taking the next activation succeeds, keeps the invariant and either
  removes something from the queue or finds it empty; so the error for a stuck multi-input collect is
  unreachable.
\<close>

theorem queue_never_stuck:
  assumes "create_planner createNodes w = Inr pl" "edges_declared w" "queue_inv (pl_topology pl) q"
  shows "\<exists>q1 act q2. apply_outputs pl q n outs b = Inr q1 \<and> next_activation pl q1 = Inr (act, q2)
     \<and> queue_inv (pl_topology pl) q1 \<and> queue_inv (pl_topology pl) q2
     \<and> (case act of None \<Rightarrow> q2 = [] | Some _ \<Rightarrow> mset q2 \<subset># mset q1)"
proof -
  note tp = create_planner_acyclic [OF assms(1,2)]
  obtain q1 where q1: "apply_outputs pl q n outs b = Inr q1" using apply_outputs_total [OF tp] by blast
  have inv1: "queue_inv (pl_topology pl) q1" by (rule queue_inv_apply_outputs [OF tp(2) q1 assms(3)])
  then obtain act q2 where q2: "next_activation pl q1 = Inr (act, q2)" using next_activation_total by fastforce
  show ?thesis
    using q1 q2 inv1 queue_inv_next_activation [OF q2 inv1] next_activation_shrinks [OF q2] by blast
qed

text \<open>
  What the planner hands out: a single activation is for a declared node of kind \<open>node\<close> and carries the
  input of a plain job of the queue, and a multi-input activation carries an item list for every expected
  input of a collect entry, with everything that entry had received unchanged.
\<close>

theorem next_activation_delivers:
  assumes "next_activation pl q = Inr (Some act, q')"
  shows "(case act of
      SingleActivation n its b \<Rightarrow>
        (\<exists>e \<in> set q. qe_collect e = None \<and> qe_nodeId e = n \<and> qe_input e = its \<and> entry_batch e = b)
        \<and> (\<exists>d. jget (tp_defsById (pl_topology pl)) n = Some d \<and> nd_kind d = NodeKind)
    | MultiActivation n received b \<Rightarrow>
        (\<exists>e \<in> set q. \<exists>c. qe_collect e = Some c \<and> qe_nodeId e = n \<and> entry_batch e = b
           \<and> (\<forall>p. p \<in> set (cs_expectedInputs c) \<or> jhas (cs_received c) p \<longrightarrow>
                jget received p = Some (jget_list (cs_received c) p))))"
  using assms
proof (induction q "(Some act, q')" arbitrary: act q' rule: next_activation_rule)
  case (ready q i)
  then obtain c where c: "qe_collect (q ! i) = Some c" using collect_ready_collect by blast
  have "p \<in> set (cs_expectedInputs c) \<or> jhas (cs_received c) p \<Longrightarrow>
      jget (cs_received c) p = Some (jget_list (cs_received c) p)" for p
    using ready(2) c by (cases "jget (cs_received c) p") (auto simp: collect_ready_def list_all_iff jhas_def)
  thus ?case
    using ready c by (auto simp: collect_activation_def intro!: bexI [of _ "q ! i"])
next
  case (sealed q i)
  then obtain c where c: "qe_collect (q ! i) = Some c" using has_received_collect by blast
  have "p \<in> set (cs_expectedInputs c) \<or> jhas (cs_received c) p \<Longrightarrow>
      jget (fold (\<lambda>i m. if jhas m i then m else jset i [] m) (cs_expectedInputs c) (cs_received c)) p
        = Some (jget_list (cs_received c) p)" for p
    unfolding fill_missing_jget by (cases "jget (cs_received c) p") (auto simp: jhas_def)
  thus ?case
    using sealed c by (auto simp: collect_activation_def fill_missing_def entry_batch_def intro!: bexI [of _ "q ! i"])
next
  case (job q i d)
  thus ?case by (auto intro!: bexI [of _ "q ! i"])
next
  case (skip q i)
  thus ?case using set_remove_at [of i q] by (auto split: planned_activation.splits; blast)
qed

section \<open>No delivery is lost\<close>

text \<open>
  The items of an edge have arrived: in the collect entry of a merge node under the edge's key, or in a job
  of their own (an empty list needs no job).
\<close>

definition collected :: "string \<Rightarrow> topo_out \<Rightarrow> items \<Rightarrow> run_queue \<Rightarrow> bool" where
  "collected b e its q = (\<exists>x \<in> set q. is_collect_for (to_nodeId e) b x
      \<and> (case qe_collect x of None \<Rightarrow> False | Some c \<Rightarrow> jget (cs_received c) (to_collectKey e) = Some its))"

definition delivered :: "planner \<Rightarrow> string \<Rightarrow> topo_out \<Rightarrow> items \<Rightarrow> run_queue \<Rightarrow> bool" where
  "delivered pl b e its q =
    (if routes_to_collect pl (to_nodeId e) then collected b e its q
     else its = [] \<or> (\<exists>x \<in> set q. qe_collect x = None \<and> qe_nodeId x = to_nodeId e \<and> qe_input x = its \<and> entry_batch x = b))"

text \<open>A write to another slot, another batch or with the same items leaves a delivery in place.\<close>

definition harmless :: "topo_out \<Rightarrow> items \<Rightarrow> enqueue_args \<Rightarrow> bool" where
  "harmless e its a \<longleftrightarrow>
    (to_nodeId (ea_to a) = to_nodeId e \<and> to_collectKey (ea_to a) = to_collectKey e \<longrightarrow> ea_items a = its)"

lemma is_collect_for_receive [simp]: "is_collect_for n b (receive k its x) \<longleftrightarrow> is_collect_for n b x"
  by (simp add: is_collect_for_def)

lemma enqueue_collect_delivers: "collected (ea_batchId a) (ea_to a) (ea_items a) (enqueue_collect pl a q)"
proof (cases rule: enqueue_collect_cases [of q a pl])
  case fresh
  thus ?thesis by (simp add: collected_def is_collect_for_def)
next
  case (present as x bs)
  then obtain c where "qe_collect x = Some c" by (auto simp: is_collect_for_def)
  thus ?thesis using present(2) unfolding present(4) by (simp add: collected_def)
qed

lemma enqueue_collect_keeps:
  assumes "collected b e its q" "harmless e its a"
  shows "collected b e its (enqueue_collect pl a q)"
proof -
  obtain x c where x: "x \<in> set q" "is_collect_for (to_nodeId e) b x" "qe_collect x = Some c"
    "jget (cs_received c) (to_collectKey e) = Some its"
    using assms(1) by (auto simp: collected_def split: option.splits)
  show ?thesis
  proof (cases rule: enqueue_collect_cases [of q a pl])
    case fresh
    show ?thesis using x unfolding fresh(2) collected_def by (intro bexI [of _ x]) auto
  next
    case (present as y bs)
    have k: "to_collectKey e = to_collectKey (ea_to a) \<longrightarrow> ea_items a = its" if "y = x"
      using assms(2) that x(2) present(2) by (auto simp: harmless_def is_collect_for_def)
    show ?thesis
    proof (cases "x = y")
      case True
      thus ?thesis using x k unfolding present(4) collected_def by auto
    next
      case False
      hence "x \<in> set as \<or> x \<in> set bs" using x(1) present(1) by auto
      thus ?thesis using x unfolding present(4) collected_def by (intro bexI [of _ x]) auto
    qed
  qed
qed

lemma mem_enqueue_collect_job:
  assumes "qe_collect x = None"
  shows "x \<in> set (enqueue_collect pl a q) \<longleftrightarrow> x \<in> set q"
proof (cases rule: enqueue_collect_cases [of q a pl])
  case fresh
  have "x \<noteq> receive k its (new_collect es n b)" for k its es n b using assms by auto
  thus ?thesis unfolding fresh(2) by simp
next
  case (present as y bs)
  have "x \<noteq> y" "x \<noteq> receive (to_collectKey (ea_to a)) (ea_items a) y"
    using assms present(2) by (auto simp: is_collect_for_def)
  thus ?thesis unfolding present(4) by (simp add: present(1))
qed

lemma enqueue_collect_keeps_delivered:
  "delivered pl b e its q \<Longrightarrow> harmless e its a \<Longrightarrow> delivered pl b e its (enqueue_collect pl a q)"
  using enqueue_collect_keeps [of b e its q a pl] mem_enqueue_collect_job [of _ pl a q]
  unfolding delivered_def by (simp split: if_splits) blast

lemma snoc_keeps_delivered: "delivered pl b e its q \<Longrightarrow> delivered pl b e its (q @ [x])"
  by (auto simp: delivered_def collected_def)

text \<open>Whatever is written downstream of an edge, along empty paths, must not hit the slot of another delivery.\<close>

definition downstream_clear :: "workflow \<Rightarrow> node_id \<Rightarrow> topo_out \<Rightarrow> bool" where
  "downstream_clear w n e \<longleftrightarrow>
    (\<forall>m. (n, m) \<in> (execution_edges w)\<^sup>* \<longrightarrow>
       (\<forall>d \<in> set (topo_outgoing (topology_of w) m). \<not> (to_nodeId d = to_nodeId e \<and> to_collectKey d = to_collectKey e)))"

lemma downstream_clear_step:
  "downstream_clear w n e \<Longrightarrow> d \<in> set (topo_outgoing (topology_of w) n) \<Longrightarrow> downstream_clear w (to_nodeId d) e"
  using topo_outgoing_execution [of d w n] unfolding downstream_clear_def
  by (meson converse_rtrancl_into_rtrancl)

lemma enqueue_edge_keeps:
  assumes "pl_topology pl = topology_of w"
  shows "\<lbrakk>enqueue_edge fuel pl a src q = Inr q'; delivered pl b e its q; harmless e its a;
          downstream_clear w (to_nodeId (ea_to a)) e\<rbrakk> \<Longrightarrow> delivered pl b e its q'"
proof (induction fuel arbitrary: a src q q')
  case (Suc fuel)
  let ?n = "to_nodeId (ea_to a)"
  have through: "delivered pl b e its q2"
    if "propagate_empty_path (enqueue_edge fuel pl) (pl_topology pl) ?n (ea_batchId a) s q = Inr q2" for s q2
    using that unfolding propagate_empty_path_def
  proof (rule fold_result_inv [where I = "delivered pl b e its"])
    fix d t t'
    assume d: "d \<in> set (topo_outgoing (pl_topology pl) ?n)" "delivered pl b e its t"
      "enqueue_edge fuel pl \<lparr>ea_batchId = ea_batchId a, ea_to = d,
        ea_from = \<lparr>or_node = ?n, or_output = to_output d\<rparr>, ea_items = []\<rparr> (Some s) t = Inr t'"
    have "\<not> (to_nodeId d = to_nodeId e \<and> to_collectKey d = to_collectKey e)"
      using Suc.prems(4) d(1) assms by (auto simp: downstream_clear_def)
    hence "harmless e its \<lparr>ea_batchId = ea_batchId a, ea_to = d,
        ea_from = \<lparr>or_node = ?n, or_output = to_output d\<rparr>, ea_items = []\<rparr>" by (auto simp: harmless_def)
    from Suc.IH [OF d(3,2) this] show "delivered pl b e its t'"
      using downstream_clear_step [OF Suc.prems(4)] d(1) assms by simp
  qed (rule Suc.prems(2))
  show ?case
    using Suc.prems through enqueue_collect_keeps_delivered snoc_keeps_delivered
    by (auto simp: Let_def split: if_splits)
qed simp

lemma enqueue_edge_delivers:
  assumes "enqueue_edge fuel pl a src q = Inr q'"
  shows "delivered pl (ea_batchId a) (ea_to a) (ea_items a) q'"
proof (cases fuel)
  case (Suc n)
  show ?thesis
  proof (cases "routes_to_collect pl (to_nodeId (ea_to a))")
    case True
    thus ?thesis using assms Suc enqueue_collect_delivers by (auto simp: delivered_def)
  next
    case False
    hence "ea_items a = [] \<or> q' = q @ [single_entry a]" using assms Suc by (auto split: if_splits)
    thus ?thesis using False by (auto simp: delivered_def single_entry_def entry_batch_def)
  qed
qed (use assms in simp)

lemma outgoing_downstream_clear:
  assumes "acyclic (execution_edges w)" "colon_free w"
    and "d \<in> set (topo_outgoing (topology_of w) n)" "e \<in> set (topo_outgoing (topology_of w) n)"
  shows "downstream_clear w (to_nodeId d) e"
  unfolding downstream_clear_def
proof (intro allI impI ballI notI)
  fix m x
  assume m: "(to_nodeId d, m) \<in> (execution_edges w)\<^sup>*" and x: "x \<in> set (topo_outgoing (topology_of w) m)"
    and same: "to_nodeId x = to_nodeId e \<and> to_collectKey x = to_collectKey e"
  have "m = n" using outgoing_key_source [OF assms(2) x assms(4)] same by simp
  hence "(n, n) \<in> (execution_edges w)\<^sup>+"
    using m topo_outgoing_execution [OF assms(3)] by (meson rtrancl_into_trancl2)
  thus False using assms(1) by (simp add: acyclic_def)
qed

lemma apply_outputs_delivers:
  assumes "acyclic (execution_edges w)" "colon_free w" "pl_topology pl = topology_of w"
    and "apply_outputs pl q n outs b = Inr q'" "e \<in> set (topo_outgoing (pl_topology pl) n)"
  shows "delivered pl b e (jget_list outs (to_output e)) q'"
proof -
  let ?args = "\<lambda>e. \<lparr>ea_batchId = b, ea_to = e, ea_from = \<lparr>or_node = n, or_output = to_output e\<rparr>,
                ea_items = jget_list outs (to_output e)\<rparr>"
  let ?f = "\<lambda>e q. enqueue_edge (enqueue_fuel pl) pl (?args e) None q"
  obtain as bs where split: "topo_outgoing (pl_topology pl) n = as @ e # bs" using assms(5) by (meson split_list)
  obtain q1 q2 where q1: "fold_result ?f as q = Inr q1" "?f e q1 = Inr q2" "fold_result ?f bs q2 = Inr q'"
    using assms(4) unfolding apply_outputs_def split fold_result_append by (auto split: sum.splits)
  have at2: "delivered pl b e (jget_list outs (to_output e)) q2" using enqueue_edge_delivers [OF q1(2)] by simp
  show ?thesis
    using q1(3)
  proof (rule fold_result_inv [where I = "delivered pl b e (jget_list outs (to_output e))"])
    fix d t t'
    assume d: "d \<in> set bs" "delivered pl b e (jget_list outs (to_output e)) t" "?f d t = Inr t'"
    have mem: "d \<in> set (topo_outgoing (topology_of w) n)" "e \<in> set (topo_outgoing (topology_of w) n)"
      using d(1) split assms(3) by simp_all
    have "harmless e (jget_list outs (to_output e)) (?args d)"
      using outgoing_key_source [OF assms(2) mem] by (auto simp: harmless_def)
    thus "delivered pl b e (jget_list outs (to_output e)) t'"
      using enqueue_edge_keeps [OF assms(3) d(3,2)] outgoing_downstream_clear [OF assms(1,2) mem] by simp
  qed (rule at2)
qed


section \<open>Witnesses\<close>

lemma sample_declared: "edges_declared sample_workflow" and sample_colon_free: "colon_free sample_workflow"
  by code_simp+

lemma routing_terminates_witness:
  "\<exists>q'. apply_outputs sample_planner [] ''if'' [(''true'', []), (''false'', [sample_item ''x''])] ''batch_1'' = Inr q'"
  using routing_terminates [OF sample_planner_created sample_declared] by blast

lemma queue_never_stuck_witness:
  "\<exists>q1 act q2. apply_outputs sample_planner [] ''if'' [(''false'', [sample_item ''x''])] ''batch_1'' = Inr q1
     \<and> next_activation sample_planner q1 = Inr (act, q2)"
  using queue_never_stuck [OF sample_planner_created sample_declared queue_inv_Nil] by blast


lemma next_activation_delivers_witness:
  "next_activation sample_planner
     [\<lparr>qe_nodeId = ''a'', qe_input = [sample_item ''x''], qe_toInput = Some ''in'', qe_batchId = Some ''b7'',
       qe_from = None, qe_collect = None\<rparr>] = Inr (Some (SingleActivation ''a'' [sample_item ''x''] ''b7''), [])
   \<and> (\<exists>d. jget (tp_defsById (pl_topology sample_planner)) ''a'' = Some d \<and> nd_kind d = NodeKind)"
proof -
  have n: "next_activation sample_planner
     [\<lparr>qe_nodeId = ''a'', qe_input = [sample_item ''x''], qe_toInput = Some ''in'', qe_batchId = Some ''b7'',
       qe_from = None, qe_collect = None\<rparr>] = Inr (Some (SingleActivation ''a'' [sample_item ''x''] ''b7''), [])"
    by code_simp
  show ?thesis using n next_activation_delivers [OF n] by simp
qed

end
