(* ===== verification/Frontier.thy ===== *)
theory Frontier
  imports QueuePlanner
begin

text \<open>
  \<open>planning/CurrentStateFrontierPlanner.ts\<close>: given the outputs and snapshots a run already has, which nodes
  must run next.  A reset clears a node and everything downstream; a stop condition restricts the work to what
  one node needs.  The recursion \<open>collectRequiredNode\<close> runs on fuel (proved sufficient without any
  assumption on the graph), the worklist loop \<open>collectDescendants\<close> is a total function.
\<close>

section \<open>Satisfaction of nodes and edges\<close>

definition has_outputs :: "current_state \<Rightarrow> node_id \<Rightarrow> bool" where
  "has_outputs st n = jhas (cu_outputsByNode st) n"

definition has_completed_snapshot :: "current_state \<Rightarrow> node_id \<Rightarrow> bool" where
  "has_completed_snapshot st n =
    (case jget (cu_nodeSnapshotsByNodeId st) n of
       None \<Rightarrow> False
     | Some s \<Rightarrow> ns_status s = NsCompleted \<or> ns_status s = NsSkipped)"

definition is_node_satisfied :: "current_state \<Rightarrow> node_id \<Rightarrow> bool" where
  "is_node_satisfied st n = (has_outputs st n \<or> has_completed_snapshot st n)"

definition satisfied_by_outputs_only :: "current_state \<Rightarrow> node_id \<Rightarrow> bool" where
  "satisfied_by_outputs_only st n = (has_outputs st n \<and> \<not> has_completed_snapshot st n)"

definition resolve_output_items :: "current_state \<Rightarrow> node_id \<Rightarrow> port_key \<Rightarrow> items" where
  "resolve_output_items st n out =
    (case jget (cu_outputsByNode st) n of None \<Rightarrow> [] | Some outs \<Rightarrow> jget_list outs out)"

definition uses_collect :: "topology \<Rightarrow> node_id \<Rightarrow> bool" where
  "uses_collect tp n =
    (let expected = topo_expected tp n
     in if length expected \<noteq> 1 \<or> hd expected \<noteq> ''in'' then True else 1 < length (topo_incoming tp n))"

definition incoming_by_key :: "topology \<Rightarrow> node_id \<Rightarrow> port_key \<Rightarrow> topo_in option" where
  "incoming_by_key tp n k = find (\<lambda>e. ti_collectKey e = k) (topo_incoming tp n)"

definition is_edge_satisfied :: "topology \<Rightarrow> current_state \<Rightarrow> node_id \<Rightarrow> port_key \<Rightarrow> bool" where
  "is_edge_satisfied tp st n k =
    (case incoming_by_key tp n k of
       None \<Rightarrow> False
     | Some e \<Rightarrow>
         let src = or_node (ti_from e)
         in if \<not> is_node_satisfied st src then False
            else if uses_collect tp n then True
            else if resolve_output_items st src (or_output (ti_from e)) \<noteq> [] then True
            else continues_after_empty tp src)"

definition resolve_input :: "topology \<Rightarrow> current_state \<Rightarrow> node_id \<Rightarrow> port_key \<Rightarrow> items" where
  "resolve_input tp st n k =
    (case incoming_by_key tp n k of
       None \<Rightarrow> []
     | Some e \<Rightarrow> resolve_output_items st (or_node (ti_from e)) (or_output (ti_from e)))"

section \<open>The state the plan starts from\<close>

definition clone_current_state :: "current_state option \<Rightarrow> current_state" where
  "clone_current_state cs =
    (case cs of
       None \<Rightarrow> \<lparr>cu_outputsByNode = [], cu_nodeSnapshotsByNodeId = [], cu_connectionInvocations = Some [],
               cu_mutableState = None\<rparr>
     | Some st \<Rightarrow> st)"

definition mutable_nodes :: "current_state \<Rightarrow> (node_id, mutable_node_state) jmap" where
  "mutable_nodes st = (case cu_mutableState st of None \<Rightarrow> [] | Some m \<Rightarrow> mr_nodesById m)"

definition overlay_pinned_outputs :: "current_state \<Rightarrow> current_state" where
  "overlay_pinned_outputs st =
    st\<lparr>cu_outputsByNode :=
        fold (\<lambda>(n, ms) outs. case mn_pinnedOutputsByPort ms of None \<Rightarrow> outs | Some p \<Rightarrow> jset n p outs)
          (mutable_nodes st) (cu_outputsByNode st)\<rparr>"

definition get_pinned_outputs :: "current_state \<Rightarrow> node_id \<Rightarrow> node_outputs option" where
  "get_pinned_outputs st n =
    (case jget (mutable_nodes st) n of None \<Rightarrow> None | Some ms \<Rightarrow> mn_pinnedOutputsByPort ms)"

section \<open>Reset\<close>

lemma descendants_measure:
  assumes "n \<notin> set seen"
  shows "card (set (jkeys (tp_outgoingByNode tp)) - set (seen @ [n])) < card (set (jkeys (tp_outgoingByNode tp)) - set seen)
    \<or> card (set (jkeys (tp_outgoingByNode tp)) - set (seen @ [n])) = card (set (jkeys (tp_outgoingByNode tp)) - set seen)
      \<and> topo_outgoing tp n = []"
proof (cases "n \<in> set (jkeys (tp_outgoingByNode tp))")
  case True
  hence "set (jkeys (tp_outgoingByNode tp)) - set (seen @ [n]) \<subset> set (jkeys (tp_outgoingByNode tp)) - set seen"
    using assms by auto
  thus ?thesis by (meson List.finite_set finite_Diff psubset_card_mono)
next
  case False
  hence "jget (tp_outgoingByNode tp) n = None" by (simp add: map_of_eq_None_iff)
  moreover have "set (jkeys (tp_outgoingByNode tp)) - set (seen @ [n]) = set (jkeys (tp_outgoingByNode tp)) - set seen"
    using False by auto
  ultimately show ?thesis by simp
qed

text \<open>The worklist is a stack: its head is the element \<open>pop\<close> returns.\<close>

function descendants_loop :: "topology \<Rightarrow> node_id list \<Rightarrow> node_id list \<Rightarrow> node_id list" where
  "descendants_loop tp [] seen = seen"
| "descendants_loop tp (n # stack) seen =
    (if n = [] \<or> n \<in> set seen then descendants_loop tp stack seen
     else descendants_loop tp (rev (map to_nodeId (topo_outgoing tp n)) @ stack) (seen @ [n]))"
  by pat_completeness auto

termination
proof (relation "measures [\<lambda>(tp, stack, seen). card (set (jkeys (tp_outgoingByNode tp)) - set seen), \<lambda>(tp, stack, seen). length stack]",
    goal_cases)
  case (3 tp n stack seen)
  hence "n \<notin> set seen" by simp
  from descendants_measure [OF this, of tp] show ?case by auto
qed simp_all

definition collect_descendants :: "topology \<Rightarrow> node_id \<Rightarrow> node_id list" where
  "collect_descendants tp start = descendants_loop tp [start] []"

fun is_runtime_descendant :: "node_id \<Rightarrow> node_id list \<Rightarrow> bool" where
  "is_runtime_descendant n [] = False"
| "is_runtime_descendant n (d # ds) =
    (if n = d then False else if is_connection_owned_descendant d n then True else is_runtime_descendant n ds)"

definition collect_runtime_descendants :: "current_state \<Rightarrow> node_id list \<Rightarrow> node_id list" where
  "collect_runtime_descendants st ds =
    dedupe (filter (\<lambda>n. is_runtime_descendant n (dedupe ds))
      (jkeys (cu_outputsByNode st) @ jkeys (cu_nodeSnapshotsByNodeId st) @ jkeys (mutable_nodes st)))"

definition filter_connection_invocations ::
  "connection_invocation list option \<Rightarrow> node_id list \<Rightarrow> connection_invocation list option" where
  "filter_connection_invocations invs cleared =
    (case invs of
       None \<Rightarrow> None
     | Some xs \<Rightarrow> Some (filter (\<lambda>i. ci_parentAgentNodeId i \<notin> set cleared \<and> ci_connectionNodeId i \<notin> set cleared) xs))"

record reset_result =
  rz_currentState :: current_state
  rz_clearedNodeIds :: "node_id list"
  rz_preservedPinnedNodeIds :: "node_id list"

definition reset_step :: "current_state \<Rightarrow> node_id \<Rightarrow> reset_result \<Rightarrow> reset_result" where
  "reset_step st n r =
    (let cur = rz_currentState r
     in case get_pinned_outputs st n of
          Some p \<Rightarrow>
            r\<lparr>rz_currentState := cur\<lparr>cu_outputsByNode := jset n p (cu_outputsByNode cur),
                                      cu_nodeSnapshotsByNodeId := jremove n (cu_nodeSnapshotsByNodeId cur)\<rparr>,
              rz_preservedPinnedNodeIds := rz_preservedPinnedNodeIds r @ [n]\<rparr>
        | None \<Rightarrow>
            r\<lparr>rz_currentState := cur\<lparr>cu_outputsByNode := jremove n (cu_outputsByNode cur),
                                      cu_nodeSnapshotsByNodeId := jremove n (cu_nodeSnapshotsByNodeId cur)\<rparr>,
              rz_clearedNodeIds := rz_clearedNodeIds r @ [n]\<rparr>)"

definition apply_reset :: "topology \<Rightarrow> current_state \<Rightarrow> reset_request option \<Rightarrow> reset_result" where
  "apply_reset tp st reset =
    (case reset of
       None \<Rightarrow> \<lparr>rz_currentState = st, rz_clearedNodeIds = [], rz_preservedPinnedNodeIds = []\<rparr>
     | Some r \<Rightarrow>
         let ds = collect_descendants tp (rr_clearFromNodeId r);
             rds = collect_runtime_descendants st ds;
             res = fold (reset_step st) (ds @ rds)
               \<lparr>rz_currentState = st, rz_clearedNodeIds = [], rz_preservedPinnedNodeIds = []\<rparr>
         in res\<lparr>rz_currentState := (rz_currentState res)\<lparr>cu_connectionInvocations :=
               filter_connection_invocations (cu_connectionInvocations st) (ds @ rds)\<rparr>\<rparr>)"

section \<open>Required nodes and the frontier\<close>

fun collect_required_node ::
  "nat \<Rightarrow> topology \<Rightarrow> current_state \<Rightarrow> node_id \<Rightarrow> node_id list \<Rightarrow> js_error + node_id list" where
  "collect_required_node 0 tp st n req = Inl stack_overflow"
| "collect_required_node (Suc fuel) tp st n req =
    (if n \<in> set req then Inr req
     else if is_node_satisfied st n \<and> \<not> satisfied_by_outputs_only st n then Inr req
     else fold_result
       (\<lambda>e r. if \<not> is_edge_satisfied tp st n (ti_collectKey e) \<or> satisfied_by_outputs_only st (or_node (ti_from e))
              then collect_required_node fuel tp st (or_node (ti_from e)) r else Inr r)
       (topo_incoming tp n) (req @ [n]))"

definition required_fuel :: "topology \<Rightarrow> nat" where
  "required_fuel tp = Suc (length (tp_incomingByNode tp))"

definition collect_required_node_ids :: "topology \<Rightarrow> stop_condition \<Rightarrow> current_state \<Rightarrow> js_error + node_id list" where
  "collect_required_node_ids tp stop st =
    (case stop of
       WorkflowCompleted \<Rightarrow>
         fold_result (\<lambda>n r. if is_node_satisfied st n then Inr r else collect_required_node (required_fuel tp) tp st n r)
           (jkeys (tp_defsById tp)) []
     | NodeCompletedStop n \<Rightarrow>
         if \<not> jhas (tp_defsById tp) n then Inl (plain_error (''Unknown stop nodeId: '' @ n))
         else collect_required_node (required_fuel tp) tp st n [])"

definition collect_satisfied_node_ids :: "topology \<Rightarrow> current_state \<Rightarrow> node_id list" where
  "collect_satisfied_node_ids tp st = filter (is_node_satisfied st) (jkeys (tp_defsById tp))"

definition collect_frontier_node_ids :: "topology \<Rightarrow> node_id list \<Rightarrow> current_state \<Rightarrow> node_id list" where
  "collect_frontier_node_ids tp required st =
    filter (\<lambda>n. \<not> (n \<notin> set required \<or> is_node_satisfied st n)
              \<and> list_all (\<lambda>e. is_edge_satisfied tp st n (ti_collectKey e)) (topo_incoming tp n))
      (jkeys (tp_defsById tp))"

definition build_frontier_queue :: "topology \<Rightarrow> current_state \<Rightarrow> node_id \<Rightarrow> run_queue" where
  "build_frontier_queue tp st n =
    (if topo_incoming tp n = [] then []
     else if uses_collect tp n then
       [\<lparr>qe_nodeId = n, qe_input = [], qe_toInput = None, qe_batchId = Some default_batch, qe_from = None,
         qe_collect = Some \<lparr>cs_expectedInputs = topo_expected tp n,
           cs_received = fold (\<lambda>i m. jset i (resolve_input tp st n i) m) (topo_expected tp n) []\<rparr>\<rparr>]
     else
       let i = (case topo_expected tp n of [] \<Rightarrow> ''in'' | x # _ \<Rightarrow> x)
       in [\<lparr>qe_nodeId = n, qe_input = resolve_input tp st n i, qe_toInput = Some i, qe_batchId = Some default_batch,
            qe_from = map_option ti_from (incoming_by_key tp n i), qe_collect = None\<rparr>])"

definition resolve_root_node_input :: "node_kind \<Rightarrow> items option \<Rightarrow> items" where
  "resolve_root_node_input kind its =
    (case its of
       Some xs \<Rightarrow> xs
     | None \<Rightarrow> if kind = TriggerKind then [] else [json_item (JObj [])])"

record plan_args =
  pg_currentState :: "current_state option"
  pg_stopCondition :: "stop_condition option"
  pg_reset :: "reset_request option"
  pg_items :: "items option"

definition frontier_base :: "topology \<Rightarrow> plan_args \<Rightarrow> reset_result" where
  "frontier_base tp a = apply_reset tp (overlay_pinned_outputs (clone_current_state (pg_currentState a))) (pg_reset a)"

definition frontier_roots :: "topology \<Rightarrow> node_id list \<Rightarrow> node_id list" where
  "frontier_roots tp frontier = filter (\<lambda>n. topo_incoming tp n = []) frontier"

definition plan_base :: "topology \<Rightarrow> stop_condition \<Rightarrow> reset_result \<Rightarrow> node_id list \<Rightarrow> frontier_plan" where
  "plan_base tp stop rz required =
    (let st = rz_currentState rz
     in \<lparr>fp_rootNodeId = None, fp_rootNodeInput = None, fp_queue = [], fp_currentState = st,
         fp_stopCondition = stop,
         fp_satisfiedNodeIds = collect_satisfied_node_ids tp st,
         fp_skippedNodeIds = dedupe (filter (is_node_satisfied st) required
                        @ filter (\<lambda>n. n \<in> set required) (rz_preservedPinnedNodeIds rz)),
         fp_clearedNodeIds = rz_clearedNodeIds rz, fp_preservedPinnedNodeIds = rz_preservedPinnedNodeIds rz\<rparr>)"

definition plan_from_frontier ::
  "topology \<Rightarrow> items option \<Rightarrow> frontier_plan \<Rightarrow> node_id list \<Rightarrow> js_error + frontier_plan" where
  "plan_from_frontier tp its plan frontier =
    (let roots = frontier_roots tp frontier
     in if 1 < length roots
        then Inl (plain_error (''Ambiguous execution frontier. Multiple root nodes require input: '' @ join_strings '', '' roots))
        else if frontier = [] then Inr plan
        else case roots of
               [rootId] \<Rightarrow>
                 (case jget (tp_defsById tp) rootId of
                    None \<Rightarrow> Inl (plain_error (''Unknown frontier nodeId: '' @ rootId))
                  | Some d \<Rightarrow> Inr (plan\<lparr>fp_rootNodeId := Some rootId,
                                        fp_rootNodeInput := Some (resolve_root_node_input (nd_kind d) its)\<rparr>))
             | _ \<Rightarrow> Inr (plan\<lparr>fp_queue := concat (map (build_frontier_queue tp (fp_currentState plan)) frontier)\<rparr>))"

definition plan_frontier :: "topology \<Rightarrow> plan_args \<Rightarrow> js_error + frontier_plan" where
  "plan_frontier tp a =
    (let stop = opt_or (pg_stopCondition a) WorkflowCompleted;
         rz = frontier_base tp a;
         st = rz_currentState rz
     in case collect_required_node_ids tp stop st of
          Inl e \<Rightarrow> Inl e
        | Inr required \<Rightarrow>
            plan_from_frontier tp (pg_items a) (plan_base tp stop rz required) (collect_frontier_node_ids tp required st))"

section \<open>Descendants\<close>

definition topology_edges :: "topology \<Rightarrow> (node_id \<times> node_id) set" where
  "topology_edges tp = {(a, b). \<exists>e \<in> set (topo_outgoing tp a). to_nodeId e = b}"

text \<open>No edge leads to a node with an empty id (the loop would skip it).\<close>

definition named_targets :: "topology \<Rightarrow> bool" where
  "named_targets tp = list_all (\<lambda>(_, es). list_all (\<lambda>e. to_nodeId e \<noteq> []) es) (tp_outgoingByNode tp)"

lemma named_targets_edge: "named_targets tp \<Longrightarrow> (a, b) \<in> topology_edges tp \<Longrightarrow> b \<noteq> []"
  unfolding named_targets_def topology_edges_def list_all_iff
  by (cases "jget (tp_outgoingByNode tp) a") (auto dest!: map_of_SomeD)

lemma descendants_loop_distinct: "distinct seen \<Longrightarrow> distinct (descendants_loop tp stack seen)"
  by (induction tp stack seen rule: descendants_loop.induct) auto

lemma descendants_loop_extends: "set seen \<subseteq> set (descendants_loop tp stack seen)"
  by (induction tp stack seen rule: descendants_loop.induct) auto

lemma descendants_loop_sound:
  "n \<in> set (descendants_loop tp stack seen) \<Longrightarrow> n \<in> set seen \<or> (\<exists>s \<in> set stack. (s, n) \<in> (topology_edges tp)\<^sup>*)"
proof (induction tp stack seen rule: descendants_loop.induct)
  case (2 tp m stack seen)
  show ?case
  proof (cases "m = [] \<or> m \<in> set seen")
    case True
    thus ?thesis using 2 by auto
  next
    case False
    hence "n \<in> set (seen @ [m]) \<or> (\<exists>s \<in> set (rev (map to_nodeId (topo_outgoing tp m)) @ stack). (s, n) \<in> (topology_edges tp)\<^sup>*)"
      using 2 by simp
    moreover have "(s, n) \<in> (topology_edges tp)\<^sup>* \<Longrightarrow> (m, n) \<in> (topology_edges tp)\<^sup>*"
      if "s \<in> to_nodeId ` set (topo_outgoing tp m)" for s
      using that by (auto simp: topology_edges_def intro: converse_rtrancl_into_rtrancl)
    ultimately show ?thesis by auto
  qed
qed simp

text \<open>Everything on the stack ends up in the result, and the result is closed once the stack is empty.\<close>

lemma descendants_loop_stack: "n \<in> set stack \<Longrightarrow> n \<noteq> [] \<Longrightarrow> n \<in> set (descendants_loop tp stack seen)"
proof (induction tp stack seen rule: descendants_loop.induct)
  case (2 tp m stack seen)
  thus ?case using descendants_loop_extends [of "seen @ [m]"] descendants_loop_extends [of seen tp stack] by auto
qed simp

lemma descendants_loop_closed:
  assumes "named_targets tp"
    and "\<And>a b. a \<in> set seen \<Longrightarrow> (a, b) \<in> topology_edges tp \<Longrightarrow> b \<in> set seen \<union> set stack"
    and "a \<in> set (descendants_loop tp stack seen)" "(a, b) \<in> topology_edges tp"
  shows "b \<in> set (descendants_loop tp stack seen)"
  using assms
proof (induction tp stack seen rule: descendants_loop.induct)
  case (1 tp seen)
  thus ?case by simp
next
  case (2 tp m stack seen)
  show ?case
  proof (cases "m = [] \<or> m \<in> set seen")
    case True
    have "b' \<in> set seen \<union> set stack" if "a' \<in> set seen" "(a', b') \<in> topology_edges tp" for a' b'
      using 2(4) [OF that] True named_targets_edge [OF 2(3) that(2)] by auto
    thus ?thesis using 2(1) [OF True 2(3)] 2(5,6) True by simp
  next
    case False
    have "b' \<in> set (seen @ [m]) \<union> set (rev (map to_nodeId (topo_outgoing tp m)) @ stack)"
      if "a' \<in> set (seen @ [m])" "(a', b') \<in> topology_edges tp" for a' b'
      using 2(4) [of a' b'] that by (auto simp: topology_edges_def)
    thus ?thesis using 2(2) [OF False 2(3)] 2(5,6) False by simp
  qed
qed

lemma collect_descendants_eq:
  assumes "named_targets tp" "start \<noteq> []"
  shows "set (collect_descendants tp start) = {n. (start, n) \<in> (topology_edges tp)\<^sup>*}"
proof (intro set_eqI iffI)
  fix n assume "n \<in> set (collect_descendants tp start)"
  thus "n \<in> {n. (start, n) \<in> (topology_edges tp)\<^sup>*}"
    using descendants_loop_sound [of n tp "[start]" "[]"] by (simp add: collect_descendants_def)
next
  fix n assume "n \<in> {n. (start, n) \<in> (topology_edges tp)\<^sup>*}"
  hence "(start, n) \<in> (topology_edges tp)\<^sup>*" by simp
  thus "n \<in> set (collect_descendants tp start)"
    unfolding collect_descendants_def
  proof (induction rule: rtrancl_induct)
    case base
    show ?case by (rule descendants_loop_stack) (simp_all add: assms(2))
  next
    case (step y z)
    show ?case using descendants_loop_closed [OF assms(1) _ step.IH step.hyps(2)] by simp
  qed
qed

lemma collect_descendants_distinct [simp]: "distinct (collect_descendants tp start)"
  by (simp add: collect_descendants_def descendants_loop_distinct)

section \<open>What a reset does to the state\<close>

lemma reset_fold:
  assumes "res = fold (reset_step st) ns r"
  shows "jget (cu_outputsByNode (rz_currentState res)) n =
      (if n \<in> set ns then get_pinned_outputs st n else jget (cu_outputsByNode (rz_currentState r)) n)"
    and "jget (cu_nodeSnapshotsByNodeId (rz_currentState res)) n =
      (if n \<in> set ns then None else jget (cu_nodeSnapshotsByNodeId (rz_currentState r)) n)"
    and "rz_clearedNodeIds res = rz_clearedNodeIds r @ filter (\<lambda>n. get_pinned_outputs st n = None) ns"
    and "rz_preservedPinnedNodeIds res = rz_preservedPinnedNodeIds r @ filter (\<lambda>n. get_pinned_outputs st n \<noteq> None) ns"
    and "cu_mutableState (rz_currentState res) = cu_mutableState (rz_currentState r)"
  using assms
proof (induction ns arbitrary: r)
  case (Cons m ns)
  {
    case 1
    thus ?case using Cons.IH(1) [of "reset_step st m r"]
      by (cases "get_pinned_outputs st m") (auto simp: reset_step_def Let_def)
  next
    case 2
    thus ?case using Cons.IH(2) [of "reset_step st m r"]
      by (cases "get_pinned_outputs st m") (auto simp: reset_step_def Let_def)
  next
    case 3
    thus ?case using Cons.IH(3) [of "reset_step st m r"]
      by (cases "get_pinned_outputs st m") (auto simp: reset_step_def Let_def)
  next
    case 4
    thus ?case using Cons.IH(4) [of "reset_step st m r"]
      by (cases "get_pinned_outputs st m") (auto simp: reset_step_def Let_def)
  next
    case 5
    thus ?case using Cons.IH(5) [of "reset_step st m r"]
      by (cases "get_pinned_outputs st m") (auto simp: reset_step_def Let_def)
  }
qed simp_all

definition reset_scope :: "topology \<Rightarrow> current_state \<Rightarrow> reset_request \<Rightarrow> node_id list" where
  "reset_scope tp st r =
    (let ds = collect_descendants tp (rr_clearFromNodeId r) in ds @ collect_runtime_descendants st ds)"

lemma apply_reset_Some:
  "jget (cu_outputsByNode (rz_currentState (apply_reset tp st (Some r)))) n =
      (if n \<in> set (reset_scope tp st r) then get_pinned_outputs st n else jget (cu_outputsByNode st) n)"
  "jget (cu_nodeSnapshotsByNodeId (rz_currentState (apply_reset tp st (Some r)))) n =
      (if n \<in> set (reset_scope tp st r) then None else jget (cu_nodeSnapshotsByNodeId st) n)"
  "rz_clearedNodeIds (apply_reset tp st (Some r)) =
      filter (\<lambda>n. get_pinned_outputs st n = None) (reset_scope tp st r)"
  "rz_preservedPinnedNodeIds (apply_reset tp st (Some r)) =
      filter (\<lambda>n. get_pinned_outputs st n \<noteq> None) (reset_scope tp st r)"
  using reset_fold [OF refl, of st "reset_scope tp st r"
      "\<lparr>rz_currentState = st, rz_clearedNodeIds = [], rz_preservedPinnedNodeIds = []\<rparr>"]
  by (simp_all add: apply_reset_def reset_scope_def Let_def)

lemma is_runtime_descendant_owned:
  "is_runtime_descendant n ds \<Longrightarrow> \<exists>d \<in> set ds. is_connection_owned_descendant d n"
  by (induction ds) (auto split: if_splits)

lemma reset_scope_iff:
  assumes "named_targets tp" "rr_clearFromNodeId r \<noteq> []"
  shows "(rr_clearFromNodeId r, n) \<in> (topology_edges tp)\<^sup>* \<Longrightarrow> n \<in> set (reset_scope tp st r)"
    and "n \<in> set (reset_scope tp st r) \<Longrightarrow> (\<exists>d. (rr_clearFromNodeId r, d) \<in> (topology_edges tp)\<^sup>*
        \<and> (n = d \<or> is_connection_owned_descendant d n))"
  using collect_descendants_eq [OF assms]
  by (auto simp: reset_scope_def Let_def collect_runtime_descendants_def dest!: is_runtime_descendant_owned)

section \<open>The parts of a plan\<close>

text \<open>The state, the required nodes and the frontier a plan was made from.\<close>

definition plan_parts :: "topology \<Rightarrow> plan_args \<Rightarrow> frontier_plan \<Rightarrow> node_id list \<Rightarrow> node_id list \<Rightarrow> bool" where
  "plan_parts tp a p required frontier \<longleftrightarrow>
     collect_required_node_ids tp (opt_or (pg_stopCondition a) WorkflowCompleted) (fp_currentState p) = Inr required
   \<and> frontier = collect_frontier_node_ids tp required (fp_currentState p)
   \<and> fp_currentState p = rz_currentState (frontier_base tp a)
   \<and> fp_clearedNodeIds p = rz_clearedNodeIds (frontier_base tp a)
   \<and> fp_preservedPinnedNodeIds p = rz_preservedPinnedNodeIds (frontier_base tp a)
   \<and> ((fp_rootNodeId p = None \<and> frontier_roots tp frontier = []
         \<and> fp_queue p = concat (map (build_frontier_queue tp (fp_currentState p)) frontier))
      \<or> (\<exists>r. fp_rootNodeId p = Some r \<and> frontier_roots tp frontier = [r] \<and> fp_queue p = []))"

lemma plan_parts_required: "plan_parts tp a p required frontier \<Longrightarrow>
    collect_required_node_ids tp (opt_or (pg_stopCondition a) WorkflowCompleted) (fp_currentState p) = Inr required"
  unfolding plan_parts_def by (rule conjunct1)

lemma plan_from_frontier_Inr:
  assumes "plan_from_frontier tp its plan frontier = Inr p" "fp_rootNodeId plan = None" "fp_queue plan = []"
  shows "fp_currentState p = fp_currentState plan \<and> fp_clearedNodeIds p = fp_clearedNodeIds plan
   \<and> fp_preservedPinnedNodeIds p = fp_preservedPinnedNodeIds plan
   \<and> ((fp_rootNodeId p = None \<and> frontier_roots tp frontier = []
         \<and> fp_queue p = concat (map (build_frontier_queue tp (fp_currentState plan)) frontier))
      \<or> (\<exists>r. fp_rootNodeId p = Some r \<and> frontier_roots tp frontier = [r] \<and> fp_queue p = []))"
proof (cases "frontier_roots tp frontier")
  case Nil
  thus ?thesis using assms by (auto simp: plan_from_frontier_def split: if_splits)
next
  case (Cons r rs)
  hence "rs = []" "frontier \<noteq> []" using assms by (auto simp: plan_from_frontier_def frontier_roots_def Let_def split: if_splits)
  thus ?thesis using assms Cons by (auto simp: plan_from_frontier_def split: option.splits)
qed

lemma plan_frontier_parts:
  assumes "plan_frontier tp a = Inr p"
  obtains required frontier where "plan_parts tp a p required frontier"
proof -
  obtain required where req: "collect_required_node_ids tp (opt_or (pg_stopCondition a) WorkflowCompleted)
             (rz_currentState (frontier_base tp a)) = Inr required"
    using assms by (auto simp: plan_frontier_def Let_def split: sum.splits)
  have "plan_from_frontier tp (pg_items a)
      (plan_base tp (opt_or (pg_stopCondition a) WorkflowCompleted) (frontier_base tp a) required)
      (collect_frontier_node_ids tp required (rz_currentState (frontier_base tp a))) = Inr p"
    using assms req by (simp add: plan_frontier_def Let_def)
  from plan_from_frontier_Inr [OF this]
  have "plan_parts tp a p required (collect_frontier_node_ids tp required (rz_currentState (frontier_base tp a)))"
    using req by (simp add: plan_parts_def plan_base_def Let_def)
  thus ?thesis by (rule that)
qed

section \<open>Required nodes\<close>

definition not_needed :: "current_state \<Rightarrow> node_id \<Rightarrow> bool" where
  "not_needed st n = (is_node_satisfied st n \<and> \<not> satisfied_by_outputs_only st n)"

text \<open>Edges whose source must run before their target.\<close>

definition edge_needed :: "topology \<Rightarrow> current_state \<Rightarrow> node_id \<Rightarrow> topo_in \<Rightarrow> bool" where
  "edge_needed tp st n e =
    (\<not> is_edge_satisfied tp st n (ti_collectKey e) \<or> satisfied_by_outputs_only st (or_node (ti_from e)))"

definition needs_closed :: "topology \<Rightarrow> current_state \<Rightarrow> node_id list \<Rightarrow> node_id \<Rightarrow> bool" where
  "needs_closed tp st req n =
    (\<forall>e \<in> set (topo_incoming tp n). edge_needed tp st n e \<longrightarrow>
       or_node (ti_from e) \<in> set req \<or> not_needed st (or_node (ti_from e)))"

definition source_rel :: "topology \<Rightarrow> (node_id \<times> node_id) set" where
  "source_rel tp = {(a, b). \<exists>e \<in> set (topo_incoming tp b). or_node (ti_from e) = a}"

lemma needs_closed_mono: "needs_closed tp st req n \<Longrightarrow> set req \<subseteq> set req' \<Longrightarrow> needs_closed tp st req' n"
  by (auto simp: needs_closed_def)

lemma source_rel_topology: "source_rel (topology_of w) = execution_edges w"
  unfolding source_rel_def execution_edges_def topo_incoming_eq set_map Bex_def image_iff edges_into_iff
  by (auto; metis topo_in.select_convs(1))

text \<open>What one call adds: the node unless it is not needed, nodes it depends on, and all they need.\<close>

definition required_post :: "topology \<Rightarrow> current_state \<Rightarrow> node_id \<Rightarrow> node_id list \<Rightarrow> node_id list \<Rightarrow> bool" where
  "required_post tp st n req r \<longleftrightarrow>
     set req \<subseteq> set r \<and> (n \<in> set r \<or> not_needed st n)
   \<and> (\<forall>m \<in> set r - set req. needs_closed tp st r m \<and> (m, n) \<in> (source_rel tp)\<^sup>*)"

lemma collect_required_node_post:
  "collect_required_node fuel tp st n req = Inr r \<Longrightarrow> required_post tp st n req r"
proof (induction fuel arbitrary: n req r)
  case (Suc fuel)
  show ?case
  proof (cases "n \<in> set req \<or> not_needed st n")
    case True
    thus ?thesis using Suc.prems by (auto simp: required_post_def not_needed_def split: if_splits)
  next
    case False
    let ?f = "\<lambda>e r. if edge_needed tp st n e then collect_required_node fuel tp st (or_node (ti_from e)) r else Inr r"
    let ?I = "\<lambda>r. set (req @ [n]) \<subseteq> set r \<and>
        (\<forall>m \<in> set r - set (req @ [n]). needs_closed tp st r m \<and> (m, n) \<in> (source_rel tp)\<^sup>*)"
    let ?Q = "\<lambda>e r. edge_needed tp st n e \<longrightarrow> or_node (ti_from e) \<in> set r \<or> not_needed st (or_node (ti_from e))"
    have grows: "set t \<subseteq> set t'" if "?f e t = Inr t'" for e t t'
      using that Suc.IH by (auto simp: required_post_def split: if_splits)
    have run: "fold_result ?f (topo_incoming tp n) (req @ [n]) = Inr r"
      using Suc.prems False by (auto simp: not_needed_def edge_needed_def split: if_splits)
    have "?I r \<and> (\<forall>e \<in> set (topo_incoming tp n). ?Q e r)"
    proof (rule fold_result_each [OF run])
      fix e t t' assume e: "e \<in> set (topo_incoming tp n)" "?I t" "?f e t = Inr t'"
      show "?I t' \<and> ?Q e t'"
      proof (cases "edge_needed tp st n e")
        case True
        hence post: "required_post tp st (or_node (ti_from e)) t t'" using e(3) Suc.IH by simp
        have src: "(or_node (ti_from e), n) \<in> source_rel tp" using e(1) by (auto simp: source_rel_def)
        have "needs_closed tp st t' m \<and> (m, n) \<in> (source_rel tp)\<^sup>*" if "m \<in> set t' - set (req @ [n])" for m
        proof (cases "m \<in> set t")
          case True
          thus ?thesis using e(2) that post needs_closed_mono unfolding required_post_def by blast
        next
          case False
          thus ?thesis using that post src unfolding required_post_def by (meson DiffD1 DiffI rtrancl_into_rtrancl)
        qed
        thus ?thesis using post e(2) unfolding required_post_def by blast
      qed (use e in auto)
    next
      fix x e t t' assume "?f e t = Inr t'" "?Q x t"
      thus "?Q x t'" using grows by blast
    qed simp
    thus ?thesis unfolding required_post_def needs_closed_def by auto
  qed
qed simp

lemma collect_required_node_total:
  "card (set (jkeys (tp_incomingByNode tp)) - set req) < fuel \<Longrightarrow> \<exists>r. collect_required_node fuel tp st n req = Inr r"
proof (induction fuel arbitrary: n req)
  case (Suc fuel)
  let ?K = "set (jkeys (tp_incomingByNode tp))"
  show ?case
  proof (cases "n \<in> set req \<or> not_needed st n \<or> topo_incoming tp n = []")
    case True
    thus ?thesis by (auto simp: not_needed_def)
  next
    case False
    have "n \<in> ?K" using False jget_Some_key [of "tp_incomingByNode tp" n] by (cases "jget (tp_incomingByNode tp) n") auto
    hence less: "card (?K - set (req @ [n])) < fuel"
    proof -
      assume "n \<in> ?K"
      hence "?K - set (req @ [n]) \<subset> ?K - set req" using False by auto
      hence "card (?K - set (req @ [n])) < card (?K - set req)" by (simp add: psubset_card_mono)
      thus ?thesis using Suc.prems by simp
    qed
    have "\<exists>r. fold_result (\<lambda>e r. if \<not> is_edge_satisfied tp st n (ti_collectKey e) \<or> satisfied_by_outputs_only st (or_node (ti_from e))
              then collect_required_node fuel tp st (or_node (ti_from e)) r else Inr r) (topo_incoming tp n) (req @ [n])
            = Inr r \<and> set (req @ [n]) \<subseteq> set r"
    proof (rule fold_result_total_inv [where I = "\<lambda>r. set (req @ [n]) \<subseteq> set r"])
      fix e t assume t: "set (req @ [n]) \<subseteq> set t"
      have "card (?K - set t) \<le> card (?K - set (req @ [n]))" using t by (intro card_mono) auto
      then obtain t' where t': "collect_required_node fuel tp st (or_node (ti_from e)) t = Inr t'"
        using Suc.IH [of t] less by fastforce
      hence "set t \<subseteq> set t'" using collect_required_node_post unfolding required_post_def by blast
      thus "\<exists>t'. (if \<not> is_edge_satisfied tp st n (ti_collectKey e) \<or> satisfied_by_outputs_only st (or_node (ti_from e))
              then collect_required_node fuel tp st (or_node (ti_from e)) t else Inr t) = Inr t' \<and> set (req @ [n]) \<subseteq> set t'"
        using t t' by auto
    qed simp
    thus ?thesis using False by (auto simp: not_needed_def)
  qed
qed simp

lemma collect_required_node_fuel: "\<exists>r. collect_required_node (required_fuel tp) tp st n req = Inr r"
proof (rule collect_required_node_total)
  have "card (set (jkeys (tp_incomingByNode tp)) - set req) \<le> card (set (jkeys (tp_incomingByNode tp)))" by (simp add: card_mono)
  also have "\<dots> \<le> length (tp_incomingByNode tp)" by (metis card_length length_map)
  finally show "card (set (jkeys (tp_incomingByNode tp)) - set req) < required_fuel tp" by (simp add: required_fuel_def)
qed

lemma collect_required_all:
  assumes "collect_required_node_ids tp WorkflowCompleted st = Inr req"
  shows "(\<forall>n. jhas (tp_defsById tp) n \<and> \<not> is_node_satisfied st n \<longrightarrow> n \<in> set req) \<and> (\<forall>m \<in> set req. needs_closed tp st req m)"
proof -
  let ?f = "\<lambda>n r. if is_node_satisfied st n then Inr r else collect_required_node (required_fuel tp) tp st n r"
  let ?I = "\<lambda>r. \<forall>m \<in> set r. needs_closed tp st r m"
  have run: "fold_result ?f (jkeys (tp_defsById tp)) [] = Inr req" using assms by (simp add: collect_required_node_ids_def)
  have grows: "set t \<subseteq> set t'" if "?f e t = Inr t'" for e t t'
    using that collect_required_node_post by (auto simp: required_post_def split: if_splits)
  have "?I req \<and> (\<forall>n \<in> set (jkeys (tp_defsById tp)). \<not> is_node_satisfied st n \<longrightarrow> n \<in> set req)"
  proof (rule fold_result_each [OF run])
    fix n t t' assume n: "?I t" "?f n t = Inr t'"
    show "?I t' \<and> (\<not> is_node_satisfied st n \<longrightarrow> n \<in> set t')"
    proof (cases "is_node_satisfied st n")
      case False
      hence "required_post tp st n t t'" using n(2) collect_required_node_post by simp
      thus ?thesis using n(1) False needs_closed_mono unfolding required_post_def not_needed_def by blast
    qed (use n in simp)
  next
    fix x n t t' assume "?f n t = Inr t'" "\<not> is_node_satisfied st x \<longrightarrow> x \<in> set t"
    thus "\<not> is_node_satisfied st x \<longrightarrow> x \<in> set t'" using grows by blast
  qed simp
  thus ?thesis by (auto simp: jhas_iff_key)
qed

lemma collect_required_total:
  "collect_required_node_ids tp stop st = Inl err \<Longrightarrow>
     \<exists>n. stop = NodeCompletedStop n \<and> \<not> jhas (tp_defsById tp) n \<and> err = plain_error (''Unknown stop nodeId: '' @ n)"
proof (cases stop)
  case WorkflowCompleted
  have "\<exists>r. collect_required_node_ids tp WorkflowCompleted st = Inr r"
    unfolding collect_required_node_ids_def using collect_required_node_fuel
    by (simp, intro fold_result_total) auto
  thus "collect_required_node_ids tp stop st = Inl err \<Longrightarrow> ?thesis" using WorkflowCompleted by auto
next
  case (NodeCompletedStop n)
  thus "collect_required_node_ids tp stop st = Inl err \<Longrightarrow> ?thesis"
    using collect_required_node_fuel [of tp st n "[]"] by (auto simp: collect_required_node_ids_def split: if_splits)
qed

section \<open>Properties of plans\<close>

lemma frontier_iff:
  "n \<in> set (collect_frontier_node_ids tp required st) \<longleftrightarrow>
     jhas (tp_defsById tp) n \<and> n \<in> set required \<and> \<not> is_node_satisfied st n
   \<and> (\<forall>e \<in> set (topo_incoming tp n). is_edge_satisfied tp st n (ti_collectKey e))"
  by (auto simp: collect_frontier_node_ids_def list_all_iff jhas_iff_key)

lemma build_frontier_queue_node: "q \<in> set (build_frontier_queue tp st n) \<Longrightarrow> qe_nodeId q = n \<and> topo_incoming tp n \<noteq> []"
  by (auto simp: build_frontier_queue_def Let_def split: if_splits)

lemma build_frontier_queue_nonempty: "build_frontier_queue tp st n = [] \<longleftrightarrow> topo_incoming tp n = []"
  by (simp add: build_frontier_queue_def Let_def)

lemma resolve_inputs_fold:
  "distinct (jkeys m) \<Longrightarrow> distinct (jkeys (fold (\<lambda>i m. jset i (f i) m) is m))
     \<and> fst ` set (fold (\<lambda>i m. jset i (f i) m) is m) = fst ` set m \<union> set is"
  by (induction "is" arbitrary: m) auto

lemma resolve_inputs_fold_get:
  "jget (fold (\<lambda>i m. jset i (f i) m) is m) k = (if k \<in> set is then Some (f k) else jget m k)"
  by (induction "is" arbitrary: m) auto

lemma build_frontier_queue_inv:
  assumes "tp = topology_of w"
  shows "list_all (collect_ok tp) (build_frontier_queue tp st n)"
proof -
  have ne: "topo_incoming tp n \<noteq> [] \<Longrightarrow> topo_expected tp n \<noteq> []"
    unfolding assms topo_incoming_eq topo_expected_eq by simp
  have "fold (\<lambda>i m. jset i (resolve_input tp st n i) m) (topo_expected tp n) [] \<noteq> []" if "topo_expected tp n \<noteq> []"
  proof
    assume "fold (\<lambda>i m. jset i (resolve_input tp st n i) m) (topo_expected tp n) [] = []"
    hence "set (topo_expected tp n) = {}"
      using resolve_inputs_fold [of "[]" "resolve_input tp st n" "topo_expected tp n"] by simp
    thus False using that by simp
  qed
  thus ?thesis
    using ne resolve_inputs_fold [of "[]" "resolve_input tp st n" "topo_expected tp n"]
    by (simp add: build_frontier_queue_def collect_ok_def Let_def)
qed

lemma frontier_queue_inv:
  assumes "tp = topology_of w" "distinct ns"
  shows "queue_inv tp (concat (map (build_frontier_queue tp st) ns))"
proof -
  have "map collect_slot (filter (\<lambda>q. qe_collect q \<noteq> None) (concat (map (build_frontier_queue tp st) ns)))
      = map (\<lambda>n. (n, default_batch)) (filter (\<lambda>n. topo_incoming tp n \<noteq> [] \<and> uses_collect tp n) ns)"
    by (induction ns) (auto simp: build_frontier_queue_def collect_slot_def entry_batch_def Let_def)
  moreover have "distinct (map (\<lambda>n. (n, default_batch)) (filter P ns))" for P
    using assms(2) by (simp add: distinct_map inj_on_def)
  moreover have "list_all (collect_ok tp) (concat (map (build_frontier_queue tp st) ns))"
    using build_frontier_queue_inv [OF assms(1)] by (auto simp: list_all_iff)
  ultimately show ?thesis by (simp add: queue_inv_def)
qed

lemma plan_parts_queue:
  assumes "plan_parts tp a p required frontier" "q \<in> set (fp_queue p)"
  shows "qe_nodeId q \<in> set frontier \<and> topo_incoming tp (qe_nodeId q) \<noteq> []"
proof -
  have "fp_queue p = concat (map (build_frontier_queue tp (fp_currentState p)) frontier)"
    using assms unfolding plan_parts_def by auto
  thus ?thesis using assms(2) build_frontier_queue_node by fastforce
qed

lemma plan_parts_root:
  assumes "plan_parts tp a p required frontier" "fp_rootNodeId p = Some r"
  shows "r \<in> set frontier \<and> topo_incoming tp r = [] \<and> fp_queue p = []"
proof -
  have "r \<in> set (frontier_roots tp frontier)" "fp_queue p = []" using assms unfolding plan_parts_def by auto
  thus ?thesis by (simp add: frontier_roots_def)
qed

text \<open>
  C33. A plan runs only work that is due and possible: every node it queues, and its root, is a declared node
  that has neither outputs nor a completed snapshot in the plan's state; every incoming edge of a queued node
  is satisfied; a root has no incoming edge; and the queue satisfies the invariant of the run queue.
\<close>

theorem plan_runs_only_ready_work:
  assumes "plan_frontier (topology_of w) a = Inr p"
  shows "queue_inv (topology_of w) (fp_queue p)
   \<and> (\<forall>q \<in> set (fp_queue p). jhas (tp_defsById (topology_of w)) (qe_nodeId q) \<and> \<not> is_node_satisfied (fp_currentState p) (qe_nodeId q)
        \<and> topo_incoming (topology_of w) (qe_nodeId q) \<noteq> []
        \<and> (\<forall>e \<in> set (topo_incoming (topology_of w) (qe_nodeId q)).
              is_edge_satisfied (topology_of w) (fp_currentState p) (qe_nodeId q) (ti_collectKey e)))
   \<and> (\<forall>r. fp_rootNodeId p = Some r \<longrightarrow> jhas (tp_defsById (topology_of w)) r
        \<and> \<not> is_node_satisfied (fp_currentState p) r \<and> topo_incoming (topology_of w) r = [] \<and> fp_queue p = [])"
proof -
  let ?tp = "topology_of w"
  obtain required frontier where parts: "plan_parts ?tp a p required frontier" using plan_frontier_parts [OF assms] .
  hence frontier: "frontier = collect_frontier_node_ids ?tp required (fp_currentState p)" by (simp add: plan_parts_def)
  have queue: "fp_queue p = [] \<or> fp_queue p = concat (map (build_frontier_queue ?tp (fp_currentState p)) frontier)"
    using parts unfolding plan_parts_def by blast
  have "distinct frontier" unfolding frontier collect_frontier_node_ids_def by simp
  hence "queue_inv ?tp (fp_queue p)" using queue frontier_queue_inv by auto
  thus ?thesis
    using plan_parts_queue [OF parts] plan_parts_root [OF parts] unfolding frontier frontier_iff by blast
qed

text \<open>
  A reset clears exactly its scope: after a plan with a reset, every node reachable from the cleared node
  has lost its snapshot and holds just its pinned outputs (none without a pin), and a node that is neither
  reachable nor a connection-owned child of a reachable node keeps its outputs and snapshot.
\<close>

theorem reset_clears_exactly_descendants:
  assumes "plan_frontier tp a = Inr p" "pg_reset a = Some r" "named_targets tp" "rr_clearFromNodeId r \<noteq> []"
    and "st = overlay_pinned_outputs (clone_current_state (pg_currentState a))"
  shows "((rr_clearFromNodeId r, n) \<in> (topology_edges tp)\<^sup>* \<longrightarrow>
            jget (cu_outputsByNode (fp_currentState p)) n = get_pinned_outputs st n
          \<and> jget (cu_nodeSnapshotsByNodeId (fp_currentState p)) n = None
          \<and> (n \<in> set (fp_clearedNodeIds p) \<longleftrightarrow> get_pinned_outputs st n = None))
       \<and> ((\<forall>d. (rr_clearFromNodeId r, d) \<in> (topology_edges tp)\<^sup>* \<longrightarrow> n \<noteq> d \<and> \<not> is_connection_owned_descendant d n) \<longrightarrow>
            jget (cu_outputsByNode (fp_currentState p)) n = jget (cu_outputsByNode st) n
          \<and> jget (cu_nodeSnapshotsByNodeId (fp_currentState p)) n = jget (cu_nodeSnapshotsByNodeId st) n
          \<and> n \<notin> set (fp_clearedNodeIds p))"
proof -
  obtain required frontier where parts: "plan_parts tp a p required frontier" using plan_frontier_parts [OF assms(1)] .
  hence st': "fp_currentState p = rz_currentState (apply_reset tp st (Some r))"
    "fp_clearedNodeIds p = rz_clearedNodeIds (apply_reset tp st (Some r))"
    using assms(2,5) by (simp_all add: plan_parts_def frontier_base_def)
  note scope = reset_scope_iff [OF assms(3,4), of n st]
  show ?thesis
    unfolding st' apply_reset_Some
  proof (intro conjI impI, goal_cases)
    case 4
    hence "n \<notin> set (reset_scope tp st r)" using scope(2) by blast
    thus ?case by simp
  next
    case 5
    hence "n \<notin> set (reset_scope tp st r)" using scope(2) by blast
    thus ?case by simp
  next
    case 6
    hence "n \<notin> set (reset_scope tp st r)" using scope(2) by blast
    thus ?case by simp
  qed (simp_all add: scope(1))
qed

text \<open>
  Planning has only two failures: a stop condition that names a node outside the execution graph, and a
  frontier with several root nodes; the recursion over required nodes never overflows, also on cyclic graphs.
\<close>

theorem plan_frontier_errors:
  assumes "plan_frontier tp a = Inl err"
  shows "(\<exists>n. pg_stopCondition a = Some (NodeCompletedStop n) \<and> \<not> jhas (tp_defsById tp) n
            \<and> err = plain_error (''Unknown stop nodeId: '' @ n))
       \<or> (\<exists>roots. 1 < length roots \<and> (\<forall>r \<in> set roots. jhas (tp_defsById tp) r \<and> topo_incoming tp r = [])
            \<and> err = plain_error (''Ambiguous execution frontier. Multiple root nodes require input: '' @ join_strings '', '' roots))"
proof (cases "collect_required_node_ids tp (opt_or (pg_stopCondition a) WorkflowCompleted) (rz_currentState (frontier_base tp a))")
  case (Inl e)
  hence "e = err" using assms by (simp add: plan_frontier_def Let_def)
  from collect_required_total [OF Inl] obtain n where
    n: "opt_or (pg_stopCondition a) WorkflowCompleted = NodeCompletedStop n" "\<not> jhas (tp_defsById tp) n"
      "e = plain_error (''Unknown stop nodeId: '' @ n)" by blast
  thus ?thesis using \<open>e = err\<close> by (cases "pg_stopCondition a") auto
next
  case (Inr required)
  let ?frontier = "collect_frontier_node_ids tp required (rz_currentState (frontier_base tp a))"
  let ?roots = "frontier_roots tp ?frontier"
  have roots: "\<forall>r \<in> set ?roots. jhas (tp_defsById tp) r \<and> topo_incoming tp r = []"
    by (auto simp: frontier_roots_def frontier_iff)
  have err: "plan_from_frontier tp (pg_items a)
      (plan_base tp (opt_or (pg_stopCondition a) WorkflowCompleted) (frontier_base tp a) required) ?frontier = Inl err"
    using assms Inr by (simp add: plan_frontier_def Let_def)
  show ?thesis
  proof (cases "1 < length ?roots")
    case True
    thus ?thesis using err roots by (auto simp: plan_from_frontier_def Let_def)
  next
    case False
    then consider "?roots = []" | r where "?roots = [r]" by (cases ?roots; cases "tl ?roots") auto
    thus ?thesis
    proof cases
      case 1
      thus ?thesis using err by (simp add: plan_from_frontier_def Let_def split: if_splits)
    next
      case (2 r)
      hence "jhas (tp_defsById tp) r" using roots by simp
      thus ?thesis using err 2 by (auto simp: plan_from_frontier_def Let_def jhas_def split: if_splits option.splits)
    qed
  qed
qed

text \<open>A node whose inputs are all there but one of them is empty: it is skipped, not run.\<close>

definition starved :: "topology \<Rightarrow> current_state \<Rightarrow> node_id \<Rightarrow> bool" where
  "starved tp st n = (\<not> uses_collect tp n \<and> list_ex (\<lambda>e. is_node_satisfied st (or_node (ti_from e))
      \<and> resolve_output_items st (or_node (ti_from e)) (or_output (ti_from e)) = []
      \<and> \<not> continues_after_empty tp (or_node (ti_from e))) (topo_incoming tp n))"

lemma unsatisfied_edge_cases:
  assumes "colon_free w" "tp = topology_of w" "e \<in> set (topo_incoming tp n)" "\<not> is_edge_satisfied tp st n (ti_collectKey e)"
  shows "\<not> is_node_satisfied st (or_node (ti_from e)) \<or> starved tp st n"
proof -
  obtain d where d: "incoming_by_key tp n (ti_collectKey e) = Some d"
    using assms(3) unfolding incoming_by_key_def
    by (cases "find (\<lambda>d. ti_collectKey d = ti_collectKey e) (topo_incoming tp n)") (auto simp: find_None_iff)
  hence "d \<in> set (topo_incoming tp n)" "ti_collectKey d = ti_collectKey e"
    using find_Some_mem by (fastforce simp: incoming_by_key_def)+
  moreover from this have "ti_from d = ti_from e" using collect_key_source [OF assms(1)] assms(2,3) by blast
  ultimately show ?thesis
    using assms(3,4) d by (auto simp: is_edge_satisfied_def starved_def Let_def list_ex_iff split: if_splits)
qed

text \<open>
  A plan without work is a finished run: when nothing is to be run for the whole workflow, every
  unsatisfied node is a starved node or lies downstream of one (its branch was cut by an empty output).
\<close>

theorem idle_plan_is_finished:
  assumes "plan_frontier (topology_of w) a = Inr p" "opt_or (pg_stopCondition a) WorkflowCompleted = WorkflowCompleted"
    and "fp_queue p = []" "fp_rootNodeId p = None"
    and "acyclic (execution_edges w)" "edges_declared w" "colon_free w"
    and "jhas (tp_defsById (topology_of w)) n" "\<not> is_node_satisfied (fp_currentState p) n"
  shows "\<exists>m. (m, n) \<in> (execution_edges w)\<^sup>* \<and> starved (topology_of w) (fp_currentState p) m"
proof -
  let ?tp = "topology_of w" and ?st = "fp_currentState p"
  obtain required frontier where parts: "plan_parts ?tp a p required frontier" using plan_frontier_parts [OF assms(1)] .
  hence "collect_required_node_ids ?tp WorkflowCompleted ?st = Inr required"
    using plan_parts_required assms(2) by fastforce
  note req = collect_required_all [OF this]
  have "frontier = []"
  proof (rule ccontr)
    assume "frontier \<noteq> []"
    then obtain m where m: "m \<in> set frontier" by (cases frontier) auto
    have "build_frontier_queue ?tp ?st m = []" "frontier_roots ?tp frontier = []"
      using parts assms(3,4) m unfolding plan_parts_def by auto
    thus False using m unfolding build_frontier_queue_nonempty by (auto simp: frontier_roots_def filter_empty_conv)
  qed
  hence none: "m \<notin> set (collect_frontier_node_ids ?tp required ?st)" for m using parts by (auto simp: plan_parts_def)
  have "finite (execution_edges w)"
    by (rule finite_subset [of _ "(\<lambda>e. (or_node (e_from e), ir_node (e_to e))) ` set (wf_edges w)"])
       (auto simp: execution_edges_def)
  hence wf_edges: "wf (execution_edges w)" using assms(5) finite_acyclic_wf by blast
  show ?thesis
    using assms(8,9)
  proof (induction n rule: wf_induct_rule [OF wf_edges])
    case (1 n)
    have "n \<in> set required" using req 1(2,3) by blast
    then obtain e where e: "e \<in> set (topo_incoming ?tp n)" "\<not> is_edge_satisfied ?tp ?st n (ti_collectKey e)"
      using none [of n] 1(2,3) unfolding frontier_iff by blast
    let ?m = "or_node (ti_from e)"
    have edge: "(?m, n) \<in> execution_edges w" using e(1) source_rel_topology by (fastforce simp: source_rel_def)
    show ?case
    proof (cases "is_node_satisfied ?st ?m")
      case True
      hence "starved ?tp ?st n" using unsatisfied_edge_cases [OF assms(7) refl e] by simp
      thus ?thesis by blast
    next
      case False
      have "jhas (tp_defsById ?tp) ?m"
        using edge assms(6) unfolding jhas_tp_defsById execution_edges_declared [OF assms(6)] by (auto simp: declared_edges_def declared_nodes_def)
      from 1(1) [OF edge this False] obtain m where "(m, ?m) \<in> (execution_edges w)\<^sup>*" "starved ?tp ?st m" by blast
      thus ?thesis using edge by (meson rtrancl.rtrancl_into_rtrancl)
    qed
  qed
qed

text \<open>
  Running to a node runs nothing else: with a stop condition on a node, every node the plan queues or
  starts from is that node or one of its ancestors.
\<close>

theorem stop_plan_only_ancestors:
  assumes "plan_frontier (topology_of w) a = Inr p" "pg_stopCondition a = Some (NodeCompletedStop s)"
    and "m \<in> qe_nodeId ` set (fp_queue p) \<or> fp_rootNodeId p = Some m"
  shows "(m, s) \<in> (execution_edges w)\<^sup>*"
proof -
  let ?tp = "topology_of w" and ?st = "fp_currentState p"
  obtain required frontier where parts: "plan_parts ?tp a p required frontier" using plan_frontier_parts [OF assms(1)] .
  hence "collect_required_node_ids ?tp (NodeCompletedStop s) ?st = Inr required"
    using plan_parts_required assms(2) by fastforce
  hence "collect_required_node (required_fuel ?tp) ?tp ?st s [] = Inr required"
    by (simp add: collect_required_node_ids_def split: if_splits)
  from collect_required_node_post [OF this]
  have req: "(m, s) \<in> (execution_edges w)\<^sup>*" if "m \<in> set required" for m
    using that by (simp add: required_post_def source_rel_topology)
  have "m \<in> set frontier"
    using assms(3) plan_parts_queue [OF parts] plan_parts_root [OF parts] by blast
  hence "m \<in> set required" using parts by (simp add: plan_parts_def frontier_iff)
  thus ?thesis by (rule req)
qed

section \<open>Witnesses\<close>

definition sample_state :: current_state where
  "sample_state =
    \<lparr>cu_outputsByNode = [(''t'', [(''main'', [sample_item ''x''])]), (''if'', [(''true'', [sample_item ''x'']), (''false'', [])]),
        (''a'', [(''main'', [sample_item ''y''])])],
     cu_nodeSnapshotsByNodeId = [], cu_connectionInvocations = None, cu_mutableState = None\<rparr>"

definition sample_plan_args :: "stop_condition option \<Rightarrow> node_id option \<Rightarrow> plan_args" where
  "sample_plan_args stop clear =
    \<lparr>pg_currentState = Some sample_state, pg_stopCondition = stop,
     pg_reset = map_option (\<lambda>n. \<lparr>rr_clearFromNodeId = n\<rparr>) clear, pg_items = None\<rparr>"

lemma sample_plan_reset: "\<exists>p. plan_frontier (topology_of sample_workflow) (sample_plan_args None (Some ''if'')) = Inr p
    \<and> map qe_nodeId (fp_queue p) = [''if''] \<and> fp_clearedNodeIds p = [''if'', ''b'', ''m'', ''a'']"
proof -
  have "(case plan_frontier (topology_of sample_workflow) (sample_plan_args None (Some ''if'')) of
      Inl _ \<Rightarrow> False | Inr p \<Rightarrow> map qe_nodeId (fp_queue p) = [''if''] \<and> fp_clearedNodeIds p = [''if'', ''b'', ''m'', ''a''])"
    by code_simp
  thus ?thesis by (auto split: sum.splits)
qed

lemma plan_runs_only_ready_work_witness:
  "\<exists>p. plan_frontier (topology_of sample_workflow) (sample_plan_args None (Some ''if'')) = Inr p
     \<and> map qe_nodeId (fp_queue p) = [''if''] \<and> \<not> is_node_satisfied (fp_currentState p) ''if''"
proof -
  obtain p where p: "plan_frontier (topology_of sample_workflow) (sample_plan_args None (Some ''if'')) = Inr p"
    "map qe_nodeId (fp_queue p) = [''if'']" using sample_plan_reset by (elim exE conjE) (rule that)
  have "''if'' \<in> qe_nodeId ` set (fp_queue p)" using p(2) by (metis list.set_intros(1) list.set_map)
  then obtain q where q: "q \<in> set (fp_queue p)" "qe_nodeId q = ''if''" by (metis imageE)
  from plan_runs_only_ready_work [OF p(1)] have "\<not> is_node_satisfied (fp_currentState p) (qe_nodeId q)" using q(1) by blast
  hence "\<not> is_node_satisfied (fp_currentState p) ''if''" unfolding q(2) .
  with p show ?thesis by (intro exI conjI)
qed

lemma reset_clears_witness:
  "\<exists>p. plan_frontier (topology_of sample_workflow) (sample_plan_args None (Some ''if'')) = Inr p
     \<and> jget (cu_outputsByNode (fp_currentState p)) ''a'' = None"
proof -
  obtain p where p: "plan_frontier (topology_of sample_workflow) (sample_plan_args None (Some ''if'')) = Inr p"
    using sample_plan_reset by (elim exE conjE) (rule that)
  have r: "pg_reset (sample_plan_args None (Some ''if'')) = Some \<lparr>rr_clearFromNodeId = ''if''\<rparr>"
    "rr_clearFromNodeId \<lparr>rr_clearFromNodeId = ''if''\<rparr> \<noteq> []"
    by (simp_all add: sample_plan_args_def)
  have nt: "named_targets (topology_of sample_workflow)" by code_simp
  have "\<lparr>to_output = ''true'', to_nodeId = ''a'', to_input = ''in'', to_collectKey = ''in''\<rparr>
      \<in> set (topo_outgoing (topology_of sample_workflow) ''if'')" by code_simp
  hence "(''if'', ''a'') \<in> topology_edges (topology_of sample_workflow)" by (force simp: topology_edges_def)
  hence "(rr_clearFromNodeId \<lparr>rr_clearFromNodeId = ''if''\<rparr>, ''a'') \<in> (topology_edges (topology_of sample_workflow))\<^sup>*" by auto
  moreover have "get_pinned_outputs (overlay_pinned_outputs (clone_current_state
      (pg_currentState (sample_plan_args None (Some ''if''))))) ''a'' = None" by code_simp
  ultimately show ?thesis
    using reset_clears_exactly_descendants [OF p r(1) nt r(2) refl, of "''a''"] p by simp
qed

lemma plan_frontier_errors_witness:
  "plan_frontier (topology_of sample_workflow) (sample_plan_args (Some (NodeCompletedStop ''zz'')) None)
     = Inl (plain_error ''Unknown stop nodeId: zz'')
   \<and> \<not> jhas (tp_defsById (topology_of sample_workflow)) ''zz''"
proof -
  have e: "plan_frontier (topology_of sample_workflow) (sample_plan_args (Some (NodeCompletedStop ''zz'')) None)
     = Inl (plain_error ''Unknown stop nodeId: zz'')" by code_simp
  show ?thesis using e plan_frontier_errors [OF e] by (auto simp: sample_plan_args_def)
qed

text \<open>With both outputs of the router empty except one branch, a finished run: the other branch was starved.\<close>

definition sample_idle_args :: plan_args where
  "sample_idle_args =
    \<lparr>pg_currentState = Some \<lparr>cu_outputsByNode = [(''t'', [(''main'', [])])], cu_nodeSnapshotsByNodeId = [],
        cu_connectionInvocations = None, cu_mutableState = None\<rparr>,
     pg_stopCondition = None, pg_reset = None, pg_items = None\<rparr>"

lemma idle_plan_is_finished_witness:
  "\<exists>p m. plan_frontier (topology_of sample_workflow) sample_idle_args = Inr p
     \<and> (m, ''m'') \<in> (execution_edges sample_workflow)\<^sup>* \<and> starved (topology_of sample_workflow) (fp_currentState p) m"
proof -
  have "(case plan_frontier (topology_of sample_workflow) sample_idle_args of Inl _ \<Rightarrow> False
      | Inr p \<Rightarrow> fp_queue p = [] \<and> fp_rootNodeId p = None \<and> \<not> is_node_satisfied (fp_currentState p) ''m'')" by code_simp
  then obtain p where p: "plan_frontier (topology_of sample_workflow) sample_idle_args = Inr p"
    "fp_queue p = []" "fp_rootNodeId p = None" "\<not> is_node_satisfied (fp_currentState p) ''m''" by (auto split: sum.splits)
  have "opt_or (pg_stopCondition sample_idle_args) WorkflowCompleted = WorkflowCompleted"
    "jhas (tp_defsById (topology_of sample_workflow)) ''m''" by code_simp+
  thus ?thesis
    using idle_plan_is_finished [OF p(1) _ p(2,3) create_planner_acyclic(1) [OF sample_planner_created sample_declared]
        sample_declared sample_colon_free _ p(4)] p(1) by blast
qed

lemma stop_plan_only_ancestors_witness:
  "(''if'', ''a'') \<in> (execution_edges sample_workflow)\<^sup>*"
proof -
  have "(case plan_frontier (topology_of sample_workflow) (sample_plan_args (Some (NodeCompletedStop ''a'')) (Some ''if'')) of
      Inl _ \<Rightarrow> False | Inr p \<Rightarrow> map qe_nodeId (fp_queue p) = [''if''])" by code_simp
  then obtain p where p: "plan_frontier (topology_of sample_workflow) (sample_plan_args (Some (NodeCompletedStop ''a'')) (Some ''if'')) = Inr p"
    "map qe_nodeId (fp_queue p) = [''if'']" by (auto split: sum.splits)
  have "''if'' \<in> qe_nodeId ` set (fp_queue p)" using p(2) by (metis list.set_intros(1) list.set_map)
  thus ?thesis using stop_plan_only_ancestors [OF p(1)] by (simp add: sample_plan_args_def)
qed

end
