(* ===== verification/RunSemantics.thy ===== *)
theory RunSemantics
  imports Frontier
begin

text \<open>
  What a run records about its nodes: the outputs map (\<open>runStorage/InMemoryRunData\<close>), the node snapshots
  (\<open>execution/NodeExecutionSnapshotFactory\<close>, \<open>NodeInputsByPortFactory\<close>), and \<open>execution/RunStateSemantics\<close>:
  stop conditions, the result of a run, snapshots of skipped nodes and the loop that takes queue entries of
  pinned nodes out of the queue.  Time stamps are arguments.  That loop is a partial function, whose
  value \<open>None\<close> is a loop that never ends; it is proved to end for every workflow the planning accepts.
\<close>

section \<open>Outputs of a run (\<open>InMemoryRunData\<close>)\<close>

type_synonym run_data = "(node_id, node_outputs) jmap"

definition create_run_data :: "(node_id, node_outputs) jmap option \<Rightarrow> run_data" where
  "create_run_data initial = (case initial of None \<Rightarrow> [] | Some m \<Rightarrow> fold (\<lambda>(n, o') d. jset n o' d) m [])"

definition set_outputs :: "node_id \<Rightarrow> node_outputs \<Rightarrow> run_data \<Rightarrow> run_data" where
  "set_outputs n outs d = jset n outs d"

definition get_outputs :: "run_data \<Rightarrow> node_id \<Rightarrow> node_outputs option" where
  "get_outputs d n = jget d n"

definition get_output_items :: "run_data \<Rightarrow> node_id \<Rightarrow> port_key \<Rightarrow> items" where
  "get_output_items d n port = opt_or (Option.bind (jget d n) (\<lambda>outs. jget outs port)) []"

definition get_output_item :: "run_data \<Rightarrow> node_id \<Rightarrow> nat \<Rightarrow> port_key \<Rightarrow> item option" where
  "get_output_item d n i port =
    (let its = get_output_items d n port in if i < length its then Some (its ! i) else None)"

definition dump_run_data :: "run_data \<Rightarrow> (node_id, node_outputs) jmap" where
  "dump_run_data d = fold (\<lambda>(n, o') m. jset n o' m) d []"

lemma fold_jset_distinct: "distinct (jkeys m @ jkeys acc) \<Longrightarrow> fold (\<lambda>(k, v) a. jset k v a) m acc = acc @ m"
proof (induction m arbitrary: acc)
  case (Cons p m)
  obtain k v where p: "p = (k, v)" by (cases p)
  have "k \<notin> fst ` set acc" using Cons.prems p by auto
  hence "jset k v acc = acc @ [(k, v)]" by (induction acc) auto
  thus ?case using Cons p by simp
qed simp

lemma dump_create_run_data: "distinct (jkeys m) \<Longrightarrow> dump_run_data (create_run_data (Some m)) = m"
  by (simp add: dump_run_data_def create_run_data_def fold_jset_distinct)

lemma jget_create_run_data: "distinct (jkeys m) \<Longrightarrow> jget (create_run_data (Some m)) n = jget m n"
  by (simp add: create_run_data_def fold_jset_distinct)

section \<open>Inputs by port\<close>

definition empty_inputs :: inputs_by_port where
  "empty_inputs = []"

section \<open>Node snapshots\<close>

text \<open>The identity a snapshot belongs to.\<close>

record snapshot_scope =
  sc_runId :: run_id
  sc_workflowId :: workflow_id
  sc_parent :: "parent_ref option"

definition snapshot_queued ::
  "snapshot_scope \<Rightarrow> node_id \<Rightarrow> activation_id \<Rightarrow> iso_time \<Rightarrow> inputs_by_port \<Rightarrow> node_snapshot" where
  "snapshot_queued sc n act queuedAt inputs =
    \<lparr>ns_runId = sc_runId sc, ns_workflowId = sc_workflowId sc, ns_nodeId = n, ns_activationId = Some act,
     ns_parent = sc_parent sc, ns_status = NsQueued, ns_usedPinnedOutput = None,
     ns_queuedAt = Some queuedAt, ns_startedAt = None, ns_finishedAt = None, ns_updatedAt = queuedAt,
     ns_inputsByPort = Some inputs, ns_outputs = None, ns_error = None, ns_childRunId = None\<rparr>"

definition snapshot_running ::
  "node_snapshot option \<Rightarrow> snapshot_scope \<Rightarrow> node_id \<Rightarrow> activation_id \<Rightarrow> iso_time \<Rightarrow> inputs_by_port \<Rightarrow> node_snapshot" where
  "snapshot_running prev sc n act startedAt inputs =
    \<lparr>ns_runId = sc_runId sc, ns_workflowId = sc_workflowId sc, ns_nodeId = n, ns_activationId = Some act,
     ns_parent = sc_parent sc, ns_status = NsRunning, ns_usedPinnedOutput = None,
     ns_queuedAt = Option.bind prev ns_queuedAt, ns_startedAt = Some startedAt, ns_finishedAt = None,
     ns_updatedAt = startedAt, ns_inputsByPort = Some inputs, ns_outputs = Option.bind prev ns_outputs,
     ns_error = None, ns_childRunId = None\<rparr>"

text \<open>A pinned output that was never started counts as started when it finished.\<close>

definition snapshot_completed ::
  "node_snapshot option \<Rightarrow> snapshot_scope \<Rightarrow> node_id \<Rightarrow> activation_id \<Rightarrow> iso_time \<Rightarrow> inputs_by_port \<Rightarrow> node_outputs
    \<Rightarrow> bool \<Rightarrow> node_status option \<Rightarrow> node_snapshot" where
  "snapshot_completed prev sc n act finishedAt inputs outputs fromPinnedOutput hitlStatus =
    \<lparr>ns_runId = sc_runId sc, ns_workflowId = sc_workflowId sc, ns_nodeId = n, ns_activationId = Some act,
     ns_parent = sc_parent sc, ns_status = opt_or hitlStatus NsCompleted, ns_usedPinnedOutput = Some fromPinnedOutput,
     ns_queuedAt = Option.bind prev ns_queuedAt,
     ns_startedAt =
       (if fromPinnedOutput then Some (opt_or (Option.bind prev ns_startedAt) finishedAt) else Option.bind prev ns_startedAt),
     ns_finishedAt = Some finishedAt, ns_updatedAt = finishedAt, ns_inputsByPort = Some inputs,
     ns_outputs = Some outputs, ns_error = None, ns_childRunId = Option.bind prev ns_childRunId\<rparr>"

definition snapshot_skipped ::
  "node_snapshot option \<Rightarrow> snapshot_scope \<Rightarrow> node_id \<Rightarrow> activation_id \<Rightarrow> iso_time \<Rightarrow> inputs_by_port \<Rightarrow> node_outputs
    \<Rightarrow> node_snapshot" where
  "snapshot_skipped prev sc n act finishedAt inputs outputs =
    \<lparr>ns_runId = sc_runId sc, ns_workflowId = sc_workflowId sc, ns_nodeId = n, ns_activationId = Some act,
     ns_parent = sc_parent sc, ns_status = NsSkipped, ns_usedPinnedOutput = None,
     ns_queuedAt = Option.bind prev ns_queuedAt, ns_startedAt = Option.bind prev ns_startedAt,
     ns_finishedAt = Some finishedAt, ns_updatedAt = finishedAt, ns_inputsByPort = Some inputs,
     ns_outputs = Some outputs, ns_error = None, ns_childRunId = Option.bind prev ns_childRunId\<rparr>"

definition snapshot_error :: "js_error \<Rightarrow> node_error" where
  "snapshot_error e =
    \<lparr>ne_message = err_message e, ne_name = Some (err_name e), ne_stack = err_stack e, ne_details = err_details e\<rparr>"

definition snapshot_failed ::
  "node_snapshot option \<Rightarrow> snapshot_scope \<Rightarrow> node_id \<Rightarrow> activation_id \<Rightarrow> iso_time \<Rightarrow> inputs_by_port \<Rightarrow> js_error \<Rightarrow> node_snapshot" where
  "snapshot_failed prev sc n act finishedAt inputs e =
    \<lparr>ns_runId = sc_runId sc, ns_workflowId = sc_workflowId sc, ns_nodeId = n, ns_activationId = Some act,
     ns_parent = sc_parent sc, ns_status = NsFailed, ns_usedPinnedOutput = None,
     ns_queuedAt = Option.bind prev ns_queuedAt, ns_startedAt = Option.bind prev ns_startedAt,
     ns_finishedAt = Some finishedAt, ns_updatedAt = finishedAt, ns_inputsByPort = Some inputs,
     ns_outputs = None, ns_error = Some (snapshot_error e), ns_childRunId = Option.bind prev ns_childRunId\<rparr>"

text \<open>Every snapshot a factory makes is of the node and the run it was asked for.\<close>

lemma snapshot_identity [simp]:
  "ns_nodeId (snapshot_queued sc n a t i) = n" "ns_runId (snapshot_queued sc n a t i) = sc_runId sc"
  "ns_nodeId (snapshot_running p sc n a t i) = n" "ns_runId (snapshot_running p sc n a t i) = sc_runId sc"
  "ns_nodeId (snapshot_completed p sc n a t i os fp h) = n" "ns_runId (snapshot_completed p sc n a t i os fp h) = sc_runId sc"
  "ns_nodeId (snapshot_skipped p sc n a t i os) = n" "ns_runId (snapshot_skipped p sc n a t i os) = sc_runId sc"
  "ns_nodeId (snapshot_failed p sc n a t i e) = n" "ns_runId (snapshot_failed p sc n a t i e) = sc_runId sc"
  by (simp_all add: snapshot_queued_def snapshot_running_def snapshot_completed_def snapshot_skipped_def snapshot_failed_def)

section \<open>Stop conditions and results\<close>

definition is_stop_condition_satisfied :: "stop_condition option \<Rightarrow> node_id \<Rightarrow> bool" where
  "is_stop_condition_satisfied sc n =
    (case sc of None \<Rightarrow> False | Some WorkflowCompleted \<Rightarrow> False | Some (NodeCompletedStop m) \<Rightarrow> m = n)"

definition resolve_result_outputs ::
  "workflow \<Rightarrow> stop_condition option \<Rightarrow> (node_id, node_outputs) jmap \<Rightarrow> js_error + items" where
  "resolve_result_outputs w sc outs =
    (case sc of
       Some (NodeCompletedStop m) \<Rightarrow> Inr (get_output_items outs m ''main'')
     | _ \<Rightarrow> (case last_executable_id w of
               Inl e \<Rightarrow> Inl e
             | Inr lastId \<Rightarrow> Inr (get_output_items outs lastId ''main'')))"

section \<open>Skipped nodes and pinned outputs\<close>

definition pinned_in :: "mutable_run_state option \<Rightarrow> node_id \<Rightarrow> node_outputs option" where
  "pinned_in ms n = Option.bind ms (\<lambda>m. Option.bind (jget (mr_nodesById m) n) mn_pinnedOutputsByPort)"

definition synthetic_activation :: "node_id \<Rightarrow> activation_id" where
  "synthetic_activation n = ''synthetic_'' @ n"

definition previous_activation :: "node_snapshot option \<Rightarrow> node_id \<Rightarrow> activation_id" where
  "previous_activation prev n = opt_or (Option.bind prev ns_activationId) (synthetic_activation n)"

definition skipped_pinned_ids :: "current_state \<Rightarrow> node_id list \<Rightarrow> node_id list \<Rightarrow> node_id list" where
  "skipped_pinned_ids cur skipped preserved =
    dedupe (filter (\<lambda>n. n \<in> set skipped) preserved @ filter (\<lambda>n. pinned_in (cu_mutableState cur) n \<noteq> None) skipped)"

definition apply_skipped_snapshots ::
  "snapshot_scope \<Rightarrow> current_state \<Rightarrow> node_id list \<Rightarrow> node_id list \<Rightarrow> iso_time \<Rightarrow> (node_id, node_snapshot) jmap" where
  "apply_skipped_snapshots sc cur skipped preserved finishedAt =
    fold (\<lambda>n snaps. let prev = jget snaps n in
            jset n (snapshot_completed prev sc n (previous_activation prev n) finishedAt
                     (opt_or (Option.bind prev ns_inputsByPort) empty_inputs)
                     (opt_or (jget (cu_outputsByNode cur) n) []) True None) snaps)
      (skipped_pinned_ids cur skipped preserved) (cu_nodeSnapshotsByNodeId cur)"

definition queue_entry_inputs :: "queue_entry \<Rightarrow> inputs_by_port" where
  "queue_entry_inputs q =
    (case qe_collect q of
       Some c \<Rightarrow> cs_received c
     | None \<Rightarrow> [(opt_or (qe_toInput q) ''in'', qe_input q)])"

text \<open>The state the loop over pinned queue entries updates.\<close>

record pinned_state =
  pk_queue :: run_queue
  pk_data :: run_data
  pk_snapshots :: "(node_id, node_snapshot) jmap"

definition pinned_skip_step ::
  "snapshot_scope \<Rightarrow> planner \<Rightarrow> iso_time \<Rightarrow> nat \<Rightarrow> node_outputs \<Rightarrow> pinned_state \<Rightarrow> js_error + pinned_state" where
  "pinned_skip_step sc pl finishedAt i pinned st =
    (let entry = pk_queue st ! i;
         n = qe_nodeId entry;
         prev = jget (pk_snapshots st) n
     in case apply_outputs pl (remove_at i (pk_queue st)) n pinned (opt_or (qe_batchId entry) default_batch) of
          Inl e \<Rightarrow> Inl e
        | Inr queue' \<Rightarrow>
            Inr \<lparr>pk_queue = queue',
                 pk_data = set_outputs n pinned (pk_data st),
                 pk_snapshots = jset n (snapshot_completed prev sc n (previous_activation prev n) finishedAt
                   (queue_entry_inputs entry) pinned True None) (pk_snapshots st)\<rparr>)"

definition first_pinned :: "mutable_run_state option \<Rightarrow> run_queue \<Rightarrow> (nat \<times> node_outputs) option" where
  "first_pinned ms queue =
    (case find_index (\<lambda>q. pinned_in ms (qe_nodeId q) \<noteq> None) queue of
       None \<Rightarrow> None
     | Some i \<Rightarrow> (case pinned_in ms (qe_nodeId (queue ! i)) of None \<Rightarrow> None | Some p \<Rightarrow> Some (i, p)))"

partial_function (option) apply_pinned_queue_skips ::
  "snapshot_scope \<Rightarrow> planner \<Rightarrow> mutable_run_state option \<Rightarrow> iso_time \<Rightarrow> pinned_state \<Rightarrow> (js_error + pinned_state) option" where
  "apply_pinned_queue_skips sc pl ms finishedAt st =
    (case first_pinned ms (pk_queue st) of
       None \<Rightarrow> Some (Inr st)
     | Some (i, pinned) \<Rightarrow>
         (case pinned_skip_step sc pl finishedAt i pinned st of
            Inl e \<Rightarrow> Some (Inl e)
          | Inr st' \<Rightarrow> apply_pinned_queue_skips sc pl ms finishedAt st'))"

declare apply_pinned_queue_skips.simps [code]

text \<open>\<open>MissingRuntimeExecutionMarker.isMarked\<close>: the configuration carries a truthy \<open>missingRuntime\<close>.\<close>

fun js_truthy :: "jsval \<Rightarrow> bool" where
  "js_truthy JUndefined = False"
| "js_truthy JNull = False"
| "js_truthy (JBool b) = b"
| "js_truthy (JNum n) = (n \<noteq> 0)"
| "js_truthy (JStr s) = (s \<noteq> [])"
| "js_truthy (JArr _) = True"
| "js_truthy (JObj _) = True"

definition is_missing_runtime :: "node_config option \<Rightarrow> bool" where
  "is_missing_runtime config =
    (case config of None \<Rightarrow> False | Some c \<Rightarrow> js_truthy (opt_or (jget (nc_fields c) ''missingRuntime'') JUndefined))"

definition create_finished_snapshot ::
  "workflow \<Rightarrow> node_snapshot option \<Rightarrow> snapshot_scope \<Rightarrow> node_id \<Rightarrow> activation_id \<Rightarrow> iso_time \<Rightarrow> inputs_by_port
    \<Rightarrow> node_outputs \<Rightarrow> node_status option \<Rightarrow> node_snapshot" where
  "create_finished_snapshot w prev sc n act finishedAt inputs outputs hitlStatus =
    (let def = find (\<lambda>d. nd_id d = n) (wf_nodes w)
     in if is_missing_runtime (map_option nd_config def)
        then snapshot_skipped prev sc n act finishedAt inputs outputs
        else snapshot_completed prev sc n act finishedAt inputs outputs False hitlStatus)"

section \<open>Terminal states (\<open>PersistedRunStateTerminalBuilder\<close>)\<close>

definition merge_terminal ::
  "run_state \<Rightarrow> engine_counters \<Rightarrow> run_status \<Rightarrow> halt_reason option \<Rightarrow> run_queue \<Rightarrow> (node_id, node_outputs) jmap
    \<Rightarrow> (node_id, node_snapshot) jmap \<Rightarrow> iso_time option \<Rightarrow> run_state" where
  "merge_terminal st counters status reason queue outs snaps finishedAtIso =
    st\<lparr>rs_engineCounters := Some counters, rs_status := status, rs_reason := reason, rs_pending := None,
       rs_queue := queue, rs_outputsByNode := outs, rs_nodeSnapshotsByNodeId := snaps,
       rs_finishedAt := opt_else finishedAtIso (rs_finishedAt st)\<rparr>"

section \<open>Where routing puts its entries\<close>

text \<open>
  Delivering along an edge adds entries of nodes at or below the edge's target and keeps the nodes of the
  other entries.
\<close>

definition adds_below :: "(node_id \<times> node_id) set \<Rightarrow> node_id set \<Rightarrow> run_queue \<Rightarrow> run_queue \<Rightarrow> bool" where
  "adds_below E N q q' =
    (\<exists>X. mset (map qe_nodeId q') = mset (map qe_nodeId q) + X \<and> (\<forall>m \<in># X. \<exists>n \<in> N. (n, m) \<in> E))"

lemma adds_below_refl [simp]: "adds_below E N q q"
  unfolding adds_below_def by (rule exI [of _ "{#}"]) simp

lemma adds_below_trans: "adds_below E N q q1 \<Longrightarrow> adds_below E N q1 q2 \<Longrightarrow> adds_below E N q q2"
  unfolding adds_below_def
proof (elim exE conjE)
  fix X Y
  assume "mset (map qe_nodeId q1) = mset (map qe_nodeId q) + X" "\<forall>m \<in># X. \<exists>n \<in> N. (n, m) \<in> E"
    "mset (map qe_nodeId q2) = mset (map qe_nodeId q1) + Y" "\<forall>m \<in># Y. \<exists>n \<in> N. (n, m) \<in> E"
  thus "\<exists>Z. mset (map qe_nodeId q2) = mset (map qe_nodeId q) + Z \<and> (\<forall>m \<in># Z. \<exists>n \<in> N. (n, m) \<in> E)"
    by (intro exI [of _ "X + Y"]) auto
qed

lemma adds_below_fold:
  assumes "fold_result f xs q = Inr q'"
    and "\<And>x t t'. x \<in> set xs \<Longrightarrow> f x t = Inr t' \<Longrightarrow> adds_below E N t t'"
  shows "adds_below E N q q'"
  using assms(1)
proof (rule fold_result_inv [where I = "adds_below E N q"])
  show "adds_below E N q q" by simp
next
  fix x t t' assume "x \<in> set xs" "adds_below E N q t" "f x t = Inr t'"
  thus "adds_below E N q t'" using assms(2) adds_below_trans by blast
qed

lemma adds_below_mono:
  assumes "adds_below E N q q'" and step: "\<And>n m. n \<in> N \<Longrightarrow> (n, m) \<in> E \<Longrightarrow> \<exists>n' \<in> N'. (n', m) \<in> E'"
  shows "adds_below E' N' q q'"
proof -
  from assms(1) obtain X where X: "mset (map qe_nodeId q') = mset (map qe_nodeId q) + X" "\<forall>m \<in># X. \<exists>n \<in> N. (n, m) \<in> E"
    unfolding adds_below_def by auto
  have "\<forall>m \<in># X. \<exists>n \<in> N'. (n, m) \<in> E'" using X(2) step by blast
  thus ?thesis unfolding adds_below_def using X(1) by blast
qed

lemma map_node_update_receive:
  "map qe_nodeId (update_first P (receive k its) q) = map qe_nodeId q"
  by (induction q) auto

lemma adds_below_enqueue_collect: "adds_below (E\<^sup>*) {to_nodeId (ea_to a)} q (enqueue_collect pl a q)"
  unfolding adds_below_def enqueue_collect_def Let_def map_node_update_receive
  by (cases "find (is_collect_for (to_nodeId (ea_to a)) (ea_batchId a)) q = None")
     (auto intro: exI [of _ "{#to_nodeId (ea_to a)#}"] exI [of _ "{#}"])

lemma adds_below_single: "adds_below (E\<^sup>*) {to_nodeId (ea_to a)} q (q @ [single_entry a])"
  unfolding adds_below_def by (rule exI [of _ "{#to_nodeId (ea_to a)#}"]) (simp add: single_entry_def)

lemma adds_below_enqueue_edge:
  assumes tp: "pl_topology pl = topology_of w"
  shows "enqueue_edge fuel pl a src q = Inr q' \<Longrightarrow> adds_below ((execution_edges w)\<^sup>*) {to_nodeId (ea_to a)} q q'"
proof (induction fuel arbitrary: a src q q')
  case (Suc fuel)
  let ?n = "to_nodeId (ea_to a)"
  have through: "adds_below ((execution_edges w)\<^sup>*) {?n} q q2"
    if "propagate_empty_path (enqueue_edge fuel pl) (pl_topology pl) ?n (ea_batchId a) s q = Inr q2" for s q2
    using that unfolding propagate_empty_path_def
  proof (rule adds_below_fold)
    fix e t t'
    assume e: "e \<in> set (topo_outgoing (pl_topology pl) ?n)"
      and "enqueue_edge fuel pl \<lparr>ea_batchId = ea_batchId a, ea_to = e,
              ea_from = \<lparr>or_node = ?n, or_output = to_output e\<rparr>, ea_items = []\<rparr> (Some s) t = Inr t'"
    hence below: "adds_below ((execution_edges w)\<^sup>*) {to_nodeId e} t t'" using Suc.IH by fastforce
    have edge: "(?n, to_nodeId e) \<in> execution_edges w"
      using topo_outgoing_execution [of e w ?n] e tp by simp
    show "adds_below ((execution_edges w)\<^sup>*) {?n} t t'"
      by (rule adds_below_mono [OF below]) (use edge in \<open>auto intro: converse_rtrancl_into_rtrancl\<close>)
  qed
  show ?case
    using Suc.prems adds_below_enqueue_collect adds_below_single through
    by (auto simp: Let_def split: if_splits)
qed simp

lemma adds_below_apply_outputs:
  assumes tp: "pl_topology pl = topology_of w" and "apply_outputs pl q n outs b = Inr q'"
  shows "adds_below ((execution_edges w)\<^sup>+) {n} q q'"
  using assms(2) unfolding apply_outputs_def
proof (rule adds_below_fold)
  fix e t t'
  assume e: "e \<in> set (topo_outgoing (pl_topology pl) n)"
    and "enqueue_edge (enqueue_fuel pl) pl \<lparr>ea_batchId = b, ea_to = e, ea_from = \<lparr>or_node = n, or_output = to_output e\<rparr>,
              ea_items = jget_list outs (to_output e)\<rparr> None t = Inr t'"
  hence below: "adds_below ((execution_edges w)\<^sup>*) {to_nodeId e} t t'"
    using adds_below_enqueue_edge [OF tp] by fastforce
  have "(n, to_nodeId e) \<in> execution_edges w" using topo_outgoing_execution [of e w n] e tp by simp
  thus "adds_below ((execution_edges w)\<^sup>+) {n} t t'"
    by (intro adds_below_mono [OF below]) (auto intro: rtrancl_into_trancl2)
qed

section \<open>The loop over pinned entries ends\<close>

definition downstream_order :: "workflow \<Rightarrow> (node_id \<times> node_id) set" where
  "downstream_order w = ((execution_edges w)\<^sup>+)\<inverse>"

lemma finite_execution_edges: "finite (execution_edges w)"
proof -
  have "execution_edges w \<subseteq> (\<lambda>e. (or_node (e_from e), ir_node (e_to e))) ` set (wf_edges w)"
    by (auto simp: execution_edges_def image_iff)
  thus ?thesis by (rule finite_subset) simp
qed

lemma wf_downstream_order: "acyclic (execution_edges w) \<Longrightarrow> wf (downstream_order w)"
  unfolding downstream_order_def trancl_converse [symmetric]
  by (intro wf_trancl finite_acyclic_wf_converse finite_execution_edges)

lemma pinned_skip_step_decreases:
  assumes "pl_topology pl = topology_of w" "pinned_skip_step sc pl t i p st = Inr st'" "i < length (pk_queue st)"
  shows "(mset (map qe_nodeId (pk_queue st')), mset (map qe_nodeId (pk_queue st))) \<in> mult (downstream_order w)"
proof -
  let ?n = "qe_nodeId (pk_queue st ! i)"
  obtain q' where q': "apply_outputs pl (remove_at i (pk_queue st)) ?n p (opt_or (qe_batchId (pk_queue st ! i)) default_batch) = Inr q'"
    "pk_queue st' = q'"
    using assms(2) by (auto simp: pinned_skip_step_def Let_def split: sum.splits)
  from adds_below_apply_outputs [OF assms(1) q'(1)] obtain X where
    X: "mset (map qe_nodeId q') = mset (map qe_nodeId (remove_at i (pk_queue st))) + X"
      "\<forall>m \<in># X. (?n, m) \<in> (execution_edges w)\<^sup>+"
    unfolding adds_below_def by auto
  have "mset (map qe_nodeId (pk_queue st)) = mset (map qe_nodeId (remove_at i (pk_queue st))) + {#?n#}"
    using mset_remove_at [OF assms(3)] by (metis add_mset_add_single image_mset_add_mset mset_map)
  thus ?thesis
    using one_step_implies_mult [of "{#?n#}" X "downstream_order w"] X q'(2) by (auto simp: downstream_order_def)
qed

lemma first_pinned_Some:
  assumes "first_pinned ms q = Some (i, p)"
  shows "i < length q" "pinned_in ms (qe_nodeId (q ! i)) = Some p"
  using assms by (auto simp: first_pinned_def split: option.splits dest!: find_index_Some)

lemma first_pinned_None: "first_pinned ms q = None \<Longrightarrow> e \<in> set q \<Longrightarrow> pinned_in ms (qe_nodeId e) = None"
  by (auto simp: first_pinned_def find_index_from_None split: option.splits dest!: find_index_Some)

lemma pinned_skips_rule:
  assumes run: "apply_pinned_queue_skips sc pl ms t st = Some (Inr st')"
    and start: "P st"
    and step: "\<And>u i p u1. P u \<Longrightarrow> i < length (pk_queue u) \<Longrightarrow> pinned_in ms (qe_nodeId (pk_queue u ! i)) = Some p \<Longrightarrow>
      pinned_skip_step sc pl t i p u = Inr u1 \<Longrightarrow> P u1"
  shows "P st' \<and> first_pinned ms (pk_queue st') = None"
proof -
  let ?Q = "\<lambda>sc' pl' ms' t' u r. sc' = sc \<longrightarrow> pl' = pl \<longrightarrow> ms' = ms \<longrightarrow> t' = t \<longrightarrow> P u \<longrightarrow>
    (case (r :: js_error + pinned_state) of Inl e \<Rightarrow> True | Inr u' \<Rightarrow> P u' \<and> first_pinned ms (pk_queue u') = None)"
  have "?Q sc pl ms t st (Inr st')"
  proof (rule apply_pinned_queue_skips.raw_induct [where P = ?Q, OF _ run], intro impI)
    fix f sc' pl' ms' t' u r
    assume IH: "\<And>sc' pl' ms' t' u r. f sc' pl' ms' t' u = Some r \<Longrightarrow> ?Q sc' pl' ms' t' u r"
      and body: "(case first_pinned ms' (pk_queue u) of
           None \<Rightarrow> Some (Inr u)
         | Some (i, pinned) \<Rightarrow>
             (case pinned_skip_step sc' pl' t' i pinned u of
                Inl e \<Rightarrow> Some (Inl e)
              | Inr u' \<Rightarrow> f sc' pl' ms' t' u')) = Some r"
      and eqs: "sc' = sc" "pl' = pl" "ms' = ms" "t' = t" and "P u"
    show "case r of Inl e \<Rightarrow> True | Inr u' \<Rightarrow> P u' \<and> first_pinned ms (pk_queue u') = None"
    proof (cases "first_pinned ms (pk_queue u)")
      case None
      thus ?thesis using body eqs \<open>P u\<close> by auto
    next
      case (Some a)
      obtain i p where a: "a = (i, p)" by (cases a)
      note i = first_pinned_Some [OF Some [unfolded a]]
      show ?thesis
      proof (cases "pinned_skip_step sc pl t i p u")
        case (Inl e)
        have "r = Inl e" using body by (simp add: eqs Some a Inl)
        thus ?thesis by simp
      next
        case (Inr u1)
        hence "f sc pl ms t u1 = Some r" using body eqs Some a by simp
        moreover have "P u1" by (rule step [OF \<open>P u\<close> i Inr])
        ultimately show ?thesis using IH by blast
      qed
    qed
  qed
  thus ?thesis using start by simp
qed

lemma pinned_skips_total:
  assumes "create_planner createNodes w = Inr pl" "edges_declared w" "queue_inv (pl_topology pl) (pk_queue st)"
  shows "\<exists>st'. apply_pinned_queue_skips sc pl ms t st = Some (Inr st')
    \<and> (\<forall>q \<in> set (pk_queue st'). pinned_in ms (qe_nodeId q) = None) \<and> queue_inv (pl_topology pl) (pk_queue st')"
proof -
  note tp = create_planner_acyclic [OF assms(1,2)]
  have w: "wf (inv_image (mult (downstream_order w)) (\<lambda>st. mset (map qe_nodeId (pk_queue st))))"
    by (intro wf_inv_image wf_mult wf_downstream_order tp(1))
  show ?thesis using assms(3)
  proof (induction st rule: wf_induct_rule [OF w])
    case (1 st)
    show ?case
    proof (cases "first_pinned ms (pk_queue st)")
      case None
      thus ?thesis using 1(2) first_pinned_None by (auto simp: apply_pinned_queue_skips.simps)
    next
      case (Some a)
      obtain i p where a: "a = (i, p)" by (cases a)
      note i = first_pinned_Some [OF Some [unfolded a]]
      let ?e = "pk_queue st ! i"
      obtain q' where q': "apply_outputs pl (remove_at i (pk_queue st)) (qe_nodeId ?e) p (opt_or (qe_batchId ?e) default_batch) = Inr q'"
        using apply_outputs_total [OF tp] by blast
      obtain st1 where st1: "pinned_skip_step sc pl t i p st = Inr st1" "pk_queue st1 = q'"
        using q' by (simp add: pinned_skip_step_def Let_def)
      have "queue_inv (pl_topology pl) q'"
        using queue_inv_apply_outputs [OF tp(2) q'] queue_inv_remove_at [OF 1(2)] by blast
      hence "\<exists>st'. apply_pinned_queue_skips sc pl ms t st1 = Some (Inr st')
          \<and> (\<forall>q \<in> set (pk_queue st'). pinned_in ms (qe_nodeId q) = None) \<and> queue_inv (pl_topology pl) (pk_queue st')"
        using 1(1) [of st1] pinned_skip_step_decreases [OF tp(2) st1(1) i(1)] st1(2) by (simp add: in_inv_image)
      moreover have "apply_pinned_queue_skips sc pl ms t st = apply_pinned_queue_skips sc pl ms t st1"
        using Some a st1(1) by (subst apply_pinned_queue_skips.simps) simp
      ultimately show ?thesis by simp
    qed
  qed
qed

text \<open>Taking the pinned entries out of the queue always ends for a workflow the planning accepts: the
  loop returns without an error, no entry of a pinned node is left, and the queue keeps its invariant (so
  that scheduling cannot get stuck afterwards).\<close>

theorem pinned_skips_terminate:
  assumes "create_planner createNodes w = Inr pl" "edges_declared w" "queue_inv (pl_topology pl) (pk_queue st)"
  shows "\<exists>st'. apply_pinned_queue_skips sc pl ms t st = Some (Inr st')
    \<and> (\<forall>q \<in> set (pk_queue st'). pinned_in ms (qe_nodeId q) = None) \<and> queue_inv (pl_topology pl) (pk_queue st')"
  by (rule pinned_skips_total [OF assms])

text \<open>The loop touches pinned nodes only: a node without pinned outputs keeps its outputs and snapshot, and
  a pinned one either keeps both or now has exactly its pinned outputs, in the data and in a completed
  snapshot that is marked as pinned.\<close>

theorem pinned_skips_write_pinned:
  assumes "apply_pinned_queue_skips sc pl ms t st = Some (Inr st')"
  shows "(jget (pk_data st') n = jget (pk_data st) n \<and> jget (pk_snapshots st') n = jget (pk_snapshots st) n) \<or>
    (\<exists>p s. pinned_in ms n = Some p \<and> jget (pk_data st') n = Some p \<and> jget (pk_snapshots st') n = Some s \<and>
      ns_status s = NsCompleted \<and> ns_usedPinnedOutput s = Some True \<and> ns_outputs s = Some p \<and> ns_nodeId s = n)"
proof -
  let ?P = "\<lambda>u. (jget (pk_data u) n = jget (pk_data st) n \<and> jget (pk_snapshots u) n = jget (pk_snapshots st) n) \<or>
    (\<exists>p s. pinned_in ms n = Some p \<and> jget (pk_data u) n = Some p \<and> jget (pk_snapshots u) n = Some s \<and>
      ns_status s = NsCompleted \<and> ns_usedPinnedOutput s = Some True \<and> ns_outputs s = Some p \<and> ns_nodeId s = n)"
  have "?P st' \<and> first_pinned ms (pk_queue st') = None"
  proof (rule pinned_skips_rule [OF assms, where P = ?P])
    show "?P st" by simp
  next
    fix u i p u1
    assume u: "?P u" "pinned_in ms (qe_nodeId (pk_queue u ! i)) = Some p" "pinned_skip_step sc pl t i p u = Inr u1"
    show "?P u1"
    proof (cases "n = qe_nodeId (pk_queue u ! i)")
      case True
      thus ?thesis using u(2,3)
        by (auto simp: pinned_skip_step_def Let_def set_outputs_def snapshot_completed_def split: sum.splits)
    next
      case False
      hence "jget (pk_data u1) n = jget (pk_data u) n" "jget (pk_snapshots u1) n = jget (pk_snapshots u) n"
        using u(3) by (auto simp: pinned_skip_step_def Let_def set_outputs_def split: sum.splits)
      thus ?thesis using u(1) by simp
    qed
  qed
  thus ?thesis by blast
qed

section \<open>A pinned node in a small run\<close>

definition sample_scope :: snapshot_scope where
  "sample_scope = \<lparr>sc_runId = ''r'', sc_workflowId = ''wf'', sc_parent = None\<rparr>"

definition sample_pins :: mutable_run_state where
  "sample_pins = \<lparr>mr_nodesById = [(''a'', \<lparr>mn_pinnedOutputsByPort = Some [(''main'', [sample_item ''p''])], mn_lastDebugInput = None\<rparr>)]\<rparr>"

definition sample_pinned_start :: pinned_state where
  "sample_pinned_start =
    \<lparr>pk_queue = [single_entry \<lparr>ea_batchId = default_batch,
         ea_to = \<lparr>to_output = ''true'', to_nodeId = ''a'', to_input = ''in'', to_collectKey = ''in''\<rparr>,
         ea_from = \<lparr>or_node = ''if'', or_output = ''true''\<rparr>, ea_items = [sample_item ''x'']\<rparr>],
     pk_data = [], pk_snapshots = []\<rparr>"

lemma sample_pinned_inv: "queue_inv (pl_topology sample_planner) (pk_queue sample_pinned_start)"
  using queue_inv_snoc_single [of "pl_topology sample_planner" "[]"] by (simp add: sample_pinned_start_def)

lemma pinned_skips_terminate_witness:
  "\<exists>st'. apply_pinned_queue_skips sample_scope sample_planner (Some sample_pins) ''now'' sample_pinned_start = Some (Inr st')
    \<and> queue_inv (pl_topology sample_planner) (pk_queue st')"
  using pinned_skips_terminate [OF sample_planner_created sample_declared sample_pinned_inv] by blast

lemma pinned_skips_write_pinned_witness:
  "\<exists>st'. apply_pinned_queue_skips sample_scope sample_planner (Some sample_pins) ''now'' sample_pinned_start = Some (Inr st')
    \<and> jget (pk_data st') ''if'' = None"
proof -
  obtain st' where st': "apply_pinned_queue_skips sample_scope sample_planner (Some sample_pins) ''now'' sample_pinned_start = Some (Inr st')"
    using pinned_skips_total [OF sample_planner_created sample_declared sample_pinned_inv] by blast
  have "pinned_in (Some sample_pins) ''if'' = None" by (simp add: pinned_in_def sample_pins_def)
  moreover have "jget (pk_data sample_pinned_start) ''if'' = None" by (simp add: sample_pinned_start_def)
  ultimately show ?thesis using pinned_skips_write_pinned [OF st', of "''if''"] st' by auto
qed

section \<open>A pinned merge node is passed once per branch\<close>

text \<open>
  The loop takes a collect entry of a pinned node out of the queue as soon as its first input arrives.  The
  second input then opens a new entry, which is taken out as well: the node behind a pinned merge is queued
  twice for the same batch.
\<close>

definition sample_merge :: workflow where
  "sample_merge = sample_of
    [sample_node ''t'' TriggerKind None, sample_node ''a'' NodeKind None, sample_node ''b'' NodeKind None,
     sample_node ''m'' NodeKind None, sample_node ''d'' NodeKind None]
    [sample_edge ''t'' ''main'' ''a'' ''in'', sample_edge ''t'' ''main'' ''b'' ''in'',
     sample_edge ''a'' ''main'' ''m'' ''left'', sample_edge ''b'' ''main'' ''m'' ''right'',
     sample_edge ''m'' ''main'' ''d'' ''in'']"

definition sample_merge_planner :: planner where
  "sample_merge_planner = \<lparr>pl_topology = topology_of sample_merge, pl_nodeInstances = sample_instances sample_merge\<rparr>"

definition sample_merge_pins :: mutable_run_state where
  "sample_merge_pins = \<lparr>mr_nodesById = [(''m'', \<lparr>mn_pinnedOutputsByPort = Some [(''main'', [sample_item ''p''])], mn_lastDebugInput = None\<rparr>)]\<rparr>"

text \<open>One branch finishes: its outputs are routed and the pinned entries are taken out.\<close>

definition sample_branch :: "node_id \<Rightarrow> pinned_state \<Rightarrow> (js_error + pinned_state) option" where
  "sample_branch n st =
    (case apply_outputs sample_merge_planner (pk_queue st) n [(''main'', [sample_item ''x''])] default_batch of
       Inl e \<Rightarrow> Some (Inl e)
     | Inr q \<Rightarrow> apply_pinned_queue_skips sample_scope sample_merge_planner (Some sample_merge_pins) ''now'' (st\<lparr>pk_queue := q\<rparr>))"

definition sample_both_branches :: "(js_error + pinned_state) option" where
  "sample_both_branches =
    (case sample_branch ''a'' \<lparr>pk_queue = [], pk_data = [], pk_snapshots = []\<rparr> of
       Some (Inr st) \<Rightarrow> sample_branch ''b'' st
     | r \<Rightarrow> r)"

lemma pinned_merge_queued_twice:
  "map_option (map_sum id (\<lambda>st. map (\<lambda>q. (qe_nodeId q, entry_batch q)) (pk_queue st))) sample_both_branches
     = Some (Inr [(''d'', default_batch), (''d'', default_batch)])"
  by code_simp

end
