(* ===== verification/Policies.thy ===== *)
theory Policies
  imports Sample
begin

text \<open>
  \<open>policies/\<close>: the execution limits of a new run (\<open>EngineExecutionLimitsPolicy\<close> and its factory), the
  policy snapshot stored with a run (\<open>RunPolicySnapshotFactory\<close>), the decision whether a finished run
  stays in the repository (\<open>WorkflowStoragePolicyEvaluator\<close>, \<open>RunTerminalPersistenceCoordinator\<close>) and the
  resolution of error handlers (\<open>WorkflowPolicyErrorServices\<close>).  The reference a sub-workflow run gets to
  its parent comes from \<open>SubWorkflowNode\<close>.  Limits are integers.  What the dependency-injection
  container returns for a token is an argument.
\<close>

section \<open>Execution limits\<close>

record limits_config =
  lc_defaultMaxNodeActivations :: int
  lc_hardMaxNodeActivations :: int
  lc_defaultMaxSubworkflowDepth :: int
  lc_hardMaxSubworkflowDepth :: int

definition limits_defaults :: limits_config where
  "limits_defaults =
    \<lparr>lc_defaultMaxNodeActivations = 100000, lc_hardMaxNodeActivations = 100000,
     lc_defaultMaxSubworkflowDepth = 32, lc_hardMaxSubworkflowDepth = 32\<rparr>"

text \<open>The overrides of the host: every limit is optional.\<close>

record limits_overrides =
  lo_defaultMaxNodeActivations :: "int option"
  lo_hardMaxNodeActivations :: "int option"
  lo_defaultMaxSubworkflowDepth :: "int option"
  lo_hardMaxSubworkflowDepth :: "int option"

definition create_limits :: "limits_overrides \<Rightarrow> limits_config" where
  "create_limits ov =
    \<lparr>lc_defaultMaxNodeActivations = opt_or (lo_defaultMaxNodeActivations ov) (lc_defaultMaxNodeActivations limits_defaults),
     lc_hardMaxNodeActivations = opt_or (lo_hardMaxNodeActivations ov) (lc_hardMaxNodeActivations limits_defaults),
     lc_defaultMaxSubworkflowDepth = opt_or (lo_defaultMaxSubworkflowDepth ov) (lc_defaultMaxSubworkflowDepth limits_defaults),
     lc_hardMaxSubworkflowDepth = opt_or (lo_hardMaxSubworkflowDepth ov) (lc_hardMaxSubworkflowDepth limits_defaults)\<rparr>"

definition string_of_int :: "int \<Rightarrow> string" where
  "string_of_int i = (if i < 0 then ''-'' @ string_of_nat (nat (- i)) else string_of_nat (nat i))"

definition cap_number :: "int option \<Rightarrow> int \<Rightarrow> int \<Rightarrow> int" where
  "cap_number requested defaultValue hardCeiling =
    (let base = (case requested of None \<Rightarrow> defaultValue | Some r \<Rightarrow> r) in min base hardCeiling)"

definition nesting_error :: "int \<Rightarrow> int \<Rightarrow> js_error" where
  "nesting_error depth maxDepth =
    plain_error (''Subworkflow nesting depth '' @ string_of_int depth @ '' exceeds maxSubworkflowDepth ''
      @ string_of_int maxDepth @ '' (run would be a child of parent run).'')"

definition merge_execution_options ::
  "limits_config \<Rightarrow> parent_ref option \<Rightarrow> execution_options option \<Rightarrow> js_error + execution_options" where
  "merge_execution_options cfg parent user =
    (let subworkflowDepth = (case parent of None \<Rightarrow> 0 | Some p \<Rightarrow> opt_or (pr_subworkflowDepth p) 0 + 1);
         inheritedMaxNode = Option.bind parent pr_engineMaxNodeActivations;
         inheritedMaxSub = Option.bind parent pr_engineMaxSubworkflowDepth;
         maxNodeActivations =
           cap_number (opt_else (Option.bind user eo_maxNodeActivations) inheritedMaxNode)
             (lc_defaultMaxNodeActivations cfg) (lc_hardMaxNodeActivations cfg);
         maxSubworkflowDepth =
           cap_number (opt_else (Option.bind user eo_maxSubworkflowDepth) inheritedMaxSub)
             (lc_defaultMaxSubworkflowDepth cfg) (lc_hardMaxSubworkflowDepth cfg)
     in if subworkflowDepth > maxSubworkflowDepth then Inl (nesting_error subworkflowDepth maxSubworkflowDepth)
        else Inr ((opt_or user empty_execution_options)
          \<lparr>eo_subworkflowDepth := Some subworkflowDepth,
           eo_maxNodeActivations := Some maxNodeActivations,
           eo_maxSubworkflowDepth := Some maxSubworkflowDepth\<rparr>))"

definition create_root_execution_options :: "limits_config \<Rightarrow> js_error + execution_options" where
  "create_root_execution_options cfg = merge_execution_options cfg None None"

text \<open>
  The reference to the parent run that a sub-workflow node passes to the run it starts; the limits it
  reads from its execution context are those of the options the parent run was created with.
\<close>

definition child_parent_ref :: "run_id \<Rightarrow> workflow_id \<Rightarrow> node_id \<Rightarrow> execution_options \<Rightarrow> parent_ref" where
  "child_parent_ref runId workflowId nodeId opts =
    \<lparr>pr_runId = runId, pr_workflowId = workflowId, pr_nodeId = nodeId,
     pr_subworkflowDepth = Some (opt_or (eo_subworkflowDepth opts) 0),
     pr_engineMaxNodeActivations = eo_maxNodeActivations opts,
     pr_engineMaxSubworkflowDepth = eo_maxSubworkflowDepth opts,
     pr_testContext = None\<rparr>"

section \<open>The policy snapshot of a run\<close>

definition create_policy_snapshot :: "workflow \<Rightarrow> policy_defaults option \<Rightarrow> policy_snapshot" where
  "create_policy_snapshot w defaults =
    (let prune = wf_prunePolicy w
     in \<lparr>ps_retentionSeconds =
           opt_else (Option.bind prune pp_runDataRetentionSeconds) (Option.bind defaults pd_retentionSeconds),
         ps_binaryRetentionSeconds =
           opt_else (Option.bind prune pp_binaryRetentionSeconds) (Option.bind defaults pd_binaryRetentionSeconds),
         ps_telemetrySpanRetentionSeconds =
           opt_else (Option.bind prune pp_telemetrySpanRetentionSeconds)
             (Option.bind defaults pd_telemetrySpanRetentionSeconds),
         ps_telemetryArtifactRetentionSeconds =
           opt_else (Option.bind prune pp_telemetryArtifactRetentionSeconds)
             (Option.bind defaults pd_telemetryArtifactRetentionSeconds),
         ps_telemetryMetricRetentionSeconds =
           opt_else (Option.bind prune pp_telemetryMetricRetentionSeconds)
             (Option.bind defaults pd_telemetryMetricRetentionSeconds),
         ps_storagePolicy =
           (case wf_storagePolicy w of
              Some (StorageMode m) \<Rightarrow> m
            | _ \<Rightarrow> opt_or (Option.bind defaults pd_storagePolicy) StoreAll)\<rparr>)"

section \<open>Storage of finished runs\<close>

datatype final_status = FinalCompleted | FinalFailed

record storage_decision_args =
  sd_runId :: run_id
  sd_workflowId :: workflow_id
  sd_workflow :: workflow
  sd_finalStatus :: final_status
  sd_startedAt :: iso_time
  sd_finishedAt :: iso_time

fun mode_matches :: "storage_mode \<Rightarrow> storage_decision_args \<Rightarrow> bool" where
  "mode_matches StoreAll args = True"
| "mode_matches StoreNever args = False"
| "mode_matches StoreSuccess args = (sd_finalStatus args = FinalCompleted)"
| "mode_matches StoreError args = (sd_finalStatus args = FinalFailed)"

text \<open>A storage resolver found under a token decides on the arguments, or throws.\<close>

type_synonym storage_resolver = "type_token \<Rightarrow> storage_decision_args \<Rightarrow> js_error + bool"

definition should_persist ::
  "storage_resolver \<Rightarrow> workflow \<Rightarrow> policy_snapshot option \<Rightarrow> storage_decision_args \<Rightarrow> js_error + bool" where
  "should_persist resolver w snapshot args =
    (case wf_storagePolicy w of
       None \<Rightarrow> Inr (mode_matches (opt_or (map_option ps_storagePolicy snapshot) StoreAll) args)
     | Some (StorageMode m) \<Rightarrow> Inr (mode_matches m args)
     | Some (StorageResolver tok) \<Rightarrow> resolver tok args)"

text \<open>The repository may lack \<open>deleteRun\<close>; then a run is kept whatever the policy says.\<close>

definition maybe_delete_after_terminal ::
  "storage_resolver \<Rightarrow> (run_id \<Rightarrow> 'repo \<Rightarrow> 'repo) option \<Rightarrow> workflow \<Rightarrow> run_state \<Rightarrow> final_status \<Rightarrow> iso_time
    \<Rightarrow> 'repo \<Rightarrow> js_error + 'repo" where
  "maybe_delete_after_terminal resolver deleteRun w st finalStatus finishedAt repo =
    (case should_persist resolver w (rs_policySnapshot st)
        \<lparr>sd_runId = rs_runId st, sd_workflowId = rs_workflowId st, sd_workflow = w,
         sd_finalStatus = finalStatus, sd_startedAt = rs_startedAt st, sd_finishedAt = finishedAt\<rparr> of
       Inl e \<Rightarrow> Inl e
     | Inr persist \<Rightarrow>
         if persist then Inr repo
         else (case deleteRun of None \<Rightarrow> Inr repo | Some delete \<Rightarrow> Inr (delete (rs_runId st) repo)))"

section \<open>Error handlers\<close>

definition resolve_node_error_handler ::
  "(nat \<Rightarrow> 'h) \<Rightarrow> (type_token \<Rightarrow> js_error + 'h) \<Rightarrow> handler_spec option \<Rightarrow> js_error + 'h option" where
  "resolve_node_error_handler inline resolve spec =
    (case spec of
       None \<Rightarrow> Inr None
     | Some (InlineHandler n) \<Rightarrow> Inr (Some (inline n))
     | Some (TokenHandler t) \<Rightarrow> map_sum id Some (resolve t))"

definition resolve_workflow_error_handler ::
  "(nat \<Rightarrow> 'h) \<Rightarrow> (type_token \<Rightarrow> js_error + 'h) \<Rightarrow> handler_spec option \<Rightarrow> js_error + 'h option" where
  "resolve_workflow_error_handler inline resolve spec =
    (case spec of
       None \<Rightarrow> Inr None
     | Some (InlineHandler n) \<Rightarrow> Inr (Some (inline n))
     | Some (TokenHandler t) \<Rightarrow> map_sum id Some (resolve t))"

section \<open>Limits stay under the ceilings\<close>

lemma cap_number_le: "cap_number r d h \<le> h"
  by (simp add: cap_number_def Let_def)

lemma merge_execution_options_Inr:
  assumes "merge_execution_options cfg parent user = Inr opts"
  obtains maxNode maxSub depth where
    "depth = (case parent of None \<Rightarrow> 0 | Some p \<Rightarrow> opt_or (pr_subworkflowDepth p) 0 + 1)"
    "maxNode = cap_number (opt_else (Option.bind user eo_maxNodeActivations) (Option.bind parent pr_engineMaxNodeActivations))
       (lc_defaultMaxNodeActivations cfg) (lc_hardMaxNodeActivations cfg)"
    "maxSub = cap_number (opt_else (Option.bind user eo_maxSubworkflowDepth) (Option.bind parent pr_engineMaxSubworkflowDepth))
       (lc_defaultMaxSubworkflowDepth cfg) (lc_hardMaxSubworkflowDepth cfg)"
    "depth \<le> maxSub"
    "opts = (opt_or user empty_execution_options)
       \<lparr>eo_subworkflowDepth := Some depth, eo_maxNodeActivations := Some maxNode, eo_maxSubworkflowDepth := Some maxSub\<rparr>"
  using assms unfolding merge_execution_options_def Let_def
  by (simp split: if_splits)

lemma merge_execution_options_limits:
  assumes "merge_execution_options cfg parent user = Inr opts"
  shows "\<exists>d n s. eo_subworkflowDepth opts = Some d \<and> eo_maxNodeActivations opts = Some n \<and>
    eo_maxSubworkflowDepth opts = Some s \<and>
    d = (case parent of None \<Rightarrow> 0 | Some p \<Rightarrow> opt_or (pr_subworkflowDepth p) 0 + 1) \<and>
    d \<le> s \<and> s \<le> lc_hardMaxSubworkflowDepth cfg \<and> n \<le> lc_hardMaxNodeActivations cfg"
  using assms by (elim merge_execution_options_Inr) (simp add: cap_number_le)

text \<open>
  A run nested \<open>n\<close> levels deep: each level is started by a sub-workflow node of the level above, with any
  user options.
\<close>

inductive nested_run :: "limits_config \<Rightarrow> nat \<Rightarrow> execution_options \<Rightarrow> bool" for cfg where
  root_run: "merge_execution_options cfg None user = Inr opts \<Longrightarrow> nested_run cfg 0 opts"
| child_run: "nested_run cfg n opts \<Longrightarrow>
    merge_execution_options cfg (Some (child_parent_ref runId workflowId nodeId opts)) user = Inr opts' \<Longrightarrow>
    nested_run cfg (Suc n) opts'"

lemma nested_run_depth:
  "nested_run cfg n opts \<Longrightarrow> eo_subworkflowDepth opts = Some (int n) \<and> int n \<le> lc_hardMaxSubworkflowDepth cfg"
proof (induction rule: nested_run.induct)
  case (root_run user opts)
  from merge_execution_options_limits [OF this] show ?case by auto
next
  case (child_run n opts runId workflowId nodeId user opts')
  from merge_execution_options_limits [OF child_run.hyps(2)] show ?case
    using child_run.IH by (auto simp: child_parent_ref_def)
qed

text \<open>Whatever options the user and the workflows pass, sub-workflow runs cannot nest without bound: a
  run that is \<open>n\<close> levels below a root run exists only for \<open>n\<close> up to the hard ceiling, its stored depth is
  exactly \<open>n\<close>, and its activation budget never exceeds the hard ceiling.\<close>

theorem nesting_bounded:
  assumes "nested_run cfg n opts"
  shows "int n \<le> lc_hardMaxSubworkflowDepth cfg \<and> eo_subworkflowDepth opts = Some (int n)
    \<and> (\<exists>m. eo_maxNodeActivations opts = Some m \<and> m \<le> lc_hardMaxNodeActivations cfg)"
proof (intro conjI)
  show "int n \<le> lc_hardMaxSubworkflowDepth cfg" "eo_subworkflowDepth opts = Some (int n)"
    using nested_run_depth [OF assms] by simp_all
  show "\<exists>m. eo_maxNodeActivations opts = Some m \<and> m \<le> lc_hardMaxNodeActivations cfg"
    using assms by cases (use merge_execution_options_limits in blast)+
qed

theorem nesting_bounded_witness:
  "nested_run (create_limits \<lparr>lo_defaultMaxNodeActivations = None, lo_hardMaxNodeActivations = None,
      lo_defaultMaxSubworkflowDepth = None, lo_hardMaxSubworkflowDepth = Some 1\<rparr>) 1
    (empty_execution_options \<lparr>eo_subworkflowDepth := Some 1, eo_maxNodeActivations := Some 100000,
      eo_maxSubworkflowDepth := Some 1\<rparr>) \<and> int 1 \<le> 1"
proof -
  let ?cfg = "create_limits \<lparr>lo_defaultMaxNodeActivations = None, lo_hardMaxNodeActivations = None,
      lo_defaultMaxSubworkflowDepth = None, lo_hardMaxSubworkflowDepth = Some 1\<rparr>"
  let ?opts = "\<lambda>d. empty_execution_options \<lparr>eo_subworkflowDepth := Some d, eo_maxNodeActivations := Some 100000,
      eo_maxSubworkflowDepth := Some 1\<rparr>"
  note defs = merge_execution_options_def create_limits_def limits_defaults_def cap_number_def
    empty_execution_options_def child_parent_ref_def Let_def
  have "nested_run ?cfg 0 (?opts 0)"
    by (rule root_run [where user = None]) (simp add: defs)
  hence n: "nested_run ?cfg (Suc 0) (?opts 1)"
    by (rule child_run [where runId = "''r''" and workflowId = "''w''" and nodeId = "''n''" and user = None])
      (simp add: defs)
  from nesting_bounded [OF n] n show ?thesis by (simp add: create_limits_def limits_defaults_def)
qed

section \<open>Storage decisions\<close>

text \<open>A finished run is deleted exactly when the policy that applies rejects it: the workflow's own mode,
  else the workflow's resolver, else the mode in the run's snapshot, else keep all.  No other run is
  touched.\<close>

theorem terminal_deletion:
  fixes repo repo' :: "(run_id, run_state) jmap"
  assumes "maybe_delete_after_terminal resolver (Some jremove) w st fin finishedAt repo = Inr repo'"
  shows "jget repo' r =
    (if r = rs_runId st \<and>
       (case wf_storagePolicy w of
          Some (StorageResolver tok) \<Rightarrow>
            resolver tok \<lparr>sd_runId = rs_runId st, sd_workflowId = rs_workflowId st, sd_workflow = w,
              sd_finalStatus = fin, sd_startedAt = rs_startedAt st, sd_finishedAt = finishedAt\<rparr> = Inr False
        | Some (StorageMode m) \<Rightarrow> m \<in> {StoreNever, if fin = FinalCompleted then StoreError else StoreSuccess}
        | None \<Rightarrow> (\<exists>p. rs_policySnapshot st = Some p \<and>
            ps_storagePolicy p \<in> {StoreNever, if fin = FinalCompleted then StoreError else StoreSuccess}))
     then None else jget repo r)"
proof -
  have m: "(\<not> mode_matches mode a) =
      (mode \<in> {StoreNever, if sd_finalStatus a = FinalCompleted then StoreError else StoreSuccess})" for mode a
    by (cases mode; cases "sd_finalStatus a") simp_all
  note defs = maybe_delete_after_terminal_def should_persist_def m [symmetric]
  show ?thesis
  proof (cases "wf_storagePolicy w")
    case None
    thus ?thesis using assms
      by (cases "rs_policySnapshot st") (auto simp: maybe_delete_after_terminal_def should_persist_def m split: if_splits)
  next
    case (Some p)
    thus ?thesis using assms
      by (cases p) (auto simp: maybe_delete_after_terminal_def should_persist_def m split: if_splits sum.splits)
  qed
qed

end
