(* ===== verification/Events.thy ===== *)
theory Events
  imports Contracts
begin

text \<open>
  \<open>events/\<close>: the run events, the in-memory event bus (\<open>InMemoryRunEventBus\<close>) and the kinds of the events of
  connection invocations.  A listener is a number; a JavaScript set keeps one copy of it, in the order of
  insertion.  Publishing returns the calls it makes, in order.
\<close>

datatype node_event_kind = NodeQueuedEvent | NodeStartedEvent | NodeCompletedEvent | NodeFailedEvent
datatype invocation_event_kind = InvocationStarted | InvocationCompleted | InvocationFailed
datatype case_run_status = CaseRunning | CaseSucceeded | CaseFailed | CaseErrored | CaseCancelled
datatype suite_run_status = SuiteSucceeded | SuiteFailed | SuitePartial | SuiteErrored | SuiteCancelled

datatype run_event =
    RunCreatedEvent run_id (ev_workflowId: workflow_id) "parent_ref option" iso_time
  | RunSavedEvent run_id (ev_workflowId: workflow_id) "parent_ref option" iso_time run_state
  | NodeEvent node_event_kind run_id (ev_workflowId: workflow_id) "parent_ref option" iso_time node_snapshot
  | InvocationEvent invocation_event_kind run_id (ev_workflowId: workflow_id) "parent_ref option" iso_time connection_invocation
  | TestSuiteStartedEvent string (ev_workflowId: workflow_id) node_id "string option" nat iso_time
  | TestSuiteFinishedEvent string (ev_workflowId: workflow_id) suite_run_status nat nat nat iso_time
  | TestCaseStartedEvent string nat run_id (ev_workflowId: workflow_id) "string option" iso_time
  | TestCaseCompletedEvent string nat run_id (ev_workflowId: workflow_id) case_run_status iso_time

section \<open>The in-memory bus\<close>

type_synonym listener = nat

record event_bus =
  eb_global :: "listener list"
  eb_byWorkflow :: "(workflow_id, listener list) jmap"

definition empty_bus :: event_bus where
  "empty_bus = \<lparr>eb_global = [], eb_byWorkflow = []\<rparr>"

definition set_add :: "'a \<Rightarrow> 'a list \<Rightarrow> 'a list" where
  "set_add x xs = (if x \<in> set xs then xs else xs @ [x])"

definition bus_publish :: "event_bus \<Rightarrow> run_event \<Rightarrow> (listener \<times> run_event) list" where
  "bus_publish bus ev =
    map (\<lambda>l. (l, ev)) (eb_global bus) @ map (\<lambda>l. (l, ev)) (jget_list (eb_byWorkflow bus) (ev_workflowId ev))"

definition bus_subscribe :: "listener \<Rightarrow> event_bus \<Rightarrow> event_bus" where
  "bus_subscribe l bus = bus\<lparr>eb_global := set_add l (eb_global bus)\<rparr>"

definition bus_unsubscribe :: "listener \<Rightarrow> event_bus \<Rightarrow> event_bus" where
  "bus_unsubscribe l bus = bus\<lparr>eb_global := remove1 l (eb_global bus)\<rparr>"

definition bus_subscribe_workflow :: "workflow_id \<Rightarrow> listener \<Rightarrow> event_bus \<Rightarrow> event_bus" where
  "bus_subscribe_workflow w l bus =
    bus\<lparr>eb_byWorkflow := jset w (set_add l (jget_list (eb_byWorkflow bus) w)) (eb_byWorkflow bus)\<rparr>"

definition bus_unsubscribe_workflow :: "workflow_id \<Rightarrow> listener \<Rightarrow> event_bus \<Rightarrow> event_bus" where
  "bus_unsubscribe_workflow w l bus =
    (case jget (eb_byWorkflow bus) w of
       None \<Rightarrow> bus
     | Some ls \<Rightarrow>
         let ls' = remove1 l ls
         in bus\<lparr>eb_byWorkflow :=
              (if ls' = [] then jremove w (eb_byWorkflow bus) else jset w ls' (eb_byWorkflow bus))\<rparr>)"

text \<open>The kind of event a connection invocation is announced with, if any.\<close>

definition invocation_kind :: "connection_invocation \<Rightarrow> invocation_event_kind option" where
  "invocation_kind r =
    (case ci_status r of
       NsRunning \<Rightarrow> Some InvocationStarted
     | NsQueued \<Rightarrow> Some InvocationStarted
     | NsCompleted \<Rightarrow> Some InvocationCompleted
     | NsFailed \<Rightarrow> Some InvocationFailed
     | _ \<Rightarrow> None)"

definition node_event :: "node_event_kind \<Rightarrow> node_snapshot \<Rightarrow> run_event" where
  "node_event k s = NodeEvent k (ns_runId s) (ns_workflowId s) (ns_parent s) (ns_updatedAt s) s"

definition invocation_event :: "parent_ref option \<Rightarrow> connection_invocation \<Rightarrow> run_event option" where
  "invocation_event parent r =
    (case invocation_kind r of
       None \<Rightarrow> None
     | Some k \<Rightarrow> Some (InvocationEvent k (ci_runId r) (ci_workflowId r) parent (ci_updatedAt r) r))"

section \<open>Delivery\<close>

text \<open>The bus holds sets, and no empty set is left under a workflow.\<close>

definition bus_ok :: "event_bus \<Rightarrow> bool" where
  "bus_ok bus = (distinct (eb_global bus) \<and> (\<forall>w. distinct (jget_list (eb_byWorkflow bus) w) \<and> jget (eb_byWorkflow bus) w \<noteq> Some []))"

lemma distinct_set_add: "distinct xs \<Longrightarrow> distinct (set_add x xs)"
  by (simp add: set_add_def)

lemma set_set_add [simp]: "set (set_add x xs) = insert x (set xs)"
  by (auto simp: set_add_def)

lemma set_add_nonempty [simp]: "set_add x xs \<noteq> []"
  by (auto simp: set_add_def)

lemma bus_ok_operations:
  assumes "bus_ok bus"
  shows "bus_ok (bus_subscribe l bus)" "bus_ok (bus_unsubscribe l bus)"
    "bus_ok (bus_subscribe_workflow w l bus)" "bus_ok (bus_unsubscribe_workflow w l bus)"
  using assms
  by (auto simp: bus_ok_def bus_subscribe_def bus_unsubscribe_def bus_subscribe_workflow_def bus_unsubscribe_workflow_def
      Let_def distinct_set_add split: option.split)
     (metis distinct_remove1 opt_or.simps(2))+

text \<open>The steps that change who listens.\<close>

datatype subscription_step =
    Subscribe listener
  | Unsubscribe listener
  | SubscribeWorkflow workflow_id listener
  | UnsubscribeWorkflow workflow_id listener

fun bus_step :: "subscription_step \<Rightarrow> event_bus \<Rightarrow> event_bus" where
  "bus_step (Subscribe l) bus = bus_subscribe l bus"
| "bus_step (Unsubscribe l) bus = bus_unsubscribe l bus"
| "bus_step (SubscribeWorkflow w l) bus = bus_subscribe_workflow w l bus"
| "bus_step (UnsubscribeWorkflow w l) bus = bus_unsubscribe_workflow w l bus"

fun bus_steps :: "subscription_step list \<Rightarrow> event_bus \<Rightarrow> event_bus" where
  "bus_steps [] bus = bus"
| "bus_steps (s # ss) bus = bus_steps ss (bus_step s bus)"

text \<open>What the last subscription step of a listener on a channel says.\<close>

fun subscribed_all :: "listener \<Rightarrow> subscription_step list \<Rightarrow> bool \<Rightarrow> bool" where
  "subscribed_all l [] b = b"
| "subscribed_all l (Subscribe k # ss) b = subscribed_all l ss (if k = l then True else b)"
| "subscribed_all l (Unsubscribe k # ss) b = subscribed_all l ss (if k = l then False else b)"
| "subscribed_all l (_ # ss) b = subscribed_all l ss b"

fun subscribed_to :: "workflow_id \<Rightarrow> listener \<Rightarrow> subscription_step list \<Rightarrow> bool \<Rightarrow> bool" where
  "subscribed_to w l [] b = b"
| "subscribed_to w l (SubscribeWorkflow v k # ss) b = subscribed_to w l ss (if v = w \<and> k = l then True else b)"
| "subscribed_to w l (UnsubscribeWorkflow v k # ss) b = subscribed_to w l ss (if v = w \<and> k = l then False else b)"
| "subscribed_to w l (_ # ss) b = subscribed_to w l ss b"

lemma bus_ok_step: "bus_ok bus \<Longrightarrow> bus_ok (bus_step s bus)"
  by (cases s) (simp_all add: bus_ok_operations)

lemma listeners_step:
  assumes "bus_ok bus"
  shows "l \<in> set (eb_global (bus_step s bus)) \<longleftrightarrow> subscribed_all l [s] (l \<in> set (eb_global bus))"
    and "l \<in> set (jget_list (eb_byWorkflow (bus_step s bus)) w) \<longleftrightarrow> subscribed_to w l [s] (l \<in> set (jget_list (eb_byWorkflow bus) w))"
proof -
  show "l \<in> set (eb_global (bus_step s bus)) \<longleftrightarrow> subscribed_all l [s] (l \<in> set (eb_global bus))"
    using assms
    by (cases s) (auto simp: bus_ok_def bus_subscribe_def bus_unsubscribe_def bus_subscribe_workflow_def
        bus_unsubscribe_workflow_def Let_def split: option.splits)
  have d: "distinct (jget_list (eb_byWorkflow bus) v)" for v using assms by (simp add: bus_ok_def)
  show "l \<in> set (jget_list (eb_byWorkflow (bus_step s bus)) w) \<longleftrightarrow> subscribed_to w l [s] (l \<in> set (jget_list (eb_byWorkflow bus) w))"
  proof (cases s)
    case (UnsubscribeWorkflow v k)
    show ?thesis
    proof (cases "jget (eb_byWorkflow bus) v")
      case None
      thus ?thesis using UnsubscribeWorkflow by (auto simp: bus_unsubscribe_workflow_def)
    next
      case (Some ls)
      have "set (remove1 k ls) = set ls - {k}" using d [of v] Some by simp
      thus ?thesis using UnsubscribeWorkflow Some
        by (cases "remove1 k ls = []") (auto simp: bus_unsubscribe_workflow_def Let_def)
    qed
  qed (auto simp: bus_subscribe_def bus_unsubscribe_def bus_subscribe_workflow_def)
qed

lemma subscribed_Cons:
  "subscribed_all l (s # ss) b = subscribed_all l ss (subscribed_all l [s] b)"
  "subscribed_to w l (s # ss) b = subscribed_to w l ss (subscribed_to w l [s] b)"
  by (cases s; simp)+

lemma bus_steps_listeners:
  "bus_ok bus \<Longrightarrow> bus_ok (bus_steps ss bus) \<and>
    (l \<in> set (eb_global (bus_steps ss bus)) \<longleftrightarrow> subscribed_all l ss (l \<in> set (eb_global bus))) \<and>
    (l \<in> set (jget_list (eb_byWorkflow (bus_steps ss bus)) w) \<longleftrightarrow> subscribed_to w l ss (l \<in> set (jget_list (eb_byWorkflow bus) w)))"
proof (induction ss arbitrary: bus)
  case (Cons s ss)
  have "bus_ok (bus_step s bus)" by (rule bus_ok_step [OF Cons.prems])
  note IH = Cons.IH [OF this]
  show ?case
    unfolding subscribed_Cons(1) [of l s ss] subscribed_Cons(2) [of w l s ss] bus_steps.simps
    using IH listeners_step [OF Cons.prems] by simp
qed simp

text \<open>After any sequence of subscriptions and closings on an empty bus, an event calls a listener once for
  its global subscription, if that is open, and once for its subscription to the event's workflow, if that is
  open: listeners of other workflows and closed ones are never called, and no listener is called twice
  for one subscription.\<close>

theorem bus_delivers_to_subscribers:
  "count_list (map fst (bus_publish (bus_steps ss empty_bus) ev)) l =
    (if subscribed_all l ss False then 1 else 0) + (if subscribed_to (ev_workflowId ev) l ss False then 1 else 0)"
proof -
  let ?b = "bus_steps ss empty_bus"
  have e: "bus_ok empty_bus" by (simp add: bus_ok_def empty_bus_def)
  from bus_steps_listeners [OF e, of ss l "ev_workflowId ev"] have
    "bus_ok ?b" "(l \<in> set (eb_global ?b)) = subscribed_all l ss False"
    "(l \<in> set (jget_list (eb_byWorkflow ?b) (ev_workflowId ev))) = subscribed_to (ev_workflowId ev) l ss False"
    by (simp_all add: empty_bus_def)
  moreover have "distinct xs \<Longrightarrow> count_list xs l = (if l \<in> set xs then 1 else 0)" for xs :: "listener list"
    by (induction xs) auto
  ultimately show ?thesis by (simp add: bus_publish_def bus_ok_def comp_def)
qed

end
