(* ===== verification/Actions.thy ===== *)
theory Actions
  imports CmPrelude
begin

text \<open>
  Code that reads and writes state and may throw, as a function from the state to a result and the new
  state.  What happened before an error stays: \<open>throw_do\<close> keeps the state, and \<open>catch_do\<close> runs its handler on
  it, the way an exception leaves earlier writes in place.
\<close>

type_synonym ('e, 'a, 's) action = "'s \<Rightarrow> ('e + 'a) \<times> 's"

definition return_do :: "'a \<Rightarrow> ('e, 'a, 's) action" where
  "return_do x s = (Inr x, s)"

definition throw_do :: "'e \<Rightarrow> ('e, 'a, 's) action" where
  "throw_do e s = (Inl e, s)"

definition then_do :: "('e, 'a, 's) action \<Rightarrow> ('a \<Rightarrow> ('e, 'b, 's) action) \<Rightarrow> ('e, 'b, 's) action" where
  "then_do m f s = (case m s of (Inl e, s1) \<Rightarrow> (Inl e, s1) | (Inr x, s1) \<Rightarrow> f x s1)"

definition catch_do :: "('e, 'a, 's) action \<Rightarrow> ('e \<Rightarrow> ('e, 'a, 's) action) \<Rightarrow> ('e, 'a, 's) action" where
  "catch_do m h s = (case m s of (Inl e, s1) \<Rightarrow> h e s1 | (Inr x, s1) \<Rightarrow> (Inr x, s1))"

definition lift_result :: "'e + 'a \<Rightarrow> ('e, 'a, 's) action" where
  "lift_result r s = (r, s)"

definition gets_do :: "('s \<Rightarrow> 'a) \<Rightarrow> ('e, 'a, 's) action" where
  "gets_do f s = (Inr (f s), s)"

definition update_do :: "('s \<Rightarrow> 's) \<Rightarrow> ('e, unit, 's) action" where
  "update_do f s = (Inr (), f s)"

abbreviation after_do :: "('e, unit, 's) action \<Rightarrow> ('e, 'b, 's) action \<Rightarrow> ('e, 'b, 's) action" where
  "after_do m k \<equiv> then_do m (\<lambda>_. k)"

text \<open>A guard that throws.\<close>

definition assert_do :: "bool \<Rightarrow> 'e \<Rightarrow> ('e, unit, 's) action" where
  "assert_do b e s = (if b then (Inr (), s) else (Inl e, s))"

definition expect_do :: "'a option \<Rightarrow> 'e \<Rightarrow> ('e, 'a, 's) action" where
  "expect_do x e s = (case x of None \<Rightarrow> (Inl e, s) | Some y \<Rightarrow> (Inr y, s))"

named_theorems action_simps "evaluation of actions"

lemma return_do_eval [action_simps]: "return_do x s = (Inr x, s)"
  by (rule return_do_def)

lemma throw_do_eval [action_simps]: "throw_do e s = (Inl e, s)"
  by (rule throw_do_def)

lemma gets_do_eval [action_simps]: "gets_do f s = (Inr (f s), s)"
  by (rule gets_do_def)

lemma update_do_eval [action_simps]: "update_do f s = (Inr (), f s)"
  by (rule update_do_def)

lemma lift_result_eval [action_simps]: "lift_result r s = (r, s)"
  by (rule lift_result_def)

lemma then_do_Inr [action_simps]: "m s = (Inr x, s1) \<Longrightarrow> then_do m f s = f x s1"
  by (simp add: then_do_def)

lemma then_do_Inl [action_simps]: "m s = (Inl e, s1) \<Longrightarrow> then_do m f s = (Inl e, s1)"
  by (simp add: then_do_def)

lemma then_do_Inr_iff: "then_do m f s = (Inr y, s2) \<longleftrightarrow> (\<exists>x s1. m s = (Inr x, s1) \<and> f x s1 = (Inr y, s2))"
  by (auto simp: then_do_def split: prod.split sum.split)

lemma then_do_Inl_iff:
  "then_do m f s = (Inl e, s2) \<longleftrightarrow> m s = (Inl e, s2) \<or> (\<exists>x s1. m s = (Inr x, s1) \<and> f x s1 = (Inl e, s2))"
  by (auto simp: then_do_def split: prod.split sum.split)

lemma catch_do_Inr [action_simps]: "m s = (Inr x, s1) \<Longrightarrow> catch_do m h s = (Inr x, s1)"
  by (simp add: catch_do_def)

lemma catch_do_Inl [action_simps]: "m s = (Inl e, s1) \<Longrightarrow> catch_do m h s = h e s1"
  by (simp add: catch_do_def)

section \<open>Invariants of actions\<close>

text \<open>
  \<open>keeps I m\<close>: whether \<open>m\<close> returns or throws, it takes states with \<open>I\<close> to states with \<open>I\<close>.  \<open>establishes I m Q\<close>
  says more about a normal return.
\<close>

definition keeps :: "('s \<Rightarrow> bool) \<Rightarrow> ('e, 'a, 's) action \<Rightarrow> bool" where
  "keeps I m \<longleftrightarrow> (\<forall>s. I s \<longrightarrow> I (snd (m s)))"

named_theorems keeps_intros "preservation of an invariant, construct by construct"

lemma keepsI: "(\<And>s. I s \<Longrightarrow> I (snd (m s))) \<Longrightarrow> keeps I m"
  by (simp add: keeps_def)

lemma keepsD: "keeps I m \<Longrightarrow> I s \<Longrightarrow> I (snd (m s))"
  by (simp add: keeps_def)

lemma keeps_result: "keeps I m \<Longrightarrow> I s \<Longrightarrow> m s = (r, s1) \<Longrightarrow> I s1"
  by (metis keepsD snd_conv)

lemma keeps_return [keeps_intros]: "keeps I (return_do x)"
  by (simp add: keeps_def return_do_def)

lemma keeps_throw [keeps_intros]: "keeps I (throw_do e)"
  by (simp add: keeps_def throw_do_def)

lemma keeps_gets [keeps_intros]: "keeps I (gets_do f)"
  by (simp add: keeps_def gets_do_def)

lemma keeps_lift [keeps_intros]: "keeps I (lift_result r)"
  by (simp add: keeps_def lift_result_def)

lemma keeps_assert [keeps_intros]: "keeps I (assert_do b e)"
  by (simp add: keeps_def assert_do_def)

lemma keeps_expect [keeps_intros]: "keeps I (expect_do x e)"
  by (simp add: keeps_def expect_do_def split: option.split)

lemma keeps_update: "(\<And>s. I s \<Longrightarrow> I (f s)) \<Longrightarrow> keeps I (update_do f)"
  by (simp add: keeps_def update_do_def)

lemma keeps_then [keeps_intros]: "keeps I m \<Longrightarrow> (\<And>x. keeps I (f x)) \<Longrightarrow> keeps I (then_do m f)"
  by (auto simp: keeps_def then_do_def split: prod.split sum.split)

lemma keeps_catch [keeps_intros]: "keeps I m \<Longrightarrow> (\<And>e. keeps I (h e)) \<Longrightarrow> keeps I (catch_do m h)"
  by (auto simp: keeps_def catch_do_def split: prod.split sum.split)

lemma keeps_if [keeps_intros]: "(b \<Longrightarrow> keeps I m) \<Longrightarrow> (\<not> b \<Longrightarrow> keeps I k) \<Longrightarrow> keeps I (if b then m else k)"
  by simp

lemma keeps_case_option [keeps_intros]:
  "keeps I m \<Longrightarrow> (\<And>x. keeps I (f x)) \<Longrightarrow> keeps I (case o' of None \<Rightarrow> m | Some x \<Rightarrow> f x)"
  by (simp split: option.split)

lemma keeps_case_sum [keeps_intros]:
  "(\<And>e. keeps I (g e)) \<Longrightarrow> (\<And>x. keeps I (f x)) \<Longrightarrow> keeps I (case r of Inl e \<Rightarrow> g e | Inr x \<Rightarrow> f x)"
  by (simp split: sum.split)

lemma keeps_case_prod [keeps_intros]: "(\<And>a b. keeps I (f a b)) \<Longrightarrow> keeps I (case p of (a, b) \<Rightarrow> f a b)"
  by (simp split: prod.split)

lemma keeps_let [keeps_intros]: "keeps I (f x) \<Longrightarrow> keeps I (let y = x in f y)"
  by simp

section \<open>Outcomes of actions\<close>

text \<open>
  \<open>wp m Q s\<close>: running \<open>m\<close> in \<open>s\<close> gives a result and a state with \<open>Q\<close>.  The equations of the constructs turn it
  into a statement about the parts, so that a proof about a handler is its definition, these equations and the
  facts about the operations it calls.
\<close>

definition wp :: "('e, 'a, 's) action \<Rightarrow> ('e + 'a \<Rightarrow> 's \<Rightarrow> bool) \<Rightarrow> 's \<Rightarrow> bool" where
  "wp m Q s = Q (fst (m s)) (snd (m s))"

named_theorems wp_simps "outcome of an action, construct by construct"

lemma wp_return [wp_simps]: "wp (return_do x) Q s = Q (Inr x) s"
  by (simp add: wp_def return_do_def)

lemma wp_throw [wp_simps]: "wp (throw_do e) Q s = Q (Inl e) s"
  by (simp add: wp_def throw_do_def)

lemma wp_gets [wp_simps]: "wp (gets_do f) Q s = Q (Inr (f s)) s"
  by (simp add: wp_def gets_do_def)

lemma wp_update [wp_simps]: "wp (update_do g) Q s = Q (Inr ()) (g s)"
  by (simp add: wp_def update_do_def)

lemma wp_lift [wp_simps]: "wp (lift_result r) Q s = Q r s"
  by (simp add: wp_def lift_result_def)

lemma wp_assert [wp_simps]: "wp (assert_do b e) Q s = (if b then Q (Inr ()) s else Q (Inl e) s)"
  by (simp add: wp_def assert_do_def)

lemma wp_expect [wp_simps]: "wp (expect_do y e) Q s = (case y of None \<Rightarrow> Q (Inl e) s | Some z \<Rightarrow> Q (Inr z) s)"
  by (simp add: wp_def expect_do_def split: option.split)

lemma wp_then [wp_simps]:
  "wp (then_do m f) Q s = wp m (\<lambda>r s1. case r of Inl e \<Rightarrow> Q (Inl e) s1 | Inr x \<Rightarrow> wp (f x) Q s1) s"
  by (simp add: wp_def then_do_def split: prod.split sum.split)

lemma wp_catch [wp_simps]:
  "wp (catch_do m h) Q s = wp m (\<lambda>r s1. case r of Inl e \<Rightarrow> wp (h e) Q s1 | Inr x \<Rightarrow> Q (Inr x) s1) s"
  by (simp add: wp_def catch_do_def split: prod.split sum.split)

lemma wp_if [wp_simps]: "wp (if b then m else k) Q s = (if b then wp m Q s else wp k Q s)"
  by simp

lemma wp_case_option [wp_simps]:
  "wp (case y of None \<Rightarrow> m | Some x \<Rightarrow> f x) Q s = (case y of None \<Rightarrow> wp m Q s | Some x \<Rightarrow> wp (f x) Q s)"
  by (simp split: option.split)

lemma wp_case_sum [wp_simps]:
  "wp (case y of Inl e \<Rightarrow> g e | Inr x \<Rightarrow> f x) Q s = (case y of Inl e \<Rightarrow> wp (g e) Q s | Inr x \<Rightarrow> wp (f x) Q s)"
  by (simp split: sum.split)

lemma wp_case_prod [wp_simps]: "wp (case p of (a, b) \<Rightarrow> f a b) Q s = (case p of (a, b) \<Rightarrow> wp (f a b) Q s)"
  by (simp split: prod.split)

lemma wp_let [wp_simps]: "wp (let x = a in f x) Q s = (let x = a in wp (f x) Q s)"
  by simp

lemma wp_mono: "wp m P s \<Longrightarrow> (\<And>r s1. P r s1 \<Longrightarrow> Q r s1) \<Longrightarrow> wp m Q s"
  by (simp add: wp_def)

lemma wp_then_Inr: "m s = (Inr x, s1) \<Longrightarrow> wp (then_do m f) Q s = wp (f x) Q s1"
  by (simp add: wp_def then_do_def)

lemma wp_then_Inl: "m s = (Inl e, s1) \<Longrightarrow> wp (then_do m f) Q s = Q (Inl e) s1"
  by (simp add: wp_def then_do_def)

lemma wp_conj: "wp m P s \<Longrightarrow> wp m Q s \<Longrightarrow> wp m (\<lambda>r s1. P r s1 \<and> Q r s1) s"
  by (simp add: wp_def)

lemma wp_result: "wp m Q s \<Longrightarrow> m s = (r, s1) \<Longrightarrow> Q r s1"
  by (simp add: wp_def)

lemma wpI: "(\<And>r s1. m s = (r, s1) \<Longrightarrow> Q r s1) \<Longrightarrow> wp m Q s"
  by (cases "m s") (simp add: wp_def)

lemma keeps_iff_wp: "keeps I m \<longleftrightarrow> (\<forall>s. I s \<longrightarrow> wp m (\<lambda>_ s1. I s1) s)"
  by (simp add: keeps_def wp_def)

end
