(* ===== verification/Repository.thy ===== *)
theory Repository
  imports RunSemantics Policies Events Actions
begin

text \<open>
  \<open>runStorage/\<close> and the writers of run state.  The world holds the stored runs, the events published so far
  (\<open>None\<close> when no event bus is configured) and the number of time stamps taken; the clock is a function from
  that number to an ISO string.  A repository is a record of operations; the in-memory repository
  (\<open>InMemoryWorkflowExecutionRepository\<close>) and its event-publishing wrapper
  (\<open>EventPublishingWorkflowExecutionRepository\<close>) are two of them, and both satisfy the laws of the locale
  \<open>run_repository\<close>, in which \<open>NodeRunStateWriter\<close> is verified.  Stored states are values here; the in-memory
  repository of the program hands out references, so a caller that mutates a loaded state in place is outside
  the model.
\<close>

section \<open>The world\<close>

record world =
  wo_runs :: "(run_id, run_state) jmap"
  wo_events :: "run_event list option"
  wo_clock :: nat

type_synonym clock = "nat \<Rightarrow> iso_time"
type_synonym ('a, 'w) engine_action = "(js_error, 'a, 'w) action"

definition now_do :: "clock \<Rightarrow> (iso_time, 'w world_scheme) engine_action" where
  "now_do clk w = (Inr (clk (wo_clock w)), w\<lparr>wo_clock := Suc (wo_clock w)\<rparr>)"

lemma wp_now [wp_simps]:
  "wp (now_do clk) Q w = Q (Inr (clk (wo_clock w))) (w\<lparr>wo_clock := Suc (wo_clock w)\<rparr>)"
  by (simp add: wp_def now_do_def)

definition publish_event :: "run_event \<Rightarrow> 'w world_scheme \<Rightarrow> 'w world_scheme" where
  "publish_event ev w = w\<lparr>wo_events := map_option (\<lambda>l. l @ [ev]) (wo_events w)\<rparr>"

section \<open>The in-memory repository\<close>

definition initial_run_state :: "create_run_args \<Rightarrow> run_state" where
  "initial_run_state a =
    \<lparr>rs_runId = ca_runId a, rs_workflowId = ca_workflowId a, rs_startedAt = ca_startedAt a, rs_finishedAt = None,
     rs_revision = Some 0, rs_parent = ca_parent a, rs_executionOptions = ca_executionOptions a, rs_control = ca_control a,
     rs_workflowSnapshot = ca_workflowSnapshot a, rs_mutableState = ca_mutableState a,
     rs_policySnapshot = ca_policySnapshot a, rs_engineCounters = ca_engineCounters a, rs_status = RunRunning,
     rs_reason = None, rs_pending = None, rs_queue = [], rs_outputsByNode = [], rs_nodeSnapshotsByNodeId = [],
     rs_connectionInvocations = Some [], rs_suspension = None, rs_pendingResume = None\<rparr>"

definition bump_revision :: "run_state \<Rightarrow> run_state" where
  "bump_revision st = st\<lparr>rs_revision := Some (opt_or (rs_revision st) 0 + 1)\<rparr>"

definition create_run :: "create_run_args \<Rightarrow> 'w world_scheme \<Rightarrow> 'w world_scheme" where
  "create_run a w = w\<lparr>wo_runs := jset (ca_runId a) (initial_run_state a) (wo_runs w)\<rparr>"

definition load_run :: "run_id \<Rightarrow> 'w world_scheme \<Rightarrow> run_state option" where
  "load_run r w = jget (wo_runs w) r"

definition load_scheduling_state :: "run_id \<Rightarrow> 'w world_scheme \<Rightarrow> scheduling_state option" where
  "load_scheduling_state r w =
    (case jget (wo_runs w) r of None \<Rightarrow> None | Some st \<Rightarrow> Some \<lparr>ss_pending = rs_pending st, ss_queue = rs_queue st\<rparr>)"

definition save_run :: "run_state \<Rightarrow> 'w world_scheme \<Rightarrow> 'w world_scheme" where
  "save_run st w = w\<lparr>wo_runs := jset (rs_runId st) (bump_revision st) (wo_runs w)\<rparr>"

definition delete_run :: "run_id \<Rightarrow> 'w world_scheme \<Rightarrow> 'w world_scheme" where
  "delete_run r w = w\<lparr>wo_runs := jremove r (wo_runs w)\<rparr>"

text \<open>\<open>RunSummaryMapper\<close>.\<close>

definition summary_of :: "run_state \<Rightarrow> run_summary" where
  "summary_of st =
    \<lparr>su_runId = rs_runId st, su_workflowId = rs_workflowId st, su_startedAt = rs_startedAt st, su_status = rs_status st,
     su_finishedAt = resolve_finishedAt st, su_parent = rs_parent st, su_executionOptions = rs_executionOptions st\<rparr>"

text \<open>
  The stable sort of an array by a string key.  \<open>localeCompare\<close> on two ISO time stamps agrees with the
  order of their code units, which is the order used here.
\<close>

fun insert_stable :: "('a \<Rightarrow> 'a \<Rightarrow> bool) \<Rightarrow> 'a \<Rightarrow> 'a list \<Rightarrow> 'a list" where
  "insert_stable before x [] = [x]"
| "insert_stable before x (y # ys) = (if before y x then y # insert_stable before x ys else x # y # ys)"

definition stable_sort :: "('a \<Rightarrow> 'a \<Rightarrow> bool) \<Rightarrow> 'a list \<Rightarrow> 'a list" where
  "stable_sort before xs = foldr (insert_stable before) xs []"

definition list_runs :: "workflow_id option \<Rightarrow> nat option \<Rightarrow> 'w world_scheme \<Rightarrow> run_summary list" where
  "list_runs workflowId limit w =
    map summary_of (take (opt_or limit 50)
      (stable_sort (\<lambda>a b. string_less (rs_startedAt b) (rs_startedAt a))
        (filter (\<lambda>s. if truthy_string workflowId then rs_workflowId s = the workflowId else True) (map snd (wo_runs w)))))"

record prune_candidate =
  pc_runId :: run_id
  pc_workflowId :: workflow_id
  pc_startedAt :: iso_time
  pc_finishedAt :: iso_time

text \<open>\<open>before\<close> is date arithmetic: the ISO string of the given instant minus some seconds.\<close>

definition prune_candidate_of :: "(iso_time \<Rightarrow> int \<Rightarrow> iso_time) \<Rightarrow> iso_time \<Rightarrow> int \<Rightarrow> run_state \<Rightarrow> prune_candidate option" where
  "prune_candidate_of before nowIso defaultRetention s =
    (if rs_status s \<noteq> RunCompleted \<and> rs_status s \<noteq> RunFailed then None
     else let finishedAt = resolve_finishedAt s;
              retention = opt_or (Option.bind (rs_policySnapshot s) ps_retentionSeconds) defaultRetention;
              cutoff = before nowIso retention
          in case finishedAt of
               None \<Rightarrow> None
             | Some f \<Rightarrow>
                 if f = [] \<or> \<not> string_less f cutoff then None
                 else Some \<lparr>pc_runId = rs_runId s, pc_workflowId = rs_workflowId s, pc_startedAt = rs_startedAt s,
                            pc_finishedAt = f\<rparr>)"

definition list_runs_older_than ::
  "(iso_time \<Rightarrow> int \<Rightarrow> iso_time) \<Rightarrow> iso_time \<Rightarrow> int \<Rightarrow> nat option \<Rightarrow> 'w world_scheme \<Rightarrow> prune_candidate list" where
  "list_runs_older_than before nowIso defaultRetention limit w =
    take (opt_or limit 100)
      (stable_sort (\<lambda>a b. string_less (pc_finishedAt a) (pc_finishedAt b))
        (List.map_filter (prune_candidate_of before nowIso defaultRetention) (map snd (wo_runs w))))"

section \<open>The repository interface\<close>

record 's repo_ops =
  ro_create :: "create_run_args \<Rightarrow> 's \<Rightarrow> 's"
  ro_load :: "run_id \<Rightarrow> 's \<Rightarrow> run_state option"
  ro_save :: "run_state \<Rightarrow> 's \<Rightarrow> 's"
  ro_delete :: "run_id \<Rightarrow> 's \<Rightarrow> 's"

definition memory_ops :: "'w world_scheme repo_ops" where
  "memory_ops = \<lparr>ro_create = create_run, ro_load = load_run, ro_save = save_run, ro_delete = delete_run\<rparr>"

text \<open>\<open>EventPublishingWorkflowExecutionRepository\<close> around another repository.\<close>

definition publishing_ops :: "clock \<Rightarrow> 'w world_scheme repo_ops \<Rightarrow> 'w world_scheme repo_ops" where
  "publishing_ops clk inner =
    \<lparr>ro_create = (\<lambda>a w.
       let w1 = ro_create inner a w
       in publish_event (RunCreatedEvent (ca_runId a) (ca_workflowId a) (ca_parent a) (clk (wo_clock w1)))
            (w1\<lparr>wo_clock := Suc (wo_clock w1)\<rparr>)),
     ro_load = ro_load inner,
     ro_save = (\<lambda>st w.
       let w1 = ro_save inner st w
       in publish_event (RunSavedEvent (rs_runId st) (rs_workflowId st) (rs_parent st) (clk (wo_clock w1)) st)
            (w1\<lparr>wo_clock := Suc (wo_clock w1)\<rparr>)),
     ro_delete = ro_delete inner\<rparr>"

section \<open>The writer of node state\<close>

definition unknown_run :: "run_id \<Rightarrow> js_error" where
  "unknown_run r = plain_error (''Unknown runId: '' @ r)"

definition load_state :: "'w world_scheme repo_ops \<Rightarrow> run_id \<Rightarrow> (run_state, 'w world_scheme) engine_action" where
  "load_state ops r w = expect_do (ro_load ops r w) (unknown_run r) w"

definition save_snapshot :: "'w world_scheme repo_ops \<Rightarrow> run_state \<Rightarrow> node_snapshot \<Rightarrow> (unit, 'w world_scheme) engine_action" where
  "save_snapshot ops st snap =
    update_do (ro_save ops (st\<lparr>rs_nodeSnapshotsByNodeId := jset (ns_nodeId snap) snap (rs_nodeSnapshotsByNodeId st)\<rparr>))"

definition publish_node :: "node_event_kind \<Rightarrow> node_snapshot \<Rightarrow> (unit, 'w world_scheme) engine_action" where
  "publish_node k snap = update_do (publish_event (node_event k snap))"

definition publish_invocation :: "parent_ref option \<Rightarrow> connection_invocation \<Rightarrow> (unit, 'w world_scheme) engine_action" where
  "publish_invocation parent r =
    update_do (\<lambda>w. case invocation_event parent r of None \<Rightarrow> w | Some ev \<Rightarrow> publish_event ev w)"

text \<open>
  All marks have one shape: load the run, take the time, make the snapshot from the previous one, save it and
  announce it.
\<close>

definition write_snapshot ::
  "'w world_scheme repo_ops \<Rightarrow> clock \<Rightarrow> snapshot_scope \<Rightarrow> node_id \<Rightarrow> node_event_kind
    \<Rightarrow> (node_snapshot option \<Rightarrow> iso_time \<Rightarrow> node_snapshot) \<Rightarrow> (unit, 'w world_scheme) engine_action" where
  "write_snapshot ops clk sc n kind mk =
    then_do (load_state ops (sc_runId sc)) (\<lambda>st.
    then_do (now_do clk) (\<lambda>t.
      let snap = mk (jget (rs_nodeSnapshotsByNodeId st) n) t
      in after_do (save_snapshot ops st snap) (publish_node kind snap)))"

definition resolve_activation :: "activation_id option \<Rightarrow> node_snapshot option \<Rightarrow> node_id \<Rightarrow> activation_id" where
  "resolve_activation act prev n = opt_or (opt_else act (Option.bind prev ns_activationId)) (synthetic_activation n)"

definition resolve_inputs :: "inputs_by_port option \<Rightarrow> node_snapshot option \<Rightarrow> inputs_by_port" where
  "resolve_inputs inputs prev = opt_or (opt_else inputs (Option.bind prev ns_inputsByPort)) empty_inputs"

definition mark_queued where
  "mark_queued ops clk sc n act inputs =
    write_snapshot ops clk sc n NodeQueuedEvent (\<lambda>prev t.
      snapshot_queued sc n (resolve_activation act prev n) t (resolve_inputs inputs prev))"

definition mark_running where
  "mark_running ops clk sc n act inputs =
    write_snapshot ops clk sc n NodeStartedEvent (\<lambda>prev t.
      snapshot_running prev sc n (resolve_activation act prev n) t (resolve_inputs inputs prev))"

definition mark_completed where
  "mark_completed ops clk sc n act inputs outputs =
    write_snapshot ops clk sc n NodeCompletedEvent (\<lambda>prev t.
      snapshot_completed prev sc n (resolve_activation act prev n) t (resolve_inputs inputs prev)
        (opt_or (opt_else outputs (Option.bind prev ns_outputs)) []) False None)"

definition mark_failed where
  "mark_failed ops clk sc n act inputs e =
    write_snapshot ops clk sc n NodeFailedEvent (\<lambda>prev t.
      snapshot_failed prev sc n (resolve_activation act prev n) t (resolve_inputs inputs prev) e)"

definition set_child_run_id ::
  "'w world_scheme repo_ops \<Rightarrow> snapshot_scope \<Rightarrow> node_id \<Rightarrow> run_id \<Rightarrow> (unit, 'w world_scheme) engine_action" where
  "set_child_run_id ops sc n child =
    then_do (load_state ops (sc_runId sc)) (\<lambda>st.
      case jget (rs_nodeSnapshotsByNodeId st) n of
        None \<Rightarrow> return_do ()
      | Some prev \<Rightarrow> save_snapshot ops st (prev\<lparr>ns_childRunId := Some child\<rparr>))"

definition invocation_record :: "snapshot_scope \<Rightarrow> invocation_append_args \<Rightarrow> iso_time \<Rightarrow> connection_invocation" where
  "invocation_record sc a updatedAt =
    \<lparr>ci_invocationId = ia_invocationId a, ci_runId = sc_runId sc, ci_workflowId = sc_workflowId sc,
     ci_connectionNodeId = ia_connectionNodeId a, ci_parentAgentNodeId = ia_parentAgentNodeId a,
     ci_parentAgentActivationId = ia_parentAgentActivationId a, ci_status = ia_status a,
     ci_managedInput = ia_managedInput a, ci_managedOutput = ia_managedOutput a, ci_statusLabel = ia_statusLabel a,
     ci_subjectName = ia_subjectName a, ci_error = ia_error a, ci_queuedAt = ia_queuedAt a,
     ci_startedAt = ia_startedAt a, ci_finishedAt = ia_finishedAt a, ci_updatedAt = updatedAt,
     ci_iterationId = ia_iterationId a, ci_itemIndex = ia_itemIndex a, ci_parentInvocationId = ia_parentInvocationId a\<rparr>"

definition append_connection_invocation ::
  "'w world_scheme repo_ops \<Rightarrow> clock \<Rightarrow> snapshot_scope \<Rightarrow> invocation_append_args \<Rightarrow> (unit, 'w world_scheme) engine_action" where
  "append_connection_invocation ops clk sc a =
    then_do (load_state ops (sc_runId sc)) (\<lambda>st.
    then_do (now_do clk) (\<lambda>updatedAt.
      let r = invocation_record sc a updatedAt
      in after_do
           (update_do (ro_save ops (st\<lparr>rs_connectionInvocations := Some (opt_or (rs_connectionInvocations st) [] @ [r])\<rparr>)))
           (publish_invocation (sc_parent sc) r)))"

text \<open>
  The promise chain of a writer runs its operations one after the other, in the order of the calls; an
  operation that fails rejects its own promise and does not stop the later ones.
\<close>

datatype writer_op =
    MarkQueued node_id "activation_id option" "inputs_by_port option"
  | MarkRunning node_id "activation_id option" "inputs_by_port option"
  | MarkCompleted node_id "activation_id option" "inputs_by_port option" "node_outputs option"
  | MarkFailed node_id "activation_id option" "inputs_by_port option" js_error
  | SetChildRunId node_id run_id
  | AppendInvocation invocation_append_args

fun writer_step :: "'w world_scheme repo_ops \<Rightarrow> clock \<Rightarrow> snapshot_scope \<Rightarrow> writer_op \<Rightarrow> (unit, 'w world_scheme) engine_action" where
  "writer_step ops clk sc (MarkQueued n act i) = mark_queued ops clk sc n act i"
| "writer_step ops clk sc (MarkRunning n act i) = mark_running ops clk sc n act i"
| "writer_step ops clk sc (MarkCompleted n act i outs) = mark_completed ops clk sc n act i outs"
| "writer_step ops clk sc (MarkFailed n act i e) = mark_failed ops clk sc n act i e"
| "writer_step ops clk sc (SetChildRunId n c) = set_child_run_id ops sc n c"
| "writer_step ops clk sc (AppendInvocation a) = append_connection_invocation ops clk sc a"

fun writer_chain ::
  "'w world_scheme repo_ops \<Rightarrow> clock \<Rightarrow> snapshot_scope \<Rightarrow> writer_op list \<Rightarrow> 'w world_scheme
    \<Rightarrow> (js_error + unit) list \<times> 'w world_scheme" where
  "writer_chain ops clk sc [] w = ([], w)"
| "writer_chain ops clk sc (x # xs) w =
    (let (r, w1) = writer_step ops clk sc x w; (rs, w2) = writer_chain ops clk sc xs w1 in (r # rs, w2))"

section \<open>What a repository promises\<close>

locale run_repository =
  fixes ops :: "'w world_scheme repo_ops"
  assumes load_create: "ro_load ops r (ro_create ops a w) =
      (if r = ca_runId a then Some (initial_run_state a) else ro_load ops r w)"
    and load_save: "ro_load ops r (ro_save ops st w) = (if r = rs_runId st then Some (bump_revision st) else ro_load ops r w)"
    and load_delete: "ro_load ops r (ro_delete ops r' w) = (if r = r' then None else ro_load ops r w)"
    and load_publish: "ro_load ops r (publish_event ev w) = ro_load ops r w"
    and load_clock: "ro_load ops r (w\<lparr>wo_clock := c\<rparr>) = ro_load ops r w"

interpretation memory: run_repository memory_ops
  by unfold_locales
     (simp_all add: memory_ops_def create_run_def load_run_def save_run_def delete_run_def publish_event_def)

interpretation publishing: run_repository "publishing_ops clk memory_ops"
  by unfold_locales
     (simp_all add: publishing_ops_def Let_def memory.load_create memory.load_save memory.load_delete memory.load_publish
        memory.load_clock)

text \<open>Every run is stored under its own id.\<close>

definition keyed_runs :: "'w world_scheme repo_ops \<Rightarrow> 'w world_scheme \<Rightarrow> bool" where
  "keyed_runs ops w = (\<forall>r st. ro_load ops r w = Some st \<longrightarrow> rs_runId st = r)"

lemma bump_revision_sel [simp]:
  "rs_runId (bump_revision st) = rs_runId st"
  "rs_nodeSnapshotsByNodeId (bump_revision st) = rs_nodeSnapshotsByNodeId st"
  "rs_connectionInvocations (bump_revision st) = rs_connectionInvocations st"
  "rs_status (bump_revision st) = rs_status st" "rs_pending (bump_revision st) = rs_pending st"
  "rs_queue (bump_revision st) = rs_queue st" "rs_outputsByNode (bump_revision st) = rs_outputsByNode st"
  by (simp_all add: bump_revision_def)

section \<open>What a writer does to a run\<close>

text \<open>The parts of a run state a writer may touch are the snapshots, the invocations and the revision.\<close>

definition same_core :: "run_state \<Rightarrow> run_state \<Rightarrow> bool" where
  "same_core st st' = (\<exists>S C R. st' = st\<lparr>rs_nodeSnapshotsByNodeId := S, rs_connectionInvocations := C, rs_revision := R\<rparr>)"

lemma same_core_refl [simp]: "same_core st st"
  unfolding same_core_def by (intro exI [of _ "rs_nodeSnapshotsByNodeId st"] exI [of _ "rs_connectionInvocations st"] exI [of _ "rs_revision st"]) simp

lemma same_core_trans: "same_core st st1 \<Longrightarrow> same_core st1 st2 \<Longrightarrow> same_core st st2"
  unfolding same_core_def by (elim exE) (intro exI, simp)

lemma same_core_sel:
  assumes "same_core st st'"
  shows "rs_runId st' = rs_runId st" "rs_status st' = rs_status st" "rs_pending st' = rs_pending st"
    "rs_queue st' = rs_queue st" "rs_outputsByNode st' = rs_outputsByNode st" "rs_suspension st' = rs_suspension st"
    "rs_reason st' = rs_reason st" "rs_engineCounters st' = rs_engineCounters st"
  using assms by (auto simp: same_core_def)

lemma same_core_bump_snapshots [simp]:
  "same_core st (bump_revision (st\<lparr>rs_nodeSnapshotsByNodeId := S\<rparr>))"
  unfolding same_core_def bump_revision_def
  by (intro exI [of _ S] exI [of _ "rs_connectionInvocations st"] exI) simp

lemma same_core_bump_invocations [simp]:
  "same_core st (bump_revision (st\<lparr>rs_connectionInvocations := C\<rparr>))"
  unfolding same_core_def bump_revision_def
  by (intro exI [of _ "rs_nodeSnapshotsByNodeId st"] exI [of _ C] exI) simp

definition snapshots_keyed :: "run_state \<Rightarrow> bool" where
  "snapshots_keyed st = (\<forall>n s. jget (rs_nodeSnapshotsByNodeId st) n = Some s \<longrightarrow> ns_nodeId s = n)"

definition node_status_in :: "run_state \<Rightarrow> node_id \<Rightarrow> node_status option" where
  "node_status_in st n = map_option ns_status (jget (rs_nodeSnapshotsByNodeId st) n)"

fun marked_status :: "node_id \<Rightarrow> writer_op list \<Rightarrow> node_status option \<Rightarrow> node_status option" where
  "marked_status n [] s = s"
| "marked_status n (MarkQueued m _ _ # xs) s = marked_status n xs (if m = n then Some NsQueued else s)"
| "marked_status n (MarkRunning m _ _ # xs) s = marked_status n xs (if m = n then Some NsRunning else s)"
| "marked_status n (MarkCompleted m _ _ _ # xs) s = marked_status n xs (if m = n then Some NsCompleted else s)"
| "marked_status n (MarkFailed m _ _ _ # xs) s = marked_status n xs (if m = n then Some NsFailed else s)"
| "marked_status n (_ # xs) s = marked_status n xs s"

fun appended_invocations :: "writer_op list \<Rightarrow> string list" where
  "appended_invocations [] = []"
| "appended_invocations (AppendInvocation a # xs) = ia_invocationId a # appended_invocations xs"
| "appended_invocations (_ # xs) = appended_invocations xs"

definition invocation_ids :: "run_state \<Rightarrow> string list" where
  "invocation_ids st = map ci_invocationId (opt_or (rs_connectionInvocations st) [])"

text \<open>The effect of writer operations on the run they write to and on the other runs.\<close>

definition written ::
  "'w world_scheme repo_ops \<Rightarrow> run_id \<Rightarrow> writer_op list \<Rightarrow> run_state \<Rightarrow> 'w world_scheme \<Rightarrow> 'w world_scheme \<Rightarrow> bool" where
  "written ops runId xs st w w' =
    (\<exists>st'. ro_load ops runId w' = Some st' \<and> same_core st st' \<and> snapshots_keyed st'
       \<and> (\<forall>n. node_status_in st' n = marked_status n xs (node_status_in st n))
       \<and> invocation_ids st' = invocation_ids st @ appended_invocations xs
       \<and> (\<forall>r. r \<noteq> runId \<longrightarrow> ro_load ops r w' = ro_load ops r w))"

context run_repository
begin

lemma write_snapshot_eval:
  assumes "ro_load ops (sc_runId sc) w = Some st" "rs_runId st = sc_runId sc"
    and "\<And>prev t. ns_nodeId (mk prev t) = n"
  shows "\<exists>w'. write_snapshot ops clk sc n kind mk w = (Inr (), w') \<and>
    (\<forall>r. ro_load ops r w' = (if r = sc_runId sc
       then Some (bump_revision (st\<lparr>rs_nodeSnapshotsByNodeId :=
              jset n (mk (jget (rs_nodeSnapshotsByNodeId st) n) (clk (wo_clock w))) (rs_nodeSnapshotsByNodeId st)\<rparr>))
       else ro_load ops r w))"
  using assms
  by (simp add: write_snapshot_def load_state_def expect_do_def then_do_def now_do_def save_snapshot_def publish_node_def
      update_do_def Let_def load_publish load_save load_clock)

lemma written_snapshot:
  assumes "ro_load ops (sc_runId sc) w = Some st" "rs_runId st = sc_runId sc" "snapshots_keyed st"
    and "\<And>prev t. ns_nodeId (mk prev t) = n" "\<And>prev t. ns_status (mk prev t) = s"
    and "\<And>m old. marked_status m [x] old = (if n = m then Some s else old)" "appended_invocations [x] = []"
  shows "\<exists>w'. write_snapshot ops clk sc n kind mk w = (Inr (), w') \<and> written ops (sc_runId sc) [x] st w w'"
proof -
  obtain w' where w': "write_snapshot ops clk sc n kind mk w = (Inr (), w')"
    "\<forall>r. ro_load ops r w' = (if r = sc_runId sc
       then Some (bump_revision (st\<lparr>rs_nodeSnapshotsByNodeId :=
              jset n (mk (jget (rs_nodeSnapshotsByNodeId st) n) (clk (wo_clock w))) (rs_nodeSnapshotsByNodeId st)\<rparr>))
       else ro_load ops r w)"
    using write_snapshot_eval [where mk = mk and n = n and clk = clk and kind = kind, OF assms(1,2)] assms(4) by blast
  have "written ops (sc_runId sc) [x] st w w'"
    unfolding written_def w'(2) [rule_format]
    using assms(3) by (simp add: node_status_in_def invocation_ids_def assms(4-7) snapshots_keyed_def)
  thus ?thesis using w'(1) by blast
qed

lemma written_child_run:
  assumes "ro_load ops (sc_runId sc) w = Some st" "rs_runId st = sc_runId sc" "snapshots_keyed st"
  shows "\<exists>w'. set_child_run_id ops sc n child w = (Inr (), w') \<and> written ops (sc_runId sc) [SetChildRunId n child] st w w'"
proof (cases "jget (rs_nodeSnapshotsByNodeId st) n")
  case None
  thus ?thesis using assms
    by (simp add: set_child_run_id_def load_state_def expect_do_def then_do_def return_do_def written_def)
next
  case (Some prev)
  let ?st = "st\<lparr>rs_nodeSnapshotsByNodeId := jset n (prev\<lparr>ns_childRunId := Some child\<rparr>) (rs_nodeSnapshotsByNodeId st)\<rparr>"
  have n: "ns_nodeId prev = n" using assms(3) Some by (simp add: snapshots_keyed_def)
  hence "set_child_run_id ops sc n child w = (Inr (), ro_save ops ?st w)"
    using assms(1) Some
    by (simp add: set_child_run_id_def load_state_def expect_do_def then_do_def save_snapshot_def update_do_def)
  moreover have "written ops (sc_runId sc) [SetChildRunId n child] st w (ro_save ops ?st w)"
    unfolding written_def load_save
    using assms(2,3) n Some by (simp add: node_status_in_def invocation_ids_def snapshots_keyed_def)
  ultimately show ?thesis by blast
qed

lemma written_step:
  assumes "ro_load ops (sc_runId sc) w = Some st" "rs_runId st = sc_runId sc" "snapshots_keyed st"
  shows "\<exists>w'. writer_step ops clk sc x w = (Inr (), w') \<and> written ops (sc_runId sc) [x] st w w'"
proof (cases x)
  case (SetChildRunId n child)
  thus ?thesis using written_child_run [OF assms] by simp
next
  case (AppendInvocation a)
  thus ?thesis using assms
    by (simp add: append_connection_invocation_def load_state_def expect_do_def then_do_def now_do_def update_do_def
        publish_invocation_def Let_def written_def load_publish load_save load_clock node_status_in_def invocation_ids_def
        invocation_record_def snapshots_keyed_def split: option.split)
qed (simp_all add: mark_queued_def mark_running_def mark_completed_def mark_failed_def snapshot_queued_def
       snapshot_running_def snapshot_completed_def snapshot_failed_def
       written_snapshot [OF assms])

lemma marked_status_Cons: "marked_status n (x # xs) s = marked_status n xs (marked_status n [x] s)"
  by (cases x) simp_all

lemma appended_invocations_Cons: "appended_invocations (x # xs) = appended_invocations [x] @ appended_invocations xs"
  by (cases x) simp_all

lemma written_chain:
  assumes "ro_load ops (sc_runId sc) w = Some st" "rs_runId st = sc_runId sc" "snapshots_keyed st"
  shows "\<exists>w'. writer_chain ops clk sc xs w = (replicate (length xs) (Inr ()), w') \<and> written ops (sc_runId sc) xs st w w'"
  using assms
proof (induction xs arbitrary: w st)
  case Nil
  thus ?case by (simp add: written_def)
next
  case (Cons x xs)
  obtain w1 where w1: "writer_step ops clk sc x w = (Inr (), w1)" "written ops (sc_runId sc) [x] st w w1"
    using written_step [OF Cons.prems] by blast
  obtain st1 where st1: "ro_load ops (sc_runId sc) w1 = Some st1" "same_core st st1" "snapshots_keyed st1"
    "\<forall>n. node_status_in st1 n = marked_status n [x] (node_status_in st n)"
    "invocation_ids st1 = invocation_ids st @ appended_invocations [x]"
    "\<forall>r. r \<noteq> sc_runId sc \<longrightarrow> ro_load ops r w1 = ro_load ops r w"
    using w1(2) unfolding written_def by (elim exE conjE) (rule that)
  have r1: "rs_runId st1 = sc_runId sc" using same_core_sel(1) [OF st1(2)] Cons.prems(2) by simp
  obtain w2 where w2: "writer_chain ops clk sc xs w1 = (replicate (length xs) (Inr ()), w2)"
    "written ops (sc_runId sc) xs st1 w1 w2"
    using Cons.IH [OF st1(1) r1 st1(3)] by blast
  obtain st2 where st2: "ro_load ops (sc_runId sc) w2 = Some st2" "same_core st1 st2" "snapshots_keyed st2"
    "\<forall>n. node_status_in st2 n = marked_status n xs (node_status_in st1 n)"
    "invocation_ids st2 = invocation_ids st1 @ appended_invocations xs"
    "\<forall>r. r \<noteq> sc_runId sc \<longrightarrow> ro_load ops r w2 = ro_load ops r w1"
    using w2(2) unfolding written_def by (elim exE conjE) (rule that)
  have "written ops (sc_runId sc) (x # xs) st w w2"
    unfolding written_def
  proof (intro exI conjI allI impI)
    show "ro_load ops (sc_runId sc) w2 = Some st2" by (rule st2(1))
    show "same_core st st2" by (rule same_core_trans [OF st1(2) st2(2)])
    show "snapshots_keyed st2" by (rule st2(3))
    show "node_status_in st2 n = marked_status n (x # xs) (node_status_in st n)" for n
      unfolding marked_status_Cons [of n x xs] using st1(4) st2(4) by simp
    show "invocation_ids st2 = invocation_ids st @ appended_invocations (x # xs)"
      unfolding appended_invocations_Cons [of x xs] using st1(5) st2(5) by simp
    show "ro_load ops r w2 = ro_load ops r w" if "r \<noteq> sc_runId sc" for r using that st1(6) st2(6) by simp
  qed
  thus ?case using w1(1) w2(1) by simp
qed

text \<open>A writer of a run that does not exist writes nothing: every operation fails with the same error.\<close>

lemma writer_step_unknown:
  "ro_load ops (sc_runId sc) w = None \<Longrightarrow> writer_step ops clk sc x w = (Inl (unknown_run (sc_runId sc)), w)"
  by (cases x) (simp_all add: mark_queued_def mark_running_def mark_completed_def mark_failed_def write_snapshot_def
      set_child_run_id_def append_connection_invocation_def load_state_def expect_do_def then_do_def)

lemma writer_chain_unknown:
  "ro_load ops (sc_runId sc) w = None \<Longrightarrow>
    writer_chain ops clk sc xs w = (replicate (length xs) (Inl (unknown_run (sc_runId sc))), w)"
  by (induction xs) (simp_all add: writer_step_unknown)

end

section \<open>Properties of the writer\<close>


section \<open>Runs due for pruning\<close>

definition codes :: "string \<Rightarrow> nat list" where
  "codes = map of_char"

lemma string_less_lexord: "string_less a b \<longleftrightarrow> (codes a, codes b) \<in> lexord {(x, y). x < y}"
  by (induction a b rule: string_less.induct) (auto simp: codes_def)

lemma string_less_irrefl [simp]: "\<not> string_less a a"
  by (induction a) auto

lemma string_less_trans: "string_less a b \<Longrightarrow> string_less b c \<Longrightarrow> string_less a c"
  unfolding string_less_lexord by (rule lexord_trans) (auto simp: trans_def)

lemma codes_inj: "codes a = codes b \<Longrightarrow> a = b"
  unfolding codes_def by (metis inj_of_char inj_map_eq_map)

lemma string_less_total: "\<not> string_less a b \<Longrightarrow> \<not> string_less b a \<Longrightarrow> a = b"
proof -
  assume "\<not> string_less a b" "\<not> string_less b a"
  moreover have "(codes a, codes b) \<in> lexord {(x, y). x < y} \<or> codes a = codes b \<or> (codes b, codes a) \<in> lexord {(x, y). x < y}"
    by (rule lexord_linear) auto
  ultimately show ?thesis unfolding string_less_lexord using codes_inj by blast
qed

lemma string_not_less_trans: "\<not> string_less b a \<Longrightarrow> \<not> string_less c b \<Longrightarrow> \<not> string_less c a"
  by (metis string_less_total string_less_trans)

lemma mset_insert_stable [simp]: "mset (insert_stable before x xs) = add_mset x (mset xs)"
  by (induction xs) auto

lemma mset_stable_sort [simp]: "mset (stable_sort before xs) = mset xs"
  by (induction xs) (simp_all add: stable_sort_def)

lemma set_stable_sort [simp]: "set (stable_sort before xs) = set xs"
  by (metis mset_stable_sort set_mset_mset)

lemma length_stable_sort [simp]: "length (stable_sort before xs) = length xs"
  by (metis mset_stable_sort size_mset)

lemma sorted_insert_stable:
  assumes "sorted_wrt (\<lambda>a b. \<not> string_less (key b) (key a)) xs"
  shows "sorted_wrt (\<lambda>a b. \<not> string_less (key b) (key a)) (insert_stable (\<lambda>a b. string_less (key a) (key b)) x xs)"
  using assms
proof (induction xs)
  case (Cons y ys)
  have set_ins: "set (insert_stable (\<lambda>a b. string_less (key a) (key b)) x ys) = insert x (set ys)"
    by (metis mset_insert_stable set_mset_add_mset_insert set_mset_mset)
  show ?case
  proof (cases "string_less (key y) (key x)")
    case True
    hence "\<not> string_less (key x) (key y)" using string_less_trans string_less_irrefl by blast
    thus ?thesis using Cons True by (simp add: set_ins)
  next
    case False
    have "\<not> string_less (key z) (key x)" if "z \<in> set ys" for z
      using Cons.prems that False string_not_less_trans [of "key y" "key x" "key z"] by simp
    thus ?thesis using Cons.prems False by simp
  qed
qed simp

lemma sorted_stable_sort:
  "sorted_wrt (\<lambda>a b. \<not> string_less (key b) (key a)) (stable_sort (\<lambda>a b. string_less (key a) (key b)) xs)"
  by (induction xs) (simp_all add: stable_sort_def sorted_insert_stable)

lemma set_map_filter_iff: "c \<in> set (List.map_filter f xs) \<longleftrightarrow> (\<exists>x \<in> set xs. f x = Some c)"
  by (induction xs) (auto simp: List.map_filter_simps split: option.split)

text \<open>A run is due when it has completed or failed and ended before the cutoff of its retention time.\<close>

definition due_for_pruning :: "(iso_time \<Rightarrow> int \<Rightarrow> iso_time) \<Rightarrow> iso_time \<Rightarrow> int \<Rightarrow> run_state \<Rightarrow> bool" where
  "due_for_pruning before nowIso defaultRetention st =
    (rs_status st \<in> {RunCompleted, RunFailed} \<and>
     (\<exists>f. resolve_finishedAt st = Some f \<and> f \<noteq> [] \<and>
        string_less f (before nowIso (opt_or (Option.bind (rs_policySnapshot st) ps_retentionSeconds) defaultRetention))))"

lemma prune_candidate_iff:
  "(prune_candidate_of before nowIso dr st = Some c) \<longleftrightarrow>
    due_for_pruning before nowIso dr st \<and> pc_runId c = rs_runId st \<and> pc_workflowId c = rs_workflowId st \<and>
    pc_startedAt c = rs_startedAt st \<and> Some (pc_finishedAt c) = resolve_finishedAt st"
  by (cases c) (auto simp: prune_candidate_of_def due_for_pruning_def Let_def split: option.split)

text \<open>The prune listing is sound, ordered and takes the oldest first: every candidate is a stored run that
  completed or failed and ended before the cutoff of its own retention time; the candidates come in the order of
  their end; and as long as there is room every due run is listed, else each one left out ended no earlier
  than those listed.\<close>

theorem prune_lists_oldest_due:
  fixes w :: "'w world_scheme"
  shows "let L = list_runs_older_than before nowIso dr limit w in (\<forall>c \<in> set L. \<exists>r st. (r, st) \<in> set (wo_runs w) \<and> due_for_pruning before nowIso dr st \<and> pc_runId c = rs_runId st
        \<and> Some (pc_finishedAt c) = resolve_finishedAt st)
    \<and> sorted_wrt (\<lambda>a b. \<not> string_less (pc_finishedAt b) (pc_finishedAt a)) L
    \<and> length L \<le> opt_or limit 100
    \<and> (\<forall>(r, st) \<in> set (wo_runs w). due_for_pruning before nowIso dr st \<longrightarrow>
        (\<exists>c \<in> set L. pc_runId c = rs_runId st) \<or>
        (length L = opt_or limit 100 \<and> (\<forall>c \<in> set L. \<not> string_less (the (resolve_finishedAt st)) (pc_finishedAt c))))"
proof -
  define L where "L = list_runs_older_than before nowIso dr limit w"
  let ?C = "List.map_filter (prune_candidate_of before nowIso dr) (map snd (wo_runs w))"
  let ?S = "stable_sort (\<lambda>a b. string_less (pc_finishedAt a) (pc_finishedAt b)) ?C"
  let ?n = "opt_or limit 100"
  have L: "L = take ?n ?S" by (simp add: L_def list_runs_older_than_def)
  have mem: "c \<in> set ?S \<longleftrightarrow> (\<exists>r st. (r, st) \<in> set (wo_runs w) \<and> prune_candidate_of before nowIso dr st = Some c)" for c
    by (simp add: set_map_filter_iff image_iff) (metis prod.collapse snd_conv)
  have sorted: "sorted_wrt (\<lambda>a b. \<not> string_less (pc_finishedAt b) (pc_finishedAt a)) ?S" by (rule sorted_stable_sort)
  have sound: "\<forall>c \<in> set L. \<exists>r st. (r, st) \<in> set (wo_runs w) \<and> due_for_pruning before nowIso dr st \<and> pc_runId c = rs_runId st
        \<and> Some (pc_finishedAt c) = resolve_finishedAt st"
    using mem in_set_takeD [of _ ?n ?S] unfolding L prune_candidate_iff by blast
  have complete: "(\<exists>c \<in> set L. pc_runId c = rs_runId st) \<or>
        (length L = ?n \<and> (\<forall>c \<in> set L. \<not> string_less (the (resolve_finishedAt st)) (pc_finishedAt c)))"
    if run: "(r, st) \<in> set (wo_runs w)" and due: "due_for_pruning before nowIso dr st" for r st
  proof -
    obtain f where f: "resolve_finishedAt st = Some f" using due by (auto simp: due_for_pruning_def)
    let ?c = "\<lparr>pc_runId = rs_runId st, pc_workflowId = rs_workflowId st, pc_startedAt = rs_startedAt st, pc_finishedAt = f\<rparr>"
    have c: "?c \<in> set ?S" unfolding mem using run due f by (intro exI conjI) (assumption, simp add: prune_candidate_iff)
    show ?thesis
    proof (cases "?c \<in> set L")
      case True
      thus ?thesis by (intro disjI1 bexI [of _ ?c]) simp_all
    next
      case False
      have split: "?S = L @ drop ?n ?S" by (simp add: L)
      have d: "?c \<in> set (drop ?n ?S)" using c False split by (metis Un_iff set_append)
      hence "?n < length ?S" by (cases "?n < length ?S") auto
      hence "length L = ?n" by (simp add: L)
      moreover have "\<forall>x \<in> set L. \<not> string_less (pc_finishedAt ?c) (pc_finishedAt x)"
        using sorted d split by (metis (no_types, lifting) sorted_wrt_append)
      ultimately show ?thesis using f by simp
    qed
  qed
  show ?thesis
    unfolding L_def [symmetric] Let_def
  proof (intro conjI)
    show "sorted_wrt (\<lambda>a b. \<not> string_less (pc_finishedAt b) (pc_finishedAt a)) L"
      unfolding L by (rule sorted_wrt_take [OF sorted])
    show "length L \<le> ?n" by (simp add: L)
    show "\<forall>(r, st) \<in> set (wo_runs w). due_for_pruning before nowIso dr st \<longrightarrow>
        (\<exists>c \<in> set L. pc_runId c = rs_runId st) \<or>
        (length L = ?n \<and> (\<forall>c \<in> set L. \<not> string_less (the (resolve_finishedAt st)) (pc_finishedAt c)))"
      using complete by blast
  qed (rule sound)
qed

section \<open>Witnesses\<close>

definition sample_create :: create_run_args where
  "sample_create =
    \<lparr>ca_runId = ''r'', ca_workflowId = ''wf'', ca_startedAt = ''2026-01-01'', ca_parent = None, ca_executionOptions = None,
     ca_control = None, ca_workflowSnapshot = None, ca_mutableState = None, ca_policySnapshot = None, ca_engineCounters = None\<rparr>"

definition sample_run :: run_state where
  "sample_run = initial_run_state sample_create"

definition sample_world :: world where
  "sample_world = create_run sample_create \<lparr>wo_runs = [], wo_events = Some [], wo_clock = 0\<rparr>"


lemma prune_lists_oldest_due_witness:
  "\<exists>c \<in> set (list_runs_older_than (\<lambda>t _. t) ''2027'' 0 None
      \<lparr>wo_runs = [(''r'', sample_run\<lparr>rs_status := RunCompleted, rs_finishedAt := Some ''2026''\<rparr>)], wo_events = None, wo_clock = 0\<rparr>).
    pc_runId c = ''r''"
proof -
  let ?st = "sample_run\<lparr>rs_status := RunCompleted, rs_finishedAt := Some ''2026''\<rparr>"
  let ?w = "\<lparr>wo_runs = [(''r'', ?st)], wo_events = None, wo_clock = 0\<rparr>"
  have due: "due_for_pruning (\<lambda>t _. t) ''2027'' 0 ?st"
    by (simp add: due_for_pruning_def resolve_finishedAt_def truthy_string_def)
  have one: "length (list_runs_older_than (\<lambda>t _. t) ''2027'' 0 None ?w) \<noteq> 100"
    by (simp add: list_runs_older_than_def List.map_filter_simps split: option.split)
  have id: "rs_runId ?st = ''r''" by (simp add: sample_run_def initial_run_state_def sample_create_def)
  from prune_lists_oldest_due [of "\<lambda>t _. t" "''2027''" 0 None ?w] due one id show ?thesis
    by (auto simp: Let_def)
qed

lemma terminal_deletion_witness:
  "jget [(''x'', sample_run)] ''r'' = None \<and>
    maybe_delete_after_terminal (\<lambda>_ _. Inr True) (Some jremove) (sample_workflow\<lparr>wf_storagePolicy := Some (StorageMode StoreNever)\<rparr>)
      sample_run FinalCompleted ''t'' [(''r'', sample_run), (''x'', sample_run)] = Inr [(''x'', sample_run)]"
proof -
  have run: "maybe_delete_after_terminal (\<lambda>_ _. Inr True) (Some jremove)
      (sample_workflow\<lparr>wf_storagePolicy := Some (StorageMode StoreNever)\<rparr>)
      sample_run FinalCompleted ''t'' [(''r'', sample_run), (''x'', sample_run)] = Inr [(''x'', sample_run)]"
    by (simp add: maybe_delete_after_terminal_def should_persist_def sample_run_def initial_run_state_def sample_create_def)
  from terminal_deletion [OF run, of "''r''"] run show ?thesis
    by (simp add: sample_run_def initial_run_state_def sample_create_def)
qed

end
