(* ===== verification/Scheduling.thy ===== *)
theory Scheduling
  imports Repository
begin

text \<open>
  From a planned activation to a dispatched job: the fan-in merge of several inputs
  (\<open>FanInMergeByOriginMerger\<close>), the input check before a job is stored (\<open>NodeActivationRequestInputPreparer\<close>),
  the composition of requests (\<open>NodeActivationRequestComposer\<close>), the choice between the inline and the worker
  scheduler (\<open>scheduler/\<close>), the per-run queues of the inline scheduler (\<open>InlineDrivingScheduler\<close>), storing and
  dispatching an activation (\<open>ActivationEnqueueService\<close>), and the promises of \<open>EngineWaiters\<close>.  Of an execution
  context the model keeps what the engine itself reads; telemetry, binary storage and credentials are left
  out.  Parameters: the clock, the source of activation ids, the node instances, the schemas, the locale's
  string comparison and the worker queue.
\<close>

section \<open>Requests\<close>

record base_context =
  bc_runId :: run_id
  bc_workflowId :: workflow_id
  bc_parent :: "parent_ref option"
  bc_policySnapshot :: "policy_snapshot option"
  bc_subworkflowDepth :: int
  bc_engineMaxNodeActivations :: int
  bc_engineMaxSubworkflowDepth :: int
  bc_testContext :: "test_context option"
  bc_resumeContext :: "resume_context option"

record node_context =
  nx_base :: base_context
  nx_data :: run_data
  nx_nodeId :: node_id
  nx_activationId :: activation_id
  nx_config :: node_config

datatype activation_input = SingleInput items | MultiInput inputs_by_port

record activation_request =
  ar_runId :: run_id
  ar_activationId :: activation_id
  ar_workflowId :: workflow_id
  ar_nodeId :: node_id
  ar_parent :: "parent_ref option"
  ar_executionOptions :: "execution_options option"
  ar_batchId :: string
  ar_input :: activation_input
  ar_ctx :: node_context

definition create_node_context :: "base_context \<Rightarrow> run_data \<Rightarrow> node_id \<Rightarrow> node_config \<Rightarrow> activation_id \<Rightarrow> node_context" where
  "create_node_context base data n config act =
    \<lparr>nx_base = base, nx_data = data, nx_nodeId = n, nx_activationId = act, nx_config = config\<rparr>"

text \<open>The run-level arguments every request is made from.\<close>

record request_scope =
  rq_runId :: run_id
  rq_workflowId :: workflow_id
  rq_parent :: "parent_ref option"
  rq_executionOptions :: "execution_options option"
  rq_base :: base_context
  rq_data :: run_data

definition make_request ::
  "request_scope \<Rightarrow> node_id \<Rightarrow> node_config \<Rightarrow> string \<Rightarrow> activation_input \<Rightarrow> activation_id \<Rightarrow> activation_request" where
  "make_request rq n config batchId input act =
    \<lparr>ar_runId = rq_runId rq, ar_activationId = act, ar_workflowId = rq_workflowId rq, ar_nodeId = n,
     ar_parent = rq_parent rq, ar_executionOptions = rq_executionOptions rq, ar_batchId = batchId, ar_input = input,
     ar_ctx = create_node_context (rq_base rq) (rq_data rq) n config act\<rparr>"

definition create_single_with_activation ::
  "request_scope \<Rightarrow> node_id \<Rightarrow> node_config \<Rightarrow> string \<Rightarrow> items \<Rightarrow> activation_id \<Rightarrow> activation_request" where
  "create_single_with_activation rq n config batchId input act = make_request rq n config batchId (SingleInput input) act"

definition create_multi_with_activation ::
  "request_scope \<Rightarrow> node_id \<Rightarrow> node_config \<Rightarrow> string \<Rightarrow> inputs_by_port \<Rightarrow> activation_id \<Rightarrow> activation_request" where
  "create_multi_with_activation rq n config batchId inputs act = make_request rq n config batchId (MultiInput inputs) act"

definition create_from_planned :: "request_scope \<Rightarrow> planned_activation \<Rightarrow> node_def \<Rightarrow> activation_id \<Rightarrow> activation_request" where
  "create_from_planned rq nxt d act =
    (case nxt of
       MultiActivation _ inputs b \<Rightarrow> make_request rq (nd_id d) (nd_config d) b (MultiInput inputs) act
     | SingleActivation _ input b \<Rightarrow> make_request rq (nd_id d) (nd_config d) b (SingleInput input) act)"

definition inputs_of_request :: "activation_request \<Rightarrow> inputs_by_port" where
  "inputs_of_request r = (case ar_input r of MultiInput m \<Rightarrow> m | SingleInput its \<Rightarrow> [(''in'', its)])"

section \<open>Fan-in merge\<close>

fun js_field :: "jsval \<Rightarrow> string \<Rightarrow> jsval" where
  "js_field (JObj fs) k = opt_or (map_of fs k) JUndefined"
| "js_field _ k = JUndefined"

definition origin_index :: "item \<Rightarrow> rat option" where
  "origin_index it =
    (case js_field (opt_or (Option.bind (it_meta it) (\<lambda>m. jget m ''_cm'')) JUndefined) ''originIndex'' of
       JNum n \<Rightarrow> Some n
     | _ \<Rightarrow> None)"

record fan_entry =
  fe_portKey :: port_key
  fe_portIndex :: nat
  fe_item :: item
  fe_originIndex :: "rat option"

definition port_entries :: "inputs_by_port \<Rightarrow> port_key \<Rightarrow> fan_entry list" where
  "port_entries m k =
    map (\<lambda>(i, it). \<lparr>fe_portKey = k, fe_portIndex = i, fe_item = it, fe_originIndex = origin_index it\<rparr>)
      (enumerate 0 (jget_list m k))"

definition missing_origin_rank :: rat where
  "missing_origin_rank = 9007199254740991"

definition origin_rank :: "fan_entry \<Rightarrow> rat" where
  "origin_rank e = opt_or (fe_originIndex e) missing_origin_rank"

text \<open>\<open>locale_less\<close> is \<open>localeCompare\<close> being negative.\<close>

definition fan_before :: "(string \<Rightarrow> string \<Rightarrow> bool) \<Rightarrow> fan_entry \<Rightarrow> fan_entry \<Rightarrow> bool" where
  "fan_before locale_less a b =
    (if origin_rank a \<noteq> origin_rank b then origin_rank a < origin_rank b
     else if locale_less (fe_portKey a) (fe_portKey b) then True
     else if locale_less (fe_portKey b) (fe_portKey a) then False
     else fe_portIndex a < fe_portIndex b)"

definition fan_in_merge :: "(string \<Rightarrow> string \<Rightarrow> bool) \<Rightarrow> inputs_by_port \<Rightarrow> items" where
  "fan_in_merge locale_less m =
    (let ports = stable_sort string_less (jkeys m)
     in case ports of
          [] \<Rightarrow> []
        | [only] \<Rightarrow> jget_list m only
        | _ \<Rightarrow>
            let entries = concat (map (port_entries m) ports)
            in if list_all (\<lambda>e. fe_originIndex e = None) entries then map fe_item entries
               else map fe_item (stable_sort (fan_before locale_less) entries))"

section \<open>The input contract\<close>

text \<open>
  How a schema rejects a value: with issues (a path and a message each), with an \<open>Error\<close>, or with something
  else that was thrown.
\<close>

datatype parse_failure =
    SchemaIssues "(string list \<times> string) list"
  | ErrorThrown string
  | OtherThrown string

type_synonym schema = "jsval \<Rightarrow> parse_failure option"

definition format_contract_failure :: "parse_failure \<Rightarrow> string" where
  "format_contract_failure f =
    (case f of
       SchemaIssues is \<Rightarrow>
         join_strings ''; ''
           (map (\<lambda>(path, msg). (let p = join_strings ''.'' path in if p = [] then ''<root>'' else p) @ '': '' @ msg) is)
     | ErrorThrown msg \<Rightarrow> msg
     | OtherThrown msg \<Rightarrow> msg)"

definition input_contract_error :: "node_id \<Rightarrow> activation_id \<Rightarrow> string \<Rightarrow> js_error" where
  "input_contract_error n act msg =
    \<lparr>err_kind = PlainError, err_message = ''Node '' @ n @ '' activation '' @ act @ '': input contract failed: '' @ msg,
     err_name = ''NodeInputContractError'', err_stack = None, err_details = None, err_nodeId = None\<rparr>"

text \<open>The instance of a node and the schemas it and its configuration may declare.\<close>

record instance_env =
  ie_createByType :: "type_token \<Rightarrow> js_error + node_instance"
  ie_instanceSchema :: "type_token \<Rightarrow> schema option"
  ie_configSchema :: "node_config \<Rightarrow> schema option"
  ie_localeLess :: "string \<Rightarrow> string \<Rightarrow> bool"

definition is_trigger_instance :: "node_instance \<Rightarrow> bool" where
  "is_trigger_instance i = (ni_kind i = Some TriggerKind)"

definition runs_per_item :: "node_instance \<Rightarrow> bool" where
  "runs_per_item i = (ni_kind i = Some NodeKind \<and> ni_hasExecute i)"

definition resolve_input_schema :: "instance_env \<Rightarrow> node_config \<Rightarrow> schema" where
  "resolve_input_schema env config =
    opt_or (opt_else (ie_instanceSchema env (nc_type config)) (ie_configSchema env config)) (\<lambda>_. None)"

definition check_item :: "schema \<Rightarrow> item \<Rightarrow> parse_failure option" where
  "check_item sch it =
    (case it_json it of
       JArr _ \<Rightarrow> Some (ErrorThrown ''Item JSON must not be a top-level array'')
     | v \<Rightarrow> sch v)"

fun check_items :: "schema \<Rightarrow> items \<Rightarrow> parse_failure option" where
  "check_items sch [] = None"
| "check_items sch (it # its) = (case check_item sch it of Some f \<Rightarrow> Some f | None \<Rightarrow> check_items sch its)"

definition request_items :: "activation_request \<Rightarrow> items" where
  "request_items r = (case ar_input r of SingleInput its \<Rightarrow> its | MultiInput _ \<Rightarrow> [])"

definition prepare_single :: "instance_env \<Rightarrow> activation_request \<Rightarrow> js_error + activation_request" where
  "prepare_single env r =
    bind_result (ie_createByType env (nc_type (nx_config (ar_ctx r)))) (\<lambda>i.
      if \<not> runs_per_item i \<or> is_trigger_instance i then Inr r
      else case check_items (resolve_input_schema env (nx_config (ar_ctx r))) (request_items r) of
             None \<Rightarrow> Inr r
           | Some f \<Rightarrow> Inl (input_contract_error (ar_nodeId r) (ar_activationId r) (format_contract_failure f)))"

definition prepare_multi :: "instance_env \<Rightarrow> activation_request \<Rightarrow> inputs_by_port \<Rightarrow> js_error + activation_request" where
  "prepare_multi env r inputs =
    bind_result (ie_createByType env (nc_type (nx_config (ar_ctx r)))) (\<lambda>i.
      if \<not> runs_per_item i \<or> ni_hasExecuteMulti i \<or> is_trigger_instance i then Inr r
      else prepare_single env (r\<lparr>ar_input := SingleInput (fan_in_merge (ie_localeLess env) inputs)\<rparr>))"

definition prepare_request :: "instance_env \<Rightarrow> activation_request \<Rightarrow> js_error + activation_request" where
  "prepare_request env r =
    (case ar_input r of MultiInput m \<Rightarrow> prepare_multi env r m | SingleInput _ \<Rightarrow> prepare_single env r)"

section \<open>Schedulers\<close>

record scheduler_decision =
  sd_mode :: execution_mode
  sd_queue :: "string option"

type_synonym offload_decide = "workflow_id \<Rightarrow> node_id \<Rightarrow> node_config \<Rightarrow> scheduler_decision"

definition config_driven_decide :: "execution_mode \<Rightarrow> offload_decide" where
  "config_driven_decide defaultMode wfId n config =
    (let hint = Option.bind (nc_execution config) eh_hint;
         queue = Option.bind (nc_execution config) eh_queue
     in if hint = Some LocalMode then \<lparr>sd_mode = LocalMode, sd_queue = None\<rparr>
        else if hint = Some WorkerMode then \<lparr>sd_mode = WorkerMode, sd_queue = queue\<rparr>
        else if truthy_string queue then \<lparr>sd_mode = WorkerMode, sd_queue = queue\<rparr>
        else \<lparr>sd_mode = defaultMode, sd_queue = None\<rparr>)"

definition hint_only_decide :: offload_decide where
  "hint_only_decide wfId n config =
    (if Option.bind (nc_execution config) eh_hint = Some WorkerMode
     then \<lparr>sd_mode = WorkerMode, sd_queue = Option.bind (nc_execution config) eh_queue\<rparr>
     else \<lparr>sd_mode = LocalMode, sd_queue = None\<rparr>)"

datatype selection_reason = RunIntentOverride | NodePolicy | ContainerDefault

record scheduler_selection =
  sl_mode :: execution_mode
  sl_queue :: "string option"
  sl_decision :: selection_reason

definition has_scheduling_preference :: "activation_request \<Rightarrow> bool" where
  "has_scheduling_preference r =
    (let ex = nc_execution (nx_config (ar_ctx r)) in Option.bind ex eh_hint \<noteq> None \<or> Option.bind ex eh_queue \<noteq> None)"

definition select_scheduler :: "offload_decide \<Rightarrow> activation_request \<Rightarrow> scheduler_selection" where
  "select_scheduler decide r =
    (if Option.bind (ar_executionOptions r) eo_localOnly = Some True
     then \<lparr>sl_mode = LocalMode, sl_queue = None, sl_decision = RunIntentOverride\<rparr>
     else let d = decide (ar_workflowId r) (ar_nodeId r) (nx_config (ar_ctx r))
          in if has_scheduling_preference r
             then \<lparr>sl_mode = sd_mode d, sl_queue = sd_queue d, sl_decision = NodePolicy\<rparr>
             else \<lparr>sl_mode = sd_mode d, sl_queue = sd_queue d, sl_decision = ContainerDefault\<rparr>)"

record worker_request =
  wq_runId :: run_id
  wq_activationId :: activation_id
  wq_workflowId :: workflow_id
  wq_nodeId :: node_id
  wq_input :: items
  wq_parent :: "parent_ref option"
  wq_queue :: "string option"
  wq_executionOptions :: "execution_options option"

datatype dispatch_job = InlineJob activation_request | WorkerJob worker_request

record prepared_dispatch =
  pp_receiptId :: string
  pp_mode :: execution_mode
  pp_queue :: "string option"
  pp_job :: dispatch_job

definition multi_on_worker :: "node_id \<Rightarrow> js_error" where
  "multi_on_worker n =
    plain_error (''Multi-input node '' @ n @ '' cannot be scheduled to worker (insert local placement)'')"

definition prepare_inline :: "activation_request \<Rightarrow> prepared_dispatch" where
  "prepare_inline r =
    \<lparr>pp_receiptId = ar_activationId r, pp_mode = LocalMode, pp_queue = None, pp_job = InlineJob r\<rparr>"

definition prepare_dispatch :: "offload_decide \<Rightarrow> activation_request \<Rightarrow> js_error + prepared_dispatch" where
  "prepare_dispatch decide r =
    (let sel = select_scheduler decide r
     in case sl_mode sel of
          WorkerMode \<Rightarrow>
            (case ar_input r of
               MultiInput _ \<Rightarrow> Inl (multi_on_worker (ar_nodeId r))
             | SingleInput its \<Rightarrow>
                 Inr \<lparr>pp_receiptId = ar_activationId r, pp_mode = WorkerMode, pp_queue = sl_queue sel,
                      pp_job = WorkerJob
                        \<lparr>wq_runId = ar_runId r, wq_activationId = ar_activationId r, wq_workflowId = ar_workflowId r,
                         wq_nodeId = ar_nodeId r, wq_input = its, wq_parent = ar_parent r, wq_queue = sl_queue sel,
                         wq_executionOptions = ar_executionOptions r\<rparr>\<rparr>)
        | LocalMode \<Rightarrow> Inr (prepare_inline r))"

text \<open>\<open>LocalOnlyScheduler\<close>: a worker queue that rejects every job.\<close>

definition local_only_enqueue :: "worker_request \<Rightarrow> js_error option" where
  "local_only_enqueue r = Some (plain_error ''No worker scheduler configured'')"

section \<open>The engine's world\<close>

text \<open>
  The world grows by what the engine keeps in memory: the number of activation ids handed out, the queues of the
  inline scheduler with the runs it has scheduled or is draining, the jobs given to the worker queue, and the
  callers waiting for a run.  A waiting caller is a number; what it was told is recorded, and so is what the error
  handlers of workflows were told.
\<close>

record error_notice =
  no_runId :: run_id
  no_workflowId :: workflow_id
  no_workflow :: workflow
  no_failedNodeId :: node_id
  no_error :: js_error
  no_startedAt :: iso_time
  no_finishedAt :: iso_time

record engine = world +
  en_ids :: nat
  en_inlineQueues :: "(run_id, activation_request list) jmap"
  en_draining :: "run_id list"
  en_scheduled :: "run_id list"
  en_workerJobs :: "worker_request list"
  en_completionWaiters :: "(run_id, nat list) jmap"
  en_webhookWaiters :: "(run_id, nat list) jmap"
  en_completions :: "(nat \<times> run_result) list"
  en_responses :: "(nat \<times> webhook_result) list"
  en_errorNotices :: "error_notice list"

section \<open>The inline scheduler\<close>

definition schedule_drain :: "run_id \<Rightarrow> engine \<Rightarrow> engine" where
  "schedule_drain r e =
    (if r \<in> set (en_draining e) \<or> r \<in> set (en_scheduled e) then e else e\<lparr>en_scheduled := en_scheduled e @ [r]\<rparr>)"

definition dispatch_inline :: "activation_request \<Rightarrow> engine \<Rightarrow> engine" where
  "dispatch_inline r e =
    schedule_drain (ar_runId r) (e\<lparr>en_inlineQueues := jpush (ar_runId r) r (en_inlineQueues e)\<rparr>)"

text \<open>
  The callback of \<open>setImmediate\<close> and the part of \<open>drainRun\<close> up to the first \<open>await\<close>: the activation that is
  taken, if any.  The run is \<open>draining\<close> from here to the \<open>finally\<close> block.
\<close>

definition begin_drain :: "run_id \<Rightarrow> engine \<Rightarrow> activation_request option \<times> engine" where
  "begin_drain r e =
    (let e1 = e\<lparr>en_scheduled := removeAll r (en_scheduled e)\<rparr>
     in if r \<in> set (en_draining e1) then (None, e1)
        else let e2 = e1\<lparr>en_draining := en_draining e1 @ [r]\<rparr>
             in case jget_list (en_inlineQueues e2) r of
                  [] \<Rightarrow> (None, e2)
                | x # xs \<Rightarrow> (Some x, e2\<lparr>en_inlineQueues := jset r xs (en_inlineQueues e2)\<rparr>))"

text \<open>The \<open>finally\<close> block.\<close>

definition finish_drain :: "run_id \<Rightarrow> engine \<Rightarrow> engine" where
  "finish_drain r e =
    (let e1 = (if jget_list (en_inlineQueues e) r = [] then e\<lparr>en_inlineQueues := jremove r (en_inlineQueues e)\<rparr> else e);
         e2 = e1\<lparr>en_draining := removeAll r (en_draining e1)\<rparr>
     in if jget_list (en_inlineQueues e2) r \<noteq> [] then schedule_drain r e2 else e2)"

text \<open>Errors of a continuation that a scheduler swallows: the activation was overtaken.\<close>

definition is_ignorable :: "js_error \<Rightarrow> bool" where
  "is_ignorable e =
    (str_includes '' is not pending'' (err_message e) \<or> str_includes ''activationId mismatch'' (err_message e) \<or>
     str_includes ''nodeId mismatch'' (err_message e))"

definition rethrow_unless_ignorable :: "js_error \<Rightarrow> (unit, 'w) engine_action" where
  "rethrow_unless_ignorable e = (if is_ignorable e then return_do () else throw_do e)"

section \<open>Waiting callers\<close>

definition wait_for_completion_of :: "run_id \<Rightarrow> nat \<Rightarrow> engine \<Rightarrow> engine" where
  "wait_for_completion_of r who e = e\<lparr>en_completionWaiters := jpush r who (en_completionWaiters e)\<rparr>"

definition wait_for_webhook_response_of :: "run_id \<Rightarrow> nat \<Rightarrow> engine \<Rightarrow> engine" where
  "wait_for_webhook_response_of r who e = e\<lparr>en_webhookWaiters := jpush r who (en_webhookWaiters e)\<rparr>"

fun result_header :: "run_result \<Rightarrow> run_header" where
  "result_header (ResCompleted h _) = h"
| "result_header (ResPending h _) = h"
| "result_header (ResFailed h _) = h"
| "result_header (ResHalted h _) = h"

fun is_final_result :: "run_result \<Rightarrow> bool" where
  "is_final_result (ResPending _ _) = False"
| "is_final_result _ = True"

definition resolve_run_completion :: "run_result \<Rightarrow> engine \<Rightarrow> engine" where
  "resolve_run_completion res e =
    (if \<not> is_final_result res then e
     else let r = rh_runId (result_header res)
          in case jget_list (en_completionWaiters e) r of
               [] \<Rightarrow> e
             | ws \<Rightarrow> e\<lparr>en_completionWaiters := jremove r (en_completionWaiters e),
                       en_completions := en_completions e @ map (\<lambda>who. (who, res)) ws\<rparr>)"

definition resolve_webhook_response :: "webhook_result \<Rightarrow> engine \<Rightarrow> engine" where
  "resolve_webhook_response res e =
    (let r = rh_runId (wr_header res)
     in case jget_list (en_webhookWaiters e) r of
          [] \<Rightarrow> e
        | ws \<Rightarrow> e\<lparr>en_webhookWaiters := jremove r (en_webhookWaiters e),
                  en_responses := en_responses e @ map (\<lambda>who. (who, res)) ws\<rparr>)"

section \<open>Storing and dispatching an activation\<close>

record scheduling_env = instance_env +
  se_clk :: clock
  se_decide :: offload_decide
  se_workerEnqueue :: "worker_request \<Rightarrow> js_error option"

record enqueue_request =
  er_scope :: snapshot_scope
  er_startedAt :: iso_time
  er_executionOptions :: "execution_options option"
  er_control :: "run_control option"
  er_workflowSnapshot :: "workflow_snapshot option"
  er_mutableState :: "mutable_run_state option"
  er_policySnapshot :: "policy_snapshot option"
  er_pendingQueue :: run_queue
  er_request :: activation_request
  er_previousSnapshots :: "(node_id, node_snapshot) jmap"
  er_engineCounters :: "engine_counters option"
  er_connectionInvocations :: "connection_invocation list option"
  er_suspension :: "suspension_entry list option"
  er_pendingResume :: "pending_resume option"

definition items_in :: "activation_request \<Rightarrow> nat" where
  "items_in r = (case ar_input r of MultiInput m \<Rightarrow> sum_items_by_port m | SingleInput its \<Rightarrow> length its)"

definition pending_of :: "enqueue_request \<Rightarrow> activation_request \<Rightarrow> prepared_dispatch \<Rightarrow> iso_time \<Rightarrow> pending_execution" where
  "pending_of a prepared d enqueuedAt =
    \<lparr>pe_runId = sc_runId (er_scope a), pe_activationId = ar_activationId (er_request a),
     pe_workflowId = sc_workflowId (er_scope a), pe_nodeId = ar_nodeId (er_request a), pe_itemsIn = items_in prepared,
     pe_inputsByPort = inputs_of_request prepared, pe_receiptId = pp_receiptId d, pe_queue = pp_queue d,
     pe_batchId = Some (ar_batchId (er_request a)), pe_enqueuedAt = enqueuedAt\<rparr>"

definition queued_snapshot_of :: "enqueue_request \<Rightarrow> activation_request \<Rightarrow> iso_time \<Rightarrow> node_snapshot" where
  "queued_snapshot_of a prepared enqueuedAt =
    snapshot_queued (er_scope a) (ar_nodeId (er_request a)) (ar_activationId (er_request a)) enqueuedAt
      (inputs_of_request prepared)"

text \<open>The state is written from the arguments, not from a stored one: what they do not carry is gone.\<close>

definition pending_state :: "enqueue_request \<Rightarrow> pending_execution \<Rightarrow> node_snapshot \<Rightarrow> run_state" where
  "pending_state a pending queuedSnapshot =
    \<lparr>rs_runId = sc_runId (er_scope a), rs_workflowId = sc_workflowId (er_scope a), rs_startedAt = er_startedAt a,
     rs_finishedAt = None, rs_revision = None, rs_parent = sc_parent (er_scope a),
     rs_executionOptions = er_executionOptions a, rs_control = er_control a,
     rs_workflowSnapshot = er_workflowSnapshot a, rs_mutableState = er_mutableState a,
     rs_policySnapshot = er_policySnapshot a, rs_engineCounters = er_engineCounters a, rs_status = RunPending,
     rs_reason = None, rs_pending = Some pending, rs_queue = er_pendingQueue a,
     rs_outputsByNode = dump_run_data (nx_data (ar_ctx (er_request a))),
     rs_nodeSnapshotsByNodeId = jset (ar_nodeId (er_request a)) queuedSnapshot (er_previousSnapshots a),
     rs_connectionInvocations = Some (opt_or (er_connectionInvocations a) []),
     rs_suspension = er_suspension a, rs_pendingResume = er_pendingResume a\<rparr>"

definition dispatch_prepared :: "scheduling_env \<Rightarrow> prepared_dispatch \<Rightarrow> (unit, engine) engine_action" where
  "dispatch_prepared env d =
    (case pp_job d of
       InlineJob r \<Rightarrow> update_do (dispatch_inline r)
     | WorkerJob wq \<Rightarrow>
         (case se_workerEnqueue env wq of
            Some err \<Rightarrow> throw_do err
          | None \<Rightarrow> update_do (\<lambda>e. e\<lparr>en_workerJobs := en_workerJobs e @ [wq]\<rparr>)))"

definition pending_result :: "enqueue_request \<Rightarrow> pending_execution \<Rightarrow> run_result" where
  "pending_result a pending =
    ResPending \<lparr>rh_runId = sc_runId (er_scope a), rh_workflowId = sc_workflowId (er_scope a), rh_startedAt = er_startedAt a\<rparr>
      pending"

definition enqueue_with_snapshot ::
  "scheduling_env \<Rightarrow> enqueue_request \<Rightarrow> (run_result \<times> node_snapshot, engine) engine_action" where
  "enqueue_with_snapshot env a =
    then_do (lift_result (prepare_request (instance_env.truncate env) (er_request a))) (\<lambda>prepared.
    then_do (lift_result (prepare_dispatch (se_decide env) prepared)) (\<lambda>d.
    then_do (now_do (se_clk env)) (\<lambda>enqueuedAt.
      let pending = pending_of a prepared d enqueuedAt;
          snap = queued_snapshot_of a prepared enqueuedAt
      in after_do (update_do (save_run (pending_state a pending snap)))
           (after_do (dispatch_prepared env d) (return_do (pending_result a pending, snap))))))"

definition enqueue_activation :: "scheduling_env \<Rightarrow> enqueue_request \<Rightarrow> (run_result, engine) engine_action" where
  "enqueue_activation env a =
    then_do (enqueue_with_snapshot env a) (\<lambda>(res, snap).
      after_do (publish_node NodeQueuedEvent snap) (return_do res))"

section \<open>Properties of the fan-in merge\<close>

lemma sorted_insert_rank:
  fixes rank :: "'a \<Rightarrow> rat"
  assumes "\<And>a b. before a b \<Longrightarrow> rank a \<le> rank b" "\<And>a b. \<not> before a b \<Longrightarrow> rank b \<le> rank a"
    and "sorted (map rank xs)"
  shows "sorted (map rank (insert_stable before x xs))"
  using assms(3)
proof (induction xs)
  case (Cons y ys)
  have set_ins: "set (insert_stable before x ys) = insert x (set ys)"
    by (metis mset_insert_stable set_mset_add_mset_insert set_mset_mset)
  show ?case
  proof (cases "before y x")
    case True
    thus ?thesis using Cons assms(1) [OF True] by (auto simp: set_ins)
  next
    case False
    thus ?thesis using Cons.prems assms(2) [OF False] by auto
  qed
qed simp

lemma sorted_stable_sort_rank:
  fixes rank :: "'a \<Rightarrow> rat"
  assumes "\<And>a b. before a b \<Longrightarrow> rank a \<le> rank b" "\<And>a b. \<not> before a b \<Longrightarrow> rank b \<le> rank a"
  shows "sorted (map rank (stable_sort before xs))"
  by (induction xs) (simp_all add: stable_sort_def sorted_insert_rank [OF assms])

lemma fan_before_rank:
  "fan_before ll a b \<Longrightarrow> origin_rank a \<le> origin_rank b" "\<not> fan_before ll a b \<Longrightarrow> origin_rank b \<le> origin_rank a"
  by (auto simp: fan_before_def split: if_splits)

lemma map_fe_item_entries: "map fe_item (port_entries m k) = jget_list m k"
  by (simp add: port_entries_def comp_def case_prod_beta)

lemma mset_concat_ports: "mset ks = mset ks' \<Longrightarrow> mset (concat (map f ks)) = mset (concat (map f ks'))"
  by (simp add: mset_concat) (metis mset_map sum_mset_sum_list)

lemma concat_jget_list: "distinct (jkeys m) \<Longrightarrow> concat (map (jget_list m) (jkeys m)) = concat (map snd m)"
proof (induction m)
  case (Cons p m)
  obtain k v where p: "p = (k, v)" by (cases p)
  have "map (jget_list (p # m)) (jkeys m) = map (jget_list m) (jkeys m)"
    using Cons.prems p by (intro map_cong) auto
  hence "concat (map (jget_list (p # m)) (jkeys (p # m))) = jget_list (p # m) (fst p) @ concat (map (jget_list m) (jkeys m))"
    by (simp only: list.map concat.simps)
  also have "jget_list (p # m) (fst p) = v" by (simp add: p)
  also have "concat (map (jget_list m) (jkeys m)) = concat (map snd m)" using Cons by simp
  finally show ?case by (simp add: p)
qed simp

lemma fan_in_merge_several:
  assumes "2 \<le> length m"
  shows "fan_in_merge ll m =
    (let es = concat (map (port_entries m) (stable_sort string_less (jkeys m)))
     in if list_all (\<lambda>e. fe_originIndex e = None) es then map fe_item es
        else map fe_item (stable_sort (fan_before ll) es))"
proof -
  have len: "length (stable_sort string_less (jkeys m)) = length m" by simp
  show ?thesis
  proof (cases "stable_sort string_less (jkeys m)" rule: remdups_adj.cases)
    case 1
    thus ?thesis using len assms by simp
  next
    case (2 x)
    hence "length m = 1" using len by simp
    thus ?thesis using assms by simp
  next
    case (3 x y xs)
    thus ?thesis unfolding fan_in_merge_def by simp
  qed
qed

lemma mset_fan_in_merge:
  assumes "distinct (jkeys m)"
  shows "mset (fan_in_merge ll m) = mset (concat (map snd m))"
proof -
  let ?ports = "stable_sort string_less (jkeys m)"
  have ports: "mset (concat (map (jget_list m) ?ports)) = mset (concat (map snd m))"
    using mset_concat_ports [of ?ports "jkeys m" "jget_list m"] concat_jget_list [OF assms] by simp
  have items: "map fe_item (concat (map (port_entries m) ?ports)) = concat (map (jget_list m) ?ports)"
    by (simp add: map_concat comp_def map_fe_item_entries)
  have perm: "mset (map fe_item (stable_sort (fan_before ll) es)) = mset (map fe_item es)" for es
    by simp
  show ?thesis
  proof (cases "2 \<le> length m")
    case True
    have "mset (fan_in_merge ll m) = mset (map fe_item (concat (map (port_entries m) ?ports)))"
      unfolding fan_in_merge_several [OF True] Let_def if_distrib [of mset] perm by (simp only: if_cancel)
    thus ?thesis using items ports by (simp only:)
  next
    case False
    hence "m = [] \<or> (\<exists>k v. m = [(k, v)])" by (cases m rule: remdups_adj.cases) auto
    thus ?thesis by (auto simp: fan_in_merge_def stable_sort_def)
  qed
qed

text \<open>The fan-in merge loses and invents nothing: the merged batch is a permutation of all the items of all
  ports; and when there are several ports and some item knows the index of its origin, the batch is ordered by
  origin index, with the items that know none at the end.\<close>

theorem fan_in_merges_all:
  assumes "distinct (jkeys m)"
  shows "mset (fan_in_merge ll m) = mset (concat (map snd m)) \<and>
    ((\<exists>it \<in> set (fan_in_merge ll m). origin_index it \<noteq> None) \<longrightarrow> 2 \<le> length m \<longrightarrow>
      sorted (map (\<lambda>it. opt_or (origin_index it) missing_origin_rank) (fan_in_merge ll m)))"
proof (intro conjI impI)
  show "mset (fan_in_merge ll m) = mset (concat (map snd m))" by (rule mset_fan_in_merge [OF assms])
  assume origin: "\<exists>it \<in> set (fan_in_merge ll m). origin_index it \<noteq> None" and len: "2 \<le> length m"
  let ?es = "concat (map (port_entries m) (stable_sort string_less (jkeys m)))"
  note merged = fan_in_merge_several [OF len, of ll, unfolded Let_def]
  have oi: "e \<in> set ?es \<Longrightarrow> fe_originIndex e = origin_index (fe_item e)" for e
    by (auto simp: port_entries_def)
  have "\<not> list_all (\<lambda>e. fe_originIndex e = None) ?es"
    using origin merged oi by (auto simp: list_all_iff split: if_splits)
  hence m2: "fan_in_merge ll m = map fe_item (stable_sort (fan_before ll) ?es)" using merged by simp
  have "map (\<lambda>it. opt_or (origin_index it) missing_origin_rank) (fan_in_merge ll m)
      = map origin_rank (stable_sort (fan_before ll) ?es)"
    unfolding m2 map_map
  proof (rule map_cong [OF refl])
    fix e assume "e \<in> set (stable_sort (fan_before ll) ?es)"
    hence "fe_originIndex e = origin_index (fe_item e)" using oi by simp
    thus "((\<lambda>it. opt_or (origin_index it) missing_origin_rank) \<circ> fe_item) e = origin_rank e"
      by (simp add: origin_rank_def)
  qed
  thus "sorted (map (\<lambda>it. opt_or (origin_index it) missing_origin_rank) (fan_in_merge ll m))"
    using sorted_stable_sort_rank [of "fan_before ll" origin_rank ?es] fan_before_rank by metis
qed

section \<open>The input contract is enforced\<close>

lemma check_items_None: "check_items sch its = None \<longleftrightarrow> (\<forall>it \<in> set its. check_item sch it = None)"
  by (induction its) (auto split: option.split)

lemma prepare_single_Inr:
  assumes "prepare_single env r = Inr r'"
  shows "r' = r \<and> (\<forall>i. ie_createByType env (nc_type (nx_config (ar_ctx r))) = Inr i \<longrightarrow> runs_per_item i \<longrightarrow>
    (\<forall>it \<in> set (request_items r). check_item (resolve_input_schema env (nx_config (ar_ctx r))) it = None))"
  using assms
  by (auto simp: prepare_single_def bind_result_Inr_iff check_items_None runs_per_item_def is_trigger_instance_def
      split: if_splits option.splits)

text \<open>A prepared request differs from the planned one at most in its input, which for a per-item node with
  several inputs is their fan-in merge; and when the node runs per item, every item of the batch has passed the
  schema of the node (or of its configuration) and none is a top-level array.\<close>

theorem prepared_input_is_valid:
  assumes "prepare_request env r = Inr r'" "ie_createByType env (nc_type (nx_config (ar_ctx r))) = Inr i"
  shows "r' = r\<lparr>ar_input := ar_input r'\<rparr>
    \<and> (ar_input r' = ar_input r \<or>
        (\<exists>m. ar_input r = MultiInput m \<and> ar_input r' = SingleInput (fan_in_merge (ie_localeLess env) m)))
    \<and> (runs_per_item i \<longrightarrow>
        (\<forall>its it. ar_input r' = SingleInput its \<longrightarrow> it \<in> set its \<longrightarrow>
          (\<forall>vs. it_json it \<noteq> JArr vs) \<and> resolve_input_schema env (nx_config (ar_ctx r)) (it_json it) = None))"
proof -
  have item: "check_item sch it = None \<longleftrightarrow> (\<forall>vs. it_json it \<noteq> JArr vs) \<and> sch (it_json it) = None" for sch it
    by (cases "it_json it") (simp_all add: check_item_def)
  show ?thesis
  proof (cases "ar_input r")
    case (SingleInput its)
    hence p: "prepare_single env r = Inr r'" using assms(1) by (simp add: prepare_request_def)
    from prepare_single_Inr [OF p] show ?thesis using assms(2) SingleInput by (simp add: request_items_def item)
  next
    case (MultiInput m)
    let ?r = "r\<lparr>ar_input := SingleInput (fan_in_merge (ie_localeLess env) m)\<rparr>"
    have "r' = r \<or> prepare_single env ?r = Inr r'"
      using assms MultiInput by (simp add: prepare_request_def prepare_multi_def split: if_splits)
    thus ?thesis
    proof (elim disjE)
      assume "r' = r"
      thus ?thesis using MultiInput by simp
    next
      assume p: "prepare_single env ?r = Inr r'"
      from prepare_single_Inr [OF p] show ?thesis using assms(2) MultiInput by (simp add: request_items_def item)
    qed
  qed
qed

section \<open>The offload policy\<close>

locale offload_policy =
  fixes decide :: offload_decide
  assumes local_hint: "Option.bind (nc_execution c) eh_hint = Some LocalMode \<Longrightarrow>
      decide w n c = \<lparr>sd_mode = LocalMode, sd_queue = None\<rparr>"
    and worker_hint: "Option.bind (nc_execution c) eh_hint = Some WorkerMode \<Longrightarrow>
      decide w n c = \<lparr>sd_mode = WorkerMode, sd_queue = Option.bind (nc_execution c) eh_queue\<rparr>"
begin

lemma dispatch_local:
  assumes "Option.bind (ar_executionOptions r) eo_localOnly = Some True \<or>
    Option.bind (nc_execution (nx_config (ar_ctx r))) eh_hint = Some LocalMode"
  shows "prepare_dispatch decide r = Inr (prepare_inline r)"
  using assms by (auto simp: prepare_dispatch_def select_scheduler_def Let_def local_hint)

lemma dispatch_worker:
  assumes "Option.bind (ar_executionOptions r) eo_localOnly \<noteq> Some True"
    "Option.bind (nc_execution (nx_config (ar_ctx r))) eh_hint = Some WorkerMode"
  shows "(case ar_input r of
      MultiInput _ \<Rightarrow> prepare_dispatch decide r = Inl (multi_on_worker (ar_nodeId r))
    | SingleInput its \<Rightarrow> \<exists>d wq. prepare_dispatch decide r = Inr d \<and> pp_job d = WorkerJob wq \<and>
        pp_queue d = Option.bind (nc_execution (nx_config (ar_ctx r))) eh_queue \<and> wq_queue wq = pp_queue d \<and>
        wq_activationId wq = ar_activationId r \<and> wq_nodeId wq = ar_nodeId r \<and> wq_runId wq = ar_runId r \<and> wq_input wq = its)"
  using assms by (cases "ar_input r") (simp_all add: prepare_dispatch_def select_scheduler_def Let_def worker_hint)

end

interpretation config_driven: offload_policy "config_driven_decide defaultMode"
  by unfold_locales (simp_all add: config_driven_decide_def Let_def)

interpretation hint_only: offload_policy hint_only_decide
  by unfold_locales (simp_all add: hint_only_decide_def)

text \<open>Scheduling precedence, for both offload policies: a local-only run and a local hint always run inline; a
  worker hint of any other run sends a single-input job to the worker with the hinted queue and rejects a
  multi-input one; the job that is dispatched carries the activation, node and run of the request.\<close>

theorem scheduling_precedence:
  assumes "decide = config_driven_decide dm \<or> decide = hint_only_decide"
  shows "(Option.bind (ar_executionOptions r) eo_localOnly = Some True \<or>
      Option.bind (nc_execution (nx_config (ar_ctx r))) eh_hint = Some LocalMode \<longrightarrow>
      prepare_dispatch decide r = Inr (prepare_inline r)) \<and>
    (Option.bind (ar_executionOptions r) eo_localOnly \<noteq> Some True \<longrightarrow>
      Option.bind (nc_execution (nx_config (ar_ctx r))) eh_hint = Some WorkerMode \<longrightarrow>
      (case ar_input r of
        MultiInput _ \<Rightarrow> prepare_dispatch decide r = Inl (multi_on_worker (ar_nodeId r))
      | SingleInput its \<Rightarrow> \<exists>d wq. prepare_dispatch decide r = Inr d \<and> pp_job d = WorkerJob wq \<and>
          pp_queue d = Option.bind (nc_execution (nx_config (ar_ctx r))) eh_queue \<and> wq_queue wq = pp_queue d \<and>
          wq_activationId wq = ar_activationId r \<and> wq_nodeId wq = ar_nodeId r \<and> wq_runId wq = ar_runId r \<and> wq_input wq = its))"
  using assms
proof (elim disjE)
  assume "decide = config_driven_decide dm"
  thus ?thesis using config_driven.dispatch_local [of r dm] config_driven.dispatch_worker [of r dm] by blast
next
  assume "decide = hint_only_decide"
  thus ?thesis using hint_only.dispatch_local [of r] hint_only.dispatch_worker [of r] by blast
qed

end
