(* ===== verification/Dispatch.thy ===== *)
theory Dispatch
  imports Scheduling
begin

text \<open>
  Properties of the inline scheduler as a state machine, of the waiting callers, and of storing an activation.
  The steps of the inline scheduler are the synchronous stretches of its code: a dispatch, the start of a drain
  (the \<open>setImmediate\<close> callback), and the \<open>finally\<close> block; between the last two a node executes, and any
  other step may happen.
\<close>

section \<open>The inline scheduler as a state machine\<close>

datatype inline_label =
    Dispatched activation_request
  | Taken activation_request
  | Finished run_id

inductive inline_trace :: "engine \<Rightarrow> inline_label list \<Rightarrow> engine \<Rightarrow> bool" for e0 where
  start: "inline_trace e0 [] e0"
| dispatch: "inline_trace e0 ls e \<Longrightarrow> inline_trace e0 (ls @ [Dispatched q]) (dispatch_inline q e)"
| take: "inline_trace e0 ls e \<Longrightarrow> r \<in> set (en_scheduled e) \<Longrightarrow> begin_drain r e = (Some q, e1) \<Longrightarrow>
    inline_trace e0 (ls @ [Taken q]) e1"
| fire_busy: "inline_trace e0 ls e \<Longrightarrow> r \<in> set (en_scheduled e) \<Longrightarrow> r \<in> set (en_draining e) \<Longrightarrow>
    begin_drain r e = (None, e1) \<Longrightarrow> inline_trace e0 ls e1"
| fire_empty: "inline_trace e0 ls e \<Longrightarrow> r \<in> set (en_scheduled e) \<Longrightarrow> r \<notin> set (en_draining e) \<Longrightarrow>
    begin_drain r e = (None, e1) \<Longrightarrow> inline_trace e0 ls (finish_drain r e1)"
| finish: "inline_trace e0 ls e \<Longrightarrow> r \<in> set (en_draining e) \<Longrightarrow>
    inline_trace e0 (ls @ [Finished r]) (finish_drain r e)"

fun dispatched_of :: "run_id \<Rightarrow> inline_label list \<Rightarrow> activation_request list" where
  "dispatched_of r [] = []"
| "dispatched_of r (Dispatched q # ls) = (if ar_runId q = r then q # dispatched_of r ls else dispatched_of r ls)"
| "dispatched_of r (_ # ls) = dispatched_of r ls"

fun taken_of :: "run_id \<Rightarrow> inline_label list \<Rightarrow> activation_request list" where
  "taken_of r [] = []"
| "taken_of r (Taken q # ls) = (if ar_runId q = r then q # taken_of r ls else taken_of r ls)"
| "taken_of r (_ # ls) = taken_of r ls"

fun finished_of :: "run_id \<Rightarrow> inline_label list \<Rightarrow> nat" where
  "finished_of r [] = 0"
| "finished_of r (Finished s # ls) = (if s = r then Suc (finished_of r ls) else finished_of r ls)"
| "finished_of r (_ # ls) = finished_of r ls"

lemma labels_append [simp]:
  "dispatched_of r (ls @ ks) = dispatched_of r ls @ dispatched_of r ks \<and>
   taken_of r (ls @ ks) = taken_of r ls @ taken_of r ks \<and>
   finished_of r (ls @ ks) = finished_of r ls + finished_of r ks"
proof (induction ls)
  case (Cons l ls)
  thus ?case by (cases l) simp_all
qed simp

text \<open>What holds of the queues of every reachable state.\<close>

definition inline_ok :: "engine \<Rightarrow> inline_label list \<Rightarrow> bool" where
  "inline_ok e ls =
    (\<forall>r. dispatched_of r ls = taken_of r ls @ jget_list (en_inlineQueues e) r
       \<and> (jget_list (en_inlineQueues e) r \<noteq> [] \<longrightarrow> r \<in> set (en_scheduled e) \<union> set (en_draining e))
       \<and> length (taken_of r ls) = finished_of r ls + (if r \<in> set (en_draining e) then 1 else 0)
       \<and> (\<forall>q \<in> set (jget_list (en_inlineQueues e) r). ar_runId q = r))"

definition idle_engine :: "engine \<Rightarrow> bool" where
  "idle_engine e = (en_inlineQueues e = [] \<and> en_draining e = [] \<and> en_scheduled e = [])"

lemma schedule_drain_sel [simp]:
  "en_inlineQueues (schedule_drain r e) = en_inlineQueues e"
  "en_draining (schedule_drain r e) = en_draining e"
  "set (en_scheduled (schedule_drain r e)) \<union> set (en_draining e) = insert r (set (en_scheduled e) \<union> set (en_draining e))"
  by (auto simp: schedule_drain_def)

lemma inline_ok_dispatch: "inline_ok e ls \<Longrightarrow> inline_ok (dispatch_inline q e) (ls @ [Dispatched q])"
  unfolding inline_ok_def
proof (intro allI)
  fix r
  let ?e = "e\<lparr>en_inlineQueues := jpush (ar_runId q) q (en_inlineQueues e)\<rparr>"
  assume "\<forall>r. dispatched_of r ls = taken_of r ls @ jget_list (en_inlineQueues e) r
       \<and> (jget_list (en_inlineQueues e) r \<noteq> [] \<longrightarrow> r \<in> set (en_scheduled e) \<union> set (en_draining e))
       \<and> length (taken_of r ls) = finished_of r ls + (if r \<in> set (en_draining e) then 1 else 0)
       \<and> (\<forall>q \<in> set (jget_list (en_inlineQueues e) r). ar_runId q = r)"
  note ok = this [rule_format, of r]
  have sch: "set (en_scheduled (dispatch_inline q e)) \<union> set (en_draining e)
      = insert (ar_runId q) (set (en_scheduled e) \<union> set (en_draining e))"
    unfolding dispatch_inline_def by (auto simp: schedule_drain_def)
  have queue: "jget_list (en_inlineQueues (dispatch_inline q e)) r =
      (if r = ar_runId q then jget_list (en_inlineQueues e) r @ [q] else jget_list (en_inlineQueues e) r)"
    by (simp add: dispatch_inline_def jpush_def)
  have drain: "en_draining (dispatch_inline q e) = en_draining e" by (simp add: dispatch_inline_def)
  show "dispatched_of r (ls @ [Dispatched q]) = taken_of r (ls @ [Dispatched q]) @ jget_list (en_inlineQueues (dispatch_inline q e)) r
       \<and> (jget_list (en_inlineQueues (dispatch_inline q e)) r \<noteq> [] \<longrightarrow>
            r \<in> set (en_scheduled (dispatch_inline q e)) \<union> set (en_draining (dispatch_inline q e)))
       \<and> length (taken_of r (ls @ [Dispatched q])) =
            finished_of r (ls @ [Dispatched q]) + (if r \<in> set (en_draining (dispatch_inline q e)) then 1 else 0)
       \<and> (\<forall>x \<in> set (jget_list (en_inlineQueues (dispatch_inline q e)) r). ar_runId x = r)"
    unfolding drain sch queue using ok by (cases "r = ar_runId q") auto
qed

lemma inline_ok_take:
  assumes "inline_ok e ls" "begin_drain r e = (Some q, e1)"
  shows "inline_ok e1 (ls @ [Taken q])"
proof -
  obtain xs where xs: "jget_list (en_inlineQueues e) r = q # xs" "r \<notin> set (en_draining e)"
    "e1 = e\<lparr>en_scheduled := removeAll r (en_scheduled e), en_draining := en_draining e @ [r],
            en_inlineQueues := jset r xs (en_inlineQueues e)\<rparr>"
    using assms(2) by (auto simp: begin_drain_def Let_def split: if_splits list.splits)
  have rq: "ar_runId q = r" using assms(1) xs(1) unfolding inline_ok_def by (metis list.set_intros(1))
  show ?thesis
    unfolding inline_ok_def
  proof (intro allI)
    fix s
    have ok: "dispatched_of s ls = taken_of s ls @ jget_list (en_inlineQueues e) s"
       "jget_list (en_inlineQueues e) s \<noteq> [] \<longrightarrow> s \<in> set (en_scheduled e) \<union> set (en_draining e)"
       "length (taken_of s ls) = finished_of s ls + (if s \<in> set (en_draining e) then 1 else 0)"
       "\<forall>q \<in> set (jget_list (en_inlineQueues e) s). ar_runId q = s"
      using assms(1) unfolding inline_ok_def by blast+
    show "dispatched_of s (ls @ [Taken q]) = taken_of s (ls @ [Taken q]) @ jget_list (en_inlineQueues e1) s
       \<and> (jget_list (en_inlineQueues e1) s \<noteq> [] \<longrightarrow> s \<in> set (en_scheduled e1) \<union> set (en_draining e1))
       \<and> length (taken_of s (ls @ [Taken q])) = finished_of s (ls @ [Taken q]) + (if s \<in> set (en_draining e1) then 1 else 0)
       \<and> (\<forall>x \<in> set (jget_list (en_inlineQueues e1) s). ar_runId x = s)"
      using ok xs rq by (cases "s = r") auto
  qed
qed

lemma inline_ok_fire_busy:
  assumes "inline_ok e ls" "r \<in> set (en_draining e)" "begin_drain r e = (None, e1)"
  shows "inline_ok e1 ls"
proof -
  have "e1 = e\<lparr>en_scheduled := removeAll r (en_scheduled e)\<rparr>"
    using assms(2,3) by (auto simp: begin_drain_def Let_def)
  thus ?thesis using assms(1,2) by (auto simp: inline_ok_def)
qed

lemma finish_drain_sel:
  "en_draining (finish_drain r e) = removeAll r (en_draining e)"
  "jget_list (en_inlineQueues (finish_drain r e)) s = jget_list (en_inlineQueues e) s"
  "set (en_scheduled (finish_drain r e)) =
    (if jget_list (en_inlineQueues e) r \<noteq> [] then insert r (set (en_scheduled e)) else set (en_scheduled e))"
  by (auto simp: finish_drain_def Let_def schedule_drain_def)

lemma inline_ok_finish:
  assumes "inline_ok e ls" "r \<in> set (en_draining e)"
  shows "inline_ok (finish_drain r e) (ls @ [Finished r])"
  unfolding inline_ok_def
proof (intro allI)
  fix s
  have ok: "dispatched_of s ls = taken_of s ls @ jget_list (en_inlineQueues e) s"
     "jget_list (en_inlineQueues e) s \<noteq> [] \<longrightarrow> s \<in> set (en_scheduled e) \<union> set (en_draining e)"
     "length (taken_of s ls) = finished_of s ls + (if s \<in> set (en_draining e) then 1 else 0)"
     "\<forall>q \<in> set (jget_list (en_inlineQueues e) s). ar_runId q = s"
    using assms(1) unfolding inline_ok_def by blast+
  show "dispatched_of s (ls @ [Finished r]) = taken_of s (ls @ [Finished r]) @ jget_list (en_inlineQueues (finish_drain r e)) s
       \<and> (jget_list (en_inlineQueues (finish_drain r e)) s \<noteq> [] \<longrightarrow>
            s \<in> set (en_scheduled (finish_drain r e)) \<union> set (en_draining (finish_drain r e)))
       \<and> length (taken_of s (ls @ [Finished r])) =
            finished_of s (ls @ [Finished r]) + (if s \<in> set (en_draining (finish_drain r e)) then 1 else 0)
       \<and> (\<forall>x \<in> set (jget_list (en_inlineQueues (finish_drain r e)) s). ar_runId x = s)"
    unfolding finish_drain_sel using ok assms(2) by (cases "s = r") auto
qed

lemma inline_ok_fire_empty:
  assumes "inline_ok e ls" "r \<notin> set (en_draining e)" "begin_drain r e = (None, e1)"
  shows "inline_ok (finish_drain r e1) ls"
proof -
  have e1: "e1 = e\<lparr>en_scheduled := removeAll r (en_scheduled e), en_draining := en_draining e @ [r]\<rparr>"
    and empty: "jget_list (en_inlineQueues e) r = []"
    using assms(2,3) by (auto simp: begin_drain_def Let_def split: list.splits)
  have drain: "set (en_draining (finish_drain r e1)) = set (en_draining e)"
    using assms(2) by (simp add: finish_drain_sel e1)
  show ?thesis
    unfolding inline_ok_def finish_drain_sel(2,3) drain
    using assms(1) empty unfolding inline_ok_def e1 by simp metis
qed

lemma inline_trace_ok: "inline_trace e0 ls e \<Longrightarrow> idle_engine e0 \<Longrightarrow> inline_ok e ls"
proof (induction rule: inline_trace.induct)
  case start
  thus ?case by (simp add: inline_ok_def idle_engine_def)
next
  case (take ls e r q e1)
  thus ?case using inline_ok_take by blast
next
  case (fire_busy ls e r e1)
  thus ?case using inline_ok_fire_busy by blast
next
  case (fire_empty ls e r e1)
  thus ?case using inline_ok_fire_empty by blast
qed (simp_all add: inline_ok_dispatch inline_ok_finish)

text \<open>C23. The inline scheduler neither loses, repeats nor reorders activations, and runs one at a time per run:
  in every state it can reach, the activations dispatched for a run are those already taken followed by
  those still queued, in order; a run with queued activations has a drain scheduled or running; and no second
  activation of a run is taken before the first has finished.\<close>

theorem inline_scheduler_fifo:
  assumes "inline_trace e0 ls e" "idle_engine e0"
  shows "dispatched_of r ls = taken_of r ls @ jget_list (en_inlineQueues e) r
    \<and> (jget_list (en_inlineQueues e) r \<noteq> [] \<longrightarrow> r \<in> set (en_scheduled e) \<union> set (en_draining e))
    \<and> finished_of r ls \<le> length (taken_of r ls) \<and> length (taken_of r ls) \<le> finished_of r ls + 1"
  using inline_trace_ok [OF assms] unfolding inline_ok_def by auto

section \<open>Storing and dispatching an activation\<close>

text \<open>The jobs handed to either scheduler, as the activations they carry.\<close>

definition jobs_of :: "engine \<Rightarrow> run_id \<Rightarrow> activation_id list \<times> activation_id list" where
  "jobs_of e r =
    (map ar_activationId (jget_list (en_inlineQueues e) r),
     map wq_activationId (filter (\<lambda>wq. wq_runId wq = r) (en_workerJobs e)))"

definition one_more_job :: "run_id \<Rightarrow> activation_id \<Rightarrow> engine \<Rightarrow> engine \<Rightarrow> bool" where
  "one_more_job r act e e' =
    (jobs_of e' r = (fst (jobs_of e r) @ [act], snd (jobs_of e r)) \<or>
     jobs_of e' r = (fst (jobs_of e r), snd (jobs_of e r) @ [act]))"

lemma prepare_request_identity:
  "prepare_request env r = Inr r' \<Longrightarrow> r' = r\<lparr>ar_input := ar_input r'\<rparr>"
  by (auto simp: prepare_request_def prepare_single_def prepare_multi_def bind_result_Inr_iff
      split: activation_input.splits if_splits option.splits)

lemma prepare_dispatch_job:
  assumes "prepare_dispatch decide r = Inr d"
  shows "pp_job d = InlineJob r \<or> (\<exists>wq. pp_job d = WorkerJob wq \<and> wq_activationId wq = ar_activationId r \<and> wq_runId wq = ar_runId r)"
  using assms
  by (auto simp: prepare_dispatch_def prepare_inline_def Let_def split: execution_mode.splits activation_input.splits)

lemma save_run_engine_sel [simp]:
  "en_inlineQueues (save_run st e) = en_inlineQueues e" "en_workerJobs (save_run st e) = en_workerJobs e"
  "en_draining (save_run st e) = en_draining e" "en_scheduled (save_run st e) = en_scheduled e"
  "en_completions (save_run st e) = en_completions e" "en_ids (save_run st e) = en_ids e"
  by (simp_all add: save_run_def)

lemma dispatch_inline_sel [simp]:
  "wo_runs (dispatch_inline q e) = wo_runs e" "en_workerJobs (dispatch_inline q e) = en_workerJobs e"
  "jget_list (en_inlineQueues (dispatch_inline q e)) r =
    (if r = ar_runId q then jget_list (en_inlineQueues e) r @ [q] else jget_list (en_inlineQueues e) r)"
  by (simp_all add: dispatch_inline_def schedule_drain_def jpush_def)

lemma dispatch_prepared_job:
  assumes "pp_job d = InlineJob r \<or> (\<exists>wq. pp_job d = WorkerJob wq \<and> wq_activationId wq = ar_activationId r \<and> wq_runId wq = ar_runId r)"
  shows "case dispatch_prepared env d e of
      (Inr u, e') \<Rightarrow> wo_runs e' = wo_runs e \<and> one_more_job (ar_runId r) (ar_activationId r) e e'
    | (Inl err, e') \<Rightarrow> e' = e \<and> (\<exists>wq. pp_job d = WorkerJob wq \<and> se_workerEnqueue env wq = Some err)"
  using assms
proof (elim disjE exE conjE)
  assume "pp_job d = InlineJob r"
  thus ?thesis by (simp add: dispatch_prepared_def update_do_def one_more_job_def jobs_of_def)
next
  fix wq
  assume "pp_job d = WorkerJob wq" "wq_activationId wq = ar_activationId r" "wq_runId wq = ar_runId r"
  thus ?thesis
    by (cases "se_workerEnqueue env wq")
       (simp_all add: dispatch_prepared_def update_do_def throw_do_def one_more_job_def jobs_of_def)
qed

text \<open>The state an enqueued activation is stored as.\<close>

definition stored_as_pending :: "enqueue_request \<Rightarrow> engine \<Rightarrow> pending_execution \<Rightarrow> bool" where
  "stored_as_pending a e p =
    (\<exists>st snap. load_run (sc_runId (er_scope a)) e = Some st \<and> st = bump_revision (pending_state a p snap)
      \<and> pe_runId p = sc_runId (er_scope a) \<and> rs_status st = RunPending \<and> rs_pending st = Some p
      \<and> pe_activationId p = ar_activationId (er_request a) \<and> pe_nodeId p = ar_nodeId (er_request a)
      \<and> rs_queue st = er_pendingQueue a \<and> rs_runId st = sc_runId (er_scope a)
      \<and> rs_suspension st = er_suspension a
      \<and> rs_nodeSnapshotsByNodeId st = jset (ar_nodeId (er_request a)) snap (er_previousSnapshots a) \<and> ns_status snap = NsQueued)"

lemma enqueue_outcome:
  assumes "enqueue_with_snapshot env a e = (r, e')" "ar_runId (er_request a) = sc_runId (er_scope a)"
  shows "(\<forall>s. s \<noteq> sc_runId (er_scope a) \<longrightarrow> load_run s e' = load_run s e) \<and>
    (case r of
       Inr (res, snap) \<Rightarrow> \<exists>p. res = pending_result a p \<and> stored_as_pending a e' p
         \<and> one_more_job (sc_runId (er_scope a)) (ar_activationId (er_request a)) e e'
     | Inl err \<Rightarrow> jobs_of e' = jobs_of e \<and>
         (wo_runs e' = wo_runs e \<or> (\<exists>wq p. se_workerEnqueue env wq = Some err \<and> stored_as_pending a e' p)))"
proof (cases "prepare_request (instance_env.truncate env) (er_request a)")
  case (Inl err)
  thus ?thesis using assms(1) by (auto simp: enqueue_with_snapshot_def action_simps then_do_def)
next
  case (Inr prepared)
  note prep = Inr
  have pid: "prepared = (er_request a)\<lparr>ar_input := ar_input prepared\<rparr>" by (rule prepare_request_identity [OF prep])
  have ids: "ar_runId prepared = sc_runId (er_scope a)" "ar_activationId prepared = ar_activationId (er_request a)"
    using assms(2) by (subst pid, simp)+
  show ?thesis
  proof (cases "prepare_dispatch (se_decide env) prepared")
    case (Inl err)
    thus ?thesis using assms(1) prep by (auto simp: enqueue_with_snapshot_def action_simps then_do_def)
  next
    case (Inr d)
    let ?t = "se_clk env (wo_clock e)"
    let ?p = "pending_of a prepared d ?t"
    let ?snap = "queued_snapshot_of a prepared ?t"
    let ?e1 = "e\<lparr>wo_clock := Suc (wo_clock e)\<rparr>"
    let ?e2 = "save_run (pending_state a ?p ?snap) ?e1"
    have run: "enqueue_with_snapshot env a e =
        (case dispatch_prepared env d ?e2 of
           (Inl err, e3) \<Rightarrow> (Inl err, e3) | (Inr u, e3) \<Rightarrow> (Inr (pending_result a ?p, ?snap), e3))"
      using prep Inr
      by (simp add: enqueue_with_snapshot_def then_do_def lift_result_def now_do_def update_do_def return_do_def Let_def
          split: prod.split sum.split)
    have stored: "load_run (sc_runId (er_scope a)) ?e2 = Some (bump_revision (pending_state a ?p ?snap))"
      by (simp add: load_run_def save_run_def pending_state_def bump_revision_def)
    have other: "s \<noteq> sc_runId (er_scope a) \<Longrightarrow> load_run s ?e2 = load_run s e" for s
      by (simp add: load_run_def save_run_def pending_state_def)
    have pend: "stored_as_pending a e3 ?p" if "wo_runs e3 = wo_runs ?e2" for e3 :: engine
      unfolding stored_as_pending_def
      by (intro exI [of _ "bump_revision (pending_state a ?p ?snap)"] exI [of _ ?snap])
        (use stored that in \<open>simp add: load_run_def pending_state_def pending_of_def queued_snapshot_of_def snapshot_queued_def
          bump_revision_def\<close>)
    have jobs2: "jobs_of ?e2 = jobs_of e" by (intro ext) (simp add: jobs_of_def)
    hence more: "one_more_job s x ?e2 e3 = one_more_job s x e e3" for s x e3 by (simp add: one_more_job_def)
    note job = dispatch_prepared_job [OF prepare_dispatch_job [OF Inr], where env = env and e = ?e2]
    show ?thesis
    proof (cases "dispatch_prepared env d ?e2")
      case (Pair res e3)
      show ?thesis
      proof (cases res)
        case (Inl err)
        hence e3: "e3 = ?e2" "\<exists>wq. se_workerEnqueue env wq = Some err" using job Pair by auto
        have re: "r = Inl err" "e' = ?e2" using run assms(1) Pair Inl e3(1) by auto
        show ?thesis unfolding re using other e3(2) pend [OF refl] jobs2 by auto
      next
        case (Inr u)
        hence e3: "wo_runs e3 = wo_runs ?e2" "one_more_job (ar_runId prepared) (ar_activationId prepared) ?e2 e3"
          using job Pair by auto
        have re: "r = Inr (pending_result a ?p, ?snap)" "e' = e3" using run assms(1) Pair Inr by auto
        have "load_run s e3 = load_run s ?e2" for s using e3(1) by (simp add: load_run_def)
        thus ?thesis unfolding re using other e3(2) pend [OF e3(1)] by (auto simp: more ids)
      qed
    qed
  qed
qed

text \<open>C24. Enqueueing an activation: on success the run is stored as pending on exactly this activation, with a
  queued snapshot of its node and the given queue, and exactly one job with its activation id has been handed to
  a scheduler; on failure no job was handed out, and unless the worker queue rejected the job nothing was
  stored.  No other run changes.\<close>

theorem enqueue_stores_and_dispatches:
  assumes "enqueue_with_snapshot env a e = (r, e')" "ar_runId (er_request a) = sc_runId (er_scope a)"
  shows "(\<forall>s. s \<noteq> sc_runId (er_scope a) \<longrightarrow> load_run s e' = load_run s e) \<and>
    (case r of
       Inr (res, snap) \<Rightarrow> \<exists>p. res = pending_result a p \<and> stored_as_pending a e' p
         \<and> one_more_job (sc_runId (er_scope a)) (ar_activationId (er_request a)) e e'
     | Inl err \<Rightarrow> jobs_of e' = jobs_of e \<and>
         (wo_runs e' = wo_runs e \<or> (\<exists>wq p. se_workerEnqueue env wq = Some err \<and> stored_as_pending a e' p)))"
  by (rule enqueue_outcome [OF assms])

section \<open>Witnesses\<close>

definition sample_exec_config :: "execution_hint option \<Rightarrow> node_config" where
  "sample_exec_config h = (sample_config NodeKind None)\<lparr>nc_execution := h\<rparr>"

definition sample_base :: base_context where
  "sample_base =
    \<lparr>bc_runId = ''r'', bc_workflowId = ''wf'', bc_parent = None, bc_policySnapshot = None, bc_subworkflowDepth = 0,
     bc_engineMaxNodeActivations = 10, bc_engineMaxSubworkflowDepth = 4, bc_testContext = None, bc_resumeContext = None\<rparr>"

definition sample_request :: "node_id \<Rightarrow> execution_hint option \<Rightarrow> activation_input \<Rightarrow> activation_request" where
  "sample_request n h input =
    make_request \<lparr>rq_runId = ''r'', rq_workflowId = ''wf'', rq_parent = None, rq_executionOptions = None,
      rq_base = sample_base, rq_data = []\<rparr> n (sample_exec_config h) default_batch input ''act1''"

definition sample_instances_env :: instance_env where
  "sample_instances_env =
    \<lparr>ie_createByType = (\<lambda>_. Inr (sample_instance False)), ie_instanceSchema = (\<lambda>_. None), ie_configSchema = (\<lambda>_. None),
     ie_localeLess = string_less\<rparr>"

definition sample_scheduling :: scheduling_env where
  "sample_scheduling = instance_env.extend sample_instances_env
    (scheduling_env.fields string_of_nat hint_only_decide (\<lambda>_. None))"

definition sample_engine :: engine where
  "sample_engine =
    \<lparr>wo_runs = [(''r'', sample_run)], wo_events = Some [], wo_clock = 0, en_ids = 0, en_inlineQueues = [], en_draining = [],
     en_scheduled = [], en_workerJobs = [], en_completionWaiters = [], en_webhookWaiters = [], en_completions = [],
     en_responses = [], en_errorNotices = []\<rparr>"

lemma fan_in_merges_all_witness:
  "mset (fan_in_merge string_less [(''b'', [sample_item ''x'']), (''a'', [sample_item ''y''])])
    = {#sample_item ''x'', sample_item ''y''#}"
proof -
  have "distinct (jkeys [(''b'', [sample_item ''x'']), (''a'', [sample_item ''y''])])" by simp
  from fan_in_merges_all [OF this, of string_less] show ?thesis by (simp add: add_mset_commute)
qed

lemma prepared_input_is_valid_witness:
  "\<exists>r'. prepare_request sample_instances_env (sample_request ''a'' None (SingleInput [sample_item ''x''])) = Inr r'
    \<and> ar_nodeId r' = ''a'' \<and> (\<forall>vs. it_json (sample_item ''x'') \<noteq> JArr vs)"
proof -
  let ?r = "sample_request ''a'' None (SingleInput [sample_item ''x''])"
  have i: "ie_createByType sample_instances_env (nc_type (nx_config (ar_ctx ?r))) = Inr (sample_instance False)"
    by (simp add: sample_instances_env_def)
  have run: "prepare_request sample_instances_env ?r = Inr ?r" by code_simp
  have "runs_per_item (sample_instance False)" by (simp add: runs_per_item_def sample_instance_def)
  moreover have "ar_input ?r = SingleInput [sample_item ''x'']" "ar_nodeId ?r = ''a''"
    by (simp_all add: sample_request_def make_request_def)
  ultimately show ?thesis using prepared_input_is_valid [OF run i] run by simp
qed

lemma scheduling_precedence_witness:
  "prepare_dispatch hint_only_decide
      (sample_request ''a'' (Some \<lparr>eh_hint = Some WorkerMode, eh_queue = Some ''gpu''\<rparr>) (MultiInput []))
    = Inl (multi_on_worker ''a'')"
  using scheduling_precedence [of hint_only_decide LocalMode
      "sample_request ''a'' (Some \<lparr>eh_hint = Some WorkerMode, eh_queue = Some ''gpu''\<rparr>) (MultiInput [])"]
  by (simp add: sample_request_def make_request_def create_node_context_def sample_exec_config_def)

lemma inline_scheduler_fifo_witness:
  "\<exists>e. inline_trace sample_engine [Dispatched (sample_request ''a'' None (SingleInput []))] e
    \<and> ''r'' \<in> set (en_scheduled e) \<union> set (en_draining e)"
proof -
  let ?q = "sample_request ''a'' None (SingleInput [])"
  have t: "inline_trace sample_engine ([] @ [Dispatched ?q]) (dispatch_inline ?q sample_engine)"
    by (intro inline_trace.dispatch inline_trace.start)
  have idle: "idle_engine sample_engine" by (simp add: idle_engine_def sample_engine_def)
  have "jget_list (en_inlineQueues (dispatch_inline ?q sample_engine)) ''r'' \<noteq> []"
    by (simp add: sample_request_def make_request_def)
  thus ?thesis using inline_scheduler_fifo [OF t idle, of "''r''"] t by auto
qed

definition sample_enqueue :: enqueue_request where
  "sample_enqueue =
    \<lparr>er_scope = sample_scope, er_startedAt = ''t0'', er_executionOptions = None, er_control = None,
     er_workflowSnapshot = None, er_mutableState = None, er_policySnapshot = None, er_pendingQueue = [],
     er_request = sample_request ''a'' None (SingleInput [sample_item ''x'']), er_previousSnapshots = [],
     er_engineCounters = None, er_connectionInvocations = None, er_suspension = None, er_pendingResume = None\<rparr>"

lemma enqueue_stores_and_dispatches_witness:
  "\<exists>p e'. snd (enqueue_with_snapshot sample_scheduling sample_enqueue sample_engine) = e' \<and> stored_as_pending sample_enqueue e' p"
proof -
  obtain r e' where run: "enqueue_with_snapshot sample_scheduling sample_enqueue sample_engine = (r, e')" by fastforce
  have "is_ok (fst (enqueue_with_snapshot sample_scheduling sample_enqueue sample_engine))" by code_simp
  then obtain x where x: "r = Inr x" using run by (auto simp: is_ok_iff)
  have "ar_runId (er_request sample_enqueue) = sc_runId (er_scope sample_enqueue)"
    by (simp add: sample_enqueue_def sample_request_def make_request_def sample_scope_def)
  from enqueue_stores_and_dispatches [OF run this] show ?thesis using run x by (auto split: prod.splits)
qed

end
