(* ===== verification/Continuation.thy ===== *)
theory Continuation
  imports Dispatch
begin

text \<open>
  \<open>orchestration/RunContinuationService.ts\<close>: what the engine does with the outcome of a node.  A handler is an
  action on the engine's world; its early returns and thrown errors are the branches of the action.  Parameters
  of the environment: how a stored run's workflow is found, node instances, the source of activation ids,
  storage resolvers and the error handlers of nodes and workflows (a node handler gives outputs or throws, a
  workflow handler is recorded in the world and may throw).
\<close>

section \<open>Environment and arguments\<close>

record handler_args =
  ha_isSingle :: bool
  ha_items :: items
  ha_inputsByPort :: "inputs_by_port option"
  ha_ctx :: node_context
  ha_error :: js_error

type_synonym node_handler = "handler_args \<Rightarrow> js_error + node_outputs"
type_synonym workflow_handler = "error_notice \<Rightarrow> js_error option"

record continuation_env = scheduling_env +
  ce_resolveWorkflow :: "workflow_id \<Rightarrow> workflow_snapshot option \<Rightarrow> workflow option"
  ce_limits :: limits_config
  ce_storage :: storage_resolver
  ce_newId :: "nat \<Rightarrow> activation_id"
  ce_inlineNodeHandler :: "nat \<Rightarrow> node_handler"
  ce_tokenNodeHandler :: "type_token \<Rightarrow> js_error + node_handler"
  ce_inlineErrorHandler :: "nat \<Rightarrow> workflow_handler"
  ce_tokenErrorHandler :: "type_token \<Rightarrow> js_error + workflow_handler"

record node_args =
  na_runId :: run_id
  na_activationId :: activation_id
  na_nodeId :: node_id

text \<open>An error value together with the properties a webhook control signal is recognised by.\<close>

datatype webhook_control_kind = RespondNow | RespondNowAndContinue

record webhook_signal =
  wc_kind :: webhook_control_kind
  wc_responseItems :: items
  wc_continueItems :: "items option"

record thrown_error =
  te_error :: js_error
  te_webhookControl :: bool
  te_kind :: string
  te_responseItems :: "items option"
  te_continueItems :: "items option"

definition as_webhook_signal :: "thrown_error \<Rightarrow> webhook_signal option" where
  "as_webhook_signal t =
    (if \<not> te_webhookControl t then None
     else if te_kind t \<noteq> ''respondNow'' \<and> te_kind t \<noteq> ''respondNowAndContinue'' then None
     else (case te_responseItems t of
             None \<Rightarrow> None
           | Some its \<Rightarrow>
               Some \<lparr>wc_kind = (if te_kind t = ''respondNow'' then RespondNow else RespondNowAndContinue),
                     wc_responseItems = its, wc_continueItems = te_continueItems t\<rparr>))"

definition next_id :: "(nat \<Rightarrow> activation_id) \<Rightarrow> (activation_id, engine) engine_action" where
  "next_id mk e = (Inr (mk (en_ids e)), e\<lparr>en_ids := Suc (en_ids e)\<rparr>)"

definition scope_of :: "run_state \<Rightarrow> snapshot_scope" where
  "scope_of st = \<lparr>sc_runId = rs_runId st, sc_workflowId = rs_workflowId st, sc_parent = rs_parent st\<rparr>"

definition header_of :: "run_state \<Rightarrow> run_header" where
  "header_of st = \<lparr>rh_runId = rs_runId st, rh_workflowId = rs_workflowId st, rh_startedAt = rs_startedAt st\<rparr>"

definition counted_activations :: "run_state \<Rightarrow> int" where
  "counted_activations st = opt_or (map_option ec_completedNodeActivations (rs_engineCounters st)) 0"

section \<open>What is read before anything happens\<close>

definition not_pending :: "run_id \<Rightarrow> js_error" where
  "not_pending r = plain_error (''Run '' @ r @ '' is not pending'')"

definition activation_mismatch :: "run_id \<Rightarrow> js_error" where
  "activation_mismatch r = plain_error (''activationId mismatch for run '' @ r)"

definition node_mismatch :: "run_id \<Rightarrow> js_error" where
  "node_mismatch r = plain_error (''nodeId mismatch for run '' @ r)"

definition unknown_workflow :: "workflow_id \<Rightarrow> js_error" where
  "unknown_workflow w = plain_error (''Unknown workflowId: '' @ w)"

definition not_runnable :: "node_id \<Rightarrow> js_error" where
  "not_runnable n = plain_error (''Node '' @ n @ '' is not a runnable node'')"

definition require_pending :: "node_args \<Rightarrow> run_state \<Rightarrow> scheduling_state option \<Rightarrow> js_error + pending_execution" where
  "require_pending na st sched =
    (if rs_status st \<noteq> RunPending then Inl (not_pending (na_runId na))
     else (case Option.bind sched ss_pending of
             None \<Rightarrow> Inl (not_pending (na_runId na))
           | Some pe \<Rightarrow>
               if pe_activationId pe \<noteq> na_activationId na then Inl (activation_mismatch (na_runId na))
               else if pe_nodeId pe \<noteq> na_nodeId na then Inl (node_mismatch (na_runId na))
               else Inr pe))"

definition resolve_persisted_workflow :: "continuation_env \<Rightarrow> run_state \<Rightarrow> workflow option" where
  "resolve_persisted_workflow env st = ce_resolveWorkflow env (rs_workflowId st) (rs_workflowSnapshot st)"

definition planner_for :: "continuation_env \<Rightarrow> workflow \<Rightarrow> js_error + planner" where
  "planner_for env w = create_planner (create_nodes (ie_createByType env)) w"

text \<open>The common start of a resumption: the run, its scheduling state, the pending execution, the workflow.\<close>

record resumption =
  rp_state :: run_state
  rp_scheduling :: "scheduling_state option"
  rp_pending :: pending_execution
  rp_workflow :: workflow

definition load_resumption :: "continuation_env \<Rightarrow> node_args \<Rightarrow> (resumption, engine) engine_action" where
  "load_resumption env na =
    then_do (gets_do (load_run (na_runId na))) (\<lambda>loaded.
    then_do (gets_do (load_scheduling_state (na_runId na))) (\<lambda>sched.
    then_do (expect_do loaded (unknown_run (na_runId na))) (\<lambda>st.
    then_do (lift_result (require_pending na st sched)) (\<lambda>pe.
    after_do (assert_do (pe_activationId pe = na_activationId na) (activation_mismatch (na_runId na)))
    (after_do (assert_do (pe_nodeId pe = na_nodeId na) (node_mismatch (na_runId na)))
    (then_do (expect_do (resolve_persisted_workflow env st) (unknown_workflow (rs_workflowId st))) (\<lambda>w.
      return_do \<lparr>rp_state = st, rp_scheduling = sched, rp_pending = pe, rp_workflow = w\<rparr>)))))))"

text \<open>The limits of a run, stored or of the root defaults, and the base context made from them.\<close>

record engine_limits =
  el_maxNodeActivations :: int
  el_maxSubworkflowDepth :: int

definition resolve_engine_limits :: "continuation_env \<Rightarrow> run_state \<Rightarrow> js_error + engine_limits" where
  "resolve_engine_limits env st =
    bind_result (create_root_execution_options (ce_limits env)) (\<lambda>fb.
      Inr \<lparr>el_maxNodeActivations =
             opt_or (Option.bind (rs_executionOptions st) eo_maxNodeActivations) (the (eo_maxNodeActivations fb)),
           el_maxSubworkflowDepth =
             opt_or (Option.bind (rs_executionOptions st) eo_maxSubworkflowDepth) (the (eo_maxSubworkflowDepth fb))\<rparr>)"

definition base_context_of :: "run_state \<Rightarrow> engine_limits \<Rightarrow> base_context" where
  "base_context_of st limits =
    \<lparr>bc_runId = rs_runId st, bc_workflowId = rs_workflowId st, bc_parent = rs_parent st,
     bc_policySnapshot = rs_policySnapshot st,
     bc_subworkflowDepth = opt_or (Option.bind (rs_executionOptions st) eo_subworkflowDepth) 0,
     bc_engineMaxNodeActivations = el_maxNodeActivations limits,
     bc_engineMaxSubworkflowDepth = el_maxSubworkflowDepth limits,
     bc_testContext = Option.bind (rs_executionOptions st) eo_testContext, bc_resumeContext = None\<rparr>"

definition activation_budget :: "continuation_env \<Rightarrow> run_state \<Rightarrow> js_error + int" where
  "activation_budget env st =
    (case Option.bind (rs_executionOptions st) eo_maxNodeActivations of
       Some m \<Rightarrow> Inr m
     | None \<Rightarrow> map_sum id (\<lambda>fb. the (eo_maxNodeActivations fb)) (create_root_execution_options (ce_limits env)))"

definition request_scope_of :: "run_state \<Rightarrow> base_context \<Rightarrow> run_data \<Rightarrow> request_scope" where
  "request_scope_of st base data =
    \<lparr>rq_runId = rs_runId st, rq_workflowId = rs_workflowId st, rq_parent = rs_parent st,
     rq_executionOptions = rs_executionOptions st, rq_base = base, rq_data = data\<rparr>"

section \<open>A node has started\<close>

definition mark_node_running :: "continuation_env \<Rightarrow> node_args \<Rightarrow> inputs_by_port \<Rightarrow> (unit, engine) engine_action" where
  "mark_node_running env na inputs =
    then_do (gets_do (load_run (na_runId na))) (\<lambda>loaded.
    then_do (gets_do (load_scheduling_state (na_runId na))) (\<lambda>sched.
      case loaded of
        None \<Rightarrow> return_do ()
      | Some st \<Rightarrow>
          (case Option.bind sched ss_pending of
             None \<Rightarrow> return_do ()
           | Some pe \<Rightarrow>
               if pe_activationId pe \<noteq> na_activationId na \<or> pe_nodeId pe \<noteq> na_nodeId na then return_do ()
               else then_do (now_do (se_clk env)) (\<lambda>startedAt.
                 let snap = snapshot_running (jget (rs_nodeSnapshotsByNodeId st) (na_nodeId na)) (scope_of st)
                              (na_nodeId na) (na_activationId na) startedAt inputs
                 in after_do (update_do (save_run
                      (st\<lparr>rs_nodeSnapshotsByNodeId := jset (na_nodeId na) snap (rs_nodeSnapshotsByNodeId st)\<rparr>)))
                      (publish_node NodeStartedEvent snap)))))"

section \<open>How a run ends\<close>

definition delete_after_terminal ::
  "continuation_env \<Rightarrow> workflow \<Rightarrow> run_state \<Rightarrow> final_status \<Rightarrow> iso_time \<Rightarrow> (unit, engine) engine_action" where
  "delete_after_terminal env w st fs finishedAt e =
    (case maybe_delete_after_terminal (ce_storage env) (Some delete_run) w st fs finishedAt e of
       Inl err \<Rightarrow> (Inl err, e)
     | Inr e1 \<Rightarrow> (Inr (), e1))"

text \<open>
  Every way to end a run stores the terminal state, announces the node, applies the storage policy, makes the result
  and tells the callers waiting for the run.
\<close>

definition finish_run ::
  "continuation_env \<Rightarrow> workflow \<Rightarrow> run_state \<Rightarrow> (unit, engine) engine_action \<Rightarrow> final_status \<Rightarrow> iso_time
    \<Rightarrow> (run_result, engine) engine_action \<Rightarrow> (run_result, engine) engine_action" where
  "finish_run env w terminal announce fs finishedAt mkResult =
    after_do (update_do (save_run terminal))
    (after_do announce
    (after_do (delete_after_terminal env w terminal fs finishedAt)
    (then_do mkResult (\<lambda>result.
      after_do (update_do (resolve_run_completion result)) (return_do result)))))"

definition notify_workflow_handler ::
  "continuation_env \<Rightarrow> workflow \<Rightarrow> run_state \<Rightarrow> node_id \<Rightarrow> js_error \<Rightarrow> iso_time \<Rightarrow> (unit, engine) engine_action" where
  "notify_workflow_handler env w st n err finishedAt =
    then_do (lift_result (resolve_workflow_error_handler (ce_inlineErrorHandler env) (ce_tokenErrorHandler env)
        (wf_workflowErrorHandler w))) (\<lambda>handler.
      case handler of
        None \<Rightarrow> return_do ()
      | Some h \<Rightarrow>
          let notice = \<lparr>no_runId = rs_runId st, no_workflowId = rs_workflowId st, no_workflow = w, no_failedNodeId = n,
                no_error = err, no_startedAt = rs_startedAt st, no_finishedAt = finishedAt\<rparr>
          in after_do (update_do (\<lambda>e. e\<lparr>en_errorNotices := en_errorNotices e @ [notice]\<rparr>))
               (case h notice of None \<Rightarrow> return_do () | Some thrown \<Rightarrow> throw_do thrown))"

section \<open>Human decisions\<close>

datatype hitl_resolution = HitlContinue node_status | HitlHalt node_status halt_reason

fun hitl_node_status :: "hitl_resolution \<Rightarrow> node_status" where
  "hitl_node_status (HitlContinue s) = s"
| "hitl_node_status (HitlHalt s _) = s"

definition resolve_hitl_status :: "node_outputs \<Rightarrow> hitl_resolution option" where
  "resolve_hitl_status outs =
    (case jget_list outs ''main'' of
       [] \<Rightarrow> None
     | it # _ \<Rightarrow>
         (case js_field (js_field (it_json it) ''decision'') ''status'' of
            JStr s \<Rightarrow>
              if s = ''approved'' then Some (HitlContinue NsHitlApproved)
              else if s = ''auto-accepted'' then Some (HitlContinue NsHitlAutoAccepted)
              else if s = ''rejected'' then Some (HitlHalt NsHitlRejected HitlRejected)
              else if s = ''timed-out'' then Some (HitlHalt NsHitlTimeout HitlTimeout)
              else None
          | _ \<Rightarrow> None))"

section \<open>Completing a node\<close>

text \<open>What is known of a completed node before the next activation is planned.\<close>

record completion =
  cp_workflow :: workflow
  cp_planner :: planner
  cp_state :: run_state
  cp_nodeId :: node_id
  cp_data :: run_data
  cp_snapshot :: node_snapshot
  cp_counters :: engine_counters
  cp_at :: iso_time

definition completed_snapshots :: "completion \<Rightarrow> (node_id, node_snapshot) jmap" where
  "completed_snapshots c = jset (cp_nodeId c) (cp_snapshot c) (rs_nodeSnapshotsByNodeId (cp_state c))"

definition announce_completed :: "completion \<Rightarrow> (unit, engine) engine_action" where
  "announce_completed c = publish_node NodeCompletedEvent (cp_snapshot c)"

definition halt_run :: "continuation_env \<Rightarrow> completion \<Rightarrow> halt_reason \<Rightarrow> (run_result, engine) engine_action" where
  "halt_run env c reason =
    (let st = cp_state c;
         counters = opt_or (rs_engineCounters st) \<lparr>ec_completedNodeActivations = 0\<rparr>;
         halted = merge_terminal st counters RunHalted (Some reason) [] (dump_run_data (cp_data c))
                    (completed_snapshots c) (Some (cp_at c))
     in finish_run env (cp_workflow c) halted (announce_completed c) FinalFailed (cp_at c)
          (return_do (ResHalted (header_of st) reason)))"

definition complete_at_stop ::
  "continuation_env \<Rightarrow> completion \<Rightarrow> (unit, engine) engine_action \<Rightarrow> (run_result, engine) engine_action" where
  "complete_at_stop env c respond =
    (let st = cp_state c;
         completed = merge_terminal st (cp_counters c) RunCompleted None [] (dump_run_data (cp_data c))
                       (completed_snapshots c) (Some (cp_at c))
     in finish_run env (cp_workflow c) completed (announce_completed c) FinalCompleted (cp_at c)
          (after_do respond
            (then_do (lift_result (resolve_result_outputs (cp_workflow c)
                 (Option.bind (rs_control st) rc_stopCondition) (dump_run_data (cp_data c))))
              (\<lambda>outs. return_do (ResCompleted (header_of st) outs)))))"

text \<open>No activation is left: the result is the main output of the last executable node.\<close>

definition complete_run ::
  "continuation_env \<Rightarrow> completion \<Rightarrow> (node_id, node_snapshot) jmap \<Rightarrow> (unit, engine) engine_action
    \<Rightarrow> (run_result, engine) engine_action" where
  "complete_run env c snaps respond =
    then_do (lift_result (last_executable_id (cp_workflow c))) (\<lambda>lastId.
      let st = cp_state c;
          outs = get_output_items (cp_data c) lastId ''main'';
          completed = merge_terminal st (cp_counters c) RunCompleted None [] (dump_run_data (cp_data c)) snaps
                        (Some (cp_at c))
      in finish_run env (cp_workflow c) completed (announce_completed c) FinalCompleted (cp_at c)
           (after_do respond (return_do (ResCompleted (header_of st) outs))))"

fun planned_node :: "planned_activation \<Rightarrow> node_id" where
  "planned_node (SingleActivation n _ _) = n"
| "planned_node (MultiActivation n _ _) = n"

definition budget_message :: "int \<Rightarrow> int \<Rightarrow> node_id \<Rightarrow> string" where
  "budget_message budget completed nextNode =
    ''Run exceeded maxNodeActivations ('' @ string_of_int budget @ '') after '' @ string_of_int completed
      @ '' completed node activations (next would be '' @ nextNode @ '').''"

definition exceed_budget ::
  "continuation_env \<Rightarrow> completion \<Rightarrow> (node_id, node_snapshot) jmap \<Rightarrow> run_queue \<Rightarrow> string
    \<Rightarrow> (unit, engine) engine_action \<Rightarrow> (run_result, engine) engine_action" where
  "exceed_budget env c snaps queue message respond =
    (let st = cp_state c;
         failed = merge_terminal st (cp_counters c) RunFailed None queue (dump_run_data (cp_data c)) snaps (Some (cp_at c))
     in finish_run env (cp_workflow c) failed (announce_completed c) FinalFailed (cp_at c)
          (after_do respond (return_do (ResFailed (header_of st) message))))"

text \<open>The next activation was planned but could not be enqueued: its node is marked failed and the run ends.\<close>

definition terminate_rejected ::
  "continuation_env \<Rightarrow> completion \<Rightarrow> (node_id, node_snapshot) jmap \<Rightarrow> run_queue \<Rightarrow> node_id \<Rightarrow> activation_request
    \<Rightarrow> js_error \<Rightarrow> (run_result, engine) engine_action" where
  "terminate_rejected env c snaps queue nextNode request err =
    (let st = cp_state c;
         failedSnap = snapshot_failed None (scope_of st) nextNode (ar_activationId request) (cp_at c)
                        (inputs_of_request request) err;
         failed = merge_terminal st (cp_counters c) RunFailed None queue (dump_run_data (cp_data c))
                    (jset nextNode failedSnap snaps) (Some (cp_at c))
     in finish_run env (cp_workflow c) failed
          (after_do (announce_completed c)
            (after_do (publish_node NodeFailedEvent failedSnap)
              (notify_workflow_handler env (cp_workflow c) st nextNode err (cp_at c))))
          FinalFailed (cp_at c) (return_do (ResFailed (header_of st) (err_message err))))"

text \<open>The arguments handed to the enqueue service: neither suspensions nor a pending resume are among them.\<close>

definition next_enqueue ::
  "run_state \<Rightarrow> engine_counters \<Rightarrow> (node_id, node_snapshot) jmap \<Rightarrow> run_queue \<Rightarrow> activation_request \<Rightarrow> enqueue_request" where
  "next_enqueue st counters snaps queue request =
    \<lparr>er_scope = scope_of st, er_startedAt = rs_startedAt st, er_executionOptions = rs_executionOptions st,
     er_control = rs_control st, er_workflowSnapshot = rs_workflowSnapshot st, er_mutableState = rs_mutableState st,
     er_policySnapshot = rs_policySnapshot st, er_pendingQueue = queue, er_request = request,
     er_previousSnapshots = snaps, er_engineCounters = Some counters,
     er_connectionInvocations = Some (opt_or (rs_connectionInvocations st) []),
     er_suspension = None, er_pendingResume = None\<rparr>"

definition enqueue_next ::
  "continuation_env \<Rightarrow> completion \<Rightarrow> (node_id, node_snapshot) jmap \<Rightarrow> run_queue \<Rightarrow> planned_activation
    \<Rightarrow> base_context \<Rightarrow> node_def \<Rightarrow> (run_result, engine) engine_action" where
  "enqueue_next env c snaps queue nxt base d =
    then_do (next_id (ce_newId env)) (\<lambda>act.
      let st = cp_state c;
          request = create_from_planned (request_scope_of st base (cp_data c)) nxt d act
      in catch_do
           (then_do (enqueue_with_snapshot (scheduling_env.truncate env) (next_enqueue st (cp_counters c) snaps queue request))
             (\<lambda>(result, queuedSnap).
               after_do (announce_completed c)
                 (after_do (publish_node NodeQueuedEvent queuedSnap) (return_do result))))
           (terminate_rejected env c snaps queue (planned_node nxt) request))"

text \<open>The node definition the next activation runs.\<close>

definition runnable_definition :: "planner \<Rightarrow> node_id \<Rightarrow> js_error + node_def" where
  "runnable_definition pl n =
    (case jget (tp_defsById (pl_topology pl)) n of
       Some d \<Rightarrow> if nd_kind d = NodeKind then Inr d else Inl (not_runnable n)
     | None \<Rightarrow> Inl (not_runnable n))"

definition batch_of :: "pending_execution \<Rightarrow> string" where
  "batch_of pe = opt_or (pe_batchId pe) default_batch"

text \<open>Queue entries stored without a batch belong to the batch of the completed activation.\<close>

definition scheduled_queue :: "scheduling_state option \<Rightarrow> string \<Rightarrow> run_queue" where
  "scheduled_queue sched b =
    map (\<lambda>q. q\<lparr>qe_batchId := Some (opt_or (qe_batchId q) b)\<rparr>) (opt_or (map_option ss_queue sched) [])"

definition node_label :: "node_def option \<Rightarrow> node_id \<Rightarrow> string" where
  "node_label d n =
    (let tokenName = opt_or (Option.bind d (\<lambda>x. token_class_name (nd_type x))) ''Node'';
         name = Option.bind d nd_name
     in if truthy_string name then quoted (the name) @ '' ('' @ tokenName @ '':'' @ n @ '')'' else tokenName @ '':'' @ n)"

definition output_counts :: "node_outputs \<Rightarrow> string" where
  "output_counts outs =
    (if outs = [] then ''no outputs''
     else join_strings '', '' (map (\<lambda>(port, its). port @ ''='' @ string_of_nat (length its)) outs))"

definition planning_failed :: "planner \<Rightarrow> node_id \<Rightarrow> node_outputs \<Rightarrow> js_error \<Rightarrow> js_error" where
  "planning_failed pl n outs cause =
    plain_error (''After completing '' @ node_label (jget (tp_defsById (pl_topology pl)) n) n
      @ '', the engine could not plan the next activation. '' @ err_message cause @ '' Outputs: '' @ output_counts outs @ ''.'')"

text \<open>The queue after the node: its outputs delivered, entries of pinned nodes taken out.\<close>

definition queue_after ::
  "completion \<Rightarrow> run_queue \<Rightarrow> node_outputs \<Rightarrow> string \<Rightarrow> js_error + pinned_state" where
  "queue_after c queue outs b =
    bind_result (apply_outputs (cp_planner c) queue (cp_nodeId c) outs b) (\<lambda>queue1.
      case apply_pinned_queue_skips (scope_of (cp_state c)) (cp_planner c) (rs_mutableState (cp_state c)) (cp_at c)
             \<lparr>pk_queue = queue1, pk_data = cp_data c, pk_snapshots = completed_snapshots c\<rparr> of
        None \<Rightarrow> Inl stack_overflow
      | Some r \<Rightarrow> r)"

text \<open>The part after the stop condition.\<close>

definition continue_run ::
  "continuation_env \<Rightarrow> completion \<Rightarrow> resumption \<Rightarrow> node_outputs \<Rightarrow> base_context \<Rightarrow> int \<Rightarrow> (run_result, engine) engine_action" where
  "continue_run env c rp outs base budget =
    (let b = batch_of (rp_pending rp)
     in then_do (lift_result (queue_after c (scheduled_queue (rp_scheduling rp) b) outs b)) (\<lambda>pk.
        then_do (lift_result (map_sum (planning_failed (cp_planner c) (cp_nodeId c) outs) id
            (next_activation (cp_planner c) (pk_queue pk)))) (\<lambda>(nxt, queue).
          let c1 = c\<lparr>cp_data := pk_data pk\<rparr>;
              done = ec_completedNodeActivations (cp_counters c)
          in case nxt of
               None \<Rightarrow> complete_run env c1 (pk_snapshots pk) (return_do ())
             | Some act \<Rightarrow>
                 if budget \<le> done
                 then exceed_budget env c1 (pk_snapshots pk) queue (budget_message budget done (planned_node act)) (return_do ())
                 else then_do (lift_result (runnable_definition (cp_planner c) (planned_node act))) (\<lambda>d.
                        enqueue_next env c1 (pk_snapshots pk) queue act base d))))"

definition resume_from_node_result ::
  "continuation_env \<Rightarrow> node_args \<Rightarrow> node_outputs \<Rightarrow> (run_result, engine) engine_action" where
  "resume_from_node_result env na outs =
    then_do (load_resumption env na) (\<lambda>rp.
    then_do (lift_result (planner_for env (rp_workflow rp))) (\<lambda>pl.
    then_do (lift_result (resolve_engine_limits env (rp_state rp))) (\<lambda>limits.
    then_do (now_do (se_clk env)) (\<lambda>completedAt.
      let st = rp_state rp;
          n = na_nodeId na;
          hitl = resolve_hitl_status outs;
          snap = create_finished_snapshot (rp_workflow rp) (jget (rs_nodeSnapshotsByNodeId st) n) (scope_of st) n
                   (na_activationId na) completedAt (pe_inputsByPort (rp_pending rp)) outs
                   (map_option hitl_node_status hitl);
          c = \<lparr>cp_workflow = rp_workflow rp, cp_planner = pl, cp_state = st, cp_nodeId = n,
               cp_data = set_outputs n outs (create_run_data (Some (rs_outputsByNode st))), cp_snapshot = snap,
               cp_counters = \<lparr>ec_completedNodeActivations = counted_activations st + 1\<rparr>, cp_at = completedAt\<rparr>
      in case hitl of
           Some (HitlHalt _ reason) \<Rightarrow> halt_run env c reason
         | _ \<Rightarrow>
             then_do (lift_result (activation_budget env st)) (\<lambda>budget.
               if is_stop_condition_satisfied (Option.bind (rs_control st) rc_stopCondition) n
               then complete_at_stop env c (return_do ())
               else continue_run env c rp outs (base_context_of st limits) budget)))))"

section \<open>A webhook trigger answers by an error\<close>

definition answer_webhook :: "run_state \<Rightarrow> webhook_status \<Rightarrow> webhook_signal \<Rightarrow> (unit, engine) engine_action" where
  "answer_webhook st status signal =
    update_do (resolve_webhook_response
      \<lparr>wr_header = header_of st, wr_runStatus = status, wr_response = wc_responseItems signal\<rparr>)"

definition respond_now ::
  "continuation_env \<Rightarrow> completion \<Rightarrow> webhook_signal \<Rightarrow> (run_result, engine) engine_action" where
  "respond_now env c signal =
    (let st = cp_state c;
         completed = merge_terminal st (cp_counters c) RunCompleted None [] (dump_run_data (cp_data c))
                       (completed_snapshots c) (Some (cp_at c))
     in finish_run env (cp_workflow c) completed (announce_completed c) FinalCompleted (cp_at c)
          (after_do (answer_webhook st WhCompleted signal)
            (return_do (ResCompleted (header_of st) (wc_responseItems signal)))))"

text \<open>The activation after the trigger is enqueued first, then the caller of the webhook is answered.\<close>

definition enqueue_after_webhook ::
  "continuation_env \<Rightarrow> completion \<Rightarrow> (node_id, node_snapshot) jmap \<Rightarrow> run_queue \<Rightarrow> planned_activation \<Rightarrow> node_def
    \<Rightarrow> webhook_signal \<Rightarrow> (run_result, engine) engine_action" where
  "enqueue_after_webhook env c snaps queue nxt d signal =
    then_do (lift_result (resolve_engine_limits env (cp_state c))) (\<lambda>limits.
    then_do (enqueue_next env c snaps queue nxt (base_context_of (cp_state c) limits) d) (\<lambda>result.
      after_do (answer_webhook (cp_state c) WhPending signal) (return_do result)))"

text \<open>Unlike the continuation of a node, this one leaves entries of pinned nodes in the queue.\<close>

definition continue_webhook ::
  "continuation_env \<Rightarrow> completion \<Rightarrow> resumption \<Rightarrow> node_outputs \<Rightarrow> int \<Rightarrow> webhook_signal \<Rightarrow> (run_result, engine) engine_action" where
  "continue_webhook env c rp outs budget signal =
    (let st = cp_state c; b = batch_of (rp_pending rp); snaps = completed_snapshots c;
         done = ec_completedNodeActivations (cp_counters c)
     in then_do (lift_result (apply_outputs (cp_planner c) (scheduled_queue (rp_scheduling rp) b) (cp_nodeId c) outs b)) (\<lambda>queue1.
        then_do (lift_result (next_activation (cp_planner c) queue1)) (\<lambda>(nxt, queue).
          case nxt of
            None \<Rightarrow> complete_run env c snaps (answer_webhook st WhCompleted signal)
          | Some act \<Rightarrow>
              if budget \<le> done
              then exceed_budget env c snaps queue (budget_message budget done (planned_node act)) (answer_webhook st WhPending signal)
              else then_do (lift_result (runnable_definition (cp_planner c) (planned_node act))) (\<lambda>d.
                   enqueue_after_webhook env c snaps queue act d signal))))"

definition resume_from_webhook_control ::
  "continuation_env \<Rightarrow> node_args \<Rightarrow> resumption \<Rightarrow> webhook_signal \<Rightarrow> (run_result, engine) engine_action" where
  "resume_from_webhook_control env na rp signal =
    then_do (lift_result (planner_for env (rp_workflow rp))) (\<lambda>pl.
    then_do (now_do (se_clk env)) (\<lambda>finishedAt.
      let st = rp_state rp;
          n = na_nodeId na;
          continued = (case wc_kind signal of
                         RespondNowAndContinue \<Rightarrow> opt_or (wc_continueItems signal) []
                       | RespondNow \<Rightarrow> wc_responseItems signal);
          outs = [(''main'', continued)];
          snap = create_finished_snapshot (rp_workflow rp) (jget (rs_nodeSnapshotsByNodeId st) n) (scope_of st) n
                   (na_activationId na) finishedAt (pe_inputsByPort (rp_pending rp)) outs None;
          c = \<lparr>cp_workflow = rp_workflow rp, cp_planner = pl, cp_state = st, cp_nodeId = n,
               cp_data = set_outputs n outs (create_run_data (Some (rs_outputsByNode st))), cp_snapshot = snap,
               cp_counters = \<lparr>ec_completedNodeActivations = counted_activations st + 1\<rparr>, cp_at = finishedAt\<rparr>
      in then_do (lift_result (activation_budget env st)) (\<lambda>budget.
           if is_stop_condition_satisfied (Option.bind (rs_control st) rc_stopCondition) n
           then complete_at_stop env c (answer_webhook st WhCompleted signal)
           else if wc_kind signal = RespondNow then respond_now env c signal
           else continue_webhook env c rp outs budget signal)))"

section \<open>A node has failed\<close>

definition context_for_pending :: "continuation_env \<Rightarrow> resumption \<Rightarrow> node_def \<Rightarrow> node_id \<Rightarrow> js_error + node_context" where
  "context_for_pending env rp d n =
    bind_result (resolve_engine_limits env (rp_state rp)) (\<lambda>limits.
      Inr (create_node_context (base_context_of (rp_state rp) limits)
             (create_run_data (Some (rs_outputsByNode (rp_state rp)))) n (nd_config d) (pe_activationId (rp_pending rp))))"

text \<open>The body of the \<open>try\<close>: the handler's outputs stand for those of the node.\<close>

definition recover_node ::
  "continuation_env \<Rightarrow> node_args \<Rightarrow> resumption \<Rightarrow> node_def \<Rightarrow> node_handler \<Rightarrow> js_error \<Rightarrow> (run_result, engine) engine_action" where
  "recover_node env na rp d handler err =
    then_do (lift_result (context_for_pending env rp d (na_nodeId na))) (\<lambda>ctx.
      let inputs = pe_inputsByPort (rp_pending rp);
          single = (jkeys inputs = [''in''])
      in then_do (lift_result (handler
             \<lparr>ha_isSingle = single, ha_items = jget_list inputs ''in'',
              ha_inputsByPort = (if single then None else Some inputs), ha_ctx = ctx, ha_error = err\<rparr>)) (\<lambda>recovered.
           resume_from_node_result env na recovered))"

definition fail_run :: "continuation_env \<Rightarrow> node_args \<Rightarrow> resumption \<Rightarrow> js_error \<Rightarrow> (run_result, engine) engine_action" where
  "fail_run env na rp err =
    then_do (now_do (se_clk env)) (\<lambda>finishedAt.
      let st = rp_state rp;
          n = na_nodeId na;
          snap = snapshot_failed (jget (rs_nodeSnapshotsByNodeId st) n) (scope_of st) n (na_activationId na) finishedAt
                   (pe_inputsByPort (rp_pending rp)) err;
          counters = opt_or (rs_engineCounters st) \<lparr>ec_completedNodeActivations = 0\<rparr>;
          failed = merge_terminal st counters RunFailed None (opt_or (map_option ss_queue (rp_scheduling rp)) [])
                     (rs_outputsByNode st) (jset n snap (rs_nodeSnapshotsByNodeId st)) (Some finishedAt)
      in finish_run env (rp_workflow rp) failed
           (after_do (publish_node NodeFailedEvent snap)
             (notify_workflow_handler env (rp_workflow rp) st n err finishedAt))
           FinalFailed finishedAt (return_do (ResFailed (header_of st) (err_message err))))"

definition webhook_signal_of :: "resumption \<Rightarrow> node_id \<Rightarrow> thrown_error \<Rightarrow> webhook_signal option" where
  "webhook_signal_of rp n thrown =
    (case jget (tp_defsById (topology_of (rp_workflow rp))) n of
       Some d \<Rightarrow>
         if Option.bind (rs_executionOptions (rp_state rp)) eo_webhook = Some True \<and> nd_kind d = TriggerKind
         then as_webhook_signal thrown else None
     | None \<Rightarrow> None)"

definition resume_from_node_error ::
  "continuation_env \<Rightarrow> node_args \<Rightarrow> thrown_error \<Rightarrow> (run_result, engine) engine_action" where
  "resume_from_node_error env na thrown =
    then_do (load_resumption env na) (\<lambda>rp.
      case webhook_signal_of rp (na_nodeId na) thrown of
        Some signal \<Rightarrow> resume_from_webhook_control env na rp signal
      | None \<Rightarrow>
          (case jget (tp_defsById (topology_of (rp_workflow rp))) (na_nodeId na) of
             Some d \<Rightarrow>
               if nd_kind d \<noteq> NodeKind then fail_run env na rp (te_error thrown)
               else then_do (lift_result (resolve_node_error_handler (ce_inlineNodeHandler env) (ce_tokenNodeHandler env)
                        (nc_nodeErrorHandler (nd_config d)))) (\<lambda>handler.
                      case handler of
                        None \<Rightarrow> fail_run env na rp (te_error thrown)
                      | Some h \<Rightarrow>
                          catch_do (recover_node env na rp d h (te_error thrown)) (\<lambda>_. fail_run env na rp (te_error thrown)))
           | None \<Rightarrow> fail_run env na rp (te_error thrown)))"

section \<open>Waiting for a run\<close>

text \<open>The result if the run has ended; otherwise the caller is registered and told later.\<close>

definition wait_for_completion :: "continuation_env \<Rightarrow> run_id \<Rightarrow> nat \<Rightarrow> (run_result option, engine) engine_action" where
  "wait_for_completion env r who =
    then_do (gets_do (load_run r)) (\<lambda>existing.
      case existing of
        Some st \<Rightarrow>
          (case rs_status st of
             RunCompleted \<Rightarrow>
               then_do (lift_result (case resolve_persisted_workflow env st of
                   Some w \<Rightarrow> resolve_result_outputs w (Option.bind (rs_control st) rc_stopCondition) (rs_outputsByNode st)
                 | None \<Rightarrow> Inr [])) (\<lambda>outs. return_do (Some (ResCompleted (header_of st) outs)))
           | RunFailed \<Rightarrow> return_do (Some (ResFailed (header_of st) ''Run failed''))
           | RunHalted \<Rightarrow> return_do (Some (ResHalted (header_of st) (opt_or (rs_reason st) HitlRejected)))
           | _ \<Rightarrow> after_do (update_do (wait_for_completion_of r who)) (return_do None))
      | None \<Rightarrow> after_do (update_do (wait_for_completion_of r who)) (return_do None))"

section \<open>Resuming a suspended run\<close>

definition not_suspended :: "run_id \<Rightarrow> string \<Rightarrow> js_error" where
  "not_suspended r status = plain_error (''Run '' @ r @ '' is not suspended (status: '' @ status @ '')'')"

definition no_suspension_entry :: "string \<Rightarrow> run_id \<Rightarrow> js_error" where
  "no_suspension_entry t r =
    plain_error (''No suspension entry with taskId '' @ quoted t @ '' found on run '' @ r)"

fun run_status_text :: "run_status \<Rightarrow> string" where
  "run_status_text RunRunning = ''running''"
| "run_status_text RunPending = ''pending''"
| "run_status_text RunCompleted = ''completed''"
| "run_status_text RunFailed = ''failed''"
| "run_status_text RunSuspended = ''suspended''"
| "run_status_text RunHalted = ''halted''"

text \<open>The items of the first upstream node, or the one of them the suspension is about.\<close>

definition resume_input :: "workflow \<Rightarrow> run_data \<Rightarrow> suspension_entry \<Rightarrow> items" where
  "resume_input w data entry =
    (let parentEdges = filter (\<lambda>e. ir_node (e_to e) = se_nodeId entry) (wf_edges w);
         parentItems = (case parentEdges of
             [] \<Rightarrow> []
           | e # _ \<Rightarrow> if or_node (e_from e) = [] then [] else get_output_items data (or_node (e_from e)) (or_output (e_from e)))
     in if se_itemIndex entry < length parentItems then [parentItems ! se_itemIndex entry] else parentItems)"

definition resume_enqueue ::
  "run_state \<Rightarrow> activation_request \<Rightarrow> suspension_entry list \<Rightarrow> pending_resume \<Rightarrow> enqueue_request" where
  "resume_enqueue st request remaining pr =
    \<lparr>er_scope = scope_of st, er_startedAt = rs_startedAt st, er_executionOptions = rs_executionOptions st,
     er_control = rs_control st, er_workflowSnapshot = rs_workflowSnapshot st, er_mutableState = rs_mutableState st,
     er_policySnapshot = rs_policySnapshot st, er_pendingQueue = [], er_request = request,
     er_previousSnapshots = rs_nodeSnapshotsByNodeId st, er_engineCounters = rs_engineCounters st,
     er_connectionInvocations = Some (opt_or (rs_connectionInvocations st) []),
     er_suspension = (if remaining = [] then None else Some remaining), er_pendingResume = Some pr\<rparr>"

definition resume_run ::
  "continuation_env \<Rightarrow> run_id \<Rightarrow> string \<Rightarrow> resume_context \<Rightarrow> (run_result, engine) engine_action" where
  "resume_run env r taskId ctx =
    then_do (gets_do (load_run r)) (\<lambda>loaded.
    then_do (expect_do loaded (unknown_run r)) (\<lambda>st.
    after_do (assert_do (rs_status st = RunSuspended) (not_suspended r (run_status_text (rs_status st))))
    (then_do (expect_do (find (\<lambda>s. se_taskId s = taskId) (opt_or (rs_suspension st) [])) (no_suspension_entry taskId r)) (\<lambda>entry.
    then_do (expect_do (resolve_persisted_workflow env st) (unknown_workflow (rs_workflowId st))) (\<lambda>w.
    then_do (lift_result (planner_for env w)) (\<lambda>pl.
    then_do (lift_result (runnable_definition pl (se_nodeId entry))) (\<lambda>d.
    then_do (lift_result (resolve_engine_limits env st)) (\<lambda>limits.
    then_do (next_id (ce_newId env)) (\<lambda>act.
      let data = create_run_data (Some (rs_outputsByNode st));
          base = (base_context_of st limits)\<lparr>bc_resumeContext := Some ctx\<rparr>;
          request = create_single_with_activation (request_scope_of st base data) (se_nodeId entry) (nd_config d)
                      (''resume_'' @ act) (resume_input w data entry) act;
          pr = \<lparr>pu_activationId = act, pu_nodeId = se_nodeId entry, pu_resumeContext = ctx\<rparr>;
          remaining = filter (\<lambda>s. se_taskId s \<noteq> taskId) (opt_or (rs_suspension st) [])
      in then_do (enqueue_with_snapshot (scheduling_env.truncate env) (resume_enqueue st request remaining pr))
           (\<lambda>(result, queuedSnap). after_do (publish_node NodeQueuedEvent queuedSnap) (return_do result)))))))))))"

end
