(* ===== verification/RunLifecycle.thy ===== *)
theory RunLifecycle
  imports Continuation
begin

text \<open>
  What the resumptions of \<open>Continuation\<close> do to a run: an outcome of another activation changes nothing, an outcome of
  the awaited one either ends the run or makes it wait for one new activation, and a run that ended stays as it is.
\<close>

section \<open>Actions that leave runs, jobs and waiting callers alone\<close>

definition core :: "engine \<Rightarrow> _" where
  "core e = (wo_runs e, en_ids e, en_inlineQueues e, en_workerJobs e, en_completionWaiters e, en_completions e)"

definition quiet :: "('a, engine) engine_action \<Rightarrow> bool" where
  "quiet m = (\<forall>k. keeps (\<lambda>e. core e = k) m)"

lemma quietD:
  assumes "quiet m" "m e = (r, e')"
  shows "core e' = core e"
proof -
  have "keeps (\<lambda>x. core x = core e) m" using assms(1) unfolding quiet_def by blast
  from keeps_result [OF this refl assms(2)] show ?thesis .
qed

lemma quiet_load: "quiet m \<Longrightarrow> m e = (r, e') \<Longrightarrow> load_run s e' = load_run s e"
  by (drule (1) quietD) (simp add: core_def load_run_def)

lemma core_now [simp]: "core (e\<lparr>wo_clock := k\<rparr>) = core e"
  by (simp add: core_def)

lemma publish_node_core: "core (publish_event ev e) = core e"
  by (simp add: core_def publish_event_def)

lemma quiet_publish [intro]: "quiet (publish_node k snap)"
  by (auto simp: quiet_def publish_node_def publish_node_core intro!: keeps_update)

lemma quiet_now [intro]: "quiet (now_do clk)"
  by (auto simp: quiet_def keeps_def now_do_def core_def)

lemma quiet_return [intro]: "quiet (return_do x)"
  and quiet_throw [intro]: "quiet (throw_do er)"
  and quiet_lift [intro]: "quiet (lift_result y)"
  by (auto simp: quiet_def intro: keeps_intros)

lemma quiet_then [intro]: "quiet m \<Longrightarrow> (\<And>x. quiet (f x)) \<Longrightarrow> quiet (then_do m f)"
  by (auto simp: quiet_def intro: keeps_intros)

lemma quiet_case_option [intro]: "quiet m \<Longrightarrow> (\<And>x. quiet (f x)) \<Longrightarrow> quiet (case y of None \<Rightarrow> m | Some x \<Rightarrow> f x)"
  by (simp split: option.split)

lemma quiet_notify [intro]: "quiet (notify_workflow_handler env w st n err t)"
  unfolding notify_workflow_handler_def Let_def
  by (intro quiet_then quiet_case_option quiet_return quiet_throw quiet_lift)
     (auto simp: quiet_def core_def intro!: keeps_update)

lemma quiet_answer [intro]: "quiet (answer_webhook st status signal)"
  by (auto simp: quiet_def answer_webhook_def resolve_webhook_response_def Let_def core_def intro!: keeps_update split: list.split)

lemma quiet_announce [intro]: "quiet (announce_completed c)"
  by (simp add: announce_completed_def quiet_publish)

section \<open>Reading the start of a resumption\<close>

definition awaits :: "run_state \<Rightarrow> node_args \<Rightarrow> bool" where
  "awaits st na =
    (rs_status st = RunPending \<and>
     (case rs_pending st of None \<Rightarrow> False | Some pe \<Rightarrow> pe_activationId pe = na_activationId na \<and> pe_nodeId pe = na_nodeId na))"

lemma load_scheduling_run: "load_scheduling_state r e =
    map_option (\<lambda>st. \<lparr>ss_pending = rs_pending st, ss_queue = rs_queue st\<rparr>) (load_run r e)"
  by (simp add: load_scheduling_state_def load_run_def split: option.split)

lemma ignorable_errors:
  "is_ignorable (not_pending r)" "is_ignorable (activation_mismatch r)" "is_ignorable (node_mismatch r)"
proof -
  have "str_includes '' is not pending'' (''Run '' @ r @ '' is not pending'')"
    unfolding str_includes_iff by (metis append.right_neutral append_assoc)
  thus "is_ignorable (not_pending r)" by (simp add: is_ignorable_def not_pending_def)
  have "str_includes ''activationId mismatch'' (''activationId mismatch for run '' @ r)"
    unfolding str_includes_iff by (intro exI [of _ "[]"] exI [of _ "'' for run '' @ r"]) simp
  thus "is_ignorable (activation_mismatch r)" by (simp add: is_ignorable_def activation_mismatch_def)
  have "str_includes ''nodeId mismatch'' (''nodeId mismatch for run '' @ r)"
    unfolding str_includes_iff by (intro exI [of _ "[]"] exI [of _ "'' for run '' @ r"]) simp
  thus "is_ignorable (node_mismatch r)" by (simp add: is_ignorable_def node_mismatch_def)
qed

lemma require_pending_Inr:
  "require_pending na st (Some \<lparr>ss_pending = rs_pending st, ss_queue = rs_queue st\<rparr>) = Inr pe \<longleftrightarrow>
    awaits st na \<and> rs_pending st = Some pe"
  by (auto simp: require_pending_def awaits_def split: option.split)

lemma require_pending_Inl:
  assumes "\<not> awaits st na"
  shows "\<exists>err. is_ignorable err \<and>
    require_pending na st (Some \<lparr>ss_pending = rs_pending st, ss_queue = rs_queue st\<rparr>) = Inl err"
  using assms by (auto simp: require_pending_def awaits_def ignorable_errors split: option.split)

lemma load_resumption_stale:
  assumes "load_run (na_runId na) e = Some st" "\<not> awaits st na"
  shows "\<exists>err. is_ignorable err \<and> load_resumption env na e = (Inl err, e)"
proof -
  obtain err where "is_ignorable err"
    "require_pending na st (Some \<lparr>ss_pending = rs_pending st, ss_queue = rs_queue st\<rparr>) = Inl err"
    using require_pending_Inl [OF assms(2)] by blast
  thus ?thesis
    using assms(1) by (auto simp: load_resumption_def load_scheduling_run then_do_def gets_do_def expect_do_def lift_result_def)
qed

text \<open>What a successful start has found.\<close>

definition found :: "continuation_env \<Rightarrow> node_args \<Rightarrow> engine \<Rightarrow> resumption \<Rightarrow> bool" where
  "found env na e rp =
    (load_run (na_runId na) e = Some (rp_state rp) \<and> awaits (rp_state rp) na \<and> rs_pending (rp_state rp) = Some (rp_pending rp)
     \<and> rp_scheduling rp = Some \<lparr>ss_pending = rs_pending (rp_state rp), ss_queue = rs_queue (rp_state rp)\<rparr>
     \<and> resolve_persisted_workflow env (rp_state rp) = Some (rp_workflow rp))"

lemma load_resumption_wp:
  "wp (load_resumption env na) (\<lambda>r e1. e1 = e \<and> (case r of Inl _ \<Rightarrow> True | Inr rp \<Rightarrow> found env na e rp)) e"
  by (auto simp: load_resumption_def load_scheduling_run wp_simps found_def require_pending_Inr awaits_def
      split: option.split sum.split)

lemma load_resumption_found:
  assumes "load_run (na_runId na) e = Some st" "awaits st na" "resolve_persisted_workflow env st = Some w"
  shows "\<exists>rp. load_resumption env na e = (Inr rp, e) \<and> found env na e rp"
proof -
  obtain pe where pe: "rs_pending st = Some pe" using assms(2) by (auto simp: awaits_def split: option.splits)
  have "require_pending na st (Some \<lparr>ss_pending = Some pe, ss_queue = rs_queue st\<rparr>) = Inr pe"
    using require_pending_Inr [of na st pe] assms(2) pe by simp
  thus ?thesis
    using assms pe
    by (auto simp: load_resumption_def load_scheduling_run then_do_def gets_do_def expect_do_def lift_result_def assert_do_def
        return_do_def awaits_def found_def)
qed

text \<open>C9. An outcome that arrives late, twice or for another node is dropped: when the stored run does not wait for
  the given activation of the given node, both resumptions throw an error of the kind the schedulers ignore and
  nothing changes, whatever the outcome is.\<close>

theorem stale_outcome_changes_nothing:
  assumes "load_run (na_runId na) e = Some st" "\<not> awaits st na"
  shows "\<exists>err. is_ignorable err \<and> resume_from_node_result env na outs e = (Inl err, e)
    \<and> resume_from_node_error env na thrown e = (Inl err, e)"
proof -
  obtain err where err: "is_ignorable err" "load_resumption env na e = (Inl err, e)"
    using load_resumption_stale [OF assms] by blast
  thus ?thesis unfolding resume_from_node_result_def resume_from_node_error_def by (auto simp: then_do_Inl)
qed

section \<open>How a run ends\<close>

lemma wp_quiet:
  assumes "quiet m" "\<And>r e1. core e1 = core e \<Longrightarrow> Q r e1"
  shows "wp m Q e"
  using assms quietD [OF assms(1)] by (auto intro!: wpI)

text \<open>What an action returns when it returns.\<close>

definition gives :: "('a \<Rightarrow> bool) \<Rightarrow> ('a, engine) engine_action \<Rightarrow> bool" where
  "gives R m = (\<forall>e. wp m (\<lambda>r _. case r of Inl _ \<Rightarrow> True | Inr x \<Rightarrow> R x) e)"

lemma gives_return [intro]: "R x \<Longrightarrow> gives R (return_do x)"
  by (simp add: gives_def wp_simps)

lemma gives_then [intro]: "(\<And>x. gives R (f x)) \<Longrightarrow> gives R (then_do m f)"
  unfolding gives_def wp_then by (auto intro!: wpI split: sum.split)

text \<open>The callers waiting for the run of a result have been told it, and nobody else anything.\<close>

definition told :: "engine \<Rightarrow> run_result \<Rightarrow> engine \<Rightarrow> bool" where
  "told e res e' =
    (let r = rh_runId (result_header res)
     in jget_list (en_completionWaiters e') r = []
        \<and> en_completions e' = en_completions e @ map (\<lambda>who. (who, res)) (jget_list (en_completionWaiters e) r)
        \<and> (\<forall>s. s \<noteq> r \<longrightarrow> jget_list (en_completionWaiters e') s = jget_list (en_completionWaiters e) s))"

definition saved_final :: "run_state \<Rightarrow> engine \<Rightarrow> engine \<Rightarrow> bool" where
  "saved_final t e e' =
    ((\<forall>s. s \<noteq> rs_runId t \<longrightarrow> load_run s e' = load_run s e)
     \<and> (load_run (rs_runId t) e' = Some (bump_revision t) \<or> load_run (rs_runId t) e' = None)
     \<and> jobs_of e' = jobs_of e)"

definition waiting :: "engine \<Rightarrow> (run_id, nat list) jmap \<times> (nat \<times> run_result) list" where
  "waiting e = (en_completionWaiters e, en_completions e)"

lemma waiting_simps [simp]: "waiting (save_run t e) = waiting e" "waiting (delete_run r e) = waiting e"
  by (simp_all add: waiting_def save_run_def delete_run_def)

lemma waiting_core: "core e1 = core e \<Longrightarrow> waiting e1 = waiting e"
  by (simp add: core_def waiting_def)

lemma resolve_run_completion_told:
  assumes "is_final_result res"
  shows "told e res (resolve_run_completion res e)"
  using assms by (auto simp: told_def resolve_run_completion_def Let_def split: list.split)

lemma core_fields:
  assumes "core e1 = core e"
  shows "wo_runs e1 = wo_runs e" "en_completionWaiters e1 = en_completionWaiters e" "en_completions e1 = en_completions e"
    "en_ids e1 = en_ids e" "jobs_of e1 = jobs_of e" "load_run s e1 = load_run s e"
  using assms by (auto simp: core_def jobs_of_def load_run_def fun_eq_iff)

lemma told_core:
  assumes "core e1 = core e"
  shows "told e1 res e' = told e res e'" "told e0 res e1 = told e0 res e" "saved_final t e1 e' = saved_final t e e'"
    "saved_final t e0 e1 = saved_final t e0 e"
  using core_fields [OF assms] by (auto simp: told_def saved_final_def)

lemma told_save: "told (save_run t e) res e' = told e res e'" "told (delete_run r e) res e' = told e res e'"
  by (simp_all add: told_def save_run_def delete_run_def)

lemma saved_final_save:
  "saved_final t e (save_run t e)" "saved_final t e (delete_run (rs_runId t) (save_run t e))"
  by (auto simp: saved_final_def save_run_def delete_run_def load_run_def jobs_of_def fun_eq_iff)

lemma saved_final_completion:
  "saved_final t e e1 \<Longrightarrow> saved_final t e (resolve_run_completion res e1)"
  by (auto simp: saved_final_def resolve_run_completion_def Let_def jobs_of_def load_run_def fun_eq_iff split: list.split)

lemma saved_final_delete: "core e1 = core (save_run t e) \<Longrightarrow> saved_final t e (delete_run (rs_runId t) e1)"
  by (auto simp: saved_final_def save_run_def delete_run_def load_run_def jobs_of_def core_def fun_eq_iff)

lemma wp_delete_after_terminal:
  assumes "\<And>err. Q (Inl err) e" "Q (Inr ()) e" "Q (Inr ()) (delete_run (rs_runId t) e)"
  shows "wp (delete_after_terminal env w t fs at') Q e"
  using assms
  by (auto simp: wp_def delete_after_terminal_def maybe_delete_after_terminal_def split: sum.split)

lemma wp_finish_run:
  assumes "quiet announce" "quiet mk" "gives (\<lambda>res. is_final_result res \<and> R res) mk"
    and "\<And>err e1. saved_final t e e1 \<Longrightarrow> waiting e1 = waiting e \<Longrightarrow> Q (Inl err) e1"
    and "\<And>res e1. saved_final t e e1 \<Longrightarrow> told e res e1 \<Longrightarrow> is_final_result res \<Longrightarrow> R res \<Longrightarrow> Q (Inr res) e1"
  shows "wp (finish_run env w t announce fs at' mk) Q e"
proof -
  have last: "wp (then_do mk (\<lambda>result. after_do (update_do (resolve_run_completion result)) (return_do result))) Q e3"
    if "saved_final t e e3" "\<And>res e'. told e3 res e' = told e res e'" "waiting e3 = waiting e" for e3
  proof -
    have "wp mk (\<lambda>r e4. core e4 = core e3 \<and> (case r of Inl _ \<Rightarrow> True | Inr res \<Rightarrow> is_final_result res \<and> R res)) e3"
      by (rule wp_conj, rule wp_quiet [OF assms(2)], assumption) (use assms(3) in \<open>simp add: gives_def\<close>)
    thus ?thesis unfolding wp_simps
    proof (rule wp_mono)
      fix r :: "js_error + run_result" and e4
      assume a: "core e4 = core e3 \<and> (case r of Inl _ \<Rightarrow> True | Inr res \<Rightarrow> is_final_result res \<and> R res)"
      have sf: "saved_final t e e4" using that(1) a told_core(4) by blast
      have wt: "waiting e4 = waiting e" using that(3) a waiting_core [of e4 e3] by simp
      show "case r of Inl er \<Rightarrow> Q (Inl er) e4 | Inr x \<Rightarrow>
          (case Inr () of Inl er \<Rightarrow> Q (Inl er) (resolve_run_completion x e4) | Inr _ \<Rightarrow> Q (Inr x) (resolve_run_completion x e4))"
      proof (cases r)
        case (Inr res)
        have "told e res (resolve_run_completion res e4)"
          using resolve_run_completion_told [of res e4] a Inr told_core(1) [of e4 e3 res] that(2) by simp
        thus ?thesis using Inr a assms(5) [OF saved_final_completion [OF sf]] by simp
      qed (use sf wt assms(4) in simp)
    qed
  qed
  show ?thesis
    unfolding finish_run_def wp_then wp_update sum.case
  proof (rule wp_quiet [OF assms(1)])
    fix r e1
    assume c: "core e1 = core (save_run t e)"
    have s1: "saved_final t e e1" using saved_final_save(1) told_core(4) [OF c] by blast
    have w1: "waiting e1 = waiting e" using waiting_core [OF c] by simp
    have t1: "told e1 res e' = told e res e'" for res e' using told_core(1) [OF c] told_save(1) by blast
    show "case r of Inl er \<Rightarrow> Q (Inl er) e1 | Inr x \<Rightarrow>
       wp (delete_after_terminal env w t fs at') (\<lambda>r s1. case r of Inl er \<Rightarrow> Q (Inl er) s1 | Inr x \<Rightarrow>
          wp mk (\<lambda>r s1. case r of Inl er \<Rightarrow> Q (Inl er) s1 | Inr x \<Rightarrow> wp (return_do x) Q (resolve_run_completion x s1)) s1) e1"
    proof (cases r)
      case (Inr u)
      show ?thesis unfolding Inr sum.case
      proof (rule wp_delete_after_terminal; unfold sum.case)
        show "wp mk (\<lambda>r s1. case r of Inl er \<Rightarrow> Q (Inl er) s1 | Inr x \<Rightarrow> wp (return_do x) Q (resolve_run_completion x s1)) e1"
          using last [OF s1 t1 w1] unfolding wp_simps sum.case .
        show "wp mk (\<lambda>r s1. case r of Inl er \<Rightarrow> Q (Inl er) s1 | Inr x \<Rightarrow> wp (return_do x) Q (resolve_run_completion x s1))
            (delete_run (rs_runId t) e1)"
          unfolding wp_simps sum.case
          by (rule last [OF saved_final_delete [OF c], unfolded wp_simps sum.case]) (simp_all add: t1 told_save w1)
      qed (use assms(4) [OF s1 w1] in simp)
    qed (use assms(4) [OF s1 w1] in simp)
  qed
qed

section \<open>The outcome of a resumption\<close>

definition same_run :: "run_state \<Rightarrow> run_state \<Rightarrow> bool" where
  "same_run st t =
    (rs_runId t = rs_runId st \<and> rs_workflowId t = rs_workflowId st \<and> rs_startedAt t = rs_startedAt st
     \<and> rs_parent t = rs_parent st \<and> rs_executionOptions t = rs_executionOptions st \<and> rs_control t = rs_control st
     \<and> rs_workflowSnapshot t = rs_workflowSnapshot st \<and> rs_mutableState t = rs_mutableState st
     \<and> rs_policySnapshot t = rs_policySnapshot st)"

definition ended_from :: "run_state \<Rightarrow> run_state \<Rightarrow> bool" where
  "ended_from st t =
    (same_run st t \<and> rs_pending t = None \<and> terminal_status (rs_status t) \<and> rs_finishedAt t \<noteq> None
     \<and> (rs_status t = RunFailed \<or> rs_queue t = [])
     \<and> counted_activations t \<in> {counted_activations st, counted_activations st + 1})"

definition stepped_from :: "continuation_env \<Rightarrow> engine \<Rightarrow> run_state \<Rightarrow> run_state \<Rightarrow> pending_execution \<Rightarrow> bool" where
  "stepped_from env e st t pe =
    (same_run st t \<and> rs_status t = RunPending \<and> rs_pending t = Some pe \<and> pe_runId pe = rs_runId st
     \<and> pe_activationId pe = ce_newId env (en_ids e) \<and> counted_activations t = counted_activations st + 1
     \<and> (\<forall>m. activation_budget env st = Inr m \<longrightarrow> counted_activations t < m))"

fun result_fits :: "run_result \<Rightarrow> run_state \<Rightarrow> bool" where
  "result_fits (ResCompleted h _) t = (rs_status t = RunCompleted \<and> h = header_of t)"
| "result_fits (ResFailed h _) t = (rs_status t = RunFailed \<and> h = header_of t)"
| "result_fits (ResHalted h reason) t = (rs_status t = RunHalted \<and> rs_reason t = Some reason \<and> h = header_of t)"
| "result_fits (ResPending h pe) t = (rs_status t = RunPending \<and> rs_pending t = Some pe \<and> h = header_of t)"

text \<open>A run that ended is stored as it ended, or deleted by its storage policy.\<close>

definition ended_in :: "run_state \<Rightarrow> engine \<Rightarrow> run_state \<Rightarrow> bool" where
  "ended_in st e' t = (ended_from st t \<and> load_run (rs_runId st) e' \<in> {Some t, None})"

definition outcome :: "continuation_env \<Rightarrow> engine \<Rightarrow> run_state \<Rightarrow> js_error + run_result \<Rightarrow> engine \<Rightarrow> bool" where
  "outcome env e st r e' =
    ((\<forall>s. s \<noteq> rs_runId st \<longrightarrow> load_run s e' = load_run s e) \<and>
     (case r of
        Inl _ \<Rightarrow> jobs_of e' = jobs_of e \<and> waiting e' = waiting e \<and>
          (load_run (rs_runId st) e' = load_run (rs_runId st) e \<or> (\<exists>t. ended_in st e' t))
      | Inr res \<Rightarrow>
          if is_final_result res
          then (\<exists>t. ended_in st e' t \<and> result_fits res t) \<and> told e res e' \<and> jobs_of e' = jobs_of e
          else (\<exists>t pe. load_run (rs_runId st) e' = Some t \<and> stepped_from env e st t pe \<and> result_fits res t
                  \<and> one_more_job (rs_runId st) (pe_activationId pe) e e')))"

lemma ended_in_core: "core e1 = core e \<Longrightarrow> ended_in st e1 = ended_in st e"
  by (simp add: ended_in_def core_def load_run_def fun_eq_iff)

lemma outcome_core:
  assumes "core e1 = core e"
  shows "outcome env e1 st r e' = outcome env e st r e'" "outcome env e0 st r e1 = outcome env e0 st r e"
proof -
  note c = core_fields [OF assms] told_core [OF assms] ended_in_core [OF assms] waiting_core [OF assms]
  show "outcome env e1 st r e' = outcome env e st r e'"
    by (simp add: outcome_def c stepped_from_def one_more_job_def split: sum.split)
  show "outcome env e0 st r e1 = outcome env e0 st r e"
    by (simp add: outcome_def c one_more_job_def split: sum.split)
qed

lemma outcome_unchanged:
  assumes "core e1 = core e"
  shows "outcome env e st (Inl err) e1"
  by (simp add: outcome_def core_fields [OF assms] waiting_core [OF assms])

lemma header_of_fields [simp]: "rh_runId (header_of st) = rs_runId st" "header_of (bump_revision st) = header_of st"
  by (simp_all add: header_of_def bump_revision_def)

lemma same_run_header: "same_run st t \<Longrightarrow> header_of t = header_of st"
  by (simp add: same_run_def header_of_def)

lemma bump_revision_lifecycle [simp]:
  "ended_from st (bump_revision t) = ended_from st t" "result_fits res (bump_revision t) = result_fits res t"
  "stepped_from env e st (bump_revision t) pe = stepped_from env e st t pe"
  by (auto simp: ended_from_def same_run_def counted_activations_def stepped_from_def bump_revision_def)
     (cases res; simp add: header_of_def)+

lemma outcome_saved_final:
  assumes "ended_from st t" "saved_final t e e'"
  shows "waiting e' = waiting e \<Longrightarrow> outcome env e st (Inl err) e'"
    and "is_final_result res \<Longrightarrow> result_fits res t \<Longrightarrow> told e res e' \<Longrightarrow> outcome env e st (Inr res) e'"
proof -
  have id: "rs_runId t = rs_runId st" using assms(1) by (simp add: ended_from_def same_run_def)
  have "ended_in st e' (bump_revision t)" using assms id by (auto simp: ended_in_def saved_final_def)
  thus "waiting e' = waiting e \<Longrightarrow> outcome env e st (Inl err) e'" "is_final_result res \<Longrightarrow> result_fits res t \<Longrightarrow> told e res e' \<Longrightarrow> outcome env e st (Inr res) e'"
    using assms(2) id by (auto simp: outcome_def saved_final_def intro!: exI [of _ "bump_revision t"])
qed

text \<open>Nothing but the stored state of one run differs.\<close>

definition near :: "run_id \<Rightarrow> engine \<Rightarrow> engine \<Rightarrow> bool" where
  "near r e e1 =
    ((\<forall>s. s \<noteq> r \<longrightarrow> load_run s e1 = load_run s e) \<and> jobs_of e1 = jobs_of e
     \<and> waiting e1 = waiting e)"

lemma near_core [intro]: "core e1 = core e \<Longrightarrow> near r e e1"
  unfolding near_def using core_fields waiting_core by blast

lemma near_now: "near r e e1 \<Longrightarrow> near r e (e1\<lparr>wo_clock := k\<rparr>)"
  by (simp add: near_def load_run_def jobs_of_def waiting_def fun_eq_iff)

lemma near_ids: "near r e e1 \<Longrightarrow> near r e (e1\<lparr>en_ids := k\<rparr>)"
  by (simp add: near_def load_run_def jobs_of_def waiting_def fun_eq_iff)

lemma finish_run_ends:
  assumes "quiet announce" "quiet mk" "gives (\<lambda>res. is_final_result res \<and> result_fits res t) mk" "ended_from st t"
    and "near (rs_runId st) e e1"
  shows "wp (finish_run env' w t announce fs at' mk) (outcome env e st) e1"
proof (rule wp_finish_run [OF assms(1,2,3)])
  have id: "rs_runId t = rs_runId st" using assms(4) by (simp add: ended_from_def same_run_def)
  fix e2
  assume "saved_final t e1 e2"
  hence s: "saved_final t e e2" using assms(5) id by (auto simp: saved_final_def near_def)
  show "outcome env e st (Inl err) e2" if "waiting e2 = waiting e1" for err
    using outcome_saved_final(1) [OF assms(4) s] that assms(5) by (simp add: near_def)
  fix res
  assume "told e1 res e2" "is_final_result res" "result_fits res t"
  moreover from this(1) have "told e res e2" using assms(5) by (simp add: told_def near_def waiting_def)
  ultimately show "outcome env e st (Inr res) e2" using outcome_saved_final(2) [OF assms(4) s] by blast
qed

section \<open>Every way to continue has an outcome\<close>

text \<open>A completion of a run: what the continuation works on is the loaded state with one more activation counted.\<close>

definition completes :: "run_state \<Rightarrow> completion \<Rightarrow> bool" where
  "completes st c = (cp_state c = st \<and> ec_completedNodeActivations (cp_counters c) = counted_activations st + 1)"

lemma same_run_merge [simp]: "same_run st (merge_terminal st k s r q os ns t)"
  by (simp add: same_run_def merge_terminal_def)

lemma ended_from_merge:
  "terminal_status s \<Longrightarrow> s = RunFailed \<or> q = [] \<Longrightarrow>
    ec_completedNodeActivations k \<in> {counted_activations st, counted_activations st + 1} \<Longrightarrow>
    ended_from st (merge_terminal st k s r q os ns (Some t))"
  by (auto simp: ended_from_def) (auto simp: merge_terminal_def counted_activations_def)

lemma ended_from_counters:
  "completes st c \<Longrightarrow> terminal_status s \<Longrightarrow> s = RunFailed \<or> q = [] \<Longrightarrow>
    ended_from st (merge_terminal st (cp_counters c) s r q os ns (Some t))"
  by (rule ended_from_merge) (simp_all add: completes_def)

lemma stored_counters: "ec_completedNodeActivations (opt_or (rs_engineCounters st) \<lparr>ec_completedNodeActivations = 0\<rparr>) = counted_activations st"
  by (cases "rs_engineCounters st") (simp_all add: counted_activations_def)

lemma merge_terminal_sel [simp]:
  "rs_status (merge_terminal st k s r q os ns t) = s" "rs_reason (merge_terminal st k s r q os ns t) = r"
  "header_of (merge_terminal st k s r q os ns t) = header_of st"
  by (simp_all add: merge_terminal_def header_of_def)

lemma halt_run_outcome:
  assumes "cp_state c = st" "core e1 = core e"
  shows "wp (halt_run env c reason) (outcome env e st) e1"
  unfolding halt_run_def Let_def assms(1)
  by (rule finish_run_ends [OF _ _ _ _ near_core [OF assms(2)]])
     (auto intro: ended_from_merge simp: stored_counters)

lemma complete_at_stop_outcome:
  assumes "completes st c" "core e1 = core e" "quiet respond"
  shows "wp (complete_at_stop env c respond) (outcome env e st) e1"
proof -
  have st: "cp_state c = st" using assms(1) by (simp add: completes_def)
  show ?thesis
    unfolding complete_at_stop_def Let_def st
    by (rule finish_run_ends [OF _ _ _ _ near_core [OF assms(2)]])
       (use assms in \<open>auto intro!: ended_from_counters gives_then gives_return\<close>)
qed

lemma respond_now_outcome:
  assumes "completes st c" "core e1 = core e"
  shows "wp (respond_now env c signal) (outcome env e st) e1"
proof -
  have st: "cp_state c = st" using assms(1) by (simp add: completes_def)
  show ?thesis
    unfolding respond_now_def Let_def st
    by (rule finish_run_ends [OF _ _ _ _ near_core [OF assms(2)]])
       (use assms in \<open>auto intro!: ended_from_counters gives_then gives_return\<close>)
qed

lemma complete_run_outcome:
  assumes "completes st c" "core e1 = core e" "quiet respond"
  shows "wp (complete_run env c snaps respond) (outcome env e st) e1"
proof -
  have st: "cp_state c = st" using assms(1) by (simp add: completes_def)
  have "wp (finish_run env (cp_workflow c) (merge_terminal st (cp_counters c) RunCompleted None []
            (dump_run_data (cp_data c)) snaps (Some (cp_at c))) (announce_completed c) FinalCompleted (cp_at c)
           (after_do respond (return_do (ResCompleted (header_of st) outs)))) (outcome env e st) e1" for outs
    by (rule finish_run_ends [OF _ _ _ _ near_core [OF assms(2)]])
       (use assms in \<open>auto intro!: ended_from_counters gives_then gives_return\<close>)
  thus ?thesis
    unfolding complete_run_def wp_then wp_lift Let_def st
    using outcome_unchanged [OF assms(2)] by (auto split: sum.split)
qed

lemma exceed_budget_outcome:
  assumes "completes st c" "core e1 = core e" "quiet respond"
  shows "wp (exceed_budget env c snaps queue msg respond) (outcome env e st) e1"
proof -
  have st: "cp_state c = st" using assms(1) by (simp add: completes_def)
  show ?thesis
    unfolding exceed_budget_def Let_def st
    by (rule finish_run_ends [OF _ _ _ _ near_core [OF assms(2)]])
       (use assms in \<open>auto intro!: ended_from_counters gives_then gives_return\<close>)
qed

lemma terminate_rejected_outcome:
  assumes "completes st c" "near (rs_runId st) e e1"
  shows "wp (terminate_rejected env c snaps queue n request err) (outcome env e st) e1"
proof -
  have st: "cp_state c = st" using assms(1) by (simp add: completes_def)
  show ?thesis
    unfolding terminate_rejected_def Let_def st
    by (rule finish_run_ends [OF _ _ _ _ assms(2)])
       (use assms in \<open>auto intro!: ended_from_counters gives_then gives_return\<close>)
qed

lemma enqueue_keeps_waiters:
  "keeps (\<lambda>e. en_completionWaiters e = ws \<and> en_completions e = cs) (enqueue_with_snapshot env a)"
  unfolding enqueue_with_snapshot_def now_do_def [abs_def] dispatch_prepared_def
  by (intro keeps_intros keeps_update)
     (auto simp: keeps_def save_run_def dispatch_inline_def schedule_drain_def update_do_def throw_do_def
        split: dispatch_job.split option.split)

lemma create_from_planned_ids [simp]:
  "ar_runId (create_from_planned rq nxt d act) = rq_runId rq"
  "ar_activationId (create_from_planned rq nxt d act) = act"
  "ar_nodeId (create_from_planned rq nxt d act) = nd_id d"
  by (simp_all add: create_from_planned_def make_request_def split: planned_activation.split)

lemma enqueue_step:
  assumes "enqueue_with_snapshot env a e1 = (x, e2)" "ar_runId (er_request a) = sc_runId (er_scope a)"
    and "sc_runId (er_scope a) = r" "near r e e1"
  shows "case x of
      Inl err \<Rightarrow> near r e e2
    | Inr (res, snap) \<Rightarrow> (\<forall>s. s \<noteq> r \<longrightarrow> load_run s e2 = load_run s e) \<and>
        (\<exists>p. res = pending_result a p \<and> stored_as_pending a e2 p
         \<and> one_more_job r (ar_activationId (er_request a)) e e2)"
proof -
  have same: "s \<noteq> r \<Longrightarrow> load_run s e1 = load_run s e" "jobs_of e1 = jobs_of e" "waiting e1 = waiting e" for s
    using assms(4) by (simp_all add: near_def)
  have w: "en_completionWaiters e2 = en_completionWaiters e1 \<and> en_completions e2 = en_completions e1"
    by (rule keeps_result [OF enqueue_keeps_waiters _ assms(1)]) simp
  have "one_more_job s y e1 e2 = one_more_job s y e e2" for s y by (simp add: one_more_job_def same)
  with enqueue_outcome [OF assms(1,2)] w same assms(3) show ?thesis
    by (auto simp: near_def waiting_def split: sum.splits prod.splits)
qed

lemma next_enqueue_sel [simp]:
  "er_scope (next_enqueue st k snaps q req) = scope_of st" "er_request (next_enqueue st k snaps q req) = req"
  by (simp_all add: next_enqueue_def)

lemma scope_of_sel [simp]:
  "sc_runId (scope_of st) = rs_runId st" "sc_workflowId (scope_of st) = rs_workflowId st" "sc_parent (scope_of st) = rs_parent st"
  by (simp_all add: scope_of_def)

lemma request_scope_of_sel [simp]: "rq_runId (request_scope_of st base data) = rs_runId st"
  by (simp add: request_scope_of_def)

lemma stepped_pending:
  assumes "stored_as_pending (next_enqueue st k snaps q req) e2 p" "ar_activationId req = ce_newId env (en_ids e)"
    and "ec_completedNodeActivations k = counted_activations st + 1"
    and "\<forall>m. activation_budget env st = Inr m \<longrightarrow> counted_activations st + 1 < m"
  shows "\<exists>t. load_run (rs_runId st) e2 = Some t \<and> stepped_from env e st t p
    \<and> result_fits (pending_result (next_enqueue st k snaps q req) p) t \<and> pe_activationId p = ar_activationId req"
proof -
  obtain snap where t: "load_run (rs_runId st) e2 = Some (bump_revision (pending_state (next_enqueue st k snaps q req) p snap))"
    "pe_runId p = rs_runId st" "pe_activationId p = ar_activationId req"
    using assms(1) by (auto simp: stored_as_pending_def)
  have "stepped_from env e st (pending_state (next_enqueue st k snaps q req) p snap) p"
    using assms(2-4) t(2,3)
    by (simp add: stepped_from_def same_run_def pending_state_def next_enqueue_def scope_of_def counted_activations_def)
  moreover have "result_fits (pending_result (next_enqueue st k snaps q req) p) (pending_state (next_enqueue st k snaps q req) p snap)"
    by (simp add: pending_result_def pending_state_def next_enqueue_def scope_of_def header_of_def)
  ultimately show ?thesis using t by simp
qed

lemma enqueue_next_outcome:
  assumes "completes st c" "core e1 = core e"
    and "\<forall>m. activation_budget env st = Inr m \<longrightarrow> counted_activations st + 1 < m"
  shows "wp (enqueue_next env c snaps queue nxt base d) (outcome env e st) e1"
proof -
  have st: "cp_state c = st" and k: "ec_completedNodeActivations (cp_counters c) = counted_activations st + 1"
    using assms(1) by (auto simp: completes_def)
  have ids: "en_ids e1 = en_ids e" by (rule core_fields(4) [OF assms(2)])
  let ?act = "ce_newId env (en_ids e)"
  let ?e1 = "e1\<lparr>en_ids := Suc (en_ids e)\<rparr>"
  let ?req = "create_from_planned (request_scope_of st base (cp_data c)) nxt d ?act"
  let ?a = "next_enqueue st (cp_counters c) snaps queue ?req"
  have ce: "near (rs_runId st) e ?e1" by (rule near_ids [OF near_core [OF assms(2)]])
  obtain r e2 where run: "enqueue_with_snapshot (scheduling_env.truncate env) ?a ?e1 = (r, e2)" by fastforce
  have "ar_runId (er_request ?a) = sc_runId (er_scope ?a)" "sc_runId (er_scope ?a) = rs_runId st" by simp_all
  note step = enqueue_step [OF run this ce]
  have next1: "next_id (ce_newId env) e1 = (Inr ?act, ?e1)" by (simp add: next_id_def ids)
  show ?thesis
  proof (cases r)
    case (Inl err)
    have near: "near (rs_runId st) e e2" using step Inl by simp
    have "enqueue_next env c snaps queue nxt base d e1 = terminate_rejected env c snaps queue (planned_node nxt) ?req err e2"
      using run Inl by (simp add: enqueue_next_def then_do_def catch_do_def next1 Let_def st)
    thus ?thesis using terminate_rejected_outcome [OF assms(1) near] by (simp add: wp_def)
  next
    case (Inr x)
    obtain res snap where x: "x = (res, snap)" by (cases x)
    obtain p where p: "res = pending_result ?a p" "stored_as_pending ?a e2 p" "one_more_job (rs_runId st) ?act e e2"
      "\<forall>s. s \<noteq> rs_runId st \<longrightarrow> load_run s e2 = load_run s e"
      using step Inr x by auto
    obtain t where t: "load_run (rs_runId st) e2 = Some t" "stepped_from env e st t p" "result_fits res t" "pe_activationId p = ?act"
      using stepped_pending [OF p(2) _ k assms(3)] p(1) by fastforce
    have o2: "outcome env e st (Inr res) e2"
      using p t by (auto simp: outcome_def pending_result_def)
    define ann where "ann = after_do (announce_completed c) (after_do (publish_node NodeQueuedEvent snap) (return_do res))"
    have "quiet ann" unfolding ann_def by (intro quiet_then quiet_announce quiet_publish quiet_return)
    moreover obtain e3 where e3: "ann e2 = (Inr res, e3)"
      by (simp add: ann_def announce_completed_def publish_node_def then_do_def update_do_def return_do_def)
    ultimately have "core e3 = core e2" using quietD by blast
    hence "outcome env e st (Inr res) e3" using o2 outcome_core(2) by blast
    moreover have "enqueue_next env c snaps queue nxt base d e1 = (Inr res, e3)"
      using run Inr x e3 unfolding ann_def
      by (simp add: enqueue_next_def then_do_def catch_do_def next1 Let_def st return_do_def split: prod.splits sum.splits)
    ultimately show ?thesis by (simp add: wp_def)
  qed
qed

lemma completes_data [simp]: "completes st (c\<lparr>cp_data := d\<rparr>) = completes st c"
  by (simp add: completes_def)

lemma completes_counters: "completes st c \<Longrightarrow> ec_completedNodeActivations (cp_counters c) = counted_activations st + 1"
  by (simp add: completes_def)

lemma continue_run_outcome:
  assumes "completes st c" "core e1 = core e" "activation_budget env st = Inr budget"
  shows "wp (continue_run env c rp outs base budget) (outcome env e st) e1"
proof -
  have u: "outcome env e st (Inl err) e1" for err by (rule outcome_unchanged [OF assms(2)])
  have fin: "wp (complete_run env (c\<lparr>cp_data := d\<rparr>) ns (return_do ())) (outcome env e st) e1" for d ns
    by (rule complete_run_outcome) (use assms in auto)
  have over: "wp (exceed_budget env (c\<lparr>cp_data := d\<rparr>) ns q msg (return_do ())) (outcome env e st) e1" for d ns q msg
    by (rule exceed_budget_outcome) (use assms in auto)
  have "wp (enqueue_next env (c\<lparr>cp_data := d\<rparr>) ns q nxt base nd) (outcome env e st) e1"
    if "\<not> budget \<le> ec_completedNodeActivations (cp_counters c)" for d ns q nxt nd
    by (rule enqueue_next_outcome) (use assms that completes_counters in auto)
  with u fin over show ?thesis
    unfolding continue_run_def Let_def wp_simps by (auto split: sum.split option.split prod.split)
qed

lemma continue_webhook_outcome:
  assumes "completes st c" "core e1 = core e" "activation_budget env st = Inr budget"
  shows "wp (continue_webhook env c rp outs budget signal) (outcome env e st) e1"
proof -
  have st: "cp_state c = st" using assms(1) by (simp add: completes_def)
  have u: "outcome env e st (Inl err) e1" for err by (rule outcome_unchanged [OF assms(2)])
  have fin: "wp (complete_run env c ns (answer_webhook st status signal)) (outcome env e st) e1" for ns status
    by (rule complete_run_outcome) (use assms in auto)
  have over: "wp (exceed_budget env c ns q msg (answer_webhook st status signal)) (outcome env e st) e1" for ns q msg status
    by (rule exceed_budget_outcome) (use assms in auto)
  have next': "wp (then_do (enqueue_next env c ns q nxt base nd) (\<lambda>result.
      after_do (answer_webhook st status signal) (return_do result))) (outcome env e st) e1"
    if "\<not> budget \<le> ec_completedNodeActivations (cp_counters c)" for ns q nxt nd base status
    unfolding wp_then
  proof (rule wp_mono [OF enqueue_next_outcome])
    fix r e2
    assume o2: "outcome env e st r e2"
    obtain e3 where e3: "answer_webhook st status signal e2 = (Inr (), e3)"
      by (simp add: answer_webhook_def update_do_def)
    have "outcome env e st (Inr x) e3 = outcome env e st (Inr x) e2" for x
      by (rule outcome_core(2) [OF quietD [OF quiet_answer e3]])
    with o2 e3 show "case r of Inl er \<Rightarrow> outcome env e st (Inl er) e2
      | Inr x \<Rightarrow> wp (answer_webhook st status signal) (\<lambda>r s1. case r of Inl er \<Rightarrow> outcome env e st (Inl er) s1
           | Inr _ \<Rightarrow> wp (return_do x) (outcome env e st) s1) e2"
      by (cases r) (simp_all add: wp_def return_do_def)
  qed (use assms that completes_counters in auto)
  have "wp (enqueue_after_webhook env c ns q nxt nd signal) (outcome env e st) e1"
    if "\<not> budget \<le> ec_completedNodeActivations (cp_counters c)" for ns q nxt nd
    unfolding enqueue_after_webhook_def st
    by (subst wp_then) (use u next' [OF that] in \<open>auto simp: wp_lift split: sum.split\<close>)
  with u fin over show ?thesis
    unfolding continue_webhook_def Let_def st wp_then wp_lift wp_if wp_case_option wp_case_prod
    by (auto split: sum.split option.split prod.split)
qed

lemma wp_case_hitl [wp_simps]:
  "wp (case h of HitlContinue s \<Rightarrow> m s | HitlHalt s r \<Rightarrow> k s r) Q e =
    (case h of HitlContinue s \<Rightarrow> wp (m s) Q e | HitlHalt s r \<Rightarrow> wp (k s r) Q e)"
  by (simp split: hitl_resolution.split)

lemma resume_from_node_result_outcome:
  assumes "load_run (na_runId na) e1 = Some st" "core e1 = core e"
  shows "wp (resume_from_node_result env na outs) (outcome env e st) e1"
proof -
  have u: "outcome env e st (Inl err) e1" for err by (rule outcome_unchanged [OF assms(2)])
  define e2 where "e2 = e1\<lparr>wo_clock := Suc (wo_clock e1)\<rparr>"
  have e2: "core e2 = core e" using assms(2) by (simp add: e2_def core_def)
  have u2: "outcome env e st (Inl err) e2" for err by (rule outcome_unchanged [OF e2])
  note h = halt_run_outcome [OF _ e2] complete_at_stop_outcome [OF _ e2 quiet_return] continue_run_outcome [OF _ e2]
  obtain r where r: "load_resumption env na e1 = (r, e1)" "case r of Inl _ \<Rightarrow> True | Inr rp \<Rightarrow> found env na e1 rp"
    using load_resumption_wp [of env na e1] unfolding wp_def by (metis prod.collapse)
  show ?thesis
  proof (cases r)
    case (Inl err)
    thus ?thesis using r(1) u by (simp add: resume_from_node_result_def wp_def then_do_def)
  next
    case (Inr rp)
    hence st: "rp_state rp = st" using r(2) assms(1) by (simp add: found_def)
    show ?thesis
      unfolding resume_from_node_result_def
      unfolding wp_then_Inr [where m = "load_resumption env na" and s = e1, OF r(1) [unfolded Inr]]
      unfolding wp_simps Let_def st
      using u u2
      by (auto simp: completes_def e2_def intro!: h [unfolded e2_def] split: sum.split option.split hitl_resolution.split)
  qed
qed

lemma resume_from_webhook_control_outcome:
  assumes "rp_state rp = st" "core e1 = core e"
  shows "wp (resume_from_webhook_control env na rp signal) (outcome env e st) e1"
proof -
  have u: "outcome env e st (Inl err) e1" for err by (rule outcome_unchanged [OF assms(2)])
  define e2 where "e2 = e1\<lparr>wo_clock := Suc (wo_clock e1)\<rparr>"
  have e2: "core e2 = core e" using assms(2) by (simp add: e2_def core_def)
  have u2: "outcome env e st (Inl err) e2" for err by (rule outcome_unchanged [OF e2])
  note h = complete_at_stop_outcome [OF _ e2 quiet_answer] respond_now_outcome [OF _ e2] continue_webhook_outcome [OF _ e2]
  show ?thesis
    unfolding resume_from_webhook_control_def wp_simps Let_def assms(1)
    using u u2 by (auto simp: completes_def e2_def intro!: h [unfolded e2_def] split: sum.split)
qed

lemma fail_run_outcome:
  assumes "rp_state rp = st" "near (rs_runId st) e e1"
  shows "wp (fail_run env na rp err) (outcome env e st) e1"
  unfolding fail_run_def Let_def wp_then wp_now sum.case assms(1)
  by (rule finish_run_ends [OF _ _ _ _ near_now [OF assms(2)]])
     (auto intro!: ended_from_merge gives_return simp: stored_counters)

lemma outcome_near: "outcome env e st (Inl err) e1 \<Longrightarrow> near (rs_runId st) e e1"
  by (simp add: outcome_def near_def)

lemma resume_from_node_error_outcome:
  assumes "load_run (na_runId na) e1 = Some st" "core e1 = core e"
  shows "wp (resume_from_node_error env na thrown) (outcome env e st) e1"
proof -
  have u: "outcome env e st (Inl err) e1" for err by (rule outcome_unchanged [OF assms(2)])
  obtain r where r: "load_resumption env na e1 = (r, e1)" "case r of Inl _ \<Rightarrow> True | Inr rp \<Rightarrow> found env na e1 rp"
    using load_resumption_wp [of env na e1] unfolding wp_def by (metis prod.collapse)
  show ?thesis
  proof (cases r)
    case (Inl err)
    thus ?thesis using r(1) u by (simp add: resume_from_node_error_def wp_def then_do_def)
  next
    case (Inr rp)
    hence st: "rp_state rp = st" using r(2) assms(1) by (simp add: found_def)
    have fail: "wp (fail_run env na rp err) (outcome env e st) e1" for err
      by (rule fail_run_outcome [OF st near_core [OF assms(2)]])
    have webhook: "wp (resume_from_webhook_control env na rp signal) (outcome env e st) e1" for signal
      by (rule resume_from_webhook_control_outcome [OF st assms(2)])
    have recover: "wp (recover_node env na rp d h err) (outcome env e st) e1" for d h err
      unfolding recover_node_def wp_then wp_lift wp_let Let_def
      using u resume_from_node_result_outcome [OF assms] by (auto split: sum.split)
    have "wp (catch_do (recover_node env na rp d h err) (\<lambda>_. fail_run env na rp err)) (outcome env e st) e1" for d h err
      unfolding wp_catch
      by (rule wp_mono [OF recover])
         (use fail_run_outcome [OF st outcome_near] in \<open>auto split: sum.split\<close>)
    with u fail webhook show ?thesis
      unfolding resume_from_node_error_def
      unfolding wp_then_Inr [where m = "load_resumption env na" and s = e1, OF r(1) [unfolded Inr]]
      by (auto simp: wp_then wp_lift split: option.split sum.split)
  qed
qed

text \<open>C2. An outcome of a node either ends its run or makes it wait for exactly one new activation.  Whatever the node
  returned or threw, no other run changes, and: a final result comes with the run stored in the matching terminal
  state with nothing pending (or deleted by its storage policy), with no job handed out and with every caller
  waiting for the run told this result; a pending result comes with one new activation, stored and
  handed to one scheduler, under the budget of the run; and if the resumption throws, no job was handed out and
  the run is as it was or ended.\<close>

theorem node_outcome_ends_or_continues:
  assumes "load_run (na_runId na) e = Some st"
    and "resume_from_node_result env na outs e = (r, e') \<or> resume_from_node_error env na thrown e = (r, e')"
  shows "outcome env e st r e'"
  using assms(2) resume_from_node_result_outcome [OF assms(1) refl] resume_from_node_error_outcome [OF assms(1) refl]
    wp_result by metis

lemma outcome_no_longer_awaits:
  assumes "outcome env e st (Inr res) e'" "load_run (rs_runId st) e' = Some t" "ce_newId env (en_ids e) \<noteq> na_activationId na"
  shows "\<not> awaits t na"
  using assms
  by (auto simp: outcome_def awaits_def ended_in_def ended_from_def stepped_from_def split: if_splits)

lemma load_resumption_unknown:
  "load_run (na_runId na) e = None \<Longrightarrow> load_resumption env na e = (Inl (unknown_run (na_runId na)), e)"
  by (simp add: load_resumption_def then_do_def gets_do_def expect_do_def)

text \<open>C10. An outcome is applied once: after a resumption that returned, a second outcome for the same activation, a
  result or an error, is an error that changes nothing, as long as the id source does not hand out the same id
  again.\<close>

theorem outcome_applied_once:
  assumes "load_run (na_runId na) e = Some st" "rs_runId st = na_runId na" "ce_newId env (en_ids e) \<noteq> na_activationId na"
    and "resume_from_node_result env na outs e = (Inr res, e') \<or> resume_from_node_error env na thrown e = (Inr res, e')"
  shows "\<exists>err. \<forall>outs' thrown'. resume_from_node_result env na outs' e' = (Inl err, e')
    \<and> resume_from_node_error env na thrown' e' = (Inl err, e')"
proof -
  have o': "outcome env e st (Inr res) e'"
    using assms(4) resume_from_node_result_outcome [OF assms(1) refl] resume_from_node_error_outcome [OF assms(1) refl]
      wp_result by metis
  obtain err where "load_resumption env na e' = (Inl err, e')"
  proof (cases "load_run (na_runId na) e'")
    case None
    thus ?thesis using that load_resumption_unknown by blast
  next
    case (Some t)
    hence "\<not> awaits t na" using outcome_no_longer_awaits [OF o'] assms(2,3) by simp
    thus ?thesis using that load_resumption_stale [OF Some] by blast
  qed
  thus ?thesis
    unfolding resume_from_node_result_def resume_from_node_error_def by (intro exI [of _ err]) (simp add: then_do_def)
qed

section \<open>Decisions of people\<close>

text \<open>What a finished run is stored as, and what is returned and told.\<close>

definition finished_as :: "engine \<Rightarrow> run_state \<Rightarrow> (run_result \<Rightarrow> bool) \<Rightarrow> js_error + run_result \<Rightarrow> engine \<Rightarrow> bool" where
  "finished_as e t R r e' =
    ((case r of Inl _ \<Rightarrow> True | Inr res \<Rightarrow> R res \<and> told e res e') \<and> jobs_of e' = jobs_of e
     \<and> load_run (rs_runId t) e' \<in> {Some (bump_revision t), None})"

lemma finish_run_finished:
  assumes "quiet announce" "quiet mk" "gives (\<lambda>res. is_final_result res \<and> R res) mk" "near (rs_runId st) e e1"
    and "rs_runId t = rs_runId st"
  shows "wp (finish_run env w t announce fs at' mk) (finished_as e t R) e1"
proof (rule wp_finish_run [OF assms(1,2,3)])
  fix e2
  assume "saved_final t e1 e2"
  hence "jobs_of e2 = jobs_of e" "load_run (rs_runId t) e2 \<in> {Some (bump_revision t), None}"
    using assms(4) by (auto simp: saved_final_def near_def)
  moreover have "told e res e2 = told e1 res e2" for res using assms(4) by (simp add: told_def near_def waiting_def)
  ultimately show "finished_as e t R (Inl err) e2" "told e1 res e2 \<Longrightarrow> is_final_result res \<Longrightarrow> R res \<Longrightarrow> finished_as e t R (Inr res) e2"
    for err res by (simp_all add: finished_as_def)
qed

text \<open>A human decision against an item stops the run: when a node's first main item says that the task was
  rejected or timed out, nothing further of the run is scheduled, the run is stored as halted with the reason and
  without a queue, its node shows the decision, and the waiting callers are told.\<close>

theorem negative_decision_halts:
  assumes "load_run (na_runId na) e = Some st" "jget outs ''main'' = Some (it # its)"
    and "js_field (js_field (it_json it) ''decision'') ''status'' = JStr s"
    and "(s, nst, reason) \<in> {(''rejected'', NsHitlRejected, HitlRejected), (''timed-out'', NsHitlTimeout, HitlTimeout)}"
    and "resume_from_node_result env na outs e = (Inr res, e')"
  shows "res = ResHalted (header_of st) reason \<and> told e res e' \<and> jobs_of e' = jobs_of e \<and>
    (\<exists>t. load_run (rs_runId st) e' \<in> {Some t, None} \<and> rs_status t = RunHalted \<and> rs_reason t = Some reason
      \<and> rs_queue t = [] \<and> rs_pending t = None
      \<and> (\<exists>snap. jget (rs_nodeSnapshotsByNodeId t) (na_nodeId na) = Some snap \<and> ns_status snap \<in> {nst, NsSkipped}))"
proof -
  define Q where "Q r e' = (case r of Inl _ \<Rightarrow> True | Inr res \<Rightarrow>
    res = ResHalted (header_of st) reason \<and> told e res e' \<and> jobs_of e' = jobs_of e \<and>
    (\<exists>t. load_run (rs_runId st) e' \<in> {Some t, None} \<and> rs_status t = RunHalted \<and> rs_reason t = Some reason
      \<and> rs_queue t = [] \<and> rs_pending t = None
      \<and> (\<exists>snap. jget (rs_nodeSnapshotsByNodeId t) (na_nodeId na) = Some snap \<and> ns_status snap \<in> {nst, NsSkipped})))"
    for r :: "js_error + run_result" and e'
  have Q_Inl: "Q (Inl err) e1" for err e1 by (simp add: Q_def)
  have hitl: "resolve_hitl_status outs = Some (HitlHalt nst reason)"
    using assms(2-4) by (auto simp: resolve_hitl_status_def)
  have halt: "wp (halt_run env c reason) Q e1"
    if "cp_state c = st" "near (rs_runId st) e e1" "cp_nodeId c = na_nodeId na" "ns_status (cp_snapshot c) \<in> {nst, NsSkipped}" for c e1
  proof -
    let ?t = "merge_terminal st (opt_or (rs_engineCounters st) \<lparr>ec_completedNodeActivations = 0\<rparr>) RunHalted (Some reason) []
        (dump_run_data (cp_data c)) (completed_snapshots c) (Some (cp_at c))"
    have t: "rs_status ?t = RunHalted" "rs_reason ?t = Some reason" "rs_queue ?t = []" "rs_pending ?t = None"
       "rs_runId ?t = rs_runId st" "jget (rs_nodeSnapshotsByNodeId ?t) (na_nodeId na) = Some (cp_snapshot c)"
      using that(3) by (simp_all add: merge_terminal_def completed_snapshots_def)
    show ?thesis
      unfolding halt_run_def Let_def that(1)
      by (rule wp_mono [OF finish_run_finished [where R = "\<lambda>res. res = ResHalted (header_of st) reason", OF _ _ _ that(2) t(5)]])
         (use t that(4) in \<open>auto intro!: gives_return exI [of _ "bump_revision ?t"] simp: Q_def finished_as_def bump_revision_def split: sum.splits\<close>)
  qed
  obtain rp where rp: "load_resumption env na e = (Inr rp, e)" "rp_state rp = st"
  proof (cases "load_resumption env na e")
    case (Pair r e1)
    thus ?thesis
      using that assms(1,5) wp_result [OF load_resumption_wp Pair]
      by (cases r) (auto simp: found_def resume_from_node_result_def then_do_def)
  qed
  have "wp (resume_from_node_result env na outs) Q e"
    unfolding resume_from_node_result_def
    unfolding wp_then_Inr [where m = "load_resumption env na" and s = e, OF rp(1)]
    unfolding wp_simps Let_def rp(2) hitl
    by (auto intro!: halt near_now near_core simp: Q_Inl create_finished_snapshot_def snapshot_completed_def snapshot_skipped_def
        Let_def split: sum.split)
  from wp_result [OF this assms(5)] show ?thesis unfolding Q_def sum.case .
qed

section \<open>Failing nodes\<close>

text \<open>The start of a failure: the run, its workflow and the definition of the failed node.\<close>

definition fails_at :: "continuation_env \<Rightarrow> node_args \<Rightarrow> engine \<Rightarrow> run_state \<Rightarrow> workflow \<Rightarrow> node_def \<Rightarrow> bool" where
  "fails_at env na e st w d =
    (load_run (na_runId na) e = Some st \<and> awaits st na \<and> resolve_persisted_workflow env st = Some w
     \<and> jget (tp_defsById (topology_of w)) (na_nodeId na) = Some d \<and> nd_kind d = NodeKind)"

lemma fails_at_start:
  assumes "fails_at env na e st w d"
  obtains rp where "load_resumption env na e = (Inr rp, e)" "rp_state rp = st" "rp_workflow rp = w"
    "rp_scheduling rp = Some \<lparr>ss_pending = rs_pending st, ss_queue = rs_queue st\<rparr>" "webhook_signal_of rp (na_nodeId na) thrown = None"
proof -
  obtain rp where rp: "load_resumption env na e = (Inr rp, e)" "found env na e rp"
    using load_resumption_found assms unfolding fails_at_def by blast
  hence "rp_state rp = st" "rp_workflow rp = w" using assms by (simp_all add: found_def fails_at_def)
  thus ?thesis
    using that rp assms by (simp add: found_def fails_at_def webhook_signal_of_def del: map_of_eq_Some_iff)
qed

text \<open>A node that fails without an error handler fails its run: the result and the waiting callers get the
  error's message, no job is handed out, and the run is stored as failed with the outputs and the queue it had
  and the error in the node's snapshot.\<close>

theorem unhandled_error_fails_run:
  assumes "fails_at env na e st w d" "nc_nodeErrorHandler (nd_config d) = None"
    and "resume_from_node_error env na thrown e = (Inr res, e')"
  shows "res = ResFailed (header_of st) (err_message (te_error thrown)) \<and> told e res e' \<and> jobs_of e' = jobs_of e \<and>
    (\<exists>t. load_run (rs_runId st) e' \<in> {Some t, None} \<and> rs_status t = RunFailed \<and> rs_pending t = None
      \<and> rs_queue t = rs_queue st \<and> rs_outputsByNode t = rs_outputsByNode st
      \<and> (\<exists>snap. jget (rs_nodeSnapshotsByNodeId t) (na_nodeId na) = Some snap \<and> ns_status snap = NsFailed
            \<and> ns_error snap = Some (snapshot_error (te_error thrown))))"
proof -
  obtain rp where rp: "load_resumption env na e = (Inr rp, e)" "rp_state rp = st" "rp_workflow rp = w"
    "rp_scheduling rp = Some \<lparr>ss_pending = rs_pending st, ss_queue = rs_queue st\<rparr>" "webhook_signal_of rp (na_nodeId na) thrown = None"
    using fails_at_start [OF assms(1)] by blast
  let ?R = "\<lambda>res. res = ResFailed (header_of st) (err_message (te_error thrown))"
  define failed where "failed = (\<lambda>finishedAt. merge_terminal st (opt_or (rs_engineCounters st) \<lparr>ec_completedNodeActivations = 0\<rparr>)
      RunFailed None (rs_queue st) (rs_outputsByNode st)
      (jset (na_nodeId na) (snapshot_failed (jget (rs_nodeSnapshotsByNodeId st) (na_nodeId na)) (scope_of st) (na_nodeId na)
         (na_activationId na) finishedAt (pe_inputsByPort (rp_pending rp)) (te_error thrown)) (rs_nodeSnapshotsByNodeId st))
      (Some finishedAt))"
  have run: "resume_from_node_error env na thrown e = fail_run env na rp (te_error thrown) e"
    using assms(1,2) rp
    by (simp add: resume_from_node_error_def then_do_def fails_at_def resolve_node_error_handler_def lift_result_def
        del: map_of_eq_Some_iff)
  have "wp (fail_run env na rp (te_error thrown)) (\<lambda>r e'. \<exists>t0. finished_as e (failed t0) ?R r e') e"
    unfolding fail_run_def Let_def wp_then wp_now sum.case rp(2-4) opt_or.simps option.map scheduling_state.simps
    by (rule wp_mono [OF finish_run_finished [where R = ?R and t = "failed (se_clk env (wo_clock e))", unfolded failed_def,
          OF _ _ _ near_now [OF near_core [OF refl]]]])
       (auto intro!: gives_return simp: merge_terminal_def failed_def)
  from wp_result [OF this assms(3) [unfolded run]] obtain t0 where "finished_as e (failed t0) ?R (Inr res) e'" by blast
  thus ?thesis
    by (auto intro!: exI [of _ "bump_revision (failed t0)"] simp: finished_as_def failed_def merge_terminal_def bump_revision_def
        snapshot_failed_def)
qed

text \<open>The error handler of a node stands in for the node: when it gives outputs and the run can go on with them,
  the failure has exactly the effect of the node returning these outputs.\<close>

theorem handled_error_continues:
  assumes "fails_at env na e st w d" "nc_nodeErrorHandler (nd_config d) = Some (InlineHandler k)"
    and "\<forall>args. ha_error args = te_error thrown \<longrightarrow> ce_inlineNodeHandler env k args = Inr recovered"
    and "resume_from_node_result env na recovered e = (Inr res, e')" "is_ok (resolve_engine_limits env st)"
  shows "resume_from_node_error env na thrown e = (Inr res, e')"
proof -
  obtain rp where rp: "load_resumption env na e = (Inr rp, e)" "rp_state rp = st" "rp_workflow rp = w"
    "webhook_signal_of rp (na_nodeId na) thrown = None"
    using fails_at_start [OF assms(1)] by blast
  obtain limits where "resolve_engine_limits env st = Inr limits" using assms(5) by (auto simp: is_ok_iff)
  hence "recover_node env na rp d (ce_inlineNodeHandler env k) (te_error thrown) e = (Inr res, e')"
    using assms(3,4) rp
    by (simp add: recover_node_def context_for_pending_def then_do_def lift_result_def Let_def)
  thus ?thesis
    using assms(1,2) rp
    by (simp add: resume_from_node_error_def then_do_def fails_at_def resolve_node_error_handler_def lift_result_def catch_do_def
        del: map_of_eq_Some_iff)
qed

section \<open>Resuming a suspended run\<close>

text \<open>What resuming the item of a task stores: the run waits for one new activation of the task's node, on the item the
  task is about, with the decision; the other tasks stay.\<close>

definition resumed_as :: "continuation_env \<Rightarrow> engine \<Rightarrow> run_state \<Rightarrow> workflow \<Rightarrow> suspension_entry \<Rightarrow> resume_context \<Rightarrow> run_state \<Rightarrow> bool" where
  "resumed_as env e st w entry ctx t =
    (same_run st t \<and> rs_status t = RunPending \<and> rs_engineCounters t = rs_engineCounters st
     \<and> (\<exists>pe. rs_pending t = Some pe \<and> pe_activationId pe = ce_newId env (en_ids e) \<and> pe_nodeId pe = se_nodeId entry
          \<and> pe_runId pe = rs_runId st)
     \<and> rs_pendingResume t = Some \<lparr>pu_activationId = ce_newId env (en_ids e), pu_nodeId = se_nodeId entry, pu_resumeContext = ctx\<rparr>
     \<and> opt_or (rs_suspension t) [] = filter (\<lambda>s. se_taskId s \<noteq> se_taskId entry) (opt_or (rs_suspension st) [])
     \<and> rs_queue t = [])"

lemma next_id_eval: "next_id mk e = (Inr (mk (en_ids e)), e\<lparr>en_ids := Suc (en_ids e)\<rparr>)"
  by (simp add: next_id_def)

lemma make_request_sel [simp]:
  "ar_runId (create_single_with_activation rq n config b input act) = rq_runId rq"
  "ar_activationId (create_single_with_activation rq n config b input act) = act"
  "ar_nodeId (create_single_with_activation rq n config b input act) = n"
  by (simp_all add: create_single_with_activation_def make_request_def)

lemma resume_enqueue_sel [simp]:
  "er_scope (resume_enqueue st request remaining pr) = scope_of st" "er_request (resume_enqueue st request remaining pr) = request"
  by (simp_all add: resume_enqueue_def)

text \<open>Resuming a task: the run must be suspended on it; then the run waits for one new activation of the task's
  node, which one scheduler got, carrying the decision, and the other tasks stay open.  The stored run's queue,
  however, is empty afterwards, whatever was queued when the run was suspended.\<close>

theorem resume_run_effect:
  assumes "resume_run env r taskId ctx e = (Inr res, e')"
  shows "\<exists>st w entry t. load_run r e = Some st \<and> rs_status st = RunSuspended \<and> entry \<in> set (opt_or (rs_suspension st) [])
    \<and> se_taskId entry = taskId \<and> resolve_persisted_workflow env st = Some w
    \<and> load_run (rs_runId st) e' = Some t \<and> resumed_as env e st w entry ctx t
    \<and> one_more_job (rs_runId st) (ce_newId env (en_ids e)) e e' \<and> result_fits res t
    \<and> (\<forall>s. s \<noteq> rs_runId st \<longrightarrow> load_run s e' = load_run s e)"
proof -
  from assms obtain st entry w pl d limits where pre: "load_run r e = Some st" "rs_status st = RunSuspended"
    "find (\<lambda>s. se_taskId s = taskId) (opt_or (rs_suspension st) []) = Some entry"
    "resolve_persisted_workflow env st = Some w" "planner_for env w = Inr pl"
    "runnable_definition pl (se_nodeId entry) = Inr d" "resolve_engine_limits env st = Inr limits"
    unfolding resume_run_def
    by (auto simp: then_do_def gets_do_def expect_do_def assert_do_def lift_result_def split: option.splits sum.splits if_splits)
  let ?act = "ce_newId env (en_ids e)"
  let ?e1 = "e\<lparr>en_ids := Suc (en_ids e)\<rparr>"
  let ?data = "create_run_data (Some (rs_outputsByNode st))"
  let ?req = "create_single_with_activation (request_scope_of st ((base_context_of st limits)\<lparr>bc_resumeContext := Some ctx\<rparr>) ?data)
      (se_nodeId entry) (nd_config d) (''resume_'' @ ?act) (resume_input w ?data entry) ?act"
  let ?pr = "\<lparr>pu_activationId = ?act, pu_nodeId = se_nodeId entry, pu_resumeContext = ctx\<rparr>"
  let ?a = "resume_enqueue st ?req (filter (\<lambda>s. se_taskId s \<noteq> taskId) (opt_or (rs_suspension st) [])) ?pr"
  obtain x e2 where run: "enqueue_with_snapshot (scheduling_env.truncate env) ?a ?e1 = (x, e2)" by fastforce
  have "ar_runId (er_request ?a) = sc_runId (er_scope ?a)" "sc_runId (er_scope ?a) = rs_runId st" by simp_all
  note step = enqueue_step [OF run this near_ids [OF near_core [OF refl]]]
  from assms pre run obtain res' snap where x: "x = Inr (res', snap)" "res' = res" "publish_node NodeQueuedEvent snap e2 = (Inr (), e')"
    unfolding resume_run_def
    by (auto simp: then_do_def gets_do_def expect_do_def assert_do_def lift_result_def next_id_eval Let_def return_do_def
        publish_node_def update_do_def split: sum.splits)
  obtain p where p: "res = pending_result ?a p" "stored_as_pending ?a e2 p" "one_more_job (rs_runId st) ?act e e2"
    "\<forall>s. s \<noteq> rs_runId st \<longrightarrow> load_run s e2 = load_run s e"
    using step x by auto
  have core: "core e' = core e2" using quietD [OF quiet_publish x(3)] .
  obtain qs where t: "load_run (rs_runId st) e2 = Some (bump_revision (pending_state ?a p qs))" "pe_activationId p = ?act"
    "pe_nodeId p = se_nodeId entry" "pe_runId p = rs_runId st"
    using p(2) by (auto simp: stored_as_pending_def)
  have entry: "entry \<in> set (opt_or (rs_suspension st) [])" "se_taskId entry = taskId"
    using pre(3) by (auto simp: find_Some_iff)
  have "resumed_as env e st w entry ctx (bump_revision (pending_state ?a p qs))"
    using t(2-4) entry(2)
    by (simp add: resumed_as_def same_run_def pending_state_def resume_enqueue_def scope_of_def bump_revision_def)
  moreover have "result_fits res (bump_revision (pending_state ?a p qs))"
    by (simp add: p(1) pending_result_def pending_state_def resume_enqueue_def scope_of_def header_of_def bump_revision_def)
  moreover have "load_run s e' = load_run s e2" "jobs_of e' = jobs_of e2" for s using core_fields [OF core] by simp_all
  ultimately show ?thesis
    using pre(1,2,4) entry p(3,4) t(1)
    by (intro exI [of _ st] exI [of _ w] exI [of _ entry] exI [of _ "bump_revision (pending_state ?a p qs)"])
       (simp add: one_more_job_def)
qed

section \<open>Witnesses\<close>

text \<open>Two nodes in a row; the first one is awaited.\<close>

definition sample_pair :: workflow where
  "sample_pair = sample_of [sample_node ''a'' NodeKind None, sample_node ''b'' NodeKind None]
    [sample_edge ''a'' ''main'' ''b'' ''in'']"

definition sample_pending :: pending_execution where
  "sample_pending =
    \<lparr>pe_runId = ''r'', pe_activationId = ''act1'', pe_workflowId = ''wf'', pe_nodeId = ''a'', pe_itemsIn = 1,
     pe_inputsByPort = [(''in'', [sample_item ''x''])], pe_receiptId = ''local'', pe_queue = None,
     pe_batchId = Some ''batch_1'', pe_enqueuedAt = ''t0''\<rparr>"

definition sample_waiting :: run_state where
  "sample_waiting = sample_run\<lparr>rs_status := RunPending, rs_pending := Some sample_pending\<rparr>"

definition sample_rejection :: item where
  "sample_rejection = json_item (JObj [(''decision'', JObj [(''status'', JStr ''rejected'')])])"

definition sample_continuation :: "workflow \<Rightarrow> continuation_env" where
  "sample_continuation w = scheduling_env.extend sample_scheduling
    (continuation_env.fields (\<lambda>_ _. Some w) limits_defaults (\<lambda>_ _. Inr True)
      (\<lambda>n. ''act_'' @ string_of_nat n) (\<lambda>_ _. Inr [(''main'', [sample_rejection])]) (\<lambda>_. Inr (\<lambda>_. Inr [])) (\<lambda>_ _. None) (\<lambda>_. Inr (\<lambda>_. None)))"

definition sample_args :: node_args where
  "sample_args = \<lparr>na_runId = ''r'', na_activationId = ''act1'', na_nodeId = ''a''\<rparr>"

definition sample_host :: "run_state \<Rightarrow> engine" where
  "sample_host st = sample_engine\<lparr>wo_runs := [(''r'', st)], en_completionWaiters := [(''r'', [7])]\<rparr>"

definition sample_pair_planner :: planner where
  "sample_pair_planner = \<lparr>pl_topology = topology_of sample_pair, pl_nodeInstances = [(''a'', sample_instance False), (''b'', sample_instance False)]\<rparr>"

lemma sample_continuation_sel [simp]:
  "ce_resolveWorkflow (sample_continuation w) i s = Some w" "ie_createByType (sample_continuation w) t = Inr (sample_instance False)"
  "ce_limits (sample_continuation w) = limits_defaults" "ce_storage (sample_continuation w) tok sargs = Inr True"
  "ce_newId (sample_continuation w) n = ''act_'' @ string_of_nat n" "se_clk (sample_continuation w) = string_of_nat"
  "ce_inlineNodeHandler (sample_continuation w) k hargs = Inr [(''main'', [sample_rejection])]"
  "scheduling_env.truncate (sample_continuation w) = sample_scheduling"
  by (simp_all add: sample_continuation_def scheduling_env.defs continuation_env.defs sample_scheduling_def sample_instances_env_def
      instance_env.defs)

lemma sample_pair_created: "planner_for (sample_continuation sample_pair) sample_pair = Inr sample_pair_planner"
proof -
  have "validate_acyclic sample_pair = Inr ()" by code_simp
  moreover have "validate_node_kinds (pl_topology sample_pair_planner) (pl_nodeInstances sample_pair_planner) = Inr ()" by code_simp
  moreover have "create_nodes (ie_createByType (sample_continuation sample_pair)) sample_pair = Inr (pl_nodeInstances sample_pair_planner)"
    by (simp add: create_nodes_def sample_pair_def sample_of_def sample_node_def sample_pair_planner_def)
  ultimately show ?thesis by (simp add: planner_for_def create_planner_Inr_iff sample_pair_planner_def)
qed

lemma sample_root_limits:
  "create_root_execution_options limits_defaults = Inr (empty_execution_options\<lparr>eo_subworkflowDepth := Some 0,
     eo_maxNodeActivations := Some 100000, eo_maxSubworkflowDepth := Some 32\<rparr>)"
  by (simp add: create_root_execution_options_def limits_defaults_def merge_execution_options_def cap_number_def)

lemma sample_waiting_sel [simp]:
  "rs_runId sample_waiting = ''r''" "rs_workflowId sample_waiting = ''wf''" "rs_status sample_waiting = RunPending"
  "rs_pending sample_waiting = Some sample_pending" "rs_executionOptions sample_waiting = None"
  "rs_outputsByNode sample_waiting = []" "rs_queue sample_waiting = []" "rs_engineCounters sample_waiting = None"
  "rs_control sample_waiting = None" "rs_nodeSnapshotsByNodeId sample_waiting = []" "rs_mutableState sample_waiting = None"
  by (simp_all add: sample_waiting_def sample_run_def initial_run_state_def sample_create_def)

lemma sample_host_load [simp]: "load_run ''r'' (sample_host st) = Some st"
  by (simp add: sample_host_def load_run_def)

lemma sample_args_sel [simp]: "na_runId sample_args = ''r''" "na_nodeId sample_args = ''a''" "na_activationId sample_args = ''act1''"
  by (simp_all add: sample_args_def)

lemma sample_awaits: "awaits sample_waiting sample_args"
  by (simp add: awaits_def sample_pending_def)

lemma sample_found:
  assumes "load_run ''r'' e = Some sample_waiting"
  shows "\<exists>rp. load_resumption (sample_continuation w) sample_args e = (Inr rp, e) \<and> rp_state rp = sample_waiting
    \<and> rp_workflow rp = w"
proof -
  obtain rp where rp: "load_resumption (sample_continuation w) sample_args e = (Inr rp, e)" "found (sample_continuation w) sample_args e rp"
    using load_resumption_found [of sample_args e sample_waiting "sample_continuation w" w, OF _ sample_awaits] assms
    unfolding resolve_persisted_workflow_def sample_args_sel sample_continuation_sel by blast
  thus ?thesis using assms by (auto simp: found_def resolve_persisted_workflow_def)
qed

lemma sample_dec: "js_field (js_field (it_json sample_rejection) ''decision'') ''status'' = JStr ''rejected''"
  by (simp add: sample_rejection_def json_item_def)

lemma sample_policy [simp]: "rs_policySnapshot sample_waiting = None"
  by (simp add: sample_waiting_def sample_run_def initial_run_state_def sample_create_def)

lemma sample_pair_storage [simp]: "wf_storagePolicy sample_pair = None" "wf_workflowErrorHandler sample_pair = None"
  by (simp_all add: sample_pair_def sample_of_def)

lemma sample_halts:
  assumes "planner_for (sample_continuation w) w = Inr pl" "wf_storagePolicy w = None"
  shows "\<exists>res e'. resume_from_node_result (sample_continuation w) sample_args [(''main'', [sample_rejection])] (sample_host sample_waiting)
    = (Inr res, e') \<and> res = ResHalted (header_of sample_waiting) HitlRejected"
proof -
  let ?e = "sample_host sample_waiting"
  obtain rp where rp: "load_resumption (sample_continuation w) sample_args ?e = (Inr rp, ?e)" "rp_state rp = sample_waiting"
    "rp_workflow rp = w" using sample_found [of ?e] by auto
  show ?thesis
    using rp sample_dec assms
    by (simp add: resume_from_node_result_def then_do_def lift_result_def resolve_engine_limits_def
        sample_root_limits now_do_def Let_def resolve_hitl_status_def halt_run_def finish_run_def update_do_def announce_completed_def
        publish_node_def delete_after_terminal_def maybe_delete_after_terminal_def should_persist_def merge_terminal_def return_do_def)
qed

lemma negative_decision_halts_witness:
  "\<exists>res e'. resume_from_node_result (sample_continuation sample_pair) sample_args [(''main'', [sample_rejection])] (sample_host sample_waiting) = (Inr res, e')
    \<and> res = ResHalted (header_of sample_waiting) HitlRejected \<and> en_completions e' = [(7, res)]"
proof -
  obtain res e' where run: "resume_from_node_result (sample_continuation sample_pair) sample_args [(''main'', [sample_rejection])]
      (sample_host sample_waiting) = (Inr res, e')"
    using sample_halts [OF sample_pair_created sample_pair_storage(1)] by blast
  have st: "load_run (na_runId sample_args) (sample_host sample_waiting) = Some sample_waiting" by simp
  have dec: "(''rejected'', NsHitlRejected, HitlRejected) \<in> {(''rejected'', NsHitlRejected, HitlRejected), (''timed-out'', NsHitlTimeout, HitlTimeout)}"
    by simp
  have main: "jget [(''main'', [sample_rejection])] ''main'' = Some [sample_rejection]" by simp
  note m = negative_decision_halts [OF st main sample_dec dec run]
  have n: "res = ResHalted (header_of sample_waiting) HitlRejected" "told (sample_host sample_waiting) res e'"
    using m by blast+
  have "en_completions e' = [(7, res)]"
    using n(2) unfolding n(1) told_def Let_def by (simp add: sample_host_def sample_engine_def)
  thus ?thesis using run n(1) by blast
qed

lemma node_outcome_witness:
  "\<exists>r e'. resume_from_node_result (sample_continuation sample_pair) sample_args [(''main'', [])] (sample_host sample_waiting) = (r, e')
    \<and> outcome (sample_continuation sample_pair) (sample_host sample_waiting) sample_waiting r e'"
proof -
  obtain r e' where run: "resume_from_node_result (sample_continuation sample_pair) sample_args [(''main'', [])] (sample_host sample_waiting) = (r, e')"
    by fastforce
  have "load_run (na_runId sample_args) (sample_host sample_waiting) = Some sample_waiting" by simp
  from node_outcome_ends_or_continues [OF this disjI1 [OF run]] run show ?thesis by blast
qed

lemma stale_outcome_witness:
  "\<exists>err. is_ignorable err \<and>
    resume_from_node_result (sample_continuation sample_pair) (sample_args\<lparr>na_activationId := ''old''\<rparr>) [] (sample_host sample_waiting)
      = (Inl err, sample_host sample_waiting)"
proof -
  have "load_run (na_runId (sample_args\<lparr>na_activationId := ''old''\<rparr>)) (sample_host sample_waiting) = Some sample_waiting"
    "\<not> awaits sample_waiting (sample_args\<lparr>na_activationId := ''old''\<rparr>)"
    by (simp_all add: awaits_def sample_pending_def)
  from stale_outcome_changes_nothing [OF this, of "sample_continuation sample_pair"] show ?thesis by blast
qed

lemma sample_failing: "fails_at (sample_continuation sample_pair) sample_args (sample_host sample_waiting) sample_waiting sample_pair (sample_node ''a'' NodeKind None)"
proof -
  have "jget (tp_defsById (topology_of sample_pair)) ''a'' = Some (sample_node ''a'' NodeKind None)" by code_simp
  thus ?thesis
    by (simp add: fails_at_def sample_awaits resolve_persisted_workflow_def sample_node_def del: map_of_eq_Some_iff)
qed

definition sample_thrown :: thrown_error where
  "sample_thrown =
    \<lparr>te_error = plain_error ''boom'', te_webhookControl = False, te_kind = [], te_responseItems = None, te_continueItems = None\<rparr>"

lemma unhandled_error_fails_run_witness:
  "\<exists>e'. resume_from_node_error (sample_continuation sample_pair) sample_args sample_thrown (sample_host sample_waiting)
      = (Inr (ResFailed (header_of sample_waiting) ''boom''), e')
    \<and> en_completions e' = [(7, ResFailed (header_of sample_waiting) ''boom'')]"
proof -
  let ?e = "sample_host sample_waiting"
  have cfg: "nc_nodeErrorHandler (nd_config (sample_node ''a'' NodeKind None)) = None"
    by (simp add: sample_node_def sample_config_def)
  obtain rp where rp: "load_resumption (sample_continuation sample_pair) sample_args ?e = (Inr rp, ?e)" "rp_state rp = sample_waiting"
    "rp_workflow rp = sample_pair" using sample_found [of ?e] by auto
  have d: "jget (tp_defsById (topology_of sample_pair)) ''a'' = Some (sample_node ''a'' NodeKind None)"
    using sample_failing by (simp add: fails_at_def del: map_of_eq_Some_iff)
  have k: "nd_kind (sample_node ''a'' NodeKind None) = NodeKind" by (simp add: sample_node_def)
  obtain res e' where run: "resume_from_node_error (sample_continuation sample_pair) sample_args sample_thrown ?e = (Inr res, e')"
    using rp d cfg k
    by (simp add: resume_from_node_error_def webhook_signal_of_def then_do_def lift_result_def resolve_node_error_handler_def
        fail_run_def now_do_def Let_def finish_run_def update_do_def publish_node_def notify_workflow_handler_def
        resolve_workflow_error_handler_def delete_after_terminal_def maybe_delete_after_terminal_def should_persist_def
        merge_terminal_def return_do_def del: map_of_eq_Some_iff)
  note m = unhandled_error_fails_run [OF sample_failing cfg run]
  have n: "res = ResFailed (header_of sample_waiting) ''boom''" "told ?e res e'"
    using m [THEN conjunct1] m [THEN conjunct2, THEN conjunct1] by (simp_all add: sample_thrown_def)
  have "en_completions e' = [(7, res)]"
    using n(2) unfolding n(1) told_def Let_def by (simp add: sample_host_def sample_engine_def)
  thus ?thesis using run n(1) by blast
qed

lemma outcome_applied_once_witness:
  "\<exists>res e'. resume_from_node_result (sample_continuation sample_pair) sample_args [(''main'', [sample_rejection])] (sample_host sample_waiting) = (Inr res, e')
    \<and> (\<exists>err. resume_from_node_result (sample_continuation sample_pair) sample_args [] e' = (Inl err, e'))"
proof -
  have new: "ce_newId (sample_continuation sample_pair) (en_ids (sample_host sample_waiting)) \<noteq> na_activationId sample_args" by simp
  obtain res e' where run: "resume_from_node_result (sample_continuation sample_pair) sample_args [(''main'', [sample_rejection])]
      (sample_host sample_waiting) = (Inr res, e')"
    using sample_halts [OF sample_pair_created sample_pair_storage(1)] by blast
  from outcome_applied_once [OF _ _ new disjI1 [OF run]] run show ?thesis by auto
qed

text \<open>The pair of nodes where the first has an error handler.\<close>

definition sample_guarded :: workflow where
  "sample_guarded = sample_of
    [\<lparr>nd_id = ''a'', nd_kind = NodeKind, nd_type = ClassToken 1 ''Sample'', nd_name = None,
      nd_config = (sample_config NodeKind None)\<lparr>nc_nodeErrorHandler := Some (InlineHandler 0)\<rparr>\<rparr>,
     sample_node ''b'' NodeKind None]
    [sample_edge ''a'' ''main'' ''b'' ''in'']"

lemma handled_error_continues_witness:
  "\<exists>res e'. resume_from_node_error (sample_continuation sample_guarded) sample_args sample_thrown (sample_host sample_waiting) = (Inr res, e')
    \<and> res = ResHalted (header_of sample_waiting) HitlRejected"
proof -
  let ?env = "sample_continuation sample_guarded"
  let ?e = "sample_host sample_waiting"
  let ?d = "\<lparr>nd_id = ''a'', nd_kind = NodeKind, nd_type = ClassToken 1 ''Sample'', nd_name = None,
      nd_config = (sample_config NodeKind None)\<lparr>nc_nodeErrorHandler := Some (InlineHandler 0)\<rparr>\<rparr>"
  have "validate_acyclic sample_guarded = Inr ()" by code_simp
  moreover have "validate_node_kinds (topology_of sample_guarded) [(''a'', sample_instance False), (''b'', sample_instance False)] = Inr ()"
    by code_simp
  ultimately have pl: "planner_for ?env sample_guarded =
      Inr \<lparr>pl_topology = topology_of sample_guarded, pl_nodeInstances = [(''a'', sample_instance False), (''b'', sample_instance False)]\<rparr>"
    by (simp add: planner_for_def create_planner_Inr_iff create_nodes_def sample_guarded_def sample_of_def sample_node_def)
  have "jget (tp_defsById (topology_of sample_guarded)) ''a'' = Some ?d" by code_simp
  hence fails: "fails_at ?env sample_args ?e sample_waiting sample_guarded ?d"
    by (simp add: fails_at_def sample_awaits resolve_persisted_workflow_def del: map_of_eq_Some_iff)
  have st: "wf_storagePolicy sample_guarded = None" by (simp add: sample_guarded_def sample_of_def)
  obtain res e' where run: "resume_from_node_result ?env sample_args [(''main'', [sample_rejection])] ?e = (Inr res, e')"
    and res: "res = ResHalted (header_of sample_waiting) HitlRejected"
    using sample_halts [OF pl st] by blast
  have cfg: "nc_nodeErrorHandler (nd_config ?d) = Some (InlineHandler 0)" by simp
  have handler: "\<forall>args. ha_error args = te_error sample_thrown \<longrightarrow>
      ce_inlineNodeHandler ?env 0 args = Inr [(''main'', [sample_rejection])]" by simp
  have "is_ok (resolve_engine_limits ?env sample_waiting)" by (simp add: resolve_engine_limits_def sample_root_limits)
  from handled_error_continues [OF fails cfg handler run this] res show ?thesis by blast
qed

definition sample_task :: suspension_entry where
  "sample_task =
    \<lparr>se_taskId = ''task'', se_nodeId = ''a'', se_activationId = ''act1'', se_itemIndex = 0, se_decisionSchemaHash = ''h'',
     se_deliveryRef = JNull, se_timeoutAt = ''t9'', se_onTimeout = HaltOnTimeout\<rparr>"

definition sample_suspended :: run_state where
  "sample_suspended = sample_run\<lparr>rs_status := RunSuspended, rs_suspension := Some [sample_task],
     rs_queue := [\<lparr>qe_nodeId = ''b'', qe_input = [sample_item ''x''], qe_toInput = Some ''in'', qe_batchId = Some ''batch_1'',
       qe_from = None, qe_collect = None\<rparr>]\<rparr>"

definition sample_decision :: resume_context where
  "sample_decision =
    \<lparr>rx_decision = AutoAccepted ''t1'', rx_delivery = JNull,
     rx_task = \<lparr>th_taskId = ''task'', th_runId = ''r'', th_nodeId = ''a'', th_expiresAt = ''t9'', th_resumeUrl = [], th_metadata = None\<rparr>\<rparr>"

text \<open>The sample run resumes with any decision, at any time.\<close>

lemma sample_resumes:
  "\<exists>res e'. resume_run (sample_continuation sample_pair) ''r'' ''task'' ctx ((sample_host sample_suspended)\<lparr>wo_clock := n\<rparr>) = (Inr res, e')"
proof -
  let ?env = "sample_continuation sample_pair"
  let ?e = "(sample_host sample_suspended)\<lparr>wo_clock := n\<rparr>"
  have sel: "rs_status sample_suspended = RunSuspended" "rs_suspension sample_suspended = Some [sample_task]"
    "rs_outputsByNode sample_suspended = []" "rs_executionOptions sample_suspended = None" "rs_runId sample_suspended = ''r''"
    "rs_workflowId sample_suspended = ''wf''" "rs_queue sample_suspended \<noteq> []"
    by (simp_all add: sample_suspended_def sample_run_def initial_run_state_def sample_create_def)
  have d: "runnable_definition sample_pair_planner ''a'' = Inr (sample_node ''a'' NodeKind None)" by code_simp
  have i: "runs_per_item (sample_instance False)" "\<not> is_trigger_instance (sample_instance False)"
    by (simp_all add: runs_per_item_def is_trigger_instance_def sample_instance_def)
  have env: "instance_env.truncate sample_scheduling = sample_instances_env" "se_decide sample_scheduling = hint_only_decide"
    by (simp_all add: sample_scheduling_def sample_instances_env_def instance_env.defs scheduling_env.defs)
  have input: "resume_input sample_pair (create_run_data (Some [])) sample_task = []"
    by (simp add: resume_input_def sample_pair_def sample_of_def sample_edge_def sample_task_def)
  have prep: "prepare_request sample_instances_env (create_single_with_activation rq n (nd_config (sample_node ''a'' NodeKind None)) b [] act)
      = Inr (create_single_with_activation rq n (nd_config (sample_node ''a'' NodeKind None)) b [] act)" for rq n b act
    by (simp add: prepare_request_def prepare_single_def create_single_with_activation_def make_request_def sample_instances_env_def
        request_items_def)
  have disp: "prepare_dispatch hint_only_decide (create_single_with_activation (request_scope_of sample_suspended base data) n
      (nd_config (sample_node ''a'' NodeKind None)) b [] act) = Inr (prepare_inline (create_single_with_activation
      (request_scope_of sample_suspended base data) n (nd_config (sample_node ''a'' NodeKind None)) b [] act))" for base data n b act
    by (simp add: prepare_dispatch_def create_single_with_activation_def make_request_def request_scope_of_def sel
        select_scheduler_def hint_only_decide_def has_scheduling_preference_def sample_node_def sample_config_def
        create_node_context_def Let_def)
  have task: "se_taskId sample_task = ''task''" "se_nodeId sample_task = ''a''" by (simp_all add: sample_task_def)
  have stored: "load_run ''r'' ?e = Some sample_suspended" by (simp add: load_run_def sample_host_def)
  obtain res e' where run: "resume_run ?env ''r'' ''task'' ctx ?e = (Inr res, e')"
    by (simp add: resume_run_def then_do_def gets_do_def expect_do_def assert_do_def lift_result_def sel task stored next_id_eval
        resolve_persisted_workflow_def sample_pair_created d resolve_engine_limits_def sample_root_limits Let_def input
        enqueue_with_snapshot_def env prep disp now_do_def prepare_inline_def dispatch_prepared_def update_do_def return_do_def
        publish_node_def)
  then show ?thesis by blast
qed

lemma resume_run_effect_witness:
  "\<exists>res e' t. resume_run (sample_continuation sample_pair) ''r'' ''task'' sample_decision (sample_host sample_suspended) = (Inr res, e')
    \<and> load_run ''r'' e' = Some t \<and> rs_status t = RunPending \<and> rs_queue t = [] \<and> rs_queue sample_suspended \<noteq> []"
proof -
  let ?e = "sample_host sample_suspended"
  have sel: "rs_runId sample_suspended = ''r''" "rs_queue sample_suspended \<noteq> []"
    by (simp_all add: sample_suspended_def sample_run_def initial_run_state_def sample_create_def)
  have "?e\<lparr>wo_clock := wo_clock ?e\<rparr> = ?e" by simp
  with sample_resumes [of sample_decision "wo_clock ?e"] obtain res e' where
    run: "resume_run (sample_continuation sample_pair) ''r'' ''task'' sample_decision ?e = (Inr res, e')" by auto
  from resume_run_effect [OF run] obtain st t where
    "load_run ''r'' ?e = Some st" "load_run (rs_runId st) e' = Some t" "rs_status t = RunPending" "rs_queue t = []"
    by (auto simp: resumed_as_def)
  moreover from this(1) have "st = sample_suspended" by simp
  ultimately show ?thesis using run sel by auto
qed

end
