(* ===== verification/RunStart.thy ===== *)
theory RunStart
  imports RunLifecycle
begin

text \<open>
  \<open>orchestration/RunStartService.ts\<close>: a run is created, its workflow planned, and either its first activation is
  enqueued or it ends at once.  A run may start at a node, or from the state of an earlier run through the frontier
  planner.  Further parameters: the source of run ids, the policy defaults of the host, and the snapshot of a
  workflow.
\<close>

section \<open>Starting a run\<close>

record start_env = continuation_env +
  te_newRunId :: "nat \<Rightarrow> run_id"
  te_policyDefaults :: "policy_defaults option"
  te_createSnapshot :: "workflow \<Rightarrow> workflow_snapshot"

abbreviation cont_env :: "start_env \<Rightarrow> continuation_env" where
  "cont_env env \<equiv> continuation_env.truncate env"

abbreviation sched_env :: "start_env \<Rightarrow> scheduling_env" where
  "sched_env env \<equiv> scheduling_env.truncate env"

text \<open>What is settled about a run before its workflow is planned.\<close>

record new_run =
  nr_runId :: run_id
  nr_workflow :: workflow
  nr_startedAt :: iso_time
  nr_parent :: "parent_ref option"
  nr_options :: execution_options
  nr_control :: "run_control option"
  nr_snapshot :: workflow_snapshot
  nr_mutableState :: "mutable_run_state option"
  nr_policy :: policy_snapshot

definition no_activations :: engine_counters where
  "no_activations = \<lparr>ec_completedNodeActivations = 0\<rparr>"

definition create_args_of :: "new_run \<Rightarrow> create_run_args" where
  "create_args_of nr =
    \<lparr>ca_runId = nr_runId nr, ca_workflowId = wf_id (nr_workflow nr), ca_startedAt = nr_startedAt nr,
     ca_parent = nr_parent nr, ca_executionOptions = Some (nr_options nr), ca_control = nr_control nr,
     ca_workflowSnapshot = Some (nr_snapshot nr), ca_mutableState = nr_mutableState nr,
     ca_policySnapshot = Some (nr_policy nr), ca_engineCounters = Some no_activations\<rparr>"

definition new_run_scope :: "new_run \<Rightarrow> snapshot_scope" where
  "new_run_scope nr = \<lparr>sc_runId = nr_runId nr, sc_workflowId = wf_id (nr_workflow nr), sc_parent = nr_parent nr\<rparr>"

definition new_run_header :: "new_run \<Rightarrow> run_header" where
  "new_run_header nr = \<lparr>rh_runId = nr_runId nr, rh_workflowId = wf_id (nr_workflow nr), rh_startedAt = nr_startedAt nr\<rparr>"

definition begin_run ::
  "start_env \<Rightarrow> workflow \<Rightarrow> parent_ref option \<Rightarrow> execution_options option \<Rightarrow> run_control option
    \<Rightarrow> workflow_snapshot option \<Rightarrow> mutable_run_state option \<Rightarrow> (new_run, engine) engine_action" where
  "begin_run env w parent opts control snapshot mutable =
    then_do (next_id (te_newRunId env)) (\<lambda>r.
    then_do (now_do (se_clk env)) (\<lambda>startedAt.
    then_do (lift_result (merge_execution_options (ce_limits env) parent opts)) (\<lambda>merged.
      let nr = \<lparr>nr_runId = r, nr_workflow = w, nr_startedAt = startedAt, nr_parent = parent, nr_options = merged,
                nr_control = control, nr_snapshot = opt_or snapshot (te_createSnapshot env w),
                nr_mutableState = mutable, nr_policy = create_policy_snapshot w (te_policyDefaults env)\<rparr>
      in after_do (update_do (create_run (create_args_of nr))) (return_do nr))))"

definition new_run_base :: "new_run \<Rightarrow> base_context" where
  "new_run_base nr =
    \<lparr>bc_runId = nr_runId nr, bc_workflowId = wf_id (nr_workflow nr), bc_parent = nr_parent nr,
     bc_policySnapshot = Some (nr_policy nr), bc_subworkflowDepth = opt_or (eo_subworkflowDepth (nr_options nr)) 0,
     bc_engineMaxNodeActivations = the (eo_maxNodeActivations (nr_options nr)),
     bc_engineMaxSubworkflowDepth = the (eo_maxSubworkflowDepth (nr_options nr)),
     bc_testContext = eo_testContext (nr_options nr), bc_resumeContext = None\<rparr>"

definition new_run_requests :: "new_run \<Rightarrow> run_data \<Rightarrow> request_scope" where
  "new_run_requests nr data =
    \<lparr>rq_runId = nr_runId nr, rq_workflowId = wf_id (nr_workflow nr), rq_parent = nr_parent nr,
     rq_executionOptions = Some (nr_options nr), rq_base = new_run_base nr, rq_data = data\<rparr>"

definition new_run_enqueue ::
  "new_run \<Rightarrow> run_queue \<Rightarrow> activation_request \<Rightarrow> (node_id, node_snapshot) jmap \<Rightarrow> connection_invocation list option
    \<Rightarrow> enqueue_request" where
  "new_run_enqueue nr queue request snaps invocations =
    \<lparr>er_scope = new_run_scope nr, er_startedAt = nr_startedAt nr, er_executionOptions = Some (nr_options nr),
     er_control = nr_control nr, er_workflowSnapshot = Some (nr_snapshot nr), er_mutableState = nr_mutableState nr,
     er_policySnapshot = Some (nr_policy nr), er_pendingQueue = queue, er_request = request, er_previousSnapshots = snaps,
     er_engineCounters = Some no_activations, er_connectionInvocations = Some (opt_or invocations []),
     er_suspension = None, er_pendingResume = None\<rparr>"

section \<open>A run that ends at once\<close>

text \<open>Nothing is left to run.  The state carries no end time, and the storage policy is not asked.\<close>

definition finished_new_run ::
  "new_run \<Rightarrow> run_data \<Rightarrow> (node_id, node_snapshot) jmap \<Rightarrow> connection_invocation list option \<Rightarrow> run_state" where
  "finished_new_run nr data snaps invocations =
    \<lparr>rs_runId = nr_runId nr, rs_workflowId = wf_id (nr_workflow nr), rs_startedAt = nr_startedAt nr,
     rs_finishedAt = None, rs_revision = None, rs_parent = nr_parent nr, rs_executionOptions = Some (nr_options nr),
     rs_control = nr_control nr, rs_workflowSnapshot = Some (nr_snapshot nr), rs_mutableState = nr_mutableState nr,
     rs_policySnapshot = Some (nr_policy nr), rs_engineCounters = Some no_activations, rs_status = RunCompleted,
     rs_reason = None, rs_pending = None, rs_queue = [], rs_outputsByNode = dump_run_data data,
     rs_nodeSnapshotsByNodeId = snaps, rs_connectionInvocations = Some (opt_or invocations []),
     rs_suspension = None, rs_pendingResume = None\<rparr>"

definition complete_new_run ::
  "new_run \<Rightarrow> run_data \<Rightarrow> (node_id, node_snapshot) jmap \<Rightarrow> connection_invocation list option \<Rightarrow> (run_result, engine) engine_action" where
  "complete_new_run nr data snaps invocations =
    after_do (update_do (save_run (finished_new_run nr data snaps invocations)))
    (then_do (lift_result (resolve_result_outputs (nr_workflow nr) (Option.bind (nr_control nr) rc_stopCondition)
        (dump_run_data data))) (\<lambda>outs.
      let result = ResCompleted (new_run_header nr) outs
      in after_do (update_do (resolve_run_completion result)) (return_do result)))"

definition fail_during_planning :: "start_env \<Rightarrow> new_run \<Rightarrow> js_error \<Rightarrow> (run_result, engine) engine_action" where
  "fail_during_planning env nr err =
    then_do (now_do (se_clk env)) (\<lambda>finishedAt.
      let n = opt_or (err_nodeId err) ''undefined'';
          snap = snapshot_failed None (new_run_scope nr) n ''planning_failure'' finishedAt [] err;
          start = (finished_new_run nr [] [] None)\<lparr>rs_status := RunPending\<rparr>;
          failed = merge_terminal start no_activations RunFailed None [] [] [(n, snap)] (Some finishedAt);
          result = ResFailed (new_run_header nr) (err_message err)
      in after_do (update_do (save_run failed))
         (after_do (publish_node NodeFailedEvent snap)
         (after_do (update_do (resolve_run_completion result)) (return_do result))))"

section \<open>The first activation\<close>

definition schedule_queued_plan ::
  "start_env \<Rightarrow> new_run \<Rightarrow> planner \<Rightarrow> run_queue \<Rightarrow> run_data \<Rightarrow> (node_id, node_snapshot) jmap
    \<Rightarrow> connection_invocation list option \<Rightarrow> (run_result, engine) engine_action" where
  "schedule_queued_plan env nr pl queue data snaps invocations =
    then_do (lift_result (case apply_pinned_queue_skips (new_run_scope nr) pl (nr_mutableState nr) (nr_startedAt nr)
          \<lparr>pk_queue = queue, pk_data = data, pk_snapshots = snaps\<rparr> of
        None \<Rightarrow> Inl stack_overflow | Some r \<Rightarrow> r)) (\<lambda>pk.
    then_do (lift_result (next_activation pl (pk_queue pk))) (\<lambda>(nxt, queue1).
      case nxt of
        None \<Rightarrow> complete_new_run nr (pk_data pk) (pk_snapshots pk) invocations
      | Some planned \<Rightarrow>
          then_do (lift_result (runnable_definition pl (planned_node planned))) (\<lambda>d.
          then_do (next_id (ce_newId env)) (\<lambda>act.
            enqueue_activation (sched_env env)
              (new_run_enqueue nr queue1 (create_from_planned (new_run_requests nr (pk_data pk)) planned d act)
                (pk_snapshots pk) invocations)))))"

text \<open>The activation of the node a run starts at.\<close>

definition enqueue_first ::
  "start_env \<Rightarrow> new_run \<Rightarrow> node_def \<Rightarrow> items \<Rightarrow> run_data \<Rightarrow> (node_id, node_snapshot) jmap
    \<Rightarrow> connection_invocation list option \<Rightarrow> (run_result, engine) engine_action" where
  "enqueue_first env nr d input data snaps invocations =
    then_do (next_id (ce_newId env)) (\<lambda>act.
      enqueue_activation (sched_env env)
        (new_run_enqueue nr [] (create_single_with_activation (new_run_requests nr data) (nd_id d) (nd_config d)
          default_batch input act) snaps invocations))"

text \<open>A failed instantiation of a node ends the run as failed; any other planning error leaves it as created.\<close>

definition plan_new_run ::
  "start_env \<Rightarrow> new_run \<Rightarrow> (planner \<Rightarrow> (run_result, engine) engine_action) \<Rightarrow> (run_result, engine) engine_action" where
  "plan_new_run env nr continue =
    (case planner_for (cont_env env) (nr_workflow nr) of
       Inr pl \<Rightarrow> continue pl
     | Inl err \<Rightarrow> if err_kind err = NodeInstantiationErr then fail_during_planning env nr err else throw_do err)"

definition start_at_node ::
  "start_env \<Rightarrow> new_run \<Rightarrow> node_id \<Rightarrow> items \<Rightarrow> planner \<Rightarrow> (run_result, engine) engine_action" where
  "start_at_node env nr startAt its pl =
    then_do (expect_do (jget (tp_defsById (pl_topology pl)) startAt) (plain_error (''Unknown start nodeId: '' @ startAt))) (\<lambda>d.
      if nd_kind d = TriggerKind then enqueue_first env nr d its [] [] (Some [])
      else schedule_queued_plan env nr pl
             [\<lparr>qe_nodeId = startAt, qe_input = its, qe_toInput = Some ''in'', qe_batchId = Some default_batch,
               qe_from = None, qe_collect = None\<rparr>] [] [] (Some []))"

definition run_workflow ::
  "start_env \<Rightarrow> workflow \<Rightarrow> node_id \<Rightarrow> items \<Rightarrow> parent_ref option \<Rightarrow> execution_options option
    \<Rightarrow> workflow_snapshot option \<Rightarrow> mutable_run_state option \<Rightarrow> (run_result, engine) engine_action" where
  "run_workflow env w startAt its parent opts snapshot mutable =
    then_do (begin_run env w parent opts None snapshot mutable) (\<lambda>nr.
      plan_new_run env nr (start_at_node env nr startAt its))"

section \<open>Starting from the state of an earlier run\<close>

text \<open>The invocations of the earlier run stay with it.\<close>

definition create_run_current_state :: "current_state option \<Rightarrow> mutable_run_state option \<Rightarrow> current_state" where
  "create_run_current_state cur mutable =
    \<lparr>cu_outputsByNode = opt_or (map_option cu_outputsByNode cur) [],
     cu_nodeSnapshotsByNodeId = opt_or (map_option cu_nodeSnapshotsByNodeId cur) [],
     cu_connectionInvocations = Some [],
     cu_mutableState = opt_else mutable (Option.bind cur cu_mutableState)\<rparr>"

definition schedule_initial_plan ::
  "start_env \<Rightarrow> new_run \<Rightarrow> planner \<Rightarrow> frontier_plan \<Rightarrow> run_data \<Rightarrow> (run_result, engine) engine_action" where
  "schedule_initial_plan env nr pl plan data =
    (let snaps = apply_skipped_snapshots (new_run_scope nr) (fp_currentState plan) (fp_skippedNodeIds plan)
                   (fp_preservedPinnedNodeIds plan) (nr_startedAt nr);
         invocations = cu_connectionInvocations (fp_currentState plan)
     in if truthy_string (fp_rootNodeId plan)
        then then_do (expect_do (jget (tp_defsById (pl_topology pl)) (the (fp_rootNodeId plan)))
               (plain_error (''Unknown frontier nodeId: '' @ the (fp_rootNodeId plan)))) (\<lambda>d.
               enqueue_first env nr d (opt_or (fp_rootNodeInput plan) []) data snaps invocations)
        else schedule_queued_plan env nr pl (fp_queue plan) data snaps invocations)"

definition run_workflow_from_state :: "start_env \<Rightarrow> current_state_request \<Rightarrow> (run_result, engine) engine_action" where
  "run_workflow_from_state env rq =
    (let mutable = opt_else (cr_mutableState rq) (Option.bind (cr_currentState rq) cu_mutableState);
         stop = opt_or (cr_stopCondition rq) WorkflowCompleted
     in then_do (begin_run env (cr_workflow rq) (cr_parent rq) (cr_executionOptions rq)
            (Some \<lparr>rc_stopCondition = Some stop\<rparr>) (cr_workflowSnapshot rq) mutable) (\<lambda>nr.
        plan_new_run env nr (\<lambda>pl.
          then_do (lift_result (plan_frontier (pl_topology pl)
              \<lparr>pg_currentState = Some (create_run_current_state (cr_currentState rq) mutable),
               pg_stopCondition = Some stop, pg_reset = cr_reset rq, pg_items = cr_items rq\<rparr>)) (\<lambda>plan.
            schedule_initial_plan env nr pl plan
              (create_run_data (Some (cu_outputsByNode (fp_currentState plan))))))))"

section \<open>What a start leads to\<close>

text \<open>
  A stored run is under its own id, waits for something exactly when it says so, and has nothing pending when it has
  ended.
\<close>

definition run_ok :: "run_id \<Rightarrow> run_state \<Rightarrow> bool" where
  "run_ok r st =
    (rs_runId st = r \<and> (terminal_status (rs_status st) \<longrightarrow> rs_pending st = None)
     \<and> (rs_status st = RunPending \<longrightarrow> (\<exists>pe. rs_pending st = Some pe \<and> pe_runId pe = r)))"

definition new_run_ok :: "run_id \<Rightarrow> run_state \<Rightarrow> bool" where
  "new_run_ok r st = (run_ok r st \<and> rs_status st \<noteq> RunSuspended)"

lemma run_ok_bump [simp]: "run_ok r (bump_revision st) = run_ok r st" "new_run_ok r (bump_revision st) = new_run_ok r st"
  by (simp_all add: run_ok_def new_run_ok_def bump_revision_def)

lemma run_ok_pending: "stored_as_pending a e p \<Longrightarrow> sc_runId (er_scope a) = r \<Longrightarrow> \<exists>t. load_run r e = Some t \<and> new_run_ok r t"
  by (auto simp: stored_as_pending_def run_ok_def new_run_ok_def)

text \<open>Nothing but one run may differ, and that one is well formed if it does.\<close>

definition settled :: "run_id \<Rightarrow> engine \<Rightarrow> engine \<Rightarrow> bool" where
  "settled r e e1 =
    (near r e e1 \<and> (load_run r e1 = load_run r e \<or> (\<exists>t. load_run r e1 = Some t \<and> new_run_ok r t)))"

lemma settled_core: "core e1 = core e \<Longrightarrow> settled r e e1"
  unfolding settled_def using near_core core_fields by blast

lemma settled_now: "settled r e e1 \<Longrightarrow> settled r e (e1\<lparr>wo_clock := k\<rparr>)"
  by (simp add: settled_def near_now) (simp add: load_run_def)

lemma settled_ids: "settled r e e1 \<Longrightarrow> settled r e (e1\<lparr>en_ids := k\<rparr>)"
  by (simp add: settled_def near_ids) (simp add: load_run_def)

lemma enqueue_activation_wp:
  assumes "ar_runId (er_request a) = sc_runId (er_scope a)" "sc_runId (er_scope a) = r" "settled r e e1"
  shows "wp (enqueue_activation env a) (\<lambda>x e2. case x of
      Inl err \<Rightarrow> settled r e e2
    | Inr res \<Rightarrow> (\<forall>s. s \<noteq> r \<longrightarrow> load_run s e2 = load_run s e) \<and>
        (\<exists>p. res = pending_result a p \<and> stored_as_pending a e2 p
         \<and> one_more_job r (ar_activationId (er_request a)) e e2)) e1"
proof -
  obtain x e2 where run: "enqueue_with_snapshot env a e1 = (x, e2)" by fastforce
  have near: "near r e e1" using assms(3) by (simp add: settled_def)
  note step = enqueue_step [OF run assms(1,2) near]
  have rejected: "settled r e e2" if "x = Inl err" for err
    using step that enqueue_outcome [OF run assms(1)] run_ok_pending [OF _ assms(2)] assms(2,3)
    by (auto simp: settled_def load_run_def)
  have pub: "\<exists>e3. publish_node NodeQueuedEvent snap e2 = (Inr (), e3)" for snap
    by (simp add: publish_node_def update_do_def)
  show ?thesis
  proof (cases x)
    case (Inl err)
    thus ?thesis using run rejected by (simp add: enqueue_activation_def wp_def then_do_def)
  next
    case (Inr y)
    obtain res snap where y: "y = (res, snap)" by (cases y)
    obtain e3 where e3: "publish_node NodeQueuedEvent snap e2 = (Inr (), e3)" using pub by blast
    have same: "load_run s e3 = load_run s e2" "jobs_of e3 = jobs_of e2" for s
      using core_fields [OF quietD [OF quiet_publish e3]] by auto
    have "enqueue_activation env a e1 = (Inr res, e3)"
      using run Inr y e3 by (simp add: enqueue_activation_def then_do_def return_do_def)
    thus ?thesis using step Inr y
      by (auto simp: wp_def same stored_as_pending_def one_more_job_def)
  qed
qed

text \<open>
  A started run waits for its first activation or has ended; if starting throws, the run is not there, or it is
  left in the state it had: created and running, or stored as pending or completed by the step that threw.
\<close>

definition started :: "run_id \<Rightarrow> engine \<Rightarrow> js_error + run_result \<Rightarrow> engine \<Rightarrow> bool" where
  "started r e x e' =
    ((\<forall>s. s \<noteq> r \<longrightarrow> load_run s e' = load_run s e) \<and>
     (case x of
        Inl _ \<Rightarrow> jobs_of e' = jobs_of e \<and> waiting e' = waiting e
          \<and> (load_run r e' = load_run r e \<or> (\<exists>t. load_run r e' = Some t \<and> new_run_ok r t))
      | Inr res \<Rightarrow>
          (\<exists>t. load_run r e' = Some t \<and> rs_runId t = r \<and> result_fits res t \<and> counted_activations t = 0
             \<and> (if is_final_result res
                then rs_pending t = None \<and> rs_queue t = [] \<and> told e res e' \<and> jobs_of e' = jobs_of e
                else \<exists>pe. rs_pending t = Some pe \<and> pe_runId pe = r \<and> one_more_job r (pe_activationId pe) e e'))))"

lemma started_Inl: "settled r e e1 \<Longrightarrow> started r e (Inl err) e1"
  by (simp add: started_def settled_def near_def)

lemma new_run_enqueue_sel [simp]:
  "er_scope (new_run_enqueue nr q req snaps invs) = new_run_scope nr" "er_request (new_run_enqueue nr q req snaps invs) = req"
  "sc_runId (new_run_scope nr) = nr_runId nr" "rq_runId (new_run_requests nr data) = nr_runId nr"
  by (simp_all add: new_run_enqueue_def new_run_scope_def new_run_requests_def)

lemma enqueue_started:
  assumes "ar_runId req = nr_runId nr" "settled (nr_runId nr) e e1"
  shows "wp (enqueue_activation env (new_run_enqueue nr q req snaps invs)) (started (nr_runId nr) e) e1"
proof (rule wp_mono [OF enqueue_activation_wp [where r = "nr_runId nr" and e = e]])
  fix x :: "js_error + run_result" and e2
  let ?a = "new_run_enqueue nr q req snaps invs"
  assume x: "case x of Inl err \<Rightarrow> settled (nr_runId nr) e e2
    | Inr res \<Rightarrow> (\<forall>s. s \<noteq> nr_runId nr \<longrightarrow> load_run s e2 = load_run s e) \<and>
        (\<exists>p. res = pending_result ?a p \<and> stored_as_pending ?a e2 p
         \<and> one_more_job (nr_runId nr) (ar_activationId (er_request ?a)) e e2)"
  show "started (nr_runId nr) e x e2"
  proof (cases x)
    case (Inl err)
    thus ?thesis using x started_Inl by simp
  next
    case (Inr res)
    then obtain p qs where p: "res = pending_result ?a p" "one_more_job (nr_runId nr) (ar_activationId req) e e2"
      "\<forall>s. s \<noteq> nr_runId nr \<longrightarrow> load_run s e2 = load_run s e"
      "load_run (nr_runId nr) e2 = Some (bump_revision (pending_state ?a p qs))" "pe_runId p = nr_runId nr"
      "pe_activationId p = ar_activationId req"
      using x by (auto simp: stored_as_pending_def)
    have "result_fits res (bump_revision (pending_state ?a p qs))"
      by (simp add: p(1) pending_result_def pending_state_def header_of_def bump_revision_def)
    moreover have "counted_activations (pending_state ?a p qs) = 0" "rs_pending (pending_state ?a p qs) = Some p"
      "rs_runId (pending_state ?a p qs) = nr_runId nr"
      by (simp_all add: pending_state_def new_run_enqueue_def counted_activations_def no_activations_def new_run_scope_def)
    moreover have "counted_activations (bump_revision st) = counted_activations st" for st
      by (simp add: counted_activations_def bump_revision_def)
    ultimately show ?thesis
      using Inr p by (simp add: started_def pending_result_def)
  qed
qed (use assms in simp_all)

lemma enqueue_first_started:
  assumes "settled (nr_runId nr) e e1"
  shows "wp (enqueue_first env nr d its data snaps invs) (started (nr_runId nr) e) e1"
proof -
  have "next_id (ce_newId env) e1 = (Inr (ce_newId env (en_ids e1)), e1\<lparr>en_ids := Suc (en_ids e1)\<rparr>)" by (simp add: next_id_def)
  thus ?thesis
    unfolding enqueue_first_def
    by (subst wp_then_Inr, assumption) (rule enqueue_started, simp, rule settled_ids [OF assms])
qed


text \<open>A first state that is final is stored, and whoever waits for the run is told.\<close>

lemma settled_save: "settled (rs_runId t) e e1 \<Longrightarrow> new_run_ok (rs_runId t) t \<Longrightarrow> settled (rs_runId t) e (save_run t e1)"
  by (simp add: settled_def near_def save_run_def load_run_def jobs_of_def waiting_def fun_eq_iff)

lemma final_started:
  assumes "settled (rs_runId t) e e1" "is_final_result res" "result_fits res t" "counted_activations t = 0"
    and "rs_pending t = None" "rs_queue t = []" "core e2 = core (save_run t e1)"
  shows "started (rs_runId t) e (Inr res) (resolve_run_completion res e2)"
proof -
  have sf: "saved_final t e1 e2" using told_core(4) [OF assms(7)] saved_final_save(1) by blast
  have "load_run s (resolve_run_completion res e2) = load_run s e2" "jobs_of (resolve_run_completion res e2) = jobs_of e2" for s
    by (auto simp: resolve_run_completion_def Let_def load_run_def jobs_of_def fun_eq_iff split: list.split)
  moreover have "jobs_of (save_run t e1) = jobs_of e1" by (simp add: jobs_of_def save_run_def fun_eq_iff)
  ultimately have same: "load_run s (resolve_run_completion res e2) = load_run s (save_run t e1)"
    "jobs_of (resolve_run_completion res e2) = jobs_of e1" for s
    using core_fields [OF assms(7)] by simp_all
  have "told e2 res (resolve_run_completion res e2)" by (rule resolve_run_completion_told [OF assms(2)])
  hence "told e1 res (resolve_run_completion res e2)" using told_core(1) [OF assms(7)] told_save by blast
  hence tell: "told e res (resolve_run_completion res e2)"
    using assms(1) by (simp add: told_def settled_def near_def waiting_def)
  have stored: "load_run (rs_runId t) (save_run t e1) = Some (bump_revision t)"
    by (simp add: save_run_def load_run_def)
  have others: "s \<noteq> rs_runId t \<Longrightarrow> load_run s (save_run t e1) = load_run s e" for s
    using assms(1) by (simp add: settled_def near_def save_run_def load_run_def)
  have kept: "counted_activations (bump_revision t) = 0" "rs_pending (bump_revision t) = None" "rs_queue (bump_revision t) = []"
    "rs_runId (bump_revision t) = rs_runId t"
    using assms(4,5,6) by (simp_all add: bump_revision_def counted_activations_def)
  show ?thesis
    using assms(1,2,3) tell kept by (simp add: started_def same stored others settled_def near_def)
qed

lemma finished_new_run_sel [simp]:
  "rs_runId (finished_new_run nr data snaps invs) = nr_runId nr" "rs_pending (finished_new_run nr data snaps invs) = None"
  "rs_queue (finished_new_run nr data snaps invs) = []" "rs_status (finished_new_run nr data snaps invs) = RunCompleted"
  "header_of (finished_new_run nr data snaps invs) = new_run_header nr"
  "counted_activations (finished_new_run nr data snaps invs) = 0"
  by (simp_all add: finished_new_run_def header_of_def new_run_header_def counted_activations_def no_activations_def)

lemma complete_new_run_started:
  assumes "settled (nr_runId nr) e e1"
  shows "wp (complete_new_run nr data snaps invs) (started (nr_runId nr) e) e1"
proof -
  let ?t = "finished_new_run nr data snaps invs"
  have n: "settled (rs_runId ?t) e e1" using assms by simp
  have ok: "new_run_ok (nr_runId nr) ?t" by (simp add: new_run_ok_def run_ok_def)
  show ?thesis
    unfolding complete_new_run_def Let_def
    unfolding wp_simps sum.case
    using settled_save [OF n] ok final_started [OF n, of "ResCompleted (new_run_header nr) outs" "save_run ?t e1" for outs]
    by (simp add: started_Inl split: sum.split)
qed

lemma fail_during_planning_started:
  assumes "settled (nr_runId nr) e e1"
  shows "wp (fail_during_planning env nr err) (started (nr_runId nr) e) e1"
proof -
  obtain now e2 where now: "now_do (se_clk env) e1 = (Inr now, e2)" "e2 = e1\<lparr>wo_clock := wo_clock e2\<rparr>"
    by (simp add: now_do_def)
  define snap where "snap = snapshot_failed None (new_run_scope nr) (opt_or (err_nodeId err) ''undefined'')
      ''planning_failure'' now [] err"
  define t where "t = merge_terminal ((finished_new_run nr [] [] None)\<lparr>rs_status := RunPending\<rparr>) no_activations RunFailed
      None [] [] [(opt_or (err_nodeId err) ''undefined'', snap)] (Some now)"
  have t: "rs_runId t = nr_runId nr" "rs_pending t = None" "rs_queue t = []" "counted_activations t = 0"
    "result_fits (ResFailed (new_run_header nr) m) t" for m
    by (simp_all add: t_def merge_terminal_def counted_activations_def no_activations_def finished_new_run_def header_of_def
        new_run_header_def)
  have n: "settled (rs_runId t) e e2" using settled_now [OF assms] now(2) t(1) by metis
  obtain e3 where pub: "publish_node NodeFailedEvent snap (save_run t e2) = (Inr (), e3)"
    by (simp add: publish_node_def update_do_def)
  have c: "core e3 = core (save_run t e2)" by (rule quietD [OF quiet_publish pub])
  have "started (nr_runId nr) e (Inr (ResFailed (new_run_header nr) (err_message err)))
      (resolve_run_completion (ResFailed (new_run_header nr) (err_message err)) e3)"
    using final_started [OF n _ t(5,4,2,3) c] t(1) by simp
  thus ?thesis
    unfolding fail_during_planning_def Let_def
    unfolding wp_then_Inr [where m = "now_do (se_clk env)" and s = e1, OF now(1)]
    unfolding snap_def [symmetric] t_def [symmetric] wp_then wp_update sum.case
    unfolding wp_def pub by (simp add: return_do_def)
qed


lemma wp_next_id [wp_simps]: "wp (next_id mk) Q e = Q (Inr (mk (en_ids e))) (e\<lparr>en_ids := Suc (en_ids e)\<rparr>)"
  by (simp add: wp_def next_id_def)

lemma schedule_queued_plan_started:
  assumes "settled (nr_runId nr) e e1"
  shows "wp (schedule_queued_plan env nr pl queue data snaps invs) (started (nr_runId nr) e) e1"
  unfolding schedule_queued_plan_def wp_simps sum.case
  using complete_new_run_started [OF assms] enqueue_started [OF _ settled_ids [OF assms]]
  by (auto simp: started_Inl [OF assms] wp_simps split: sum.split option.split prod.split)

lemma plan_new_run_started:
  assumes "settled (nr_runId nr) e e1" "\<And>pl. wp (continue pl) (started (nr_runId nr) e) e1"
  shows "wp (plan_new_run env nr continue) (started (nr_runId nr) e) e1"
  unfolding plan_new_run_def wp_simps
  using assms(2) fail_during_planning_started [OF assms(1)] started_Inl [OF assms(1)]
  by (auto split: sum.split)

lemma begin_run_wp:
  assumes "\<And>err e1. settled (te_newRunId env (en_ids e)) e e1 \<Longrightarrow> Q (Inl err) e1"
    and "\<And>nr e1. nr_runId nr = te_newRunId env (en_ids e) \<Longrightarrow> nr_workflow nr = w \<Longrightarrow> settled (nr_runId nr) e e1 \<Longrightarrow> Q (Inr nr) e1"
  shows "wp (begin_run env w parent opts control snapshot mutable) Q e"
proof -
  let ?r = "te_newRunId env (en_ids e)"
  let ?e1 = "e\<lparr>en_ids := Suc (en_ids e)\<rparr>"
  let ?e2 = "?e1\<lparr>wo_clock := Suc (wo_clock ?e1)\<rparr>"
  have n: "settled ?r e ?e2" by (rule settled_now, rule settled_ids, rule settled_core) simp
  have c: "settled ?r e (create_run a ?e2)" if "ca_runId a = ?r" for a
    using n that
    by (simp add: settled_def near_def create_run_def load_run_def jobs_of_def waiting_def fun_eq_iff new_run_ok_def run_ok_def
        initial_run_state_def)
  show ?thesis
    unfolding begin_run_def Let_def
    unfolding wp_simps sum.case
    using assms n c by (auto simp: create_args_of_def split: sum.split)
qed

lemma started_wp:
  "wp (run_workflow env w startAt its parent opts snapshot mutable) (started (te_newRunId env (en_ids e)) e) e
   \<and> wp (run_workflow_from_state env rq) (started (te_newRunId env (en_ids e)) e) e"
proof (intro conjI)
  show "wp (run_workflow env w startAt its parent opts snapshot mutable) (started (te_newRunId env (en_ids e)) e) e"
    unfolding run_workflow_def wp_then
  proof (rule begin_run_wp)
    fix nr :: new_run and e1
    assume nr: "nr_runId nr = te_newRunId env (en_ids e)" "settled (nr_runId nr) e e1"
    have "wp (start_at_node env nr startAt its pl) (started (nr_runId nr) e) e1" for pl
      unfolding start_at_node_def wp_simps
      using enqueue_first_started [OF nr(2)] schedule_queued_plan_started [OF nr(2)] started_Inl [OF nr(2)]
      by (auto split: option.split)
    from plan_new_run_started [OF nr(2) this]
    show "case Inr nr of Inl err \<Rightarrow> started (te_newRunId env (en_ids e)) e (Inl err) e1
      | Inr nr \<Rightarrow> wp (plan_new_run env nr (start_at_node env nr startAt its)) (started (te_newRunId env (en_ids e)) e) e1"
      by (simp add: nr(1))
  qed (simp add: started_Inl)
  show "wp (run_workflow_from_state env rq) (started (te_newRunId env (en_ids e)) e) e"
    unfolding run_workflow_from_state_def Let_def wp_then
  proof (rule begin_run_wp)
    fix nr :: new_run and e1
    assume nr: "nr_runId nr = te_newRunId env (en_ids e)" "settled (nr_runId nr) e e1"
    let ?plan = "\<lambda>pl. plan_frontier (pl_topology pl)
      \<lparr>pg_currentState = Some (create_run_current_state (cr_currentState rq)
         (opt_else (cr_mutableState rq) (Option.bind (cr_currentState rq) cu_mutableState))),
       pg_stopCondition = Some (opt_or (cr_stopCondition rq) WorkflowCompleted), pg_reset = cr_reset rq, pg_items = cr_items rq\<rparr>"
    let ?continue = "\<lambda>pl. then_do (lift_result (?plan pl)) (\<lambda>plan. schedule_initial_plan env nr pl plan
      (create_run_data (Some (cu_outputsByNode (fp_currentState plan)))))"
    have "wp (schedule_initial_plan env nr pl plan data) (started (nr_runId nr) e) e1" for pl plan data
      unfolding schedule_initial_plan_def Let_def wp_simps
      using enqueue_first_started [OF nr(2)] schedule_queued_plan_started [OF nr(2)] started_Inl [OF nr(2)]
      by (auto split: option.split)
    hence "wp (?continue pl) (started (nr_runId nr) e) e1" for pl
      unfolding wp_simps using started_Inl [OF nr(2)] by (auto split: sum.split)
    from plan_new_run_started [OF nr(2) this]
    show "case Inr nr of Inl err \<Rightarrow> started (te_newRunId env (en_ids e)) e (Inl err) e1
      | Inr nr \<Rightarrow> wp (plan_new_run env nr (\<lambda>pl. then_do (lift_result (?plan pl)) (\<lambda>plan. schedule_initial_plan env nr pl plan
          (create_run_data (Some (cu_outputsByNode (fp_currentState plan))))))) (started (te_newRunId env (en_ids e)) e) e1"
      by (simp add: nr(1))
  qed (simp add: started_Inl)
qed

text \<open>
  C28. However a run is started, its first state is the work of this call alone: every other run keeps its state; a start
  that returns has either stored the run as it ended, told its waiters and enqueued nothing, or stored it as pending
  on exactly the one activation it added to a queue; and a start that throws has enqueued nothing, told no one and left
  the run, if it is there at all, well formed.
\<close>

theorem start_ends_or_waits:
  "wp (run_workflow env w startAt its parent opts snapshot mutable) (started (te_newRunId env (en_ids e)) e) e
   \<and> wp (run_workflow_from_state env rq) (started (te_newRunId env (en_ids e)) e) e"
  by (rule started_wp)


lemma begin_run_eval:
  assumes "merge_execution_options (ce_limits env) parent opts = Inr merged"
  obtains nr e1 where "begin_run env w parent opts control snapshot mutable e = (Inr nr, e1)"
    "nr_runId nr = te_newRunId env (en_ids e)" "nr_workflow nr = w" "settled (nr_runId nr) e e1"
    "load_run (nr_runId nr) e1 = Some (initial_run_state (create_args_of nr))"
proof -
  have "wp (begin_run env w parent opts control snapshot mutable)
      (\<lambda>x e1. \<exists>nr. x = Inr nr \<and> load_run (nr_runId nr) e1 = Some (initial_run_state (create_args_of nr))) e"
    unfolding begin_run_def Let_def wp_simps sum.case assms
    by (simp add: load_run_def create_run_def create_args_of_def)
  moreover have "wp (begin_run env w parent opts control snapshot mutable)
      (\<lambda>x e1. \<forall>nr. x = Inr nr \<longrightarrow> nr_runId nr = te_newRunId env (en_ids e) \<and> nr_workflow nr = w \<and> settled (nr_runId nr) e e1) e"
    by (rule begin_run_wp) simp_all
  ultimately show ?thesis
    using that by (cases "begin_run env w parent opts control snapshot mutable e") (auto simp: wp_def)
qed

text \<open>
  A workflow that cannot be planned: when a node cannot be instantiated the new run is stored as failed, with an
  end, and its waiters are told; any other planning error (a cycle, a node that cannot merge its inputs) is thrown to
  the caller and leaves the run stored as running, with nothing pending, no job and no end.
\<close>

theorem planning_error_outcome:
  assumes "merge_execution_options (ce_limits env) parent opts = Inr merged"
    and "planner_for (cont_env env) w = Inl err"
    and "run_workflow env w startAt its parent opts snapshot mutable e = (x, e')"
  shows "\<exists>t. load_run (te_newRunId env (en_ids e)) e' = Some t \<and> jobs_of e' = jobs_of e \<and> rs_pending t = None \<and>
    (if err_kind err = NodeInstantiationErr
     then rs_status t = RunFailed \<and> told e (ResFailed (header_of t) (err_message err)) e'
       \<and> x = Inr (ResFailed (header_of t) (err_message err))
     else x = Inl err \<and> rs_status t = RunRunning \<and> rs_finishedAt t = None \<and> waiting e' = waiting e)"
proof -
  obtain nr e1 where nr: "begin_run env w parent opts None snapshot mutable e = (Inr nr, e1)"
    "nr_runId nr = te_newRunId env (en_ids e)" "nr_workflow nr = w" "settled (nr_runId nr) e e1"
    "load_run (nr_runId nr) e1 = Some (initial_run_state (create_args_of nr))"
    using begin_run_eval [OF assms(1)] by metis
  have run: "plan_new_run env nr (start_at_node env nr startAt its) e1 = (x, e')"
    using assms(3) nr(1) by (simp add: run_workflow_def then_do_def)
  show ?thesis
  proof (cases "err_kind err = NodeInstantiationErr")
    case True
    hence fail: "fail_during_planning env nr err e1 = (x, e')" using run assms(2) nr(3) by (simp add: plan_new_run_def)
    have s: "started (nr_runId nr) e x e'" by (rule wp_result [OF fail_during_planning_started [OF nr(4)] fail])
    have "x = Inr (ResFailed (new_run_header nr) (err_message err))"
      using fail by (auto simp: fail_during_planning_def Let_def then_do_def now_do_def update_do_def publish_node_def return_do_def)
    thus ?thesis using s True nr(2) by (auto simp: started_def)
  next
    case False
    hence "x = Inl err" "e' = e1" using run assms(2) nr(3) by (auto simp: plan_new_run_def throw_do_def)
    thus ?thesis using nr(2,4,5) False by (simp add: settled_def near_def initial_run_state_def)
  qed
qed

section \<open>Witnesses\<close>

definition sample_start :: start_env where
  "sample_start = continuation_env.extend (sample_continuation sample_pair)
    (start_env.fields (\<lambda>n. ''run_'' @ string_of_nat n) None
      (\<lambda>w. \<lparr>ws_id = wf_id w, ws_name = wf_name w, ws_nodes = [], ws_edges = wf_edges w,
        ws_workflowErrorHandlerConfigured = None, ws_connections = None\<rparr>))"

lemma sample_start_sel [simp]:
  "cont_env sample_start = sample_continuation sample_pair" "ce_limits sample_start = limits_defaults"
  "te_newRunId sample_start n = ''run_'' @ string_of_nat n"
  by (simp_all add: sample_start_def start_env.defs continuation_env.defs scheduling_env.defs sample_continuation_def
      sample_scheduling_def sample_instances_env_def instance_env.defs)

lemma planning_error_outcome_witness:
  "\<exists>t x e'. run_workflow sample_start sample_cyclic ''a'' [] None None None None (sample_host sample_run) = (x, e')
    \<and> load_run ''run_0'' e' = Some t \<and> rs_status t = RunRunning"
proof -
  obtain x e' where run: "run_workflow sample_start sample_cyclic ''a'' [] None None None None (sample_host sample_run) = (x, e')"
    by fastforce
  obtain err where err: "validate_acyclic sample_cyclic = Inl err" "err_kind err = PlainError"
  proof -
    have "case validate_acyclic sample_cyclic of Inl err \<Rightarrow> err_kind err = PlainError | Inr _ \<Rightarrow> False" by code_simp
    thus thesis using that by (cases "validate_acyclic sample_cyclic") auto
  qed
  have plan: "planner_for (cont_env sample_start) sample_cyclic = Inl err"
    by (simp add: planner_for_def create_planner_def err)
  obtain merged where merged: "merge_execution_options (ce_limits sample_start) None None = Inr merged"
    by (simp add: merge_execution_options_def limits_defaults_def cap_number_def)
  have ids: "en_ids (sample_host sample_run) = 0" by (simp add: sample_host_def sample_engine_def)
  have "string_of_nat 0 = ''0''" by code_simp
  thus ?thesis
    using planning_error_outcome [OF merged plan run] err run by (auto simp: ids)
qed

end
