(* ===== verification/Outputs.thy ===== *)
theory Outputs
  imports Scheduling
begin

text \<open>
  \<open>execution/NodeOutputNormalizer.ts\<close>, \<open>contracts/emitPorts.ts\<close> and \<open>execution/RunnableOutputBehaviorResolver.ts\<close>:
  what a node returns for one item becomes items per output port.  An item is a JavaScript object; a node may
  return one, or a value, an array of values, or items per port under the brand of \<open>emitPorts\<close>.
\<close>

section \<open>Items as JavaScript values\<close>

definition optional_field :: "string \<Rightarrow> jsval option \<Rightarrow> (string \<times> jsval) list" where
  "optional_field k v = (case v of None \<Rightarrow> [] | Some x \<Rightarrow> [(k, x)])"

definition js_of_attachment :: "binary_attachment \<Rightarrow> jsval" where
  "js_of_attachment a = JObj
    ([(''id'', JStr (ba_id a)), (''storageKey'', JStr (ba_storageKey a)), (''mimeType'', JStr (ba_mimeType a)),
      (''size'', JNum (of_int (ba_size a))), (''storageDriver'', JStr (ba_storageDriver a)),
      (''previewKind'', JStr (ba_previewKind a)), (''createdAt'', JStr (ba_createdAt a)), (''runId'', JStr (ba_runId a)),
      (''workflowId'', JStr (ba_workflowId a)), (''nodeId'', JStr (ba_nodeId a)),
      (''activationId'', JStr (ba_activationId a))]
     @ optional_field ''filename'' (map_option JStr (ba_filename a))
     @ optional_field ''sha256'' (map_option JStr (ba_sha256 a)))"

definition js_of_paired :: "paired_item \<Rightarrow> jsval" where
  "js_of_paired p = JObj [(''nodeId'', JStr (pi_nodeId p)), (''output'', JStr (pi_output p)),
     (''itemIndex'', JNum (of_nat (pi_itemIndex p)))]"

definition js_of_item :: "item \<Rightarrow> jsval" where
  "js_of_item it = JObj
    ([(''json'', it_json it)]
     @ optional_field ''binary'' (map_option (\<lambda>m. JObj (map (map_prod id js_of_attachment) m)) (it_binary it))
     @ optional_field ''meta'' (map_option JObj (it_meta it))
     @ optional_field ''paired'' (map_option (\<lambda>ps. JArr (map js_of_paired ps)) (it_paired it)))"

text \<open>The way back, for objects whose optional fields have their declared types.\<close>

fun js_string :: "jsval \<Rightarrow> string" where
  "js_string (JStr s) = s"
| "js_string _ = []"

fun js_string_option :: "jsval \<Rightarrow> string option" where
  "js_string_option (JStr s) = Some s"
| "js_string_option _ = None"

fun js_int :: "jsval \<Rightarrow> int" where
  "js_int (JNum n) = \<lfloor>n\<rfloor>"
| "js_int _ = 0"

definition attachment_of_js :: "jsval \<Rightarrow> binary_attachment" where
  "attachment_of_js v =
    (let str = (\<lambda>k. js_string (js_field v k))
     in \<lparr>ba_id = str ''id'', ba_storageKey = str ''storageKey'', ba_mimeType = str ''mimeType'',
         ba_size = js_int (js_field v ''size''), ba_storageDriver = str ''storageDriver'',
         ba_previewKind = str ''previewKind'', ba_createdAt = str ''createdAt'', ba_runId = str ''runId'',
         ba_workflowId = str ''workflowId'', ba_nodeId = str ''nodeId'', ba_activationId = str ''activationId'',
         ba_filename = js_string_option (js_field v ''filename''), ba_sha256 = js_string_option (js_field v ''sha256'')\<rparr>)"

definition paired_of_js :: "jsval \<Rightarrow> paired_item" where
  "paired_of_js v =
    \<lparr>pi_nodeId = js_string (js_field v ''nodeId''), pi_output = js_string (js_field v ''output''),
     pi_itemIndex = nat (js_int (js_field v ''itemIndex''))\<rparr>"

definition item_of_js :: "jsval \<Rightarrow> item" where
  "item_of_js v =
    \<lparr>it_json = js_field v ''json'',
     it_binary = (case js_field v ''binary'' of JObj m \<Rightarrow> Some (map (map_prod id attachment_of_js) m) | _ \<Rightarrow> None),
     it_meta = (case js_field v ''meta'' of JObj m \<Rightarrow> Some m | _ \<Rightarrow> None),
     it_paired = (case js_field v ''paired'' of JArr ps \<Rightarrow> Some (map paired_of_js ps) | _ \<Rightarrow> None)\<rparr>"

lemma attachment_of_js_of [simp]: "attachment_of_js (js_of_attachment a) = a"
  by (cases "ba_filename a"; cases "ba_sha256 a"; simp add: attachment_of_js_def js_of_attachment_def optional_field_def)

lemma paired_of_js_of [simp]: "paired_of_js (js_of_paired p) = p"
  by (simp add: paired_of_js_def js_of_paired_def)

lemma item_of_js_of_item [simp]: "item_of_js (js_of_item it) = it"
  by (cases "it_binary it"; cases "it_meta it"; cases "it_paired it";
      simp add: item_of_js_def js_of_item_def optional_field_def comp_def map_prod_def prod.case_eq_if)

section \<open>Results of a node\<close>

text \<open>\<open>emitPorts\<close> brands its result; everything else is a plain value.  A port may be given as \<open>undefined\<close>.\<close>

datatype raw_output =
    RawPorts "(port_key, jsval list option) jmap"
  | RawValue jsval

fun has_key :: "string \<Rightarrow> jsval \<Rightarrow> bool" where
  "has_key k (JObj fs) = (k \<in> set (map fst fs))"
| "has_key k _ = False"

definition is_item_like :: "jsval \<Rightarrow> bool" where
  "is_item_like v = has_key ''json'' v"

definition is_unbranded_ports :: "jsval \<Rightarrow> bool" where
  "is_unbranded_ports v = has_key ''ports'' v"

definition keeps_binaries :: "node_config \<Rightarrow> bool" where
  "keeps_binaries c = (jget (nc_fields c) ''keepBinaries'' = Some (JBool True))"

definition apply_output :: "bool \<Rightarrow> item \<Rightarrow> item \<Rightarrow> item" where
  "apply_output keep base nxt =
    \<lparr>it_json = it_json nxt, it_binary = opt_else (it_binary nxt) (if keep then it_binary base else None),
     it_meta = it_meta nxt, it_paired = it_paired nxt\<rparr>"

text \<open>Reading a property of \<open>null\<close> or \<open>undefined\<close> throws.\<close>

fun read_item :: "jsval \<Rightarrow> js_error + item" where
  "read_item JNull = Inl (plain_error ''Cannot read properties of null (reading 'binary')'')"
| "read_item JUndefined = Inl (plain_error ''Cannot read properties of undefined (reading 'binary')'')"
| "read_item v = Inr (item_of_js v)"

fun collect_results :: "('e + 'a) list \<Rightarrow> 'e + 'a list" where
  "collect_results [] = Inr []"
| "collect_results (r # rs) = bind_result r (\<lambda>x. bind_result (collect_results rs) (\<lambda>xs. Inr (x # xs)))"

text \<open>Whether the payload of a port is items or values is decided by its first element.\<close>

definition normalize_port_payload :: "bool \<Rightarrow> item \<Rightarrow> jsval list \<Rightarrow> js_error + items" where
  "normalize_port_payload keep base payload =
    (case payload of
       [] \<Rightarrow> Inr []
     | v # _ \<Rightarrow>
         if is_item_like v
         then bind_result (collect_results (map read_item payload)) (\<lambda>its. Inr (map (apply_output keep base) its))
         else Inr (map (\<lambda>v. apply_output keep base (json_item v)) payload))"

definition emit_ports :: "bool \<Rightarrow> item \<Rightarrow> (port_key, jsval list option) jmap \<Rightarrow> js_error + node_outputs" where
  "emit_ports keep base ports =
    collect_results
      (map (\<lambda>(p, payload). bind_result (normalize_port_payload keep base payload) (\<lambda>its. Inr (p, its)))
        (List.map_filter (\<lambda>(p, payload). map_option (Pair p) payload) ports))"

fun is_array :: "jsval \<Rightarrow> bool" where
  "is_array (JArr _) = True"
| "is_array _ = False"

definition array_fan_out :: "bool \<Rightarrow> item \<Rightarrow> jsval list \<Rightarrow> js_error + node_outputs" where
  "array_fan_out keep base vs =
    (if \<exists>v \<in> set vs. is_array v
     then Inl (plain_error ''execute() fan-out arrays must contain only non-array JSON elements (nested arrays belong inside objects).'')
     else Inr [(''main'', map (\<lambda>v. apply_output keep base (json_item v)) vs)])"

definition unbranded_error :: js_error where
  "unbranded_error = plain_error
    ''execute() returned an unbranded `{ ports: ... }` object. Use emitPorts(...) for multi-port runnable outputs.''"

definition normalize_execute_result :: "bool \<Rightarrow> item \<Rightarrow> raw_output \<Rightarrow> js_error + node_outputs" where
  "normalize_execute_result keep base raw =
    (case raw of
       RawPorts ports \<Rightarrow> emit_ports keep base ports
     | RawValue v \<Rightarrow>
         if is_unbranded_ports v then Inl unbranded_error
         else (case v of
                 JArr vs \<Rightarrow> array_fan_out keep base vs
               | _ \<Rightarrow> if is_item_like v then Inr [(''main'', [apply_output keep base (item_of_js v)])]
                      else Inr [(''main'', [apply_output keep base (json_item v)])]))"

text \<open>\<open>assertNoPortEnvelopeBypass\<close>: a node that returns its outputs itself must not return an emission.\<close>

datatype raw_outputs = OutputsReturned node_outputs | EmissionReturned | UnbrandedReturned

definition assert_no_port_envelope :: "node_id \<Rightarrow> string \<Rightarrow> raw_outputs \<Rightarrow> js_error + node_outputs" where
  "assert_no_port_envelope n method raw =
    (case raw of
       OutputsReturned os \<Rightarrow> Inr os
     | EmissionReturned \<Rightarrow> Inl (plain_error (''Node '' @ n @ '': '' @ method @ '' must return NodeOutputs, not emitPorts(...).''))
     | UnbrandedReturned \<Rightarrow>
         Inl (plain_error (''Node '' @ n @ '': '' @ method
           @ '' returned an unbranded `{ ports: ... }` object. Return NodeOutputs instead.'')))"

section \<open>What a return value becomes\<close>

lemma has_key_js_of_item:
  "has_key k (js_of_item it) = (k = ''json'' \<or> k = ''binary'' \<and> it_binary it \<noteq> None \<or> k = ''meta'' \<and> it_meta it \<noteq> None
    \<or> k = ''paired'' \<and> it_paired it \<noteq> None)"
  by (cases "it_binary it"; cases "it_meta it"; cases "it_paired it"; auto simp: js_of_item_def optional_field_def)

lemma item_shape [simp]: "is_item_like (js_of_item it)" "\<not> is_unbranded_ports (js_of_item it)" "\<not> is_array (js_of_item it)"
  by (simp_all add: is_item_like_def is_unbranded_ports_def has_key_js_of_item) (simp add: js_of_item_def)

lemma read_item_js_of_item [simp]: "read_item (js_of_item it) = Inr it"
proof -
  have "read_item (js_of_item it) = Inr (item_of_js (js_of_item it))" by (simp add: js_of_item_def)
  thus ?thesis by simp
qed

lemma collect_results_Inr [simp]: "collect_results (map (\<lambda>x. Inr (f x)) xs) = Inr (map f xs)"
  by (induction xs) auto

lemma collect_results_all: "(\<And>x. x \<in> set xs \<Longrightarrow> g x = Inr (f x)) \<Longrightarrow> collect_results (map g xs) = Inr (map f xs)"
  by (induction xs) auto

lemma port_payload_items:
  "normalize_port_payload keep base (map js_of_item its) = Inr (map (apply_output keep base) its)"
  by (cases its) (simp_all add: normalize_port_payload_def comp_def)

text \<open>
  What a node returns for an item is what goes downstream: an item comes out as that item, items emitted per port
  come out on exactly these ports in order (a port given as \<open>undefined\<close> does not come out), and a value that is neither
  an array nor has a \<open>json\<close> or \<open>ports\<close> property becomes the JSON of one item on \<open>main\<close>; binaries of the input item are
  added only where the node asked to keep them and gave none.
\<close>

theorem normalize_preserves_items:
  "normalize_execute_result keep base (RawValue (js_of_item it)) = Inr [(''main'', [apply_output keep base it])]
   \<and> normalize_execute_result keep base (RawPorts (map (\<lambda>(p, its). (p, map_option (map js_of_item) its)) ports))
      = Inr (List.map_filter (\<lambda>(p, its). map_option (\<lambda>its. (p, map (apply_output keep base) its)) its) ports)
   \<and> (is_array v \<or> is_item_like v \<or> is_unbranded_ports v
      \<or> normalize_execute_result keep base (RawValue v) = Inr [(''main'', [apply_output keep base (json_item v)])])"
proof (intro conjI)
  obtain fs where fs: "js_of_item it = JObj fs" by (simp add: js_of_item_def)
  have "item_of_js (JObj fs) = it" "is_item_like (JObj fs)" "\<not> is_unbranded_ports (JObj fs)"
    using item_of_js_of_item [of it] item_shape [of it] unfolding fs by blast+
  thus "normalize_execute_result keep base (RawValue (js_of_item it)) = Inr [(''main'', [apply_output keep base it])]"
    by (simp add: normalize_execute_result_def fs)
  have "emit_ports keep base (map (\<lambda>(p, its). (p, map_option (map js_of_item) its)) ports)
      = Inr (List.map_filter (\<lambda>(p, its). map_option (\<lambda>its. (p, map (apply_output keep base) its)) its) ports)"
    unfolding emit_ports_def
    by (induction ports) (auto simp: List.map_filter_def port_payload_items split: option.split)
  thus "normalize_execute_result keep base (RawPorts (map (\<lambda>(p, its). (p, map_option (map js_of_item) its)) ports))
      = Inr (List.map_filter (\<lambda>(p, its). map_option (\<lambda>its. (p, map (apply_output keep base) its)) its) ports)"
    by (simp add: normalize_execute_result_def)
  show "is_array v \<or> is_item_like v \<or> is_unbranded_ports v
      \<or> normalize_execute_result keep base (RawValue v) = Inr [(''main'', [apply_output keep base (json_item v)])]"
    by (cases v) (auto simp: normalize_execute_result_def)
qed

text \<open>
  An array is not looked into: items in it become the JSON of new items, and their binaries are lost unless the
  input's are kept.
\<close>

lemma array_of_items_is_wrapped:
  "normalize_execute_result keep base (RawValue (JArr (map js_of_item its)))
    = Inr [(''main'', map (\<lambda>it. apply_output keep base (json_item (js_of_item it))) its)]"
  by (simp add: normalize_execute_result_def array_fan_out_def is_unbranded_ports_def comp_def)

lemma apply_output_sel [simp]: "it_json (apply_output keep base nxt) = it_json nxt"
  by (simp add: apply_output_def)

end
