(* ===== verification/Retry.thy ===== *)
theory Retry
  imports Actions Policies
begin

text \<open>
  \<open>execution/InProcessRetryRunner.ts\<close>: a piece of work is repeated after a failure as its policy says.  The work, the
  pause between attempts and the random factor are actions on an arbitrary state.  Numbers are exact where
  JavaScript rounds, and the infinite ones are left out.
\<close>

section \<open>Policies\<close>

datatype normalized_policy =
    RetryNone
  | RetryFixed nat rat
  | RetryExponential nat rat rat "rat option" bool

definition hard_max_attempts :: nat where
  "hard_max_attempts = 10"

fun max_attempts :: "normalized_policy \<Rightarrow> nat" where
  "max_attempts RetryNone = 1"
| "max_attempts (RetryFixed n _) = n"
| "max_attempts (RetryExponential n _ _ _ _) = n"

definition clamp_max_attempts :: "nat \<Rightarrow> nat" where
  "clamp_max_attempts requested = (if requested > hard_max_attempts then hard_max_attempts else requested)"

definition clamp_warning :: "nat \<Rightarrow> string option" where
  "clamp_warning requested =
    (if requested > hard_max_attempts
     then Some (''Retry policy maxAttempts ('' @ string_of_nat requested @ '') exceeds hard ceiling (''
       @ string_of_nat hard_max_attempts @ ''); clamping to '' @ string_of_nat hard_max_attempts @ ''.'')
     else None)"

definition assert_positive_int :: "rat \<Rightarrow> string \<Rightarrow> js_error + nat" where
  "assert_positive_int v label =
    (if v < 1 \<or> of_int \<lfloor>v\<rfloor> \<noteq> v then Inl (plain_error (''Retry policy '' @ label @ '' must be a positive integer''))
     else Inr (nat \<lfloor>v\<rfloor>))"

definition assert_non_negative :: "rat \<Rightarrow> string \<Rightarrow> js_error + rat" where
  "assert_non_negative v label =
    (if v < 0 then Inl (plain_error (''Retry policy '' @ label @ '' must be a non-negative finite number'')) else Inr v)"

definition assert_multiplier :: "rat \<Rightarrow> js_error + rat" where
  "assert_multiplier v =
    (if v < 1 then Inl (plain_error ''Retry policy exponential.multiplier must be >= 1'') else Inr v)"

definition normalize_policy :: "retry_policy option \<Rightarrow> js_error + normalized_policy" where
  "normalize_policy policy =
    (case policy of
       None \<Rightarrow> Inr RetryNone
     | Some NoneRetry \<Rightarrow> Inr RetryNone
     | Some (FixedRetry attempts delay) \<Rightarrow>
         bind_result (assert_positive_int attempts ''fixed.maxAttempts'') (\<lambda>raw.
         bind_result (assert_non_negative delay ''fixed.delayMs'') (\<lambda>d.
           Inr (RetryFixed (clamp_max_attempts raw) d)))
     | Some (ExponentialRetry attempts initial multiplier maxDelay jitter) \<Rightarrow>
         bind_result (assert_positive_int attempts ''exponential.maxAttempts'') (\<lambda>raw.
         bind_result (assert_non_negative initial ''exponential.initialDelayMs'') (\<lambda>i.
         bind_result (assert_multiplier multiplier) (\<lambda>m.
         bind_result (case maxDelay of None \<Rightarrow> Inr None
             | Some d \<Rightarrow> bind_result (assert_non_negative d ''exponential.maxDelayMs'') (\<lambda>d. Inr (Some d))) (\<lambda>md.
           Inr (RetryExponential (clamp_max_attempts raw) i m md (jitter = Some True)))))))"

section \<open>Delays\<close>

text \<open>The random number is between 0 and 1, and is drawn only for a delay with jitter.\<close>

fun delay_after_failure :: "normalized_policy \<Rightarrow> nat \<Rightarrow> rat \<Rightarrow> rat" where
  "delay_after_failure RetryNone failedAttempt rnd = 0"
| "delay_after_failure (RetryFixed _ d) failedAttempt rnd = d"
| "delay_after_failure (RetryExponential _ i m maxDelay jitter) failedAttempt rnd =
    (let ms = i * m ^ (failedAttempt - 1);
         ms1 = (if jitter then ms * (1 + rnd * (2 / 10)) else ms);
         ms2 = (case maxDelay of Some d \<Rightarrow> if ms1 > d then d else ms1 | None \<Rightarrow> ms1)
     in max 0 (of_int \<lfloor>ms2\<rfloor>))"

fun draws_random :: "normalized_policy \<Rightarrow> bool" where
  "draws_random (RetryExponential _ _ _ _ jitter) = jitter"
| "draws_random _ = False"

section \<open>Attempts\<close>

record ('e, 's) retry_env =
  ry_sleep :: "rat \<Rightarrow> ('e, unit, 's) action"
  ry_random :: "('e, rat, 's) action"
  ry_shouldRetry :: "'e \<Rightarrow> bool"

text \<open>\<open>attempt\<close> counts from 1; \<open>left\<close> is what remains of the budget after it.\<close>

definition pause_after :: "('e, 's) retry_env \<Rightarrow> normalized_policy \<Rightarrow> nat \<Rightarrow> ('e, unit, 's) action" where
  "pause_after env spec attempt =
    then_do (if draws_random spec then ry_random env else return_do 0) (\<lambda>rnd.
      ry_sleep env (delay_after_failure spec attempt rnd))"

fun run_attempts ::
  "('e, 's) retry_env \<Rightarrow> normalized_policy \<Rightarrow> ('e, 'a, 's) action \<Rightarrow> nat \<Rightarrow> nat \<Rightarrow> ('e, 'a, 's) action" where
  "run_attempts env spec work attempt 0 = work"
| "run_attempts env spec work attempt (Suc left) =
    catch_do work (\<lambda>err.
      if \<not> ry_shouldRetry env err then throw_do err
      else after_do (pause_after env spec attempt) (run_attempts env spec work (Suc attempt) left))"

definition run_with_retries ::
  "('e, 's) retry_env \<Rightarrow> (js_error \<Rightarrow> 'e) \<Rightarrow> retry_policy option \<Rightarrow> ('e, 'a, 's) action \<Rightarrow> ('e, 'a, 's) action" where
  "run_with_retries env thrown policy work =
    (case normalize_policy policy of
       Inl err \<Rightarrow> throw_do (thrown err)
     | Inr spec \<Rightarrow> run_attempts env spec work 1 (max_attempts spec - 1))"

section \<open>Bounds\<close>

lemma normalize_policy_bounds:
  assumes "normalize_policy policy = Inr spec"
  shows "1 \<le> max_attempts spec \<and> max_attempts spec \<le> hard_max_attempts"
proof -
  have one: "assert_positive_int v l = Inr n \<Longrightarrow> 1 \<le> n" for v l n
    by (auto simp: assert_positive_int_def le_nat_iff le_floor_iff split: if_splits)
  have clamp: "1 \<le> n \<Longrightarrow> 1 \<le> clamp_max_attempts n \<and> clamp_max_attempts n \<le> hard_max_attempts" for n
    by (simp add: clamp_max_attempts_def hard_max_attempts_def)
  show ?thesis
    using assms one clamp
    by (cases "case policy of None \<Rightarrow> NoneRetry | Some p \<Rightarrow> p")
       (auto simp: normalize_policy_def hard_max_attempts_def bind_result_Inr_iff split: option.splits retry_policy.splits)
qed

text \<open>The delays are never negative, and an exponential one never passes its ceiling.\<close>

lemma delay_bounds:
  assumes "normalize_policy policy = Inr spec"
  shows "0 \<le> delay_after_failure spec k rnd"
    "spec = RetryExponential n i m (Some d) j \<Longrightarrow> delay_after_failure spec k rnd \<le> d"
proof -
  have "assert_non_negative v l = Inr d \<Longrightarrow> 0 \<le> d" for v l d by (auto simp: assert_non_negative_def split: if_splits)
  thus "0 \<le> delay_after_failure spec k rnd"
    using assms by (cases spec) (auto simp: normalize_policy_def bind_result_Inr_iff Let_def split: option.splits retry_policy.splits)
  assume "spec = RetryExponential n i m (Some d) j"
  moreover from this have "0 \<le> d"
    using assms by (auto simp: normalize_policy_def bind_result_Inr_iff assert_non_negative_def split: option.splits retry_policy.splits if_splits)
  moreover have "of_int \<lfloor>x\<rfloor> \<le> d" if "x \<le> d" for x :: rat using that by linarith
  ultimately show "delay_after_failure spec k rnd \<le> d" by (auto simp: Let_def)
qed

text \<open>A measure that only the work increases, by one each time, grows by the number of attempts.\<close>

lemma run_attempts_wp:
  fixes tries :: "'s \<Rightarrow> nat"
  assumes "\<And>s. wp work (\<lambda>_ s1. tries s1 \<le> tries s + 1) s"
    and "\<And>d s. wp (ry_sleep env d) (\<lambda>_ s1. tries s1 = tries s) s"
    and "\<And>s. wp (ry_random env) (\<lambda>_ s1. tries s1 = tries s) s"
  shows "wp (run_attempts env spec work attempt left) (\<lambda>_ s1. tries s1 \<le> tries s + Suc left) s"
proof (induction left arbitrary: attempt s)
  case 0
  thus ?case using assms(1) by simp
next
  case (Suc left)
  have pause: "wp (pause_after env spec attempt) (\<lambda>_ s1. tries s1 = tries s) s" for s
    unfolding pause_after_def wp_simps
    by (cases "draws_random spec")
       (simp_all, rule wp_mono [OF assms(3)], auto split: sum.split intro!: wp_mono [OF assms(2)] simp: wp_simps)
  have step: "wp (after_do (pause_after env spec attempt) (run_attempts env spec work (Suc attempt) left))
      (\<lambda>_ s2. tries s2 \<le> tries s + Suc (Suc left)) s1" if "tries s1 \<le> tries s + 1" for s1
    unfolding wp_simps
    by (rule wp_mono [OF pause]) (use that in \<open>auto split: sum.split intro!: wp_mono [OF Suc.IH]\<close>)
  show ?case
    unfolding run_attempts.simps wp_catch
    by (rule wp_mono [OF assms(1)]) (use step in \<open>auto split: sum.split simp: wp_throw wp_if\<close>)
qed


text \<open>
  A policy never repeats work more than ten times: whatever a workflow asks for, a measure that each attempt
  increases by at most one (and a pause not at all) grows by at most the number of attempts the policy allows, and
  that number is between one and ten.
\<close>

theorem attempts_bounded:
  fixes tries :: "'s \<Rightarrow> nat" and work :: "('e, 'a, 's) action"
  assumes "normalize_policy policy = Inr spec"
    and "\<And>s. wp work (\<lambda>_ s1. tries s1 \<le> tries s + 1) s"
    and "\<And>d s. wp (ry_sleep env d) (\<lambda>_ s1. tries s1 = tries s) s"
    and "\<And>s. wp (ry_random env) (\<lambda>_ s1. tries s1 = tries s) s"
  shows "wp (run_with_retries env thrown policy work)
      (\<lambda>_ s1. tries s1 \<le> tries s + max_attempts spec \<and> 1 \<le> max_attempts spec \<and> max_attempts spec \<le> 10) s"
proof -
  have b: "1 \<le> max_attempts spec" "max_attempts spec \<le> 10"
    using normalize_policy_bounds [OF assms(1)] by (simp_all add: hard_max_attempts_def)
  have "wp (run_attempts env spec work 1 (max_attempts spec - 1)) (\<lambda>_ s1. tries s1 \<le> tries s + Suc (max_attempts spec - 1)) s"
    by (rule run_attempts_wp [OF assms(2,3,4)])
  thus ?thesis using b by (simp add: run_with_retries_def assms(1) wp_def)
qed

definition sample_retry :: "(string, nat) retry_env" where
  "sample_retry = \<lparr>ry_sleep = \<lambda>_. return_do (), ry_random = return_do 0, ry_shouldRetry = \<lambda>_. True\<rparr>"

definition sample_failing :: "(string, unit, nat) action" where
  "sample_failing n = (Inl ''failed'', n + 1)"

lemma attempts_bounded_witness:
  "run_with_retries sample_retry err_message (Some (FixedRetry 25 0)) sample_failing 0 = (Inl ''failed'', 10)
   \<and> wp (run_with_retries sample_retry err_message (Some (FixedRetry 25 0)) sample_failing) (\<lambda>_ n. n \<le> 10) 0"
proof -
  have spec: "normalize_policy (Some (FixedRetry 25 0)) = Inr (RetryFixed 10 0)" by code_simp
  have "wp (run_with_retries sample_retry err_message (Some (FixedRetry 25 0)) sample_failing)
      (\<lambda>_ n. id n \<le> id (0::nat) + max_attempts (RetryFixed 10 0) \<and> 1 \<le> max_attempts (RetryFixed 10 0)
        \<and> max_attempts (RetryFixed 10 0) \<le> 10) 0"
    by (rule attempts_bounded [OF spec]) (simp_all add: sample_failing_def sample_retry_def wp_def return_do_def)
  moreover have "run_with_retries sample_retry err_message (Some (FixedRetry 25 0)) sample_failing 0 = (Inl ''failed'', 10)"
    by code_simp
  ultimately show ?thesis by (simp add: wp_def)
qed

end
