(* ===== verification/Suspension.thy ===== *)
theory Suspension
  imports Continuation
begin

text \<open>
  \<open>execution/NodeSuspensionHandler.ts\<close>: a node that waits for a human decision is parked.  A task is made and delivered,
  its record and its timeout are handed to the host where it has a store and a scheduler for them, and the run is
  stored as suspended.  Hashing, signing, the JSON of a schema and date arithmetic are parameters; telemetry is
  left out.
\<close>

section \<open>Durations\<close>

definition is_digit :: "char \<Rightarrow> bool" where
  "is_digit c = (48 \<le> (of_char c :: nat) \<and> of_char c \<le> (57 :: nat))"

definition digits_value :: "string \<Rightarrow> nat" where
  "digits_value s = foldl (\<lambda>v c. 10 * v + (of_char c - 48)) 0 s"

definition read_integer :: "string \<Rightarrow> (rat \<times> string) option" where
  "read_integer s =
    (let ds = takeWhile is_digit s in if ds = [] then None else Some (of_nat (digits_value ds), dropWhile is_digit s))"

text \<open>Digits, and a fraction where a point is followed by a digit.\<close>

definition read_number :: "string \<Rightarrow> (rat \<times> string) option" where
  "read_number s =
    (case read_integer s of
       None \<Rightarrow> None
     | Some (v, rest) \<Rightarrow>
         (case rest of
            c # rest1 \<Rightarrow>
              (let fs = takeWhile is_digit rest1
               in if c = CHR ''.'' \<and> fs \<noteq> []
                  then Some (v + of_nat (digits_value fs) / 10 ^ length fs, dropWhile is_digit rest1)
                  else Some (v, rest))
          | [] \<Rightarrow> Some (v, rest)))"

definition unit_ms :: "char \<Rightarrow> rat option" where
  "unit_ms c =
    (if c \<in> {CHR ''s'', CHR ''S''} then Some 1000
     else if c \<in> {CHR ''m'', CHR ''M''} then Some 60000
     else if c \<in> {CHR ''h'', CHR ''H''} then Some 3600000
     else if c \<in> {CHR ''d'', CHR ''D''} then Some 86400000
     else None)"

definition shorthand_ms :: "string \<Rightarrow> rat option" where
  "shorthand_ms s =
    (case read_number s of
       Some (v, [u]) \<Rightarrow> map_option (\<lambda>m. v * m) (unit_ms u)
     | _ \<Rightarrow> None)"

text \<open>An optional component of an ISO duration: a number and its letter, or nothing.\<close>

definition component :: "(string \<Rightarrow> (rat \<times> string) option) \<Rightarrow> char \<Rightarrow> string \<Rightarrow> rat \<times> string" where
  "component read u s =
    (case read s of
       Some (v, c # rest) \<Rightarrow> if c = u then (v, rest) else (0, s)
     | _ \<Rightarrow> (0, s))"

definition iso_ms :: "string \<Rightarrow> rat option" where
  "iso_ms s =
    (case s of
       c # s1 \<Rightarrow>
         if c \<noteq> CHR ''P'' then None
         else let (days, s2) = component read_integer (CHR ''D'') s1
              in (case s2 of
                    [] \<Rightarrow> Some (days * 86400 * 1000)
                  | t # s3 \<Rightarrow>
                      if t \<noteq> CHR ''T'' then None
                      else let (hours, s4) = component read_integer (CHR ''H'') s3;
                               (minutes, s5) = component read_integer (CHR ''M'') s4;
                               (seconds, s6) = component read_number (CHR ''S'') s5
                           in if s6 = [] then Some ((days * 86400 + hours * 3600 + minutes * 60 + seconds) * 1000) else None)
     | [] \<Rightarrow> None)"

definition parse_duration_ms :: "string \<Rightarrow> js_error + rat" where
  "parse_duration_ms s =
    (case shorthand_ms s of
       Some ms \<Rightarrow> Inr ms
     | None \<Rightarrow>
         (case iso_ms s of
            Some ms \<Rightarrow> Inr ms
          | None \<Rightarrow> Inl (plain_error (''NodeSuspensionHandler: unrecognised duration format: '' @ quoted s))))"

lemma digit_of_nat: "n < 10 \<Longrightarrow> is_digit (char_of (48 + n)) \<and> of_char (char_of (48 + n :: nat)) = 48 + n"
  by (simp add: is_digit_def)

lemma digits_value_snoc: "digits_value (s @ [c]) = 10 * digits_value s + (of_char c - 48)"
  by (simp add: digits_value_def)

lemma string_of_nat_digits: "string_of_nat n \<noteq> [] \<and> (\<forall>c \<in> set (string_of_nat n). is_digit c) \<and> digits_value (string_of_nat n) = n"
proof (induction n rule: string_of_nat.induct)
  case (1 n)
  have last: "is_digit (char_of (48 + n mod 10))" "of_char (char_of (48 + n mod 10 :: nat)) = 48 + n mod 10"
    using digit_of_nat [of "n mod 10"] by auto
  show ?case
  proof (cases "n < 10")
    case True
    thus ?thesis using digit_of_nat [OF True] by (simp add: string_of_nat.simps [of n] digits_value_def)
  next
    case False
    thus ?thesis using 1 [OF False] last by (simp add: string_of_nat.simps [of n] digits_value_snoc)
  qed
qed

lemma read_integer_nat:
  assumes "rest = [] \<or> \<not> is_digit (hd rest)"
  shows "read_integer (string_of_nat n @ rest) = Some (of_nat n, rest)"
proof -
  have d: "\<forall>c \<in> set (string_of_nat n). is_digit c" "string_of_nat n \<noteq> []" "digits_value (string_of_nat n) = n"
    using string_of_nat_digits by auto
  have "takeWhile is_digit (string_of_nat n @ rest) = string_of_nat n" "dropWhile is_digit (string_of_nat n @ rest) = rest"
    using d(1) assms by (cases rest; simp add: takeWhile_append2 dropWhile_append2)+
  thus ?thesis using d by (simp add: read_integer_def Let_def)
qed

lemma read_number_nat:
  assumes "rest = [] \<or> (\<not> is_digit (hd rest) \<and> hd rest \<noteq> CHR ''.'')"
  shows "read_number (string_of_nat n @ rest) = Some (of_nat n, rest)"
  using read_integer_nat [of rest n] assms by (cases rest) (auto simp: read_number_def Let_def)

lemma read_no_digit: "\<not> is_digit c \<Longrightarrow> read_integer (c # s) = None" "\<not> is_digit c \<Longrightarrow> read_number (c # s) = None"
  by (simp_all add: read_integer_def read_number_def)

lemma read_nonneg: "read_integer s = Some (v, rest) \<Longrightarrow> 0 \<le> v" "read_number s = Some (v, rest) \<Longrightarrow> 0 \<le> v"
  by (auto simp: read_integer_def read_number_def Let_def split: if_splits list.splits)

lemma letters: "\<not> is_digit (CHR ''P'')" "\<not> is_digit (CHR ''T'')" "\<not> is_digit (CHR ''D'')" "\<not> is_digit (CHR ''H'')"
  "\<not> is_digit (CHR ''M'')" "\<not> is_digit (CHR ''S'')"
  by (code_simp)+

lemma unit_ms_cases:
  assumes "unit_ms u = Some m"
  shows "\<not> is_digit u \<and> u \<noteq> CHR ''.'' \<and> 0 < m"
proof -
  have "u \<in> {CHR ''s'', CHR ''S'', CHR ''m'', CHR ''M'', CHR ''h'', CHR ''H'', CHR ''d'', CHR ''D''}"
    using assms by (auto simp: unit_ms_def split: if_splits)
  moreover have "\<forall>u \<in> {CHR ''s'', CHR ''S'', CHR ''m'', CHR ''M'', CHR ''h'', CHR ''H'', CHR ''d'', CHR ''D''}.
      \<not> is_digit u \<and> u \<noteq> CHR ''.''" by code_simp
  moreover have "0 < m" using assms by (auto simp: unit_ms_def split: if_splits)
  ultimately show ?thesis by blast
qed

lemma component_nonneg:
  assumes "component read u s = (v, rest)" "\<And>v r. read s = Some (v, r) \<Longrightarrow> 0 \<le> v"
  shows "0 \<le> v"
  using assms by (auto simp: component_def split: option.splits list.splits if_splits)

lemma shorthand_nonneg:
  assumes "shorthand_ms s = Some ms"
  shows "0 \<le> ms"
proof -
  obtain v u m where "read_number s = Some (v, [u])" "unit_ms u = Some m" "ms = v * m"
    using assms by (auto simp: shorthand_ms_def split: option.splits prod.splits list.splits)
  thus ?thesis using read_nonneg(2) unit_ms_cases by (metis mult_nonneg_nonneg less_imp_le)
qed

lemma iso_nonneg:
  assumes "iso_ms s = Some ms"
  shows "0 \<le> ms"
proof -
  obtain s1 where s: "s = CHR ''P'' # s1" using assms by (cases s) (auto simp: iso_ms_def split: if_splits)
  obtain days s2 where d: "component read_integer (CHR ''D'') s1 = (days, s2)" by fastforce
  have "0 \<le> days" by (rule component_nonneg [OF d read_nonneg(1)])
  show ?thesis
  proof (cases s2)
    case Nil
    thus ?thesis using assms s d \<open>0 \<le> days\<close> by (simp add: iso_ms_def)
  next
    case (Cons t s3)
    obtain h s4 where h: "component read_integer (CHR ''H'') s3 = (h, s4)" by fastforce
    obtain m s5 where m: "component read_integer (CHR ''M'') s4 = (m, s5)" by fastforce
    obtain sec s6 where sec: "component read_number (CHR ''S'') s5 = (sec, s6)" by fastforce
    have "0 \<le> h" "0 \<le> m" by (rule component_nonneg [OF h read_nonneg(1)] component_nonneg [OF m read_nonneg(1)], assumption)+
    moreover have "0 \<le> sec" by (rule component_nonneg [OF sec read_nonneg(2)])
    moreover have "ms = (days * 86400 + h * 3600 + m * 60 + sec) * 1000"
      using assms s d h m sec Cons by (simp add: iso_ms_def split: if_splits)
    ultimately show ?thesis using \<open>0 \<le> days\<close> by simp
  qed
qed

text \<open>
  Durations are read as they are written: a number and a unit is that many units, the ISO form adds up its
  days, hours, minutes and seconds, and no duration is negative.
\<close>

theorem durations_read:
  "(case unit_ms u of None \<Rightarrow> True | Some m \<Rightarrow> parse_duration_ms (string_of_nat n @ [u]) = Inr (of_nat n * m))
   \<and> parse_duration_ms (''P'' @ string_of_nat d @ ''DT'' @ string_of_nat h @ ''H'' @ string_of_nat m @ ''M'' @ string_of_nat s @ ''S'')
      = Inr (of_nat (((d * 24 + h) * 60 + m) * 60 + s) * 1000)
   \<and> (case parse_duration_ms text of Inl _ \<Rightarrow> True | Inr ms \<Rightarrow> 0 \<le> ms)"
proof (intro conjI)
  show "case unit_ms u of None \<Rightarrow> True | Some m \<Rightarrow> parse_duration_ms (string_of_nat n @ [u]) = Inr (of_nat n * m)"
    using unit_ms_cases [of u] read_number_nat [of "[u]" n]
    by (auto simp: parse_duration_ms_def shorthand_ms_def split: option.split)
  have comps: "component read_integer (CHR ''D'') (string_of_nat d @ CHR ''D'' # r) = (of_nat d, r)"
    "component read_integer (CHR ''H'') (string_of_nat h @ CHR ''H'' # r) = (of_nat h, r)"
    "component read_integer (CHR ''M'') (string_of_nat m @ CHR ''M'' # r) = (of_nat m, r)"
    "component read_number (CHR ''S'') (string_of_nat s @ CHR ''S'' # r) = (of_nat s, r)" for r
    by (simp_all add: component_def read_integer_nat read_number_nat letters)
  show "parse_duration_ms (''P'' @ string_of_nat d @ ''DT'' @ string_of_nat h @ ''H'' @ string_of_nat m @ ''M'' @ string_of_nat s @ ''S'')
      = Inr (of_nat (((d * 24 + h) * 60 + m) * 60 + s) * 1000)"
    by (simp add: parse_duration_ms_def shorthand_ms_def read_no_digit letters iso_ms_def comps algebra_simps)
  show "case parse_duration_ms text of Inl _ \<Rightarrow> True | Inr ms \<Rightarrow> 0 \<le> ms"
    by (auto simp: parse_duration_ms_def shorthand_nonneg iso_nonneg split: option.split)
qed

section \<open>Tasks\<close>

datatype task_status = TaskPending | TaskDecided | TaskTimedOut | TaskAutoAccepted | TaskCancelled

record human_task =
  ht_id :: string
  ht_runId :: run_id
  ht_workflowId :: workflow_id
  ht_workspaceId :: "string option"
  ht_nodeId :: node_id
  ht_activationId :: activation_id
  ht_itemIndex :: nat
  ht_status :: task_status
  ht_channel :: string
  ht_subject :: jsval
  ht_metadata :: "(string, jsval) jmap"
  ht_decisionSchemaJson :: string
  ht_decisionSchemaHash :: string
  ht_onTimeout :: on_timeout
  ht_deliveryRef :: jsval
  ht_resumeTokenHash :: string
  ht_expiresAt :: iso_time
  ht_createdAt :: iso_time

text \<open>What a node throws to be suspended; \<open>deliver\<close> is its own code.\<close>

record suspension_request =
  sq_decisionSchema :: jsval
  sq_timeout :: string
  sq_onTimeout :: on_timeout
  sq_subject :: jsval
  sq_metadata :: "(string, jsval) jmap option"
  sq_deliver :: "task_handle \<Rightarrow> (jsval, engine) engine_action"

record token_signer =
  tk_sign :: "string \<Rightarrow> iso_time \<Rightarrow> string \<Rightarrow> string"
  tk_hashToken :: "string \<Rightarrow> string"

record suspension_env =
  sp_newTaskId :: "nat \<Rightarrow> string"
  sp_plusMs :: "iso_time \<Rightarrow> rat \<Rightarrow> iso_time"
  sp_schemaJson :: "jsval \<Rightarrow> string"
  sp_sha256 :: "string \<Rightarrow> string"
  sp_signer :: "token_signer option"
  sp_createTask :: "(human_task \<Rightarrow> (unit, engine) engine_action) option"
  sp_enqueueTimeout :: "(string \<Rightarrow> iso_time \<Rightarrow> (unit, engine) engine_action) option"
  sp_workspaceId :: "string option"

record suspended_item =
  si_runId :: run_id
  si_nodeId :: node_id
  si_activationId :: activation_id
  si_itemIndex :: nat
  si_state :: run_state

definition hash_schema :: "suspension_env \<Rightarrow> jsval \<Rightarrow> string" where
  "hash_schema env schema = sp_sha256 env (sp_schemaJson env schema)"

definition run_suspended_error :: "run_id \<Rightarrow> string \<Rightarrow> js_error" where
  "run_suspended_error r taskId =
    \<lparr>err_kind = RunSuspendedErr, err_message = ''RunSuspendedError: run '' @ r @ '' suspended on task '' @ taskId,
     err_name = ''RunSuspendedError'', err_stack = None, err_details = None, err_nodeId = None\<rparr>"

text \<open>The token that resumes the task and its hash; both empty without a signer.\<close>

definition resume_token :: "suspension_env \<Rightarrow> string \<Rightarrow> iso_time \<Rightarrow> string \<Rightarrow> string \<times> string" where
  "resume_token env taskId expiresAt hash =
    (case sp_signer env of
       None \<Rightarrow> ([], [])
     | Some s \<Rightarrow> let token = tk_sign s taskId expiresAt hash in (token, tk_hashToken s token))"

definition task_handle_of :: "suspended_item \<Rightarrow> suspension_request \<Rightarrow> string \<Rightarrow> iso_time \<Rightarrow> string \<Rightarrow> task_handle" where
  "task_handle_of it sq taskId expiresAt token =
    \<lparr>th_taskId = taskId, th_runId = si_runId it, th_nodeId = si_nodeId it, th_expiresAt = expiresAt,
     th_resumeUrl = token, th_metadata = sq_metadata sq\<rparr>"

definition human_task_of ::
  "suspension_env \<Rightarrow> suspended_item \<Rightarrow> suspension_request \<Rightarrow> string \<Rightarrow> iso_time \<Rightarrow> string \<Rightarrow> jsval \<Rightarrow> iso_time \<Rightarrow> human_task" where
  "human_task_of env it sq taskId expiresAt tokenHash ref createdAt =
    \<lparr>ht_id = taskId, ht_runId = si_runId it, ht_workflowId = rs_workflowId (si_state it),
     ht_workspaceId = sp_workspaceId env, ht_nodeId = si_nodeId it, ht_activationId = si_activationId it,
     ht_itemIndex = si_itemIndex it, ht_status = TaskPending, ht_channel = ''local'', ht_subject = sq_subject sq,
     ht_metadata = opt_or (sq_metadata sq) [], ht_decisionSchemaJson = sp_schemaJson env (sq_decisionSchema sq),
     ht_decisionSchemaHash = hash_schema env (sq_decisionSchema sq), ht_onTimeout = sq_onTimeout sq,
     ht_deliveryRef = ref, ht_resumeTokenHash = (if tokenHash = [] then ''no-token'' else tokenHash),
     ht_expiresAt = expiresAt, ht_createdAt = createdAt\<rparr>"

definition suspension_entry_of ::
  "suspension_env \<Rightarrow> suspended_item \<Rightarrow> suspension_request \<Rightarrow> string \<Rightarrow> iso_time \<Rightarrow> jsval \<Rightarrow> suspension_entry" where
  "suspension_entry_of env it sq taskId expiresAt ref =
    \<lparr>se_taskId = taskId, se_nodeId = si_nodeId it, se_activationId = si_activationId it, se_itemIndex = si_itemIndex it,
     se_decisionSchemaHash = hash_schema env (sq_decisionSchema sq), se_deliveryRef = ref, se_timeoutAt = expiresAt,
     se_onTimeout = sq_onTimeout sq\<rparr>"

text \<open>The state is the one loaded before the delivery, whatever it was; its pending execution and queue stay.\<close>

definition suspended_state :: "run_state \<Rightarrow> suspension_entry \<Rightarrow> run_state" where
  "suspended_state st entry = st\<lparr>rs_status := RunSuspended, rs_suspension := Some (opt_or (rs_suspension st) [] @ [entry])\<rparr>"

definition handle_suspension ::
  "suspension_env \<Rightarrow> clock \<Rightarrow> suspended_item \<Rightarrow> suspension_request \<Rightarrow> ('a, engine) engine_action" where
  "handle_suspension env clk it sq =
    then_do (next_id (sp_newTaskId env)) (\<lambda>uuid.
    then_do (lift_result (parse_duration_ms (sq_timeout sq))) (\<lambda>ms.
    then_do (now_do clk) (\<lambda>now.
      let taskId = ''htask_'' @ uuid;
          expiresAt = sp_plusMs env now ms;
          (token, tokenHash) = resume_token env taskId expiresAt (hash_schema env (sq_decisionSchema sq))
      in then_do (sq_deliver sq (task_handle_of it sq taskId expiresAt token)) (\<lambda>ref.
         after_do (case sp_createTask env of
             None \<Rightarrow> return_do ()
           | Some create \<Rightarrow> then_do (now_do clk) (\<lambda>createdAt. create (human_task_of env it sq taskId expiresAt tokenHash ref createdAt)))
         (after_do (case sp_enqueueTimeout env of None \<Rightarrow> return_do () | Some enqueue \<Rightarrow> enqueue taskId expiresAt)
         (after_do (update_do (save_run (suspended_state (si_state it) (suspension_entry_of env it sq taskId expiresAt ref))))
           (throw_do (run_suspended_error (si_runId it) taskId))))))))"

end
