(* ===== verification/NodeExecution.thy ===== *)
theory NodeExecution
  imports Outputs Retry Suspension
begin

text \<open>
  \<open>execution/NodeExecutor.ts\<close>, the body of \<open>scheduler/InlineDrivingScheduler.ts\<close> and
  \<open>orchestration/NodeExecutionRequestHandlerService.ts\<close>: an activation is executed, and what the node returned or threw is
  handed to the continuation.  The code of a node is an action on the whole engine, so it may do anything, start
  other runs included; schemas, the expressions of a configuration, credentials and clocks are parameters.
\<close>

section \<open>Code of nodes\<close>

text \<open>What the code of a node may throw: a request to be suspended, or any other error.\<close>

datatype node_throw =
    ThrownError thrown_error
  | ThrownSuspension suspension_request

type_synonym 'a node_action = "(node_throw, 'a, engine) action"

definition thrown_plain :: "js_error \<Rightarrow> thrown_error" where
  "thrown_plain err =
    \<lparr>te_error = err, te_webhookControl = False, te_kind = [], te_responseItems = None, te_continueItems = None\<rparr>"

definition thrown :: "js_error \<Rightarrow> node_throw" where
  "thrown err = ThrownError (thrown_plain err)"

definition as_node :: "('a, engine) engine_action \<Rightarrow> 'a node_action" where
  "as_node m s = (case m s of (Inl err, s1) \<Rightarrow> (Inl (thrown err), s1) | (Inr x, s1) \<Rightarrow> (Inr x, s1))"

text \<open>A suspension request is an error too, for whoever does not look for it.\<close>

fun title_of :: "jsval \<Rightarrow> string" where
  "title_of subject = (case js_field subject ''title'' of JStr t \<Rightarrow> t | _ \<Rightarrow> ''untitled'')"

definition suspension_error :: "suspension_request \<Rightarrow> js_error" where
  "suspension_error sq =
    \<lparr>err_kind = SuspensionRequestErr, err_message = ''SuspensionRequest('' @ title_of (sq_subject sq) @ '')'',
     err_name = ''SuspensionRequest'', err_stack = None, err_details = None, err_nodeId = None\<rparr>"

fun error_of_throw :: "node_throw \<Rightarrow> thrown_error" where
  "error_of_throw (ThrownError t) = t"
| "error_of_throw (ThrownSuspension sq) = thrown_plain (suspension_error sq)"

record execute_args =
  xa_input :: jsval
  xa_item :: item
  xa_itemIndex :: nat
  xa_items :: items
  xa_ctx :: node_context
  xa_iterationId :: "string option"

record credential_requirement =
  cq_slotKey :: string
  cq_optional :: bool

record executor_env = continuation_env +
  xe_execute :: "type_token \<Rightarrow> execute_args \<Rightarrow> raw_output node_action"
  xe_executeMulti :: "type_token \<Rightarrow> inputs_by_port \<Rightarrow> node_context \<Rightarrow> raw_outputs node_action"
  xe_executeTrigger :: "type_token \<Rightarrow> items \<Rightarrow> node_context \<Rightarrow> raw_outputs node_action"
  xe_instanceParse :: "type_token \<Rightarrow> (jsval \<Rightarrow> js_error + jsval) option"
  xe_configParse :: "node_config \<Rightarrow> (jsval \<Rightarrow> js_error + jsval) option"
  xe_resolveConfig :: "node_context \<Rightarrow> item \<Rightarrow> nat \<Rightarrow> items \<Rightarrow> js_error + node_config option"
  xe_credentialRequirements :: "node_config \<Rightarrow> credential_requirement list"
  xe_getCredential :: "(node_context \<Rightarrow> string \<Rightarrow> unit node_action) option"
  xe_sleep :: "rat \<Rightarrow> unit node_action"
  xe_random :: "rat node_action"
  xe_newIterationId :: "nat \<Rightarrow> string"
  xe_suspension :: "suspension_env option"

abbreviation resume_env :: "executor_env \<Rightarrow> continuation_env" where
  "resume_env env \<equiv> continuation_env.truncate env"

section \<open>Executing one activation\<close>

fun require_credentials ::
  "(string \<Rightarrow> unit node_action) \<Rightarrow> credential_requirement list \<Rightarrow> unit node_action" where
  "require_credentials get [] = return_do ()"
| "require_credentials get (q # qs) =
    (if cq_optional q then require_credentials get qs else after_do (get (cq_slotKey q)) (require_credentials get qs))"

definition assert_credentials :: "executor_env \<Rightarrow> activation_request \<Rightarrow> unit node_action" where
  "assert_credentials env r =
    (case xe_getCredential env of
       None \<Rightarrow> return_do ()
     | Some get \<Rightarrow> require_credentials (get (ar_ctx r)) (xe_credentialRequirements env (nx_config (ar_ctx r))))"

text \<open>An error that is, or whose cause is, an unbound credential has that kind here.\<close>

fun is_credential_error :: "node_throw \<Rightarrow> bool" where
  "is_credential_error (ThrownError t) = (err_kind (te_error t) = CredentialUnboundErr)"
| "is_credential_error (ThrownSuspension _) = False"

definition parse_input :: "executor_env \<Rightarrow> node_config \<Rightarrow> jsval \<Rightarrow> js_error + jsval" where
  "parse_input env c =
    opt_or (opt_else (xe_instanceParse env (nc_type c)) (xe_configParse env c)) Inr"

definition item_context :: "executor_env \<Rightarrow> node_context \<Rightarrow> item \<Rightarrow> nat \<Rightarrow> items \<Rightarrow> js_error + node_context" where
  "item_context env ctx it i its =
    bind_result (xe_resolveConfig env ctx it i its) (\<lambda>c. Inr (ctx\<lparr>nx_config := opt_or c (nx_config ctx)\<rparr>))"

definition array_item_error :: "node_id \<Rightarrow> js_error" where
  "array_item_error n = plain_error (''Node '' @ n @ '': item.json must not be a top-level JSON array'')"

text \<open>Outputs per port are appended in the order of the items; empty batches leave no port behind.\<close>

definition append_outputs :: "node_outputs \<Rightarrow> node_outputs \<Rightarrow> node_outputs" where
  "append_outputs byPort outs =
    foldl (\<lambda>m (p, batch). if batch = [] then m else jset p (jget_list m p @ batch) m) byPort outs"

definition no_suspension_handler :: "node_id \<Rightarrow> js_error" where
  "no_suspension_handler n =
    plain_error (''Node '' @ n @ '' threw SuspensionRequest but this NodeExecutor has no suspensionHandler configured.'')"

definition state_not_found :: "run_id \<Rightarrow> js_error" where
  "state_not_found r = plain_error (''NodeExecutor: run state not found for runId '' @ r @ '' during suspension'')"

definition suspend_item :: "executor_env \<Rightarrow> activation_request \<Rightarrow> nat \<Rightarrow> suspension_request \<Rightarrow> 'a node_action" where
  "suspend_item env r i sq =
    (case xe_suspension env of
       None \<Rightarrow> throw_do (thrown (no_suspension_handler (ar_nodeId r)))
     | Some sp \<Rightarrow>
         then_do (gets_do (load_run (ar_runId r))) (\<lambda>loaded.
           case loaded of
             None \<Rightarrow> throw_do (thrown (state_not_found (ar_runId r)))
           | Some st \<Rightarrow>
               as_node (handle_suspension sp (se_clk env)
                 \<lparr>si_runId = ar_runId r, si_nodeId = ar_nodeId r, si_activationId = ar_activationId r,
                  si_itemIndex = i, si_state = st\<rparr> sq)))"

definition execute_item :: "executor_env \<Rightarrow> activation_request \<Rightarrow> items \<Rightarrow> nat \<Rightarrow> item \<Rightarrow> node_outputs node_action" where
  "execute_item env r its i it =
    (let config = nx_config (ar_ctx r)
     in after_do (lift_result (if is_array (it_json it) then Inl (thrown (array_item_error (ar_nodeId r))) else Inr ()))
        (then_do (as_node (lift_result (parse_input env config (it_json it)))) (\<lambda>parsed.
        then_do (as_node (lift_result (item_context env (ar_ctx r) it i its))) (\<lambda>ctx.
        then_do (as_node (next_id (xe_newIterationId env))) (\<lambda>uuid.
        then_do (catch_do
            (xe_execute env (nc_type config)
              \<lparr>xa_input = parsed, xa_item = it, xa_itemIndex = i, xa_items = its, xa_ctx = ctx,
               xa_iterationId = Some (iteration_id uuid)\<rparr>)
            (\<lambda>err. case err of ThrownSuspension sq \<Rightarrow> suspend_item env r i sq | ThrownError _ \<Rightarrow> throw_do err)) (\<lambda>raw.
          as_node (lift_result (normalize_execute_result (keeps_binaries config) it raw))))))))"

fun execute_items ::
  "executor_env \<Rightarrow> activation_request \<Rightarrow> items \<Rightarrow> nat \<Rightarrow> items \<Rightarrow> node_outputs \<Rightarrow> node_outputs node_action" where
  "execute_items env r its i [] byPort = return_do byPort"
| "execute_items env r its i (it # rest) byPort =
    then_do (execute_item env r its i it) (\<lambda>outs. execute_items env r its (Suc i) rest (append_outputs byPort outs))"

text \<open>A node that runs once on an empty batch gets an item with an empty object; a suspension is not caught here.\<close>

definition execute_empty_batch :: "executor_env \<Rightarrow> activation_request \<Rightarrow> node_outputs node_action" where
  "execute_empty_batch env r =
    (let config = nx_config (ar_ctx r); it = json_item (JObj [])
     in then_do (as_node (lift_result (parse_input env config (it_json it)))) (\<lambda>parsed.
        then_do (as_node (lift_result (item_context env (ar_ctx r) it 0 []))) (\<lambda>ctx.
        then_do (xe_execute env (nc_type config)
            \<lparr>xa_input = parsed, xa_item = it, xa_itemIndex = 0, xa_items = [], xa_ctx = ctx, xa_iterationId = None\<rparr>) (\<lambda>raw.
          as_node (lift_result (normalize_execute_result (keeps_binaries config) it raw))))))"

definition execute_runnable :: "executor_env \<Rightarrow> activation_request \<Rightarrow> items \<Rightarrow> node_outputs node_action" where
  "execute_runnable env r its =
    (if its = [] \<and> nc_emptyBatchExecution (nx_config (ar_ctx r)) = Some RunOnceEmpty then execute_empty_batch env r
     else execute_items env r its 0 its [])"

definition no_multi_support :: "node_id \<Rightarrow> js_error" where
  "no_multi_support n =
    plain_error (''Node '' @ n @ '' does not support executeMulti or RunnableNode.execute but received multi-input activation'')"

definition no_execution_support :: "node_id \<Rightarrow> js_error" where
  "no_execution_support n = plain_error (''Node '' @ n @ '' does not support trigger or RunnableNode execution'')"

definition execute_multi :: "executor_env \<Rightarrow> activation_request \<Rightarrow> inputs_by_port \<Rightarrow> node_instance \<Rightarrow> node_outputs node_action" where
  "execute_multi env r inputs inst =
    (if ni_hasExecuteMulti inst
     then then_do (xe_executeMulti env (nc_type (nx_config (ar_ctx r))) inputs (ar_ctx r)) (\<lambda>raw.
            as_node (lift_result (assert_no_port_envelope (ar_nodeId r) ''executeMulti()'' raw)))
     else if runs_per_item inst then execute_runnable env r (fan_in_merge (ie_localeLess env) inputs)
     else throw_do (thrown (no_multi_support (ar_nodeId r))))"

definition execute_single :: "executor_env \<Rightarrow> activation_request \<Rightarrow> items \<Rightarrow> node_instance \<Rightarrow> node_outputs node_action" where
  "execute_single env r its inst =
    (if is_trigger_instance inst
     then then_do (xe_executeTrigger env (nc_type (nx_config (ar_ctx r))) its (ar_ctx r)) (\<lambda>raw.
            as_node (lift_result (assert_no_port_envelope (ar_nodeId r) ''trigger execute()'' raw)))
     else if runs_per_item inst then execute_runnable env r its
     else if ni_hasExecuteMulti inst then execute_multi env r [(''in'', its)] inst
     else throw_do (thrown (no_execution_support (ar_nodeId r))))"

definition execute_once :: "executor_env \<Rightarrow> activation_request \<Rightarrow> node_outputs node_action" where
  "execute_once env r =
    then_do (as_node (lift_result (ie_createByType env (nc_type (nx_config (ar_ctx r)))))) (\<lambda>inst.
      case ar_input r of
        MultiInput inputs \<Rightarrow> execute_multi env r inputs inst
      | SingleInput its \<Rightarrow> execute_single env r its inst)"

definition execution_retries :: "executor_env \<Rightarrow> (node_throw, engine) retry_env" where
  "execution_retries env =
    \<lparr>ry_sleep = xe_sleep env, ry_random = xe_random env, ry_shouldRetry = (\<lambda>err. \<not> is_credential_error err)\<rparr>"

definition execute_activation :: "executor_env \<Rightarrow> activation_request \<Rightarrow> node_outputs node_action" where
  "execute_activation env r =
    after_do (assert_credentials env r)
      (run_with_retries (execution_retries env) thrown (nc_retryPolicy (nx_config (ar_ctx r))) (execute_once env r))"

section \<open>Handing the outcome on\<close>

text \<open>The outcome of an action as a value, so that what follows can depend on it.\<close>

definition attempt_do :: "('e, 'a, 's) action \<Rightarrow> ('f, 'e + 'a, 's) action" where
  "attempt_do m s = (case m s of (r, s1) \<Rightarrow> (Inr r, s1))"

lemma wp_attempt [wp_simps]: "wp (attempt_do m) Q s = wp m (\<lambda>r s1. Q (Inr r) s1) s"
  by (simp add: wp_def attempt_do_def split: prod.split)

definition unless_overtaken :: "(run_result, engine) engine_action \<Rightarrow> (unit, engine) engine_action" where
  "unless_overtaken m = catch_do (then_do m (\<lambda>_. return_do ())) rethrow_unless_ignorable"

definition args_of_request :: "activation_request \<Rightarrow> node_args" where
  "args_of_request r = \<lparr>na_runId = ar_runId r, na_activationId = ar_activationId r, na_nodeId = ar_nodeId r\<rparr>"

text \<open>An inline drain: one activation is taken, executed and continued; the \<open>finally\<close> block always runs.\<close>

definition drive_activation :: "executor_env \<Rightarrow> activation_request \<Rightarrow> (unit, engine) engine_action" where
  "drive_activation env r =
    after_do (mark_node_running (resume_env env) (args_of_request r) (inputs_of_request r))
      (then_do (attempt_do (execute_activation env r)) (\<lambda>outcome.
        case outcome of
          Inl err \<Rightarrow> unless_overtaken (resume_from_node_error (resume_env env) (args_of_request r) (error_of_throw err))
        | Inr outs \<Rightarrow> unless_overtaken (resume_from_node_result (resume_env env) (args_of_request r) outs)))"

definition drain_run :: "executor_env \<Rightarrow> run_id \<Rightarrow> (unit, engine) engine_action" where
  "drain_run env r e =
    (if r \<in> set (en_draining e) then (Inr (), snd (begin_drain r e))
     else case begin_drain r e of
            (None, e1) \<Rightarrow> (Inr (), finish_drain r e1)
          | (Some req, e1) \<Rightarrow> (case drive_activation env req e1 of (res, e2) \<Rightarrow> (res, finish_drain r e2)))"

section \<open>A request from a worker queue\<close>

definition workflow_mismatch :: "run_id \<Rightarrow> workflow_id \<Rightarrow> workflow_id \<Rightarrow> js_error" where
  "workflow_mismatch r found asked =
    plain_error (''workflowId mismatch for run '' @ r @ '': '' @ found @ '' vs '' @ asked)"

definition resume_context_for :: "run_state \<Rightarrow> worker_request \<Rightarrow> resume_context option" where
  "resume_context_for st wr =
    (case rs_pendingResume st of
       Some pu \<Rightarrow> if pu_activationId pu = wq_activationId wr \<and> pu_nodeId pu = wq_nodeId wr then Some (pu_resumeContext pu) else None
     | None \<Rightarrow> None)"

text \<open>A pending execution is single when its only port is \<open>in\<close>.\<close>

definition activation_of_worker ::
  "base_context \<Rightarrow> run_state \<Rightarrow> worker_request \<Rightarrow> pending_execution \<Rightarrow> node_def \<Rightarrow> activation_request" where
  "activation_of_worker base st wr pe d =
    (let scope = \<lparr>rq_runId = wq_runId wr, rq_workflowId = wq_workflowId wr, rq_parent = opt_else (wq_parent wr) (rs_parent st),
                  rq_executionOptions = opt_else (wq_executionOptions wr) (rs_executionOptions st),
                  rq_base = base\<lparr>bc_parent := opt_else (wq_parent wr) (rs_parent st),
                    bc_resumeContext := opt_else (resume_context_for st wr) (bc_resumeContext base)\<rparr>,
                  rq_data = create_run_data (Some (rs_outputsByNode st))\<rparr>;
         inputs = pe_inputsByPort pe; batch = opt_or (pe_batchId pe) default_batch
     in if jkeys inputs = [''in'']
        then create_single_with_activation scope (nd_id d) (nd_config d) batch
               (opt_or (jget inputs ''in'') (wq_input wr)) (wq_activationId wr)
        else create_multi_with_activation scope (nd_id d) (nd_config d) batch inputs (wq_activationId wr))"

definition consume_pending_resume :: "worker_request \<Rightarrow> resume_context option \<Rightarrow> (unit, engine) engine_action" where
  "consume_pending_resume wr rx =
    (case rx of
       None \<Rightarrow> return_do ()
     | Some _ \<Rightarrow>
         then_do (gets_do (load_run (wq_runId wr))) (\<lambda>loaded.
           case loaded of
             Some st \<Rightarrow>
               if map_option pu_activationId (rs_pendingResume st) = Some (wq_activationId wr)
               then update_do (save_run (st\<lparr>rs_pendingResume := None\<rparr>)) else return_do ()
           | None \<Rightarrow> return_do ()))"

text \<open>A run suspended by its node is left alone.\<close>

fun is_run_suspended :: "node_throw \<Rightarrow> bool" where
  "is_run_suspended (ThrownError t) = (err_kind (te_error t) = RunSuspendedErr)"
| "is_run_suspended (ThrownSuspension _) = False"

definition continue_worker_request ::
  "executor_env \<Rightarrow> worker_request \<Rightarrow> run_state \<Rightarrow> pending_execution \<Rightarrow> (unit, engine) engine_action" where
  "continue_worker_request env wr st pe =
    then_do (expect_do (resolve_persisted_workflow (resume_env env) st) (unknown_workflow (rs_workflowId st))) (\<lambda>w.
    then_do (expect_do (List.find (\<lambda>d. nd_id d = wq_nodeId wr) (wf_nodes w)) (plain_error (''Unknown nodeId: '' @ wq_nodeId wr))) (\<lambda>d.
    after_do (assert_do (nd_kind d = NodeKind) (plain_error (''Node '' @ wq_nodeId wr @ '' is not runnable'')))
    (then_do (lift_result (resolve_engine_limits (resume_env env) st)) (\<lambda>limits.
      let act = activation_of_worker (base_context_of st limits) st wr pe d
      in after_do (consume_pending_resume wr (resume_context_for st wr))
         (after_do (mark_node_running (resume_env env) (args_of_request act) (pe_inputsByPort pe))
         (then_do (attempt_do (execute_activation env act)) (\<lambda>outcome.
            case outcome of
              Inl err \<Rightarrow>
                if is_run_suspended err then return_do ()
                else unless_overtaken (resume_from_node_error (resume_env env) (args_of_request act) (error_of_throw err))
            | Inr outs \<Rightarrow> unless_overtaken (resume_from_node_result (resume_env env) (args_of_request act) outs))))))))"

definition handle_node_execution_request :: "executor_env \<Rightarrow> worker_request \<Rightarrow> (unit, engine) engine_action" where
  "handle_node_execution_request env wr =
    then_do (gets_do (load_run (wq_runId wr))) (\<lambda>loaded.
    then_do (gets_do (load_scheduling_state (wq_runId wr))) (\<lambda>sched.
    then_do (expect_do loaded (unknown_run (wq_runId wr))) (\<lambda>st.
    after_do (assert_do (rs_workflowId st = wq_workflowId wr) (workflow_mismatch (wq_runId wr) (rs_workflowId st) (wq_workflowId wr)))
      (case Option.bind sched ss_pending of
         None \<Rightarrow> return_do ()
       | Some pe \<Rightarrow>
           if rs_status st \<noteq> RunPending \<or> pe_activationId pe \<noteq> wq_activationId wr \<or> pe_nodeId pe \<noteq> wq_nodeId wr
           then return_do ()
           else continue_worker_request env wr st pe))))"

end
