(* ===== verification/Lifecycle.thy ===== *)
theory Lifecycle
  imports RunStart NodeExecution
begin

text \<open>
  The life of runs.  The operations of the engine that change stored runs are the steps of a state machine on the
  engine; every one of them is, run by run, a step of a small machine on phases, and keeps the stored runs well
  formed.
\<close>

section \<open>Phases\<close>

datatype phase =
    Absent
  | Created
  | Waiting activation_id node_id
  | Parked
  | Ended run_status

fun phase_in :: "run_status \<Rightarrow> pending_execution option \<Rightarrow> phase" where
  "phase_in RunRunning _ = Created"
| "phase_in RunPending (Some pe) = Waiting (pe_activationId pe) (pe_nodeId pe)"
| "phase_in RunPending None = Created"
| "phase_in RunSuspended _ = Parked"
| "phase_in s _ = Ended s"

definition phase_of :: "run_state option \<Rightarrow> phase" where
  "phase_of x = (case x of None \<Rightarrow> Absent | Some st \<Rightarrow> phase_in (rs_status st) (rs_pending st))"

text \<open>
  What may become of a run: it is created, and may at once wait or end; while it waits for an activation it may wait
  for another one, be parked for a person, or end, after which its storage policy may delete it; and a parked run
  waits again.  Nothing leads out of an end.
\<close>

inductive phase_step :: "phase \<Rightarrow> phase \<Rightarrow> bool" where
  create: "phase_step Absent Created"
| start: "phase_step Absent (Waiting a n)"
| end_at_once: "terminal_status s \<Longrightarrow> phase_step Absent (Ended s)"
| continue: "phase_step (Waiting a n) (Waiting a' n')"
| finish: "terminal_status s \<Longrightarrow> phase_step (Waiting a n) (Ended s)"
| finish_and_delete: "phase_step (Waiting a n) Absent"
| park: "phase_step (Waiting a n) Parked"
| unpark: "phase_step Parked (Waiting a n)"

code_pred phase_step .

inductive_cases phase_step_Ended [elim!]: "phase_step (Ended s) p"

section \<open>Steps of the engine\<close>

definition quiet_request :: "suspension_env \<Rightarrow> suspension_request \<Rightarrow> bool" where
  "quiet_request sp sq =
    ((\<forall>h. quiet (sq_deliver sq h))
     \<and> (case sp_createTask sp of None \<Rightarrow> True | Some f \<Rightarrow> \<forall>t. quiet (f t))
     \<and> (case sp_enqueueTimeout sp of None \<Rightarrow> True | Some f \<Rightarrow> \<forall>t at'. quiet (f t at')))"

inductive engine_step :: "start_env \<Rightarrow> engine \<Rightarrow> engine \<Rightarrow> bool" for env where
  starting: "load_run (te_newRunId env (en_ids e)) e = None \<Longrightarrow>
    run_workflow env w startAt its parent opts snapshot mutable e = (x, e') \<Longrightarrow> engine_step env e e'"
| starting_from_state: "load_run (te_newRunId env (en_ids e)) e = None \<Longrightarrow>
    run_workflow_from_state env rq e = (x, e') \<Longrightarrow> engine_step env e e'"
| running: "mark_node_running (cont_env env) na inputs e = (u, e') \<Longrightarrow> engine_step env e e'"
| returning: "resume_from_node_result (cont_env env) na outs e = (x, e') \<Longrightarrow> engine_step env e e'"
| throwing: "resume_from_node_error (cont_env env) na err e = (x, e') \<Longrightarrow> engine_step env e e'"
| suspending: "load_run (si_runId it) e = Some (si_state it) \<Longrightarrow>
    awaits (si_state it) \<lparr>na_runId = si_runId it, na_activationId = si_activationId it, na_nodeId = si_nodeId it\<rparr> \<Longrightarrow>
    quiet_request sp sq \<Longrightarrow> handle_suspension sp (se_clk env) it sq e = (Inl err :: js_error + unit, e') \<Longrightarrow> engine_step env e e'"
| resuming: "resume_run (cont_env env) r taskId ctx e = (x, e') \<Longrightarrow> engine_step env e e'"
| writing: "writer_step memory_ops (se_clk env) sc op e = (u, e') \<Longrightarrow> engine_step env e e'"
| waiting_for: "wait_for_completion (cont_env env) r who e = (y, e') \<Longrightarrow> engine_step env e e'"

definition engine_ok :: "engine \<Rightarrow> bool" where
  "engine_ok e = (\<forall>r st. load_run r e = Some st \<longrightarrow> run_ok r st)"

text \<open>What one operation does: only the run \<open>r\<close> may differ, its phase makes at most a step and it stays well formed.\<close>

definition moves :: "run_id \<Rightarrow> engine \<Rightarrow> engine \<Rightarrow> bool" where
  "moves r e e' =
    ((\<forall>s. s \<noteq> r \<longrightarrow> load_run s e' = load_run s e)
     \<and> (phase_of (load_run r e') = phase_of (load_run r e) \<or> phase_step (phase_of (load_run r e)) (phase_of (load_run r e')))
     \<and> (\<forall>t. load_run r e' = Some t \<longrightarrow> load_run r e = Some t \<or> run_ok r t))"

lemma moves_ok: "moves r e e' \<Longrightarrow> engine_ok e \<Longrightarrow> engine_ok e'"
  unfolding moves_def engine_ok_def by metis

lemma moves_same: "(\<And>s. load_run s e' = load_run s e) \<Longrightarrow> moves r e e'"
  by (simp add: moves_def)

lemma phase_bump [simp]: "phase_of (Some (bump_revision st)) = phase_of (Some st)"
  by (simp add: phase_of_def bump_revision_def)

lemma phase_pending: "rs_status t = RunPending \<Longrightarrow> rs_pending t = Some pe \<Longrightarrow> phase_of (Some t) = Waiting (pe_activationId pe) (pe_nodeId pe)"
  by (simp add: phase_of_def)

lemma phase_terminal: "terminal_status (rs_status t) \<Longrightarrow> phase_of (Some t) = Ended (rs_status t)"
  by (cases "rs_status t") (simp_all add: phase_of_def)

lemma phase_awaits: "awaits st na \<Longrightarrow> phase_of (Some st) = Waiting (na_activationId na) (na_nodeId na)"
  by (auto simp: awaits_def phase_of_def split: option.splits)

lemma absent_moves: "new_run_ok r t \<Longrightarrow> phase_step Absent (phase_of (Some t))"
  by (cases "rs_status t") (auto simp: new_run_ok_def run_ok_def phase_of_def intro: phase_step.intros)

section \<open>Every operation\<close>

lemma result_fits_status: "result_fits res t \<Longrightarrow> if is_final_result res then terminal_status (rs_status t) else rs_status t = RunPending"
  by (cases res) auto

lemma started_moves:
  assumes "load_run r e = None" "started r e x e'"
  shows "moves r e e'"
proof -
  have ok: "new_run_ok r t" if "load_run r e' = Some t" for t
  proof (cases x)
    case (Inl err)
    thus ?thesis using assms that by (auto simp: started_def)
  next
    case (Inr res)
    then obtain t' where t': "load_run r e' = Some t'" "rs_runId t' = r" "result_fits res t'"
      "if is_final_result res then rs_pending t' = None else \<exists>pe. rs_pending t' = Some pe \<and> pe_runId pe = r"
      using assms(2) by (auto simp: started_def split: if_splits)
    thus ?thesis using that result_fits_status [OF t'(3)] by (auto simp: new_run_ok_def run_ok_def split: if_splits)
  qed
  have others: "\<forall>s. s \<noteq> r \<longrightarrow> load_run s e' = load_run s e" using assms(2) by (simp add: started_def)
  show ?thesis
  proof (cases "load_run r e'")
    case None
    thus ?thesis using others assms(1) by (simp add: moves_def)
  next
    case (Some t)
    have "phase_step Absent (phase_of (Some t))" by (rule absent_moves [OF ok [OF Some]])
    thus ?thesis using others ok [OF Some] Some assms(1) by (simp add: moves_def phase_of_def new_run_ok_def)
  qed
qed

lemma outcome_moves:
  assumes "outcome env e st x e'" "load_run r e = Some st" "rs_runId st = r" "awaits st na \<or> load_run r e' = load_run r e"
  shows "moves r e e'"
proof (cases "load_run r e' = load_run r e")
  case True
  thus ?thesis using assms(1,3) by (auto simp: outcome_def moves_def)
next
  case False
  hence ph: "phase_of (load_run r e) = Waiting (na_activationId na) (na_nodeId na)"
    using assms(2,4) phase_awaits by simp
  have others: "\<forall>s. s \<noteq> r \<longrightarrow> load_run s e' = load_run s e" using assms(1,3) by (simp add: outcome_def)
  have cases: "(\<exists>t. ended_in st e' t) \<or> (\<exists>t pe. load_run r e' = Some t \<and> stepped_from env e st t pe)"
    using assms(1,3) False by (cases x) (auto simp: outcome_def split: if_splits)
  thus ?thesis
  proof
    assume "\<exists>t. ended_in st e' t"
    then obtain t where t: "ended_from st t" "load_run r e' = Some t \<or> load_run r e' = None"
      using assms(3) by (auto simp: ended_in_def)
    hence "terminal_status (rs_status t)" "run_ok r t"
      using assms(3) by (auto simp: ended_from_def run_ok_def same_run_def)
    with t(2) ph others show ?thesis
      by (auto simp: moves_def phase_terminal phase_of_def [of None] intro: phase_step.intros)
  next
    assume "\<exists>t pe. load_run r e' = Some t \<and> stepped_from env e st t pe"
    then obtain t pe where t: "load_run r e' = Some t" "rs_status t = RunPending" "rs_pending t = Some pe" "rs_runId t = r"
      "pe_runId pe = r"
      using assms(3) by (auto simp: stepped_from_def same_run_def)
    thus ?thesis using ph others by (simp add: moves_def phase_pending run_ok_def phase_step.intros)
  qed
qed

text \<open>An outcome for a run that does not wait for it changes nothing.\<close>

lemma resumption_moves:
  assumes "engine_ok e" "resume_from_node_result env na outs e = (x, e') \<or> resume_from_node_error env na err e = (x, e')"
  shows "moves (na_runId na) e e'"
proof (cases "load_run (na_runId na) e")
  case None
  hence "e' = e" using assms(2) load_resumption_unknown [OF None, of env]
    by (auto simp: resume_from_node_result_def resume_from_node_error_def then_do_def)
  thus ?thesis by (simp add: moves_same)
next
  case (Some st)
  have id: "rs_runId st = na_runId na" using assms(1) Some by (simp add: engine_ok_def run_ok_def)
  have "outcome env e st x e'"
    using assms(2) resume_from_node_result_outcome [OF Some refl] resume_from_node_error_outcome [OF Some refl] wp_result by metis
  moreover have "awaits st na \<or> load_run (na_runId na) e' = load_run (na_runId na) e"
  proof (cases "awaits st na")
    case False
    then obtain err' where "load_resumption env na e = (Inl err', e)" using load_resumption_stale [OF Some] by blast
    hence "e' = e" using assms(2) by (auto simp: resume_from_node_result_def resume_from_node_error_def then_do_def)
    thus ?thesis by simp
  qed simp
  ultimately show ?thesis by (rule outcome_moves [OF _ Some id])
qed

lemma mark_moves:
  assumes "engine_ok e" "mark_node_running env na inputs e = (u, e')"
  shows "moves (na_runId na) e e'"
proof -
  have "wp (mark_node_running env na inputs) (\<lambda>_ e'. moves (na_runId na) e e') e"
  proof (cases "load_run (na_runId na) e")
    case (Some st)
    have ok: "run_ok (na_runId na) st" using assms(1) Some by (simp add: engine_ok_def)
    let ?t = "\<lambda>snap. st\<lparr>rs_nodeSnapshotsByNodeId := jset (na_nodeId na) snap (rs_nodeSnapshotsByNodeId st)\<rparr>"
    have t: "phase_of (Some (?t snap)) = phase_of (Some st)" "run_ok (na_runId na) (?t snap)" "rs_runId (?t snap) = na_runId na" for snap
      using ok by (simp_all add: phase_of_def run_ok_def)
    have m: "moves (na_runId na) e (publish_event ev (save_run (?t snap) (e\<lparr>wo_clock := k\<rparr>)))" for snap ev k
      using t [of snap] Some by (simp add: moves_def save_run_def load_run_def publish_event_def)
    show ?thesis
      unfolding mark_node_running_def wp_simps sum.case Let_def Some option.case publish_node_def
      using m by (auto simp: moves_same split: option.split)
  qed (simp add: mark_node_running_def wp_simps moves_same)
  thus ?thesis using assms(2) by (rule wp_result)
qed

definition keeps_runs :: "('e, 'a, engine) action \<Rightarrow> bool" where
  "keeps_runs m = (\<forall>e r e1. m e = (r, e1) \<longrightarrow> wo_runs e1 = wo_runs e)"

lemma keeps_runs_quiet [intro]: "quiet m \<Longrightarrow> keeps_runs m"
  unfolding keeps_runs_def using quietD core_fields(1) by blast

lemma keeps_runs_id [intro]: "keeps_runs (next_id mk)"
  by (simp add: keeps_runs_def next_id_def)

lemma wp_then_kept:
  assumes "keeps_runs m" "wo_runs e = k" "\<And>err e1. wo_runs e1 = k \<Longrightarrow> Q (Inl err) e1" "\<And>x e1. wo_runs e1 = k \<Longrightarrow> wp (f x) Q e1"
  shows "wp (then_do m f) Q e"
proof (cases "m e")
  case (Pair r e1)
  have "wo_runs e1 = k" using assms(1,2) Pair by (simp add: keeps_runs_def)
  thus ?thesis using assms(3,4) Pair by (cases r) (simp_all add: wp_then_Inr wp_then_Inl)
qed

lemma handle_suspension_wp:
  assumes "quiet_request sp sq"
  shows "wp (handle_suspension sp clk it sq) (\<lambda>x e'. (\<exists>err. x = Inl err) \<and> (wo_runs e' = wo_runs e \<or>
      (\<exists>entry e1. wo_runs e1 = wo_runs e \<and> se_nodeId entry = si_nodeId it \<and> se_activationId entry = si_activationId it
        \<and> se_itemIndex entry = si_itemIndex it \<and> x = Inl (run_suspended_error (si_runId it) (se_taskId entry))
        \<and> e' = save_run (suspended_state (si_state it) entry) e1))) e"
    (is "wp _ ?Q e")
proof -
  have entry: "wp (after_do (update_do (save_run (suspended_state (si_state it) (suspension_entry_of sp it sq taskId at' ref))))
      (throw_do (run_suspended_error (si_runId it) taskId))) ?Q e1" if "wo_runs e1 = wo_runs e" for taskId at' ref e1
    unfolding wp_simps sum.case using that
    by (intro conjI disjI2 exI [of _ "suspension_entry_of sp it sq taskId at' ref"] exI [of _ e1])
       (simp_all add: suspension_entry_of_def)
  have qs: "quiet (sq_deliver sq h)" "sp_createTask sp = Some f \<Longrightarrow> quiet (f t)" "sp_enqueueTimeout sp = Some g \<Longrightarrow> quiet (g s a)"
    for h f t g s a
    using assms by (auto simp: quiet_request_def)
  show ?thesis
    unfolding handle_suspension_def Let_def prod.case_eq_if
    by (intro wp_then_kept [where k = "wo_runs e"] entry keeps_runs_quiet keeps_runs_id quiet_lift quiet_now quiet_then)
       (auto intro: qs split: option.split)
qed

lemma suspension_moves:
  assumes "engine_ok e" "load_run (si_runId it) e = Some (si_state it)"
    and "awaits (si_state it) \<lparr>na_runId = si_runId it, na_activationId = si_activationId it, na_nodeId = si_nodeId it\<rparr>"
    and "quiet_request sp sq" "handle_suspension sp clk it sq e = (Inl err, e')"
  shows "moves (si_runId it) e e'"
proof -
  have ok: "run_ok (si_runId it) (si_state it)" using assms(1,2) by (simp add: engine_ok_def)
  have "wo_runs e' = wo_runs e \<or> (\<exists>entry e1. wo_runs e1 = wo_runs e \<and> e' = save_run (suspended_state (si_state it) entry) e1)"
    using wp_result [OF handle_suspension_wp [OF assms(4)] assms(5)] by auto
  thus ?thesis
  proof
    assume "wo_runs e' = wo_runs e"
    thus ?thesis by (simp add: moves_same load_run_def)
  next
    assume "\<exists>entry e1. wo_runs e1 = wo_runs e \<and> e' = save_run (suspended_state (si_state it) entry) e1"
    then obtain entry e1 where e1: "wo_runs e1 = wo_runs e" "e' = save_run (suspended_state (si_state it) entry) e1" by blast
    let ?t = "bump_revision (suspended_state (si_state it) entry)"
    have t: "rs_runId ?t = si_runId it" "phase_of (Some ?t) = Parked" "run_ok (si_runId it) ?t"
      using ok by (simp_all add: suspended_state_def phase_of_def run_ok_def)
    have "load_run (si_runId it) e' = Some ?t" "\<And>s. s \<noteq> si_runId it \<Longrightarrow> load_run s e' = load_run s e"
      using e1 ok by (simp_all add: save_run_def load_run_def suspended_state_def run_ok_def)
    thus ?thesis using t assms(2) phase_awaits [OF assms(3)] by (simp add: moves_def phase_step.intros)
  qed
qed

lemma moves_runs: "moves r e e1 \<Longrightarrow> wo_runs e2 = wo_runs e1 \<Longrightarrow> moves r e e2"
  by (simp add: moves_def load_run_def)

lemma enqueue_moves:
  assumes "wo_runs e1 = wo_runs e" "phase_of (load_run r e) = Parked" "ar_runId (er_request a) = r" "sc_runId (er_scope a) = r"
  shows "wp (enqueue_with_snapshot env a) (\<lambda>_ e2. moves r e e2) e1"
proof (rule wpI)
  fix x e2
  assume run: "enqueue_with_snapshot env a e1 = (x, e2)"
  have same: "load_run s e1 = load_run s e" for s using assms(1) by (simp add: load_run_def)
  note out = enqueue_outcome [OF run] assms(3,4)
  consider "wo_runs e2 = wo_runs e1" | p where "stored_as_pending a e2 p" "\<forall>s. s \<noteq> r \<longrightarrow> load_run s e2 = load_run s e"
    using out same by (cases x) auto
  thus "moves r e e2"
  proof cases
    case 1
    thus ?thesis using assms(1) by (simp add: moves_same load_run_def)
  next
    case 2
    then obtain t where "load_run r e2 = Some t" "rs_status t = RunPending" "rs_pending t = Some p" "pe_runId p = r" "rs_runId t = r"
      using assms(4) by (auto simp: stored_as_pending_def)
    thus ?thesis using 2(2) assms(2) by (simp add: moves_def phase_pending run_ok_def phase_step.intros)
  qed
qed

lemma resume_moves:
  assumes "engine_ok e" "resume_run env r taskId ctx e = (x, e')"
  shows "moves r e e'"
proof -
  have "wp (resume_run env r taskId ctx) (\<lambda>_ e'. moves r e e') e"
  proof (cases "load_run r e")
    case (Some st)
    have id: "rs_runId st = r" using assms(1) Some by (simp add: engine_ok_def run_ok_def)
    have parked: "phase_of (load_run r e) = Parked" if "rs_status st = RunSuspended" using Some that by (simp add: phase_of_def)
    have enqueue: "wp (then_do (enqueue_with_snapshot (scheduling_env.truncate env) (resume_enqueue st req remaining pr))
        (\<lambda>(result, snap). after_do (publish_node NodeQueuedEvent snap) (return_do result))) (\<lambda>_ e'. moves r e e')
        (e\<lparr>en_ids := k\<rparr>)" if "rs_status st = RunSuspended" "ar_runId req = r" for req remaining pr k
      unfolding wp_then
      by (rule wp_mono [OF enqueue_moves [OF _ parked [OF that(1)]]])
         (auto simp: that(2) id wp_simps publish_node_def publish_event_def intro: moves_runs split: sum.split)
    show ?thesis
      unfolding resume_run_def wp_gets wp_then wp_expect wp_assert wp_lift wp_next_id Some Let_def
      using enqueue [unfolded wp_then]
      by (auto simp: moves_same id request_scope_of_def split: option.split sum.split)
  qed (simp add: resume_run_def wp_simps moves_same)
  thus ?thesis using assms(2) by (rule wp_result)
qed

lemma wait_moves:
  assumes "wait_for_completion env r who e = (y, e')"
  shows "moves r e e'"
proof -
  have "wp (wait_for_completion env r who) (\<lambda>_ e'. wo_runs e' = wo_runs e) e"
    unfolding wait_for_completion_def wp_simps sum.case
    by (auto simp: wait_for_completion_of_def wp_simps split: option.split run_status.split sum.split)
  from wp_result [OF this assms] show ?thesis by (intro moves_same) (simp add: load_run_def)
qed

text \<open>The writer of node state, called by the code of nodes, touches snapshots and invocations only.\<close>

lemma same_core_save_moves:
  assumes "engine_ok e" "load_run r e = Some st" "same_core st st'" "wo_runs e2 = jset (rs_runId st) (bump_revision st') (wo_runs e)"
  shows "moves r e e2"
proof -
  have ok: "run_ok r st" using assms(1,2) by (simp add: engine_ok_def)
  note c = same_core_sel [OF assms(3)]
  have "load_run r e2 = Some (bump_revision st')" "\<And>s. s \<noteq> r \<Longrightarrow> load_run s e2 = load_run s e"
    using assms(4) ok by (simp_all add: load_run_def run_ok_def)
  moreover have "run_ok r st'" "phase_of (Some st') = phase_of (Some st)" using ok c by (simp_all add: run_ok_def phase_of_def)
  ultimately show ?thesis using assms(2) by (simp add: moves_def)
qed

lemma same_core_updates:
  "same_core st (st\<lparr>rs_nodeSnapshotsByNodeId := S\<rparr>)" "same_core st (st\<lparr>rs_connectionInvocations := C\<rparr>)"
proof -
  show "same_core st (st\<lparr>rs_nodeSnapshotsByNodeId := S\<rparr>)"
    unfolding same_core_def by (intro exI [of _ S] exI [of _ "rs_connectionInvocations st"] exI [of _ "rs_revision st"]) simp
  show "same_core st (st\<lparr>rs_connectionInvocations := C\<rparr>)"
    unfolding same_core_def by (intro exI [of _ "rs_nodeSnapshotsByNodeId st"] exI [of _ C] exI [of _ "rs_revision st"]) simp
qed

lemma memory_ops_sel [simp]: "ro_load memory_ops = load_run" "ro_save memory_ops = save_run"
  by (simp_all add: memory_ops_def)

lemma write_snapshot_moves:
  assumes "engine_ok e"
  shows "wp (write_snapshot memory_ops clk sc n kind mk) (\<lambda>_ e'. moves (sc_runId sc) e e') e"
proof (cases "load_run (sc_runId sc) e")
  case (Some st)
  note m = same_core_save_moves [OF assms Some same_core_updates(1)]
  show ?thesis
    by (simp add: write_snapshot_def wp_def then_do_def load_state_def expect_do_def Some now_do_def Let_def save_snapshot_def
        publish_node_def update_do_def) (rule m, simp add: publish_event_def save_run_def)
qed (simp add: write_snapshot_def wp_def then_do_def load_state_def expect_do_def moves_same)

lemma write_moves:
  assumes "engine_ok e" "writer_step memory_ops clk sc op e = (u, e')"
  shows "moves (sc_runId sc) e e'"
proof -
  have "wp (writer_step memory_ops clk sc op) (\<lambda>_ e'. moves (sc_runId sc) e e') e"
  proof (cases "load_run (sc_runId sc) e")
    case (Some st)
    note snaps = same_core_save_moves [OF assms(1) Some same_core_updates(1)]
    show ?thesis
    proof (cases op)
      case (SetChildRunId n child)
      thus ?thesis
        by (simp add: set_child_run_id_def wp_def then_do_def load_state_def expect_do_def Some return_do_def save_snapshot_def
            update_do_def moves_same split: option.split) (auto intro!: snaps simp: save_run_def)
    next
      case (AppendInvocation a)
      have "moves (sc_runId sc) e (case invocation_event (sc_parent sc) i of None \<Rightarrow> e2 | Some ev \<Rightarrow> publish_event ev e2)"
        if "e2 = save_run (st\<lparr>rs_connectionInvocations := C\<rparr>) (e\<lparr>wo_clock := k\<rparr>)" for i e2 C k
        by (rule same_core_save_moves [OF assms(1) Some same_core_updates(2) [where C = C]])
           (simp add: that publish_event_def save_run_def split: option.split)
      thus ?thesis using AppendInvocation
        by (simp add: append_connection_invocation_def wp_def then_do_def load_state_def expect_do_def Some now_do_def Let_def
            publish_invocation_def update_do_def)
    qed (simp_all add: mark_queued_def mark_running_def mark_completed_def mark_failed_def write_snapshot_moves [OF assms(1)])
  qed (cases op; simp add: mark_queued_def mark_running_def mark_completed_def mark_failed_def write_snapshot_def
        set_child_run_id_def append_connection_invocation_def wp_def then_do_def load_state_def expect_do_def moves_same)
  thus ?thesis using assms(2) by (rule wp_result)
qed

section \<open>Refinement and invariants\<close>

lemma step_moves:
  assumes "engine_ok e" "engine_step env e e'"
  shows "\<exists>r. moves r e e'"
  using assms(2)
proof cases
  case (starting startAt w its parent opts snapshot mutable x)
  have "started (te_newRunId env (en_ids e)) e x e'"
    using wp_result [OF conjunct1 [OF started_wp] starting(2)] .
  thus ?thesis using started_moves [OF starting(1)] by blast
next
  case (starting_from_state rq x)
  have "started (te_newRunId env (en_ids e)) e x e'"
    using wp_result [OF conjunct2 [OF started_wp] starting_from_state(2)] .
  thus ?thesis using started_moves [OF starting_from_state(1)] by blast
next
  case (suspending it sp sq err)
  thus ?thesis using suspension_moves [OF assms(1)] by blast
next
  case (running na inputs u)
  thus ?thesis using mark_moves [OF assms(1)] by blast
next
  case (returning na outs x)
  thus ?thesis using resumption_moves [OF assms(1)] by blast
next
  case (throwing na err x)
  thus ?thesis using resumption_moves [OF assms(1)] by blast
next
  case (resuming r taskId ctx x)
  show ?thesis using resume_moves [OF assms(1) resuming] by blast
next
  case (writing sc op u)
  show ?thesis using write_moves [OF assms(1) writing] by blast
next
  case (waiting_for r who y)
  show ?thesis using wait_moves [OF waiting_for] by blast
qed



text \<open>
  What keeps an end final is that only awaited activations are suspended.  The handler itself does not look at the
  state it is given: a node that asks to be suspended after its run has ended, as an activation overtaken by an end
  can, makes the run suspended again.
\<close>

lemma late_suspension_reopens:
  assumes "phase_of (load_run (si_runId it) e) = Ended s" "load_run (si_runId it) e = Some (si_state it)"
    and "rs_runId (si_state it) = si_runId it"
    and "quiet_request sp sq" "handle_suspension sp clk it sq e = (Inl (run_suspended_error r t), e')"
    and "wo_runs e' \<noteq> wo_runs e"
  shows "phase_of (load_run (si_runId it) e') = Parked"
proof -
  obtain entry e1 where "wo_runs e1 = wo_runs e" "e' = save_run (suspended_state (si_state it) entry) e1"
    using wp_result [OF handle_suspension_wp [OF assms(4)] assms(5)] assms(6) by auto
  thus ?thesis using assms(3) by (simp add: save_run_def load_run_def suspended_state_def phase_of_def)
qed

section \<open>Witnesses\<close>

lemma sample_host_ok: "engine_ok (sample_host sample_waiting)"
  by (simp add: engine_ok_def run_ok_def sample_host_def load_run_def sample_pending_def)

lemma sample_step: "\<exists>e'. engine_step sample_start (sample_host sample_waiting) e'"
proof -
  obtain x e' where "run_workflow sample_start sample_cyclic ''a'' [] None None None None (sample_host sample_waiting) = (x, e')"
    by fastforce
  moreover have "load_run (te_newRunId sample_start (en_ids (sample_host sample_waiting))) (sample_host sample_waiting) = None"
    by (simp add: sample_host_def load_run_def)
  ultimately show ?thesis by (blast intro: engine_step.starting)
qed


definition sample_ended :: run_state where
  "sample_ended = sample_run\<lparr>rs_status := RunCompleted\<rparr>"


end
