(* ===== verification/ExecutionFacts.thy ===== *)
theory ExecutionFacts
  imports Lifecycle
begin

text \<open>
  What executing an activation guarantees: items one by one and in order, requests that came too late without effect,
  suspended runs left alone, and what a retry policy does to a node that suspends.
\<close>

section \<open>Items in order\<close>

definition port_items :: "port_key \<Rightarrow> node_outputs \<Rightarrow> items" where
  "port_items p outs = concat (map snd (filter (\<lambda>(q, _). q = p) outs))"

lemma append_outputs_port: "jget_list (append_outputs byPort outs) p = jget_list byPort p @ port_items p outs"
proof (induction outs arbitrary: byPort)
  case Nil
  thus ?case by (simp add: append_outputs_def port_items_def)
next
  case (Cons o1 outs)
  obtain q b where o1: "o1 = (q, b)" by (cases o1)
  show ?case
    using Cons.IH [of "if b = [] then byPort else jset q (jget_list byPort q @ b) byPort"]
    by (cases "q = p") (auto simp: append_outputs_def port_items_def o1)
qed

lemma execute_items_run:
  assumes "execute_items env r its i rest byPort e = (Inr out, e')"
  shows "\<exists>outs es. length outs = length rest \<and> length es = Suc (length rest) \<and> es ! 0 = e \<and> es ! length rest = e'
    \<and> (\<forall>k < length rest. execute_item env r its (i + k) (rest ! k) (es ! k) = (Inr (outs ! k), es ! Suc k))
    \<and> (\<forall>p. jget_list out p = jget_list byPort p @ concat (map (port_items p) outs))"
  using assms
proof (induction rest arbitrary: i byPort e)
  case Nil
  thus ?case by (intro exI [of _ "[]"] exI [of _ "[e]"]) (simp add: return_do_def)
next
  case (Cons it rest)
  obtain o1 e1 where first: "execute_item env r its i it e = (Inr o1, e1)"
    "execute_items env r its (Suc i) rest (append_outputs byPort o1) e1 = (Inr out, e')"
    using Cons.prems by (auto simp: then_do_def split: prod.splits sum.splits)
  obtain outs es where ih: "length outs = length rest" "length es = Suc (length rest)" "es ! 0 = e1" "es ! length rest = e'"
    "\<forall>k < length rest. execute_item env r its (Suc i + k) (rest ! k) (es ! k) = (Inr (outs ! k), es ! Suc k)"
    "\<forall>p. jget_list out p = jget_list (append_outputs byPort o1) p @ concat (map (port_items p) outs)"
    using Cons.IH [OF first(2)] by blast
  have "\<forall>k < length (it # rest). execute_item env r its (i + k) ((it # rest) ! k) ((e # es) ! k)
      = (Inr ((o1 # outs) ! k), (e # es) ! Suc k)"
  proof (intro allI impI)
    fix k
    assume "k < length (it # rest)"
    thus "execute_item env r its (i + k) ((it # rest) ! k) ((e # es) ! k) = (Inr ((o1 # outs) ! k), (e # es) ! Suc k)"
      using first(1) ih(3,5) by (cases k) auto
  qed
  thus ?case using ih by (intro exI [of _ "o1 # outs"] exI [of _ "e # es"]) (simp add: append_outputs_port)
qed

text \<open>
  C26. A node that runs per item runs once for every item, in the order of the items, each run on the engine the one
  before it left; and every output port gets the outputs of the items in that order.
\<close>

theorem items_run_in_order:
  assumes "execute_runnable env r its e = (Inr out, e')" "its \<noteq> []"
  shows "\<exists>outs es. length outs = length its \<and> length es = Suc (length its) \<and> es ! 0 = e \<and> es ! length its = e'
    \<and> (\<forall>k < length its. execute_item env r its k (its ! k) (es ! k) = (Inr (outs ! k), es ! Suc k))
    \<and> (\<forall>p. jget_list out p = concat (map (port_items p) outs))"
  using execute_items_run [of env r its 0 its "[]" e out e'] assms by (simp add: execute_runnable_def)

section \<open>Requests that came too late\<close>

definition args_of_worker :: "worker_request \<Rightarrow> node_args" where
  "args_of_worker wr = \<lparr>na_runId = wq_runId wr, na_activationId = wq_activationId wr, na_nodeId = wq_nodeId wr\<rparr>"

text \<open>
  A worker queue may deliver a request again: unless the run still waits for this activation of this node, nothing is
  executed and nothing changes.
\<close>

theorem late_request_ignored:
  assumes "load_run (wq_runId wr) e = Some st" "rs_workflowId st = wq_workflowId wr" "\<not> awaits st (args_of_worker wr)"
  shows "handle_node_execution_request env wr e = (Inr (), e)"
proof -
  have "load_scheduling_state (wq_runId wr) e = Some \<lparr>ss_pending = rs_pending st, ss_queue = rs_queue st\<rparr>"
    using assms(1) by (simp add: load_scheduling_run)
  thus ?thesis
    using assms
    by (auto simp: handle_node_execution_request_def then_do_def gets_do_def expect_do_def assert_do_def return_do_def
        awaits_def args_of_worker_def split: option.split)
qed

section \<open>Suspended runs\<close>

lemma unless_overtaken_stale:
  assumes "load_run (na_runId na) e = Some st" "\<not> awaits st na"
  shows "unless_overtaken (resume_from_node_error env na err) e = (Inr (), e)"
    "unless_overtaken (resume_from_node_result env na outs) e = (Inr (), e)"
proof -
  obtain ig where ig: "is_ignorable ig" "load_resumption env na e = (Inl ig, e)" using load_resumption_stale [OF assms] by blast
  hence "resume_from_node_error env na err e = (Inl ig, e)" "resume_from_node_result env na outs e = (Inl ig, e)"
    by (simp_all add: resume_from_node_error_def resume_from_node_result_def then_do_def)
  thus "unless_overtaken (resume_from_node_error env na err) e = (Inr (), e)"
    "unless_overtaken (resume_from_node_result env na outs) e = (Inr (), e)"
    using ig(1) by (simp_all add: unless_overtaken_def catch_do_def then_do_def rethrow_unless_ignorable_def return_do_def)
qed

text \<open>
  A node that suspended its run is done: when its activation ends with the suspension and the run is stored as
  suspended, the inline scheduler stops there, like the worker does, and the run stays as the suspension left it.
\<close>

theorem suspension_ends_activation:
  assumes "mark_node_running (resume_env env) (args_of_request r) (inputs_of_request r) e = (Inr (), e1)"
    and "execute_activation env r e1 = (Inl t, e2)" "is_run_suspended t"
    and "load_run (ar_runId r) e2 = Some st" "rs_status st = RunSuspended"
  shows "drive_activation env r e = (Inr (), e2)"
proof -
  have "\<not> awaits st (args_of_request r)" using assms(5) by (simp add: awaits_def)
  moreover have "load_run (na_runId (args_of_request r)) e2 = Some st" using assms(4) by (simp add: args_of_request_def)
  ultimately have "unless_overtaken (resume_from_node_error (resume_env env) (args_of_request r) (error_of_throw t)) e2 = (Inr (), e2)"
    by (rule unless_overtaken_stale(1) [rotated])
  thus ?thesis
    using assms(1,2) by (simp add: drive_activation_def then_do_def attempt_do_def)
qed

section \<open>Retrying a suspension\<close>

text \<open>A node that always asks to be suspended, and everything around it working.\<close>

definition always_suspends :: "executor_env \<Rightarrow> suspension_env \<Rightarrow> suspension_request \<Rightarrow> activation_request \<Rightarrow> bool" where
  "always_suspends env sp sq r =
    (xe_suspension env = Some sp \<and> quiet_request sp sq \<and> sp_createTask sp = None \<and> sp_enqueueTimeout sp = None
     \<and> is_ok (parse_duration_ms (sq_timeout sq)) \<and> (\<forall>h e. is_ok (fst (sq_deliver sq h e)))
     \<and> (\<forall>args e. xe_execute env (nc_type (nx_config (ar_ctx r))) args e = (Inl (ThrownSuspension sq), e))
     \<and> (\<forall>v. is_ok (parse_input env (nx_config (ar_ctx r)) v)) \<and> (\<forall>it i its. is_ok (item_context env (ar_ctx r) it i its))
     \<and> (\<exists>inst. ie_createByType env (nc_type (nx_config (ar_ctx r))) = Inr inst \<and> runs_per_item inst)
     \<and> (\<exists>it rest. ar_input r = SingleInput (it # rest) \<and> \<not> is_array (it_json it))
     \<and> (\<forall>d e. xe_sleep env d e = (Inr (), e)) \<and> (\<forall>e. \<exists>x. xe_random env e = (Inr x, e)) \<and> xe_getCredential env = None)"

definition suspends_more :: "activation_request \<Rightarrow> nat \<Rightarrow> engine \<Rightarrow> node_throw + 'a \<Rightarrow> engine \<Rightarrow> bool" where
  "suspends_more r n e x e' =
    (\<exists>t st st'. x = Inl t \<and> is_run_suspended t \<and> load_run (ar_runId r) e = Some st \<and> load_run (ar_runId r) e' = Some st'
      \<and> rs_runId st' = rs_runId st \<and> rs_status st' = RunSuspended
      \<and> length (opt_or (rs_suspension st') []) = length (opt_or (rs_suspension st) []) + n)"

lemma handle_suspension_succeeds:
  assumes "always_suspends env sp sq r" "rs_runId (si_state it) = si_runId it"
  shows "\<exists>taskId entry e'. handle_suspension sp clk it sq e = (Inl (run_suspended_error (si_runId it) taskId), e')
    \<and> load_run (si_runId it) e' = Some (bump_revision (suspended_state (si_state it) entry))"
proof -
  obtain ms where ms: "parse_duration_ms (sq_timeout sq) = Inr ms"
    using assms(1) unfolding always_suspends_def is_ok_iff by blast
  have deliver: "\<exists>ref e2. sq_deliver sq h e1 = (Inr ref, e2)" for h e1
    using assms(1) unfolding always_suspends_def is_ok_iff by (metis prod.collapse)
  have none: "sp_createTask sp = None" "sp_enqueueTimeout sp = None" using assms(1) by (simp_all add: always_suspends_def)
  let ?e1 = "(e\<lparr>en_ids := Suc (en_ids e)\<rparr>)\<lparr>wo_clock := Suc (wo_clock e)\<rparr>"
  let ?task = "''htask_'' @ sp_newTaskId sp (en_ids e)"
  let ?at = "sp_plusMs sp (clk (wo_clock e)) ms"
  let ?token = "fst (resume_token sp ?task ?at (hash_schema sp (sq_decisionSchema sq)))"
  obtain ref e2 where ref: "sq_deliver sq (task_handle_of it sq ?task ?at ?token) ?e1 = (Inr ref, e2)" using deliver by blast
  let ?entry = "suspension_entry_of sp it sq ?task ?at ref"
  have "handle_suspension sp clk it sq e
      = (Inl (run_suspended_error (si_runId it) ?task), save_run (suspended_state (si_state it) ?entry) e2)"
    using ref
    by (simp add: handle_suspension_def then_do_def next_id_def lift_result_def ms now_do_def Let_def none return_do_def
        update_do_def throw_do_def prod.case_eq_if)
  moreover have "load_run (si_runId it) (save_run (suspended_state (si_state it) ?entry) e2)
      = Some (bump_revision (suspended_state (si_state it) ?entry))"
    using assms(2) by (simp add: save_run_def load_run_def suspended_state_def)
  ultimately show ?thesis by blast
qed

lemma execute_once_suspends:
  assumes "always_suspends env sp sq r" "load_run (ar_runId r) e = Some st" "rs_runId st = ar_runId r"
  shows "wp (execute_once env r) (suspends_more r 1 e) e"
proof -
  obtain inst it rest where r: "ie_createByType env (nc_type (nx_config (ar_ctx r))) = Inr inst" "runs_per_item inst"
    "ar_input r = SingleInput (it # rest)" "\<not> is_array (it_json it)"
    using assms(1) by (auto simp: always_suspends_def)
  obtain v where v: "parse_input env (nx_config (ar_ctx r)) (it_json it) = Inr v"
    using assms(1) unfolding always_suspends_def is_ok_iff by blast
  obtain ctx where ctx: "item_context env (ar_ctx r) it 0 (it # rest) = Inr ctx"
    using assms(1) unfolding always_suspends_def is_ok_iff by blast
  have env: "xe_suspension env = Some sp"
    "xe_execute env (nc_type (nx_config (ar_ctx r))) args e1 = (Inl (ThrownSuspension sq), e1)" for args e1
    using assms(1) by (simp_all add: always_suspends_def)
  let ?e1 = "e\<lparr>en_ids := Suc (en_ids e)\<rparr>"
  let ?it = "\<lparr>si_runId = ar_runId r, si_nodeId = ar_nodeId r, si_activationId = ar_activationId r, si_itemIndex = 0, si_state = st\<rparr>"
  have load: "load_run (ar_runId r) ?e1 = Some st" using assms(2) by (simp add: load_run_def)
  obtain taskId entry e2 where s: "handle_suspension sp (se_clk env) ?it sq ?e1
      = ((Inl (run_suspended_error (ar_runId r) taskId) :: js_error + raw_output), e2)"
    "load_run (ar_runId r) e2 = Some (bump_revision (suspended_state st entry))"
    using handle_suspension_succeeds [OF assms(1), of ?it "se_clk env" ?e1] assms(3) by auto
  have item: "execute_item env r (it # rest) 0 it e = (Inl (thrown (run_suspended_error (ar_runId r) taskId)), e2)"
    using s(1)
    by (simp add: execute_item_def Let_def then_do_def lift_result_def r(4) as_node_def v ctx next_id_def catch_do_def env
        suspend_item_def gets_do_def load)
  have trig: "\<not> is_trigger_instance inst" using r(2) by (simp add: runs_per_item_def is_trigger_instance_def)
  have "execute_once env r e = (Inl (thrown (run_suspended_error (ar_runId r) taskId)), e2)"
    using item by (simp add: execute_once_def then_do_def as_node_def lift_result_def r execute_single_def trig execute_runnable_def)
  moreover have "is_run_suspended (thrown (run_suspended_error (ar_runId r) taskId))"
    by (simp add: thrown_def thrown_plain_def run_suspended_error_def)
  ultimately show ?thesis
    using assms(2,3) s(2) by (simp add: wp_def suspends_more_def suspended_state_def bump_revision_def)
qed

lemma repeated_suspensions:
  assumes "always_suspends env sp sq r" "load_run (ar_runId r) e = Some st" "rs_runId st = ar_runId r"
    and "normalize_policy (nc_retryPolicy (nx_config (ar_ctx r))) = Inr spec"
  shows "wp (execute_activation env r) (suspends_more r (max_attempts spec) e) e"
proof -
  let ?env = "execution_retries env"
  have quietly: "pause_after ?env spec k e1 = (Inr (), e1)" for k e1
  proof -
    have "ry_sleep ?env d e2 = (Inr (), e2)" "\<forall>e2. \<exists>x. ry_random ?env e2 = (Inr x, e2)" for d e2
      using assms(1) by (simp_all add: always_suspends_def execution_retries_def)
    moreover from this(2) obtain x where "ry_random ?env e1 = (Inr x, e1)" by blast
    ultimately show ?thesis by (cases "draws_random spec") (simp_all add: pause_after_def then_do_def return_do_def)
  qed
  have again: "ry_shouldRetry ?env t" if "is_run_suspended t" for t
    using that by (cases t) (simp_all add: execution_retries_def)
  have "wp (run_attempts ?env spec (execute_once env r) k left) (suspends_more r (Suc left) e) e"
    if "load_run (ar_runId r) e = Some st" "rs_runId st = ar_runId r" for k left e st
    using that
  proof (induction left arbitrary: k e st)
    case 0
    thus ?case using execute_once_suspends [OF assms(1)] by simp
  next
    case (Suc left)
    obtain x e1 where run: "execute_once env r e = (x, e1)" by fastforce
    obtain t st1 where t: "x = Inl t" "is_run_suspended t" "load_run (ar_runId r) e1 = Some st1" "rs_runId st1 = rs_runId st"
      "length (opt_or (rs_suspension st1) []) = length (opt_or (rs_suspension st) []) + 1"
      using wp_result [OF execute_once_suspends [OF assms(1) Suc.prems] run] Suc.prems(1) by (auto simp: suspends_more_def)
    have "wp (run_attempts ?env spec (execute_once env r) (Suc k) left) (suspends_more r (Suc left) e1) e1"
      using Suc.IH [OF t(3)] t(4) Suc.prems(2) by simp
    hence "wp (run_attempts ?env spec (execute_once env r) (Suc k) left) (suspends_more r (Suc (Suc left)) e) e1"
      by (rule wp_mono) (use t Suc.prems(1) in \<open>auto simp: suspends_more_def\<close>)
    thus ?case
      using run t(1) again [OF t(2)]
      by (simp add: wp_def catch_do_def then_do_def quietly)
  qed
  from this [OF assms(2,3), of 1 "max_attempts spec - 1"]
  have "wp (run_attempts ?env spec (execute_once env r) 1 (max_attempts spec - 1)) (suspends_more r (max_attempts spec) e) e"
    using normalize_policy_bounds [OF assms(4)] by simp
  moreover have "assert_credentials env r e = (Inr (), e)" using assms(1) by (simp add: assert_credentials_def always_suspends_def return_do_def)
  ultimately show ?thesis
    by (simp add: execute_activation_def run_with_retries_def assms(4) wp_then_Inr)
qed

text \<open>
  A retry policy repeats a suspension: the error that ends a suspended activation is retried like any other, so a node
  with a policy of \<open>n\<close> attempts that asks for one decision delivers \<open>n\<close> tasks and leaves \<open>n\<close> open suspensions of the
  same item behind.
\<close>

theorem retries_repeat_suspension:
  assumes "always_suspends env sp sq r" "load_run (ar_runId r) e = Some st" "rs_runId st = ar_runId r"
    and "normalize_policy (nc_retryPolicy (nx_config (ar_ctx r))) = Inr spec"
  shows "wp (execute_activation env r) (suspends_more r (max_attempts spec) e) e"
  by (rule repeated_suspensions [OF assms])

section \<open>Witnesses\<close>

definition sample_suspensions :: suspension_env where
  "sample_suspensions =
    \<lparr>sp_newTaskId = string_of_nat, sp_plusMs = \<lambda>t _. t, sp_schemaJson = \<lambda>_. ''{}'', sp_sha256 = id, sp_signer = None,
     sp_createTask = None, sp_enqueueTimeout = None, sp_workspaceId = None\<rparr>"

definition sample_question :: suspension_request where
  "sample_question =
    \<lparr>sq_decisionSchema = JNull, sq_timeout = ''PT24H'', sq_onTimeout = HaltOnTimeout, sq_subject = JNull, sq_metadata = None,
     sq_deliver = \<lambda>_. return_do JNull\<rparr>"

definition sample_executor :: "(execute_args \<Rightarrow> raw_output node_action) \<Rightarrow> executor_env" where
  "sample_executor execute = continuation_env.extend (sample_continuation sample_pair)
    (executor_env.fields (\<lambda>_. execute) (\<lambda>_ _ _. return_do (OutputsReturned [])) (\<lambda>_ _ _. return_do (OutputsReturned []))
      (\<lambda>_. None) (\<lambda>_. None) (\<lambda>_ _ _ _. Inr None) (\<lambda>_. []) None (\<lambda>_. return_do ()) (return_do 0) string_of_nat
      (Some sample_suspensions))"

definition sample_asking :: executor_env where
  "sample_asking = sample_executor (\<lambda>_. throw_do (ThrownSuspension sample_question))"

definition sample_echo :: executor_env where
  "sample_echo = sample_executor (\<lambda>args. return_do (RawValue (js_of_item (xa_item args))))"

definition sample_activation :: activation_request where
  "sample_activation =
    (sample_request ''a'' None (SingleInput [sample_item ''x'', sample_item ''y'']))
      \<lparr>ar_ctx := (ar_ctx (sample_request ''a'' None (SingleInput [])))
        \<lparr>nx_config := (sample_config NodeKind None)\<lparr>nc_retryPolicy := Some (FixedRetry 3 0)\<rparr>\<rparr>\<rparr>"

lemma sample_executor_sel [simp]:
  "resume_env (sample_executor x) = sample_continuation sample_pair" "se_clk (sample_executor x) = string_of_nat"
  "ie_createByType (sample_executor x) t = Inr (sample_instance False)" "xe_suspension (sample_executor x) = Some sample_suspensions"
  "xe_execute (sample_executor x) t = x" "xe_instanceParse (sample_executor x) t = None" "xe_configParse (sample_executor x) c = None"
  "xe_resolveConfig (sample_executor x) ctx it i its = Inr None" "xe_getCredential (sample_executor x) = None"
  "xe_sleep (sample_executor x) d = return_do ()" "xe_random (sample_executor x) = return_do 0"
  "xe_newIterationId (sample_executor x) = string_of_nat"
  by (simp_all add: sample_executor_def executor_env.defs continuation_env.defs scheduling_env.defs sample_continuation_def
      sample_scheduling_def sample_instances_env_def instance_env.defs)

lemma sample_activation_sel [simp]:
  "ar_runId sample_activation = ''r''" "ar_nodeId sample_activation = ''a''"
  "ar_input sample_activation = SingleInput [sample_item ''x'', sample_item ''y'']"
  "nc_retryPolicy (nx_config (ar_ctx sample_activation)) = Some (FixedRetry 3 0)"
  by (simp_all add: sample_activation_def sample_request_def make_request_def)

lemma sample_asks: "always_suspends sample_asking sample_suspensions sample_question sample_activation"
proof -
  have "is_ok (parse_duration_ms (sq_timeout sample_question))" by code_simp
  thus ?thesis
    by (simp add: always_suspends_def sample_asking_def quiet_request_def sample_suspensions_def sample_question_def
        parse_input_def item_context_def return_do_def throw_do_def runs_per_item_def sample_instance_def sample_item_def
        json_item_def quiet_return)
qed

lemma retries_repeat_suspension_witness:
  "\<exists>t e' st. execute_activation sample_asking sample_activation (sample_host sample_waiting) = (Inl t, e')
    \<and> load_run ''r'' e' = Some st \<and> rs_status st = RunSuspended \<and> length (opt_or (rs_suspension st) []) = 3"
proof -
  have spec: "normalize_policy (nc_retryPolicy (nx_config (ar_ctx sample_activation))) = Inr (RetryFixed 3 0)"
    by simp code_simp
  have susp: "rs_suspension sample_waiting = None"
    by (simp add: sample_waiting_def sample_run_def initial_run_state_def)
  have "wp (execute_activation sample_asking sample_activation)
      (suspends_more sample_activation (max_attempts (RetryFixed 3 0)) (sample_host sample_waiting)) (sample_host sample_waiting)"
    by (rule retries_repeat_suspension [OF sample_asks, where st = sample_waiting, OF _ _ spec])
       (simp_all add: sample_waiting_sel(1))
  thus ?thesis
    by (cases "execute_activation sample_asking sample_activation (sample_host sample_waiting)")
       (auto simp: wp_def suspends_more_def susp)
qed

lemma items_run_in_order_witness:
  "\<exists>out e'. execute_runnable sample_echo sample_activation [sample_item ''x'', sample_item ''y''] (sample_host sample_waiting)
      = (Inr out, e') \<and> (\<exists>outs. length outs = 2 \<and> jget_list out ''main'' = concat (map (port_items ''main'') outs))"
proof -
  let ?its = "[sample_item ''x'', sample_item ''y'']"
  have norm: "normalize_execute_result k it (RawValue (js_of_item it)) = Inr [(''main'', [apply_output k it it])]" for k it
  proof -
    obtain fs where fs: "js_of_item it = JObj fs" by (simp add: js_of_item_def)
    have "item_of_js (JObj fs) = it" "is_item_like (JObj fs)" "\<not> is_unbranded_ports (JObj fs)"
      using item_of_js_of_item [of it] item_shape [of it] unfolding fs by blast+
    thus ?thesis by (simp add: normalize_execute_result_def fs)
  qed
  have item: "\<exists>o1 e1. execute_item sample_echo sample_activation ?its i it e = (Inr o1, e1)" if "\<not> is_array (it_json it)" for i it e
    using that
    by (simp add: execute_item_def Let_def then_do_def lift_result_def as_node_def parse_input_def item_context_def next_id_def
        catch_do_def return_do_def sample_echo_def norm)
  have arr: "\<not> is_array (it_json (sample_item x))" for x by (simp add: sample_item_def json_item_def)
  obtain o1 e1 where 1: "execute_item sample_echo sample_activation ?its 0 (sample_item ''x'') (sample_host sample_waiting) = (Inr o1, e1)"
    using item [of "sample_item ''x''" 0 "sample_host sample_waiting"] arr by blast
  obtain o2 e2 where 2: "execute_item sample_echo sample_activation ?its (Suc 0) (sample_item ''y'') e1 = (Inr o2, e2)"
    using item [of "sample_item ''y''" "Suc 0" e1] arr by blast
  have run: "execute_runnable sample_echo sample_activation ?its (sample_host sample_waiting)
      = (Inr (append_outputs (append_outputs [] o1) o2), e2)"
    using 1 2 by (simp add: execute_runnable_def then_do_def return_do_def)
  obtain outs :: "node_outputs list" where "length outs = length ?its"
    "\<forall>p. jget_list (append_outputs (append_outputs [] o1) o2) p = concat (map (port_items p) outs)"
    using items_run_in_order [OF run] by auto
  hence "length outs = 2 \<and> jget_list (append_outputs (append_outputs [] o1) o2) ''main'' = concat (map (port_items ''main'') outs)"
    by simp
  thus ?thesis using run by blast
qed

lemma late_request_ignored_witness:
  "handle_node_execution_request sample_echo
     \<lparr>wq_runId = ''r'', wq_activationId = ''old'', wq_workflowId = ''wf'', wq_nodeId = ''a'', wq_input = [], wq_parent = None,
      wq_queue = None, wq_executionOptions = None\<rparr> (sample_host sample_waiting) = (Inr (), sample_host sample_waiting)"
  by (rule late_request_ignored [where st = sample_waiting])
     (simp_all add: awaits_def args_of_worker_def sample_pending_def)

lemma suspension_ends_activation_witness:
  "\<exists>e' st. drive_activation sample_asking sample_activation (sample_host sample_waiting) = (Inr (), e')
    \<and> load_run ''r'' e' = Some st \<and> rs_status st = RunSuspended"
proof -
  have env: "resume_env sample_asking = sample_continuation sample_pair" by (simp add: sample_asking_def)
  obtain e1 st1 where mark: "mark_node_running (resume_env sample_asking) (args_of_request sample_activation)
      (inputs_of_request sample_activation) (sample_host sample_waiting) = (Inr (), e1)" "load_run ''r'' e1 = Some st1" "rs_runId st1 = ''r''"
    by (simp add: env mark_node_running_def then_do_def gets_do_def load_scheduling_run args_of_request_def sample_pending_def
        sample_activation_def sample_request_def make_request_def now_do_def Let_def update_do_def publish_node_def
        publish_event_def save_run_def load_run_def sample_host_def)
  have spec: "normalize_policy (nc_retryPolicy (nx_config (ar_ctx sample_activation))) = Inr (RetryFixed 3 0)"
    by simp code_simp
  obtain x e2 where run: "execute_activation sample_asking sample_activation e1 = (x, e2)" by fastforce
  have "wp (execute_activation sample_asking sample_activation) (suspends_more sample_activation (max_attempts (RetryFixed 3 0)) e1) e1"
    by (rule repeated_suspensions [OF sample_asks, where st = st1, OF _ _ spec]) (simp_all add: mark(2,3))
  from wp_result [OF this run] obtain t st where t: "x = Inl t" "is_run_suspended t" "load_run (ar_runId sample_activation) e2 = Some st"
    "rs_status st = RunSuspended"
    by (auto simp: suspends_more_def)
  have "drive_activation sample_asking sample_activation (sample_host sample_waiting) = (Inr (), e2)"
    using suspension_ends_activation [OF mark(1) run [unfolded t(1)] t(2,3,4)] .
  thus ?thesis using t(3,4) by auto
qed

end
