(* ===== verification/ConfigCodec.thy ===== *)
theory ConfigCodec
  imports Contracts
begin

text \<open>
  \<open>workflowSnapshots/WorkflowSnapshotCodec.ts\<close> and \<open>PersistedWorkflowTokenRegistry.ts\<close>: the configuration of a node is
  stored as JSON with the ids of the types in it, and put together again from that JSON and the configuration of the
  running workflow, which still has its functions.  A configuration here is a tree of JavaScript values; its
  prototype is named by a number, functions and classes by a number and their name.
\<close>

section \<open>Configurations\<close>

datatype live =
    LUndef
  | LNull
  | LBool bool
  | LNum rat
  | LStr string
  | LFun nat string
  | LSym string
  | LBig int
  | LArr "live list"
  | LObj (lv_proto: nat) (lv_props: "(string \<times> live) list") (lv_symbols: "(string \<times> live) list")

text \<open>What a type may be: a class, a string or a symbol.\<close>

fun as_type_token :: "live \<Rightarrow> type_token option" where
  "as_type_token (LFun n name) = Some (ClassToken n name)"
| "as_type_token (LStr s) = Some (StringToken s)"
| "as_type_token (LSym s) = Some (SymbolToken s)"
| "as_type_token _ = None"

fun live_of_token :: "type_token \<Rightarrow> live" where
  "live_of_token (ClassToken n name) = LFun n name"
| "live_of_token (StringToken s) = LStr s"
| "live_of_token (SymbolToken s) = LSym s"

lemma as_type_token_live [simp]: "as_type_token (live_of_token t) = Some t"
  by (cases t) simp_all

section \<open>The registry of types\<close>

text \<open>\<open>metadata\<close> gives the id of a decorated type; it reads what a decorator stored on the class.\<close>

record token_registry =
  tr_tokensById :: "(token_id, type_token) jmap"
  tr_tokenIdsByToken :: "(type_token, token_id) jmap"

definition empty_registry :: token_registry where
  "empty_registry = \<lparr>tr_tokensById = [], tr_tokenIdsByToken = []\<rparr>"

definition remember_token :: "token_id \<Rightarrow> type_token \<Rightarrow> token_registry \<Rightarrow> token_registry" where
  "remember_token i t reg =
    reg\<lparr>tr_tokensById := jset i t (tr_tokensById reg), tr_tokenIdsByToken := jset t i (tr_tokenIdsByToken reg)\<rparr>"

fun display_name :: "type_token \<Rightarrow> string" where
  "display_name (ClassToken _ name) = name"
| "display_name (StringToken s) = s"
| "display_name (SymbolToken _) = []"

definition register_token :: "type_token \<Rightarrow> string \<Rightarrow> string option \<Rightarrow> token_registry \<Rightarrow> token_id \<times> token_registry" where
  "register_token t packageId override reg =
    (let i = packageId @ ''::'' @ opt_or override (display_name t) in (i, remember_token i t reg))"

definition runtime_type_id :: "(type_token \<Rightarrow> (string option \<times> string) option) \<Rightarrow> type_token \<Rightarrow> token_id option" where
  "runtime_type_id metadata t =
    (case metadata t of
       Some (Some packageName, persistedName) \<Rightarrow> if packageName = [] then None else Some (packageName @ ''::'' @ persistedName)
     | _ \<Rightarrow> None)"

definition register_decorated ::
  "(type_token \<Rightarrow> (string option \<times> string) option) \<Rightarrow> type_token \<Rightarrow> token_registry \<Rightarrow> token_registry" where
  "register_decorated metadata t reg =
    (if jhas (tr_tokenIdsByToken reg) t then reg
     else case runtime_type_id metadata t of
            None \<Rightarrow> reg
          | Some i \<Rightarrow> if i = [] then reg else remember_token i t reg)"

definition get_token_id ::
  "(type_token \<Rightarrow> (string option \<times> string) option) \<Rightarrow> type_token \<Rightarrow> token_registry \<Rightarrow> token_id option \<times> token_registry" where
  "get_token_id metadata t reg =
    (case jget (tr_tokenIdsByToken reg) t of
       Some i \<Rightarrow> if i \<noteq> [] then (Some i, reg)
                 else (case runtime_type_id metadata t of None \<Rightarrow> (None, reg) | Some i' \<Rightarrow> (Some i', remember_token i' t reg))
     | None \<Rightarrow> (case runtime_type_id metadata t of None \<Rightarrow> (None, reg) | Some i' \<Rightarrow> (Some i', remember_token i' t reg)))"

definition resolve_token :: "token_registry \<Rightarrow> token_id \<Rightarrow> type_token option" where
  "resolve_token reg i = jget (tr_tokensById reg) i"

text \<open>Types nested in a configuration are registered with it.\<close>

fun live_prop :: "(string \<times> live) list \<Rightarrow> string \<Rightarrow> live" where
  "live_prop ps k = opt_or (map_of ps k) LUndef"

lemma size_prop: "(k, v) \<in> set ps \<Longrightarrow> size v \<le> size_list (size_prod (\<lambda>_. 0) size) ps"
  by (induction ps) auto

function register_nested ::
  "(type_token \<Rightarrow> (string option \<times> string) option) \<Rightarrow> live \<Rightarrow> token_registry \<Rightarrow> token_registry" where
  "register_nested metadata v reg =
    (case v of
       LArr vs \<Rightarrow> fold (register_nested metadata) vs reg
     | LObj _ ps _ \<Rightarrow>
         (let reg1 = (case as_type_token (live_prop ps ''type'') of
                        Some t \<Rightarrow> if live_prop ps ''type'' = LStr [] then reg else register_decorated metadata t reg
                      | None \<Rightarrow> reg)
          in fold (register_nested metadata) (map snd ps) reg1)
     | _ \<Rightarrow> reg)"
  by pat_completeness auto
termination
  by (relation "measure (\<lambda>(_, v, _). size v)")
     (auto simp: less_Suc_eq_le intro: size_list_estimation' dest!: size_prop)

section \<open>To JSON\<close>

text \<open>
  \<open>JSON.parse (JSON.stringify v)\<close>: functions, symbols and \<open>undefined\<close> are dropped from objects and are \<open>null\<close> in
  arrays; a big integer makes it throw.  Objects with a \<open>toJSON\<close> method are left out.
\<close>

fun json_clone :: "live \<Rightarrow> jsval option" and
    json_elements :: "live list \<Rightarrow> jsval list option" and
    json_fields :: "(string \<times> live) list \<Rightarrow> (string \<times> jsval) list option" where
  "json_clone LUndef = Some JUndefined"
| "json_clone LNull = Some JNull"
| "json_clone (LBool b) = Some (JBool b)"
| "json_clone (LNum n) = Some (JNum n)"
| "json_clone (LStr s) = Some (JStr s)"
| "json_clone (LFun _ _) = Some JUndefined"
| "json_clone (LSym _) = Some JUndefined"
| "json_clone (LBig _) = None"
| "json_clone (LArr vs) = map_option JArr (json_elements vs)"
| "json_clone (LObj _ ps _) = map_option JObj (json_fields ps)"
| "json_elements [] = Some []"
| "json_elements (v # vs) =
    (case (json_clone v, json_elements vs) of
       (Some x, Some xs) \<Rightarrow> Some ((if x = JUndefined then JNull else x) # xs)
     | _ \<Rightarrow> None)"
| "json_fields [] = Some []"
| "json_fields ((k, v) # ps) =
    (case (json_clone v, json_fields ps) of
       (Some x, Some xs) \<Rightarrow> Some (if x = JUndefined then xs else (k, x) # xs)
     | _ \<Rightarrow> None)"

text \<open>The id a type is stored under.\<close>

definition token_name_of :: "type_token \<Rightarrow> string option" where
  "token_name_of t =
    (case t of
       ClassToken _ name \<Rightarrow> if name = [] then None else Some name
     | StringToken s \<Rightarrow> Some s
     | SymbolToken _ \<Rightarrow> None)"

definition stored_token_id :: "(type_token \<Rightarrow> token_id option) \<Rightarrow> type_token \<Rightarrow> token_id" where
  "stored_token_id ids t = opt_or (opt_else (ids t) (token_name_of t)) ''unknown''"

definition truthy_token :: "live \<Rightarrow> type_token option" where
  "truthy_token v = (if v = LStr [] then None else as_type_token v)"

definition note_type :: "(type_token \<Rightarrow> token_id option) \<Rightarrow> (string \<times> live) list \<Rightarrow> (string \<times> jsval) list \<Rightarrow> (string \<times> jsval) list" where
  "note_type ids ps fs =
    (case truthy_token (live_prop ps ''type'') of
       Some t \<Rightarrow> jset ''tokenId'' (JStr (stored_token_id ids t)) fs
     | None \<Rightarrow> fs)"

text \<open>Into every object with a type goes the id of that type; the shapes of the two trees are followed together.\<close>

fun inject_token_ids :: "(type_token \<Rightarrow> token_id option) \<Rightarrow> jsval \<Rightarrow> live \<Rightarrow> jsval" and
    inject_elements :: "(type_token \<Rightarrow> token_id option) \<Rightarrow> jsval list \<Rightarrow> live list \<Rightarrow> jsval list" and
    inject_fields :: "(type_token \<Rightarrow> token_id option) \<Rightarrow> (string \<times> jsval) list \<Rightarrow> (string \<times> live) list \<Rightarrow> (string \<times> jsval) list" where
  "inject_token_ids ids (JObj fs) (LObj _ ps _) = JObj (inject_fields ids (note_type ids ps fs) ps)"
| "inject_token_ids ids (JArr ts) (LArr vs) = JArr (inject_elements ids ts vs)"
| "inject_token_ids ids t _ = t"
| "inject_elements ids (t # ts) (v # vs) = inject_token_ids ids t v # inject_elements ids ts vs"
| "inject_elements ids ts _ = ts"
| "inject_fields ids fs [] = fs"
| "inject_fields ids fs ((k, v) # ps) =
    inject_fields ids
      (if k = ''type'' then fs
       else case jget fs k of Some t \<Rightarrow> jset k (inject_token_ids ids t v) fs | None \<Rightarrow> fs) ps"

definition fallback_fields :: "(string \<times> live) list \<Rightarrow> (string \<times> jsval) list" where
  "fallback_fields ps =
    map (\<lambda>k. (k, opt_or (json_clone (live_prop ps k)) JUndefined)) [''kind'', ''name'', ''id'', ''icon'', ''execution'']"

definition serialize_config :: "(type_token \<Rightarrow> token_id option) \<Rightarrow> live \<Rightarrow> jsval" where
  "serialize_config ids config =
    inject_token_ids ids
      (case json_clone config of Some cloned \<Rightarrow> cloned | None \<Rightarrow> JObj (fallback_fields (case config of LObj _ ps _ \<Rightarrow> ps | _ \<Rightarrow> [])))
      config"

section \<open>And back\<close>

fun is_runtime_value :: "live \<Rightarrow> bool" where
  "is_runtime_value (LFun _ _) = True"
| "is_runtime_value (LSym _) = True"
| "is_runtime_value _ = False"

fun record_props :: "live \<Rightarrow> (string \<times> live) list" where
  "record_props (LObj _ ps _) = ps"
| "record_props _ = []"

fun record_symbols :: "live \<Rightarrow> (string \<times> live) list" where
  "record_symbols (LObj _ _ ss) = ss"
| "record_symbols _ = []"

text \<open>Prototype 0 is that of plain objects, 1 that of arrays.\<close>

fun record_proto :: "live \<Rightarrow> nat" where
  "record_proto (LObj p _ _) = p"
| "record_proto (LArr _) = 1"
| "record_proto _ = 0"

fun array_elements :: "live \<Rightarrow> live list" where
  "array_elements (LArr vs) = vs"
| "array_elements _ = []"

definition restore_runtime :: "(string \<times> live) list \<Rightarrow> (string \<times> live) list \<Rightarrow> (string \<times> live) list" where
  "restore_runtime ps hydrated = fold (\<lambda>(k, v) h. if is_runtime_value v then jset k v h else h) ps hydrated"

definition restore_type :: "(token_id \<Rightarrow> type_token option) \<Rightarrow> (string \<times> live) list \<Rightarrow> (string \<times> live) list" where
  "restore_type resolve h =
    (case live_prop h ''tokenId'' of
       LStr i \<Rightarrow> if i = [] then h else (case resolve i of Some t \<Rightarrow> jset ''type'' (live_of_token t) h | None \<Rightarrow> h)
     | _ \<Rightarrow> h)"

fun merge_nested :: "(token_id \<Rightarrow> type_token option) \<Rightarrow> live \<Rightarrow> jsval \<Rightarrow> live" and
    merge_elements :: "(token_id \<Rightarrow> type_token option) \<Rightarrow> live list \<Rightarrow> jsval list \<Rightarrow> live list" and
    merge_fields :: "(token_id \<Rightarrow> type_token option) \<Rightarrow> (string \<times> live) list \<Rightarrow> (string \<times> jsval) list \<Rightarrow> (string \<times> live) list" where
  "merge_nested resolve l JUndefined = LUndef"
| "merge_nested resolve l JNull = LNull"
| "merge_nested resolve l (JBool b) = LBool b"
| "merge_nested resolve l (JNum n) = LNum n"
| "merge_nested resolve l (JStr s) = LStr s"
| "merge_nested resolve l (JArr ts) = LArr (merge_elements resolve (array_elements l) ts)"
| "merge_nested resolve l (JObj fs) =
    LObj (record_proto l)
      (restore_type resolve (restore_runtime (record_props l) (merge_fields resolve (record_props l) fs)))
      (record_symbols l)"
| "merge_elements resolve vs [] = []"
| "merge_elements resolve vs (t # ts) =
    merge_nested resolve (case vs of [] \<Rightarrow> LUndef | v # _ \<Rightarrow> v) t # merge_elements resolve (tl vs) ts"
| "merge_fields resolve ps [] = []"
| "merge_fields resolve ps ((k, t) # fs) = (k, merge_nested resolve (live_prop ps k) t) # merge_fields resolve ps fs"

text \<open>A snapshot whose configuration is no object hydrates to what the running configuration adds to an empty one.\<close>

definition merge_value :: "(token_id \<Rightarrow> type_token option) \<Rightarrow> live \<Rightarrow> jsval \<Rightarrow> live" where
  "merge_value resolve l t = merge_nested resolve l (case t of JObj fs \<Rightarrow> t | _ \<Rightarrow> JObj [])"

fun kind_text :: "node_kind \<Rightarrow> string" where
  "kind_text TriggerKind = ''trigger''"
| "kind_text NodeKind = ''node''"

fun truthy_live :: "live \<Rightarrow> bool" where
  "truthy_live LUndef = False"
| "truthy_live LNull = False"
| "truthy_live (LBool b) = b"
| "truthy_live (LNum n) = (n \<noteq> 0)"
| "truthy_live (LStr s) = (s \<noteq> [])"
| "truthy_live (LBig i) = (i \<noteq> 0)"
| "truthy_live _ = True"

definition hydrate_config :: "(token_id \<Rightarrow> type_token option) \<Rightarrow> snapshot_node \<Rightarrow> live \<Rightarrow> live" where
  "hydrate_config resolve sn l =
    (let h = merge_value resolve l (sn_config sn);
         ps1 = jset ''kind'' (LStr (kind_text (sn_kind sn)))
                 (jset ''type'' (case resolve (sn_configTokenId sn) of Some t \<Rightarrow> live_of_token t | None \<Rightarrow> live_prop (record_props l) ''type'')
                   (record_props h));
         ps2 = (if truthy_string (sn_name sn) \<and> \<not> truthy_live (live_prop ps1 ''name'')
                then jset ''name'' (LStr (the (sn_name sn))) ps1 else ps1)
     in LObj (record_proto h) ps2 (record_symbols h))"

text \<open>\<open>safeInspectorSummary\<close>: the rows a configuration gives about itself, if they are rows.\<close>

definition summary_row :: "(string \<Rightarrow> string) \<Rightarrow> live \<Rightarrow> (string \<times> string) option" where
  "summary_row trim entry =
    (case (live_prop (record_props entry) ''label'', live_prop (record_props entry) ''value'') of
       (LStr label, LStr v) \<Rightarrow> if trim label = [] then None else Some (trim label, v)
     | _ \<Rightarrow> None)"

definition inspector_summary :: "(string \<Rightarrow> string) \<Rightarrow> live option \<Rightarrow> (string \<times> string) list option" where
  "inspector_summary trim raw =
    (case raw of
       Some (LArr entries) \<Rightarrow> (let rows = List.map_filter (summary_row trim) entries in if rows = [] then None else Some rows)
     | _ \<Rightarrow> None)"

section \<open>The registry gives back what it got\<close>

text \<open>
  A type whose id the registry hands out, by registering it or by looking it up, is found again under that id right
  away, and the id stays that of the type until the type is registered again under another one.
\<close>

theorem registry_roundtrip:
  "(case get_token_id metadata t empty_registry of (Some i, reg) \<Rightarrow> resolve_token reg i = Some t | (None, reg) \<Rightarrow> reg = empty_registry)
   \<and> (case register_token t packageId override reg of (i, reg') \<Rightarrow>
        resolve_token reg' i = Some t \<and> (i = [] \<or> get_token_id metadata t reg' = (Some i, reg'))
        \<and> (\<forall>j. j \<noteq> i \<longrightarrow> resolve_token reg' j = resolve_token reg j))"
  by (auto simp: get_token_id_def register_token_def remember_token_def resolve_token_def empty_registry_def Let_def
      split: option.split)

section \<open>Configurations survive\<close>

text \<open>What JSON can carry, plus functions, symbols and types as values of properties.\<close>

fun storable :: "live \<Rightarrow> bool" where
  "storable LUndef = False"
| "storable (LBig _) = False"
| "storable (LArr vs) = (\<forall>v \<in> set vs. storable v \<and> \<not> is_runtime_value v)"
| "storable (LObj _ ps _) = (distinct (map fst ps) \<and> ''tokenId'' \<notin> set (map fst ps) \<and> (\<forall>(k, v) \<in> set ps. storable v))"
| "storable _ = True"

text \<open>The same configuration, up to the order of properties and the ids added to it.\<close>

inductive restored :: "live \<Rightarrow> live \<Rightarrow> bool" where
  same_value: "restored v v"
| elements: "list_all2 restored vs ws \<Longrightarrow> restored (LArr vs) (LArr ws)"
| object: "(\<And>k. k \<noteq> ''tokenId'' \<Longrightarrow> rel_option restored (map_of ps k) (map_of qs k)) \<Longrightarrow> restored (LObj p ps ss) (LObj p qs ss)"

definition consistent_ids :: "(type_token \<Rightarrow> token_id option) \<Rightarrow> (token_id \<Rightarrow> type_token option) \<Rightarrow> bool" where
  "consistent_ids ids resolve = (\<forall>t. resolve (stored_token_id ids t) \<in> {None, Some t})"

definition clone_field :: "live option \<Rightarrow> jsval option" where
  "clone_field x = (case Option.bind x json_clone of None \<Rightarrow> None | Some t \<Rightarrow> if t = JUndefined then None else Some t)"

lemma json_fields_get:
  assumes "json_fields ps = Some fs" "distinct (map fst ps)"
  shows "jget fs k = clone_field (map_of ps k)"
  using assms
proof (induction ps arbitrary: fs)
  case (Cons y ps)
  obtain j v where y: "y = (j, v)" by (cases y)
  obtain x xs where x: "json_clone v = Some x" "json_fields ps = Some xs" "fs = (if x = JUndefined then xs else (j, x) # xs)"
    using Cons.prems(1) y by (auto split: option.splits)
  have ih: "jget xs k = clone_field (map_of ps k)" using Cons.IH [OF x(2)] Cons.prems(2) by simp
  have "map_of ps j = None" using Cons.prems(2) y by (simp add: map_of_eq_None_iff)
  thus ?case using ih x by (cases "k = j") (auto simp: y clone_field_def)
qed (simp add: clone_field_def)

lemma json_undefined: "json_clone v = Some JUndefined \<longleftrightarrow> v = LUndef \<or> is_runtime_value v"
  by (cases v) auto

lemma storable_clones:
  "storable v \<Longrightarrow> \<exists>x. json_clone v = Some x"
  "(\<forall>v \<in> set vs. storable v) \<Longrightarrow> \<exists>xs. json_elements vs = Some xs"
  "(\<forall>(k, v) \<in> set ps. storable v) \<Longrightarrow> \<exists>fs. json_fields ps = Some fs"
  by (induction v and vs and ps rule: json_clone_json_elements_json_fields.induct) auto

lemma inject_fields_get:
  "distinct (map fst ps) \<Longrightarrow>
    jget (inject_fields ids fs ps) k =
      (case map_of ps k of
         Some v \<Rightarrow> if k = ''type'' then jget fs k else map_option (\<lambda>t. inject_token_ids ids t v) (jget fs k)
       | None \<Rightarrow> jget fs k)"
proof (induction ps arbitrary: fs)
  case (Cons x ps)
  obtain j v where x: "x = (j, v)" by (cases x)
  have ih: "jget (inject_fields ids fs' ps) k =
      (case map_of ps k of Some v \<Rightarrow> if k = ''type'' then jget fs' k else map_option (\<lambda>t. inject_token_ids ids t v) (jget fs' k)
       | None \<Rightarrow> jget fs' k)" for fs'
    using Cons by simp
  have "j \<notin> set (map fst ps)" using Cons.prems x by simp
  hence "map_of ps j = None" by (simp add: map_of_eq_None_iff)
  thus ?case by (auto simp: x ih split: option.split)
qed simp

lemma restore_runtime_get:
  "distinct (map fst ps) \<Longrightarrow>
    map_of (restore_runtime ps h) k = (case map_of ps k of Some v \<Rightarrow> if is_runtime_value v then Some v else map_of h k | None \<Rightarrow> map_of h k)"
proof (induction ps arbitrary: h)
  case (Cons x ps)
  obtain j v where x: "x = (j, v)" by (cases x)
  have "map_of ps j = None" using Cons.prems x by (simp add: map_of_eq_None_iff)
  thus ?case using Cons by (auto simp: restore_runtime_def x split: option.split)
qed (simp add: restore_runtime_def)

lemma merge_fields_get:
  "map_of (merge_fields resolve ps fs) k = map_option (\<lambda>t. merge_nested resolve (live_prop ps k) t) (map_of fs k)"
  by (induction fs) auto

lemma live_of_as_token: "as_type_token v = Some t \<Longrightarrow> live_of_token t = v"
  by (cases v) auto

lemma object_restored:
  assumes "distinct (map fst ps)" "''tokenId'' \<notin> set (map fst ps)"
    and "\<And>k v. map_of ps k = Some v \<Longrightarrow> \<not> is_runtime_value v \<Longrightarrow> \<exists>t. jget fs k = Some t \<and> restored v (merge_nested resolve v t)"
    and "\<And>k. map_of ps k = None \<Longrightarrow> k \<noteq> ''tokenId'' \<Longrightarrow> jget fs k = None"
    and "\<And>x. jget fs ''tokenId'' = Some x \<Longrightarrow> \<exists>t i. x = JStr i \<and> resolve i \<in> {None, Some t} \<and> map_of ps ''type'' = Some (live_of_token t)"
  shows "restored (LObj p ps ss) (merge_nested resolve (LObj p ps ss) (JObj fs))"
proof -
  let ?h = "restore_runtime ps (merge_fields resolve ps fs)"
  have h: "map_of ?h k = (case map_of ps k of
      Some v \<Rightarrow> if is_runtime_value v then Some v else map_option (\<lambda>t. merge_nested resolve v t) (jget fs k)
    | None \<Rightarrow> map_option (\<lambda>t. merge_nested resolve LUndef t) (jget fs k))" for k
    by (simp add: restore_runtime_get [OF assms(1)] merge_fields_get split: option.split)
  have base: "rel_option restored (map_of ps k) (map_of ?h k)" if "k \<noteq> ''tokenId''" for k
    using assms(3,4) that by (cases "map_of ps k") (fastforce simp: h intro: restored.intros)+
  have tok: "map_of ps ''tokenId'' = None" using assms(2) by (simp add: map_of_eq_None_iff)
  have "rel_option restored (map_of ps k) (map_of (restore_type resolve ?h) k)" if k: "k \<noteq> ''tokenId''" for k
  proof (cases "jget fs ''tokenId''")
    case None
    hence "restore_type resolve ?h = ?h" by (simp add: restore_type_def h tok)
    thus ?thesis using base [OF k] by simp
  next
    case (Some x)
    then obtain t i where t: "x = JStr i" "resolve i \<in> {None, Some t}" "map_of ps ''type'' = Some (live_of_token t)"
      using assms(5) by blast
    have "restore_type resolve ?h = ?h \<or> restore_type resolve ?h = jset ''type'' (live_of_token t) ?h"
      using t(2) by (auto simp: restore_type_def h tok Some t(1))
    thus ?thesis using base [OF k] t(3) by (auto intro: restored.intros)
  qed
  thus ?thesis by (simp add: restored.object)
qed

lemma storable_field:
  assumes "storable (LObj p ps ss)" "json_fields ps = Some fs" "map_of ps k = Some v" "\<not> is_runtime_value v"
  shows "\<exists>t. json_clone v = Some t \<and> jget fs k = Some t \<and> t \<noteq> JUndefined \<and> storable v"
proof -
  have v: "storable v" using assms(1) map_of_SomeD [OF assms(3)] by auto
  then obtain t where t: "json_clone v = Some t" using storable_clones(1) by blast
  have "t \<noteq> JUndefined" using t v assms(4) json_undefined [of v] by auto
  thus ?thesis using json_fields_get [OF assms(2), of k] assms(1,3) t v by (simp add: clone_field_def)
qed

lemma json_fields_none: "json_fields ps = Some fs \<Longrightarrow> distinct (map fst ps) \<Longrightarrow> map_of ps k = None \<Longrightarrow> jget fs k = None"
  by (simp add: json_fields_get clone_field_def del: map_of_eq_None_iff)

lemma elements_restored:
  assumes "\<And>v t. v \<in> set vs \<Longrightarrow> json_clone v = Some t \<Longrightarrow> restored v (merge_nested resolve v (f t v))"
    and "\<forall>v \<in> set vs. storable v \<and> \<not> is_runtime_value v" "json_elements vs = Some ts"
  shows "list_all2 restored vs (merge_elements resolve vs (map2 f ts vs)) \<and> length ts = length vs"
  using assms
proof (induction vs arbitrary: ts)
  case (Cons v vs)
  obtain t ts' where t: "json_clone v = Some t" "json_elements vs = Some ts'" "ts = (if t = JUndefined then JNull else t) # ts'"
    using Cons.prems(3) by (auto split: option.splits)
  have "t \<noteq> JUndefined" using Cons.prems(2) t(1) json_undefined [of v] by auto
  thus ?case using Cons.IH [OF _ _ t(2)] Cons.prems(1,2) t by auto
qed simp

lemma inject_elements_map2: "length ts = length vs \<Longrightarrow> inject_elements ids ts vs = map2 (inject_token_ids ids) ts vs"
  by (induction ts vs rule: list_induct2) simp_all

lemma clone_restored:
  assumes "storable v" "\<not> is_runtime_value v" "json_clone v = Some t"
  shows "restored v (merge_nested resolve v t)"
  using assms
proof (induction v arbitrary: t)
  case (LArr vs)
  then obtain ts where ts: "json_elements vs = Some ts" "t = JArr ts" by auto
  have "list_all2 restored vs (merge_elements resolve vs (map2 (\<lambda>t v. t) ts vs)) \<and> length ts = length vs"
    by (rule elements_restored [OF _ _ ts(1)]) (use LArr in auto)
  moreover have "length ts = length vs \<Longrightarrow> map2 (\<lambda>t v. t) ts vs = ts" by (simp add: map_fst_zip [unfolded fst_def])
  ultimately show ?case using ts(2) by (auto intro: restored.intros)
next
  case (LObj p ps ss)
  then obtain fs where fs: "json_fields ps = Some fs" "t = JObj fs" by auto
  have "restored (LObj p ps ss) (merge_nested resolve (LObj p ps ss) (JObj fs))"
  proof (rule object_restored)
    fix k v
    assume "map_of ps k = Some v" "\<not> is_runtime_value v"
    moreover from storable_field [OF LObj.prems(1) fs(1) this] obtain t where "json_clone v = Some t" "jget fs k = Some t" "storable v" by blast
    ultimately show "\<exists>t. jget fs k = Some t \<and> restored v (merge_nested resolve v t)"
      using LObj.IH(1) [of "(k, v)" v] map_of_SomeD by (fastforce simp: snds.simps)
  next
    show "jget fs k = None" if "map_of ps k = None" for k using json_fields_none [OF fs(1) _ that] LObj.prems(1) by simp
    moreover have "map_of ps ''tokenId'' = None" using LObj.prems(1) by (simp add: map_of_eq_None_iff)
    ultimately show "\<exists>t i. x = JStr i \<and> resolve i \<in> {None, Some t} \<and> map_of ps ''type'' = Some (live_of_token t)"
      if "jget fs ''tokenId'' = Some x" for x using that by simp
  qed (use LObj.prems(1) in auto)
  thus ?case using fs(2) by simp
qed (auto intro: restored.intros)

lemma note_type_get:
  "jget (note_type ids ps fs) k =
    (if k = ''tokenId'' \<and> truthy_token (live_prop ps ''type'') \<noteq> None
     then Some (JStr (stored_token_id ids (the (truthy_token (live_prop ps ''type''))))) else jget fs k)"
  by (auto simp: note_type_def split: option.split)

lemma injected_restored:
  assumes "consistent_ids ids resolve" "storable v" "\<not> is_runtime_value v" "json_clone v = Some t"
  shows "restored v (merge_nested resolve v (inject_token_ids ids t v))"
  using assms(2-)
proof (induction v arbitrary: t)
  case (LArr vs)
  then obtain ts where ts: "json_elements vs = Some ts" "t = JArr ts" by auto
  have "list_all2 restored vs (merge_elements resolve vs (map2 (inject_token_ids ids) ts vs)) \<and> length ts = length vs"
    by (rule elements_restored [OF _ _ ts(1)]) (use LArr in auto)
  thus ?case using ts(2) by (auto simp: inject_elements_map2 intro: restored.intros)
next
  case (LObj p ps ss)
  then obtain fs where fs: "json_fields ps = Some fs" "t = JObj fs" by auto
  have ps: "distinct (map fst ps)" "''tokenId'' \<notin> set (map fst ps)" "map_of ps ''tokenId'' = None"
    using LObj.prems(1) by (simp_all add: map_of_eq_None_iff)
  let ?fs = "inject_fields ids (note_type ids ps fs) ps"
  have get: "jget ?fs k = (case map_of ps k of
      Some v \<Rightarrow> if k = ''type'' then jget fs k else map_option (\<lambda>t. inject_token_ids ids t v) (jget fs k)
    | None \<Rightarrow> jget fs k)" if "k \<noteq> ''tokenId''" for k
    using that by (simp add: inject_fields_get [OF ps(1)] note_type_get split: option.split)
  have "restored (LObj p ps ss) (merge_nested resolve (LObj p ps ss) (JObj ?fs))"
  proof (rule object_restored [OF ps(1,2)])
    fix k v
    assume v: "map_of ps k = Some v" "\<not> is_runtime_value v"
    from storable_field [OF LObj.prems(1) fs(1) this] obtain t where t: "json_clone v = Some t" "jget fs k = Some t" "storable v" by blast
    have k: "k \<noteq> ''tokenId''" using v(1) ps(3) by auto
    show "\<exists>t. jget ?fs k = Some t \<and> restored v (merge_nested resolve v t)"
    proof (cases "k = ''type''")
      case True
      thus ?thesis using get [OF k] v t clone_restored [OF t(3) v(2) t(1)] by simp
    next
      case False
      have "restored v (merge_nested resolve v (inject_token_ids ids t v))"
        using LObj.IH(1) [of "(k, v)" v t] map_of_SomeD [OF v(1)] t v(2) by (simp add: snds.simps)
      thus ?thesis using get [OF k] v t False by simp
    qed
  next
    show "jget ?fs k = None" if "map_of ps k = None" "k \<noteq> ''tokenId''" for k
      using json_fields_none [OF fs(1) ps(1) that(1)] get [OF that(2)] that(1) by simp
    fix x
    assume x: "jget ?fs ''tokenId'' = Some x"
    have none: "jget fs ''tokenId'' = None" by (rule json_fields_none [OF fs(1) ps(1,3)])
    have "jget ?fs ''tokenId'' = jget (note_type ids ps fs) ''tokenId''" by (simp add: inject_fields_get [OF ps(1)] ps(3))
    with x none obtain u where u: "truthy_token (live_prop ps ''type'') = Some u" "x = JStr (stored_token_id ids u)"
      by (auto simp: note_type_get split: if_splits)
    hence "as_type_token (live_prop ps ''type'') = Some u" by (auto simp: truthy_token_def split: if_splits)
    hence "live_prop ps ''type'' = live_of_token u" "live_prop ps ''type'' \<noteq> LUndef" using live_of_as_token by auto
    hence "map_of ps ''type'' = Some (live_of_token u)" by (cases "map_of ps ''type''") auto
    thus "\<exists>t i. x = JStr i \<and> resolve i \<in> {None, Some t} \<and> map_of ps ''type'' = Some (live_of_token t)"
      using u(2) assms(1) by (auto simp: consistent_ids_def)
  qed
  thus ?case using fs(2) by simp
qed (auto intro: restored.intros)

text \<open>
  The configuration of a node survives being stored: put together from its own stored form and itself, it has the same
  prototype, symbols and properties at every level, functions and types included; only the ids of the types are added.
  This holds for configurations of JSON values and functions whose arrays hold no functions, when the registry knows no
  type under the id of another.
\<close>

theorem config_survives_snapshot:
  assumes "consistent_ids ids resolve" "storable (LObj p ps ss)"
  shows "restored (LObj p ps ss) (merge_value resolve (LObj p ps ss) (serialize_config ids (LObj p ps ss)))"
proof -
  obtain t where t: "json_clone (LObj p ps ss) = Some t" using storable_clones(1) [OF assms(2)] by blast
  then obtain fs where "t = JObj fs" by auto
  thus ?thesis
    using injected_restored [OF assms _ t] t by (simp add: merge_value_def serialize_config_def)
qed

text \<open>An array is not restored: a function in it is lost.\<close>

lemma array_functions_lost:
  "merge_value resolve (LObj 0 [(''steps'', LArr [LFun 7 ''f''])] []) (serialize_config ids (LObj 0 [(''steps'', LArr [LFun 7 ''f''])] []))
    = LObj 0 [(''steps'', LArr [LNull])] []"
  by (simp add: merge_value_def serialize_config_def note_type_def truthy_token_def restore_runtime_def restore_type_def)

definition sample_live_config :: live where
  "sample_live_config = LObj 3
    [(''kind'', LStr ''node''), (''type'', LFun 5 ''Mapper''), (''name'', LStr ''map''), (''run'', LFun 9 ''run''),
     (''model'', LObj 4 [(''type'', LFun 6 ''Model''), (''size'', LNum 3)] [])] []"

definition sample_ids :: "type_token \<Rightarrow> token_id option" where
  "sample_ids t = Some (if t = ClassToken 6 ''Model'' then ''core::Model'' else ''other'')"

definition sample_resolve :: "token_id \<Rightarrow> type_token option" where
  "sample_resolve i = (if i = ''core::Model'' then Some (ClassToken 6 ''Model'') else None)"

lemma config_survives_snapshot_witness:
  "restored sample_live_config (merge_value sample_resolve sample_live_config (serialize_config sample_ids sample_live_config))"
proof -
  have "storable sample_live_config" by code_simp
  moreover have "consistent_ids sample_ids sample_resolve"
    by (auto simp: consistent_ids_def stored_token_id_def sample_ids_def sample_resolve_def)
  ultimately show ?thesis unfolding sample_live_config_def using config_survives_snapshot by blast
qed

end
