(* ===== verification/Snapshots.thy ===== *)
theory Snapshots
  imports ConfigCodec RunStart
begin

text \<open>
  \<open>workflowSnapshots/WorkflowSnapshotCodec.ts\<close> (\<open>create\<close>), \<open>WorkflowSnapshotResolver.ts\<close> and the missing-runtime
  fallbacks: the workflow stored with a run, and the workflow a stored run is continued with.  A configuration is
  seen in two ways, as the record the engine reads and as the tree of values the codec copies; the two views, what
  \<open>inspectorSummary()\<close> gives, the workflows of the host and the registry's lookups are the environment.  The ids
  the registry remembers on a lookup are those it would compute again, so a lookup is a function here.
\<close>

section \<open>Creating a snapshot\<close>

record snapshot_env =
  sv_workflow :: "workflow_id \<Rightarrow> workflow option"
  sv_ids :: "type_token \<Rightarrow> token_id option"
  sv_resolve :: "token_id \<Rightarrow> type_token option"
  sv_live :: "node_config \<Rightarrow> live"
  sv_config :: "live \<Rightarrow> node_config"
  sv_summary :: "node_config \<Rightarrow> live option"
  sv_trim :: "string \<Rightarrow> string"

definition snapshot_of_node :: "snapshot_env \<Rightarrow> node_def \<Rightarrow> snapshot_node" where
  "snapshot_of_node env d =
    \<lparr>sn_id = nd_id d, sn_kind = nd_kind d, sn_name = nd_name d,
     sn_nodeTokenId = stored_token_id (sv_ids env) (nd_type d),
     sn_configTokenId = stored_token_id (sv_ids env) (nc_type (nd_config d)),
     sn_tokenName = token_name_of (nd_type d),
     sn_configTokenName = token_name_of (nc_type (nd_config d)),
     sn_config = serialize_config (sv_ids env) (sv_live env (nd_config d)),
     sn_inspectorSummary = inspector_summary (sv_trim env) (sv_summary env (nd_config d))\<rparr>"

definition create_snapshot :: "snapshot_env \<Rightarrow> workflow \<Rightarrow> workflow_snapshot" where
  "create_snapshot env w =
    \<lparr>ws_id = wf_id w, ws_name = wf_name w,
     ws_nodes = map (snapshot_of_node env) (wf_nodes w),
     ws_edges = wf_edges w,
     ws_workflowErrorHandlerConfigured = Some (wf_workflowErrorHandler w \<noteq> None),
     ws_connections = (if wf_connections w = Some [] then None else wf_connections w)\<rparr>"

text \<open>The types of all nodes and of what their configurations hold are registered when workflows are loaded.\<close>

definition register_node ::
  "snapshot_env \<Rightarrow> (type_token \<Rightarrow> (string option \<times> string) option) \<Rightarrow> node_def \<Rightarrow> token_registry \<Rightarrow> token_registry" where
  "register_node env metadata d reg =
    register_nested metadata (sv_live env (nd_config d))
      (register_decorated metadata (nc_type (nd_config d)) (register_decorated metadata (nd_type d) reg))"

definition register_from_workflows ::
  "snapshot_env \<Rightarrow> (type_token \<Rightarrow> (string option \<times> string) option) \<Rightarrow> workflow list \<Rightarrow> token_registry \<Rightarrow> token_registry" where
  "register_from_workflows env metadata ws reg = fold (\<lambda>w. fold (register_node env metadata) (wf_nodes w)) ws reg"

section \<open>Nodes without a runtime\<close>

text \<open>\<open>MissingRuntimeNodeConfig\<close> and \<open>MissingRuntimeTriggerConfig\<close>.\<close>

definition missing_config :: "node_kind \<Rightarrow> string \<Rightarrow> token_id \<Rightarrow> node_config" where
  "missing_config k name missingTokenId =
    \<lparr>nc_kind = k, nc_type = (if k = TriggerKind then missing_trigger_token else missing_node_token),
     nc_name = Some name, nc_id = None, nc_icon = None, nc_execution = None, nc_retryPolicy = None,
     nc_nodeErrorHandler = None, nc_continueWhenEmptyOutput = None, nc_declaredOutputPorts = None,
     nc_declaredInputPorts = None, nc_emitsAssertions = False, nc_emptyBatchExecution = None, nc_triggerKind = None,
     nc_fields = [(''missingTokenId'', JStr missingTokenId), (''missingRuntime'', JBool True)]\<rparr>"

definition missing_definition :: "snapshot_node \<Rightarrow> node_def" where
  "missing_definition sn =
    \<lparr>nd_id = sn_id sn, nd_kind = (if sn_kind sn = TriggerKind then TriggerKind else NodeKind),
     nd_type = (if sn_kind sn = TriggerKind then missing_trigger_token else missing_node_token),
     nd_name = sn_name sn,
     nd_config = missing_config (sn_kind sn) (opt_or (sn_name sn) (sn_id sn)) (sn_nodeTokenId sn)\<rparr>"

section \<open>The workflow of a stored run\<close>

definition live_token_id :: "snapshot_env \<Rightarrow> type_token \<Rightarrow> token_id option" where
  "live_token_id env t = (if truthy_string (sv_ids env t) then sv_ids env t else token_name_of t)"

definition missing_token_ids :: "node_id \<Rightarrow> js_error" where
  "missing_token_ids n = plain_error (''Persisted workflow snapshot node '' @ quoted n @ '' is missing stable token ids.'')"

definition is_compatible :: "snapshot_env \<Rightarrow> node_def option \<Rightarrow> snapshot_node \<Rightarrow> js_error + bool" where
  "is_compatible env l sn =
    (case l of
       None \<Rightarrow> Inr False
     | Some d \<Rightarrow>
         if nd_kind d \<noteq> sn_kind sn then Inr False
         else if sn_nodeTokenId sn = [] \<or> sn_configTokenId sn = [] then Inl (missing_token_ids (sn_id sn))
         else Inr (live_token_id env (nd_type d) = Some (sn_nodeTokenId sn)
                   \<and> live_token_id env (nc_type (nd_config d)) = Some (sn_configTokenId sn)))"

definition hydrate_node :: "snapshot_env \<Rightarrow> snapshot_node \<Rightarrow> node_def \<Rightarrow> node_def" where
  "hydrate_node env sn d =
    \<lparr>nd_id = sn_id sn, nd_kind = sn_kind sn, nd_type = nd_type d, nd_name = opt_else (sn_name sn) (nd_name d),
     nd_config = sv_config env (hydrate_config (sv_resolve env) sn (sv_live env (nd_config d)))\<rparr>"

definition rebuild_node :: "snapshot_env \<Rightarrow> (node_id, node_def) jmap \<Rightarrow> snapshot_node \<Rightarrow> js_error + node_def" where
  "rebuild_node env liveNodes sn =
    bind_result (is_compatible env (jget liveNodes (sn_id sn)) sn) (\<lambda>ok.
      Inr (if ok then hydrate_node env sn (the (jget liveNodes (sn_id sn))) else missing_definition sn))"

definition live_nodes_by_id :: "workflow option \<Rightarrow> (node_id, node_def) jmap" where
  "live_nodes_by_id live = fold (\<lambda>d m. jset (nd_id d) d m) (case live of None \<Rightarrow> [] | Some w \<Rightarrow> wf_nodes w) []"

definition declared_connections :: "node_id set \<Rightarrow> node_connection list option \<Rightarrow> node_connection list" where
  "declared_connections ids cs =
    filter (\<lambda>c. cn_childNodeIds c \<noteq> [])
      (map (\<lambda>c. c\<lparr>cn_childNodeIds := filter (\<lambda>n. n \<in> ids) (cn_childNodeIds c)\<rparr>) (opt_or cs []))"

primrec rebuild_nodes ::
  "snapshot_env \<Rightarrow> (node_id, node_def) jmap \<Rightarrow> snapshot_node list \<Rightarrow> js_error + node_def list" where
  "rebuild_nodes env liveNodes [] = Inr []"
| "rebuild_nodes env liveNodes (sn # sns) =
    bind_result (rebuild_node env liveNodes sn) (\<lambda>d.
      bind_result (rebuild_nodes env liveNodes sns) (\<lambda>ds. Inr (d # ds)))"

definition rebuild_workflow :: "snapshot_env \<Rightarrow> workflow_snapshot \<Rightarrow> workflow option \<Rightarrow> js_error + workflow" where
  "rebuild_workflow env snap live =
    bind_result (rebuild_nodes env (live_nodes_by_id live) (ws_nodes snap)) (\<lambda>nodes.
      let ids = set (map nd_id nodes);
          connections = declared_connections ids (ws_connections snap)
      in Inr \<lparr>wf_id = ws_id snap, wf_name = ws_name snap, wf_nodes = nodes,
              wf_edges = filter (\<lambda>e. or_node (e_from e) \<in> ids \<and> ir_node (e_to e) \<in> ids) (ws_edges snap),
              wf_connections = (if connections = [] then None else Some connections),
              wf_discoveryPathSegments = Option.bind live wf_discoveryPathSegments,
              wf_prunePolicy = None, wf_storagePolicy = None, wf_workflowErrorHandler = None\<rparr>)"

definition resolve_workflow :: "snapshot_env \<Rightarrow> workflow_id \<Rightarrow> workflow_snapshot option \<Rightarrow> js_error + workflow option" where
  "resolve_workflow env wid snapshot =
    (case snapshot of
       None \<Rightarrow> Inr (sv_workflow env wid)
     | Some snap \<Rightarrow> map_sum id Some (rebuild_workflow env snap (sv_workflow env wid)))"

section \<open>What a snapshot brings back\<close>

lemma rebuild_nodes_map:
  "(\<And>sn. sn \<in> set sns \<Longrightarrow> rebuild_node env m sn = Inr (f sn)) \<Longrightarrow> rebuild_nodes env m sns = Inr (map f sns)"
  by (induction sns) simp_all

lemma live_node_found:
  assumes "distinct (map nd_id ds)" "d \<in> set ds"
  shows "jget (fold (\<lambda>d m. jset (nd_id d) d m) ds m) (nd_id d) = Some d"
  using assms
proof (induction ds arbitrary: m)
  case (Cons x ds)
  have other: "k \<notin> nd_id ` set es \<Longrightarrow> jget (fold (\<lambda>d m. jset (nd_id d) d m) es m) k = jget m k" for k es m
    by (induction es arbitrary: m) simp_all
  show ?case using Cons by (cases "d = x") (auto simp: other)
qed simp

text \<open>A type that has an id: registered under one, or a named class, or a string.\<close>

definition identified :: "snapshot_env \<Rightarrow> type_token \<Rightarrow> bool" where
  "identified env t = (truthy_string (sv_ids env t) \<or> sv_ids env t = None \<and> truthy_string (token_name_of t))"

lemma identified_iff:
  "stored_token_id (sv_ids env) t \<noteq> [] \<Longrightarrow> live_token_id env t = Some (stored_token_id (sv_ids env) t) \<longleftrightarrow> identified env t"
  by (cases "sv_ids env t"; cases "token_name_of t")
     (auto simp: stored_token_id_def live_token_id_def identified_def truthy_string_def)

lemma snapshot_of_node_sel [simp]:
  "sn_id (snapshot_of_node env d) = nd_id d" "sn_kind (snapshot_of_node env d) = nd_kind d"
  "sn_name (snapshot_of_node env d) = nd_name d"
  "sn_nodeTokenId (snapshot_of_node env d) = stored_token_id (sv_ids env) (nd_type d)"
  "sn_configTokenId (snapshot_of_node env d) = stored_token_id (sv_ids env) (nc_type (nd_config d))"
  by (simp_all add: snapshot_of_node_def)

lemma missing_definition_sel [simp]:
  "nd_id (missing_definition sn) = sn_id sn" "nd_kind (missing_definition sn) = sn_kind sn"
  "nd_name (missing_definition sn) = sn_name sn" "is_missing_runtime (Some (nd_config (missing_definition sn)))"
  by (cases "sn_kind sn"; simp add: missing_definition_def missing_config_def is_missing_runtime_def)+

lemma hydrate_node_sel [simp]:
  "nd_id (hydrate_node env sn d) = sn_id sn" "nd_kind (hydrate_node env sn d) = sn_kind sn"
  "nd_type (hydrate_node env sn d) = nd_type d" "nd_name (hydrate_node env sn d) = opt_else (sn_name sn) (nd_name d)"
  by (simp_all add: hydrate_node_def)


text \<open>The environment of the witnesses: two nodes of one class, configurations seen as an empty object.\<close>

definition sample_snapshots :: "workflow option \<Rightarrow> snapshot_env" where
  "sample_snapshots live =
    \<lparr>sv_workflow = (\<lambda>_. live), sv_ids = (\<lambda>_. Some ''core::Sample''), sv_resolve = (\<lambda>_. None),
     sv_live = (\<lambda>_. LObj 0 [] []), sv_config = (\<lambda>_. sample_config NodeKind None), sv_summary = (\<lambda>_. None), sv_trim = (\<lambda>s. s)\<rparr>"


section \<open>Runs of workflows that are gone\<close>

lemma rebuild_all_missing:
  "sv_workflow env wid = None \<Longrightarrow> rebuild_nodes env (live_nodes_by_id None) sns = Inr (map missing_definition sns)"
  by (rule rebuild_nodes_map) (simp add: rebuild_node_def is_compatible_def live_nodes_by_id_def)

text \<open>
  A run whose workflow is gone goes on with stand-ins: resolving its stored workflow always succeeds, every node of the
  snapshot is there with its id, kind and name, its instance can be made whatever the host's container knows, and what
  such a node returns is recorded as skipped.
\<close>

theorem lost_workflow_runs_on_stand_ins:
  assumes "sv_workflow env wid = None"
  shows "\<exists>w. resolve_workflow env wid (Some snap) = Inr (Some w)
    \<and> map nd_id (wf_nodes w) = map sn_id (ws_nodes snap) \<and> map nd_kind (wf_nodes w) = map sn_kind (ws_nodes snap)
    \<and> map nd_name (wf_nodes w) = map sn_name (ws_nodes snap)
    \<and> (\<forall>d \<in> set (wf_nodes w). \<exists>i. create_by_type container (nd_type d) = Inr i \<and> ni_kind i = Some (nd_kind d)
         \<and> ni_hasExecute i)
    \<and> (\<forall>n \<in> sn_id ` set (ws_nodes snap). ns_status (create_finished_snapshot w prev sc n act finishedAt inputs outs None) = NsSkipped)"
proof -
  let ?nodes = "map missing_definition (ws_nodes snap)"
  let ?ids = "set (map nd_id ?nodes)"
  let ?w = "\<lparr>wf_id = ws_id snap, wf_name = ws_name snap, wf_nodes = ?nodes,
     wf_edges = filter (\<lambda>e. or_node (e_from e) \<in> ?ids \<and> ir_node (e_to e) \<in> ?ids) (ws_edges snap),
     wf_connections = (let c = declared_connections ?ids (ws_connections snap) in if c = [] then None else Some c),
     wf_discoveryPathSegments = None,
     wf_prunePolicy = None, wf_storagePolicy = None, wf_workflowErrorHandler = None\<rparr>"
  have w: "resolve_workflow env wid (Some snap) = Inr (Some ?w)"
    unfolding resolve_workflow_def rebuild_workflow_def option.case assms rebuild_all_missing [OF assms] by (simp add: Let_def image_image)
  have inst: "\<exists>i. create_by_type container (nd_type (missing_definition sn)) = Inr i \<and> ni_kind i = Some (sn_kind sn) \<and> ni_hasExecute i" for sn
    by (cases "sn_kind sn") (simp_all add: missing_definition_def create_by_type_def missing_trigger_token_def missing_node_token_def)
  have skipped: "ns_status (create_finished_snapshot ?w prev sc n act finishedAt inputs outs None) = NsSkipped"
    if n: "n \<in> sn_id ` set (ws_nodes snap)" for n
  proof -
    obtain d where d: "find (\<lambda>d. nd_id d = n) ?nodes = Some d"
      using n by (cases "find (\<lambda>d. nd_id d = n) ?nodes") (auto simp: find_None_iff)
    hence "d \<in> set ?nodes" by (auto simp: find_Some_iff)
    hence "is_missing_runtime (Some (nd_config d))" by auto
    thus ?thesis using d by (simp add: create_finished_snapshot_def snapshot_skipped_def Let_def)
  qed
  show ?thesis by (rule exI [of _ ?w]) (use w inst skipped in \<open>simp add: comp_def\<close>)
qed

lemma lost_workflow_runs_on_stand_ins_witness:
  "\<exists>w. resolve_workflow (sample_snapshots None) ''wf'' (Some (create_snapshot (sample_snapshots None) sample_pair)) = Inr (Some w)
     \<and> map nd_id (wf_nodes w) = [''a'', ''b'']"
proof -
  have "map sn_id (ws_nodes (create_snapshot (sample_snapshots None) sample_pair)) = [''a'', ''b'']" by code_simp
  thus ?thesis
    using lost_workflow_runs_on_stand_ins [of "sample_snapshots None" "''wf''" "create_snapshot (sample_snapshots None) sample_pair"]
    by (fastforce simp: sample_snapshots_def)
qed

section \<open>Persisted runs never reach their workflow's error handler\<close>

definition silent :: "('a, engine) engine_action \<Rightarrow> bool" where
  "silent m = (\<forall>k. keeps (\<lambda>e. en_errorNotices e = k) m)"

lemma silent_intros [intro]:
  "silent (return_do x)" "silent (throw_do er)" "silent (lift_result y)" "silent (gets_do f)" "silent (assert_do b er)"
  "silent (expect_do z er)" "silent (now_do clk)" "silent (publish_node k snap)" "silent (next_id mk)"
  "silent (update_do (save_run st))" "silent (update_do (resolve_run_completion res))"
  by (auto simp: silent_def now_do_def publish_node_def publish_event_def next_id_def save_run_def resolve_run_completion_def
      keeps_def update_do_def throw_do_def return_do_def lift_result_def gets_do_def assert_do_def expect_do_def Let_def split: option.split list.split)

lemma silent_then [intro]: "silent m \<Longrightarrow> (\<And>x. silent (f x)) \<Longrightarrow> silent (then_do m f)"
  and silent_catch [intro]: "silent m' \<Longrightarrow> (\<And>er. silent (h er)) \<Longrightarrow> silent (catch_do m' h)"
  by (auto simp: silent_def intro: keeps_intros)

lemma silent_if [intro]: "silent m \<Longrightarrow> silent m' \<Longrightarrow> silent (if b then m else m')"
  and silent_option [intro]: "silent m \<Longrightarrow> (\<And>x. silent (f x)) \<Longrightarrow> silent (case y of None \<Rightarrow> m | Some x \<Rightarrow> f x)"
  and silent_prod [intro]: "(\<And>a b. silent (g a b)) \<Longrightarrow> silent (case p of (a, b) \<Rightarrow> g a b)"
  by (simp_all split: option.split prod.split)

lemma silent_answer [intro]: "silent (answer_webhook st status signal)"
  by (auto simp: silent_def keeps_def answer_webhook_def resolve_webhook_response_def update_do_def Let_def split: list.split)

lemma silent_delete [intro]: "silent (delete_after_terminal env w st fs t)"
  by (auto simp: silent_def keeps_def delete_after_terminal_def maybe_delete_after_terminal_def delete_run_def
      split: sum.split if_splits)

lemma silent_enqueue [intro]: "silent (enqueue_with_snapshot env a)"
proof -
  have "keeps (\<lambda>e. en_errorNotices e = k) (enqueue_with_snapshot env a)" for k
    unfolding enqueue_with_snapshot_def now_do_def [abs_def] dispatch_prepared_def
    by (intro keeps_intros keeps_update)
       (auto simp: keeps_def save_run_def dispatch_inline_def schedule_drain_def update_do_def throw_do_def
          split: dispatch_job.split option.split)
  thus ?thesis by (simp add: silent_def)
qed

lemma silent_notify [intro]: "wf_workflowErrorHandler w = None \<Longrightarrow> silent (notify_workflow_handler env w st n err t)"
  by (auto simp: notify_workflow_handler_def resolve_workflow_error_handler_def then_do_def lift_result_def silent_def keeps_def return_do_def)

lemma silent_finish [intro]:
  "silent announce \<Longrightarrow> silent mkResult \<Longrightarrow> silent (finish_run env w st announce fs t mkResult)"
  unfolding finish_run_def by blast

lemma silent_announce [intro]: "silent (announce_completed c)"
  unfolding announce_completed_def by blast

lemma silent_continue:
  assumes "wf_workflowErrorHandler (cp_workflow c) = None"
  shows "silent (halt_run env c reason)" "silent r \<Longrightarrow> silent (complete_at_stop env c r)" "silent r \<Longrightarrow> silent (complete_run env c snaps r)"
    "silent r \<Longrightarrow> silent (exceed_budget env c snaps q msg r)" "silent (terminate_rejected env c snaps q n req err)"
    "silent (enqueue_next env c snaps q nxt base d)"
  using assms unfolding halt_run_def complete_at_stop_def complete_run_def exceed_budget_def terminate_rejected_def enqueue_next_def Let_def
  by (blast+)

lemma silent_queue: "wf_workflowErrorHandler (cp_workflow c) = None \<Longrightarrow> silent (continue_run env c rp outs base budget)"
  "wf_workflowErrorHandler (cp_workflow c) = None \<Longrightarrow> silent (continue_webhook env c rp outs budget signal)"
  unfolding continue_run_def continue_webhook_def enqueue_after_webhook_def respond_now_def Let_def
  by (intro silent_then silent_if silent_option silent_prod silent_intros silent_continue silent_answer; simp)+

text \<open>A resumption whose run was stored with a snapshot uses a workflow without an error handler.\<close>

definition resolves_snapshots :: "snapshot_env \<Rightarrow> continuation_env \<Rightarrow> bool" where
  "resolves_snapshots sv env =
    (\<forall>wid snap w. ce_resolveWorkflow env wid (Some snap) = Some w \<longrightarrow> resolve_workflow sv wid (Some snap) = Inr (Some w))"

lemma rebuilt_has_no_handler: "resolve_workflow sv wid (Some snap) = Inr (Some w) \<Longrightarrow> wf_workflowErrorHandler w = None"
  by (cases "rebuild_nodes sv (live_nodes_by_id (sv_workflow sv wid)) (ws_nodes snap)")
     (auto simp: resolve_workflow_def rebuild_workflow_def Let_def)

lemma persisted_no_handler:
  assumes "resolves_snapshots sv env" "load_run (na_runId na) e = Some st" "rs_workflowSnapshot st \<noteq> None" "found env na e rp"
  shows "wf_workflowErrorHandler (rp_workflow rp) = None"
  using assms rebuilt_has_no_handler
  by (fastforce simp: found_def resolve_persisted_workflow_def resolves_snapshots_def)

lemma silent_loaded:
  assumes "\<And>rp. found env na e rp \<Longrightarrow> en_errorNotices (snd (f rp e)) = en_errorNotices e"
  shows "en_errorNotices (snd (then_do (load_resumption env na) f e)) = en_errorNotices e"
proof -
  obtain r where r: "load_resumption env na e = (r, e)" "case r of Inl _ \<Rightarrow> True | Inr rp \<Rightarrow> found env na e rp"
    using load_resumption_wp [of env na e] unfolding wp_def by (metis prod.collapse)
  thus ?thesis using assms by (cases r) (simp_all add: then_do_def)
qed

lemma silentD: "silent m \<Longrightarrow> en_errorNotices (snd (m e)) = en_errorNotices e"
  by (simp add: silent_def keeps_def)

lemma persisted_result_silent:
  assumes "\<And>rp. found env na e rp \<Longrightarrow> wf_workflowErrorHandler (rp_workflow rp) = None"
  shows "en_errorNotices (snd (resume_from_node_result env na outs e)) = en_errorNotices e"
  unfolding resume_from_node_result_def Let_def
  by (rule silent_loaded, rule silentD)
     (auto split: option.split hitl_resolution.split intro!: silent_then silent_if silent_intros silent_continue silent_queue simp: assms)

lemma silent_fail: "wf_workflowErrorHandler (rp_workflow rp) = None \<Longrightarrow> silent (fail_run env na rp err)"
  unfolding fail_run_def Let_def by (intro silent_then silent_intros silent_finish silent_notify)

lemma silent_webhook:
  "wf_workflowErrorHandler (rp_workflow rp) = None \<Longrightarrow> silent (resume_from_webhook_control env na rp signal)"
  unfolding resume_from_webhook_control_def respond_now_def Let_def
  by (intro silent_then silent_if silent_intros silent_continue silent_queue silent_finish silent_answer silent_announce; simp)

lemma lift_stays: "(\<And>x. Q (snd (f x s))) \<Longrightarrow> Q s \<Longrightarrow> Q (snd (then_do (lift_result r) f s))"
  by (cases r) (simp_all add: then_do_def lift_result_def)

lemma persisted_error_silent:
  assumes "\<And>rp. found env na e rp \<Longrightarrow> wf_workflowErrorHandler (rp_workflow rp) = None"
  shows "en_errorNotices (snd (resume_from_node_error env na thrown e)) = en_errorNotices e"
  unfolding resume_from_node_error_def
proof (rule silent_loaded)
  fix rp
  assume rp: "found env na e rp"
  note none = assms [OF rp]
  let ?Q = "\<lambda>e'. en_errorNotices e' = en_errorNotices e"
  have fail: "?Q (snd (fail_run env na rp err e'))" if "?Q e'" for err e'
    using silentD [OF silent_fail [OF none]] that by simp
  have webhook: "?Q (snd (resume_from_webhook_control env na rp signal e))" for signal
    by (rule silentD [OF silent_webhook [OF none]])
  have recover: "?Q (snd (recover_node env na rp d h err e))" for d h err
    unfolding recover_node_def Let_def
    by (rule lift_stays, rule lift_stays) (simp_all add: persisted_result_silent [OF assms])
  have caught: "?Q (snd (catch_do (recover_node env na rp d h err) (\<lambda>_. fail_run env na rp err) e))" for d h err
    using recover [of d h err] fail by (cases "recover_node env na rp d h err e") (auto simp: catch_do_def split: sum.split)
  have handled: "?Q (snd (then_do (lift_result r) (\<lambda>handler.
      case handler of None \<Rightarrow> fail_run env na rp err | Some h \<Rightarrow>
        catch_do (recover_node env na rp d h err) (\<lambda>_. fail_run env na rp err)) e))" for r d err
    by (rule lift_stays) (simp_all add: fail caught split: option.split)
  show "?Q (snd ((case webhook_signal_of rp (na_nodeId na) thrown of
        Some signal \<Rightarrow> resume_from_webhook_control env na rp signal
      | None \<Rightarrow>
          (case jget (tp_defsById (topology_of (rp_workflow rp))) (na_nodeId na) of
             Some d \<Rightarrow>
               if nd_kind d \<noteq> NodeKind then fail_run env na rp (te_error thrown)
               else then_do (lift_result (resolve_node_error_handler (ce_inlineNodeHandler env) (ce_tokenNodeHandler env)
                        (nc_nodeErrorHandler (nd_config d)))) (\<lambda>handler.
                      case handler of
                        None \<Rightarrow> fail_run env na rp (te_error thrown)
                      | Some h \<Rightarrow>
                          catch_do (recover_node env na rp d h (te_error thrown)) (\<lambda>_. fail_run env na rp (te_error thrown)))
           | None \<Rightarrow> fail_run env na rp (te_error thrown))) e))"
    using webhook fail handled by (simp split: option.split)
qed

text \<open>
  The error handler of a workflow is not called for a stored run: every run is started with a snapshot, and when the
  workflow of such a run is found through it, no outcome of any node, no result and no error, reaches the handler, even if
  the workflow declares one and its snapshot says so.
\<close>

theorem persisted_runs_never_notify:
  assumes "resolves_snapshots sv env" "load_run (na_runId na) e = Some st" "rs_workflowSnapshot st \<noteq> None"
  shows "en_errorNotices (snd (resume_from_node_error env na thrown e)) = en_errorNotices e
    \<and> en_errorNotices (snd (resume_from_node_result env na outs e)) = en_errorNotices e"
  using persisted_error_silent persisted_result_silent persisted_no_handler [OF assms] by blast

definition sample_handled_pair :: workflow where
  "sample_handled_pair = sample_pair\<lparr>wf_workflowErrorHandler := Some (InlineHandler 1)\<rparr>"

definition sample_resolving :: continuation_env where
  "sample_resolving = (sample_continuation sample_handled_pair)\<lparr>ce_resolveWorkflow :=
     (\<lambda>wid snap. case resolve_workflow (sample_snapshots (Some sample_handled_pair)) wid snap of Inr w \<Rightarrow> w | Inl _ \<Rightarrow> None)\<rparr>"

definition sample_stored :: engine where
  "sample_stored = sample_host (sample_waiting\<lparr>rs_workflowSnapshot :=
     Some (create_snapshot (sample_snapshots (Some sample_handled_pair)) sample_handled_pair)\<rparr>)"

lemma persisted_runs_never_notify_witness:
  "en_errorNotices (snd (resume_from_node_error sample_resolving sample_args
     \<lparr>te_error = plain_error ''boom'', te_webhookControl = False, te_kind = [], te_responseItems = None, te_continueItems = None\<rparr>
     sample_stored)) = []"
proof -
  have "resolves_snapshots (sample_snapshots (Some sample_handled_pair)) sample_resolving"
    by (auto simp: resolves_snapshots_def sample_resolving_def split: sum.splits)
  moreover have "load_run (na_runId sample_args) sample_stored = Some (sample_waiting\<lparr>rs_workflowSnapshot :=
     Some (create_snapshot (sample_snapshots (Some sample_handled_pair)) sample_handled_pair)\<rparr>)"
    by (simp add: sample_stored_def)
  moreover have "en_errorNotices sample_stored = []" by (simp add: sample_stored_def sample_host_def sample_engine_def)
  ultimately show ?thesis using persisted_runs_never_notify by fastforce
qed

end
