(* ===== verification/Polling.thy ===== *)
theory Polling
  imports Repository Sample
begin

text \<open>
  \<open>triggers/polling/PollingTriggerRuntime.ts\<close>, \<open>PollingTriggerDedupWindow.ts\<close> and the polling part of
  \<open>orchestration/TriggerRuntimeService.ts\<close>.  A poll runs between two synchronous stretches of code, so other code
  of the engine may run while it is under way: the runtime is a state machine whose labels are the calls and
  the events from outside.  What a poll finds is an arbitrary function of the time and of the state stored for the
  trigger.  The messages of the polling logger are left out.
\<close>

section \<open>State\<close>

record trigger_id =
  ti_workflowId :: workflow_id
  ti_nodeId :: node_id

definition trigger_key :: "trigger_id \<Rightarrow> string" where
  "trigger_key t = ti_workflowId t @ '':'' @ ti_nodeId t"

text \<open>What is stored for a trigger; a state that is \<open>undefined\<close> is \<open>None\<close>.\<close>

record setup_state =
  st_updatedAt :: iso_time
  st_state :: "jsval option"

record poll_start =
  po_trigger :: trigger_id
  po_workflow :: workflow
  po_intervalMs :: rat
  po_seedState :: "jsval option"
  po_runCycle :: "nat \<Rightarrow> jsval option \<Rightarrow> js_error + (items \<times> jsval option)"

datatype cleanup_handle = PollingCleanup trigger_id | NodeCleanup nat

datatype diagnostic = InfoMessage string | WarnMessage string

text \<open>
  The state of the two services: the setup states of the repository, the triggers with a loop, their intervals and the
  triggers whose poll is under way (\<open>activeTriggers\<close>, \<open>intervalsByTrigger\<close>, \<open>busyTriggers\<close>), the timers of the
  event loop, the handles to be stopped with a trigger (\<open>triggerCleanupHandlesByKey\<close>), and what the services have
  done outside: the runs they asked for, the handles of nodes they stopped and the messages they gave.
\<close>

record trigger_host =
  tg_setupStates :: "(trigger_id, setup_state) jmap"
  tg_active :: "string list"
  tg_intervals :: "(string, nat) jmap"
  tg_busy :: "string list"
  tg_timers :: "(nat \<times> poll_start \<times> rat) list"
  tg_nextTimer :: nat
  tg_handles :: "(string, cleanup_handle list) jmap"
  tg_clock :: nat
  tg_emitted :: "(workflow \<times> node_id \<times> items) list"
  tg_stopped :: "nat list"
  tg_diagnostics :: "diagnostic list"

definition idle_host :: trigger_host where
  "idle_host =
    \<lparr>tg_setupStates = [], tg_active = [], tg_intervals = [], tg_busy = [], tg_timers = [], tg_nextTimer = 0, tg_handles = [],
     tg_clock = 0, tg_emitted = [], tg_stopped = [], tg_diagnostics = []\<rparr>"

type_synonym 'a trigger_action = "(js_error, 'a, trigger_host) action"

text \<open>The time stamps, what becomes of a run that is asked for, and the handles nodes register.\<close>

record polling_env =
  pv_clk :: "nat \<Rightarrow> iso_time"
  pv_emit :: "workflow \<Rightarrow> node_id \<Rightarrow> items \<Rightarrow> nat \<Rightarrow> js_error option"
  pv_stopHandle :: "nat \<Rightarrow> js_error option"

definition tick_do :: "nat trigger_action" where
  "tick_do h = (Inr (tg_clock h), h\<lparr>tg_clock := Suc (tg_clock h)\<rparr>)"

definition emit_items :: "polling_env \<Rightarrow> workflow \<Rightarrow> node_id \<Rightarrow> items \<Rightarrow> unit trigger_action" where
  "emit_items env w n its =
    then_do tick_do (\<lambda>now.
      after_do (update_do (\<lambda>h. h\<lparr>tg_emitted := tg_emitted h @ [(w, n, its)]\<rparr>))
        (case pv_emit env w n its now of None \<Rightarrow> return_do () | Some e \<Rightarrow> throw_do e))"

definition save_setup :: "polling_env \<Rightarrow> trigger_id \<Rightarrow> jsval option \<Rightarrow> unit trigger_action" where
  "save_setup env t s =
    then_do tick_do (\<lambda>now. update_do (\<lambda>h. h\<lparr>tg_setupStates :=
      jset t \<lparr>st_updatedAt = pv_clk env now, st_state = s\<rparr> (tg_setupStates h)\<rparr>))"

section \<open>A poll\<close>

text \<open>The overlap guard: the poll may begin if none of the trigger is under way.\<close>

definition begin_cycle :: "poll_start \<Rightarrow> trigger_host \<Rightarrow> bool \<times> trigger_host" where
  "begin_cycle p h =
    (let k = trigger_key (po_trigger p)
     in if k \<in> set (tg_busy h) then (False, h) else (True, h\<lparr>tg_busy := tg_busy h @ [k]\<rparr>))"

definition cycle_body :: "polling_env \<Rightarrow> poll_start \<Rightarrow> jsval option \<Rightarrow> (jsval option) trigger_action" where
  "cycle_body env p seed =
    then_do (gets_do (\<lambda>h. jget (tg_setupStates h) (po_trigger p))) (\<lambda>loaded.
      let previous = (case loaded of Some s \<Rightarrow> st_state s | None \<Rightarrow> seed)
      in then_do tick_do (\<lambda>now.
         then_do (lift_result (po_runCycle p now previous)) (\<lambda>(its, nextState).
           after_do (save_setup env (po_trigger p) nextState)
             (after_do (if its = [] then return_do () else emit_items env (po_workflow p) (ti_nodeId (po_trigger p)) its)
               (return_do nextState)))))"

definition end_cycle :: "poll_start \<Rightarrow> trigger_host \<Rightarrow> trigger_host" where
  "end_cycle p h = h\<lparr>tg_busy := removeAll (trigger_key (po_trigger p)) (tg_busy h)\<rparr>"

text \<open>The whole of \<open>runCycle\<close>, when nothing else runs meanwhile.\<close>

definition run_cycle :: "polling_env \<Rightarrow> poll_start \<Rightarrow> jsval option \<Rightarrow> (jsval option) trigger_action" where
  "run_cycle env p seed h =
    (case begin_cycle p h of
       (False, h1) \<Rightarrow> (Inr None, h1)
     | (True, h1) \<Rightarrow> (case cycle_body env p seed h1 of (r, h2) \<Rightarrow> (r, end_cycle p h2)))"

section \<open>Loops\<close>

definition ensure_loop :: "poll_start \<Rightarrow> trigger_host \<Rightarrow> trigger_host" where
  "ensure_loop p h =
    (let k = trigger_key (po_trigger p); n = tg_nextTimer h
     in if k \<in> set (tg_active h) then h
        else h\<lparr>tg_active := tg_active h @ [k], tg_timers := tg_timers h @ [(n, p, max (po_intervalMs p) 25)],
               tg_intervals := jset k n (tg_intervals h), tg_nextTimer := Suc n\<rparr>)"

text \<open>An error of the first poll is logged; the loop is started all the same.\<close>

definition start_polling :: "polling_env \<Rightarrow> poll_start \<Rightarrow> (jsval option) trigger_action" where
  "start_polling env p =
    then_do (catch_do (run_cycle env p (po_seedState p)) (\<lambda>_. return_do None)) (\<lambda>first.
      after_do (update_do (ensure_loop p)) (return_do first))"

definition stop_polling :: "trigger_id \<Rightarrow> trigger_host \<Rightarrow> trigger_host" where
  "stop_polling t h =
    (let k = trigger_key t;
         h1 = (case jget (tg_intervals h) k of
                 None \<Rightarrow> h
               | Some n \<Rightarrow> h\<lparr>tg_timers := filter (\<lambda>(m, _). m \<noteq> n) (tg_timers h), tg_intervals := jremove k (tg_intervals h)\<rparr>)
     in h1\<lparr>tg_busy := removeAll k (tg_busy h1), tg_active := removeAll k (tg_active h1)\<rparr>)"

section \<open>Handles of a trigger\<close>

definition register_cleanup :: "trigger_id \<Rightarrow> cleanup_handle \<Rightarrow> trigger_host \<Rightarrow> trigger_host" where
  "register_cleanup t c h = h\<lparr>tg_handles := jpush (trigger_key t) c (tg_handles h)\<rparr>"

fun stop_handle :: "polling_env \<Rightarrow> cleanup_handle \<Rightarrow> unit trigger_action" where
  "stop_handle env (PollingCleanup t) = update_do (stop_polling t)"
| "stop_handle env (NodeCleanup n) =
    after_do (update_do (\<lambda>h. h\<lparr>tg_stopped := tg_stopped h @ [n]\<rparr>))
      (case pv_stopHandle env n of None \<Rightarrow> return_do () | Some e \<Rightarrow> throw_do e)"

primrec each_do :: "('a \<Rightarrow> unit trigger_action) \<Rightarrow> 'a list \<Rightarrow> unit trigger_action" where
  "each_do f [] = return_do ()"
| "each_do f (x # xs) = after_do (f x) (each_do f xs)"

text \<open>The handles are forgotten first and then stopped, the last one registered first.\<close>

definition stop_trigger :: "polling_env \<Rightarrow> trigger_id \<Rightarrow> unit trigger_action" where
  "stop_trigger env t =
    then_do (gets_do (\<lambda>h. jget_list (tg_handles h) (trigger_key t))) (\<lambda>cleanups.
      after_do (update_do (\<lambda>h. h\<lparr>tg_handles := jremove (trigger_key t) (tg_handles h)\<rparr>))
        (each_do (stop_handle env) (rev cleanups)))"

text \<open>\<open>start\<close> of the polling handle a node is given.\<close>

definition polling_handle_start :: "polling_env \<Rightarrow> poll_start \<Rightarrow> (jsval option) trigger_action" where
  "polling_handle_start env p =
    after_do (update_do (register_cleanup (po_trigger p) (PollingCleanup (po_trigger p)))) (start_polling env p)"

section \<open>The machine\<close>

text \<open>
  The polls under way are those begun and not ended, with whether they are the first of a \<open>start\<close>.  The work of a poll
  is done when it ends.
\<close>

record polling_run =
  pr_host :: trigger_host
  pr_cycles :: "(poll_start \<times> bool) list"

datatype polling_label =
    StartCalled poll_start
  | TimerFired nat
  | CycleEnded poll_start
  | TriggerStopped trigger_id

inductive polling_step :: "polling_env \<Rightarrow> polling_run \<Rightarrow> polling_label \<Rightarrow> polling_run \<Rightarrow> bool" for env where
  call_start: "begin_cycle p (register_cleanup (po_trigger p) (PollingCleanup (po_trigger p)) (pr_host R)) = (True, h) \<Longrightarrow>
    polling_step env R (StartCalled p) \<lparr>pr_host = h, pr_cycles = pr_cycles R @ [(p, True)]\<rparr>"
| call_start_busy: "begin_cycle p (register_cleanup (po_trigger p) (PollingCleanup (po_trigger p)) (pr_host R)) = (False, h) \<Longrightarrow>
    polling_step env R (StartCalled p) \<lparr>pr_host = ensure_loop p h, pr_cycles = pr_cycles R\<rparr>"
| fire: "(n, p, ms) \<in> set (tg_timers (pr_host R)) \<Longrightarrow> begin_cycle p (pr_host R) = (True, h) \<Longrightarrow>
    polling_step env R (TimerFired n) \<lparr>pr_host = h, pr_cycles = pr_cycles R @ [(p, False)]\<rparr>"
| fire_busy: "(n, p, ms) \<in> set (tg_timers (pr_host R)) \<Longrightarrow> begin_cycle p (pr_host R) = (False, h) \<Longrightarrow>
    polling_step env R (TimerFired n) (R\<lparr>pr_host := h\<rparr>)"
| end_first: "pr_cycles R = cs @ (p, True) # ds \<Longrightarrow> cycle_body env p (po_seedState p) (pr_host R) = (r, h) \<Longrightarrow>
    polling_step env R (CycleEnded p) \<lparr>pr_host = ensure_loop p (end_cycle p h), pr_cycles = cs @ ds\<rparr>"
| end_later: "pr_cycles R = cs @ (p, False) # ds \<Longrightarrow> cycle_body env p None (pr_host R) = (r, h) \<Longrightarrow>
    polling_step env R (CycleEnded p) \<lparr>pr_host = end_cycle p h, pr_cycles = cs @ ds\<rparr>"
| stop: "stop_trigger env t (pr_host R) = (r, h) \<Longrightarrow> polling_step env R (TriggerStopped t) (R\<lparr>pr_host := h\<rparr>)"

inductive polling_trace :: "polling_env \<Rightarrow> polling_label list \<Rightarrow> polling_run \<Rightarrow> bool" for env where
  start: "polling_trace env [] \<lparr>pr_host = idle_host, pr_cycles = []\<rparr>"
| step: "polling_trace env ls R \<Longrightarrow> polling_step env R l R' \<Longrightarrow> polling_trace env (ls @ [l]) R'"

section \<open>Timers\<close>

text \<open>Every timer is the interval of its trigger and every interval has a timer.\<close>

definition timers_ok :: "trigger_host \<Rightarrow> bool" where
  "timers_ok h =
    (distinct (map fst (tg_timers h))
     \<and> (\<forall>(n, p, ms) \<in> set (tg_timers h). jget (tg_intervals h) (trigger_key (po_trigger p)) = Some n \<and> n < tg_nextTimer h)
     \<and> (\<forall>k n. jget (tg_intervals h) k = Some n \<longrightarrow> (\<exists>p ms. (n, p, ms) \<in> set (tg_timers h) \<and> trigger_key (po_trigger p) = k))
     \<and> (\<forall>k. k \<in> set (tg_active h) \<longleftrightarrow> jhas (tg_intervals h) k))"

definition same_loops :: "trigger_host \<Rightarrow> trigger_host \<Rightarrow> bool" where
  "same_loops h h' =
    (tg_timers h' = tg_timers h \<and> tg_intervals h' = tg_intervals h \<and> tg_active h' = tg_active h
     \<and> tg_nextTimer h' = tg_nextTimer h)"

lemma same_loops_ok: "same_loops h h' \<Longrightarrow> timers_ok h \<Longrightarrow> timers_ok h'"
  by (simp add: same_loops_def timers_ok_def)

lemma cycle_body_frame:
  "wp (cycle_body env p seed) (\<lambda>_ h'. same_loops h h' \<and> tg_busy h' = tg_busy h \<and> tg_handles h' = tg_handles h
     \<and> tg_stopped h' = tg_stopped h \<and> tg_diagnostics h' = tg_diagnostics h) h"
  unfolding cycle_body_def emit_items_def save_setup_def tick_do_def [abs_def] Let_def
  by (auto simp: wp_def then_do_def gets_do_def lift_result_def update_do_def return_do_def throw_do_def same_loops_def
      split: sum.split prod.split option.split)

lemma begin_cycle_loops: "begin_cycle p h = (b, h') \<Longrightarrow> same_loops h h'"
  by (auto simp: begin_cycle_def Let_def same_loops_def split: if_splits)

lemma ensure_loop_ok: "timers_ok h \<Longrightarrow> timers_ok (ensure_loop p h)"
proof (cases "trigger_key (po_trigger p) \<in> set (tg_active h)")
  case False
  assume ok: "timers_ok h"
  let ?k = "trigger_key (po_trigger p)" and ?n = "tg_nextTimer h"
  have none: "jget (tg_intervals h) ?k = None" using ok False by (auto simp: timers_ok_def jhas_def)
  have fresh: "?n \<notin> fst ` set (tg_timers h)" using ok by (fastforce simp: timers_ok_def)
  have "jget (tg_intervals h) (trigger_key (po_trigger q)) = Some m \<and> m < ?n \<and> trigger_key (po_trigger q) \<noteq> ?k"
    if "(m, q, ms) \<in> set (tg_timers h)" for m q ms
    using ok that none by (fastforce simp: timers_ok_def)
  thus ?thesis using ok False fresh
    by (auto simp: timers_ok_def ensure_loop_def Let_def) (metis less_SucI)+
qed (simp add: ensure_loop_def)

lemma stop_polling_ok: "timers_ok h \<Longrightarrow> timers_ok (stop_polling t h)"
proof (cases "jget (tg_intervals h) (trigger_key t)")
  case None
  assume "timers_ok h"
  thus ?thesis using None by (auto simp: timers_ok_def stop_polling_def Let_def jhas_def)
next
  case (Some n)
  assume ok: "timers_ok h"
  let ?k = "trigger_key t"
  have sel: "tg_timers (stop_polling t h) = filter (\<lambda>(m, _). m \<noteq> n) (tg_timers h)"
    "tg_intervals (stop_polling t h) = jremove ?k (tg_intervals h)"
    "tg_active (stop_polling t h) = removeAll ?k (tg_active h)" "tg_nextTimer (stop_polling t h) = tg_nextTimer h"
    by (simp_all add: stop_polling_def Let_def Some)
  have dist: "distinct (map fst (tg_timers h))" using ok by (simp add: timers_ok_def)
  have key: "jget (tg_intervals h) (trigger_key (po_trigger q)) = Some m \<and> m < tg_nextTimer h" if "(m, q, ms) \<in> set (tg_timers h)" for m q ms
    using ok that by (fastforce simp: timers_ok_def)
  have timer: "\<exists>q ms. (m, q, ms) \<in> set (tg_timers h) \<and> trigger_key (po_trigger q) = k" if "jget (tg_intervals h) k = Some m" for k m
    using ok that by (simp add: timers_ok_def)
  have other: "m \<noteq> n" if m: "jget (tg_intervals h) k = Some m" "k \<noteq> ?k" for k m
    using timer [OF m(1)] timer [OF Some] m(2) eq_key_imp_eq_value [OF dist] by force
  show ?thesis
    unfolding timers_ok_def sel
  proof (intro conjI allI impI ballI)
    show "distinct (map fst (filter (\<lambda>(m, _). m \<noteq> n) (tg_timers h)))" using dist by (rule distinct_map_filter)
    show "k \<in> set (removeAll ?k (tg_active h)) \<longleftrightarrow> jhas (jremove ?k (tg_intervals h)) k" for k
      using ok by (simp add: timers_ok_def) blast
    show "\<exists>p ms. (m, p, ms) \<in> set (filter (\<lambda>(m, _). m \<noteq> n) (tg_timers h)) \<and> trigger_key (po_trigger p) = k"
      if "jget (jremove ?k (tg_intervals h)) k = Some m" for k m
      using that timer [of k m] other [of k m] by (auto split: if_splits)
    show "case x of (m, q, ms) \<Rightarrow> jget (jremove ?k (tg_intervals h)) (trigger_key (po_trigger q)) = Some m \<and> m < tg_nextTimer h"
      if "x \<in> set (filter (\<lambda>(m, _). m \<noteq> n) (tg_timers h))" for x
      using that Some key by (cases x rule: prod_cases3) fastforce
  qed
qed

text \<open>Handles are kept under the key of the trigger they stop.\<close>

definition handles_ok :: "trigger_host \<Rightarrow> bool" where
  "handles_ok h = (\<forall>k. \<forall>c \<in> set (jget_list (tg_handles h) k). case c of PollingCleanup t \<Rightarrow> trigger_key t = k | NodeCleanup _ \<Rightarrow> True)"

lemma each_handle_keeps:
  assumes "\<And>t h. PollingCleanup t \<in> set cs \<Longrightarrow> I h \<Longrightarrow> I (stop_polling t h)" "\<And>h ns. I h \<Longrightarrow> I (h\<lparr>tg_stopped := ns\<rparr>)"
  shows "keeps I (each_do (stop_handle env) cs)"
  using assms
proof (induction cs)
  case (Cons c cs)
  have "keeps I (stop_handle env c)"
    using Cons.prems by (cases c) (auto intro!: keeps_intros keeps_update)
  thus ?case using Cons by (auto intro: keeps_intros)
qed (simp add: keeps_return)

lemma stop_trigger_keeps:
  assumes "\<And>t' h. trigger_key t' = trigger_key t \<Longrightarrow> I h \<Longrightarrow> I (stop_polling t' h)" "\<And>h ns. I h \<Longrightarrow> I (h\<lparr>tg_stopped := ns\<rparr>)"
    and "I (h\<lparr>tg_handles := jremove (trigger_key t) (tg_handles h)\<rparr>)" "handles_ok h"
  shows "wp (stop_trigger env t) (\<lambda>_ h'. I h') h"
proof -
  have "keeps I (each_do (stop_handle env) (rev (jget_list (tg_handles h) (trigger_key t))))"
    by (rule each_handle_keeps) (use assms(1,2,4) in \<open>force simp: handles_ok_def split: cleanup_handle.splits\<close>)+
  thus ?thesis using assms(3) by (simp add: stop_trigger_def wp_simps keeps_iff_wp wp_then)
qed

lemma host_updates [simp]:
  "timers_ok (h\<lparr>tg_stopped := ns\<rparr>) = timers_ok h" "timers_ok (h\<lparr>tg_handles := m\<rparr>) = timers_ok h" "timers_ok (h\<lparr>tg_busy := b\<rparr>) = timers_ok h"
  "handles_ok (h\<lparr>tg_stopped := ns\<rparr>) = handles_ok h" "handles_ok (h\<lparr>tg_busy := b\<rparr>) = handles_ok h"
  by (simp_all add: timers_ok_def handles_ok_def)

lemma handles_ok_stop [simp]: "handles_ok (stop_polling t h) = handles_ok h"
  by (simp add: handles_ok_def stop_polling_def Let_def split: option.split)

lemma handles_ok_remove: "handles_ok h \<Longrightarrow> handles_ok (h\<lparr>tg_handles := jremove k (tg_handles h)\<rparr>)"
  by (simp add: handles_ok_def)

lemma handles_ok_register: "handles_ok h \<Longrightarrow> handles_ok (register_cleanup t (PollingCleanup t) h)"
  by (auto simp: handles_ok_def register_cleanup_def jpush_def)

lemma handles_ok_loop [simp]: "handles_ok (ensure_loop p h) = handles_ok h"
  by (simp add: handles_ok_def ensure_loop_def Let_def)

lemma handles_same: "tg_handles h' = tg_handles h \<Longrightarrow> handles_ok h' = handles_ok h"
  by (simp add: handles_ok_def)

section \<open>Polls do not overlap\<close>

definition in_flight :: "string \<Rightarrow> polling_run \<Rightarrow> nat" where
  "in_flight k R = length (filter (\<lambda>(p, _). trigger_key (po_trigger p) = k) (pr_cycles R))"

definition guarded :: "string \<Rightarrow> polling_run \<Rightarrow> bool" where
  "guarded k R = (in_flight k R = (if k \<in> set (tg_busy (pr_host R)) then 1 else 0))"

definition stops_key :: "string \<Rightarrow> polling_label \<Rightarrow> bool" where
  "stops_key k l = (\<exists>t. l = TriggerStopped t \<and> trigger_key t = k)"

lemma begin_cycle_busy:
  "begin_cycle p h = (b, h') \<Longrightarrow> tg_handles h' = tg_handles h \<and> b = (trigger_key (po_trigger p) \<notin> set (tg_busy h))
     \<and> set (tg_busy h') = insert (trigger_key (po_trigger p)) (set (tg_busy h))"
  by (auto simp: begin_cycle_def Let_def split: if_splits)

lemma ensure_loop_busy [simp]: "tg_busy (ensure_loop p h) = tg_busy h"
  by (simp add: ensure_loop_def Let_def)

lemma stop_polling_busy: "trigger_key t \<noteq> k \<Longrightarrow> k \<in> set (tg_busy (stop_polling t h)) \<longleftrightarrow> k \<in> set (tg_busy h)"
  by (simp add: stop_polling_def Let_def split: option.split)

lemma stop_trigger_busy:
  assumes "stop_trigger env t h = (r, h')" "handles_ok h" "trigger_key t \<noteq> k"
  shows "k \<in> set (tg_busy h') \<longleftrightarrow> k \<in> set (tg_busy h)"
proof -
  have "wp (stop_trigger env t) (\<lambda>_ h'. k \<in> set (tg_busy h') \<longleftrightarrow> k \<in> set (tg_busy h)) h"
    by (rule stop_trigger_keeps [OF _ _ _ assms(2)]) (use assms(3) stop_polling_busy in auto)
  thus ?thesis using assms(1) by (rule wp_result)
qed

lemma stop_trigger_ok:
  assumes "stop_trigger env t h = (r, h')" "handles_ok h" "timers_ok h"
  shows "timers_ok h'" "handles_ok h'"
proof -
  have "wp (stop_trigger env t) (\<lambda>_ h'. timers_ok h' \<and> handles_ok h') h"
    by (rule stop_trigger_keeps [OF _ _ _ assms(2)]) (use assms(2,3) stop_polling_ok handles_ok_remove in auto)
  thus "timers_ok h'" "handles_ok h'" using assms(1) wp_result by fastforce+
qed

lemma body_facts:
  assumes "cycle_body env p seed h = (r, h')"
  shows "same_loops h h'" "tg_busy h' = tg_busy h" "tg_handles h' = tg_handles h"
  using wp_result [OF cycle_body_frame assms] by auto

lemma register_ok [simp]: "timers_ok (register_cleanup t c h) = timers_ok h"
  by (simp add: register_cleanup_def)

lemma begun: "begin_cycle p h = (b, h') \<Longrightarrow> timers_ok h \<Longrightarrow> handles_ok h \<Longrightarrow> timers_ok h' \<and> handles_ok h'"
  using begin_cycle_busy [of p h b h'] begin_cycle_loops [of p h b h'] same_loops_ok handles_same by blast

lemma ended:
  assumes "cycle_body env p seed h = (r, h')" "timers_ok h" "handles_ok h"
  shows "timers_ok (end_cycle p h') \<and> handles_ok (end_cycle p h')"
  using same_loops_ok [OF body_facts(1) [OF assms(1)] assms(2)] handles_same [OF body_facts(3) [OF assms(1)]] assms(3)
  by (simp add: end_cycle_def)

lemma polling_step_ok:
  assumes "polling_step env R l R'" "timers_ok (pr_host R)" "handles_ok (pr_host R)"
  shows "timers_ok (pr_host R') \<and> handles_ok (pr_host R')"
  using assms
proof cases
  case (call_start p h)
  have "timers_ok h \<and> handles_ok h"
    using begun [OF call_start(3)] assms(2,3) handles_ok_register by (simp add: register_ok)
  thus ?thesis using call_start(2) by simp
next
  case (call_start_busy p h)
  have "timers_ok h \<and> handles_ok h"
    using begun [OF call_start_busy(3)] assms(2,3) handles_ok_register by (simp add: register_ok)
  thus ?thesis using call_start_busy(2) ensure_loop_ok by simp
next
  case (fire n p ms h)
  thus ?thesis using begun [OF fire(4)] assms(2,3) by simp
next
  case (fire_busy n p ms h)
  thus ?thesis using assms(2,3) by (auto simp: begin_cycle_def Let_def split: if_splits)
next
  case (end_first cs p ds r h)
  have "timers_ok (end_cycle p h) \<and> handles_ok (end_cycle p h)" by (rule ended [OF end_first(4) assms(2,3)])
  thus ?thesis using end_first(2) ensure_loop_ok by simp
next
  case (end_later cs p ds r h)
  have "timers_ok (end_cycle p h) \<and> handles_ok (end_cycle p h)" by (rule ended [OF end_later(4) assms(2,3)])
  thus ?thesis using end_later(2) by simp
next
  case (stop t r h)
  thus ?thesis using assms(2,3) stop_trigger_ok by auto
qed

lemma polling_step_guarded:
  assumes "polling_step env R l R'" "guarded k R" "handles_ok (pr_host R)" "\<not> stops_key k l"
  shows "guarded k R'"
  using assms(1)
proof cases
  case (call_start p h)
  thus ?thesis using assms(2) begin_cycle_busy [OF call_start(3)] by (auto simp: guarded_def in_flight_def register_cleanup_def)
next
  case (call_start_busy p h)
  thus ?thesis using assms(2) begin_cycle_busy [OF call_start_busy(3)]
    by (auto simp: guarded_def in_flight_def register_cleanup_def insert_absorb)
next
  case (fire n p ms h)
  thus ?thesis using assms(2) begin_cycle_busy [OF fire(4)] by (auto simp: guarded_def in_flight_def)
next
  case (fire_busy n p ms h)
  thus ?thesis using assms(2) begin_cycle_busy [OF fire_busy(4)] by (auto simp: guarded_def in_flight_def insert_absorb)
next
  case (end_first cs p ds r h)
  thus ?thesis using assms(2) body_facts [OF end_first(4)] by (auto simp: guarded_def in_flight_def end_cycle_def split: if_splits)
next
  case (end_later cs p ds r h)
  thus ?thesis using assms(2) body_facts [OF end_later(4)] by (auto simp: guarded_def in_flight_def end_cycle_def split: if_splits)
next
  case (stop t r h)
  thus ?thesis using assms(2-4) stop_trigger_busy by (auto simp: guarded_def in_flight_def stops_key_def)
qed

lemma polling_trace_ok:
  "polling_trace env ls R \<Longrightarrow> timers_ok (pr_host R) \<and> handles_ok (pr_host R) \<and>
     (\<forall>k. (\<forall>l \<in> set ls. \<not> stops_key k l) \<longrightarrow> guarded k R)"
proof (induction rule: polling_trace.induct)
  case start
  thus ?case by (simp add: timers_ok_def handles_ok_def guarded_def in_flight_def idle_host_def jhas_def)
next
  case (step ls R l R')
  thus ?case using polling_step_ok [OF step(2)] polling_step_guarded [OF step(2)] by auto
qed

text \<open>
  C31. In every state the polling runtime reaches, however calls, timers, polls and stops interleave, a trigger has at most
  one timer, and it has one exactly when it counts as active; and as long as a trigger has not been stopped, at most one
  of its polls is under way.
\<close>

theorem one_timer_one_poll:
  assumes "polling_trace env ls R"
  shows "length (filter (\<lambda>(n, p, ms). trigger_key (po_trigger p) = k) (tg_timers (pr_host R)))
      = (if k \<in> set (tg_active (pr_host R)) then 1 else 0)
    \<and> ((\<forall>l \<in> set ls. \<not> stops_key k l) \<longrightarrow> in_flight k R \<le> 1)"
proof -
  let ?h = "pr_host R" and ?of = "\<lambda>(n, p, ms). trigger_key (po_trigger p) = k"
  let ?ts = "filter ?of (tg_timers ?h)"
  have ok: "timers_ok ?h" and g: "(\<forall>l \<in> set ls. \<not> stops_key k l) \<Longrightarrow> guarded k R"
    using polling_trace_ok [OF assms] by auto
  have d: "distinct (map fst ?ts)" using ok by (simp add: timers_ok_def distinct_map_filter)
  have same: "\<forall>x \<in> set ?ts. Some (fst x) = jget (tg_intervals ?h) k" using ok by (fastforce simp: timers_ok_def)
  have "length ?ts = (if k \<in> set (tg_active ?h) then 1 else 0)"
  proof (cases "k \<in> set (tg_active ?h)")
    case True
    then obtain n where n: "jget (tg_intervals ?h) k = Some n" using ok by (auto simp: timers_ok_def jhas_def)
    then obtain p ms where "(n, p, ms) \<in> set ?ts" using ok by (fastforce simp: timers_ok_def)
    moreover have "fst x = n" if "x \<in> set ?ts" for x using bspec [OF same that] n by simp
    hence "set (map fst ?ts) \<subseteq> {n}" unfolding set_map by blast
    ultimately have "set (map fst ?ts) = {n}" by force
    hence "length (map fst ?ts) = 1" using distinct_card [OF d] by simp
    thus ?thesis using True by simp
  next
    case False
    hence "jget (tg_intervals ?h) k = None" using ok by (auto simp: timers_ok_def jhas_def)
    hence "?ts = []" using same by (cases ?ts) auto
    thus ?thesis using False by simp
  qed
  thus ?thesis using g by (auto simp: guarded_def)
qed

definition sample_trigger :: trigger_id where
  "sample_trigger = \<lparr>ti_workflowId = ''wf'', ti_nodeId = ''t''\<rparr>"

definition sample_poll :: poll_start where
  "sample_poll = \<lparr>po_trigger = sample_trigger, po_workflow = sample_workflow, po_intervalMs = 10, po_seedState = None,
     po_runCycle = (\<lambda>_ _. Inr ([], None))\<rparr>"

definition sample_polling :: polling_env where
  "sample_polling = \<lparr>pv_clk = string_of_nat, pv_emit = (\<lambda>_ _ _ _. None), pv_stopHandle = (\<lambda>_. None)\<rparr>"

lemmas sample_polling_defs = sample_trigger_def sample_poll_def sample_polling_def trigger_key_def idle_host_def
  begin_cycle_def register_cleanup_def jpush_def

abbreviation "begun_poll \<equiv> \<lparr>pr_host = snd (begin_cycle sample_poll (register_cleanup sample_trigger (PollingCleanup sample_trigger) idle_host)),
  pr_cycles = [(sample_poll, True)]\<rparr>"

lemma sample_started: "polling_trace sample_polling [StartCalled sample_poll] begun_poll"
proof -
  have "polling_step sample_polling \<lparr>pr_host = idle_host, pr_cycles = []\<rparr> (StartCalled sample_poll) begun_poll"
    by (rule polling_step.call_start [of _ "\<lparr>pr_host = idle_host, pr_cycles = []\<rparr>", simplified])
       (simp add: sample_polling_defs)
  from polling_trace.step [OF polling_trace.start this] show ?thesis by simp
qed

lemma one_timer_one_poll_witness:
  "in_flight ''wf:t'' begun_poll \<le> 1 \<and> in_flight ''wf:t'' begun_poll = 1"
  using one_timer_one_poll [OF sample_started, of "''wf:t''"]
  by (simp add: stops_key_def in_flight_def sample_polling_defs)

text \<open>
  A trigger that is stopped while its first poll is under way gets its timer when that poll ends, and no handle is left
  that would stop it.
\<close>

lemma stop_during_first_poll_leaks:
  "\<exists>R. polling_trace sample_polling [StartCalled sample_poll, TriggerStopped sample_trigger, CycleEnded sample_poll] R
     \<and> tg_timers (pr_host R) = [(0, sample_poll, 25)] \<and> jget_list (tg_handles (pr_host R)) ''wf:t'' = []"
proof -
  define stopped where "stopped = \<lparr>pr_host = snd (stop_trigger sample_polling sample_trigger (pr_host begun_poll)), pr_cycles = [(sample_poll, True)]\<rparr>"
  have "polling_step sample_polling begun_poll (TriggerStopped sample_trigger) stopped"
    using polling_step.stop [of sample_polling sample_trigger begun_poll, OF prod.collapse [symmetric]] by (simp add: stopped_def)
  note t1 = polling_trace.step [OF sample_started this]
  define R where "R = \<lparr>pr_host = ensure_loop sample_poll (end_cycle sample_poll (snd (cycle_body sample_polling sample_poll None (pr_host stopped)))),
    pr_cycles = []\<rparr>"
  have "polling_step sample_polling stopped (CycleEnded sample_poll) R"
    using polling_step.end_first [of stopped "[]" sample_poll "[]" sample_polling, OF _ prod.collapse [symmetric]]
    by (simp add: stopped_def R_def sample_poll_def)
  note t2 = polling_trace.step [OF t1 this]
  have "tg_timers (pr_host R) = [(0, sample_poll, 25)] \<and> jget_list (tg_handles (pr_host R)) ''wf:t'' = []"
    by (simp add: R_def stopped_def ensure_loop_def end_cycle_def cycle_body_def stop_trigger_def stop_polling_def then_do_def
        gets_do_def update_do_def tick_do_def save_setup_def lift_result_def return_do_def sample_polling_defs Let_def)
  thus ?thesis using t2 by auto
qed

end
