(* ===== verification/Triggers.thy ===== *)
theory Triggers
  imports Polling Scheduling
begin

text \<open>
  \<open>orchestration/TriggerRuntimeService.ts\<close> and \<open>authoring/definePollingTrigger.types.ts\<close>: setting up the triggers of
  the workflows, stopping them, and triggers declared by a poll function.  The code of a trigger node is a program
  over what its setup context offers.  The execution context a node gets besides is left out, but for the limits it
  is made with, which may be misconfigured; the service's calls run one after the other here.
\<close>

section \<open>Trigger nodes\<close>

datatype setup_program =
    SetupReturn "jsval option"
  | SetupThrow js_error
  | RegisterCleanup nat setup_program
  | EmitItems items "js_error option \<Rightarrow> setup_program"
  | StartPolling rat "jsval option" "nat \<Rightarrow> jsval option \<Rightarrow> js_error + (items \<times> jsval option)" "jsval option \<Rightarrow> setup_program"

record trigger_node =
  tn_setup :: "trigger_id \<Rightarrow> node_config \<Rightarrow> jsval option \<Rightarrow> setup_program"
  tn_getTestItems :: "(trigger_id \<Rightarrow> node_config \<Rightarrow> jsval option \<Rightarrow> js_error + items) option"

record trigger_env = polling_env +
  tv_workflows :: "workflow list"
  tv_isActive :: "workflow_id \<Rightarrow> bool"
  tv_resolve :: "type_token \<Rightarrow> js_error + trigger_node"
  tv_limits :: limits_config

abbreviation polling_part :: "trigger_env \<Rightarrow> polling_env" where
  "polling_part env \<equiv> polling_env.truncate env"

definition trigger_of :: "workflow \<Rightarrow> node_def \<Rightarrow> trigger_id" where
  "trigger_of w d = \<lparr>ti_workflowId = wf_id w, ti_nodeId = nd_id d\<rparr>"

text \<open>Nodes the service sets up: triggers, but not those of test suites.\<close>

definition is_live_trigger :: "node_def \<Rightarrow> bool" where
  "is_live_trigger d = (nd_kind d = TriggerKind \<and> nc_triggerKind (nd_config d) \<noteq> Some TestTrigger)"

section \<open>Running the setup of a node\<close>

primrec run_setup :: "trigger_env \<Rightarrow> workflow \<Rightarrow> trigger_id \<Rightarrow> setup_program \<Rightarrow> (jsval option) trigger_action" where
  "run_setup env w t (SetupReturn s) = return_do s"
| "run_setup env w t (SetupThrow e) = throw_do e"
| "run_setup env w t (RegisterCleanup n p) = after_do (update_do (register_cleanup t (NodeCleanup n))) (run_setup env w t p)"
| "run_setup env w t (EmitItems its k) =
    then_do (catch_do (after_do (emit_items (polling_part env) w (ti_nodeId t) its) (return_do None)) (\<lambda>e. return_do (Some e)))
      (\<lambda>r. run_setup env w t (k r))"
| "run_setup env w t (StartPolling ms seed cycle k) =
    then_do (polling_handle_start (polling_part env)
        \<lparr>po_trigger = t, po_workflow = w, po_intervalMs = ms, po_seedState = seed, po_runCycle = cycle\<rparr>)
      (\<lambda>r. run_setup env w t (k r))"

definition log_info :: "string \<Rightarrow> unit trigger_action" where
  "log_info m = update_do (\<lambda>h. h\<lparr>tg_diagnostics := tg_diagnostics h @ [InfoMessage m]\<rparr>)"

definition log_warn :: "string \<Rightarrow> unit trigger_action" where
  "log_warn m = update_do (\<lambda>h. h\<lparr>tg_diagnostics := tg_diagnostics h @ [WarnMessage m]\<rparr>)"

definition previous_setup :: "trigger_id \<Rightarrow> trigger_host \<Rightarrow> jsval option" where
  "previous_setup t h = Option.bind (jget (tg_setupStates h) t) st_state"

definition store_setup :: "trigger_env \<Rightarrow> trigger_id \<Rightarrow> jsval option \<Rightarrow> unit trigger_action" where
  "store_setup env t next =
    (case next of
       None \<Rightarrow> update_do (\<lambda>h. h\<lparr>tg_setupStates := jremove t (tg_setupStates h)\<rparr>)
     | Some s \<Rightarrow> save_setup (polling_part env) t (Some s))"

definition setup_warning :: "trigger_id \<Rightarrow> js_error \<Rightarrow> string" where
  "setup_warning t e =
    ''Skipping trigger setup for workflow '' @ ti_workflowId t @ '' node '' @ ti_nodeId t @ '': '' @ err_message e"

text \<open>A node that cannot be set up is stopped and skipped; one that cannot be made is an error.\<close>

definition start_trigger :: "trigger_env \<Rightarrow> workflow \<Rightarrow> node_def \<Rightarrow> unit trigger_action" where
  "start_trigger env w d =
    (if \<not> is_live_trigger d then return_do ()
     else let t = trigger_of w d
          in then_do (lift_result (tv_resolve env (nd_type d))) (\<lambda>node.
             after_do (stop_trigger (polling_part env) t)
             (then_do (gets_do (previous_setup t)) (\<lambda>previous.
             then_do (catch_do
                 (then_do (lift_result (create_root_execution_options (tv_limits env))) (\<lambda>_.
                    then_do (run_setup env w t (tn_setup node t (nd_config d) previous)) (\<lambda>s. return_do (Some s))))
                 (\<lambda>e. after_do (stop_trigger (polling_part env) t)
                        (after_do (log_warn (setup_warning t e)) (return_do None))))
               (\<lambda>outcome. case outcome of None \<Rightarrow> return_do () | Some next \<Rightarrow> store_setup env t next)))))"

definition start_triggers_for_workflow :: "trigger_env \<Rightarrow> workflow \<Rightarrow> unit trigger_action" where
  "start_triggers_for_workflow env w = each_do (start_trigger env w) (wf_nodes w)"

definition stop_triggers_for_workflow :: "trigger_env \<Rightarrow> workflow \<Rightarrow> unit trigger_action" where
  "stop_triggers_for_workflow env w =
    each_do (\<lambda>d. if is_live_trigger d then stop_trigger (polling_part env) (trigger_of w d) else return_do ()) (wf_nodes w)"

section \<open>Triggers declared by a poll function\<close>

text \<open>
  What \<open>definePollingTrigger\<close> is given and the interval of the configuration; a polled item may have a key under which
  it is known.  A key list that is no array makes the poll throw when it is spread.
\<close>

type_synonym polled_item = "jsval \<times> string option"

record polling_definition =
  df_configInterval :: "rat option"
  df_pollInterval :: "rat option"
  df_initialState :: "jsval option"
  df_poll :: "nat \<Rightarrow> jsval \<Rightarrow> js_error + (polled_item list \<times> jsval)"

definition wrap_state :: "jsval \<Rightarrow> jsval list \<Rightarrow> jsval" where
  "wrap_state user keys = JObj [(''userState'', user), (''seenKeys'', JArr keys)]"

fun is_wrapped_state :: "jsval \<Rightarrow> bool" where
  "is_wrapped_state (JObj fs) = (case jget fs ''seenKeys'' of Some (JArr _) \<Rightarrow> True | _ \<Rightarrow> False)"
| "is_wrapped_state _ = False"

definition not_iterable :: js_error where
  "not_iterable = (plain_error ''wrapped.seenKeys is not iterable'')\<lparr>err_name := ''TypeError''\<rparr>"

definition seen_keys :: "jsval \<Rightarrow> js_error + jsval list" where
  "seen_keys wrapped =
    (case js_field wrapped ''seenKeys'' of
       JArr ks \<Rightarrow> Inr ks
     | JStr s \<Rightarrow> Inr (map (\<lambda>c. JStr [c]) s)
     | _ \<Rightarrow> Inl not_iterable)"

text \<open>Items whose key has been seen are left out; the keys seen before the poll count, not those of the poll itself.\<close>

fun take_new :: "jsval list \<Rightarrow> polled_item list \<Rightarrow> items \<times> string list" where
  "take_new seen [] = ([], [])"
| "take_new seen ((json, key) # ps) =
    (case (key, take_new seen ps) of
       (None, (its, ks)) \<Rightarrow> (json_item json # its, ks)
     | (Some k, (its, ks)) \<Rightarrow> if JStr k \<in> set seen then (its, ks) else (json_item json # its, k # ks))"

definition key_window :: nat where
  "key_window = 2000"

definition last_elements :: "nat \<Rightarrow> 'a list \<Rightarrow> 'a list" where
  "last_elements n xs = drop (length xs - n) xs"

definition poll_cycle :: "polling_definition \<Rightarrow> jsval \<Rightarrow> nat \<Rightarrow> jsval option \<Rightarrow> js_error + (items \<times> jsval option)" where
  "poll_cycle df seed now previous =
    (let wrapped = (case previous of None \<Rightarrow> seed | Some v \<Rightarrow> if v \<in> {JUndefined, JNull} then seed else v)
     in bind_result (seen_keys wrapped) (\<lambda>seen.
        bind_result (df_poll df now (js_field wrapped ''userState'')) (\<lambda>(polled, nextUser).
          case take_new seen polled of
            (its, keys) \<Rightarrow> Inr (its, Some (wrap_state nextUser (last_elements key_window (seen @ map JStr keys)))))))"

definition seed_state :: "polling_definition \<Rightarrow> jsval option \<Rightarrow> jsval" where
  "seed_state df previous =
    (case previous of
       Some v \<Rightarrow> if is_wrapped_state v then v else wrap_state (opt_or (df_initialState df) JUndefined) []
     | None \<Rightarrow> wrap_state (opt_or (df_initialState df) JUndefined) [])"

definition polling_setup :: "polling_definition \<Rightarrow> jsval option \<Rightarrow> setup_program" where
  "polling_setup df previous =
    (let seed = seed_state df previous
     in StartPolling (opt_or (opt_else (df_configInterval df) (df_pollInterval df)) 60000) (Some seed) (poll_cycle df seed) SetupReturn)"

text \<open>\<open>PollingTriggerDedupWindow.merge\<close>, which is offered to other polling triggers.\<close>

definition merge_window :: "string list \<Rightarrow> string list \<Rightarrow> nat \<Rightarrow> string list" where
  "merge_window previous incoming cap =
    (let merged = dedupe (previous @ incoming) in if length merged \<le> cap then merged else last_elements cap merged)"

section \<open>Messages\<close>

definition describe_trigger :: "node_def \<Rightarrow> string" where
  "describe_trigger d =
    (let label = (case nd_name d of Some n \<Rightarrow> if js_trim n \<noteq> [] then js_trim n else nd_id d | None \<Rightarrow> nd_id d)
     in case jget (nc_fields (nd_config d)) ''endpointKey'' of
          Some (JStr k) \<Rightarrow> if js_trim k \<noteq> [] then label @ '' (webhook '' @ quoted (js_trim k) @ '')'' else label
        | _ \<Rightarrow> label)"

definition trigger_summaries :: "workflow \<Rightarrow> string list" where
  "trigger_summaries w = map describe_trigger (filter is_live_trigger (wf_nodes w))"

definition workflow_label :: "workflow \<Rightarrow> string" where
  "workflow_label w = ''Workflow '' @ quoted (wf_name w) @ '' ('' @ wf_id w @ '')''"

definition log_summaries :: "workflow \<Rightarrow> string \<Rightarrow> unit trigger_action" where
  "log_summaries w what =
    (if trigger_summaries w = [] then return_do ()
     else log_info (workflow_label w @ what @ join_strings ''; '' (trigger_summaries w) @ ''.''))"

section \<open>Operations of the service\<close>

definition start_triggers :: "trigger_env \<Rightarrow> unit trigger_action" where
  "start_triggers env =
    each_do (\<lambda>w. if tv_isActive env (wf_id w) then start_triggers_for_workflow env w
                 else log_summaries w '' is inactive; skipping trigger setup - '') (tv_workflows env)"

definition sync_workflow_triggers :: "trigger_env \<Rightarrow> workflow_id \<Rightarrow> unit trigger_action" where
  "sync_workflow_triggers env wid =
    (case find (\<lambda>w. wf_id w = wid) (tv_workflows env) of
       None \<Rightarrow> return_do ()
     | Some w \<Rightarrow>
         after_do (log_summaries w '': stopping triggers - '')
         (after_do (stop_triggers_for_workflow env w)
         (if tv_isActive env wid
          then after_do (log_summaries w '': activation on; starting triggers - '') (start_triggers_for_workflow env w)
          else log_info (workflow_label w @ '': activation off; triggers not started.''))))"

definition stop_all_triggers :: "trigger_env \<Rightarrow> unit trigger_action" where
  "stop_all_triggers env = each_do (stop_triggers_for_workflow env) (tv_workflows env)"

definition create_trigger_test_items :: "trigger_env \<Rightarrow> workflow \<Rightarrow> node_id \<Rightarrow> (items option) trigger_action" where
  "create_trigger_test_items env w n =
    then_do (expect_do (find (\<lambda>d. nd_id d = n) (wf_nodes w)) (plain_error (''Unknown trigger nodeId: '' @ n))) (\<lambda>d.
    after_do (assert_do (nd_kind d = TriggerKind) (plain_error (''Node '' @ n @ '' is not a trigger'')))
    (then_do (lift_result (tv_resolve env (nd_type d))) (\<lambda>node.
      case tn_getTestItems node of
        None \<Rightarrow> return_do None
      | Some getItems \<Rightarrow>
          then_do (gets_do (previous_setup (trigger_of w d))) (\<lambda>previous.
          then_do (lift_result (create_root_execution_options (tv_limits env))) (\<lambda>_.
          then_do (lift_result (getItems (trigger_of w d) (nd_config d) previous)) (\<lambda>its. return_do (Some its)))))))"

section \<open>What is left of a stopped trigger\<close>

text \<open>Between calls of the service: every loop has its timer, and a handle that would stop it.\<close>

definition covered :: "trigger_host \<Rightarrow> bool" where
  "covered h = (\<forall>k \<in> set (tg_active h). \<exists>t. PollingCleanup t \<in> set (jget_list (tg_handles h) k))"

definition host_ok :: "trigger_host \<Rightarrow> bool" where
  "host_ok h = (timers_ok h \<and> handles_ok h \<and> covered h)"

definition other_triggers_same :: "string \<Rightarrow> trigger_host \<Rightarrow> trigger_host \<Rightarrow> bool" where
  "other_triggers_same k h h' =
    (\<forall>k'. k' \<noteq> k \<longrightarrow> (k' \<in> set (tg_active h') \<longleftrightarrow> k' \<in> set (tg_active h)) \<and> jget_list (tg_handles h') k' = jget_list (tg_handles h) k')"

lemma other_same_refl [simp]: "other_triggers_same k h h"
  by (simp add: other_triggers_same_def)

lemma other_same_trans: "other_triggers_same k h h1 \<Longrightarrow> other_triggers_same k h1 h2 \<Longrightarrow> other_triggers_same k h h2"
  by (simp add: other_triggers_same_def)

definition quiet_handles :: "polling_env \<Rightarrow> bool" where
  "quiet_handles env = (\<forall>n. pv_stopHandle env n = None)"

fun node_handles :: "cleanup_handle list \<Rightarrow> nat list" where
  "node_handles [] = []"
| "node_handles (NodeCleanup n # cs) = n # node_handles cs"
| "node_handles (PollingCleanup _ # cs) = node_handles cs"

lemma stop_polling_sel [simp]:
  "tg_handles (stop_polling t h) = tg_handles h" "tg_stopped (stop_polling t h) = tg_stopped h"
  "tg_setupStates (stop_polling t h) = tg_setupStates h" "tg_diagnostics (stop_polling t h) = tg_diagnostics h"
  "tg_active (stop_polling t h) = removeAll (trigger_key t) (tg_active h)" "tg_emitted (stop_polling t h) = tg_emitted h"
  by (simp_all add: stop_polling_def Let_def split: option.split)

lemma each_handle_effect:
  assumes "quiet_handles env" "\<forall>c \<in> set cs. case c of PollingCleanup t \<Rightarrow> trigger_key t = k | NodeCleanup _ \<Rightarrow> True"
  shows "wp (each_do (stop_handle env) cs) (\<lambda>r h'. r = Inr () \<and> (timers_ok h \<longrightarrow> timers_ok h') \<and> tg_handles h' = tg_handles h
     \<and> tg_setupStates h' = tg_setupStates h \<and> tg_stopped h' = tg_stopped h @ node_handles cs \<and> tg_emitted h' = tg_emitted h
     \<and> set (tg_active h') = set (tg_active h) - (if \<exists>t. PollingCleanup t \<in> set cs then {k} else {})) h"
  using assms(2)
proof (induction cs arbitrary: h)
  case (Cons c cs)
  show ?case
  proof (cases c)
    case (PollingCleanup t)
    have "wp (each_do (stop_handle env) cs) (\<lambda>r h'. r = Inr () \<and> (timers_ok (stop_polling t h) \<longrightarrow> timers_ok h') \<and> tg_handles h' = tg_handles h
     \<and> tg_setupStates h' = tg_setupStates h \<and> tg_stopped h' = tg_stopped h @ node_handles cs \<and> tg_emitted h' = tg_emitted h
     \<and> set (tg_active h') = set (removeAll k (tg_active h)) - (if \<exists>t. PollingCleanup t \<in> set cs then {k} else {})) (stop_polling t h)"
      using Cons.IH [of "stop_polling t h"] Cons.prems PollingCleanup by simp
    thus ?thesis unfolding PollingCleanup each_do.simps stop_handle.simps wp_then wp_update sum.case
      by (rule wp_mono) (use stop_polling_ok in auto)
  next
    case (NodeCleanup n)
    have "wp (each_do (stop_handle env) cs) (\<lambda>r h'. r = Inr () \<and> (timers_ok h \<longrightarrow> timers_ok h') \<and> tg_handles h' = tg_handles h
     \<and> tg_setupStates h' = tg_setupStates h \<and> tg_stopped h' = tg_stopped h @ n # node_handles cs \<and> tg_emitted h' = tg_emitted h
     \<and> set (tg_active h') = set (tg_active h) - (if \<exists>t. PollingCleanup t \<in> set cs then {k} else {})) (h\<lparr>tg_stopped := tg_stopped h @ [n]\<rparr>)"
      using Cons.IH [of "h\<lparr>tg_stopped := tg_stopped h @ [n]\<rparr>"] Cons.prems NodeCleanup by simp
    thus ?thesis unfolding NodeCleanup using assms(1)
      by (simp add: wp_simps quiet_handles_def)
  qed
qed (simp add: wp_simps)

definition stopped_trigger :: "trigger_id \<Rightarrow> trigger_host \<Rightarrow> trigger_host \<Rightarrow> bool" where
  "stopped_trigger t h h' =
    (host_ok h' \<and> trigger_key t \<notin> set (tg_active h') \<and> jget_list (tg_handles h') (trigger_key t) = []
     \<and> other_triggers_same (trigger_key t) h h' \<and> tg_setupStates h' = tg_setupStates h \<and> tg_emitted h' = tg_emitted h
     \<and> tg_stopped h' = tg_stopped h @ node_handles (rev (jget_list (tg_handles h) (trigger_key t))))"

lemma stop_trigger_effect:
  assumes "quiet_handles env" "host_ok h"
  shows "wp (stop_trigger env t) (\<lambda>r h'. r = Inr () \<and> stopped_trigger t h h') h"
proof -
  let ?k = "trigger_key t" and ?h = "h\<lparr>tg_handles := jremove (trigger_key t) (tg_handles h)\<rparr>"
  let ?cs = "jget_list (tg_handles h) ?k"
  have cs: "\<forall>c \<in> set (rev ?cs). case c of PollingCleanup t' \<Rightarrow> trigger_key t' = ?k | NodeCleanup _ \<Rightarrow> True"
    using assms(2) by (auto simp: host_ok_def handles_ok_def)
  have "(\<exists>t. PollingCleanup t \<in> set ?cs) \<or> ?k \<notin> set (tg_active h)"
    using assms(2) unfolding host_ok_def covered_def by blast
  hence "stopped_trigger t h h'" if "timers_ok ?h \<longrightarrow> timers_ok h'" "tg_handles h' = tg_handles ?h" "tg_setupStates h' = tg_setupStates ?h"
      "tg_stopped h' = tg_stopped ?h @ node_handles (rev ?cs)" "tg_emitted h' = tg_emitted ?h"
      "set (tg_active h') = set (tg_active ?h) - (if \<exists>t. PollingCleanup t \<in> set (rev ?cs) then {?k} else {})" for h'
    using that assms(2) handles_ok_remove [of h ?k]
    by (auto simp: stopped_trigger_def host_ok_def covered_def other_triggers_same_def handles_ok_def split: if_splits)
  thus ?thesis
    using each_handle_effect [OF assms(1) cs, of ?h]
    by (simp add: stop_trigger_def wp_simps) (erule wp_mono, simp)
qed

section \<open>Setting up and stopping keep to their trigger\<close>

definition only_trigger :: "trigger_id \<Rightarrow> trigger_host \<Rightarrow> trigger_host \<Rightarrow> bool" where
  "only_trigger t h h' = (host_ok h' \<and> other_triggers_same (trigger_key t) h h')"

lemma only_trigger_trans: "only_trigger t h h1 \<Longrightarrow> only_trigger t h1 h2 \<Longrightarrow> only_trigger t h h2"
  using other_same_trans by (auto simp: only_trigger_def)

lemma only_trigger_stopped: "stopped_trigger t h h' \<Longrightarrow> only_trigger t h h'"
  by (simp add: stopped_trigger_def only_trigger_def)

text \<open>Updates that leave loops and handles alone.\<close>

lemma only_trigger_frame:
  assumes "host_ok h" "same_loops h h'" "tg_handles h' = tg_handles h"
  shows "only_trigger t h h'"
  using assms same_loops_ok [OF assms(2)]
  by (simp add: only_trigger_def host_ok_def handles_ok_def covered_def other_triggers_same_def same_loops_def)

lemma only_trigger_register:
  assumes "host_ok h" "case c of PollingCleanup t' \<Rightarrow> t' = t | NodeCleanup _ \<Rightarrow> True"
  shows "only_trigger t h (register_cleanup t c h)"
  using assms by (cases c) (auto simp: only_trigger_def host_ok_def handles_ok_def covered_def other_triggers_same_def
      register_cleanup_def jpush_def timers_ok_def split: if_splits)

lemma only_trigger_loop:
  assumes "host_ok h" "PollingCleanup t \<in> set (jget_list (tg_handles h) (trigger_key t))" "po_trigger p = t"
  shows "only_trigger t h (ensure_loop p h)"
proof -
  have "covered (ensure_loop p h)" "other_triggers_same (trigger_key t) h (ensure_loop p h)"
    using assms by (auto simp: covered_def host_ok_def ensure_loop_def Let_def other_triggers_same_def)
  thus ?thesis using assms(1) ensure_loop_ok by (simp add: only_trigger_def host_ok_def)
qed

lemma emit_frame:
  "wp (emit_items env w n its) (\<lambda>r h'. same_loops h h' \<and> tg_handles h' = tg_handles h) h"
  by (simp add: emit_items_def tick_do_def [abs_def] wp_def then_do_def update_do_def return_do_def throw_do_def same_loops_def
      split: option.split)

lemma save_frame: "wp (save_setup env t s) (\<lambda>r h'. r = Inr () \<and> same_loops h h' \<and> tg_handles h' = tg_handles h) h"
  by (simp add: save_setup_def tick_do_def [abs_def] wp_def then_do_def update_do_def same_loops_def)

lemma run_cycle_frame: "wp (run_cycle env p seed) (\<lambda>_ h'. same_loops h h' \<and> tg_handles h' = tg_handles h) h"
proof (rule wpI)
  fix r h'
  assume run: "run_cycle env p seed h = (r, h')"
  obtain b h1 where b: "begin_cycle p h = (b, h1)" by (cases "begin_cycle p h")
  obtain r2 h2 where b2: "cycle_body env p seed h1 = (r2, h2)" by (cases "cycle_body env p seed h1")
  show "same_loops h h' \<and> tg_handles h' = tg_handles h"
    using run b b2 begin_cycle_loops [OF b] begin_cycle_busy [OF b] body_facts [OF b2]
    by (auto simp: run_cycle_def end_cycle_def same_loops_def split: bool.splits)
qed

lemma start_polling_only:
  assumes "host_ok h"
  shows "wp (polling_handle_start env p) (\<lambda>_ h'. only_trigger (po_trigger p) h h') h"
proof -
  let ?t = "po_trigger p" and ?h = "register_cleanup (po_trigger p) (PollingCleanup (po_trigger p)) h"
  have reg: "only_trigger ?t h ?h" by (rule only_trigger_register [OF assms]) simp
  have mem: "PollingCleanup ?t \<in> set (jget_list (tg_handles ?h) (trigger_key ?t))" by (simp add: register_cleanup_def jpush_def)
  have "only_trigger ?t h (ensure_loop p h1)" if "same_loops ?h h1" "tg_handles h1 = tg_handles ?h" for h1
  proof -
    have f: "only_trigger ?t ?h h1" by (rule only_trigger_frame) (use reg that in \<open>auto simp: only_trigger_def\<close>)
    have "only_trigger ?t h1 (ensure_loop p h1)"
      by (rule only_trigger_loop) (use f mem that in \<open>auto simp: only_trigger_def\<close>)
    thus ?thesis using only_trigger_trans reg f by blast
  qed
  thus ?thesis
    unfolding polling_handle_start_def start_polling_def wp_simps sum.case
    by (intro wp_mono [OF run_cycle_frame]) (auto split: sum.split)
qed

lemma run_setup_only:
  "host_ok h \<Longrightarrow> wp (run_setup env w t prog) (\<lambda>_ h'. only_trigger t h h') h"
proof (induction prog arbitrary: h)
  case (RegisterCleanup n prog)
  have r: "only_trigger t h (register_cleanup t (NodeCleanup n) h)" by (rule only_trigger_register [OF RegisterCleanup.prems]) simp
  hence "host_ok (register_cleanup t (NodeCleanup n) h)" by (simp add: only_trigger_def)
  from RegisterCleanup.IH [OF this] show ?case
    unfolding run_setup.simps wp_then wp_update sum.case by (rule wp_mono) (use only_trigger_trans [OF r] in blast)
next
  case (EmitItems its k)
  have "wp (run_setup env w t (k x)) (\<lambda>_ h'. only_trigger t h h') h1" if "same_loops h h1" "tg_handles h1 = tg_handles h" for x h1
  proof -
    have f: "only_trigger t h h1" by (rule only_trigger_frame [OF EmitItems.prems that])
    hence "host_ok h1" by (simp add: only_trigger_def)
    from EmitItems.IH [OF rangeI this] show ?thesis by (rule wp_mono) (use only_trigger_trans [OF f] in blast)
  qed
  thus ?case unfolding run_setup.simps wp_simps sum.case
    by (intro wp_mono [OF emit_frame]) (auto simp: wp_simps split: sum.split)
next
  case (StartPolling ms seed cycle k)
  let ?p = "\<lparr>po_trigger = t, po_workflow = w, po_intervalMs = ms, po_seedState = seed, po_runCycle = cycle\<rparr>"
  have "wp (run_setup env w t (k x)) (\<lambda>_ h'. only_trigger t h h') h1" if f: "only_trigger t h h1" for x h1
  proof -
    have "host_ok h1" using f by (simp add: only_trigger_def)
    from StartPolling.IH [OF rangeI this] show ?thesis by (rule wp_mono) (use only_trigger_trans [OF f] in blast)
  qed
  moreover have "wp (polling_handle_start (polling_part env) ?p) (\<lambda>_ h'. only_trigger t h h') h"
    using start_polling_only [OF StartPolling.prems, of _ ?p] by simp
  ultimately show ?case unfolding run_setup.simps wp_then
    by (elim wp_mono) (auto split: sum.split)
qed (simp_all add: wp_simps only_trigger_def)

lemma keeps_tick: "(\<And>h n. I h \<Longrightarrow> I (h\<lparr>tg_clock := n\<rparr>)) \<Longrightarrow> keeps I tick_do"
  by (simp add: keeps_def tick_do_def)

lemma setup_diagnostics: "wp (run_setup env w t prog) (\<lambda>_ h'. tg_diagnostics h' = tg_diagnostics h) h"
proof -
  have c: "keeps (\<lambda>h. tg_diagnostics h = ds) (run_cycle e p seed)" for e p seed ds
  proof (rule keepsI)
    fix h :: trigger_host assume h: "tg_diagnostics h = ds"
    obtain b h1 where b: "begin_cycle p h = (b, h1)" by (cases "begin_cycle p h")
    obtain r2 h2 where b2: "cycle_body e p seed h1 = (r2, h2)" by (cases "cycle_body e p seed h1")
    show "tg_diagnostics (snd (run_cycle e p seed h)) = ds"
      using h b wp_result [OF cycle_body_frame b2]
      by (auto simp: run_cycle_def b2 end_cycle_def begin_cycle_def Let_def split: bool.splits if_splits)
  qed
  have "keeps (\<lambda>h. tg_diagnostics h = ds) (run_setup env w t prog)" for ds
    by (induction prog)
       (auto intro!: keeps_intros c keeps_update keeps_tick
         simp: emit_items_def polling_handle_start_def start_polling_def register_cleanup_def ensure_loop_def Let_def)
  thus ?thesis by (simp add: keeps_iff_wp)
qed

lemma store_setup_only:
  assumes "host_ok h"
  shows "wp (store_setup env t s) (\<lambda>r h'. r = Inr () \<and> only_trigger t h h' \<and> tg_diagnostics h' = tg_diagnostics h) h"
proof (cases s)
  case None
  have "only_trigger t h (h\<lparr>tg_setupStates := m\<rparr>)" for m
    by (rule only_trigger_frame [OF assms]) (simp_all add: same_loops_def)
  thus ?thesis by (simp add: store_setup_def None wp_simps)
next
  case (Some x)
  have "only_trigger t h h'" if "same_loops h h'" "tg_handles h' = tg_handles h" for h'
    by (rule only_trigger_frame [OF assms that])
  moreover have "wp (save_setup (polling_part env) t (Some x)) (\<lambda>_ h'. tg_diagnostics h' = tg_diagnostics h) h"
    by (simp add: save_setup_def tick_do_def [abs_def] wp_def then_do_def update_do_def)
  ultimately show ?thesis unfolding store_setup_def Some option.case
    by (rule_tac wp_mono [OF wp_conj [OF save_frame]]) auto
qed

text \<open>Starting a trigger whose setup fails stops it again; a node that cannot be made is the only error.\<close>

lemma start_trigger_effect:
  assumes "quiet_handles (polling_part env)" "host_ok h"
  shows "wp (start_trigger env w d) (\<lambda>r h'. only_trigger (trigger_of w d) h h'
     \<and> (case r of
          Inl e \<Rightarrow> h' = h \<and> is_live_trigger d \<and> tv_resolve env (nd_type d) = Inl e
        | Inr _ \<Rightarrow> tg_diagnostics h' = tg_diagnostics h \<or>
            (\<exists>e. tg_diagnostics h' = tg_diagnostics h @ [WarnMessage (setup_warning (trigger_of w d) e)]
               \<and> trigger_key (trigger_of w d) \<notin> set (tg_active h') \<and> jget_list (tg_handles h') (trigger_key (trigger_of w d)) = []))) h"
proof (cases "is_live_trigger d")
  case False
  thus ?thesis using assms(2) by (simp add: start_trigger_def wp_simps only_trigger_def)
next
  case True
  let ?t = "trigger_of w d" and ?e = "polling_part env"
  show ?thesis
  proof (cases "tv_resolve env (nd_type d)")
    case (Inl err)
    thus ?thesis using True assms(2) by (simp add: start_trigger_def wp_simps only_trigger_def Let_def)
  next
    case (Inr node)
    have diag: "wp (stop_trigger ?e t) (\<lambda>_ h'. tg_diagnostics h' = tg_diagnostics h1) h1" if "host_ok h1" for t h1
      by (rule stop_trigger_keeps) (use that in \<open>auto simp: host_ok_def\<close>)
    have stop: "wp (stop_trigger ?e ?t) (\<lambda>r h2. r = Inr () \<and> stopped_trigger ?t h1 h2 \<and> tg_diagnostics h2 = tg_diagnostics h1) h1"
      if "host_ok h1" for h1
      by (rule wp_mono [OF wp_conj [OF stop_trigger_effect [OF assms(1) that] diag [OF that]]]) auto
    let ?Q = "\<lambda>h1 r h'. only_trigger ?t h1 h' \<and> (\<exists>x. r = Inr x) \<and> (tg_diagnostics h' = tg_diagnostics h1 \<or>
        (\<exists>e. tg_diagnostics h' = tg_diagnostics h1 @ [WarnMessage (setup_warning ?t e)]
               \<and> trigger_key ?t \<notin> set (tg_active h') \<and> jget_list (tg_handles h') (trigger_key ?t) = []))"
    let ?undo = "\<lambda>e. after_do (stop_trigger ?e ?t) (after_do (log_warn (setup_warning ?t e)) (return_do None))"
    have log: "only_trigger ?t h1 (h1\<lparr>tg_diagnostics := ds\<rparr>)" if "host_ok h1" for h1 ds
      by (rule only_trigger_frame [OF that]) (simp_all add: same_loops_def)
    have warn: "only_trigger ?t h1 (h2\<lparr>tg_diagnostics := ds\<rparr>) \<and> trigger_key ?t \<notin> set (tg_active h2) \<and> jget_list (tg_handles h2) (trigger_key ?t) = []"
      if "stopped_trigger ?t h1 h2" for h1 h2 ds
      using that log [of h2 ds] only_trigger_trans only_trigger_stopped [OF that] unfolding stopped_trigger_def by blast
    have undo: "wp (?undo e) (\<lambda>r h'. r = Inr None \<and> only_trigger ?t h1 h' \<and> tg_diagnostics h' = tg_diagnostics h1 @ [WarnMessage (setup_warning ?t e)]
        \<and> trigger_key ?t \<notin> set (tg_active h') \<and> jget_list (tg_handles h') (trigger_key ?t) = []) h1" if "host_ok h1" for e h1
      unfolding log_warn_def wp_simps sum.case by (rule wp_mono [OF stop [OF that]]) (use warn in auto)
    have store: "wp (store_setup env ?t s) (?Q h2) h3" if "only_trigger ?t h2 h3" "tg_diagnostics h3 = tg_diagnostics h2" for s h2 h3
      by (rule wp_mono [OF store_setup_only]) (use that only_trigger_trans in \<open>auto simp: only_trigger_def\<close>)
    have fail: "wp (then_do (?undo e) (\<lambda>outcome. case outcome of None \<Rightarrow> return_do () | Some next \<Rightarrow> store_setup env ?t next)) (?Q h2) h3"
      if "only_trigger ?t h2 h3" "tg_diagnostics h3 = tg_diagnostics h2" for e h2 h3
      unfolding wp_then [of "?undo e"]
      by (rule wp_mono [OF undo]) (use that only_trigger_trans in \<open>auto simp: only_trigger_def wp_simps\<close>)
    let ?K = "\<lambda>outcome. case outcome of None \<Rightarrow> return_do () | Some next \<Rightarrow> store_setup env ?t next"
    have sets_up: "wp (then_do (catch_do (then_do (lift_result (create_root_execution_options (tv_limits env))) (\<lambda>_.
        then_do (run_setup env w ?t prog) (\<lambda>s. return_do (Some s)))) ?undo) ?K) (?Q h2) h2" if ok: "host_ok h2" for prog h2
    proof (cases "create_root_execution_options (tv_limits env)")
      case (Inl e)
      thus ?thesis using fail [of h2 h2 e] ok unfolding wp_then wp_catch wp_lift Inl sum.case by (simp add: only_trigger_def)
    next
      case (Inr opts)
      have run: "wp (run_setup env w ?t prog) (\<lambda>_ h3. only_trigger ?t h2 h3 \<and> tg_diagnostics h3 = tg_diagnostics h2) h2"
        by (rule wp_conj [OF run_setup_only [OF ok] setup_diagnostics])
      show ?thesis
        unfolding wp_then [of "catch_do _ _"] wp_catch wp_then [of "lift_result _"] wp_lift Inr sum.case wp_then [of "run_setup _ _ _ _"]
        by (rule wp_mono [OF run]) (use fail [unfolded wp_then [of "?undo _"]] store in \<open>auto simp: wp_return split: sum.split\<close>)
    qed
    have after: "wp (then_do (gets_do (previous_setup ?t)) (\<lambda>previous.
        then_do (catch_do (then_do (lift_result (create_root_execution_options (tv_limits env))) (\<lambda>_.
        then_do (run_setup env w ?t (tn_setup node ?t (nd_config d) previous)) (\<lambda>s. return_do (Some s)))) ?undo) ?K)) (?Q h) h2"
      if st: "stopped_trigger ?t h h2" "tg_diagnostics h2 = tg_diagnostics h" for h2
    proof -
      have "host_ok h2" using st(1) by (simp add: stopped_trigger_def)
      from sets_up [OF this] show ?thesis unfolding wp_then [of "gets_do _"] wp_gets sum.case
        by (rule wp_mono) (use st only_trigger_trans [OF only_trigger_stopped [OF st(1)]] in auto)
    qed
    have "wp (start_trigger env w d) (?Q h) h"
      using True
      by (simp only: start_trigger_def Let_def Inr not_True_eq_False if_False wp_then [where m = "lift_result (Inr node)"] wp_lift sum.case
            wp_then [where m = "stop_trigger ?e ?t"])
         (rule wp_mono [OF stop [OF assms(2)]], use after in auto)
    thus ?thesis by (rule wp_mono) auto
  qed
qed


section \<open>Deactivation\<close>

definition dead_trigger :: "string \<Rightarrow> trigger_host \<Rightarrow> bool" where
  "dead_trigger k h = (k \<notin> set (tg_active h) \<and> jget_list (tg_handles h) k = [])"

lemma stop_nodes_effect:
  assumes "quiet_handles env" "host_ok h"
  shows "wp (each_do (\<lambda>d. if is_live_trigger d then stop_trigger env (trigger_of w d) else return_do ()) ds)
    (\<lambda>r h'. r = Inr () \<and> host_ok h' \<and> (\<forall>d \<in> set ds. is_live_trigger d \<longrightarrow> dead_trigger (trigger_key (trigger_of w d)) h')
      \<and> (\<forall>k. dead_trigger k h \<longrightarrow> dead_trigger k h') \<and> tg_setupStates h' = tg_setupStates h \<and> tg_emitted h' = tg_emitted h) h"
  using assms(2)
proof (induction ds arbitrary: h)
  case (Cons d ds)
  show ?case
  proof (cases "is_live_trigger d")
    case False
    thus ?thesis using Cons.IH [OF Cons.prems] by (simp add: wp_simps)
  next
    case True
    let ?t = "trigger_of w d"
    have step: "dead_trigger (trigger_key ?t) h1 \<and> (\<forall>k. dead_trigger k h \<longrightarrow> dead_trigger k h1)" if "stopped_trigger ?t h h1" for h1
      using that by (auto simp: stopped_trigger_def dead_trigger_def other_triggers_same_def) metis+
    have "wp (stop_trigger env ?t) (\<lambda>r h1. r = Inr () \<and> stopped_trigger ?t h h1) h"
      by (rule stop_trigger_effect [OF assms(1) Cons.prems])
    moreover have "wp (each_do (\<lambda>d. if is_live_trigger d then stop_trigger env (trigger_of w d) else return_do ()) ds)
      (\<lambda>r h'. r = Inr () \<and> host_ok h' \<and> (\<forall>d' \<in> set (d # ds). is_live_trigger d' \<longrightarrow> dead_trigger (trigger_key (trigger_of w d')) h')
        \<and> (\<forall>k. dead_trigger k h \<longrightarrow> dead_trigger k h') \<and> tg_setupStates h' = tg_setupStates h \<and> tg_emitted h' = tg_emitted h) h1"
      if st: "stopped_trigger ?t h h1" for h1
    proof -
      have "host_ok h1" "tg_setupStates h1 = tg_setupStates h" "tg_emitted h1 = tg_emitted h" using st by (simp_all add: stopped_trigger_def)
      from Cons.IH [OF this(1)] this(2,3) step [OF st] show ?thesis by (elim wp_mono) auto
    qed
    ultimately show ?thesis using True unfolding each_do.simps if_P [OF True] wp_then by (elim wp_mono) auto
  qed
qed (simp add: wp_simps)

lemma timer_is_active: "timers_ok h \<Longrightarrow> (n, p, ms) \<in> set (tg_timers h) \<Longrightarrow> trigger_key (po_trigger p) \<in> set (tg_active h)"
  by (fastforce simp: timers_ok_def jhas_def)


text \<open>A handle that throws when it is stopped keeps the ones registered before it from being stopped, for good.\<close>

lemma throwing_handle_leaks:
  assumes "pv_stopHandle env n = Some e" "jget_list (tg_handles h) (trigger_key t) = [PollingCleanup t, NodeCleanup n]"
  shows "fst (stop_trigger env t h) = Inl e \<and> tg_timers (snd (stop_trigger env t h)) = tg_timers h
    \<and> jget_list (tg_handles (snd (stop_trigger env t h))) (trigger_key t) = []"
  using assms by (simp add: stop_trigger_def then_do_def gets_do_def update_do_def throw_do_def)

section \<open>Declared polling triggers\<close>

lemma take_new_items:
  "take_new seen ps = (map (\<lambda>(j, _). json_item j) (filter (\<lambda>(_, k). case k of None \<Rightarrow> True | Some k \<Rightarrow> JStr k \<notin> set seen) ps),
     List.map_filter (\<lambda>(_, k). case k of None \<Rightarrow> None | Some k \<Rightarrow> if JStr k \<in> set seen then None else Some k) ps)"
  by (induction seen ps rule: take_new.induct) (auto simp: map_filter_simps split: option.split)

lemma last_elements_append: "length ys \<le> n \<Longrightarrow> set ys \<subseteq> set (last_elements n (xs @ ys))"
  by (auto simp: last_elements_def)

text \<open>
  A declared polling trigger does not repeat itself: a poll hands on exactly the items without a key and those whose key
  it has not seen, in order; it remembers at most 2000 keys; and when a poll brings at most that many new ones, a second
  poll that finds the same items hands on none that has a key.
\<close>

theorem polled_items_once:
  assumes "poll_cycle df seed now (Some v) = Inr (its, next)" "js_field v ''seenKeys'' = JArr seen"
    and "df_poll df now (js_field v ''userState'') = Inr (polled, user)"
  shows "its = map (\<lambda>(j, _). json_item j) (filter (\<lambda>(_, k). case k of None \<Rightarrow> True | Some k \<Rightarrow> JStr k \<notin> set seen) polled)
    \<and> (\<exists>v' seen'. next = Some v' \<and> js_field v' ''seenKeys'' = JArr seen' \<and> length seen' \<le> 2000
       \<and> (length seen + length polled \<le> 2000 \<longrightarrow> df_poll df later user = Inr (polled, user') \<longrightarrow>
          (\<exists>next'. poll_cycle df seed later next =
             Inr (map (\<lambda>(j, _). json_item j) (filter (\<lambda>(_, k). k = None) polled), next'))))"
proof -
  let ?new = "List.map_filter (\<lambda>(_, k). case k of None \<Rightarrow> None | Some k \<Rightarrow> if JStr k \<in> set seen then None else Some k) polled"
  let ?seen = "last_elements key_window (seen @ map JStr ?new)"
  have v: "v \<noteq> JUndefined" "v \<noteq> JNull" using assms(2) by auto
  have cycle: "its = map (\<lambda>(j, _). json_item j) (filter (\<lambda>(_, k). case k of None \<Rightarrow> True | Some k \<Rightarrow> JStr k \<notin> set seen) polled)"
    "next = Some (wrap_state user ?seen)"
    using assms v by (auto simp: poll_cycle_def seen_keys_def take_new_items)
  have bound: "length ?seen \<le> 2000" by (simp add: last_elements_def key_window_def)
  have all: "JStr k \<in> set ?seen" if "length seen + length polled \<le> 2000" "(j, Some k) \<in> set polled" for j k
  proof -
    have "length ?new \<le> length polled" by (simp add: List.map_filter_def)
    hence "?seen = seen @ map JStr ?new" using that(1) by (simp add: last_elements_def key_window_def)
    thus ?thesis using that(2) by (force simp: List.map_filter_def)
  qed
  have "poll_cycle df seed later next = Inr (map (\<lambda>(j, _). json_item j) (filter (\<lambda>(_, k). k = None) polled),
      Some (wrap_state user' (last_elements key_window (?seen @ map JStr (snd (take_new ?seen polled))))))"
    if "length seen + length polled \<le> 2000" "df_poll df later user = Inr (polled, user')"
  proof -
    have "filter (\<lambda>(_, k). case k of None \<Rightarrow> True | Some k \<Rightarrow> JStr k \<notin> set ?seen) polled = filter (\<lambda>(_, k). k = None) polled"
    proof (rule filter_cong [OF refl])
      show "(case x of (_, k) \<Rightarrow> case k of None \<Rightarrow> True | Some k \<Rightarrow> JStr k \<notin> set ?seen) = (case x of (_, k) \<Rightarrow> k = None)"
        if "x \<in> set polled" for x
      proof -
        obtain j k where x: "x = (j, k)" by (cases x)
        show ?thesis
        proof (cases k)
          case (Some a)
          thus ?thesis using all [OF \<open>length seen + length polled \<le> 2000\<close>, of j a] that x by simp
        qed (simp add: x)
      qed
    qed
    thus ?thesis using that(2) by (simp add: cycle(2) poll_cycle_def seen_keys_def wrap_state_def take_new_items)
  qed
  thus ?thesis using cycle bound by (auto simp: wrap_state_def)
qed

text \<open>A key that occurs twice in one poll is not caught.\<close>

lemma duplicate_in_poll_emitted: "fst (take_new [] [(JNull, Some ''a''), (JNull, Some ''a'')]) = [json_item JNull, json_item JNull]"
  by simp

text \<open>
  A stored state that is no wrapped state makes every poll throw; and when the first poll of a trigger that is set up
  fails, the state stored for it is deleted.
\<close>

lemma unwrapped_state_never_polls:
  "v = JObj fs \<Longrightarrow> jget fs ''seenKeys'' = None \<Longrightarrow> poll_cycle df seed now (Some v) = Inl not_iterable"
  by (simp add: poll_cycle_def seen_keys_def)

lemma failed_first_poll_deletes_state:
  assumes "\<And>now v. df_poll df now v = Inl err" "is_live_trigger d" "tv_resolve env (nd_type d) = Inr \<lparr>tn_setup = \<lambda>_ _. polling_setup df, tn_getTestItems = g\<rparr>"
    and "jget_list (tg_handles h) (trigger_key (trigger_of w d)) = []" "trigger_key (trigger_of w d) \<notin> set (tg_busy h)"
    and "create_root_execution_options (tv_limits env) = Inr opts"
  shows "fst (start_trigger env w d h) = Inr () \<and> jget (tg_setupStates (snd (start_trigger env w d h))) (trigger_of w d) = None"
proof -
  have "\<exists>e. poll_cycle df seed now v = Inl e" for seed now v
    using assms(1) by (auto simp: poll_cycle_def Let_def split: option.split sum.split)
      (metis bind_result.simps sum.exhaust)+
  then obtain f where f: "poll_cycle df seed now v = Inl (f seed now v)" for seed now v by metis
  show ?thesis
    using assms(2-) f
    by (simp add: start_trigger_def Let_def then_do_def lift_result_def stop_trigger_def gets_do_def update_do_def return_do_def catch_do_def
        polling_setup_def polling_handle_start_def start_polling_def run_cycle_def begin_cycle_def register_cleanup_def cycle_body_def tick_do_def
        store_setup_def ensure_loop_def end_cycle_def)
qed

section \<open>Witnesses\<close>

definition sample_definition :: polling_definition where
  "sample_definition =
    \<lparr>df_configInterval = None, df_pollInterval = None, df_initialState = None,
     df_poll = (\<lambda>_ _. Inr ([(JStr ''x'', Some ''k''), (JStr ''y'', None)], JNull))\<rparr>"

lemma polled_items_once_witness:
  "\<exists>next v' seen'. poll_cycle sample_definition JNull 0 (Some (wrap_state JNull [])) = Inr ([json_item (JStr ''x''), json_item (JStr ''y'')], next)
     \<and> next = Some v' \<and> js_field v' ''seenKeys'' = JArr seen' \<and> length seen' \<le> 2000
     \<and> (\<exists>next'. poll_cycle sample_definition JNull 1 next = Inr ([json_item (JStr ''y'')], next'))"
proof -
  obtain nx where n: "poll_cycle sample_definition JNull 0 (Some (wrap_state JNull [])) = Inr ([json_item (JStr ''x''), json_item (JStr ''y'')], nx)"
    by (simp add: poll_cycle_def sample_definition_def seen_keys_def wrap_state_def)
  have s: "js_field (wrap_state JNull []) ''seenKeys'' = JArr []" by (simp add: wrap_state_def)
  have p: "df_poll sample_definition 0 (js_field (wrap_state JNull []) ''userState'') = Inr ([(JStr ''x'', Some ''k''), (JStr ''y'', None)], JNull)"
    by (simp add: sample_definition_def)
  have "df_poll sample_definition 1 JNull = Inr ([(JStr ''x'', Some ''k''), (JStr ''y'', None)], JNull)" by (simp add: sample_definition_def)
  with polled_items_once [OF n s p, of 1 JNull] n show ?thesis by simp
qed

definition sample_trigger_node :: trigger_node where
  "sample_trigger_node = \<lparr>tn_setup = (\<lambda>_ _ p. polling_setup sample_definition p), tn_getTestItems = None\<rparr>"

definition sample_triggers :: "bool \<Rightarrow> setup_program \<Rightarrow> trigger_env" where
  "sample_triggers active prog = polling_env.extend sample_polling
    (trigger_env.fields [sample_workflow] (\<lambda>_. active) (\<lambda>_. Inr (sample_trigger_node\<lparr>tn_setup := \<lambda>_ _ _. prog\<rparr>)) limits_defaults)"

lemma sample_triggers_sel [simp]:
  "polling_part (sample_triggers a g) = sample_polling" "tv_workflows (sample_triggers a g) = [sample_workflow]"
  "tv_isActive (sample_triggers a g) w = a" "tv_limits (sample_triggers a g) = limits_defaults"
  "tv_resolve (sample_triggers a g) t = Inr (sample_trigger_node\<lparr>tn_setup := \<lambda>_ _ _. g\<rparr>)"
  by (simp_all add: sample_triggers_def polling_env.defs trigger_env.defs sample_polling_def)

lemma sample_quiet: "quiet_handles sample_polling"
  by (simp add: quiet_handles_def sample_polling_def)

lemma idle_host_ok: "host_ok idle_host"
  by (simp add: host_ok_def timers_ok_def handles_ok_def covered_def idle_host_def jhas_def)

definition sample_polled_host :: trigger_host where
  "sample_polled_host = snd (polling_handle_start sample_polling sample_poll idle_host)"


abbreviation "failing_setup \<equiv> RegisterCleanup 3 (SetupThrow (plain_error ''no access''))"


end
