(* ===== verification/TestSuite.thy ===== *)
theory TestSuite
  imports Scheduling Sample
begin

text \<open>
  \<open>orchestration/TestSuiteOrchestrator.ts\<close>: one run per item of a test trigger, a bounded number at a time.  The
  orchestrator is a state machine: the items of the generator, the answers of the engine and the abort signal
  arrive in any order.  Which items are generated and what becomes of the runs is arbitrary.  The bus is assumed not to
  throw; the setup context of the generator is left out.
\<close>

section \<open>Data\<close>

record case_outcome =
  co_testCaseIndex :: nat
  co_runId :: run_id
  co_status :: case_run_status

record suite_result =
  sr_testSuiteRunId :: string
  sr_workflowId :: workflow_id
  sr_triggerNodeId :: node_id
  sr_status :: suite_run_status
  sr_totalCases :: nat
  sr_passedCases :: nat
  sr_failedCases :: nat
  sr_cases :: "case_outcome list"

text \<open>
  What is known of a suite once it has started; \<open>caseLabel\<close> of the configuration may be missing, throw, or give any
  value.
\<close>

datatype label_value = NoLabel | LabelThrows | LabelGives jsval

record suite_spec =
  sp'_testSuiteRunId :: string
  sp'_workflow :: workflow
  sp'_triggerNodeId :: node_id
  sp'_triggerNodeName :: "string option"
  sp'_concurrency :: nat
  sp'_caseLabel :: "item \<Rightarrow> label_value"

record suite_args =
  sa_workflow :: workflow
  sa_triggerNodeId :: node_id
  sa_testSuiteRunId :: "string option"
  sa_concurrency :: "nat option"
  sa_aborted :: bool

definition default_concurrency :: nat where
  "default_concurrency = 4"

section \<open>Starting\<close>

fun trigger_mode_text :: "trigger_mode option \<Rightarrow> string" where
  "trigger_mode_text (Some TestTrigger) = ''test''"
| "trigger_mode_text _ = ''live''"

definition prepare_suite ::
  "(node_config \<Rightarrow> bool) \<Rightarrow> (node_config \<Rightarrow> nat option) \<Rightarrow> (node_config \<Rightarrow> item \<Rightarrow> label_value) \<Rightarrow> string
    \<Rightarrow> suite_args \<Rightarrow> js_error + suite_spec" where
  "prepare_suite generates concurrencyOf caseLabel newId args =
    (let n = sa_triggerNodeId args
     in case find (\<lambda>d. nd_id d = n) (wf_nodes (sa_workflow args)) of
          None \<Rightarrow> Inl (plain_error (''Unknown trigger nodeId: '' @ n))
        | Some d \<Rightarrow>
            let c = nd_config d
            in if nd_kind d \<noteq> TriggerKind then Inl (plain_error (''Node '' @ n @ '' is not a trigger''))
               else if nc_triggerKind c \<noteq> Some TestTrigger
               then Inl (plain_error (''Node '' @ n @ '' is not a test trigger (triggerKind='' @ [CHR 0x22]
                      @ trigger_mode_text (nc_triggerKind c) @ [CHR 0x22] @ '')''))
               else if \<not> generates c then Inl (plain_error (''Test trigger '' @ n @ '' is missing a generateItems implementation''))
               else Inr \<lparr>sp'_testSuiteRunId = opt_or (sa_testSuiteRunId args) newId, sp'_workflow = sa_workflow args,
                      sp'_triggerNodeId = n, sp'_triggerNodeName = opt_else (nd_name d) (nc_name c),
                      sp'_concurrency = max 1 (opt_or (opt_else (sa_concurrency args) (concurrencyOf c)) default_concurrency),
                      sp'_caseLabel = caseLabel c\<rparr>)"

text \<open>
  The loop over the generator waits for an item, or for a slot for one, or, having been left after an abort, for the
  generator to be closed, or has ended.
\<close>

datatype suite_phase =
    AwaitItem
  | AwaitSlot item
  | Closing
  | Draining
  | Finished suite_result
  | Thrown js_error

record suite_state =
  ss'_phase :: suite_phase
  ss'_nextIndex :: nat
  ss'_inFlight :: nat
  ss'_running :: "(nat \<times> item \<times> run_id option) list"
  ss'_cases :: "case_outcome list"
  ss'_failed :: "(nat \<times> js_error) list"
  ss'_generationError :: "js_error option"
  ss'_aborted :: bool
  ss'_requests :: "(nat \<times> item \<times> execution_options) list"
  ss'_events :: "run_event list"

definition start_suite :: "suite_spec \<Rightarrow> bool \<Rightarrow> iso_time \<Rightarrow> suite_state" where
  "start_suite sp aborted now =
    \<lparr>ss'_phase = AwaitItem, ss'_nextIndex = 0, ss'_inFlight = 0, ss'_running = [], ss'_cases = [], ss'_failed = [],
     ss'_generationError = None, ss'_aborted = aborted, ss'_requests = [],
     ss'_events = [TestSuiteStartedEvent (sp'_testSuiteRunId sp) (wf_id (sp'_workflow sp)) (sp'_triggerNodeId sp)
       (if truthy_string (sp'_triggerNodeName sp) then sp'_triggerNodeName sp else None) (sp'_concurrency sp) now]\<rparr>"

section \<open>One case\<close>

definition resolve_case_label :: "suite_spec \<Rightarrow> item \<Rightarrow> string option" where
  "resolve_case_label sp it =
    (case sp'_caseLabel sp it of
       LabelGives (JStr s) \<Rightarrow> if js_trim s = [] then None else Some (js_trim s)
     | _ \<Rightarrow> None)"

definition case_options :: "suite_spec \<Rightarrow> nat \<Rightarrow> item \<Rightarrow> execution_options" where
  "case_options sp i it =
    empty_execution_options\<lparr>eo_testContext :=
      Some \<lparr>tc_testSuiteRunId = sp'_testSuiteRunId sp, tc_testCaseIndex = i, tc_testCaseLabel = resolve_case_label sp it\<rparr>\<rparr>"

text \<open>The item has got its slot: its case is begun, or the suite has been aborted meanwhile and the slot is given back.\<close>

definition take_slot :: "suite_spec \<Rightarrow> item \<Rightarrow> suite_state \<Rightarrow> suite_state" where
  "take_slot sp it S =
    (if ss'_aborted S then S\<lparr>ss'_phase := Closing\<rparr>
     else let i = ss'_nextIndex S
          in S\<lparr>ss'_phase := AwaitItem, ss'_nextIndex := Suc i, ss'_inFlight := Suc (ss'_inFlight S),
               ss'_running := ss'_running S @ [(i, it, None)],
               ss'_requests := ss'_requests S @ [(i, it, case_options sp i it)]\<rparr>)"

definition case_started :: "suite_spec \<Rightarrow> nat \<Rightarrow> item \<Rightarrow> run_id \<Rightarrow> iso_time \<Rightarrow> suite_state \<Rightarrow> suite_state" where
  "case_started sp i it r now S =
    S\<lparr>ss'_running := map (\<lambda>x. if fst x = i then (i, it, Some r) else x) (ss'_running S),
      ss'_events := ss'_events S @ [TestCaseStartedEvent (sp'_testSuiteRunId sp) i r (wf_id (sp'_workflow sp))
        (resolve_case_label sp it) now]\<rparr>"

fun case_status :: "run_result \<Rightarrow> case_run_status" where
  "case_status (ResCompleted _ _) = CaseSucceeded"
| "case_status _ = CaseFailed"

definition release_slot :: "nat \<Rightarrow> suite_state \<Rightarrow> suite_state" where
  "release_slot i S = S\<lparr>ss'_inFlight := ss'_inFlight S - 1, ss'_running := filter (\<lambda>x. fst x \<noteq> i) (ss'_running S)\<rparr>"

definition case_finished :: "suite_spec \<Rightarrow> nat \<Rightarrow> run_id \<Rightarrow> case_run_status \<Rightarrow> iso_time \<Rightarrow> suite_state \<Rightarrow> suite_state" where
  "case_finished sp i r status now S =
    release_slot i (S\<lparr>ss'_cases := ss'_cases S @ [\<lparr>co_testCaseIndex = i, co_runId = r, co_status = status\<rparr>],
      ss'_events := ss'_events S @ [TestCaseCompletedEvent (sp'_testSuiteRunId sp) i r (wf_id (sp'_workflow sp)) status now]\<rparr>)"

definition case_threw :: "nat \<Rightarrow> js_error \<Rightarrow> suite_state \<Rightarrow> suite_state" where
  "case_threw i e S = release_slot i (S\<lparr>ss'_failed := ss'_failed S @ [(i, e)]\<rparr>)"

section \<open>The end\<close>

definition derive_suite_status :: "bool \<Rightarrow> bool \<Rightarrow> nat \<Rightarrow> nat \<Rightarrow> nat \<Rightarrow> suite_run_status" where
  "derive_suite_status genError cancelled cases passed failed =
    (if genError \<and> cases = 0 then SuiteErrored
     else if cancelled then SuiteCancelled
     else if genError then SuiteErrored
     else if cases = 0 then SuiteSucceeded
     else if failed = 0 then SuiteSucceeded
     else if passed = 0 then SuiteFailed
     else SuitePartial)"

definition suite_result_of :: "suite_spec \<Rightarrow> suite_state \<Rightarrow> suite_result" where
  "suite_result_of sp S =
    (let cases = sort_key co_testCaseIndex (ss'_cases S);
         n = length cases;
         passed = length (filter (\<lambda>c. co_status c = CaseSucceeded) cases);
         failed = length (filter (\<lambda>c. co_status c = CaseFailed) cases)
     in \<lparr>sr_testSuiteRunId = sp'_testSuiteRunId sp, sr_workflowId = wf_id (sp'_workflow sp), sr_triggerNodeId = sp'_triggerNodeId sp,
         sr_status = derive_suite_status (ss'_generationError S \<noteq> None) (ss'_aborted S) n passed failed,
         sr_totalCases = n, sr_passedCases = passed, sr_failedCases = failed, sr_cases = cases\<rparr>)"

definition finish_suite :: "suite_spec \<Rightarrow> iso_time \<Rightarrow> suite_state \<Rightarrow> suite_state" where
  "finish_suite sp now S =
    (let res = suite_result_of sp S
     in S\<lparr>ss'_events := ss'_events S @ [TestSuiteFinishedEvent (sr_testSuiteRunId res) (sr_workflowId res) (sr_status res)
            (sr_totalCases res) (sr_passedCases res) (sr_failedCases res) now],
          ss'_phase := (case ss'_generationError S of
             Some e \<Rightarrow> if sr_status res = SuiteErrored then Thrown e else Finished res
           | None \<Rightarrow> Finished res)\<rparr>)"

section \<open>The machine\<close>

datatype suite_label =
    Generated item
  | GeneratorDone
  | GeneratorThrew js_error
  | SlotTaken
  | CaseStarted nat run_id
  | CaseFinished nat run_result
  | CaseThrew nat js_error
  | Aborted
  | SuiteFinished
  | SuiteThrew

fun is_reading :: "suite_phase \<Rightarrow> bool" where
  "is_reading AwaitItem = True"
| "is_reading (AwaitSlot _) = True"
| "is_reading Closing = True"
| "is_reading _ = False"

text \<open>
  The signal is listened to while the generator is being read.  A run that has already ended when it is started is not
  waited for; a case may throw before or after its run was started.  The suite ends when all its cases have, or as soon
  as one of them has thrown.
\<close>

inductive suite_step :: "suite_spec \<Rightarrow> suite_state \<Rightarrow> suite_label \<Rightarrow> suite_state \<Rightarrow> bool" for sp where
  generated: "ss'_phase S = AwaitItem \<Longrightarrow>
    suite_step sp S (Generated it) (S\<lparr>ss'_phase := (if ss'_aborted S then Closing else AwaitSlot it)\<rparr>)"
| generator_done: "ss'_phase S \<in> {AwaitItem, Closing} \<Longrightarrow> suite_step sp S GeneratorDone (S\<lparr>ss'_phase := Draining\<rparr>)"
| generator_threw: "ss'_phase S \<in> {AwaitItem, Closing} \<Longrightarrow>
    suite_step sp S (GeneratorThrew e) (S\<lparr>ss'_phase := Draining, ss'_generationError := Some e\<rparr>)"
| slot: "ss'_phase S = AwaitSlot it \<Longrightarrow> ss'_inFlight S < sp'_concurrency sp \<Longrightarrow> suite_step sp S SlotTaken (take_slot sp it S)"
| started: "(i, it, None) \<in> set (ss'_running S) \<Longrightarrow> suite_step sp S (CaseStarted i r) (case_started sp i it r now S)"
| finished: "(i, it, Some r) \<in> set (ss'_running S) \<Longrightarrow> is_final_result res \<Longrightarrow>
    suite_step sp S (CaseFinished i res) (case_finished sp i r (case_status res) now S)"
| threw: "(i, it, r) \<in> set (ss'_running S) \<Longrightarrow> suite_step sp S (CaseThrew i e) (case_threw i e S)"
| aborted: "is_reading (ss'_phase S) \<Longrightarrow> suite_step sp S Aborted (S\<lparr>ss'_aborted := True\<rparr>)"
| all_done: "ss'_phase S = Draining \<Longrightarrow> ss'_running S = [] \<Longrightarrow> ss'_failed S = [] \<Longrightarrow>
    suite_step sp S SuiteFinished (finish_suite sp now S)"
| case_error: "ss'_phase S = Draining \<Longrightarrow> ss'_failed S = (i, e) # fs \<Longrightarrow>
    suite_step sp S SuiteThrew (S\<lparr>ss'_phase := Thrown e\<rparr>)"

inductive suite_trace :: "suite_spec \<Rightarrow> bool \<Rightarrow> suite_label list \<Rightarrow> suite_state \<Rightarrow> bool" for sp aborted where
  start: "suite_trace sp aborted [] (start_suite sp aborted now)"
| step: "suite_trace sp aborted ls S \<Longrightarrow> suite_step sp S l S' \<Longrightarrow> suite_trace sp aborted (ls @ [l]) S'"

section \<open>Properties\<close>

definition generated_items :: "suite_label list \<Rightarrow> item list" where
  "generated_items ls = List.map_filter (\<lambda>l. case l of Generated it \<Rightarrow> Some it | _ \<Rightarrow> None) ls"

lemma generated_items_simps [simp]:
  "generated_items [] = []"
  "generated_items (ls @ [Generated it]) = generated_items ls @ [it]"
  by (simp_all add: generated_items_def List.map_filter_def)

lemma generated_items_other: "(\<And>it. l \<noteq> Generated it) \<Longrightarrow> generated_items (ls @ [l]) = generated_items ls"
  by (cases l) (simp_all add: generated_items_def List.map_filter_def)

definition case_indices :: "suite_state \<Rightarrow> nat list" where
  "case_indices S = map fst (ss'_running S) @ map co_testCaseIndex (ss'_cases S) @ map fst (ss'_failed S)"

fun is_suite_finished :: "run_event \<Rightarrow> bool" where
  "is_suite_finished (TestSuiteFinishedEvent _ _ _ _ _ _ _) = True"
| "is_suite_finished _ = False"

definition is_ended :: "suite_phase \<Rightarrow> bool" where
  "is_ended p = (p \<noteq> Draining \<and> \<not> is_reading p)"

definition suite_inv :: "suite_spec \<Rightarrow> suite_label list \<Rightarrow> suite_state \<Rightarrow> bool" where
  "suite_inv sp ls S =
    (ss'_inFlight S = length (ss'_running S) \<and> ss'_inFlight S \<le> sp'_concurrency sp
     \<and> distinct (case_indices S) \<and> set (case_indices S) = {..<ss'_nextIndex S}
     \<and> map fst (ss'_requests S) = [0..<ss'_nextIndex S]
     \<and> map (fst \<circ> snd) (ss'_requests S) = take (ss'_nextIndex S) (generated_items ls)
     \<and> length (generated_items ls) \<ge> ss'_nextIndex S
     \<and> (ss'_phase S = AwaitItem \<longrightarrow> length (generated_items ls) = ss'_nextIndex S)
     \<and> (\<forall>it. ss'_phase S = AwaitSlot it \<longrightarrow> (\<exists>its. generated_items ls = its @ [it] \<and> length its = ss'_nextIndex S))
     \<and> (\<forall>(i, it, opts) \<in> set (ss'_requests S). opts = case_options sp i it)
     \<and> (\<forall>c \<in> set (ss'_cases S). \<exists>res. CaseFinished (co_testCaseIndex c) res \<in> set ls \<and> co_status c = case_status res))"

lemma filter_fst_split:
  assumes "distinct (map fst xs)" "(i, y) \<in> set xs"
  shows "\<exists>us vs. xs = us @ (i, y) # vs \<and> filter (\<lambda>x. fst x \<noteq> i) xs = us @ vs"
proof -
  obtain us vs where "xs = us @ (i, y) # vs" using assms(2) by (meson split_list)
  moreover from this assms(1) have "\<forall>x \<in> set us \<union> set vs. fst x \<noteq> i" by force
  ultimately show ?thesis by (auto simp: filter_id_conv)
qed

lemma suite_inv_frame:
  assumes "suite_inv sp ls S" "\<And>it. l \<noteq> Generated it"
    and "ss'_nextIndex S' = ss'_nextIndex S" "ss'_phase S' = ss'_phase S" "ss'_requests S' = ss'_requests S"
    and "ss'_inFlight S' = length (ss'_running S')" "length (ss'_running S') \<le> length (ss'_running S)"
    and "mset (case_indices S') = mset (case_indices S)"
    and "\<And>c. c \<in> set (ss'_cases S') \<Longrightarrow> c \<in> set (ss'_cases S) \<or> (\<exists>res. CaseFinished (co_testCaseIndex c) res = l \<and> co_status c = case_status res)"
  shows "suite_inv sp (ls @ [l]) S'"
proof -
  have "distinct (case_indices S') = distinct (case_indices S)" by (rule mset_eq_imp_distinct_iff) (rule assms(8))
  moreover have "set (case_indices S') = set (case_indices S)" by (rule mset_eq_setD) (rule assms(8))
  moreover have "\<forall>c \<in> set (ss'_cases S'). \<exists>res. CaseFinished (co_testCaseIndex c) res \<in> set (ls @ [l]) \<and> co_status c = case_status res"
    using assms(1,9) unfolding suite_inv_def by fastforce
  ultimately show ?thesis using assms(1-7) by (simp add: suite_inv_def generated_items_other)
qed

lemma release_slot_facts:
  assumes inv: "suite_inv sp ls S" and i: "(i, y) \<in> set (ss'_running S)"
  shows "ss'_inFlight S - 1 = length (filter (\<lambda>x. fst x \<noteq> i) (ss'_running S))"
    and "mset (i # map fst (filter (\<lambda>x. fst x \<noteq> i) (ss'_running S))) = mset (map fst (ss'_running S))"
proof -
  have "distinct (map fst (ss'_running S))" using inv by (simp add: suite_inv_def case_indices_def)
  then obtain us vs where u: "ss'_running S = us @ (i, y) # vs" "filter (\<lambda>x. fst x \<noteq> i) (ss'_running S) = us @ vs"
    using filter_fst_split [OF _ i] by blast
  have "ss'_inFlight S = length (ss'_running S)" using inv by (simp add: suite_inv_def)
  then show "ss'_inFlight S - 1 = length (filter (\<lambda>x. fst x \<noteq> i) (ss'_running S))" by (simp only: u(2)) (simp add: u(1))
  show "mset (i # map fst (filter (\<lambda>x. fst x \<noteq> i) (ss'_running S))) = mset (map fst (ss'_running S))"
    by (simp only: u(2)) (simp add: u(1))
qed

lemma suite_inv_finished:
  assumes inv: "suite_inv sp ls S" and i: "(i, y) \<in> set (ss'_running S)"
  shows "suite_inv sp (ls @ [CaseFinished i res]) (case_finished sp i r (case_status res) now S)"
proof (rule suite_inv_frame [OF inv])
  show "mset (case_indices (case_finished sp i r (case_status res) now S)) = mset (case_indices S)"
    using release_slot_facts(2) [OF inv i, symmetric] by (simp add: case_finished_def release_slot_def case_indices_def)
qed (use release_slot_facts(1) [OF inv i] in \<open>auto simp: case_finished_def release_slot_def\<close>)

lemma suite_inv_threw:
  assumes inv: "suite_inv sp ls S" and i: "(i, y) \<in> set (ss'_running S)"
  shows "suite_inv sp (ls @ [CaseThrew i e]) (case_threw i e S)"
proof (rule suite_inv_frame [OF inv])
  show "mset (case_indices (case_threw i e S)) = mset (case_indices S)"
    using release_slot_facts(2) [OF inv i, symmetric] by (simp add: case_threw_def release_slot_def case_indices_def)
qed (use release_slot_facts(1) [OF inv i] in \<open>auto simp: case_threw_def release_slot_def\<close>)

lemma suite_inv_started:
  assumes inv: "suite_inv sp ls S"
  shows "suite_inv sp (ls @ [CaseStarted i r]) (case_started sp i it r now S)"
proof (rule suite_inv_frame [OF inv])
  have "map fst (map (\<lambda>x. if fst x = i then (i, it, Some r) else x) xs) = map fst xs" for xs :: "(nat \<times> item \<times> run_id option) list"
    by (induction xs) auto
  then show "mset (case_indices (case_started sp i it r now S)) = mset (case_indices S)"
    by (simp add: case_started_def case_indices_def del: map_map)
qed (use inv in \<open>auto simp: case_started_def suite_inv_def\<close>)

lemma suite_inv_slot:
  assumes inv: "suite_inv sp ls S" and ph: "ss'_phase S = AwaitSlot it" and free: "ss'_inFlight S < sp'_concurrency sp"
  shows "suite_inv sp (ls @ [SlotTaken]) (take_slot sp it S)"
proof -
  obtain its where g: "generated_items ls = its @ [it]" "length its = ss'_nextIndex S"
    using inv ph by (auto simp: suite_inv_def)
  show ?thesis
  proof (cases "ss'_aborted S")
    case True
    then show ?thesis using inv by (simp add: suite_inv_def take_slot_def case_indices_def generated_items_other)
  next
    case False
    have "map (fst \<circ> snd) (ss'_requests S) = its" "distinct (case_indices S)" "set (case_indices S) = {..<ss'_nextIndex S}"
      using inv g by (simp_all add: suite_inv_def)
    then show ?thesis using inv free False g
      by (auto simp: suite_inv_def take_slot_def Let_def case_indices_def generated_items_other lessThan_Suc)
  qed
qed

text \<open>The steps that move the reading of the generator leave the cases alone.\<close>

lemma suite_inv_reading:
  assumes "suite_inv sp ls S" "\<not> is_reading (ss'_phase S')" "\<And>it. l \<noteq> Generated it"
    and "ss'_nextIndex S' = ss'_nextIndex S" "ss'_requests S' = ss'_requests S" "ss'_inFlight S' = ss'_inFlight S"
    and "ss'_running S' = ss'_running S" "ss'_cases S' = ss'_cases S" "ss'_failed S' = ss'_failed S"
  shows "suite_inv sp (ls @ [l]) S'"
  using assms by (auto simp: suite_inv_def case_indices_def generated_items_other)

lemma suite_inv_step:
  assumes "suite_step sp S l S'" "suite_inv sp ls S"
  shows "suite_inv sp (ls @ [l]) S'"
  using assms
proof (induction rule: suite_step.induct)
  case (generated S it)
  then show ?case by (auto simp: suite_inv_def case_indices_def)
next
  case (aborted S)
  then show ?case by (intro suite_inv_frame [OF aborted.prems]) (auto simp: suite_inv_def case_indices_def)
next
  case (all_done S now)
  then show ?case by (intro suite_inv_reading [OF all_done.prems]) (auto simp: finish_suite_def Let_def split: option.splits)
qed (auto intro: suite_inv_reading suite_inv_finished suite_inv_threw suite_inv_started suite_inv_slot)

lemma suite_trace_inv: "suite_trace sp aborted ls S \<Longrightarrow> suite_inv sp ls S"
proof (induction rule: suite_trace.induct)
  case (start now)
  then show ?case by (simp add: suite_inv_def start_suite_def case_indices_def)
qed (rule suite_inv_step)

lemma suite_step_not_ended:
  assumes "suite_step sp S l S'" "ss'_running S = []" "is_ended (ss'_phase S)"
  shows False
  using assms by (cases rule: suite_step.cases) (auto simp: is_ended_def)

text \<open>
  Once the suite is over, and not because of a case that has thrown, no case is left and its result is that of its
  cases; only then has the end been published.
\<close>

definition suite_settled :: "suite_spec \<Rightarrow> suite_state \<Rightarrow> bool" where
  "suite_settled sp S =
    (is_ended (ss'_phase S) \<and> ss'_running S = [] \<and> ss'_failed S = []
     \<and> (\<forall>res. ss'_phase S = Finished res \<longrightarrow> res = suite_result_of sp S))"

definition end_inv :: "suite_spec \<Rightarrow> suite_label list \<Rightarrow> suite_state \<Rightarrow> bool" where
  "end_inv sp ls S =
    (((\<exists>ev \<in> set (ss'_events S). is_suite_finished ev) \<longrightarrow> suite_settled sp S)
     \<and> ((\<exists>res. ss'_phase S = Finished res) \<longrightarrow> suite_settled sp S)
     \<and> ((\<exists>i e. CaseThrew i e \<in> set ls) \<longrightarrow> ss'_failed S \<noteq> []))"

lemma end_inv_step:
  assumes st: "suite_step sp S l S'" and inv: "end_inv sp ls S"
  shows "end_inv sp (ls @ [l]) S'"
proof -
  have "\<not> suite_settled sp S" using suite_step_not_ended [OF st] by (auto simp: suite_settled_def)
  then have none: "\<forall>ev \<in> set (ss'_events S). \<not> is_suite_finished ev" "\<forall>res. ss'_phase S \<noteq> Finished res"
    and failed: "(\<exists>i e. CaseThrew i e \<in> set ls) \<longrightarrow> ss'_failed S \<noteq> []" using inv by (auto simp: end_inv_def)
  from st show ?thesis
  proof (cases rule: suite_step.cases)
    case (all_done now)
    have res: "suite_result_of sp S' = suite_result_of sp S"
      by (simp add: all_done finish_suite_def suite_result_of_def Let_def)
    have "suite_settled sp S'"
      using all_done res by (auto simp: suite_settled_def finish_suite_def Let_def is_ended_def split: option.splits if_splits)
    then show ?thesis using all_done failed by (auto simp: end_inv_def finish_suite_def Let_def)
  qed (use none failed in \<open>auto simp: end_inv_def take_slot_def Let_def case_started_def case_finished_def case_threw_def
         release_slot_def split: if_splits\<close>)
qed

lemma suite_trace_end: "suite_trace sp aborted ls S \<Longrightarrow> end_inv sp ls S"
proof (induction rule: suite_trace.induct)
  case (start now)
  then show ?case by (simp add: end_inv_def start_suite_def)
qed (rule end_inv_step)

lemma sorted_indices:
  assumes "distinct (map f xs)" "set (map f xs) = {..<n}"
  shows "map f (sort_key f xs) = [0..<n]"
proof -
  have "sorted (map f (sort_key f xs))" by (rule sorted_sort_key)
  moreover have "distinct (map f (sort_key f xs))" using assms(1) by (metis distinct_map distinct_sort set_sort)
  moreover have "set (map f (sort_key f xs)) = set [0..<n]" using assms(2) by (simp add: lessThan_atLeast0)
  ultimately show ?thesis by (intro sorted_distinct_set_unique) simp_all
qed

lemma cases_split:
  assumes "\<forall>c \<in> set cs. \<exists>res. co_status c = case_status res"
  shows "length (filter (\<lambda>c. co_status c = CaseSucceeded) cs) + length (filter (\<lambda>c. co_status c = CaseFailed) cs) = length cs"
  using assms
proof (induction cs)
  case (Cons c cs)
  then obtain res where "co_status c = case_status res" by auto
  then have "co_status c = CaseSucceeded \<or> co_status c = CaseFailed" by (cases res) auto
  then show ?case using Cons by auto
qed simp

section \<open>What a suite promises\<close>

text \<open>A suite never has more cases in flight than its concurrency; the cases are numbered in the order of the
  generator and the case with number i runs the i-th item with a test context that names the suite, i and its label.\<close>

theorem suite_runs_items_in_order:
  assumes "suite_trace sp aborted ls S"
  shows "length (ss'_running S) \<le> sp'_concurrency sp
    \<and> map fst (ss'_requests S) = [0..<ss'_nextIndex S]
    \<and> map (fst \<circ> snd) (ss'_requests S) = take (ss'_nextIndex S) (generated_items ls)
    \<and> (\<forall>(i, it, opts) \<in> set (ss'_requests S). opts = case_options sp i it)"
  using suite_trace_inv [OF assms] by (auto simp: suite_inv_def)

text \<open>C34. When a suite returns, however its cases were interleaved, its result lists one outcome for each case it
  began, in order, each with the status of the run of that case; every case has passed or failed, and the suite's status
  follows from the counts.\<close>

theorem suite_result_complete:
  assumes "suite_trace sp aborted ls S" "ss'_phase S = Finished res"
  shows "map co_testCaseIndex (sr_cases res) = [0..<ss'_nextIndex S]
    \<and> (\<forall>c \<in> set (sr_cases res). \<exists>r. CaseFinished (co_testCaseIndex c) r \<in> set ls \<and> co_status c = case_status r)
    \<and> sr_totalCases res = ss'_nextIndex S \<and> sr_passedCases res + sr_failedCases res = sr_totalCases res
    \<and> sr_status res = derive_suite_status (ss'_generationError S \<noteq> None) (ss'_aborted S)
        (sr_totalCases res) (sr_passedCases res) (sr_failedCases res)"
proof -
  note inv = suite_trace_inv [OF assms(1)]
  have "suite_settled sp S" using suite_trace_end [OF assms(1)] assms(2) by (auto simp: end_inv_def)
  then have s: "ss'_running S = []" "ss'_failed S = []" "res = suite_result_of sp S" using assms(2) by (auto simp: suite_settled_def)
  have ix: "map co_testCaseIndex (sort_key co_testCaseIndex (ss'_cases S)) = [0..<ss'_nextIndex S]"
    using inv s(1,2) by (intro sorted_indices) (simp_all add: suite_inv_def case_indices_def)
  have n: "length (ss'_cases S) = ss'_nextIndex S"
    using arg_cong [OF ix, of length] by simp
  have st: "\<forall>c \<in> set (ss'_cases S). \<exists>r. CaseFinished (co_testCaseIndex c) r \<in> set ls \<and> co_status c = case_status r"
    using inv by (simp add: suite_inv_def)
  have "\<forall>c \<in> set (sort_key co_testCaseIndex (ss'_cases S)). \<exists>r. co_status c = case_status r" using st by auto
  from cases_split [OF this] show ?thesis using ix n st s(3)
    by (simp add: suite_result_of_def Let_def)
qed

text \<open>Once a case has thrown (its run could not be started or awaited), the end of the suite is never published:
  the suite stays as running for every listener of the bus.\<close>

theorem thrown_case_hides_end:
  assumes "suite_trace sp aborted ls S" "CaseThrew i e \<in> set ls"
  shows "\<forall>ev \<in> set (ss'_events S). \<not> is_suite_finished ev"
  using suite_trace_end [OF assms(1)] assms(2) by (auto simp: end_inv_def suite_settled_def)

text \<open>A suite of one item whose run fails, and one whose case throws.\<close>

definition sample_suite :: suite_spec where
  "sample_suite = \<lparr>sp'_testSuiteRunId = ''ts'', sp'_workflow = sample_workflow, sp'_triggerNodeId = ''t'', sp'_triggerNodeName = None,
     sp'_concurrency = 1, sp'_caseLabel = (\<lambda>it. LabelGives (JStr '' one ''))\<rparr>"

definition sample_failed :: run_result where
  "sample_failed = ResFailed \<lparr>rh_runId = ''r'', rh_workflowId = ''wf'', rh_startedAt = ''t0''\<rparr> ''no''"

definition sample_begun :: suite_state where
  "sample_begun = take_slot sample_suite (sample_item ''x'')
     ((start_suite sample_suite False ''t0'')\<lparr>ss'_phase := AwaitSlot (sample_item ''x'')\<rparr>)"

definition sample_drained :: suite_state where
  "sample_drained = (case_finished sample_suite 0 ''r'' CaseFailed ''t2''
     (case_started sample_suite 0 (sample_item ''x'') ''r'' ''t1'' sample_begun))\<lparr>ss'_phase := Draining\<rparr>"

lemmas sample_suite_simps = sample_begun_def sample_drained_def take_slot_def start_suite_def case_started_def case_finished_def
  release_slot_def Let_def

lemma sample_begun_trace: "suite_trace sample_suite False [Generated (sample_item ''x''), SlotTaken] sample_begun"
proof -
  note st = suite_trace.step [OF suite_trace.start [of _ _ "''t0''"] suite_step.generated [where it = "sample_item ''x''"], of sample_suite False]
  have 1: "suite_trace sample_suite False [Generated (sample_item ''x'')]
    ((start_suite sample_suite False ''t0'')\<lparr>ss'_phase := AwaitSlot (sample_item ''x'')\<rparr>)" (is "suite_trace _ _ _ ?S")
    using st by (simp add: start_suite_def)
  have "suite_step sample_suite ?S SlotTaken sample_begun" unfolding sample_begun_def
    by (rule suite_step.slot) (simp_all add: start_suite_def sample_suite_def)
  from suite_trace.step [OF 1 this] show ?thesis by simp
qed

lemma sample_finished_trace:
  "suite_trace sample_suite False
     [Generated (sample_item ''x''), SlotTaken, CaseStarted 0 ''r'', CaseFinished 0 sample_failed, GeneratorDone, SuiteFinished]
     (finish_suite sample_suite ''t3'' sample_drained)"
proof -
  let ?b = "case_started sample_suite 0 (sample_item ''x'') ''r'' ''t1'' sample_begun"
  let ?c = "case_finished sample_suite 0 ''r'' (case_status sample_failed) ''t2'' ?b"
  have "suite_step sample_suite sample_begun (CaseStarted 0 ''r'') ?b"
    by (rule suite_step.started) (simp add: sample_suite_simps)
  note 1 = suite_trace.step [OF sample_begun_trace this]
  have "suite_step sample_suite ?b (CaseFinished 0 sample_failed) ?c"
    by (rule suite_step.finished) (simp_all add: sample_suite_simps sample_failed_def)
  note 2 = suite_trace.step [OF 1 this]
  have "suite_step sample_suite ?c GeneratorDone (?c\<lparr>ss'_phase := Draining\<rparr>)"
    by (rule suite_step.generator_done) (simp add: sample_suite_simps)
  note 3 = suite_trace.step [OF 2 this]
  have "suite_step sample_suite sample_drained SuiteFinished (finish_suite sample_suite ''t3'' sample_drained)"
    by (rule suite_step.all_done) (simp_all add: sample_suite_simps)
  then show ?thesis using suite_trace.step [OF 3] by (simp add: sample_drained_def sample_failed_def)
qed

lemma sample_threw_trace:
  "suite_trace sample_suite False [Generated (sample_item ''x''), SlotTaken, CaseThrew 0 (plain_error ''lost'')]
     (case_threw 0 (plain_error ''lost'') sample_begun)"
proof -
  have "suite_step sample_suite sample_begun (CaseThrew 0 (plain_error ''lost'')) (case_threw 0 (plain_error ''lost'') sample_begun)"
    by (rule suite_step.threw) (simp add: sample_suite_simps)
  from suite_trace.step [OF sample_begun_trace this] show ?thesis by simp
qed

lemma suite_runs_items_in_order_witness:
  "map (fst \<circ> snd) (ss'_requests sample_begun) = take (ss'_nextIndex sample_begun) [sample_item ''x'']"
  using suite_runs_items_in_order [OF sample_begun_trace] by (simp add: generated_items_def List.map_filter_def)

lemma suite_result_complete_witness:
  "map co_testCaseIndex (sr_cases (suite_result_of sample_suite sample_drained)) = [0..<1]"
proof -
  have "ss'_phase (finish_suite sample_suite ''t3'' sample_drained) = Finished (suite_result_of sample_suite sample_drained)"
    by (simp add: finish_suite_def sample_suite_simps)
  moreover have "ss'_nextIndex (finish_suite sample_suite ''t3'' sample_drained) = 1"
    by (simp add: finish_suite_def sample_suite_simps)
  ultimately show ?thesis using suite_result_complete [OF sample_finished_trace] by simp
qed

lemma thrown_case_hides_end_witness:
  "filter is_suite_finished (ss'_events (case_threw 0 (plain_error ''lost'') sample_begun)) = []"
  unfolding filter_empty_conv by (rule thrown_case_hides_end [OF sample_threw_trace]) simp

lemma prepare_suite_concurrency: "prepare_suite g c l ident args = Inr sp \<Longrightarrow> 1 \<le> sp'_concurrency sp"
  by (auto simp: prepare_suite_def Let_def split: option.splits if_splits)

text \<open>A prepared suite that waits for a slot waits for a case: the wait ends when that case does.\<close>

lemma waiting_for_a_case:
  assumes "prepare_suite g c l ident args = Inr sp" "suite_trace sp aborted ls S"
    and "ss'_phase S = AwaitSlot it" "\<not> ss'_inFlight S < sp'_concurrency sp"
  shows "ss'_running S \<noteq> []"
  using suite_trace_inv [OF assms(2)] prepare_suite_concurrency [OF assms(1)] assms(3,4) by (auto simp: suite_inv_def)

end
