(* ===== verification/Dsl.thy ===== *)
theory Dsl
  imports Suspension Planning QueuePlanner Sample
begin

text \<open>
  \<open>workflow/dsl/\<close>: the builder with which a program puts a workflow together, its cursors and branches, the ids it
  derives from labels and the check of the ids when it builds; \<open>ai/AgentConnectionNodeCollector.ts\<close>, which lists the
  children of an agent; \<open>validation/WorkflowEdgePortValidator.ts\<close>.  What the code reads of an agent's configuration is
  its view, a parameter; configurations are values here, so that one configuration object used twice is two.
\<close>

section \<open>Ids from labels\<close>

text \<open>\<open>replace(/[^a-z0-9]+/g, "-")\<close>; the flag says that the previous character was replaced.\<close>

fun dash_runs :: "bool \<Rightarrow> string \<Rightarrow> string" where
  "dash_runs inRun [] = []"
| "dash_runs inRun (c # s) =
    (if is_slug_char c then c # dash_runs False s
     else if inRun then dash_runs True s else CHR ''-'' # dash_runs True s)"

definition slugify :: "string \<Rightarrow> string" where
  "slugify label =
    (let dashed = dash_runs False (map lower_char label)
     in rev (dropWhile (\<lambda>c. c = CHR ''-'') (rev (dropWhile (\<lambda>c. c = CHR ''-'') dashed))))"

section \<open>Agents\<close>

datatype messages_view =
    MessagesMissing
  | MessagesArray nat
  | MessagesObject bool "nat option" bool
  | MessagesOther

text \<open>
  A model has a name and maybe a label; a tool has these and, when it is backed by a node, the configuration of the
  node.  An object of messages may be an item expression, have an array \<open>prompt\<close>, or a function \<open>buildMessages\<close>.
\<close>

datatype agent_view = AgentView
  (av_chatModel: "(string \<times> string option) option")
  (av_messages: messages_view)
  (av_tools: "tool_view list")
  (av_mcpServers: "string list")
and tool_view = ToolView (to_name: string) (to_label: "string option") (to_node: "agent_view option")

fun compatible_messages :: "messages_view \<Rightarrow> bool" where
  "compatible_messages MessagesMissing = False"
| "compatible_messages (MessagesArray n) = (n > 0)"
| "compatible_messages (MessagesObject isExpr prompt build) = (isExpr \<or> opt_or prompt 0 > 0 \<or> build)"
| "compatible_messages MessagesOther = False"

definition is_agent_config :: "agent_view \<Rightarrow> bool" where
  "is_agent_config a = (av_chatModel a \<noteq> None \<and> compatible_messages (av_messages a))"

datatype connection_role = LanguageModelRole | ToolRole | NestedAgentRole

record connection_descriptor =
  cd_nodeId :: node_id
  cd_parentNodeId :: node_id
  cd_connectionName :: string
  cd_role :: connection_role
  cd_name :: string
  cd_typeName :: string

definition is_nested_agent :: "tool_view \<Rightarrow> bool" where
  "is_nested_agent t = (case to_node t of None \<Rightarrow> False | Some a \<Rightarrow> is_agent_config a)"

definition model_descriptor :: "node_id \<Rightarrow> agent_view \<Rightarrow> connection_descriptor" where
  "model_descriptor parent a =
    (let m = the (av_chatModel a)
     in \<lparr>cd_nodeId = language_model_connection_id parent, cd_parentNodeId = parent, cd_connectionName = ''llm'',
         cd_role = LanguageModelRole, cd_name = opt_or (snd m) (fst m), cd_typeName = fst m\<rparr>)"

definition tool_descriptor :: "node_id \<Rightarrow> tool_view \<Rightarrow> connection_descriptor" where
  "tool_descriptor parent t =
    \<lparr>cd_nodeId = tool_connection_id parent (to_name t), cd_parentNodeId = parent, cd_connectionName = ''tools'',
     cd_role = (if is_nested_agent t then NestedAgentRole else ToolRole),
     cd_name = opt_or (to_label t) (to_name t), cd_typeName = to_name t\<rparr>"

text \<open>The resolver of MCP servers, if there is one, gives the display name of a declared server.\<close>

definition mcp_descriptors :: "(string \<Rightarrow> string option) option \<Rightarrow> node_id \<Rightarrow> agent_view \<Rightarrow> connection_descriptor list" where
  "mcp_descriptors resolver parent a =
    (case resolver of
       None \<Rightarrow> []
     | Some f \<Rightarrow>
         concat (map (\<lambda>srv. case f srv of
             None \<Rightarrow> []
           | Some displayName \<Rightarrow>
               [\<lparr>cd_nodeId = mcp_connection_id parent srv, cd_parentNodeId = parent, cd_connectionName = ''tools'',
                 cd_role = ToolRole, cd_name = displayName, cd_typeName = ''MCP server''\<rparr>]) (av_mcpServers a)))"

fun collect_into :: "(string \<Rightarrow> string option) option \<Rightarrow> node_id \<Rightarrow> agent_view \<Rightarrow> connection_descriptor list"
  and collect_tools :: "(string \<Rightarrow> string option) option \<Rightarrow> node_id \<Rightarrow> tool_view list \<Rightarrow> connection_descriptor list" where
  "collect_into resolver parent (AgentView m msgs tools servers) =
    model_descriptor parent (AgentView m msgs tools servers) # collect_tools resolver parent tools
      @ mcp_descriptors resolver parent (AgentView m msgs tools servers)"
| "collect_tools resolver parent [] = []"
| "collect_tools resolver parent (ToolView name label node # ts) =
    tool_descriptor parent (ToolView name label node)
      # (case node of
           None \<Rightarrow> []
         | Some a \<Rightarrow> if is_agent_config a then collect_into resolver (tool_connection_id parent name) a else [])
      @ collect_tools resolver parent ts"

section \<open>The builder\<close>

record builder =
  wb_id :: workflow_id
  wb_name :: string
  wb_nodes :: "node_def list"
  wb_edges :: "edge list"

definition new_builder :: "workflow_id \<Rightarrow> string \<Rightarrow> builder" where
  "new_builder i name = \<lparr>wb_id = i, wb_name = name, wb_nodes = [], wb_edges = []\<rparr>"

definition config_node_id :: "node_config \<Rightarrow> node_id" where
  "config_node_id c = opt_or (nc_id c) (slugify (opt_or (nc_name c) []))"

definition builder_add :: "node_config \<Rightarrow> builder \<Rightarrow> node_id \<times> builder" where
  "builder_add c b =
    (config_node_id c,
     b\<lparr>wb_nodes := wb_nodes b @ [\<lparr>nd_id = config_node_id c, nd_kind = nc_kind c, nd_type = nc_type c, nd_name = nc_name c, nd_config = c\<rparr>]\<rparr>)"

definition builder_connect :: "node_id \<Rightarrow> node_id \<Rightarrow> port_key \<Rightarrow> port_key \<Rightarrow> builder \<Rightarrow> builder" where
  "builder_connect source target out inp b =
    b\<lparr>wb_edges := wb_edges b @ [\<lparr>e_from = \<lparr>or_node = source, or_output = out\<rparr>, e_to = \<lparr>ir_node = target, ir_input = inp\<rparr>\<rparr>]\<rparr>"

subsection \<open>The check of the ids\<close>

record id_entry =
  ie_nodeId :: node_id
  ie_tokenName :: string
  ie_label :: string

fun token_name :: "type_token \<Rightarrow> string" where
  "token_name (ClassToken _ name) = name"
| "token_name (StringToken s) = s"
| "token_name (SymbolToken s) = ''Symbol('' @ s @ '')''"

definition node_entries :: "(node_config \<Rightarrow> agent_view) \<Rightarrow> node_def \<Rightarrow> id_entry list" where
  "node_entries view n =
    \<lparr>ie_nodeId = nd_id n, ie_tokenName = token_name (nd_type n), ie_label = opt_or (nd_name n) []\<rparr>
      # (if is_agent_config (view (nd_config n))
         then map (\<lambda>d. \<lparr>ie_nodeId = cd_nodeId d, ie_tokenName = cd_typeName d, ie_label = cd_name d\<rparr>)
                (collect_into None (nd_id n) (view (nd_config n)))
         else [])"

definition id_entries :: "(node_config \<Rightarrow> agent_view) \<Rightarrow> node_def list \<Rightarrow> id_entry list" where
  "id_entries view nodes = concat (map (node_entries view) nodes)"

text \<open>An entry is an object of its own: entries carry their position.  The check collects the entries without id, the first
  entry of each id, and the entries that share one.\<close>

type_synonym numbered_entry = "nat \<times> id_entry"

fun sort_entries ::
  "numbered_entry list \<Rightarrow> numbered_entry list \<times> (node_id, numbered_entry) jmap \<times> numbered_entry list
    \<Rightarrow> numbered_entry list \<times> (node_id, numbered_entry) jmap \<times> numbered_entry list" where
  "sort_entries [] acc = acc"
| "sort_entries (e # es) (empties, seen, dups) =
    sort_entries es
      (if ie_nodeId (snd e) = [] then (empties @ [e], seen, dups)
       else case jget seen (ie_nodeId (snd e)) of
              Some existing \<Rightarrow> (empties, seen, (if existing \<in> set dups then dups else dups @ [existing]) @ [e])
            | None \<Rightarrow> (empties, jset (ie_nodeId (snd e)) e seen, dups))"

definition invalid_ids_error :: "id_entry list \<Rightarrow> id_entry list \<Rightarrow> js_error" where
  "invalid_ids_error empties dups =
    (plain_error (join_strings [CHR 0x0A]
      ([''WorkflowBuilder.build() found invalid node ids:'']
       @ (if empties = [] then [] else ''  Empty ids (label is blank and no explicit id was given):''
            # map (\<lambda>e. ''    - type '' @ quoted (ie_tokenName e) @ '' label '' @ quoted (ie_label e)) empties)
       @ (if dups = [] then [] else ''  Duplicate ids:''
            # map (\<lambda>e. ''    - id '' @ quoted (ie_nodeId e) @ '' type '' @ quoted (ie_tokenName e)
                     @ '' label '' @ quoted (ie_label e)) dups)
       @ [''  Fix: set an explicit `id:` on each offending node config.''])))\<lparr>err_name := ''WorkflowDefinitionError''\<rparr>"

definition validate_node_ids :: "(node_config \<Rightarrow> agent_view) \<Rightarrow> node_def list \<Rightarrow> js_error + unit" where
  "validate_node_ids view nodes =
    (case sort_entries (enumerate 0 (id_entries view nodes)) ([], [], []) of
       (empties, _, dups) \<Rightarrow>
         if empties = [] \<and> dups = [] then Inr () else Inl (invalid_ids_error (map snd empties) (map snd dups)))"

definition built_workflow :: "builder \<Rightarrow> workflow" where
  "built_workflow b =
    \<lparr>wf_id = wb_id b, wf_name = wb_name b, wf_nodes = wb_nodes b, wf_edges = wb_edges b, wf_connections = None,
     wf_discoveryPathSegments = None, wf_prunePolicy = None, wf_storagePolicy = None, wf_workflowErrorHandler = None\<rparr>"

definition builder_build :: "(node_config \<Rightarrow> agent_view) \<Rightarrow> builder \<Rightarrow> js_error + workflow" where
  "builder_build view b = bind_result (validate_node_ids view (wb_nodes b)) (\<lambda>_. Inr (built_workflow b))"

section \<open>Cursors\<close>

record endpoint =
  ep_node :: node_id
  ep_output :: port_key
  ep_inputPortHint :: "port_key option"

type_synonym cursor = "endpoint list"

definition plain_endpoint :: "node_id \<Rightarrow> endpoint" where
  "plain_endpoint n = \<lparr>ep_node = n, ep_output = ''main'', ep_inputPortHint = None\<rparr>"

text \<open>\<open>trigger\<close> and \<open>start\<close> do the same.\<close>

definition builder_start :: "node_config \<Rightarrow> builder \<Rightarrow> cursor \<times> builder" where
  "builder_start c b = (let (ref, b') = builder_add c b in ([plain_endpoint ref], b'))"

definition shared_hint :: "cursor \<Rightarrow> port_key option" where
  "shared_hint eps =
    (case eps of
       [] \<Rightarrow> None
     | e # _ \<Rightarrow> if truthy_string (ep_inputPortHint e) \<and> (\<forall>x \<in> set eps. ep_inputPortHint x = ep_inputPortHint e)
                then ep_inputPortHint e else None)"

definition cursor_then :: "node_config \<Rightarrow> cursor \<Rightarrow> builder \<Rightarrow> cursor \<times> builder" where
  "cursor_then c eps b =
    (let (ref, b') = builder_add c b
     in ([(plain_endpoint ref)\<lparr>ep_inputPortHint := shared_hint eps\<rparr>],
         fold (\<lambda>e. builder_connect (ep_node e) ref (ep_output e) ''in'') eps b'))"

definition cursor_then_into_hints :: "node_config \<Rightarrow> cursor \<Rightarrow> builder \<Rightarrow> cursor \<times> builder" where
  "cursor_then_into_hints c eps b =
    (let (ref, b') = builder_add c b
     in ([plain_endpoint ref],
         fold (\<lambda>e. builder_connect (ep_node e) ref (ep_output e) (opt_or (ep_inputPortHint e) ''in'')) eps b'))"

text \<open>A chain of steps behind a port of a node: the last node, if there is one, and the nodes.\<close>

fun add_steps :: "node_id \<Rightarrow> port_key \<Rightarrow> node_config list \<Rightarrow> builder \<Rightarrow> (node_id \<times> port_key) \<times> node_id list \<times> builder" where
  "add_steps source port [] b = ((source, port), [], b)"
| "add_steps source port (c # cs) b =
    (let (ref, b1) = builder_add c b;
         (final, created, b2) = add_steps ref ''main'' cs (builder_connect source ref port ''in'' b1)
     in (final, ref # created, b2))"

definition when_error :: "string \<Rightarrow> js_error" where
  "when_error op = plain_error (''ChainCursor.'' @ op @ ''(...) is only supported from a single cursor endpoint'')"

definition when_branches :: "node_config list option \<Rightarrow> node_config list option \<Rightarrow> cursor \<Rightarrow> builder \<Rightarrow> js_error + cursor \<times> builder" where
  "when_branches ifTrue ifFalse eps b =
    (case eps of
       [e] \<Rightarrow>
         let ((n1, out1), _, b1) = add_steps (ep_node e) ''true'' (opt_or ifTrue []) b;
             ((n2, out2), _, b2) = add_steps (ep_node e) ''false'' (opt_or ifFalse []) b1
         in Inr ([\<lparr>ep_node = n1, ep_output = out1, ep_inputPortHint = Some ''true''\<rparr>,
                  \<lparr>ep_node = n2, ep_output = out2, ep_inputPortHint = Some ''false''\<rparr>], b2)
     | _ \<Rightarrow> Inl (when_error ''when''))"

subsection \<open>Branches of a condition\<close>

text \<open>\<open>parseInt(s, 10)\<close> as an index: no number and a negative number index nothing.\<close>

definition parse_index :: "string \<Rightarrow> nat option" where
  "parse_index s =
    (let t = dropWhile is_js_space s;
         negative = (case t of c # _ \<Rightarrow> c = CHR ''-'' | [] \<Rightarrow> False);
         u = (case t of c # r \<Rightarrow> if c \<in> {CHR ''-'', CHR ''+''} then r else t | [] \<Rightarrow> []);
         ds = takeWhile is_digit u
     in if ds = [] \<or> negative \<and> digits_value ds \<noteq> 0 then None else Some (digits_value ds))"

definition resolve_upstream_ref :: "node_id list \<Rightarrow> jsval \<Rightarrow> jsval" where
  "resolve_upstream_ref created r =
    (case r of
       JStr s \<Rightarrow>
         let nodeId = (case parse_index (tl s) of
                         Some i \<Rightarrow> if i < length created then Some (created ! i) else None
                       | None \<Rightarrow> None)
         in JObj [(''nodeId'', JStr (if truthy_string nodeId then the nodeId else s))]
     | _ \<Rightarrow> r)"

definition resolve_upstream_refs :: "node_id list \<Rightarrow> node_config \<Rightarrow> node_config" where
  "resolve_upstream_refs created c =
    (case jget (nc_fields c) ''upstreamRefs'' of
       Some (JArr (r # rs)) \<Rightarrow>
         c\<lparr>nc_fields := jset ''upstreamRefs'' (JArr (map (resolve_upstream_ref created) (r # rs))) (nc_fields c)\<rparr>
     | _ \<Rightarrow> c)"

record when_builder =
  wh_from :: node_id
  wh_branchPort :: port_key

text \<open>The nodes of the branch are the last ones of the builder; it is their configurations that are rewritten.\<close>

definition add_branch :: "when_builder \<Rightarrow> node_config list \<Rightarrow> builder \<Rightarrow> builder" where
  "add_branch w steps b =
    (let (_, created, b1) = add_steps (wh_from w) (wh_branchPort w) steps b;
         k = length (wb_nodes b)
     in b1\<lparr>wb_nodes := take k (wb_nodes b1)
             @ map (\<lambda>n. n\<lparr>nd_config := resolve_upstream_refs created (nd_config n)\<rparr>) (drop k (wb_nodes b1))\<rparr>)"

definition branch_port :: "bool \<Rightarrow> port_key" where
  "branch_port branch = (if branch then ''true'' else ''false'')"

definition when_branch :: "bool \<Rightarrow> node_config list \<Rightarrow> node_id \<Rightarrow> builder \<Rightarrow> when_builder \<times> builder" where
  "when_branch branch steps from b =
    (let w = \<lparr>wh_from = from, wh_branchPort = branch_port branch\<rparr> in (w, add_branch w steps b))"

definition cursor_when :: "bool \<Rightarrow> node_config list \<Rightarrow> cursor \<Rightarrow> builder \<Rightarrow> js_error + when_builder \<times> builder" where
  "cursor_when branch steps eps b =
    (case eps of
       [e] \<Rightarrow> Inr (when_branch branch steps (ep_node e) b)
     | _ \<Rightarrow> Inl (when_error ''when''))"

definition when_builder_when :: "bool \<Rightarrow> node_config list \<Rightarrow> when_builder \<Rightarrow> builder \<Rightarrow> when_builder \<times> builder" where
  "when_builder_when branch steps w b = when_branch branch steps (wh_from w) b"

subsection \<open>Routes\<close>

text \<open>A branch of a route is a function of its cursor, which builds on; it may be missing or return nothing.\<close>

type_synonym branch_factory = "cursor \<Rightarrow> builder \<Rightarrow> js_error + cursor option \<times> builder"

fun route_branches :: "node_id \<Rightarrow> (port_key \<times> branch_factory option) list \<Rightarrow> cursor \<Rightarrow> builder \<Rightarrow> js_error + cursor \<times> builder" where
  "route_branches n [] acc b = Inr (acc, b)"
| "route_branches n ((port, None) # bs) acc b = route_branches n bs acc b"
| "route_branches n ((port, Some f) # bs) acc b =
    bind_result (f [\<lparr>ep_node = n, ep_output = port, ep_inputPortHint = Some port\<rparr>] b) (\<lambda>(res, b').
      route_branches n bs (acc @ opt_or res []) b')"

definition cursor_route :: "(port_key \<times> branch_factory option) list \<Rightarrow> cursor \<Rightarrow> builder \<Rightarrow> js_error + cursor \<times> builder" where
  "cursor_route branches eps b =
    (case eps of
       [e] \<Rightarrow> route_branches (ep_node e) branches [] b
     | _ \<Rightarrow> Inl (when_error ''route''))"

text \<open>A step for a human decision: the node must have been defined as one.\<close>

definition human_approval :: "string + node_config \<Rightarrow> cursor \<Rightarrow> builder \<Rightarrow> js_error + cursor \<times> builder" where
  "human_approval approval eps b =
    (case approval of
       Inl shown \<Rightarrow> Inl (plain_error (''.humanApproval() requires a node created via defineHumanApprovalNode (got ''
                 @ [CHR 0x27] @ shown @ [CHR 0x27] @ '').''))
     | Inr c \<Rightarrow> Inr (cursor_then c eps b))"

section \<open>Ports of edges\<close>

definition node_by_id :: "node_def list \<Rightarrow> (node_id, node_def) jmap" where
  "node_by_id nodes = fold (\<lambda>n. jset (nd_id n) n) nodes []"

definition allowed_output_ports :: "node_def option \<Rightarrow> port_key list option" where
  "allowed_output_ports n =
    (case n of
       None \<Rightarrow> None
     | Some d \<Rightarrow> (case nc_declaredOutputPorts (nd_config d) of
                   Some (p # ps) \<Rightarrow> Some (p # ps)
                 | _ \<Rightarrow> None))"

record edge_port_error =
  pe_edge :: edge
  pe_sourceNodeId :: node_id
  pe_sourceNodeName :: "string option"
  pe_sourceNodeKind :: "string option"
  pe_badPort :: port_key
  pe_allowedPorts :: "port_key list"
  pe_message :: string

definition edge_port_error_of :: "node_def option \<Rightarrow> edge \<Rightarrow> port_key list \<Rightarrow> edge_port_error" where
  "edge_port_error_of d e allowed =
    (let n = or_node (e_from e);
         out = or_output (e_from e);
         name = (case d of Some x \<Rightarrow> nd_name x | None \<Rightarrow> None);
         kind = opt_else (case d of Some x \<Rightarrow> nc_name (nd_config x) | None \<Rightarrow> None) name
     in \<lparr>pe_edge = e, pe_sourceNodeId = n, pe_sourceNodeName = name, pe_sourceNodeKind = kind, pe_badPort = out,
         pe_allowedPorts = allowed,
         pe_message = ''Edge from node '' @ quoted n @ (if truthy_string kind then '' (kind '' @ quoted (the kind) @ '')'' else [])
           @ '' references undeclared output port '' @ quoted out @ ''. Allowed ports: [''
           @ join_strings '', '' (map quoted allowed) @ ''].''\<rparr>)"

definition validate_edge_ports :: "node_def list \<Rightarrow> edge list \<Rightarrow> bool \<times> edge_port_error list" where
  "validate_edge_ports nodes edges =
    (let m = node_by_id nodes;
         errs = concat (map (\<lambda>e.
                  let d = jget m (or_node (e_from e))
                  in case allowed_output_ports d of
                       None \<Rightarrow> []
                     | Some allowed \<Rightarrow> if or_output (e_from e) \<in> set allowed then [] else [edge_port_error_of d e allowed]) edges)
     in (errs = [], errs))"

section \<open>Programs\<close>

text \<open>
  A program calls the operations in any order on any cursor it has got, several times on the same one if it likes.
  What a route does with the functions it is given are the steps of these functions, a cursor for each port and
  one for all the ends (\<open>route_reachable\<close>).
\<close>

inductive dsl_reach :: "workflow_id \<Rightarrow> string \<Rightarrow> builder \<Rightarrow> cursor set \<Rightarrow> when_builder set \<Rightarrow> bool" for i name where
  new: "dsl_reach i name (new_builder i name) {} {}"
| start: "dsl_reach i name b C W \<Longrightarrow> builder_start c b = (cur, b') \<Longrightarrow> dsl_reach i name b' (insert cur C) W"
| then_step: "dsl_reach i name b C W \<Longrightarrow> eps \<in> C \<Longrightarrow> cursor_then c eps b = (cur, b') \<Longrightarrow> dsl_reach i name b' (insert cur C) W"
| then_hints: "dsl_reach i name b C W \<Longrightarrow> eps \<in> C \<Longrightarrow> cursor_then_into_hints c eps b = (cur, b') \<Longrightarrow>
    dsl_reach i name b' (insert cur C) W"
| branches: "dsl_reach i name b C W \<Longrightarrow> eps \<in> C \<Longrightarrow> when_branches ifTrue ifFalse eps b = Inr (cur, b') \<Longrightarrow>
    dsl_reach i name b' (insert cur C) W"
| when_branch: "dsl_reach i name b C W \<Longrightarrow> eps \<in> C \<Longrightarrow> cursor_when branch steps eps b = Inr (w, b') \<Longrightarrow>
    dsl_reach i name b' C (insert w W)"
| when_again: "dsl_reach i name b C W \<Longrightarrow> w \<in> W \<Longrightarrow> when_builder_when branch steps w b = (w', b') \<Longrightarrow>
    dsl_reach i name b' C (insert w' W)"
| route_port: "dsl_reach i name b C W \<Longrightarrow> [e] \<in> C \<Longrightarrow>
    dsl_reach i name b (insert [\<lparr>ep_node = ep_node e, ep_output = port, ep_inputPortHint = Some port\<rparr>] C) W"
| route_join: "dsl_reach i name b C W \<Longrightarrow> set curs \<subseteq> C \<Longrightarrow> dsl_reach i name b (insert (concat curs) C) W"

subsection \<open>Edges lead to nodes added later\<close>

definition builder_ids :: "builder \<Rightarrow> node_id list" where
  "builder_ids b = map nd_id (wb_nodes b)"

definition edge_forward :: "node_id list \<Rightarrow> edge \<Rightarrow> bool" where
  "edge_forward ids e = (\<exists>pre post. ids = pre @ ir_node (e_to e) # post \<and> or_node (e_from e) \<in> set pre)"

definition node_of_config :: "node_def \<Rightarrow> bool" where
  "node_of_config n =
    (nd_id n = config_node_id (nd_config n) \<and> nd_kind n = nc_kind (nd_config n) \<and> nd_type n = nc_type (nd_config n)
     \<and> nd_name n = nc_name (nd_config n))"

definition builder_ok :: "builder \<Rightarrow> bool" where
  "builder_ok b = ((\<forall>e \<in> set (wb_edges b). edge_forward (builder_ids b) e) \<and> (\<forall>n \<in> set (wb_nodes b). node_of_config n))"

definition grows :: "builder \<Rightarrow> builder \<Rightarrow> bool" where
  "grows b b' =
    (wb_id b' = wb_id b \<and> wb_name b' = wb_name b \<and> (\<exists>xs. builder_ids b' = builder_ids b @ xs) \<and> (builder_ok b \<longrightarrow> builder_ok b'))"

lemma grows_refl [simp]: "grows b b"
  by (simp add: grows_def)

lemma grows_trans [trans]: "grows a b \<Longrightarrow> grows b c \<Longrightarrow> grows a c"
  by (auto simp: grows_def)

lemma grows_ids: "grows b b' \<Longrightarrow> set (builder_ids b) \<subseteq> set (builder_ids b')"
  by (auto simp: grows_def)

lemma edge_forward_append: "edge_forward ids e \<Longrightarrow> edge_forward (ids @ xs) e"
  unfolding edge_forward_def by (metis append.assoc append_Cons)

lemma edge_forward_last: "source \<in> set ids \<Longrightarrow> edge_forward (ids @ [target]) \<lparr>e_from = \<lparr>or_node = source, or_output = out\<rparr>, e_to = \<lparr>ir_node = target, ir_input = inp\<rparr>\<rparr>"
  unfolding edge_forward_def by auto

lemma builder_add_grows:
  assumes "builder_add c b = (ref, b')"
  shows "grows b b'" and "builder_ids b' = builder_ids b @ [ref]"
  using assms by (auto simp: builder_add_def grows_def builder_ids_def builder_ok_def node_of_config_def edge_forward_append)

lemma builder_connect_grows:
  assumes "builder_ids b' = builder_ids b @ [ref]" "source \<in> set (builder_ids b)"
  shows "grows b' (builder_connect source ref out inp b')"
proof -
  have "edge_forward (builder_ids b') \<lparr>e_from = \<lparr>or_node = source, or_output = out\<rparr>, e_to = \<lparr>ir_node = ref, ir_input = inp\<rparr>\<rparr>"
    using edge_forward_last [OF assms(2)] assms(1) by simp
  then show ?thesis by (auto simp: grows_def builder_ok_def builder_ids_def builder_connect_def)
qed

lemma builder_connect_ids [simp]: "builder_ids (builder_connect source ref out inp b) = builder_ids b"
  by (simp add: builder_ids_def builder_connect_def)

lemma fold_connect_grows:
  assumes "builder_ids b' = builder_ids b @ [ref]" "\<forall>e \<in> set eps. ep_node e \<in> set (builder_ids b)"
  shows "grows b' (fold (\<lambda>e. builder_connect (ep_node e) ref (ep_output e) (inp e)) eps b')"
  using assms
proof (induction eps arbitrary: b')
  case (Cons e eps)
  then have "grows b' (builder_connect (ep_node e) ref (ep_output e) (inp e) b')" by (intro builder_connect_grows) auto
  also have "grows \<dots> (fold (\<lambda>e. builder_connect (ep_node e) ref (ep_output e) (inp e)) eps \<dots>)"
    using Cons by (intro Cons.IH) auto
  finally show ?case by simp
qed simp

lemma fold_connect_ids [simp]:
  "builder_ids (fold (\<lambda>e. builder_connect (ep_node e) ref (ep_output e) (inp e)) eps b) = builder_ids b"
  by (induction eps arbitrary: b) auto

lemma add_steps_grows:
  assumes "add_steps source port cs b = ((n, out), created, b')" "source \<in> set (builder_ids b)"
  shows "grows b b' \<and> n \<in> set (builder_ids b')"
  using assms
proof (induction source port cs b arbitrary: n out created b' rule: add_steps.induct)
  case (2 source port c cs b)
  obtain ref b1 where a: "builder_add c b = (ref, b1)" by fastforce
  let ?b2 = "builder_connect source ref port ''in'' b1"
  obtain created2 where st: "add_steps ref ''main'' cs ?b2 = ((n, out), created2, b')" and cr: "created = ref # created2"
    using "2.prems"(1) a by (auto split: prod.splits)
  note ids = builder_add_grows [OF a]
  have g: "grows b1 ?b2" by (rule builder_connect_grows [OF ids(2) "2.prems"(2)])
  have r: "grows ?b2 b' \<and> n \<in> set (builder_ids b')"
    using "2.IH" [OF a [symmetric] refl st] ids(2) by simp
  then have "grows b b'" using ids(1) g by (blast intro: grows_trans)
  then show ?case using r by blast
qed simp

lemma resolve_refs_frame [simp]:
  "config_node_id (resolve_upstream_refs created c) = config_node_id c" "nc_kind (resolve_upstream_refs created c) = nc_kind c"
  "nc_type (resolve_upstream_refs created c) = nc_type c" "nc_name (resolve_upstream_refs created c) = nc_name c"
  by (auto simp: resolve_upstream_refs_def config_node_id_def split: option.splits jsval.splits list.splits)

lemma add_branch_grows:
  assumes "wh_from w \<in> set (builder_ids b)"
  shows "grows b (add_branch w steps b)"
proof -
  obtain n out created b1 where st: "add_steps (wh_from w) (wh_branchPort w) steps b = ((n, out), created, b1)" by (metis prod_cases3 surj_pair)
  let ?b2 = "add_branch w steps b"
  let ?k = "length (wb_nodes b)"
  have "builder_ids ?b2 = map nd_id (take ?k (wb_nodes b1) @ drop ?k (wb_nodes b1))"
    by (simp add: builder_ids_def add_branch_def st Let_def del: append_take_drop_id)
  then have ids: "builder_ids ?b2 = builder_ids b1" by (simp add: builder_ids_def)
  have "\<forall>m \<in> set (wb_nodes ?b2). node_of_config m" if "\<forall>m \<in> set (wb_nodes b1). node_of_config m"
    using that by (auto simp: add_branch_def st Let_def node_of_config_def dest!: in_set_takeD in_set_dropD)
  then have "grows b1 ?b2" using ids
    by (auto simp: grows_def builder_ok_def) (simp_all add: add_branch_def st Let_def)
  then show ?thesis using add_steps_grows [OF st assms] by (auto intro: grows_trans)
qed

definition cursor_ok :: "builder \<Rightarrow> cursor \<Rightarrow> bool" where
  "cursor_ok b eps = (\<forall>e \<in> set eps. ep_node e \<in> set (builder_ids b))"

lemma cursor_ok_grows: "grows b b' \<Longrightarrow> cursor_ok b eps \<Longrightarrow> cursor_ok b' eps"
  using grows_ids by (fastforce simp: cursor_ok_def)

lemma builder_start_grows: "builder_start c b = (cur, b') \<Longrightarrow> grows b b' \<and> cursor_ok b' cur"
  using builder_add_grows by (fastforce simp: builder_start_def cursor_ok_def plain_endpoint_def split: prod.splits)

lemma joined_grows:
  assumes "builder_add c b = (ref, b1)" "cursor_ok b eps" "ep_node ep = ref"
  shows "grows b (fold (\<lambda>e. builder_connect (ep_node e) ref (ep_output e) (inp e)) eps b1)
    \<and> cursor_ok (fold (\<lambda>e. builder_connect (ep_node e) ref (ep_output e) (inp e)) eps b1) [ep]"
  using builder_add_grows [OF assms(1)] fold_connect_grows [of b1 b ref eps inp] assms(2,3)
  by (auto simp: cursor_ok_def intro: grows_trans)

lemma cursor_then_grows:
  assumes "cursor_then c eps b = (cur, b')" "cursor_ok b eps"
  shows "grows b b' \<and> cursor_ok b' cur"
proof -
  obtain ref b1 where a: "builder_add c b = (ref, b1)" by fastforce
  show ?thesis using joined_grows [OF a assms(2), where inp = "\<lambda>_. ''in''" and ep = "(plain_endpoint ref)\<lparr>ep_inputPortHint := shared_hint eps\<rparr>"]
      assms(1) a by (simp add: cursor_then_def plain_endpoint_def)
qed

lemma cursor_then_into_hints_grows:
  assumes "cursor_then_into_hints c eps b = (cur, b')" "cursor_ok b eps"
  shows "grows b b' \<and> cursor_ok b' cur"
proof -
  obtain ref b1 where a: "builder_add c b = (ref, b1)" by fastforce
  show ?thesis using joined_grows [OF a assms(2), where inp = "\<lambda>e. opt_or (ep_inputPortHint e) ''in''" and ep = "plain_endpoint ref"]
      assms(1) a by (simp add: cursor_then_into_hints_def plain_endpoint_def)
qed

lemma when_branches_grows:
  assumes "when_branches ifTrue ifFalse eps b = Inr (cur, b')" "cursor_ok b eps"
  shows "grows b b' \<and> cursor_ok b' cur"
proof -
  obtain e where e: "eps = [e]" using assms(1) by (auto simp: when_branches_def split: list.splits)
  obtain n1 out1 cr1 b1 where s1: "add_steps (ep_node e) ''true'' (opt_or ifTrue []) b = ((n1, out1), cr1, b1)" by (metis prod_cases3 surj_pair)
  obtain n2 out2 cr2 b2 where s2: "add_steps (ep_node e) ''false'' (opt_or ifFalse []) b1 = ((n2, out2), cr2, b2)" by (metis prod_cases3 surj_pair)
  have g1: "grows b b1" "n1 \<in> set (builder_ids b1)" using add_steps_grows [OF s1] assms(2) e by (simp_all add: cursor_ok_def)
  have g2: "grows b1 b2" "n2 \<in> set (builder_ids b2)"
    using add_steps_grows [OF s2] assms(2) e g1 grows_ids [OF g1(1)] by (auto simp: cursor_ok_def)
  have "b' = b2" "cur = [\<lparr>ep_node = n1, ep_output = out1, ep_inputPortHint = Some ''true''\<rparr>, \<lparr>ep_node = n2, ep_output = out2, ep_inputPortHint = Some ''false''\<rparr>]"
    using assms(1) e s1 s2 by (simp_all add: when_branches_def)
  then show ?thesis using g1 g2 grows_ids [OF g2(1)] by (auto simp: cursor_ok_def intro: grows_trans)
qed

lemma when_branch_grows:
  assumes "when_branch branch steps source b = (w, b')" "source \<in> set (builder_ids b)"
  shows "grows b b' \<and> wh_from w \<in> set (builder_ids b')"
proof -
  have "grows b b'" "wh_from w = source" using assms add_branch_grows by (auto simp: when_branch_def Let_def)
  then show ?thesis using grows_ids assms(2) by blast
qed

definition dsl_inv :: "workflow_id \<Rightarrow> string \<Rightarrow> builder \<Rightarrow> cursor set \<Rightarrow> when_builder set \<Rightarrow> bool" where
  "dsl_inv i name b C W =
    (wb_id b = i \<and> wb_name b = name \<and> builder_ok b \<and> (\<forall>eps \<in> C. cursor_ok b eps) \<and> (\<forall>w \<in> W. wh_from w \<in> set (builder_ids b)))"

lemma dsl_inv_grows:
  assumes "dsl_inv i name b C W" "grows b b'"
  shows "dsl_inv i name b' C W"
  using assms cursor_ok_grows [OF assms(2)] grows_ids [OF assms(2)] by (auto simp: dsl_inv_def) (auto simp: grows_def)

lemma dsl_inv_cursor: "dsl_inv i name b C W \<Longrightarrow> eps \<in> C \<Longrightarrow> cursor_ok b eps"
  by (simp add: dsl_inv_def)

lemma dsl_inv_new:
  assumes "dsl_inv i name b C W" "grows b b' \<and> cursor_ok b' cur"
  shows "dsl_inv i name b' (insert cur C) W"
proof -
  have "dsl_inv i name b' C W" using dsl_inv_grows assms by blast
  then show ?thesis using assms(2) by (simp add: dsl_inv_def)
qed

lemma dsl_inv_new_when:
  assumes "dsl_inv i name b C W" "grows b b' \<and> wh_from w \<in> set (builder_ids b')"
  shows "dsl_inv i name b' C (insert w W)"
proof -
  have "dsl_inv i name b' C W" using dsl_inv_grows assms by blast
  then show ?thesis using assms(2) by (simp add: dsl_inv_def)
qed

lemma dsl_reach_inv: "dsl_reach i name b C W \<Longrightarrow> dsl_inv i name b C W"
proof (induction rule: dsl_reach.induct)
  case new
  then show ?case by (simp add: dsl_inv_def new_builder_def builder_ok_def)
next
  case (start b C W c cur b')
  then show ?case by (intro dsl_inv_new [OF start.IH] builder_start_grows)
next
  case (then_step b C W eps c cur b')
  then show ?case by (intro dsl_inv_new [OF then_step.IH] cursor_then_grows dsl_inv_cursor)
next
  case (then_hints b C W eps c cur b')
  then show ?case by (intro dsl_inv_new [OF then_hints.IH] cursor_then_into_hints_grows dsl_inv_cursor)
next
  case (branches b C W eps ifTrue ifFalse cur b')
  then show ?case by (intro dsl_inv_new [OF branches.IH] when_branches_grows dsl_inv_cursor)
next
  case (when_branch b C W eps branch steps w b')
  then obtain e where e: "eps = [e]" "when_branch branch steps (ep_node e) b = (w, b')"
    by (auto simp: cursor_when_def split: list.splits)
  have "ep_node e \<in> set (builder_ids b)" using dsl_inv_cursor [OF when_branch.IH when_branch.hyps(2)] e(1) by (simp add: cursor_ok_def)
  then show ?case by (intro dsl_inv_new_when [OF when_branch.IH] when_branch_grows [OF e(2)])
next
  case (when_again b C W w branch steps w' b')
  have "wh_from w \<in> set (builder_ids b)" using when_again.IH when_again.hyps(2) by (simp add: dsl_inv_def)
  moreover have "when_branch branch steps (wh_from w) b = (w', b')" using when_again.hyps(3) by (simp add: when_builder_when_def)
  ultimately show ?case by (intro dsl_inv_new_when [OF when_again.IH] when_branch_grows)
next
  case (route_port b C W e port)
  have "cursor_ok b [e]" by (rule dsl_inv_cursor [OF route_port.IH route_port.hyps(2)])
  then show ?case using route_port.IH by (simp add: dsl_inv_def cursor_ok_def)
next
  case (route_join b C W curs)
  have "cursor_ok b (concat curs)" using route_join dsl_inv_cursor [OF route_join.IH] by (fastforce simp: cursor_ok_def)
  then show ?case using route_join.IH by (simp add: dsl_inv_def)
qed

subsection \<open>The ids of a workflow\<close>

definition entry_id :: "numbered_entry \<Rightarrow> node_id" where
  "entry_id e = ie_nodeId (snd e)"

definition shares_id :: "numbered_entry list \<Rightarrow> numbered_entry \<Rightarrow> bool" where
  "shares_id es e = (entry_id e \<noteq> [] \<and> (\<exists>x \<in> set es. x \<noteq> e \<and> entry_id x = entry_id e))"

lemma sort_entries_append: "sort_entries (xs @ ys) acc = sort_entries ys (sort_entries xs acc)"
  by (induction xs acc rule: sort_entries.induct) (auto split: prod.splits option.splits)

definition sorted_inv :: "numbered_entry list \<Rightarrow> numbered_entry list \<times> (node_id, numbered_entry) jmap \<times> numbered_entry list \<Rightarrow> bool" where
  "sorted_inv es r =
    (case r of (empties, seen, dups) \<Rightarrow>
       empties = filter (\<lambda>e. entry_id e = []) es
       \<and> (\<forall>n. jget seen n = (if n = [] then None else find (\<lambda>e. entry_id e = n) es))
       \<and> distinct dups \<and> set dups = {e \<in> set es. shares_id es e})"

lemma find_snoc: "find P (xs @ [x]) = (case find P xs of Some y \<Rightarrow> Some y | None \<Rightarrow> if P x then Some x else None)"
  by (induction xs) auto

lemma shares_id_snoc: "x \<in> set es \<Longrightarrow> shares_id (es @ [e]) x \<longleftrightarrow> shares_id es x \<or> entry_id x \<noteq> [] \<and> e \<noteq> x \<and> entry_id e = entry_id x"
  by (auto simp: shares_id_def)

lemma shares_id_snoc_last: "shares_id (es @ [e]) e \<longleftrightarrow> entry_id e \<noteq> [] \<and> (\<exists>x \<in> set es. x \<noteq> e \<and> entry_id x = entry_id e)"
  by (auto simp: shares_id_def)

lemma shares_id_snoc_new:
  assumes "entry_id e = [] \<or> find (\<lambda>x. entry_id x = entry_id e) es = None"
  shows "{x \<in> set (es @ [e]). shares_id (es @ [e]) x} = {x \<in> set es. shares_id es x}"
proof -
  have ne: "entry_id e \<noteq> entry_id x" if "x \<in> set es" "entry_id x \<noteq> []" for x
  proof
    assume eq: "entry_id e = entry_id x"
    then have "find (\<lambda>x. entry_id x = entry_id e) es = None" using assms that(2) by simp
    then have "\<not> (\<exists>x. x \<in> set es \<and> entry_id x = entry_id e)" by (simp only: find_None_iff not_False_eq_True)
    then show False using eq that(1) by metis
  qed
  have "\<not> shares_id (es @ [e]) e" using ne unfolding shares_id_snoc_last by metis
  moreover have "shares_id (es @ [e]) x \<longleftrightarrow> shares_id es x" if "x \<in> set es" for x
    using ne that unfolding shares_id_snoc [OF that] by blast
  ultimately show ?thesis by auto
qed

lemma shares_id_snoc_old:
  assumes "e \<notin> set es" "entry_id e \<noteq> []" "find (\<lambda>x. entry_id x = entry_id e) es = Some y"
  shows "{x \<in> set (es @ [e]). shares_id (es @ [e]) x} = {x \<in> set es. shares_id es x} \<union> {y, e}"
proof -
  have y: "y \<in> set es" "entry_id y = entry_id e" using assms(3) by (auto simp: find_Some_iff)
  have "shares_id (es @ [e]) e" using y assms(1,2) shares_id_snoc_last by metis
  moreover have "shares_id (es @ [e]) x \<longleftrightarrow> shares_id es x \<or> x = y" if x: "x \<in> set es" for x
  proof (cases "entry_id x = entry_id e")
    case True
    then have "x = y \<or> shares_id es x" using y x assms(2) unfolding shares_id_def by metis
    moreover have "shares_id (es @ [e]) x" using True assms(1,2) x shares_id_snoc [OF x] by metis
    ultimately show ?thesis using assms(1) x y by blast
  next
    case False
    then show ?thesis using shares_id_snoc [OF x] y(2) by metis
  qed
  ultimately show ?thesis using y(1) by auto
qed

lemma filter_enumerate: "map snd (filter (\<lambda>x. P (snd x)) (enumerate k xs)) = filter P xs"
proof -
  have "filter P (map snd (enumerate k xs)) = map snd (filter (P \<circ> snd) (enumerate k xs))" by (rule filter_map)
  then show ?thesis by (simp add: comp_def)
qed

lemma sort_entries_inv: "distinct es \<Longrightarrow> sorted_inv es (sort_entries es ([], [], []))"
proof (induction es rule: rev_induct)
  case (snoc e es)
  obtain empties seen dups where r: "sort_entries es ([], [], []) = (empties, seen, dups)" by (metis prod_cases3)
  have inv: "sorted_inv es (empties, seen, dups)" and e: "e \<notin> set es" using snoc r by simp_all
  have step: "sort_entries (es @ [e]) ([], [], []) = sort_entries [e] (empties, seen, dups)"
    using r by (simp only: sort_entries_append)
  show ?case
  proof (cases "find (\<lambda>x. entry_id x = entry_id e) es")
    case None
    then have sh: "{x \<in> set (es @ [e]). shares_id (es @ [e]) x} = {x \<in> set es. shares_id es x}" by (intro shares_id_snoc_new) simp
    show ?thesis using inv None unfolding step sorted_inv_def sh
      by (auto simp: entry_id_def [symmetric] find_snoc split: option.splits)
  next
    case (Some y)
    show ?thesis
    proof (cases "entry_id e = []")
      case True
      then have sh: "{x \<in> set (es @ [e]). shares_id (es @ [e]) x} = {x \<in> set es. shares_id es x}" by (intro shares_id_snoc_new) simp
      show ?thesis using inv True unfolding step sorted_inv_def sh
        by (auto simp: entry_id_def [symmetric] find_snoc split: option.splits)
    next
      case False
      have y: "y \<in> set es" "entry_id y = entry_id e" using Some by (auto simp: find_Some_iff)
      have sh: "{x \<in> set (es @ [e]). shares_id (es @ [e]) x} = {x \<in> set es. shares_id es x} \<union> {y, e}"
        by (rule shares_id_snoc_old [OF e False Some])
      show ?thesis using inv False Some e y unfolding step sorted_inv_def sh
        by (auto simp: entry_id_def [symmetric] find_snoc split: option.splits)
    qed
  qed
qed (simp add: sorted_inv_def)

text \<open>Which entries the check complains about: those without id and those whose id occurs more than once.\<close>

definition empty_entries :: "id_entry list \<Rightarrow> id_entry list" where
  "empty_entries es = filter (\<lambda>e. ie_nodeId e = []) es"

definition shared_entries :: "id_entry list \<Rightarrow> id_entry list" where
  "shared_entries es = filter (\<lambda>e. ie_nodeId e \<noteq> [] \<and> 1 < count_list (map ie_nodeId es) (ie_nodeId e)) es"

lemma count_list_pos: "0 < count_list xs x \<longleftrightarrow> x \<in> set xs"
  by (metis count_list_0_iff neq0_conv)

lemma shares_id_count:
  assumes "e \<in> set (enumerate k es)"
  shows "shares_id (enumerate k es) e \<longleftrightarrow> ie_nodeId (snd e) \<noteq> [] \<and> 1 < count_list (map ie_nodeId es) (ie_nodeId (snd e))"
proof -
  have d: "distinct (map fst (enumerate k es))" by simp
  obtain us vs where s: "enumerate k es = us @ e # vs" using assms by (meson split_list)
  have ne: "x \<noteq> e" if "x \<in> set us \<union> set vs" for x using that d s by auto
  have "map ie_nodeId es = map entry_id (enumerate k es)" by (simp add: entry_id_def [abs_def] flip: map_map [of ie_nodeId snd, unfolded comp_def])
  then have cnt: "count_list (map ie_nodeId es) (entry_id e) = Suc (count_list (map entry_id us) (entry_id e) + count_list (map entry_id vs) (entry_id e))"
    by (simp add: s)
  have "1 < count_list (map ie_nodeId es) (entry_id e) \<longleftrightarrow> (\<exists>x \<in> set us \<union> set vs. entry_id x = entry_id e)"
  proof -
    have "1 < Suc (x + y) \<longleftrightarrow> 0 < x \<or> 0 < y" for x y :: nat by auto
    moreover have "(\<exists>x \<in> set us \<union> set vs. entry_id x = entry_id e) \<longleftrightarrow> entry_id e \<in> set (map entry_id us) \<or> entry_id e \<in> set (map entry_id vs)"
      unfolding set_map image_iff bex_Un by metis
    ultimately show ?thesis using cnt by (simp only: count_list_pos)
  qed
  then show ?thesis using ne s by (auto simp: shares_id_def entry_id_def)
qed

lemma validate_node_ids_eq:
  "\<exists>dups. mset dups = mset (shared_entries (id_entries view nodes))
     \<and> validate_node_ids view nodes
       = (if empty_entries (id_entries view nodes) = [] \<and> dups = [] then Inr ()
          else Inl (invalid_ids_error (empty_entries (id_entries view nodes)) dups))"
proof -
  let ?es = "id_entries view nodes" and ?ns = "enumerate 0 (id_entries view nodes)"
  obtain empties seen dups where r: "sort_entries ?ns ([], [], []) = (empties, seen, dups)" by (metis prod_cases3)
  have "distinct ?ns" by (rule distinct_enumerate)
  from sort_entries_inv [OF this] have inv: "sorted_inv ?ns (empties, seen, dups)" by (simp add: r)
  have e: "map snd empties = empty_entries ?es"
    using inv filter_enumerate [of "\<lambda>e. ie_nodeId e = []" 0 ?es] by (simp add: sorted_inv_def empty_entries_def entry_id_def)
  have "set dups = set (filter (\<lambda>x. ie_nodeId (snd x) \<noteq> [] \<and> 1 < count_list (map ie_nodeId ?es) (ie_nodeId (snd x))) ?ns)"
    using inv shares_id_count [of _ 0 ?es] by (auto simp: sorted_inv_def)
  then have "mset dups = mset (filter (\<lambda>x. ie_nodeId (snd x) \<noteq> [] \<and> 1 < count_list (map ie_nodeId ?es) (ie_nodeId (snd x))) ?ns)"
    using inv by (subst set_eq_iff_mset_eq_distinct [symmetric]) (simp_all add: sorted_inv_def distinct_enumerate)
  then have "mset (map snd dups) = mset (map snd (filter (\<lambda>x. ie_nodeId (snd x) \<noteq> [] \<and> 1 < count_list (map ie_nodeId ?es) (ie_nodeId (snd x))) ?ns))"
    by simp
  also have "\<dots> = mset (shared_entries ?es)"
    by (simp only: shared_entries_def filter_enumerate [where P = "\<lambda>e. ie_nodeId e \<noteq> [] \<and> 1 < count_list (map ie_nodeId ?es) (ie_nodeId e)"])
  finally have d: "mset (map snd dups) = mset (shared_entries ?es)" .
  have "validate_node_ids view nodes = (if empty_entries ?es = [] \<and> map snd dups = [] then Inr ()
      else Inl (invalid_ids_error (empty_entries ?es) (map snd dups)))"
    by (simp add: validate_node_ids_def r flip: e)
  then show ?thesis using d by blast
qed

lemma builder_build_cases:
  assumes "builder_build view b = Inr w"
  shows "w = built_workflow b" "empty_entries (id_entries view (wb_nodes b)) = []" "shared_entries (id_entries view (wb_nodes b)) = []"
  using assms validate_node_ids_eq [of view "wb_nodes b"] by (auto simp: builder_build_def split: if_splits)

lemma distinct_iff_count_list: "distinct xs \<longleftrightarrow> (\<forall>x \<in> set xs. count_list xs x \<le> 1)"
proof (induction xs)
  case (Cons y xs)
  show ?case
  proof (cases "y \<in> set xs")
    case True
    then have "\<not> count_list (y # xs) y \<le> 1" using count_list_pos [of xs y] by simp
    then show ?thesis using True by (auto intro!: bexI [of _ y])
  next
    case False
    then show ?thesis using Cons.IH by (auto simp: count_list_0_iff)
  qed
qed simp

lemma shared_entries_Nil_iff:
  "empty_entries es = [] \<and> shared_entries es = [] \<longleftrightarrow> distinct (map ie_nodeId es) \<and> [] \<notin> set (map ie_nodeId es)"
proof (cases "\<forall>e \<in> set es. ie_nodeId e \<noteq> []")
  case True
  then have "shared_entries es = [] \<longleftrightarrow> distinct (map ie_nodeId es)"
    by (simp add: shared_entries_def filter_empty_conv distinct_iff_count_list not_less)
  then show ?thesis using True by (auto simp: empty_entries_def filter_empty_conv)
next
  case False
  then show ?thesis by (force simp: empty_entries_def filter_empty_conv)
qed

text \<open>The ids of the nodes are among those of the entries, in order.\<close>

lemma distinct_node_ids: "distinct (map ie_nodeId (id_entries view nodes)) \<Longrightarrow> distinct (map nd_id nodes)"
proof (induction nodes)
  case (Cons n ns)
  have "nd_id m \<in> ie_nodeId ` set (id_entries view ns)" if "m \<in> set ns" for m
    using that by (force simp: id_entries_def node_entries_def)
  moreover have "nd_id n \<notin> ie_nodeId ` set (id_entries view ns)" "distinct (map ie_nodeId (id_entries view ns))"
    using Cons.prems by (auto simp: id_entries_def node_entries_def)
  ultimately show ?case using Cons.IH by auto
qed simp

lemma forward_edges_acyclic:
  assumes "distinct ids" "\<And>a b. (a, b) \<in> R \<Longrightarrow> \<exists>pre post. ids = pre @ b # post \<and> a \<in> set pre"
  shows "acyclic R"
proof -
  define rank where "rank n = length (takeWhile (\<lambda>x. x \<noteq> n) ids)" for n
  have "rank a < rank b" if ab: "(a, b) \<in> R" for a b
  proof -
    obtain pre post where s: "ids = pre @ b # post" "a \<in> set pre" using assms(2) [OF ab] by blast
    then have "\<forall>x \<in> set pre. x \<noteq> b" using assms(1) by auto
    then have "rank b = length pre" using s by (auto simp: rank_def takeWhile_append1 takeWhile_append2)
    moreover obtain us vs where "pre = us @ a # vs" "\<forall>x \<in> set us. x \<noteq> a" using s(2) by (metis split_list_first)
    then have "rank a = length us" using s(1) by (simp add: rank_def takeWhile_append2)
    then have "rank a < length pre" using \<open>pre = us @ a # vs\<close> by simp
    ultimately show ?thesis by simp
  qed
  then have "R \<subseteq> measure rank" by auto
  then show ?thesis by (meson wf_measure wf_acyclic acyclic_subset)
qed

section \<open>What the builder promises\<close>

text \<open>C6. A workflow that a program builds is well formed: its nodes are those of the configurations it was given, no id is
  empty or used twice, also among the children of agents, every edge leads from a declared node to one declared later,
  and the cycle check of the planner accepts it.\<close>

theorem built_workflow_well_formed:
  assumes "dsl_reach i name b C W" "builder_build view b = Inr w"
  shows "wf_id w = i \<and> wf_name w = name \<and> (\<forall>n \<in> set (wf_nodes w). node_of_config n)
    \<and> distinct (map ie_nodeId (id_entries view (wf_nodes w))) \<and> [] \<notin> set (map ie_nodeId (id_entries view (wf_nodes w)))
    \<and> (\<forall>e \<in> set (wf_edges w). edge_forward (map nd_id (wf_nodes w)) e)
    \<and> validate_acyclic w = Inr ()"
proof -
  note inv = dsl_reach_inv [OF assms(1)]
  note bc = builder_build_cases [OF assms(2)]
  have ids: "distinct (map ie_nodeId (id_entries view (wb_nodes b)))" "[] \<notin> set (map ie_nodeId (id_entries view (wb_nodes b)))"
    using shared_entries_Nil_iff [of "id_entries view (wb_nodes b)"] bc(2,3) by simp_all
  have fwd: "\<forall>e \<in> set (wb_edges b). edge_forward (map nd_id (wb_nodes b)) e"
    using inv by (simp add: dsl_inv_def builder_ok_def builder_ids_def)
  have "acyclic (declared_edges w)"
  proof (rule forward_edges_acyclic [OF distinct_node_ids [OF ids(1)]])
    fix x y
    assume "(x, y) \<in> declared_edges w"
    then obtain e where "e \<in> set (wb_edges b)" "x = or_node (e_from e)" "y = ir_node (e_to e)"
      by (auto simp: declared_edges_def bc(1) built_workflow_def)
    then show "\<exists>pre post. map nd_id (wb_nodes b) = pre @ y # post \<and> x \<in> set pre" using fwd by (auto simp: edge_forward_def)
  qed
  then have "validate_acyclic w = Inr ()" by (simp add: validate_acyclic_Inr_iff)
  then show ?thesis using inv ids fwd by (simp add: bc(1) built_workflow_def dsl_inv_def builder_ok_def)
qed

text \<open>Building succeeds exactly when no id, also of a child of an agent, is empty or shared; otherwise the error
  lists every entry without id in order, and every entry whose id occurs twice, and nothing else.\<close>

theorem build_reports_every_bad_id:
  "(distinct (map ie_nodeId (id_entries view (wb_nodes b))) \<and> [] \<notin> set (map ie_nodeId (id_entries view (wb_nodes b)))
      \<longleftrightarrow> builder_build view b = Inr (built_workflow b))
   \<and> (\<forall>err. builder_build view b = Inl err \<longrightarrow>
        (\<exists>dups. mset dups = mset (shared_entries (id_entries view (wb_nodes b)))
           \<and> err = invalid_ids_error (empty_entries (id_entries view (wb_nodes b))) dups))"
proof -
  let ?es = "id_entries view (wb_nodes b)"
  obtain dups where d: "mset dups = mset (shared_entries ?es)"
    "validate_node_ids view (wb_nodes b) = (if empty_entries ?es = [] \<and> dups = [] then Inr () else Inl (invalid_ids_error (empty_entries ?es) dups))"
    using validate_node_ids_eq by blast
  have "dups = [] \<longleftrightarrow> shared_entries ?es = []" using d(1) by (metis mset_zero_iff)
  then have "builder_build view b = (if empty_entries ?es = [] \<and> shared_entries ?es = [] then Inr (built_workflow b)
      else Inl (invalid_ids_error (empty_entries ?es) dups))" using d(2) by (simp add: builder_build_def)
  then show ?thesis using shared_entries_Nil_iff [of ?es] d(1) by (auto split: if_splits)
qed

text \<open>A route is made of such steps, if the functions for its branches are.\<close>

definition factories_step :: "workflow_id \<Rightarrow> string \<Rightarrow> (port_key \<times> branch_factory option) list \<Rightarrow> bool" where
  "factories_step i name bs =
    (\<forall>f \<in> set (List.map_filter snd bs). \<forall>eps b C W res b'. dsl_reach i name b C W \<longrightarrow> eps \<in> C \<longrightarrow> f eps b = Inr (res, b') \<longrightarrow>
       (\<exists>C' W'. dsl_reach i name b' C' W' \<and> C \<subseteq> C' \<and> W \<subseteq> W' \<and> (\<forall>cur. res = Some cur \<longrightarrow> cur \<in> C')))"

lemma factories_step_simps [simp]:
  "factories_step i name ((port, None) # bs) = factories_step i name bs"
  "factories_step i name ((port, Some f) # bs) =
    ((\<forall>eps b C W res b'. dsl_reach i name b C W \<longrightarrow> eps \<in> C \<longrightarrow> f eps b = Inr (res, b') \<longrightarrow>
       (\<exists>C' W'. dsl_reach i name b' C' W' \<and> C \<subseteq> C' \<and> W \<subseteq> W' \<and> (\<forall>cur. res = Some cur \<longrightarrow> cur \<in> C'))) \<and> factories_step i name bs)"
  by (simp_all add: factories_step_def List.map_filter_def)

lemma route_branches_reachable:
  assumes "route_branches n bs acc b = Inr (cur, b')" "dsl_reach i name b C W" "[e] \<in> C" "ep_node e = n" "acc \<in> C"
    and "factories_step i name bs"
  shows "\<exists>C' W'. dsl_reach i name b' C' W' \<and> C \<subseteq> C' \<and> W \<subseteq> W' \<and> cur \<in> C'"
  using assms
proof (induction n bs acc b arbitrary: C W rule: route_branches.induct)
  case (2 n port bs acc b)
  have "route_branches n bs acc b = Inr (cur, b')" using "2.prems"(1) by simp
  from "2.IH" [OF this "2.prems"(2-5)] "2.prems"(6) show ?case by simp
next
  case (3 n port f bs acc b)
  let ?ep = "[\<lparr>ep_node = n, ep_output = port, ep_inputPortHint = Some port\<rparr>]"
  obtain res b1 where f: "f ?ep b = Inr (res, b1)" "route_branches n bs (acc @ opt_or res []) b1 = Inr (cur, b')"
    using "3.prems"(1) by (auto simp: bind_result_Inr_iff)
  have "dsl_reach i name b (insert ?ep C) W"
    using dsl_reach.route_port [OF "3.prems"(2,3), of port] "3.prems"(4) by simp
  moreover have "?ep \<in> insert ?ep C" by simp
  ultimately obtain C1 W1 where c1: "dsl_reach i name b1 C1 W1" "insert ?ep C \<subseteq> C1" "W \<subseteq> W1"
    "\<forall>cur. res = Some cur \<longrightarrow> cur \<in> C1" using "3.prems"(6) f(1) unfolding factories_step_simps by meson
  let ?acc = "acc @ opt_or res []"
  have "dsl_reach i name b1 (insert ?acc C1) W1"
  proof (cases res)
    case None
    then show ?thesis using dsl_reach.route_join [OF c1(1), of "[acc]"] c1(2) "3.prems"(5) by auto
  next
    case (Some r)
    then show ?thesis using dsl_reach.route_join [OF c1(1), of "[acc, r]"] c1(2,4) "3.prems"(5) by auto
  qed
  moreover have "[e] \<in> insert ?acc C1" using "3.prems"(3) c1(2) by blast
  ultimately obtain C2 W2 where "dsl_reach i name b' C2 W2" "insert ?acc C1 \<subseteq> C2" "W1 \<subseteq> W2" "cur \<in> C2"
    using "3.IH" [OF f(2), of "insert ?acc C1" W1] "3.prems"(4,6) by auto
  then show ?case using c1(2,3) by blast
qed auto

lemma route_reachable:
  assumes "cursor_route bs eps b = Inr (cur, b')" "dsl_reach i name b C W" "eps \<in> C"
    and "factories_step i name bs"
  shows "\<exists>C' W'. dsl_reach i name b' C' W' \<and> C \<subseteq> C' \<and> W \<subseteq> W' \<and> cur \<in> C'"
proof -
  obtain e where e: "eps = [e]" "route_branches (ep_node e) bs [] b = Inr (cur, b')"
    using assms(1) by (auto simp: cursor_route_def split: list.splits)
  have "dsl_reach i name b (insert [] C) W" using dsl_reach.route_join [OF assms(2), of "[]"] by simp
  from route_branches_reachable [OF e(2) this _ refl _ assms(4)] assms(3) e(1) show ?thesis by auto
qed

section \<open>Branches\<close>

text \<open>The edges of a chain behind a port.\<close>

fun chain_edges :: "node_id \<Rightarrow> port_key \<Rightarrow> node_config list \<Rightarrow> edge list" where
  "chain_edges source port [] = []"
| "chain_edges source port (c # cs) =
    \<lparr>e_from = \<lparr>or_node = source, or_output = port\<rparr>, e_to = \<lparr>ir_node = config_node_id c, ir_input = ''in''\<rparr>\<rparr>
      # chain_edges (config_node_id c) ''main'' cs"

definition chain_end :: "node_id \<Rightarrow> port_key \<Rightarrow> node_config list \<Rightarrow> output_ref" where
  "chain_end source port cs =
    (if cs = [] then \<lparr>or_node = source, or_output = port\<rparr> else \<lparr>or_node = config_node_id (last cs), or_output = ''main''\<rparr>)"

lemma add_steps_edges:
  "add_steps source port cs b = ((n, out), created, b') \<Longrightarrow>
    wb_edges b' = wb_edges b @ chain_edges source port cs \<and> \<lparr>or_node = n, or_output = out\<rparr> = chain_end source port cs"
proof (induction source port cs b arbitrary: n out created b' rule: add_steps.induct)
  case (2 source port c cs b)
  let ?b2 = "builder_connect source (config_node_id c) port ''in'' (snd (builder_add c b))"
  obtain created2 where st: "add_steps (config_node_id c) ''main'' cs ?b2 = ((n, out), created2, b')"
    using "2.prems" by (auto simp: builder_add_def split: prod.splits)
  have "wb_edges b' = wb_edges ?b2 @ chain_edges (config_node_id c) ''main'' cs
      \<and> \<lparr>or_node = n, or_output = out\<rparr> = chain_end (config_node_id c) ''main'' cs"
    using "2.IH" [OF _ refl] st by (auto simp: builder_add_def)
  then show ?case by (simp add: chain_end_def builder_connect_def builder_add_def)
qed (simp add: chain_end_def)

text \<open>The node that joins the two branches of a condition into input hints gets the end of the first on its port
  \<open>true\<close> and the end of the second on \<open>false\<close>, the condition itself where a branch is empty; the steps of a branch are
  chained from the condition's port of that name.\<close>

theorem branches_join_by_port:
  assumes "when_branches ifTrue ifFalse [e] b = Inr (cur, b1)" "cursor_then_into_hints c cur b1 = (cur', b2)"
  shows "wb_edges b2 = wb_edges b
      @ chain_edges (ep_node e) ''true'' (opt_or ifTrue []) @ chain_edges (ep_node e) ''false'' (opt_or ifFalse [])
      @ [\<lparr>e_from = chain_end (ep_node e) ''true'' (opt_or ifTrue []), e_to = \<lparr>ir_node = config_node_id c, ir_input = ''true''\<rparr>\<rparr>,
         \<lparr>e_from = chain_end (ep_node e) ''false'' (opt_or ifFalse []), e_to = \<lparr>ir_node = config_node_id c, ir_input = ''false''\<rparr>\<rparr>]"
proof -
  obtain n1 out1 cr1 b1' where s1: "add_steps (ep_node e) ''true'' (opt_or ifTrue []) b = ((n1, out1), cr1, b1')" by (metis prod_cases3 surj_pair)
  obtain n2 out2 cr2 b2' where s2: "add_steps (ep_node e) ''false'' (opt_or ifFalse []) b1' = ((n2, out2), cr2, b2')" by (metis prod_cases3 surj_pair)
  have "b1 = b2'" "cur = [\<lparr>ep_node = n1, ep_output = out1, ep_inputPortHint = Some ''true''\<rparr>, \<lparr>ep_node = n2, ep_output = out2, ep_inputPortHint = Some ''false''\<rparr>]"
    using assms(1) s1 s2 by (simp_all add: when_branches_def)
  then show ?thesis using assms(2) add_steps_edges [OF s1] add_steps_edges [OF s2]
    by (auto simp: cursor_then_into_hints_def builder_add_def builder_connect_def)
qed

section \<open>Ids and ports\<close>

lemma dash_runs_chars: "c \<in> set (dash_runs f s) \<Longrightarrow> is_slug_char c \<or> c = CHR ''-''"
  by (induction f s rule: dash_runs.induct) (auto split: if_splits)

lemma dash_not_slug: "\<not> is_slug_char CHR ''-''"
  by code_simp

lemma lower_slug_char: "is_slug_char c \<or> c = CHR ''-'' \<Longrightarrow> lower_char c = c"
  by (auto simp: is_slug_char_def lower_char_def Let_def)

lemma dash_runs_id:
  "(\<forall>c \<in> set s. is_slug_char c \<or> c = CHR ''-'') \<Longrightarrow> \<not> (\<exists>a b. s = a @ ''--'' @ b) \<Longrightarrow> \<not> (f \<and> (\<exists>b. s = CHR ''-'' # b))
    \<Longrightarrow> dash_runs f s = s"
proof (induction f s rule: dash_runs.induct)
  case (2 f c s)
  have no: "\<not> (\<exists>a b. s = a @ ''--'' @ b)" using "2.prems"(2) by (metis append_Cons)
  show ?case
  proof (cases "is_slug_char c")
    case True
    then show ?thesis using "2.IH"(1) "2.prems"(1) no by simp
  next
    case False
    then have c: "c = CHR ''-''" using "2.prems"(1) by simp
    have "\<not> (\<exists>b. s = CHR ''-'' # b)" using "2.prems"(2) c by (metis append_Cons append_Nil)
    then have "dash_runs True s = s" using "2.IH"(3) False "2.prems"(1,3) no c by auto
    then show ?thesis using False c "2.prems"(3) by simp
  qed
qed simp

lemma dash_runs_no_double:
  "\<not> (\<exists>a b. dash_runs f s = a @ ''--'' @ b) \<and> (f \<longrightarrow> \<not> (\<exists>b. dash_runs f s = CHR ''-'' # b))"
proof (induction f s rule: dash_runs.induct)
  case (2 f c s)
  then show ?case using dash_not_slug by (auto simp: Cons_eq_append_conv)
qed simp

definition strip_dashes :: "string \<Rightarrow> string" where
  "strip_dashes s = rev (dropWhile (\<lambda>c. c = CHR ''-'') (rev (dropWhile (\<lambda>c. c = CHR ''-'') s)))"

lemma slugify_strip: "slugify label = strip_dashes (dash_runs False (map lower_char label))"
  by (simp add: slugify_def strip_dashes_def Let_def)

abbreviation is_dash :: "char \<Rightarrow> bool" where
  "is_dash c \<equiv> c = CHR ''-''"

lemma strip_dashes_part: "\<exists>a b. s = a @ strip_dashes s @ b"
proof -
  have "s = takeWhile is_dash s @ strip_dashes s @ rev (takeWhile is_dash (rev (dropWhile is_dash s)))"
    by (simp add: strip_dashes_def flip: rev_append)
  then show ?thesis by blast
qed

lemma strip_dashes_ends: "strip_dashes s = [] \<or> hd (strip_dashes s) \<noteq> CHR ''-'' \<and> last (strip_dashes s) \<noteq> CHR ''-''"
proof (cases "strip_dashes s = []")
  case False
  define t where "t = dropWhile is_dash s"
  define u where "u = dropWhile is_dash (rev t)"
  have s: "strip_dashes s = rev u" by (simp add: strip_dashes_def t_def u_def)
  have ne: "u \<noteq> []" "t \<noteq> []" using False s by (auto simp: u_def)
  have l: "\<not> is_dash (hd u)" using ne(1) unfolding u_def by (rule hd_dropWhile)
  have "\<not> is_dash (hd t)" using ne(2) unfolding t_def by (rule hd_dropWhile)
  moreover have "t = rev u @ rev (takeWhile is_dash (rev t))" by (simp add: u_def flip: rev_append)
  then have "hd t = hd (rev u)" using ne(1) by (metis hd_append2 rev_is_Nil_conv)
  ultimately show ?thesis using l s ne(1) by (simp add: last_rev)
qed simp

lemma strip_dashes_id: "hd s \<noteq> CHR ''-'' \<Longrightarrow> last s \<noteq> CHR ''-'' \<Longrightarrow> strip_dashes s = s"
proof (cases "s = []")
  case False
  assume "hd s \<noteq> CHR ''-''" "last s \<noteq> CHR ''-''"
  then have "dropWhile (\<lambda>c. c = CHR ''-'') s = s" "dropWhile (\<lambda>c. c = CHR ''-'') (rev s) = rev s"
    using False hd_rev [of s] by (cases s; cases "rev s"; simp)+
  then show ?thesis by (simp add: strip_dashes_def)
qed (simp add: strip_dashes_def)

text \<open>An id derived from a label has letters, digits and single dashes between them only, and is its own id: taking it
  for a label gives it back.\<close>

theorem slugify_gives_ids:
  "slugify (slugify label) = slugify label
   \<and> (\<forall>c \<in> set (slugify label). is_slug_char c \<or> c = CHR ''-'')
   \<and> (slugify label = [] \<or> hd (slugify label) \<noteq> CHR ''-'' \<and> last (slugify label) \<noteq> CHR ''-'')"
proof -
  let ?d = "dash_runs False (map lower_char label)" and ?s = "slugify label"
  obtain a b where ab: "?d = a @ ?s @ b" using strip_dashes_part [of ?d] by (auto simp: slugify_strip)
  have chars: "\<forall>c \<in> set ?s. is_slug_char c \<or> c = CHR ''-''"
  proof
    fix c
    assume "c \<in> set ?s"
    then have "c \<in> set ?d" by (simp add: ab)
    then show "is_slug_char c \<or> c = CHR ''-''" by (rule dash_runs_chars)
  qed
  have "\<not> (\<exists>x y. ?s = x @ ''--'' @ y)"
  proof
    assume "\<exists>x y. ?s = x @ ''--'' @ y"
    then obtain x y where "?d = (a @ x) @ ''--'' @ (y @ b)" using ab by auto
    then show False using dash_runs_no_double by blast
  qed
  then have "dash_runs False ?s = ?s" using chars by (intro dash_runs_id) simp_all
  moreover have "map lower_char ?s = ?s" using chars lower_slug_char by (simp add: map_idI)
  moreover have ends: "?s = [] \<or> hd ?s \<noteq> CHR ''-'' \<and> last ?s \<noteq> CHR ''-''" by (simp only: slugify_strip strip_dashes_ends)
  then have "strip_dashes ?s = ?s" using strip_dashes_id by (cases "?s = []") (auto simp: strip_dashes_def)
  ultimately have "slugify ?s = ?s" by (simp only: slugify_strip [of ?s])
  then show ?thesis using chars ends by blast
qed

text \<open>The check of the ports accepts the edges whose source declares their port or no ports at all.\<close>

lemma node_by_id_last: "jget (node_by_id nodes) n = find (\<lambda>d. nd_id d = n) (rev nodes)"
  by (induction nodes rule: rev_induct) (auto simp: node_by_id_def)

lemma validate_edge_ports_iff:
  "fst (validate_edge_ports nodes edges) \<longleftrightarrow>
    (\<forall>e \<in> set edges. \<forall>ports. allowed_output_ports (find (\<lambda>d. nd_id d = or_node (e_from e)) (rev nodes)) = Some ports
       \<longrightarrow> or_output (e_from e) \<in> set ports)"
  by (auto simp: validate_edge_ports_def Let_def node_by_id_last split: option.splits if_splits)

section \<open>A program\<close>

definition dsl_config :: "string \<Rightarrow> node_kind \<Rightarrow> node_config" where
  "dsl_config label k = (sample_config k None)\<lparr>nc_name := Some label\<rparr>"

definition dsl_view :: "node_config \<Rightarrow> agent_view" where
  "dsl_view c = AgentView (if nc_name c = Some ''Agent'' then Some (''gpt'', None) else None) (MessagesArray 1)
     [ToolView ''Search Mail'' None None] []"

definition sample_built :: "builder" where
  "sample_built =
    (let (c0, b0) = builder_start (dsl_config ''On Mail'' TriggerKind) (new_builder ''wf'' ''sample'');
         (c1, b1) = cursor_then (dsl_config ''If'' NodeKind) c0 b0
     in case when_branches (Some [dsl_config ''Agent'' NodeKind]) None c1 b1 of
          Inr (c2, b2) \<Rightarrow> snd (cursor_then_into_hints (dsl_config ''Merge'' NodeKind) c2 b2)
        | Inl _ \<Rightarrow> b1)"

lemma when_branches_single: "\<exists>c' b'. when_branches ifTrue ifFalse [ep] b = Inr (c', b')"
  by (simp add: when_branches_def split: prod.split)

lemma sample_built_reach: "\<exists>C W. dsl_reach ''wf'' ''sample'' sample_built C W"
proof -
  obtain c0 b0 where s0: "builder_start (dsl_config ''On Mail'' TriggerKind) (new_builder ''wf'' ''sample'') = (c0, b0)" by fastforce
  obtain c1 b1 where s1: "cursor_then (dsl_config ''If'' NodeKind) c0 b0 = (c1, b1)" by fastforce
  note r1 = dsl_reach.then_step [OF dsl_reach.start [OF dsl_reach.new s0] insertI1 s1]
  obtain ep where "c1 = [ep]" using s1 by (auto simp: cursor_then_def split: prod.splits)
  then obtain c2 b2 where s2: "when_branches (Some [dsl_config ''Agent'' NodeKind]) None c1 b1 = Inr (c2, b2)"
    using when_branches_single by blast
  obtain c3 b3 where s3: "cursor_then_into_hints (dsl_config ''Merge'' NodeKind) c2 b2 = (c3, b3)" by fastforce
  have "sample_built = b3" by (simp add: sample_built_def s0 s1 s2 s3)
  then show ?thesis using dsl_reach.then_hints [OF dsl_reach.branches [OF r1 insertI1 s2] insertI1 s3] by blast
qed

lemma built_workflow_well_formed_witness:
  "validate_acyclic (built_workflow sample_built) = Inr () \<and> length (id_entries dsl_view (wb_nodes sample_built)) = 6"
proof -
  have "builder_build dsl_view sample_built = Inr (built_workflow sample_built)" by code_simp
  moreover have "length (id_entries dsl_view (wb_nodes sample_built)) = 6" by code_simp
  ultimately show ?thesis using sample_built_reach built_workflow_well_formed by blast
qed

lemma branches_join_by_port_witness:
  "\<exists>built :: builder. wb_edges built = chain_edges ''if'' ''true'' [dsl_config ''Agent'' NodeKind]
     @ [\<lparr>e_from = chain_end ''if'' ''true'' [dsl_config ''Agent'' NodeKind], e_to = \<lparr>ir_node = ''merge'', ir_input = ''true''\<rparr>\<rparr>,
        \<lparr>e_from = \<lparr>or_node = ''if'', or_output = ''false''\<rparr>, e_to = \<lparr>ir_node = ''merge'', ir_input = ''false''\<rparr>\<rparr>]"
proof -
  let ?b = "new_builder ''wf'' ''sample''"
  obtain c1 b1 where s1: "when_branches (Some [dsl_config ''Agent'' NodeKind]) None [plain_endpoint ''if''] ?b = Inr (c1, b1)"
    using when_branches_single by blast
  obtain c2 b2 where s2: "cursor_then_into_hints (dsl_config ''Merge'' NodeKind) c1 b1 = (c2, b2)" by fastforce
  have "config_node_id (dsl_config ''Merge'' NodeKind) = ''merge''" by code_simp
  then show ?thesis using branches_join_by_port [OF s1 s2]
    by (auto simp: plain_endpoint_def chain_end_def new_builder_def)
qed

definition twice_built :: builder where
  "twice_built =
    (let (c0, b0) = builder_start (dsl_config ''If'' NodeKind) (new_builder ''wf'' ''sample'')
     in snd (cursor_then (dsl_config ''if!'' NodeKind) c0 b0))"

lemma build_reports_every_bad_id_witness:
  "\<exists>dups. mset dups = mset (shared_entries (id_entries dsl_view (wb_nodes twice_built)))
     \<and> builder_build dsl_view twice_built = Inl (invalid_ids_error [] dups)"
proof -
  have "\<not> is_ok (builder_build dsl_view twice_built)" by code_simp
  then obtain err where err: "builder_build dsl_view twice_built = Inl err"
    by (cases "builder_build dsl_view twice_built") simp_all
  have none: "empty_entries (id_entries dsl_view (wb_nodes twice_built)) = []" by code_simp
  show ?thesis
    using build_reports_every_bad_id [THEN conjunct2, rule_format, OF err] err unfolding none by blast
qed

end
