(* ===== verification/ToolSearch.thy ===== *)
theory ToolSearch
  imports Complex_Main Classifier Scheduling
begin

text \<open>
  \<open>core-nodes/src/nodes/BM25Index.ts\<close> and \<open>DeferredMetaToolStrategy.ts\<close>: the tools of MCP servers are not all offered to a
  model; it finds them with a search over their descriptions.  Scores are real numbers here where the code has
  doubles.  A tool of a server is its description; what its \<open>execute\<close> does belongs to the agent.
\<close>

section \<open>The index\<close>

text \<open>The terms of a text: its runs of letters and digits, in lower case.\<close>

fun split_terms :: "string \<Rightarrow> string \<Rightarrow> string list" where
  "split_terms cur [] = (if cur = [] then [] else [rev cur])"
| "split_terms cur (c # s) =
    (if is_slug_char c then split_terms (c # cur) s
     else (if cur = [] then [] else [rev cur]) @ split_terms [] s)"

definition tokenize :: "string \<Rightarrow> string list" where
  "tokenize text = split_terms [] (map lower_char text)"

text \<open>\<open>add\<close> may be called once; the frequencies of a document, and in how many documents a term occurs.\<close>

record bm25_index =
  bm_tf :: "(string, nat) jmap list"
  bm_df :: "(string, nat) jmap"
  bm_avgDocLen :: real

definition empty_index :: bm25_index where
  "empty_index = \<lparr>bm_tf = [], bm_df = [], bm_avgDocLen = 0\<rparr>"

definition count_term :: "string \<Rightarrow> (string, nat) jmap \<Rightarrow> (string, nat) jmap" where
  "count_term t m = jset t (Suc (opt_or (jget m t) 0)) m"

definition term_freqs :: "string list \<Rightarrow> (string, nat) jmap" where
  "term_freqs ts = fold count_term ts []"

definition index_add :: "string list \<Rightarrow> bm25_index \<Rightarrow> bm25_index" where
  "index_add docs ix =
    (let terms = map tokenize docs
     in \<lparr>bm_tf = bm_tf ix @ map term_freqs terms,
         bm_df = fold (\<lambda>ts m. fold count_term (jkeys (term_freqs ts)) m) terms (bm_df ix),
         bm_avgDocLen = (if terms = [] then 0 else real (sum_list (map length terms)) / real (length terms))\<rparr>)"

definition doc_len :: "(string, nat) jmap \<Rightarrow> nat" where
  "doc_len m = sum_list (map snd m)"

definition bm_k1 :: real where
  "bm_k1 = 15 / 10"

definition bm_b :: real where
  "bm_b = 75 / 100"

definition idf :: "bm25_index \<Rightarrow> string \<Rightarrow> real" where
  "idf ix t =
    (let n = real (length (bm_tf ix)); df = real (opt_or (jget (bm_df ix) t) 0)
     in ln ((n - df + 5 / 10) / (df + 5 / 10) + 1))"

definition term_score :: "bm25_index \<Rightarrow> (string, nat) jmap \<Rightarrow> string \<Rightarrow> real" where
  "term_score ix doc t =
    (let df = opt_or (jget (bm_df ix) t) 0; freq = opt_or (jget doc t) 0
     in if df = 0 \<or> freq = 0 then 0
        else idf ix t * ((real freq * (bm_k1 + 1))
          / (real freq + bm_k1 * (1 - bm_b + bm_b * (real (doc_len doc) / bm_avgDocLen ix)))))"

definition doc_score :: "bm25_index \<Rightarrow> string list \<Rightarrow> (string, nat) jmap \<Rightarrow> real" where
  "doc_score ix query doc = sum_list (map (term_score ix doc) query)"

definition index_search :: "bm25_index \<Rightarrow> string \<Rightarrow> nat \<Rightarrow> nat list" where
  "index_search ix query limit =
    (let scores = map (doc_score ix (tokenize query)) (bm_tf ix);
         hits = filter (\<lambda>i. scores ! i > 0) [0..<length scores]
     in take limit (sort_key (\<lambda>i. - (scores ! i)) hits))"

section \<open>The tools of a turn\<close>

record mcp_entry =
  mc_serverId :: string
  mc_toolName :: string
  mc_description :: string

record tool_strategy =
  ts_nodeBackedTools :: "string list"
  ts_pinnedTools :: "string list"
  ts_mcpEntries :: "mcp_entry list"
  ts_toolsByServerId :: "(string, string list) jmap"
  ts_foundToolIds :: "string list"
  ts_index :: bm25_index

definition pinned_soft_limit :: nat where
  "pinned_soft_limit = 8"

definition pinned_hard_limit :: nat where
  "pinned_hard_limit = 16"

definition find_tools_name :: string where
  "find_tools_name = ''find_tools''"

definition find_tools_default_limit :: nat where
  "find_tools_default_limit = 5"

text \<open>\<open>server:tool\<close>, split at the first colon.\<close>

definition split_tool_id :: "string \<Rightarrow> (string \<times> string) option" where
  "split_tool_id s =
    (let a = takeWhile (\<lambda>c. c \<noteq> CHR '':'') s; b = dropWhile (\<lambda>c. c \<noteq> CHR '':'') s
     in if b = [] then None else Some (a, tl b))"

definition mcp_tool_of_id :: "(string, string list) jmap \<Rightarrow> string \<Rightarrow> string option" where
  "mcp_tool_of_id byServer s =
    (case split_tool_id s of
       None \<Rightarrow> None
     | Some (server, tool) \<Rightarrow> if tool \<in> set (jget_list byServer server) then Some tool else None)"

definition set_key :: "string \<Rightarrow> string list \<Rightarrow> string list" where
  "set_key k ks = (if k \<in> set ks then ks else ks @ [k])"

text \<open>The tools of the servers as the integration lists them: for each server its tools with their descriptions.\<close>

definition init_strategy ::
  "string list \<Rightarrow> (string \<times> (string \<times> string) list) list \<Rightarrow> string list \<Rightarrow> js_error + tool_strategy" where
  "init_strategy nodeBacked servers pinned =
    (if length pinned > pinned_hard_limit
     then Inl (plain_error (''Agent config error: pinnedMcpTools count ('' @ string_of_nat (length pinned)
                @ '') exceeds hard limit of '' @ string_of_nat pinned_hard_limit @ ''.''))
     else
       let entries = concat (map (\<lambda>(srv, tools). map (\<lambda>(tool, descr). \<lparr>mc_serverId = srv, mc_toolName = tool, mc_description = descr\<rparr>) tools) servers);
           byServer = map (\<lambda>(srv, tools). (srv, map fst tools)) servers;
           texts = map (\<lambda>e. mc_toolName e @ '' '' @ mc_description e) entries
       in Inr \<lparr>ts_nodeBackedTools = nodeBacked, ts_pinnedTools = fold set_key (List.map_filter (mcp_tool_of_id byServer) pinned) [],
               ts_mcpEntries = entries, ts_toolsByServerId = byServer, ts_foundToolIds = [],
               ts_index = (if texts = [] then empty_index else index_add texts empty_index)\<rparr>)"

definition pinned_warning :: "string list \<Rightarrow> string option" where
  "pinned_warning pinned =
    (if length pinned > pinned_hard_limit \<or> length pinned \<le> pinned_soft_limit then None
     else Some (''Agent config: pinnedMcpTools count ('' @ string_of_nat (length pinned) @ '') is above soft limit (''
            @ string_of_nat pinned_soft_limit @ ''); consider deferring some via find_tools.''))"

definition tools_for_turn :: "string list \<Rightarrow> tool_strategy \<Rightarrow> string list" where
  "tools_for_turn previousFound S =
    (let base = fold set_key (ts_nodeBackedTools S @ ts_pinnedTools S) [];
         found = fold set_key (List.map_filter (mcp_tool_of_id (ts_toolsByServerId S)) previousFound) base
     in if ts_mcpEntries S = [] then found else set_key find_tools_name found)"

definition owns_tool_name :: "tool_strategy \<Rightarrow> string \<Rightarrow> bool" where
  "owns_tool_name S n = (n = find_tools_name \<or> (\<exists>(srv, tools) \<in> set (ts_toolsByServerId S). n \<in> set tools))"

definition find_tools :: "tool_strategy \<Rightarrow> string \<Rightarrow> nat option \<Rightarrow> mcp_entry list" where
  "find_tools S query limit =
    map (\<lambda>i. ts_mcpEntries S ! i) (index_search (ts_index S) query (opt_or limit find_tools_default_limit))"

definition tool_id :: "mcp_entry \<Rightarrow> string" where
  "tool_id e = mc_serverId e @ '':'' @ mc_toolName e"

definition record_found_tools :: "mcp_entry list \<Rightarrow> tool_strategy \<Rightarrow> tool_strategy" where
  "record_found_tools es S = S\<lparr>ts_foundToolIds := fold (\<lambda>e. set_key (tool_id e)) es (ts_foundToolIds S)\<rparr>"

section \<open>What the search finds\<close>

lemma jget_fold_count: "opt_or (jget (fold count_term ts m) t) 0 = opt_or (jget m t) 0 + count_list ts t"
  by (induction ts arbitrary: m) (auto simp: count_term_def)

lemma jget_term_freqs: "opt_or (jget (term_freqs ts) t) 0 = count_list ts t"
  by (simp add: term_freqs_def jget_fold_count)

lemma keys_fold_count: "fst ` set (fold count_term ts m) = fst ` set m \<union> set ts"
  by (induction ts arbitrary: m) (auto simp: count_term_def)

lemma distinct_fold_count: "distinct (jkeys m) \<Longrightarrow> distinct (jkeys (fold count_term ts m))"
  by (induction ts arbitrary: m) (auto simp: count_term_def)

lemma count_list_distinct: "distinct xs \<Longrightarrow> count_list xs x = (if x \<in> set xs then 1 else 0)"
  by (induction xs) (auto simp: count_list_0_iff)

lemma term_freqs_keys: "count_list (jkeys (term_freqs ts)) t = (if t \<in> set ts then 1 else 0)"
proof -
  have "distinct (jkeys (term_freqs ts))" unfolding term_freqs_def by (rule distinct_fold_count) simp
  moreover have "set (jkeys (term_freqs ts)) = set ts" using keys_fold_count [of ts "[]"] by (simp add: term_freqs_def)
  ultimately show ?thesis by (simp add: count_list_distinct)
qed

lemma jget_df:
  "opt_or (jget (fold (\<lambda>ts m. fold count_term (jkeys (term_freqs ts)) m) docs m) t) 0
     = opt_or (jget m t) 0 + length (filter (\<lambda>ts. t \<in> set ts) docs)"
  by (induction docs arbitrary: m) (auto simp: jget_fold_count term_freqs_keys)

lemma index_df:
  "opt_or (jget (bm_df (index_add docs empty_index)) t) 0 = length (filter (\<lambda>d. t \<in> set (tokenize d)) docs)"
  by (simp add: index_add_def Let_def jget_df empty_index_def filter_map comp_def)

lemma term_score_pos:
  assumes "d \<in> set docs" "t \<in> set (tokenize d)"
  shows "term_score (index_add docs empty_index) (term_freqs (tokenize d)) t > 0"
proof -
  let ?ix = "index_add docs empty_index" and ?f = "count_list (tokenize d) t"
  let ?df = "length (filter (\<lambda>d. t \<in> set (tokenize d)) docs)"
  have n: "length (bm_tf ?ix) = length docs" by (simp add: index_add_def Let_def empty_index_def)
  have avg: "bm_avgDocLen ?ix \<ge> 0" by (simp add: index_add_def Let_def sum_list_nonneg)
  have df: "?df > 0" using assms by (auto simp: filter_empty_conv)
  have le: "?df \<le> length docs" by (rule length_filter_le)
  have "real ?df \<le> real (length docs)" using le by (simp only: of_nat_le_iff)
  then have "real (length docs) - real ?df + 5 / 10 > 0" by (simp only: add_nonneg_pos diff_ge_0_iff_ge)
  then have "1 < (real (length docs) - real ?df + 5 / 10) / (real ?df + 5 / 10) + 1" by simp
  then have idf: "idf ?ix t > 0" unfolding idf_def Let_def n index_df by (rule ln_gt_zero)
  have freq: "?f > 0" using assms(2) by (metis count_list_0_iff neq0_conv)
  have "bm_b * (real (doc_len m) / bm_avgDocLen ?ix) \<ge> 0" for m using avg by (simp add: bm_b_def)
  then have "bm_k1 * (1 - bm_b + bm_b * (real (doc_len m) / bm_avgDocLen ?ix)) > 0" for m
    by (intro mult_pos_pos) (simp_all add: bm_k1_def bm_b_def add_pos_nonneg)
  then have "real ?f + bm_k1 * (1 - bm_b + bm_b * (real (doc_len m) / bm_avgDocLen ?ix)) > 0" for m
    using freq by (simp add: add_pos_pos)
  then have "real ?f * (bm_k1 + 1) / (real ?f + bm_k1 * (1 - bm_b + bm_b * (real (doc_len m) / bm_avgDocLen ?ix))) > 0" for m
    using freq by (intro divide_pos_pos mult_pos_pos) (simp_all add: bm_k1_def)
  note pos = mult_pos_pos [OF idf this]
  have "(?df = 0 \<or> ?f = 0) = False" using df freq by simp
  then show ?thesis using pos unfolding term_score_def Let_def jget_term_freqs index_df times_divide_eq_right by (simp only: if_False)
qed

lemma term_score_zero: "t \<notin> set (tokenize d) \<Longrightarrow> term_score ix (term_freqs (tokenize d)) t = 0"
  by (simp add: term_score_def jget_term_freqs count_list_0_iff Let_def)

lemma doc_score_pos_iff:
  assumes "d \<in> set docs"
  shows "doc_score (index_add docs empty_index) query (term_freqs (tokenize d)) > 0 \<longleftrightarrow> set query \<inter> set (tokenize d) \<noteq> {}"
proof -
  let ?s = "term_score (index_add docs empty_index) (term_freqs (tokenize d))"
  have nonneg: "?s t \<ge> 0" for t using term_score_pos [OF assms, of t] term_score_zero [of t d] by (cases "t \<in> set (tokenize d)") auto
  show ?thesis
  proof
    assume "set query \<inter> set (tokenize d) \<noteq> {}"
    then obtain t where t: "t \<in> set query" "t \<in> set (tokenize d)" by blast
    have "?s t \<le> sum_list (map ?s query)" using nonneg t(1) by (intro member_le_sum_list) auto
    then show "doc_score (index_add docs empty_index) query (term_freqs (tokenize d)) > 0"
      using term_score_pos [OF assms t(2)] by (simp add: doc_score_def)
  next
    assume pos: "doc_score (index_add docs empty_index) query (term_freqs (tokenize d)) > 0"
    show "set query \<inter> set (tokenize d) \<noteq> {}"
    proof
      assume "set query \<inter> set (tokenize d) = {}"
      then have "map ?s query = map (\<lambda>_. 0) query" by (intro map_cong refl term_score_zero) auto
      then have "sum_list (map ?s query) = 0" by (simp only: sum_list_0)
      then show False using pos by (simp only: doc_score_def less_irrefl)
    qed
  qed
qed

definition score_of :: "string list \<Rightarrow> string \<Rightarrow> nat \<Rightarrow> real" where
  "score_of docs query i = doc_score (index_add docs empty_index) (tokenize query) (term_freqs (tokenize (docs ! i)))"

definition sharing_docs :: "string list \<Rightarrow> string \<Rightarrow> nat list" where
  "sharing_docs docs query = filter (\<lambda>i. set (tokenize query) \<inter> set (tokenize (docs ! i)) \<noteq> {}) [0..<length docs]"

lemma insort_key_cong: "\<forall>x \<in> insert x (set ys). f x = g x \<Longrightarrow> insort_key f x ys = insort_key g x ys"
  by (induction ys) auto

lemma sort_key_cong: "\<forall>x \<in> set xs. f x = g x \<Longrightarrow> sort_key f xs = sort_key g xs"
  by (induction xs) (auto intro!: insort_key_cong)

lemma index_search_eq:
  "index_search (index_add docs empty_index) query limit = take limit (sort_key (\<lambda>i. - score_of docs query i) (sharing_docs docs query))"
proof -
  let ?ix = "index_add docs empty_index"
  have tf: "bm_tf ?ix = map (\<lambda>d. term_freqs (tokenize d)) docs" by (simp add: index_add_def Let_def empty_index_def)
  have sc: "map (doc_score ?ix (tokenize query)) (bm_tf ?ix) ! i = score_of docs query i" if "i < length docs" for i
    using that by (simp add: tf score_of_def)
  have hits: "filter (\<lambda>i. map (doc_score ?ix (tokenize query)) (bm_tf ?ix) ! i > 0) [0..<length docs] = sharing_docs docs query"
    unfolding sharing_docs_def by (rule filter_cong) (simp_all add: sc score_of_def doc_score_pos_iff)
  have "sort_key (\<lambda>i. - (map (doc_score ?ix (tokenize query)) (bm_tf ?ix) ! i)) (sharing_docs docs query)
      = sort_key (\<lambda>i. - score_of docs query i) (sharing_docs docs query)"
    by (rule sort_key_cong) (auto simp: sc sharing_docs_def)
  then show ?thesis using hits by (simp add: index_search_def Let_def tf)
qed

text \<open>The search over the tool descriptions returns only documents that share a word with the query, each once, as many
  as asked for or all of them; they come in the order of their scores, and none that is left out has a higher score
  than one that is returned.\<close>

theorem search_ranks_matches:
  "distinct (index_search (index_add docs empty_index) query limit)
   \<and> set (index_search (index_add docs empty_index) query limit) \<subseteq> set (sharing_docs docs query)
   \<and> length (index_search (index_add docs empty_index) query limit) = min limit (length (sharing_docs docs query))
   \<and> sorted (map (\<lambda>i. - score_of docs query i) (index_search (index_add docs empty_index) query limit))
   \<and> (\<forall>i \<in> set (index_search (index_add docs empty_index) query limit).
        \<forall>j \<in> set (sharing_docs docs query) - set (index_search (index_add docs empty_index) query limit).
          score_of docs query j \<le> score_of docs query i)"
proof -
  let ?f = "\<lambda>i. - score_of docs query i"
  let ?xs = "sort_key ?f (sharing_docs docs query)"
  have d: "distinct ?xs" by (simp add: sharing_docs_def)
  have "sorted (map ?f (take limit ?xs @ drop limit ?xs))" by (simp only: append_take_drop_id sorted_sort_key)
  then have s: "sorted (map ?f (take limit ?xs))" "\<forall>i \<in> set (take limit ?xs). \<forall>j \<in> set (drop limit ?xs). ?f i \<le> ?f j"
    by (auto simp del: append_take_drop_id simp: sorted_append)
  have "set (sharing_docs docs query) = set (take limit ?xs) \<union> set (drop limit ?xs)"
    by (metis append_take_drop_id set_append set_sort)
  moreover have "set (take limit ?xs) \<subseteq> set (sharing_docs docs query)" by (metis set_sort set_take_subset)
  ultimately show ?thesis using s d unfolding index_search_eq by (auto simp: min.commute)
qed

lemma search_ranks_matches_witness:
  "index_search (index_add [''read_file Read a file'', ''send_mail Send e-mail''] empty_index) ''MAIL it'' 5 = [1]"
proof -
  let ?r = "index_search (index_add [''read_file Read a file'', ''send_mail Send e-mail''] empty_index) ''MAIL it'' 5"
  have "sharing_docs [''read_file Read a file'', ''send_mail Send e-mail''] ''MAIL it'' = [1]" by code_simp
  then have "set ?r \<subseteq> {1}" "length ?r = 1"
    using search_ranks_matches [of "[''read_file Read a file'', ''send_mail Send e-mail'']" "''MAIL it''" 5] by simp_all
  then show ?thesis by (cases ?r) auto
qed

section \<open>Which tools are offered\<close>

lemma set_fold_set_key [simp]: "set (fold set_key ks acc) = set acc \<union> set ks"
  by (induction ks arbitrary: acc) (auto simp: set_key_def)

lemma set_map_filter: "set (List.map_filter f xs) = {y. \<exists>x \<in> set xs. f x = Some y}"
  by (force simp: List.map_filter_def)

lemma mcp_tool_of_id_mem:
  assumes "mcp_tool_of_id byServer s = Some t"
  shows "\<exists>(srv, tools) \<in> set byServer. t \<in> set tools"
proof -
  obtain srv where "t \<in> set (jget_list byServer srv)"
    using assms by (auto simp: mcp_tool_of_id_def split: option.splits if_splits)
  then obtain tools where "jget byServer srv = Some tools" "t \<in> set tools" by (cases "jget byServer srv") auto
  then show ?thesis using map_of_SomeD by fastforce
qed

text \<open>Every tool that a turn offers is one of the agent's own or belongs to the strategy.\<close>

lemma offered_tools_owned:
  assumes "init_strategy nodeBacked servers pinned = Inr S0" "ts_toolsByServerId S = ts_toolsByServerId S0"
    "ts_pinnedTools S = ts_pinnedTools S0" "ts_nodeBackedTools S = ts_nodeBackedTools S0"
    and "n \<in> set (tools_for_turn found S)"
  shows "n \<in> set nodeBacked \<or> owns_tool_name S n"
proof -
  have S0: "ts_nodeBackedTools S = nodeBacked"
    "set (ts_pinnedTools S) = set (List.map_filter (mcp_tool_of_id (ts_toolsByServerId S)) pinned)"
    using assms(1-4) by (auto simp: init_strategy_def Let_def split: if_splits)
  have owned: "owns_tool_name S t" if "t \<in> set (List.map_filter (mcp_tool_of_id (ts_toolsByServerId S)) ids)" for t ids
    using that mcp_tool_of_id_mem by (auto simp: set_map_filter owns_tool_name_def)
  have "n \<in> set nodeBacked \<union> set (ts_pinnedTools S) \<union> set (List.map_filter (mcp_tool_of_id (ts_toolsByServerId S)) found) \<union> {find_tools_name}"
    using assms(5) S0(1) by (auto simp: tools_for_turn_def Let_def set_key_def split: if_splits)
  then show ?thesis using owned S0(2) by (auto simp: owns_tool_name_def [of S find_tools_name])
qed

text \<open>A tool of the agent that has the name of a tool of a server is offered as the agent's and run as the server's.\<close>

lemma shadowed_tool:
  assumes "n \<in> set (ts_nodeBackedTools S)" "(srv, tools) \<in> set (ts_toolsByServerId S)" "n \<in> set tools"
  shows "n \<in> set (tools_for_turn [] S) \<and> owns_tool_name S n"
  using assms by (auto simp: tools_for_turn_def owns_tool_name_def Let_def set_key_def)

end
