(* ===== verification/AgentFacts.thy ===== *)
theory AgentFacts
  imports Agent
begin

text \<open>
  What the agent loop of \<open>Agent\<close> promises: every call of a tool that the model sees again has been answered, the turns and
  repairs are bounded, structured output has passed its schema, and what a suspension leaves of a turn.
\<close>

section \<open>Answered conversations\<close>

text \<open>Every message with calls is followed by one with a result for each of them, and results come nowhere else.\<close>

fun answered :: "chat_message list \<Rightarrow> bool" where
  "answered [] = True"
| "answered (SystemMessage _ # ms) = answered ms"
| "answered (UserMessage _ # ms) = answered ms"
| "answered (ToolResults _ # ms) = False"
| "answered (AssistantMessage _ [] # ms) = answered ms"
| "answered (AssistantMessage _ (c # cs) # ToolResults rs # ms) = (mset (map fst rs) = mset (map tk_id (c # cs)) \<and> answered ms)"
| "answered (AssistantMessage _ (c # cs) # ms) = False"

lemma answered_append: "answered xs \<Longrightarrow> answered (xs @ ys) = answered ys"
  by (induction xs rule: answered.induct) auto

lemma answered_prompts: "answered (map prompt_message ms)"
proof (induction ms)
  case (Cons m ms)
  then show ?case by (cases m; cases "fst m") auto
qed simp

lemma answered_round:
  assumes "answered conv" "mset (map fst rs) = mset (map tk_id cs)" "cs \<noteq> []"
  shows "answered (conv @ [AssistantMessage txt cs, ToolResults rs])"
  using assms by (cases cs) (auto simp: answered_append)

lemma answered_results:
  assumes "answered conv" "mset (map xc_toolCallId xs) = mset (map tk_id cs)" "cs \<noteq> []"
  shows "answered (conv @ [AssistantMessage txt cs, tool_results_message xs])"
  unfolding tool_results_message_def by (rule answered_round [OF assms(1) _ assms(3)]) (use assms(2) in \<open>simp add: comp_def\<close>)

text \<open>
  What the loop needs from outside: a message that the model's library gives for a turn has the calls that it reports, and
  every call of a tool settles once.
\<close>

definition faithful_model :: "'w agent_env \<Rightarrow> bool" where
  "faithful_model env =
    (\<forall>msgs tools w t w'. ae_model env msgs tools w = (Inr t, w') \<longrightarrow>
       (\<forall>m. tu_assistantMessage t = Some m \<longrightarrow> (\<exists>txt cs. m = AssistantMessage txt cs \<and> map tk_id cs = map tk_id (tu_toolCalls t))))"

definition calls_settle :: "'w agent_env \<Rightarrow> bool" where
  "calls_settle env = (\<forall>calls w. set (map fst (fst (ae_runTools env calls w))) = {..<length calls})"

section \<open>Parts that leave the conversation alone\<close>

definition unspoken :: "('a, 'w) agent_action \<Rightarrow> bool" where
  "unspoken m = (\<forall>conv sent. keeps (\<lambda>S. as_conversation S = conv \<and> as_sent S = sent) m)"

lemma unspokenD: "unspoken m \<Longrightarrow> m S = (r, S') \<Longrightarrow> as_conversation S' = as_conversation S \<and> as_sent S' = as_sent S"
  unfolding unspoken_def using keeps_result [where m = m and s = S] by blast

lemma unspoken_wp: "unspoken m \<Longrightarrow> wp m (\<lambda>_ S'. as_conversation S' = as_conversation S \<and> as_sent S' = as_sent S) S"
  by (rule wpI) (rule unspokenD)

named_theorems unspoken_intros "actions that leave the conversation alone"

lemma unspoken_then [unspoken_intros]: "unspoken m \<Longrightarrow> (\<And>x. unspoken (f x)) \<Longrightarrow> unspoken (then_do m f)"
  by (simp add: unspoken_def keeps_then)

lemma unspoken_return [unspoken_intros]: "unspoken (return_do x)"
  by (simp add: unspoken_def keeps_return)

lemma unspoken_throw [unspoken_intros]: "unspoken (throw_error e)"
  by (simp add: unspoken_def throw_error_def keeps_throw)

lemma unspoken_gets [unspoken_intros]: "unspoken (gets_do f)"
  by (simp add: unspoken_def keeps_gets)

lemma unspoken_update: "(\<And>S. as_conversation (f S) = as_conversation S \<and> as_sent (f S) = as_sent S) \<Longrightarrow> unspoken (update_do f)"
  by (auto simp: unspoken_def intro!: keeps_update)

lemma unspoken_new_invocation [unspoken_intros]: "unspoken new_invocation"
  by (simp add: unspoken_def keeps_def new_invocation_def)

lemma unspoken_on_world [unspoken_intros]: "unspoken (on_world f)"
  by (simp add: unspoken_def keeps_def on_world_def split: prod.split)

lemma unspoken_case_sum [unspoken_intros]: "(\<And>e. unspoken (g e)) \<Longrightarrow> (\<And>x. unspoken (f x)) \<Longrightarrow> unspoken (case r of Inl e \<Rightarrow> g e | Inr x \<Rightarrow> f x)"
  by (simp split: sum.split)

lemma unspoken_case_option [unspoken_intros]: "unspoken m \<Longrightarrow> (\<And>x. unspoken (f x)) \<Longrightarrow> unspoken (case y of None \<Rightarrow> m | Some x \<Rightarrow> f x)"
  by (simp split: option.split)

lemma unspoken_case_prod [unspoken_intros]: "(\<And>a b. unspoken (f a b)) \<Longrightarrow> unspoken (case p of (a, b) \<Rightarrow> f a b)"
  by (simp split: prod.split)

lemma unspoken_if [unspoken_intros]: "(b \<Longrightarrow> unspoken m) \<Longrightarrow> (\<not> b \<Longrightarrow> unspoken k) \<Longrightarrow> unspoken (if b then m else k)"
  by simp

lemma track_frame [simp]: "as_conversation (track i t S) = as_conversation S" "as_sent (track i t S) = as_sent S"
  "as_attempts (track i t S) = as_attempts S" "as_strategy (track i t S) = as_strategy S" "as_found (track i t S) = as_found S"
  "as_world (track i t S) = as_world S" "as_toolCallCount (track i t S) = as_toolCallCount S"
  by (simp_all add: track_def)

lemma track_all_frame [simp]: "as_conversation (track_all t ps S) = as_conversation S" "as_sent (track_all t ps S) = as_sent S"
  "as_attempts (track_all t ps S) = as_attempts S"
proof -
  have "as_conversation (fold (\<lambda>p. track (pc_invocationId p) t) ps S) = as_conversation S
      \<and> as_sent (fold (\<lambda>p. track (pc_invocationId p) t) ps S) = as_sent S
      \<and> as_attempts (fold (\<lambda>p. track (pc_invocationId p) t) ps S) = as_attempts S"
    by (induction ps arbitrary: S) simp_all
  then show "as_conversation (track_all t ps S) = as_conversation S" "as_sent (track_all t ps S) = as_sent S"
    "as_attempts (track_all t ps S) = as_attempts S" by (simp_all add: track_all_def)
qed

lemma unspoken_plan_tool_calls [unspoken_intros]: "unspoken (plan_tool_calls env counts cs)"
proof (induction cs arbitrary: counts)
  case (Cons c cs)
  have "unspoken (plan_tool_call env counts c)"
    unfolding plan_tool_call_def Let_def by (intro unspoken_intros)
  then show ?case unfolding plan_tool_calls.simps by (intro unspoken_intros Cons.IH)
qed (simp add: unspoken_return)

lemma unspoken_meta_call [unspoken_intros]: "unspoken (execute_meta_call env c)"
  unfolding execute_meta_call_def by (intro unspoken_intros unspoken_update) (simp add: Let_def)

lemma unspoken_meta_calls [unspoken_intros]: "unspoken (execute_meta_calls env cs)"
  by (induction cs) (auto intro: unspoken_intros)

lemma settle_call_frame:
  "settle_call env conv tc n p out S = (r, S') \<Longrightarrow> as_conversation S' = as_conversation S \<and> as_sent S' = as_sent S"
  by (auto simp: settle_call_def Let_def repair_decision_def split: tool_outcome.splits if_splits)

lemma settle_call_id: "settle_call env conv tc n p out S = (Inr x, S') \<Longrightarrow> xc_toolCallId x = tk_id (pc_call p)"
  by (auto simp: settle_call_def Let_def repair_decision_def executed_of_def split: tool_outcome.splits if_splits)

definition settle_step ::
  "'w agent_env \<Rightarrow> chat_message list \<Rightarrow> nat \<Rightarrow> nat \<Rightarrow> planned_call list \<Rightarrow> nat \<times> tool_outcome
    \<Rightarrow> (nat, agent_thrown + executed_call) jmap \<times> 'w agent_state \<Rightarrow> (nat, agent_thrown + executed_call) jmap \<times> 'w agent_state" where
  "settle_step env conv tc n ps = (\<lambda>(k, out) (results, S).
     if k < length ps then case settle_call env conv tc n (ps ! k) out S of (r, S') \<Rightarrow> (jset k r results, S') else (results, S))"

lemma settle_all_fold: "settle_all env conv tc n ps outs S = fold (settle_step env conv tc n ps) outs ([], S)"
  by (simp add: settle_all_def settle_step_def)

definition settled :: "planned_call list \<Rightarrow> nat set \<Rightarrow> chat_message list \<Rightarrow> chat_message list list
    \<Rightarrow> (nat, agent_thrown + executed_call) jmap \<times> 'w agent_state \<Rightarrow> bool" where
  "settled ps K conv sent x =
    (fst ` set (fst x) = K \<and> (\<forall>k r. jget (fst x) k = Some (Inr r) \<longrightarrow> xc_toolCallId r = tk_id (pc_call (ps ! k)))
     \<and> as_conversation (snd x) = conv \<and> as_sent (snd x) = sent)"

lemma settled_step:
  assumes "settled ps K cv sent x"
  shows "settled ps (K \<union> (if k < length ps then {k} else {})) cv sent (settle_step env conv tc n ps (k, out) x)"
proof (cases "k < length ps")
  case True
  obtain results S where x: "x = (results, S)" by fastforce
  obtain r S' where r: "settle_call env conv tc n (ps ! k) out S = (r, S')" by fastforce
  then show ?thesis using assms True settle_call_frame [OF r] settle_call_id [of env conv tc n "ps ! k" out S]
    by (auto simp: settled_def settle_step_def x)
next
  case False
  then show ?thesis using assms by (simp add: settle_step_def split: prod.split)
qed

lemma settled_all: "settled ps (set (map fst outs) \<inter> {..<length ps}) (as_conversation S) (as_sent S) (settle_all env conv tc n ps outs S)"
proof -
  have "settled ps (K \<union> (set (map fst outs) \<inter> {..<length ps})) cv sent (fold (settle_step env conv tc n ps) outs x)"
    if "settled ps K cv sent x" for K cv sent and x :: "(nat, agent_thrown + executed_call) jmap \<times> 'a agent_state"
    using that
  proof (induction outs arbitrary: K x)
    case (Cons o' outs)
    obtain k out where o': "o' = (k, out)" by fastforce
    have eq: "K \<union> (if k < length ps then {k} else {}) \<union> (set (map fst outs) \<inter> {..<length ps})
        = K \<union> (set (map fst (o' # outs)) \<inter> {..<length ps})" by (auto simp: o')
    show ?case using Cons.IH [OF settled_step [OF Cons.prems, of k env conv tc n out]] unfolding eq by (simp add: o')
  qed simp
  from this [of "{}" "as_conversation S" "as_sent S" "([], S)"] show ?thesis
    by (simp add: settle_all_fold settled_def)
qed

lemma first_rejected_None: "first_rejected rs = None \<Longrightarrow> \<exists>xs. rs = map Inr xs"
proof (induction rs rule: first_rejected.induct)
  case (3 x rs)
  then obtain xs where "rs = map Inr xs" by auto
  then show ?case by (intro exI [of _ "x # xs"]) simp
qed auto

lemma coordinator_results:
  assumes "calls_settle env"
  shows "wp (coordinator_execute env ps conv tc n) (\<lambda>r S'. (as_conversation S' = as_conversation S \<and> as_sent S' = as_sent S)
     \<and> (\<forall>xs. r = Inr xs \<longrightarrow> map xc_toolCallId xs = map (tk_id \<circ> pc_call) ps)) S"
proof (rule wpI)
  fix r S'
  assume ex: "coordinator_execute env ps conv tc n S = (r, S')"
  show "(as_conversation S' = as_conversation S \<and> as_sent S' = as_sent S)
     \<and> (\<forall>xs. r = Inr xs \<longrightarrow> map xc_toolCallId xs = map (tk_id \<circ> pc_call) ps)"
  proof (cases "(\<exists>p \<in> set ps. tb_humanApproval (pc_binding p) \<noteq> None) \<and> length ps > 1")
    case True
    then have "coordinator_execute env ps conv tc n S = (Inr (map (\<lambda>p. executed_of p (JObj [(''error'', JStr (solo_message p))])) ps), S)"
      unfolding coordinator_execute_def return_do_def by (simp only: if_True simp_thms)
    then show ?thesis using ex by (simp add: executed_of_def comp_def)
  next
    case False
    define calls where "calls = map (\<lambda>p. (pc_call p)\<lparr>tk_input := input_or_empty (tk_input (pc_call p))\<rparr>) ps"
    obtain outs w' where run: "ae_runTools env calls (as_world (track_all TrackRunning ps S)) = (outs, w')" by fastforce
    define S0 where "S0 = (track_all TrackRunning ps S)\<lparr>as_world := w'\<rparr>"
    obtain results S1 where all: "settle_all env conv tc n ps outs S0 = (results, S1)" by fastforce
    let ?rs = "List.map_filter (jget results) [0..<length ps]"
    have ran: "set (map fst outs) = {..<length ps}"
      using assms [unfolded calls_settle_def, rule_format, of calls "as_world (track_all TrackRunning ps S)"]
      unfolding run by (simp add: calls_def)
    have st: "settled ps {..<length ps} (as_conversation S) (as_sent S) (results, S1)"
      using settled_all [of ps outs S0 env conv tc n] ran unfolding all by (simp add: S0_def)
    have r: "(r, S') = (case first_rejected ?rs of Some e \<Rightarrow> (Inl e, S1)
        | None \<Rightarrow> (Inr (List.map_filter (\<lambda>r. case r of Inr x \<Rightarrow> Some x | Inl _ \<Rightarrow> None) ?rs), S1))"
      using ex run all unfolding coordinator_execute_def if_not_P [OF False] calls_def [symmetric]
      by (simp add: then_do_def update_do_def on_world_def S0_def Let_def)
    show ?thesis
    proof (cases "first_rejected ?rs")
      case (Some e)
      then show ?thesis using r st by (simp add: settled_def)
    next
      case None
      then obtain xs where xs: "?rs = map Inr xs" using first_rejected_None by blast
      have get: "\<exists>v. jget results k = Some v" if "k < length ps" for k
        using st that key_jget_Some [of k results] by (auto simp: settled_def)
      then have "filter (\<lambda>k. jget results k \<noteq> None) [0..<length ps] = [0..<length ps]" by (intro filter_True) auto
      then have "?rs = map (\<lambda>k. the (jget results k)) [0..<length ps]" by (simp add: List.map_filter_def comp_def)
      then have xk: "map Inr xs = map (\<lambda>k. the (jget results k)) [0..<length ps]" using xs by simp
      then have len: "length xs = length ps" by (metis length_map length_upt minus_nat.diff_0)
      have "xc_toolCallId (xs ! k) = tk_id (pc_call (ps ! k))" if "k < length ps" for k
      proof -
        have "the (jget results k) = Inr (xs ! k)" using arg_cong [OF xk, of "\<lambda>l. l ! k"] that len by simp
        then have "jget results k = Some (Inr (xs ! k))" using get [OF that] by auto
        then show ?thesis using st by (simp add: settled_def)
      qed
      then have "map xc_toolCallId xs = map (tk_id \<circ> pc_call) ps" using len by (intro nth_equalityI) simp_all
      moreover have "List.map_filter (case_sum (\<lambda>_ :: agent_thrown. None) Some) (map Inr xs) = xs" for xs :: "executed_call list"
        by (induction xs) (simp_all add: List.map_filter_def)
      ultimately show ?thesis using r None st xs by (simp add: settled_def)
    qed
  qed
qed

lemma meta_call_id: "wp (execute_meta_call env c) (\<lambda>r _. \<forall>x. r = Inr x \<longrightarrow> xc_toolCallId x = tk_id c) S"
  unfolding execute_meta_call_def wp_then [where f = "\<lambda>v. return_do \<lparr>xc_toolName = tk_name c, xc_toolCallId = tk_id c, xc_result = v\<rparr>"]
  by (rule wpI) (simp add: wp_return split: sum.split)

lemma meta_calls_ids: "wp (execute_meta_calls env cs) (\<lambda>r _. \<forall>xs. r = Inr xs \<longrightarrow> map xc_toolCallId xs = map tk_id cs) S"
proof (induction cs arbitrary: S)
  case (Cons c cs)
  show ?case unfolding execute_meta_calls.simps wp_then
    by (rule wp_mono [OF meta_call_id]) (auto simp: wp_return split: sum.splits intro!: wp_mono [OF Cons.IH])
qed (simp add: wp_return)

lemma plan_call_id: "wp (plan_tool_call env counts c) (\<lambda>r _. \<forall>p m. r = Inr (p, m) \<longrightarrow> pc_call p = c) S"
  by (auto simp: plan_tool_call_def throw_error_def wp_def then_do_def new_invocation_def return_do_def throw_do_def Let_def split: option.split)

lemma plan_calls: "wp (plan_tool_calls env counts cs) (\<lambda>r _. \<forall>ps. r = Inr ps \<longrightarrow> map pc_call ps = cs) S"
proof (induction cs arbitrary: counts S)
  case (Cons c cs)
  show ?case unfolding plan_tool_calls.simps wp_then
    by (rule wp_mono [OF plan_call_id]) (auto simp: wp_then wp_return split: sum.splits prod.splits intro!: wp_mono [OF Cons.IH])
qed (simp add: wp_return)

definition same_conversation :: "'w agent_state \<Rightarrow> 'w agent_state \<Rightarrow> bool" where
  "same_conversation S S' = (as_conversation S' = as_conversation S \<and> as_sent S' = as_sent S)"

lemma run_coordinator_results:
  assumes "calls_settle env"
  shows "wp (run_coordinator_calls env turn t cs) (\<lambda>r S'. same_conversation S S' \<and> (\<forall>xs. r = Inr xs \<longrightarrow> map xc_toolCallId xs = map tk_id cs)) S"
proof (cases "cs = []")
  case True
  then show ?thesis by (simp add: run_coordinator_calls_def wp_return same_conversation_def)
next
  case False
  note plan = wp_conj [OF unspoken_wp [OF unspoken_plan_tool_calls] plan_calls]
  show ?thesis unfolding run_coordinator_calls_def if_not_P [OF False] wp_then [where m = "plan_tool_calls env [] cs"]
  proof (rule wp_mono [OF plan], goal_cases)
    case (1 r S1)
    show ?case
    proof (cases r)
      case (Inr ps)
      then have ps: "map pc_call ps = cs" using 1 by simp
      let ?S2 = "track_all TrackQueued ps (S1\<lparr>as_toolCallCount := as_toolCallCount S1 + length ps\<rparr>)"
      have "map (tk_id \<circ> pc_call) ps = map tk_id cs" using ps by auto
      then show ?thesis using 1 Inr
        by (auto simp: wp_then wp_update wp_gets same_conversation_def intro!: wp_mono [OF coordinator_results [OF assms, of ps _ _ _ ?S2]])
    qed (use 1 in \<open>simp add: same_conversation_def\<close>)
  qed
qed

definition sent_answered :: "'w agent_state \<Rightarrow> bool" where
  "sent_answered S = (answered (as_conversation S) \<and> (\<forall>ms \<in> set (as_sent S). answered ms))"

lemma sent_answered_same: "same_conversation S S' \<Longrightarrow> sent_answered S \<Longrightarrow> sent_answered S'"
  by (simp add: same_conversation_def sent_answered_def)

lemma mset_partition_ids: "mset (map f (filter P xs) @ map f (filter (\<lambda>x. \<not> P x) xs)) = mset (map f xs)"
  by (induction xs) auto

lemma tool_round_answered:
  assumes "calls_settle env" "sent_answered S" "tu_toolCalls t \<noteq> []"
    and "\<exists>txt cs. assistant_message t = AssistantMessage txt cs \<and> map tk_id cs = map tk_id (tu_toolCalls t)"
  shows "wp (run_tool_round env turn t) (\<lambda>_ S'. sent_answered S') S"
proof -
  let ?own = "\<lambda>c. owns_tool_name (as_strategy S) (tk_name c)"
  note metas = wp_conj [OF unspoken_wp [OF unspoken_meta_calls] meta_calls_ids]
  show ?thesis unfolding run_tool_round_def wp_then [where m = "gets_do (\<lambda>S. owns_tool_name (as_strategy S))"] wp_gets sum.case
      wp_then [where m = "execute_meta_calls _ _"]
  proof (rule wp_mono [OF metas], goal_cases)
    case (1 r S1)
    then have s1: "same_conversation S S1" by (simp add: same_conversation_def)
    show ?case
    proof (cases r)
      case (Inl e)
      then show ?thesis using sent_answered_same [OF s1 assms(2)] by simp
    next
      case (Inr xs)
      then have xs: "map xc_toolCallId xs = map tk_id (filter ?own (tu_toolCalls t))" using 1 by simp
      show ?thesis unfolding Inr sum.case wp_then [where m = "run_coordinator_calls _ _ _ _"]
      proof (rule wp_mono [OF run_coordinator_results [OF assms(1)]], goal_cases)
        case (1 r2 S2)
        then have s2: "sent_answered S2" using sent_answered_same [OF s1 assms(2)] sent_answered_same by blast
        show ?case
        proof (cases r2)
          case (Inr ys)
          then have ys: "map xc_toolCallId ys = map tk_id (filter (\<lambda>c. \<not> ?own c) (tu_toolCalls t))" using 1 by simp
          obtain tx cs where a: "assistant_message t = AssistantMessage tx cs" "map tk_id cs = map tk_id (tu_toolCalls t)"
            using assms(4) by blast
          have ids: "mset (map xc_toolCallId (xs @ ys)) = mset (map tk_id cs)"
            using mset_partition_ids [of tk_id ?own "tu_toolCalls t"] by (simp only: map_append xs ys a(2))
          moreover have "cs \<noteq> []" using a(2) assms(3) by auto
          ultimately show ?thesis using s2 answered_results [of "as_conversation S2" "xs @ ys" cs tx]
            by (simp only: Inr sum.case wp_update sent_answered_def a(1)) simp
        qed (use s2 in simp)
      qed
    qed
  qed
qed

end
