(* ===== verification/AgentRuns.thy ===== *)
theory AgentRuns
  imports AgentFacts
begin

text \<open>
  Whole runs of the agent for an item: the conversations it sends are answered, their number is bounded, an output with a
  schema has passed it, and what a suspension in the middle of a turn leaves.
\<close>

section \<open>Turns\<close>

text \<open>What a call of the model leaves: one more conversation sent, and an answer that is the model's.\<close>

lemma tracked_call_effect:
  "wp (tracked_call msgs call summary)
     (\<lambda>r S'. as_conversation S' = as_conversation S \<and> as_sent S' = as_sent S @ [msgs] \<and> as_strategy S' = as_strategy S
       \<and> (case r of Inr x \<Rightarrow> \<exists>w w'. call w = (Inr x, w') | Inl e \<Rightarrow> \<exists>e'. e = AgentThrows e')) S"
proof (rule wpI)
  fix r S'
  assume ex: "tracked_call msgs call summary S = (r, S')"
  obtain r0 w' where c: "call (as_world S) = (r0, w')" by fastforce
  show "as_conversation S' = as_conversation S \<and> as_sent S' = as_sent S @ [msgs] \<and> as_strategy S' = as_strategy S
       \<and> (case r of Inr x \<Rightarrow> \<exists>w w'. call w = (Inr x, w') | Inl e \<Rightarrow> \<exists>e'. e = AgentThrows e')"
  proof (cases r0)
    case (Inl e)
    then show ?thesis using ex c
      by (auto simp: tracked_call_def then_do_def new_invocation_def update_do_def on_world_def throw_error_def throw_do_def return_do_def)
  next
    case (Inr x)
    then have "r = Inr x" "as_conversation S' = as_conversation S \<and> as_sent S' = as_sent S @ [msgs] \<and> as_strategy S' = as_strategy S"
      using ex c
      by (auto simp: tracked_call_def then_do_def new_invocation_def update_do_def on_world_def throw_error_def throw_do_def return_do_def)
    moreover have "\<exists>w w'. call w = (Inr x, w')" using c unfolding Inr by blast
    ultimately show ?thesis by simp
  qed
qed

lemma sent_answered_send:
  "sent_answered S \<Longrightarrow> answered msgs \<Longrightarrow> as_conversation S' = as_conversation S \<Longrightarrow> as_sent S' = as_sent S @ [msgs] \<Longrightarrow> sent_answered S'"
  by (auto simp: sent_answered_def)

lemma faithful_assistant:
  assumes "faithful_model env" "ae_model env msgs tools w = (Inr t, w')"
  shows "\<exists>tx cs. assistant_message t = AssistantMessage tx cs \<and> map tk_id cs = map tk_id (tu_toolCalls t)"
proof (cases "tu_assistantMessage t")
  case None
  then show ?thesis by (auto simp: assistant_message_def assistant_with_tool_calls_def comp_def)
next
  case (Some m)
  then show ?thesis using assms unfolding faithful_model_def assistant_message_def by fastforce
qed

lemma turn_loop_answered:
  assumes "faithful_model env" "calls_settle env"
  shows "sent_answered S \<Longrightarrow> wp (turn_loop env left turn tx) (\<lambda>_ S'. sent_answered S') S"
proof (induction left arbitrary: turn tx S)
  case 0
  then show ?case by (simp add: wp_return)
next
  case (Suc left)
  have conv: "answered (as_conversation S)" using Suc.prems by (simp add: sent_answered_def)
  show ?case unfolding turn_loop.simps wp_then [where m = "gets_do _"] wp_gets sum.case prod.case
      wp_then [where m = "invoke_text_turn _ _ _"] unfolding invoke_text_turn_def
  proof (rule wp_mono [OF tracked_call_effect], goal_cases)
    case (1 r S1)
    then have s1: "sent_answered S1" using sent_answered_send [OF Suc.prems conv] by blast
    show ?case
    proof (cases r)
      case (Inl e)
      then show ?thesis using s1 by simp
    next
      case (Inr t)
      then obtain w w' where t: "ae_model env (as_conversation S) (offered_tools env S) w = (Inr t, w')" using 1 by auto
      show ?thesis
      proof (cases "tu_toolCalls t = []")
        case False
        note round = tool_round_answered [OF assms(2) s1 False faithful_assistant [OF assms(1) t], of turn]
        show ?thesis using s1 False
          by (auto simp: Inr wp_then wp_return throw_error_def wp_throw split: turn_limit.split sum.split
              intro!: wp_mono [OF round] Suc.IH)
      qed (use s1 in \<open>simp add: Inr wp_return\<close>)
    qed
  qed
qed

section \<open>Structured output\<close>

text \<open>Finding a value of the schema sends the conversation some more times, with prompts behind it, and leaves it as it is.\<close>

definition sends :: "nat \<Rightarrow> chat_message list \<Rightarrow> 'w agent_state \<Rightarrow> 'w agent_state \<Rightarrow> bool" where
  "sends n conv S S' = (as_conversation S' = as_conversation S \<and>
     (\<exists>ps. as_sent S' = as_sent S @ map (\<lambda>p. conv @ map prompt_message p) ps \<and> length ps \<le> n))"

lemma sends_none: "sends n conv S S"
  by (auto simp: sends_def intro!: exI [of _ "[]"])

lemma sends_trans: "sends m conv S S1 \<Longrightarrow> sends n conv S1 S2 \<Longrightarrow> sends (m + n) conv S S2"
proof -
  assume "sends m conv S S1" "sends n conv S1 S2"
  then obtain ps qs where "as_sent S1 = as_sent S @ map (\<lambda>p. conv @ map prompt_message p) ps" "length ps \<le> m"
    "as_sent S2 = as_sent S1 @ map (\<lambda>p. conv @ map prompt_message p) qs" "length qs \<le> n"
    "as_conversation S1 = as_conversation S" "as_conversation S2 = as_conversation S1"
    unfolding sends_def by metis
  then show ?thesis unfolding sends_def by (intro conjI exI [of _ "ps @ qs"]) simp_all
qed

lemma sends_one: "as_conversation S' = as_conversation S \<Longrightarrow> as_sent S' = as_sent S @ [conv @ map prompt_message p] \<Longrightarrow> sends 1 conv S S'"
  by (auto simp: sends_def intro!: exI [of _ "[p]"])

lemma sends_same: "as_conversation S' = as_conversation S \<Longrightarrow> as_sent S' = as_sent S @ [conv] \<Longrightarrow> sends 1 conv S S'"
  using sends_one [of S' S conv "[]"] by simp

lemma sends_answered: "sends n conv S S' \<Longrightarrow> answered conv \<Longrightarrow> sent_answered S \<Longrightarrow> sent_answered S'"
  by (auto simp: sends_def sent_answered_def answered_append answered_prompts)

lemma sends_length: "sends n conv S S' \<Longrightarrow> length (as_sent S') \<le> length (as_sent S) + n"
  by (auto simp: sends_def)

definition of_schema :: "(jsval \<Rightarrow> string + jsval) \<Rightarrow> jsval \<Rightarrow> bool" where
  "of_schema schema v = (\<exists>u. schema u = Inr v)"

lemma parse_and_validate_ok: "parse_and_validate env schema c = Inr v \<Longrightarrow> of_schema schema v"
  by (auto simp: parse_and_validate_def validate_structured_def of_schema_def split: sum.splits)

lemma retry_effect:
  "wp (retry_with_repair_prompt env schema conv n failure)
     (\<lambda>r S'. sends n conv S S' \<and> (\<forall>v. r = Inr v \<longrightarrow> of_schema schema v)) S"
proof (induction n arbitrary: failure S)
  case 0
  then show ?case by (simp add: throw_error_def wp_throw sends_none)
next
  case (Suc n)
  show ?case unfolding retry_with_repair_prompt.simps invoke_text_turn_def wp_then
  proof (rule wp_mono [OF tracked_call_effect], goal_cases)
    case (1 r S1)
    then have one: "sends 1 conv S S1" using sends_one by blast
    have more: "sends n conv S1 S2 \<Longrightarrow> sends (Suc n) conv S S2" for S2 using sends_trans [OF one] by simp
    show ?case
    proof (cases r)
      case (Inl e)
      then show ?thesis using more [OF sends_none] by simp
    next
      case (Inr t)
      show ?thesis
      proof (cases "parse_and_validate env schema (tu_text t)")
        case (Inl failure')
        show ?thesis unfolding Inr Inl sum.case
          by (rule wp_mono [OF Suc.IH]) (use more in blast)
      next
        case Inr': (Inr v)
        then show ?thesis using Inr more [OF sends_none] parse_and_validate_ok [OF Inr'] by (simp add: wp_return)
      qed
    qed
  qed
qed

lemma native_effect:
  "wp (native_structured env schema conv direct) (\<lambda>r S'. sends 3 conv S S' \<and> (\<forall>v. r = Inr v \<longrightarrow> of_schema schema v)) S"
proof (rule wpI)
  fix r S'
  assume ex: "native_structured env schema conv direct S = (r, S')"
  obtain r1 S1 where turn: "invoke_structured_turn env conv S = (r1, S1)" by fastforce
  have eff: "as_conversation S1 = as_conversation S \<and> as_sent S1 = as_sent S @ [conv] \<and> as_strategy S1 = as_strategy S
     \<and> (case r1 of Inr x \<Rightarrow> \<exists>w w'. ae_structured env conv w = (Inr x, w') | Inl e \<Rightarrow> \<exists>e'. e = AgentThrows e')"
    using wp_result [OF tracked_call_effect turn [unfolded invoke_structured_turn_def]] .
  then have one: "sends 1 conv S S1" using sends_same by blast
  have retry: "sends 3 conv S S' \<and> (\<forall>v. r = Inr v \<longrightarrow> of_schema schema v)"
    if "retry_with_repair_prompt env schema conv structured_repair_attempts failure S1 = (r, S')" for failure
    using wp_result [OF retry_effect that] sends_trans [OF one, of structured_repair_attempts S']
    by (simp add: structured_repair_attempts_def eval_nat_numeral)
  show "sends 3 conv S S' \<and> (\<forall>v. r = Inr v \<longrightarrow> of_schema schema v)"
  proof (cases r1)
    case (Inl e)
    then obtain e' where e: "e = AgentThrows e'" using eff by auto
    have "\<exists>failure. retry_with_repair_prompt env schema conv structured_repair_attempts failure S1 = (r, S')"
      using ex unfolding native_structured_def Let_def turn Inl e prod.case sum.case agent_thrown.case by blast
    then show ?thesis using retry by blast
  next
    case (Inr v)
    show ?thesis
    proof (cases "schema v")
      case (Inl summary)
      then have "\<exists>failure. retry_with_repair_prompt env schema conv structured_repair_attempts failure S1 = (r, S')"
        using ex unfolding native_structured_def Let_def turn Inr validate_structured_def prod.case sum.case Inl by blast
      then show ?thesis using retry by blast
    next
      case Inr': (Inr x)
      then have "r = Inr x" "S' = S1" using ex turn Inr by (simp_all add: native_structured_def validate_structured_def)
      then show ?thesis using Inr' sends_trans [OF one sends_none [of 2]] by (auto simp: of_schema_def eval_nat_numeral)
    qed
  qed
qed

lemma resolve_effect:
  "wp (resolve_structured env schema conv direct) (\<lambda>r S'. sends 3 conv S S' \<and> (\<forall>v. r = Inr v \<longrightarrow> of_schema schema v)) S"
proof (cases direct)
  case None
  then show ?thesis using native_effect by (simp add: resolve_structured_def)
next
  case (Some tx)
  then show ?thesis using native_effect parse_and_validate_ok [of env schema tx]
    by (auto simp: resolve_structured_def wp_return sends_none split: sum.split)
qed

section \<open>Runs\<close>

lemma final_output_effect:
  "wp (final_output env tx)
     (\<lambda>r S'. sends 3 (if ae_tools env \<noteq> [] then as_conversation S @ [AssistantMessage tx []] else as_conversation S) S S'
       \<and> (\<forall>v schema. r = Inr v \<longrightarrow> ae_outputSchema env = Some schema \<longrightarrow> of_schema schema v)) S"
proof (cases "ae_outputSchema env")
  case None
  then show ?thesis by (simp add: final_output_def wp_return sends_none)
next
  case (Some schema)
  show ?thesis unfolding final_output_def Some option.case wp_then wp_gets sum.case
    by (rule wp_mono [OF resolve_effect]) simp
qed

lemma answered_said: "answered conv \<Longrightarrow> answered (conv @ [AssistantMessage tx []])"
  by (simp add: answered_append)

lemma run_turn_loop_answered:
  assumes "faithful_model env" "calls_settle env" "sent_answered S"
  shows "wp (run_turn_loop env n) (\<lambda>_ S'. sent_answered S') S"
  unfolding run_turn_loop_def wp_then wp_update sum.case
  by (rule turn_loop_answered [OF assms(1,2)]) (use assms(3) in \<open>simp add: sent_answered_def\<close>)

lemma loop_and_output_answered:
  assumes "faithful_model env" "calls_settle env" "sent_answered S"
  shows "wp (then_do (run_turn_loop env n) (\<lambda>(tx, turns). final_output env tx)) (\<lambda>_ S'. sent_answered S') S"
  unfolding wp_then
proof (rule wp_mono [OF run_turn_loop_answered [OF assms]], goal_cases)
  case (1 r S1)
  then have "answered (as_conversation S1)" by (simp add: sent_answered_def)
  then have "wp (final_output env tx) (\<lambda>_ S'. sent_answered S') S1" for tx
    by (rule_tac wp_mono [OF final_output_effect]) (use 1 answered_said in \<open>auto intro: sends_answered\<close>)
  then show ?case using 1 by (simp split: sum.split prod.split)
qed

lemma run_agent_answered:
  assumes "faithful_model env" "calls_settle env" "as_sent S = []"
  shows "wp (run_agent_for_item env args) (\<lambda>_ S'. \<forall>ms \<in> set (as_sent S'). answered ms) S"
proof (cases "prompt_messages env args")
  case (Inl e)
  then show ?thesis using assms(3) by (simp add: run_agent_for_item_def throw_error_def wp_throw)
next
  case (Inr conv)
  let ?S = "S\<lparr>as_conversation := conv\<rparr>"
  have conv: "answered conv" using Inr answered_prompts
    by (auto simp: prompt_messages_def result_simps)
  then have s: "sent_answered ?S" using assms(3) by (simp add: sent_answered_def)
  have "wp (resolve_structured env schema conv None) (\<lambda>_ S'. sent_answered S') ?S" for schema
    by (rule wp_mono [OF resolve_effect]) (use conv s sends_answered in blast)
  then have "wp (case (ae_outputSchema env, ae_tools env) of (Some schema, []) \<Rightarrow> resolve_structured env schema conv None
      | _ \<Rightarrow> then_do (run_turn_loop env 0) (\<lambda>(txt, turns). final_output env txt)) (\<lambda>_ S'. sent_answered S') ?S"
    using loop_and_output_answered [OF assms(1,2) s, of 0] by (simp split: option.split list.split)
  then show ?thesis unfolding run_agent_for_item_def Inr sum.case wp_then wp_update
    by (rule wp_mono) (simp add: sent_answered_def)
qed

section \<open>Bounds\<close>

lemma unspoken_coordinator [unspoken_intros]: "unspoken (coordinator_execute env ps conv tc n)"
proof (cases "(\<exists>p \<in> set ps. tb_humanApproval (pc_binding p) \<noteq> None) \<and> length ps > 1")
  case True
  then show ?thesis by (simp add: coordinator_execute_def unspoken_return)
next
  case False
  have "as_conversation S1 = as_conversation S \<and> as_sent S1 = as_sent S"
    if "settle_all env conv tc n ps outs S = (rs, S1)" for outs S rs and S1 :: "'a agent_state"
    using settled_all [of ps outs S env conv tc n] unfolding that by (simp add: settled_def)
  then have "unspoken (\<lambda>S. case settle_all env conv tc n ps outs S of
      (results, S1) \<Rightarrow> let rs = List.map_filter (jget results) [0..<length ps]
        in case first_rejected rs of Some e \<Rightarrow> (Inl e, S1)
           | None \<Rightarrow> (Inr (List.map_filter (\<lambda>r. case r of Inr x \<Rightarrow> Some x | Inl _ \<Rightarrow> None) rs), S1))" for outs
    by (auto simp: unspoken_def keeps_def Let_def split: prod.split option.split)
  then show ?thesis unfolding coordinator_execute_def if_not_P [OF False] by (intro unspoken_intros unspoken_update) simp
qed

lemma unspoken_coordinator_calls [unspoken_intros]: "unspoken (run_coordinator_calls env turn t cs)"
  unfolding run_coordinator_calls_def by (intro unspoken_intros unspoken_update) simp_all

lemma unspoken_keeps_sent: "unspoken m \<Longrightarrow> keeps (\<lambda>S. as_sent S = sent) m"
  unfolding keeps_def using unspokenD [of m] by (metis prod.collapse)

lemma tool_round_sends_nothing: "wp (run_tool_round env turn t) (\<lambda>_ S'. as_sent S' = as_sent S) S"
proof -
  have "keeps (\<lambda>S'. as_sent S' = as_sent S) (run_tool_round env turn t)"
    unfolding run_tool_round_def
    by (intro keeps_then keeps_update unspoken_keeps_sent unspoken_meta_calls unspoken_coordinator_calls unspoken_gets) simp
  then show ?thesis by (intro wpI) (rule keeps_result, assumption, rule refl)
qed

lemma turn_loop_bounded: "wp (turn_loop env left turn tx) (\<lambda>_ S'. length (as_sent S') \<le> length (as_sent S) + left) S"
proof (induction left arbitrary: turn tx S)
  case 0
  then show ?case by (simp add: wp_return)
next
  case (Suc left)
  show ?case unfolding turn_loop.simps wp_then [where m = "gets_do _"] wp_gets sum.case prod.case
      wp_then [where m = "invoke_text_turn _ _ _"] unfolding invoke_text_turn_def
  proof (rule wp_mono [OF tracked_call_effect], goal_cases)
    case (1 r S1)
    then have one: "length (as_sent S1) = Suc (length (as_sent S))" by simp
    have rest: "wp (after_do (run_tool_round env turn t) (turn_loop env left (Suc turn) tx'))
        (\<lambda>_ S'. length (as_sent S') \<le> length (as_sent S) + Suc left) S1" for t tx'
      unfolding wp_then
    proof (rule wp_mono [OF tool_round_sends_nothing], goal_cases)
      case (1 r2 S2)
      then show ?case using one by (auto split: sum.split intro!: wp_mono [OF Suc.IH [of "Suc turn" tx' S2]])
    qed
    show ?case
    proof (cases r)
      case (Inl e)
      then show ?thesis using one by simp
    next
      case (Inr t)
      then show ?thesis using one rest by (auto simp: wp_return throw_error_def wp_throw split: turn_limit.split)
    qed
  qed
qed

lemma loop_and_output_effect:
  "wp (then_do (run_turn_loop env n) (\<lambda>(tx, turns). final_output env tx))
     (\<lambda>r S'. length (as_sent S') \<le> length (as_sent S) + ae_maxTurns env + 3
       \<and> (\<forall>v schema. r = Inr v \<longrightarrow> ae_outputSchema env = Some schema \<longrightarrow> of_schema schema v)) S"
  unfolding wp_then run_turn_loop_def wp_update sum.case
proof (rule wp_mono [OF turn_loop_bounded], goal_cases)
  case (1 r S1)
  then show ?case
    by (auto split: sum.split prod.split intro!: wp_mono [OF final_output_effect] dest!: sends_length)
qed

lemma run_agent_effect:
  "wp (run_agent_for_item env args)
     (\<lambda>r S'. length (as_sent S') \<le> length (as_sent S) + ae_maxTurns env + 3
       \<and> (\<forall>v schema. r = Inr v \<longrightarrow> ae_outputSchema env = Some schema \<longrightarrow> of_schema schema v)) S"
proof (cases "prompt_messages env args")
  case (Inl e)
  then show ?thesis by (simp add: run_agent_for_item_def throw_error_def wp_throw)
next
  case (Inr conv)
  let ?S = "S\<lparr>as_conversation := conv\<rparr>"
  show ?thesis
  proof (cases "\<exists>schema. ae_outputSchema env = Some schema \<and> ae_tools env = []")
    case True
    then obtain schema where o: "ae_outputSchema env = Some schema" "ae_tools env = []" by blast
    show ?thesis unfolding run_agent_for_item_def Inr sum.case wp_then wp_update o option.case list.case prod.case
      by (rule wp_mono [OF resolve_effect]) (auto dest!: sends_length)
  next
    case False
    then have "run_agent_for_item env args = after_do (update_do (\<lambda>S. S\<lparr>as_conversation := conv\<rparr>))
        (then_do (run_turn_loop env 0) (\<lambda>(tx, turns). final_output env tx))"
      by (auto simp: run_agent_for_item_def Inr split: option.split list.split)
    then show ?thesis unfolding wp_then [where m = "update_do _"] wp_update sum.case
      using loop_and_output_effect [of env 0 ?S] by (simp add: wp_then [where m = "update_do _"] wp_update)
  qed
qed

section \<open>Suspensions\<close>

definition suspends_with :: "chat_message list \<Rightarrow> string set \<Rightarrow> agent_thrown \<Rightarrow> bool" where
  "suspends_with conv ids e = (\<forall>s. e = AgentSuspends s \<longrightarrow>
     ck_conversation (su_checkpoint s) = conv \<and> ck_pendingToolCallId (su_checkpoint s) \<in> ids)"

lemma suspends_with_mono: "suspends_with conv ids e \<Longrightarrow> ids \<subseteq> ids' \<Longrightarrow> suspends_with conv ids' e"
  by (auto simp: suspends_with_def)

lemma suspends_with_error [simp]: "suspends_with conv ids (AgentThrows e)"
  by (simp add: suspends_with_def)

definition plain_errors :: "('a, 'w) agent_action \<Rightarrow> bool" where
  "plain_errors m = (\<forall>S e S'. m S = (Inl e, S') \<longrightarrow> (\<exists>e'. e = AgentThrows e'))"

lemma plain_errors_wp: "plain_errors m \<Longrightarrow> wp m (\<lambda>r S'. \<forall>e. r = Inl e \<longrightarrow> (\<exists>e'. e = AgentThrows e')) S"
  by (intro wpI) (auto simp: plain_errors_def)

lemma plain_errors_then: "plain_errors m \<Longrightarrow> (\<And>x. plain_errors (f x)) \<Longrightarrow> plain_errors (then_do m f)"
  by (fastforce simp: plain_errors_def then_do_def split: prod.splits sum.splits)

lemma plain_errors_basic: "plain_errors (return_do x)" "plain_errors (throw_error e)" "plain_errors (gets_do f)"
  "plain_errors (update_do g)" "plain_errors new_invocation" "plain_errors (on_world h)"
  by (auto simp: plain_errors_def return_do_def throw_error_def throw_do_def gets_do_def update_do_def new_invocation_def
      on_world_def split: prod.splits)

lemma plain_errors_meta_call: "plain_errors (execute_meta_call env c)"
  unfolding execute_meta_call_def
  by (intro plain_errors_then) (simp_all add: plain_errors_basic plain_errors_then split: sum.split prod.split)

lemma plain_errors_meta_calls: "plain_errors (execute_meta_calls env cs)"
  by (induction cs) (simp_all add: plain_errors_basic plain_errors_then plain_errors_meta_call)

lemma plain_errors_plan: "plain_errors (plan_tool_calls env counts cs)"
proof (induction cs arbitrary: counts)
  case (Cons c cs)
  have "plain_errors (plan_tool_call env counts c)"
    by (simp add: plan_tool_call_def Let_def plain_errors_basic plain_errors_then split: option.split)
  then show ?case unfolding plan_tool_calls.simps
    by (intro plain_errors_then) (simp_all add: plain_errors_basic plain_errors_then Cons.IH split: prod.split)
qed (simp add: plain_errors_basic)

lemma settle_call_suspends:
  "settle_call env conv tc n p out S = (Inl e, S') \<Longrightarrow> suspends_with conv {tk_id (pc_call p)} e"
  by (auto simp: settle_call_def Let_def repair_decision_def suspends_with_def suspension_of_def split: tool_outcome.splits if_splits)

lemma settle_all_suspends:
  assumes "jget (fst (settle_all env conv tc n ps outs S)) k = Some (Inl e)"
  shows "suspends_with conv ((tk_id \<circ> pc_call) ` set ps) e"
proof -
  define I where "I x = (\<forall>k e. jget (fst x) k = Some (Inl e) \<longrightarrow> suspends_with conv ((tk_id \<circ> pc_call) ` set ps) e)"
    for x :: "(nat, agent_thrown + executed_call) jmap \<times> 'a agent_state"
  have step: "I (settle_step env conv tc n ps ko x)" if "I x" for ko x
  proof (cases "fst ko < length ps")
    case True
    obtain r S' where r: "settle_call env conv tc n (ps ! fst ko) (snd ko) (snd x) = (r, S')" by fastforce
    have "suspends_with conv ((tk_id \<circ> pc_call) ` set ps) e" if "r = Inl e" for e
      using suspends_with_mono [OF settle_call_suspends] r that True by fastforce
    then show ?thesis using that True r by (simp add: I_def settle_step_def split_beta)
  next
    case False
    then show ?thesis using that by (simp add: settle_step_def split_beta)
  qed
  have "I (fold (settle_step env conv tc n ps) outs x)" if "I x" for x
    using that by (induction outs arbitrary: x) (simp_all add: step)
  from this [of "([], S)"] show ?thesis using assms by (simp add: I_def settle_all_fold)
qed

lemma first_rejected_mem: "first_rejected rs = Some e \<Longrightarrow> Inl e \<in> set rs"
  by (induction rs rule: first_rejected.induct) auto

lemma coordinator_suspends:
  "wp (coordinator_execute env ps conv tc n) (\<lambda>r S'. \<forall>e. r = Inl e \<longrightarrow> suspends_with conv ((tk_id \<circ> pc_call) ` set ps) e) S"
proof (cases "(\<exists>p \<in> set ps. tb_humanApproval (pc_binding p) \<noteq> None) \<and> length ps > 1")
  case True
  then show ?thesis by (simp add: coordinator_execute_def wp_return)
next
  case False
  have "wp (\<lambda>S. case settle_all env conv tc n ps outs S of
      (results, S1) \<Rightarrow> let rs = List.map_filter (jget results) [0..<length ps]
        in case first_rejected rs of Some e \<Rightarrow> (Inl e, S1)
           | None \<Rightarrow> (Inr (List.map_filter (\<lambda>r. case r of Inr x \<Rightarrow> Some x | Inl _ \<Rightarrow> None) rs), S1))
      (\<lambda>r S'. \<forall>e. r = Inl e \<longrightarrow> suspends_with conv ((tk_id \<circ> pc_call) ` set ps) e) S1" for outs and S1 :: "'a agent_state"
  proof -
    obtain results S2 where all: "settle_all env conv tc n ps outs S1 = (results, S2)" by fastforce
    have "suspends_with conv ((tk_id \<circ> pc_call) ` set ps) e"
      if rej: "first_rejected (List.map_filter (jget results) [0..<length ps]) = Some e" for e
    proof -
      obtain k where "jget results k = Some (Inl e)"
        using first_rejected_mem [OF rej] by (auto simp: List.map_filter_def)
      then show ?thesis using settle_all_suspends [of env conv tc n ps outs S1 k e] all by simp
    qed
    then show ?thesis by (simp add: wp_def all Let_def split: option.split)
  qed
  then show ?thesis unfolding coordinator_execute_def if_not_P [OF False] wp_then wp_update sum.case
    by (simp add: on_world_def wp_def split: prod.split)
qed

lemma coordinator_calls_suspend:
  "wp (run_coordinator_calls env turn t cs)
     (\<lambda>r S'. \<forall>e. r = Inl e \<longrightarrow> suspends_with (as_conversation S @ [assistant_message t]) (tk_id ` set cs) e) S"
proof (cases "cs = []")
  case True
  then show ?thesis by (simp add: run_coordinator_calls_def wp_return)
next
  case False
  note plan = wp_conj [OF unspoken_wp [OF unspoken_plan_tool_calls] wp_conj [OF plan_calls plain_errors_wp [OF plain_errors_plan]]]
  show ?thesis unfolding run_coordinator_calls_def if_not_P [OF False] wp_then [where m = "plan_tool_calls env [] cs"]
  proof (rule wp_mono [OF plan], goal_cases)
    case (1 r S1)
    show ?case
    proof (cases r)
      case (Inl e)
      then show ?thesis using 1 by auto
    next
      case (Inr ps)
      then have ids: "(tk_id \<circ> pc_call) ` set ps = tk_id ` set cs" using 1 by (auto simp: image_comp [symmetric])
      show ?thesis using 1 unfolding Inr
        by (auto simp: wp_then wp_update wp_gets ids image_image intro!: wp_mono [OF coordinator_suspends])
    qed
  qed
qed

lemma tool_round_suspends:
  "wp (run_tool_round env turn t)
     (\<lambda>r S'. \<forall>e. r = Inl e \<longrightarrow> suspends_with (as_conversation S @ [assistant_message t]) (tk_id ` set (tu_toolCalls t)) e) S"
proof -
  note metas = wp_conj [OF unspoken_wp [OF unspoken_meta_calls] plain_errors_wp [OF plain_errors_meta_calls]]
  show ?thesis unfolding run_tool_round_def wp_then [where m = "gets_do (\<lambda>S. owns_tool_name (as_strategy S))"] wp_gets sum.case
      wp_then [where m = "execute_meta_calls _ _"]
  proof (rule wp_mono [OF metas], goal_cases)
    case (1 r S1)
    show ?case
    proof (cases r)
      case (Inl e)
      then show ?thesis using 1 by auto
    next
      case (Inr xs)
      show ?thesis using 1 unfolding Inr sum.case wp_then
        by (auto simp: wp_update split: sum.split intro!: wp_mono [OF coordinator_calls_suspend] elim!: suspends_with_mono)
    qed
  qed
qed

section \<open>Properties\<close>

text \<open>
  Evaluating the model needs no values of the logarithm that the index ranks with; the tie to its definition is not executable.
\<close>

declare raw_ln_real_def [code del]

text \<open>An agent with two tools whose model first asks for the calls of a turn and then answers.\<close>

definition sample_call :: "string \<Rightarrow> agent_tool_call" where
  "sample_call n = \<lparr>tk_id = ''id_'' @ n, tk_name = n, tk_input = JUndefined\<rparr>"

definition sample_turn :: "string list \<Rightarrow> turn_result" where
  "sample_turn names = \<lparr>tu_assistantMessage = None, tu_text = [], tu_toolCalls = map sample_call names\<rparr>"

definition sample_approval :: suspension_request where
  "sample_approval = \<lparr>sq_decisionSchema = JNull, sq_timeout = ''1h'', sq_onTimeout = HaltOnTimeout, sq_subject = JNull,
     sq_metadata = None, sq_deliver = (\<lambda>_. return_do JNull)\<rparr>"

definition sample_outcome :: "agent_tool_call \<Rightarrow> tool_outcome" where
  "sample_outcome c = (if tk_name c = ''approve'' then ToolSuspends sample_approval else ToolReturns (JStr (tk_name c)))"

definition sample_agent :: "string list \<Rightarrow> nat agent_env" where
  "sample_agent names =
    \<lparr>ae_nodeId = ''agent'', ae_agentName = ''Agent'', ae_modelId = ''model'', ae_maxTurns = 10, ae_onTurnLimit = LimitError,
     ae_tools = map (\<lambda>n. \<lparr>tb_name = n, tb_humanApproval = (if n = ''approve'' then Some HaltIfRejected else None)\<rparr>) names,
     ae_untrustedSources = None,
     ae_messages = MessageLines [(SystemRole, \<lambda>_. ''Help''), (UserRole, \<lambda>_. ''Hi'')],
     ae_model = (\<lambda>_ _ w. (Inr (if w = 0 \<and> names \<noteq> [] then sample_turn names
        else \<lparr>tu_assistantMessage = None, tu_text = ''good'', tu_toolCalls = []\<rparr>), Suc w)),
     ae_structured = (\<lambda>_ w. (Inr (JStr ''poor''), Suc w)),
     ae_runTools = (\<lambda>calls w. (enumerate 0 (map sample_outcome calls), w)),
     ae_mcpTool = (\<lambda>_ _ w. (Inr JNull, w)), ae_findInput = (\<lambda>_. Inr ([], None)), ae_toolSchema = (\<lambda>_. JUndefined),
     ae_mcpSchema = (\<lambda>_ _. JNull), ae_outputSchema = Some (\<lambda>v. if v = JStr ''good'' then Inr v else Inl ''poor''),
     ae_schemaText = [], ae_parseJson = (\<lambda>s. Inr (JStr s)), ae_stringify = (\<lambda>_. [])\<rparr>"

definition sample_strategy :: tool_strategy where
  "sample_strategy = \<lparr>ts_nodeBackedTools = [], ts_pinnedTools = [], ts_mcpEntries = [], ts_toolsByServerId = [],
     ts_foundToolIds = [], ts_index = empty_index\<rparr>"

definition sample_state :: "nat agent_state" where
  "sample_state = \<lparr>as_conversation = [], as_toolCallCount = 0, as_attempts = [], as_found = [], as_strategy = sample_strategy,
     as_records = [], as_nextInvocation = 0, as_sent = [], as_world = 0\<rparr>"

definition sample_args :: message_args where
  "sample_args = (\<lparr>it_json = JNull, it_binary = None, it_meta = None, it_paired = None\<rparr>, 0, [])"

lemma sample_agent_faithful: "faithful_model (sample_agent names)"
  by (auto simp: faithful_model_def sample_agent_def sample_turn_def)

lemma sample_agent_settles: "calls_settle (sample_agent names)"
  by (simp add: calls_settle_def sample_agent_def enumerate_eq_zip lessThan_atLeast0)




text \<open>What an agent with an output schema returns has passed the schema.\<close>

theorem agent_output_of_schema:
  assumes "execute_agent env input args S = (Inr v, S')" "ae_outputSchema env = Some schema"
  shows "\<exists>u. schema u = Inr v"
proof -
  obtain it i its where args: "args = (it, i, its)" by (cases args)
  show ?thesis using wp_result [OF run_agent_effect assms(1) [unfolded execute_agent_def args prod.case]] assms(2)
    by (simp add: of_schema_def)
qed

text \<open>The model's own structured output does not fit, its answer to the prompt that follows does.\<close>

lemma agent_output_of_schema_witness:
  "\<exists>u. (if u = JStr ''good'' then Inr u else Inl ''poor'') = (Inr (JStr ''good'') :: string + jsval)"
proof -
  let ?r = "execute_agent (sample_agent []) JNull sample_args sample_state"
  have "case fst ?r of Inr v \<Rightarrow> v = JStr ''good'' | Inl _ \<Rightarrow> False" by code_simp
  then have "?r = (Inr (JStr ''good''), snd ?r)" by (cases ?r) (auto split: sum.splits)
  then show ?thesis by (rule agent_output_of_schema) (simp add: sample_agent_def)
qed

text \<open>
  C22. When a turn is suspended by a human task, the conversation that goes on after the decision is answered exactly when the
  suspended call was the turn's only one: the results of the other calls are lost.
\<close>

theorem suspended_turn_loses_results:
  assumes "run_tool_round env turn t S = (Inl (AgentSuspends s), S')" "answered (as_conversation S)"
    and "assistant_message t = AssistantMessage tx cs" "map tk_id cs = map tk_id (tu_toolCalls t)"
  shows "answered (resumed_conversation (su_checkpoint s) d) = (length (tu_toolCalls t) = 1)"
proof -
  have "suspends_with (as_conversation S @ [assistant_message t]) (tk_id ` set (tu_toolCalls t)) (AgentSuspends s)"
    using wp_result [OF tool_round_suspends assms(1)] by simp
  then have ck: "ck_conversation (su_checkpoint s) = as_conversation S @ [AssistantMessage tx cs]"
    "ck_pendingToolCallId (su_checkpoint s) \<in> set (map tk_id cs)"
    by (simp_all add: suspends_with_def assms(3,4))
  have one: "mset [x] = mset ys \<longleftrightarrow> length ys = 1" if "x \<in> set ys" for x and ys :: "string list"
    using that by (cases ys; cases "tl ys") auto
  have "length cs = length (tu_toolCalls t)" by (metis assms(4) length_map)
  then show ?thesis using ck one [OF ck(2)] assms(2)
    by (cases cs) (auto simp: resumed_conversation_def tool_results_message_def answered_append)
qed

lemma suspended_turn_loses_results_witness:
  "\<exists>s S'. run_tool_round (sample_agent [''approve'']) 1 (sample_turn [''find_tools'', ''approve'']) sample_state = (Inl (AgentSuspends s), S')
     \<and> \<not> answered (resumed_conversation (su_checkpoint s) (TimedOut ''t''))"
proof -
  let ?r = "run_tool_round (sample_agent [''approve'']) 1 (sample_turn [''find_tools'', ''approve'']) sample_state"
  have "case fst ?r of Inl (AgentSuspends _) \<Rightarrow> True | _ \<Rightarrow> False" by code_simp
  then obtain s S' where r: "?r = (Inl (AgentSuspends s), S')" by (cases ?r) (auto split: sum.splits agent_thrown.splits)
  have "answered (resumed_conversation (su_checkpoint s) (TimedOut ''t'')) = (length (tu_toolCalls (sample_turn [''find_tools'', ''approve''])) = 1)"
    by (rule suspended_turn_loses_results [OF r, where tx = "[]"
          and cs = "map (\<lambda>c. c\<lparr>tk_input := JObj []\<rparr>) (tu_toolCalls (sample_turn [''find_tools'', ''approve'']))"])
      (simp_all add: sample_state_def sample_turn_def sample_call_def assistant_message_def assistant_with_tool_calls_def input_or_empty_def)
  then show ?thesis using r by (auto simp: sample_turn_def)
qed

text \<open>
  A decision of \<open>null\<close>, which ends the run when rejections halt it, is told to the model as an approval when they do not.
\<close>

lemma null_decision_told_as_approved:
  "execute_resumed env input args (Some ck) HaltIfRejected (Decided JNull actor t) = return_do JUndefined
   \<and> normalize_decision (Decided JNull actor t)
     = JObj [(''status'', JStr ''approved''), (''value'', JNull), (''actor'', js_of_actor actor), (''decidedAt'', JStr t)]"
  by (simp add: execute_resumed_def normalize_decision_def decision_status_def)

end
