(* ===== verification/CoreNodes.thy ===== *)
theory CoreNodes
  imports NodeExecution
begin

text \<open>
  The nodes of \<open>core-nodes/src/nodes\<close> that shape the flow of items: routers (\<open>IfNode.ts\<close>, \<open>SwitchNode.ts\<close>,
  \<open>IsTestRunNode.ts\<close>), \<open>MergeNode.ts\<close> with \<open>mergeExecutionUtils.types.ts\<close>, \<open>FilterNode.ts\<close>, \<open>SplitNode.ts\<close>,
  \<open>AggregateNode.ts\<close>, \<open>MapDataNode.ts\<close>, \<open>CallbackNode.ts\<close>, \<open>AssertionNode.ts\<close>, \<open>WaitNode.ts\<close>, \<open>NoOpNode.ts\<close>, and the
  triggers (\<open>ManualTriggerNode.ts\<close>, \<open>TestTriggerNode.ts\<close>, \<open>webhookTriggerNode.ts\<close>, \<open>CronTriggerNode.ts\<close>).  A node is what
  \<open>NodeExecution\<close> runs: an action on the engine.  The functions of a configuration are parameters; those that the code
  awaits are actions too.
\<close>

section \<open>Origins of items\<close>

text \<open>The properties of a value that is an object for \<open>typeof\<close>: those of an array are its indices.\<close>

fun object_fields :: "jsval \<Rightarrow> (string, jsval) jmap" where
  "object_fields (JObj fs) = fs"
| "object_fields (JArr vs) = map (\<lambda>(i, v). (string_of_nat i, v)) (enumerate 0 vs)"
| "object_fields _ = []"

definition cm_fields :: "item \<Rightarrow> (string, jsval) jmap" where
  "cm_fields it = object_fields (opt_or (jget (opt_or (it_meta it) []) ''_cm'') JUndefined)"

fun js_number :: "jsval \<Rightarrow> rat option" where
  "js_number (JNum n) = Some n"
| "js_number _ = None"

text \<open>An index in \<open>paired\<close> is a natural number here, as every index that a router gives is.\<close>

definition tag_item :: "node_id \<Rightarrow> nat \<Rightarrow> item \<Rightarrow> item" where
  "tag_item n i it =
    (let origin = opt_or (Option.bind (jget (cm_fields it) ''originIndex'') js_number) (of_nat i)
     in it\<lparr>it_meta := Some (jset ''_cm'' (JObj (jset ''originIndex'' (JNum origin) (cm_fields it))) (opt_or (it_meta it) [])),
           it_paired := Some (\<lparr>pi_nodeId = n, pi_output = ''$in'', pi_itemIndex = nat \<lfloor>origin\<rfloor>\<rparr> # opt_or (it_paired it) [])\<rparr>)"

definition ordered_inputs :: "inputs_by_port \<Rightarrow> port_key list option \<Rightarrow> port_key list" where
  "ordered_inputs m prefer =
    (let preferred = filter (\<lambda>k. k \<in> set (jkeys m)) (opt_or prefer [])
     in preferred @ stable_sort string_less (filter (\<lambda>k. k \<notin> set preferred) (jkeys m)))"

section \<open>Routers\<close>

type_synonym item_test = "item \<Rightarrow> nat \<Rightarrow> items \<Rightarrow> node_context \<Rightarrow> js_error + bool"

definition ports_of :: "(port_key \<times> items) list \<Rightarrow> raw_output" where
  "ports_of ports = RawPorts (map (\<lambda>(p, its). (p, Some (map js_of_item its))) ports)"

definition if_node :: "item_test \<Rightarrow> execute_args \<Rightarrow> raw_output node_action" where
  "if_node predicate a =
    (let tagged = tag_item (nx_nodeId (xa_ctx a)) (xa_itemIndex a) (xa_item a)
     in then_do (as_node (lift_result (predicate (xa_item a) (xa_itemIndex a) (xa_items a) (xa_ctx a)))) (\<lambda>holds.
          return_do (ports_of [(''true'', if holds then [tagged] else []), (''false'', if holds then [] else [tagged])])))"

record switch_config =
  sw_cases :: "string list"
  sw_defaultCase :: string
  sw_resolveCaseKey :: "item \<Rightarrow> nat \<Rightarrow> items \<Rightarrow> node_context \<Rightarrow> string node_action"

definition switch_port :: "switch_config \<Rightarrow> string \<Rightarrow> port_key" where
  "switch_port c key = (if key \<in> set (sw_cases c) then key else sw_defaultCase c)"

definition switch_node :: "switch_config \<Rightarrow> execute_args \<Rightarrow> raw_output node_action" where
  "switch_node c a =
    (let tagged = tag_item (nx_nodeId (xa_ctx a)) (xa_itemIndex a) (xa_item a)
     in then_do (sw_resolveCaseKey c (xa_item a) (xa_itemIndex a) (xa_items a) (xa_ctx a)) (\<lambda>key.
          return_do (ports_of [(switch_port c key, [tagged])])))"

definition switch_ports :: "switch_config \<Rightarrow> port_key list" where
  "switch_ports c = stable_sort string_less (dedupe (sw_cases c @ [sw_defaultCase c]))"

definition is_test_run_node :: "execute_args \<Rightarrow> raw_output node_action" where
  "is_test_run_node a =
    (let test = bc_testContext (nx_base (xa_ctx a)) \<noteq> None
     in return_do (ports_of [(''true'', if test then [xa_item a] else []), (''false'', if test then [] else [xa_item a])]))"

section \<open>Merging\<close>

datatype merge_mode = PassThrough | Append | MergeByPosition

definition append_inputs :: "inputs_by_port \<Rightarrow> port_key list \<Rightarrow> items" where
  "append_inputs m order = concat (map (jget_list m) order)"

text \<open>The items at one position, an input that has none counting as \<open>undefined\<close>; binaries are not carried over.\<close>

definition nth_item :: "items \<Rightarrow> nat \<Rightarrow> item option" where
  "nth_item its i = (if i < length its then Some (its ! i) else None)"

definition merge_at :: "inputs_by_port \<Rightarrow> port_key list \<Rightarrow> nat \<Rightarrow> item" where
  "merge_at m order i =
    (let found = (\<lambda>k. nth_item (jget_list m k) i);
         json = fold (\<lambda>k js. jset k (case found k of None \<Rightarrow> JUndefined | Some it \<Rightarrow> it_json it) js) order [];
         paired = concat (map (\<lambda>k. opt_or (Option.bind (found k) it_paired) []) order);
         metas = List.map_filter (\<lambda>k. Option.bind (found k) it_meta) order
     in \<lparr>it_json = JObj json, it_binary = None, it_meta = (case metas of [] \<Rightarrow> None | meta # _ \<Rightarrow> Some meta),
         it_paired = (if paired = [] then None else Some paired)\<rparr>)"

definition merge_by_position :: "inputs_by_port \<Rightarrow> port_key list \<Rightarrow> items" where
  "merge_by_position m order =
    map (merge_at m order) [0..<fold (\<lambda>k n. max n (length (jget_list m k))) order 0]"

text \<open>Per origin the first item is chosen; items without an origin come last.\<close>

definition choose_origin :: "item \<Rightarrow> (rat, item) jmap \<times> items \<Rightarrow> (rat, item) jmap \<times> items" where
  "choose_origin it = (\<lambda>(chosen, fallback).
    case origin_index it of
      None \<Rightarrow> (chosen, fallback @ [it])
    | Some i \<Rightarrow> (if jhas chosen i then chosen else jset i it chosen, fallback))"

definition pass_through :: "inputs_by_port \<Rightarrow> port_key list \<Rightarrow> items" where
  "pass_through m order =
    (case fold (\<lambda>k acc. fold choose_origin (jget_list m k) acc) order ([], []) of
       (chosen, fallback) \<Rightarrow> List.map_filter (jget chosen) (sort (jkeys chosen)) @ fallback)"

definition merge_items :: "merge_mode \<Rightarrow> port_key list option \<Rightarrow> inputs_by_port \<Rightarrow> items" where
  "merge_items mode prefer m =
    (let order = ordered_inputs m prefer
     in case mode of
          Append \<Rightarrow> append_inputs m order
        | MergeByPosition \<Rightarrow> merge_by_position m order
        | PassThrough \<Rightarrow> pass_through m order)"

definition merge_node :: "merge_mode \<Rightarrow> port_key list option \<Rightarrow> inputs_by_port \<Rightarrow> node_context \<Rightarrow> raw_outputs node_action" where
  "merge_node mode prefer m ctx = return_do (OutputsReturned [(''main'', merge_items mode prefer m)])"

section \<open>Nodes on items and on batches\<close>

definition filter_node :: "item_test \<Rightarrow> execute_args \<Rightarrow> raw_output node_action" where
  "filter_node predicate a =
    then_do (as_node (lift_result (predicate (xa_item a) (xa_itemIndex a) (xa_items a) (xa_ctx a)))) (\<lambda>holds.
      return_do (RawValue (if holds then js_of_item (xa_item a) else JArr [])))"

definition split_node :: "(item \<Rightarrow> node_context \<Rightarrow> js_error + jsval list) \<Rightarrow> execute_args \<Rightarrow> raw_output node_action" where
  "split_node getElements a =
    then_do (as_node (lift_result (getElements (xa_item a) (xa_ctx a)))) (\<lambda>elements. return_do (RawValue (JArr elements)))"

definition map_data_node :: "(item \<Rightarrow> node_context \<Rightarrow> js_error + jsval) \<Rightarrow> execute_args \<Rightarrow> raw_output node_action" where
  "map_data_node f a =
    then_do (as_node (lift_result (f (xa_item a) (xa_ctx a)))) (\<lambda>v. return_do (RawValue v))"

definition noop_node :: "execute_args \<Rightarrow> raw_output node_action" where
  "noop_node a = return_do (RawValue (js_of_item (xa_item a)))"

text \<open>\<open>Number.isFinite\<close> fails for what is not a number here.\<close>

definition wait_duration :: "rat option \<Rightarrow> nat" where
  "wait_duration ms = (case ms of None \<Rightarrow> 0 | Some n \<Rightarrow> if n > 0 then nat \<lfloor>n\<rfloor> else 0)"

definition wait_node :: "(nat \<Rightarrow> unit node_action) \<Rightarrow> rat option \<Rightarrow> execute_args \<Rightarrow> raw_output node_action" where
  "wait_node sleep ms a =
    after_do (if xa_itemIndex a = 0 \<and> wait_duration ms > 0 then sleep (wait_duration ms) else return_do ())
      (return_do (RawValue (js_of_item (xa_item a))))"

text \<open>Nodes on a whole batch give nothing for its items but the last.\<close>

definition last_item :: "execute_args \<Rightarrow> bool" where
  "last_item a = (Suc (xa_itemIndex a) = length (xa_items a))"

definition aggregate_node :: "(items \<Rightarrow> node_context \<Rightarrow> jsval node_action) \<Rightarrow> execute_args \<Rightarrow> raw_output node_action" where
  "aggregate_node aggregate a =
    (if \<not> last_item a then return_do (RawValue (JArr []))
     else then_do (aggregate (xa_items a) (xa_ctx a)) (\<lambda>v. return_do (RawValue v)))"

datatype callback_result = CallbackVoid | CallbackItems "jsval list" | CallbackPorts "(port_key, jsval list option) jmap"

definition to_ports_emission :: "callback_result \<Rightarrow> items \<Rightarrow> raw_output" where
  "to_ports_emission r its =
    (case r of
       CallbackPorts ports \<Rightarrow> RawPorts ports
     | CallbackItems vs \<Rightarrow> RawPorts [(''main'', Some vs)]
     | CallbackVoid \<Rightarrow> RawPorts [(''main'', Some (map js_of_item its))])"

definition callback_node :: "(items \<Rightarrow> node_context \<Rightarrow> callback_result node_action) \<Rightarrow> execute_args \<Rightarrow> raw_output node_action" where
  "callback_node callback a =
    (if xa_items a \<noteq> [] \<and> \<not> last_item a then return_do (RawValue (JArr []))
     else then_do (callback (xa_items a) (xa_ctx a)) (\<lambda>r. return_do (to_ports_emission r (xa_items a))))"

text \<open>An assertion that throws is a failed assertion.\<close>

definition errored_result :: "string option \<Rightarrow> js_error \<Rightarrow> jsval" where
  "errored_result name err = JObj [(''name'', JStr (opt_or name ''assertion'')), (''score'', JNum 0), (''errored'', JBool True),
     (''message'', JStr (err_message err))]"

definition assertion_node ::
  "string option \<Rightarrow> (item \<Rightarrow> node_context \<Rightarrow> jsval list node_action) \<Rightarrow> execute_args \<Rightarrow> raw_output node_action" where
  "assertion_node name assertions a =
    catch_do (then_do (assertions (xa_item a) (xa_ctx a)) (\<lambda>vs. return_do (RawValue (JArr vs))))
      (\<lambda>err. return_do (RawValue (JArr [errored_result name (te_error (error_of_throw err))])))"

section \<open>Triggers\<close>

definition resolve_manual_items :: "items \<Rightarrow> items option \<Rightarrow> items" where
  "resolve_manual_items its defaults = (if its \<noteq> [] then its else opt_or defaults [])"

definition manual_trigger :: "items option \<Rightarrow> items \<Rightarrow> node_context \<Rightarrow> raw_outputs node_action" where
  "manual_trigger defaults its ctx = return_do (OutputsReturned [(''main'', resolve_manual_items its defaults)])"

definition test_trigger :: "items \<Rightarrow> node_context \<Rightarrow> raw_outputs node_action" where
  "test_trigger its ctx = return_do (OutputsReturned [(''main'', its)])"

definition webhook_trigger_error :: "string \<Rightarrow> js_error" where
  "webhook_trigger_error name =
    plain_error (''Webhook trigger '' @ quoted name @ '' requires a webhook request. Invoke this workflow through its webhook ''
      @ ''endpoint until manual request simulation is supported.'')"

definition webhook_trigger ::
  "string \<Rightarrow> (items \<Rightarrow> node_context \<Rightarrow> items option node_action) \<Rightarrow> items \<Rightarrow> node_context \<Rightarrow> raw_outputs node_action" where
  "webhook_trigger name handler its ctx =
    (if its = [] then throw_do (thrown (webhook_trigger_error name))
     else then_do (handler its ctx) (\<lambda>r. return_do (OutputsReturned [(''main'', opt_or r its)])))"

text \<open>What a schedule emits: when it fired, and for when it was planned, if the schedule knows.\<close>

definition cron_item :: "iso_time \<Rightarrow> iso_time \<Rightarrow> item" where
  "cron_item firedAt scheduledFor = json_item (JObj [(''firedAt'', JStr firedAt), (''scheduledFor'', JStr scheduledFor)])"

definition cron_fire :: "clock \<Rightarrow> iso_time option \<Rightarrow> (items, engine) engine_action" where
  "cron_fire clk currentRun =
    then_do (case currentRun of Some t \<Rightarrow> return_do t | None \<Rightarrow> now_do clk) (\<lambda>scheduledFor.
    then_do (now_do clk) (\<lambda>firedAt. return_do [cron_item firedAt scheduledFor]))"

definition cron_test_items :: "clock \<Rightarrow> (items, engine) engine_action" where
  "cron_test_items clk = then_do (now_do clk) (\<lambda>now. return_do [cron_item now now])"

end
