(* ===== verification/CoreNodesFacts.thy ===== *)
theory CoreNodesFacts
  imports CoreNodes ExecutionFacts
begin

text \<open>
  What the flow nodes do to a batch: routers divide it, a filter thins it, and a merge of the routed parts puts it together
  again, as long as no item comes from elsewhere.
\<close>

section \<open>Batches\<close>

text \<open>What a port gets from a batch, when what it gets from each item does not depend on the engine.\<close>

lemma runnable_port:
  assumes "execute_runnable env r its e = (Inr out, e')" "its \<noteq> []"
    and item: "\<And>k e1 outs e2. k < length its \<Longrightarrow> execute_item env r its k (its ! k) e1 = (Inr outs, e2) \<Longrightarrow> port_items p outs = f (k, its ! k)"
  shows "jget_list out p = concat (map f (enumerate 0 its))"
proof -
  obtain outs es where run: "length outs = length its"
    "\<forall>k < length its. execute_item env r its k (its ! k) (es ! k) = (Inr (outs ! k), es ! Suc k)"
    "jget_list out p = concat (map (port_items p) outs)"
    using execute_items_run [of env r its 0 its "[]" e out e'] assms(1,2) by (auto simp: execute_runnable_def)
  have "map (port_items p) outs = map f (enumerate 0 its)"
    using run(1,2) item by (intro nth_equalityI) (auto simp: nth_enumerate_eq)
  then show ?thesis using run(3) by simp
qed

lemma item_context_node: "item_context env ctx it i its = Inr ctx' \<Longrightarrow> nx_nodeId ctx' = nx_nodeId ctx"
  by (auto simp: item_context_def result_simps)

text \<open>The result of an item is the normalised result of the node's code, run on the item.\<close>

definition args_for :: "activation_request \<Rightarrow> items \<Rightarrow> nat \<Rightarrow> item \<Rightarrow> execute_args \<Rightarrow> bool" where
  "args_for r its i it a = (xa_item a = it \<and> xa_itemIndex a = i \<and> xa_items a = its \<and> nx_nodeId (xa_ctx a) = nx_nodeId (ar_ctx r))"

lemma as_node_lift_iff: "as_node (lift_result r) s = (Inr x, s1) \<longleftrightarrow> r = Inr x \<and> s1 = s"
  by (auto simp: as_node_def lift_result_def split: sum.splits prod.splits)

lemma lift_Inr_iff: "lift_result r s = (Inr x, s1) \<longleftrightarrow> r = Inr x \<and> s1 = s"
  by (auto simp: lift_result_def)

lemma execute_item_code:
  assumes "execute_item env r its i it e = (Inr outs, e')"
    and code: "\<And>a e. xe_execute env (nc_type (nx_config (ar_ctx r))) a e = (case g a of Inl err \<Rightarrow> Inl (thrown err) | Inr raw \<Rightarrow> Inr raw, e)"
  shows "\<exists>a raw. args_for r its i it a \<and> g a = Inr raw \<and> normalize_execute_result (keeps_binaries (nx_config (ar_ctx r))) it raw = Inr outs"
proof -
  obtain parsed ctx uuid e1 raw e2 where ctx: "item_context env (ar_ctx r) it i its = Inr ctx"
    and run: "catch_do (xe_execute env (nc_type (nx_config (ar_ctx r)))
          \<lparr>xa_input = parsed, xa_item = it, xa_itemIndex = i, xa_items = its, xa_ctx = ctx, xa_iterationId = Some (iteration_id uuid)\<rparr>)
          (\<lambda>err. case err of ThrownSuspension sq \<Rightarrow> suspend_item env r i sq | ThrownError _ \<Rightarrow> throw_do err) e1 = (Inr raw, e2)"
    and norm: "normalize_execute_result (keeps_binaries (nx_config (ar_ctx r))) it raw = Inr outs"
    using assms(1) unfolding execute_item_def Let_def then_do_Inr_iff as_node_lift_iff lift_Inr_iff by blast
  let ?a = "\<lparr>xa_input = parsed, xa_item = it, xa_itemIndex = i, xa_items = its, xa_ctx = ctx, xa_iterationId = Some (iteration_id uuid)\<rparr>"
  have args: "args_for r its i it ?a" using item_context_node [OF ctx] by (simp add: args_for_def)
  have "g ?a = Inr raw" using run unfolding catch_do_def code by (cases "g ?a") (auto simp: throw_do_def thrown_def)
  then show ?thesis using args norm by blast
qed

section \<open>Merging\<close>

abbreviation known_origins :: "items \<Rightarrow> rat list" where
  "known_origins its \<equiv> List.map_filter origin_index its"

lemma known_origins_Cons: "set (known_origins (it # its)) = set_option (origin_index it) \<union> set (known_origins its)"
  by (cases "origin_index it") (simp_all add: List.map_filter_def)

lemma choose_origin_sel:
  "snd (choose_origin it acc) = snd acc @ (if origin_index it = None then [it] else [])"
  "jget (fst (choose_origin it acc)) i
    = (case jget (fst acc) i of Some x \<Rightarrow> Some x | None \<Rightarrow> if origin_index it = Some i then Some it else None)"
  "set (jkeys (fst (choose_origin it acc))) = set (jkeys (fst acc)) \<union> set_option (origin_index it)"
  "distinct (jkeys (fst acc)) \<Longrightarrow> distinct (jkeys (fst (choose_origin it acc)))"
proof -
  obtain c f where acc: "acc = (c, f)" by fastforce
  show "snd (choose_origin it acc) = snd acc @ (if origin_index it = None then [it] else [])"
    by (cases "origin_index it") (simp_all add: acc choose_origin_def)
  show "jget (fst (choose_origin it acc)) i
    = (case jget (fst acc) i of Some x \<Rightarrow> Some x | None \<Rightarrow> if origin_index it = Some i then Some it else None)"
    by (cases "origin_index it") (auto simp: acc choose_origin_def jhas_def split: option.split)
  show "set (jkeys (fst (choose_origin it acc))) = set (jkeys (fst acc)) \<union> set_option (origin_index it)"
    by (cases "origin_index it") (auto simp: acc choose_origin_def jhas_iff_key)
  show "distinct (jkeys (fst acc)) \<Longrightarrow> distinct (jkeys (fst (choose_origin it acc)))"
    by (cases "origin_index it") (simp_all add: acc choose_origin_def)
qed

lemma choose_origin_fallback: "snd (fold choose_origin its acc) = snd acc @ filter (\<lambda>it. origin_index it = None) its"
  by (induction its arbitrary: acc) (simp_all add: choose_origin_sel(1))

lemma choose_origin_chosen:
  "jget (fst (fold choose_origin its acc)) i
    = (case jget (fst acc) i of Some it \<Rightarrow> Some it | None \<Rightarrow> find (\<lambda>it. origin_index it = Some i) its)"
  by (induction its arbitrary: acc) (simp_all add: choose_origin_sel(2) split: option.split)

lemma choose_origin_keys: "set (jkeys (fst (fold choose_origin its acc))) = set (jkeys (fst acc)) \<union> set (known_origins its)"
proof (induction its arbitrary: acc)
  case (Cons it its)
  show ?case unfolding fold_Cons comp_apply Cons.IH choose_origin_sel(3) known_origins_Cons by (rule Un_assoc)
qed (simp add: List.map_filter_def)

lemma choose_origin_distinct: "distinct (jkeys (fst acc)) \<Longrightarrow> distinct (jkeys (fst (fold choose_origin its acc)))"
  by (induction its arbitrary: acc) (simp_all add: choose_origin_sel(4))

lemma fold_fold_concat: "fold (\<lambda>k acc. fold f (g k) acc) ks acc = fold f (concat (map g ks)) acc"
  by (induction ks arbitrary: acc) simp_all

lemma sort_distinct_set: "distinct xs \<Longrightarrow> set xs = set ys \<Longrightarrow> distinct ys \<Longrightarrow> sort xs = sort (ys :: rat list)"
  by (metis sorted_distinct_set_unique distinct_sort set_sort sorted_sort)

text \<open>The first item of every origin, by origin, and then the items without one.\<close>

lemma pass_through_eq:
  "pass_through m order =
    (let its = append_inputs m order
     in List.map_filter (\<lambda>i. find (\<lambda>it. origin_index it = Some i) its) (sort (remdups (known_origins its)))
        @ filter (\<lambda>it. origin_index it = None) its)"
proof -
  let ?its = "append_inputs m order"
  let ?acc = "fold choose_origin ?its ([], [])"
  have "sort (jkeys (fst ?acc)) = sort (remdups (known_origins ?its))"
    using choose_origin_keys [of ?its "([], [])"] choose_origin_distinct [of "([], [])" ?its] by (intro sort_distinct_set) simp_all
  moreover have "jget (fst ?acc) = (\<lambda>i. find (\<lambda>it. origin_index it = Some i) ?its)" using choose_origin_chosen [of ?its "([], [])"] by auto
  ultimately show ?thesis
    by (simp add: pass_through_def fold_fold_concat append_inputs_def [symmetric] choose_origin_fallback Let_def split_beta)
qed

section \<open>Routing\<close>

text \<open>A node that sends every item, tagged, to one port of its choice.\<close>

definition routes_by :: "executor_env \<Rightarrow> activation_request \<Rightarrow> (nat \<Rightarrow> item \<Rightarrow> port_key) \<Rightarrow> bool" where
  "routes_by env r route = (\<forall>its i it outs e e'. execute_item env r its i it e = (Inr outs, e') \<longrightarrow>
     (\<forall>p. port_items p outs = (if route i it = p then [tag_item (nx_nodeId (ar_ctx r)) i it] else [])))"

lemma routes_byD: "routes_by env r route \<Longrightarrow> execute_item env r its i it e = (Inr outs, e')
    \<Longrightarrow> port_items p outs = (if route i it = p then [tag_item (nx_nodeId (ar_ctx r)) i it] else [])"
  unfolding routes_by_def by blast

lemma tagged_output [simp]: "apply_output keep it (tag_item n i it) = tag_item n i it"
proof -
  have "it_binary (tag_item n i it) = it_binary it" by (simp add: tag_item_def Let_def)
  then show ?thesis by (cases "it_binary it"; cases keep) (simp_all add: apply_output_def)
qed

lemma collect_ports:
  "collect_results (map (\<lambda>(p, payload). bind_result (normalize_port_payload keep base payload) (\<lambda>its. Inr (p, its)))
      (map (\<lambda>(p, its). (p, map js_of_item its)) ports)) = Inr (map (\<lambda>(p, its). (p, map (apply_output keep base) its)) ports)"
  by (induction ports) (simp_all add: port_payload_items split_beta)

lemma normalize_ports:
  "normalize_execute_result keep base (ports_of ports) = Inr (map (\<lambda>(p, its). (p, map (apply_output keep base) its)) ports)"
  using collect_ports [of keep base ports]
  by (simp add: normalize_execute_result_def ports_of_def emit_ports_def List.map_filter_def comp_def split_beta)

lemma if_node_routes:
  assumes "xe_execute env (nc_type (nx_config (ar_ctx r))) = if_node (\<lambda>it i _ _. Inr (P i it))"
  shows "routes_by env r (\<lambda>i it. if P i it then ''true'' else ''false'')"
  unfolding routes_by_def
proof (intro allI impI)
  fix its i it outs e e' p
  let ?g = "\<lambda>a. Inr (ports_of [(''true'', if P (xa_itemIndex a) (xa_item a) then [tag_item (nx_nodeId (xa_ctx a)) (xa_itemIndex a) (xa_item a)] else []),
      (''false'', if P (xa_itemIndex a) (xa_item a) then [] else [tag_item (nx_nodeId (xa_ctx a)) (xa_itemIndex a) (xa_item a)])]) :: js_error + raw_output"
  have code: "xe_execute env (nc_type (nx_config (ar_ctx r))) a e = (case ?g a of Inl err \<Rightarrow> Inl (thrown err) | Inr raw \<Rightarrow> Inr raw, e)" for a e
    by (simp add: assms if_node_def Let_def as_node_def lift_result_def then_do_def return_do_def)
  assume "execute_item env r its i it e = (Inr outs, e')"
  from execute_item_code [OF this code] show "port_items p outs = (if (if P i it then ''true'' else ''false'') = p then [tag_item (nx_nodeId (ar_ctx r)) i it] else [])"
    by (auto simp: args_for_def normalize_ports port_items_def split: if_splits)
qed

lemma switch_node_routes:
  assumes "xe_execute env (nc_type (nx_config (ar_ctx r))) = switch_node c"
    and "\<And>it i its ctx. sw_resolveCaseKey c it i its ctx = return_do (key i it)"
  shows "routes_by env r (\<lambda>i it. switch_port c (key i it))"
  unfolding routes_by_def
proof (intro allI impI)
  fix its i it outs e e' p
  let ?g = "\<lambda>a. Inr (ports_of [(switch_port c (key (xa_itemIndex a) (xa_item a)), [tag_item (nx_nodeId (xa_ctx a)) (xa_itemIndex a) (xa_item a)])])
    :: js_error + raw_output"
  have code: "xe_execute env (nc_type (nx_config (ar_ctx r))) a e = (case ?g a of Inl err \<Rightarrow> Inl (thrown err) | Inr raw \<Rightarrow> Inr raw, e)" for a e
    by (simp add: assms switch_node_def Let_def then_do_def return_do_def)
  assume "execute_item env r its i it e = (Inr outs, e')"
  from execute_item_code [OF this code]
  show "port_items p outs = (if switch_port c (key i it) = p then [tag_item (nx_nodeId (ar_ctx r)) i it] else [])"
    by (auto simp: args_for_def normalize_ports port_items_def)
qed

definition tagged_batch :: "node_id \<Rightarrow> items \<Rightarrow> items" where
  "tagged_batch n its = map (\<lambda>(i, it). tag_item n i it) (enumerate 0 its)"

definition routed :: "node_id \<Rightarrow> (nat \<Rightarrow> item \<Rightarrow> port_key) \<Rightarrow> items \<Rightarrow> port_key \<Rightarrow> items" where
  "routed n route its p = map (\<lambda>(i, it). tag_item n i it) (filter (\<lambda>(i, it). route i it = p) (enumerate 0 its))"

lemma concat_if_filter: "concat (map (\<lambda>x. if P x then [f x] else []) xs) = map f (filter P xs)"
  by (induction xs) simp_all

lemma routes_batch:
  assumes "routes_by env r route" "execute_runnable env r its e = (Inr out, e')" "its \<noteq> []"
  shows "jget_list out p = routed (nx_nodeId (ar_ctx r)) route its p"
proof -
  have "jget_list out p = concat (map (\<lambda>(i, it). if route i it = p then [tag_item (nx_nodeId (ar_ctx r)) i it] else []) (enumerate 0 its))"
    by (intro runnable_port [OF assms(2,3)]) (unfold prod.case, rule routes_byD [OF assms(1)])
  then show ?thesis using concat_if_filter [of "\<lambda>x. route (fst x) (snd x) = p" "\<lambda>x. tag_item (nx_nodeId (ar_ctx r)) (fst x) (snd x)"]
    by (simp add: routed_def case_prod_unfold)
qed

section \<open>Merging what was routed\<close>

lemma distinct_append_outputs: "distinct (jkeys byPort) \<Longrightarrow> distinct (jkeys (append_outputs byPort outs))"
proof (induction outs arbitrary: byPort)
  case (Cons o1 outs)
  then show ?case by (cases o1) (simp add: append_outputs_def)
qed (simp add: append_outputs_def)

lemma distinct_execute_items:
  "distinct (jkeys byPort) \<Longrightarrow> execute_items env r its i rest byPort e = (Inr out, e') \<Longrightarrow> distinct (jkeys out)"
proof (induction rest arbitrary: i byPort e)
  case (Cons it rest)
  from Cons.prems(2) obtain outs e1 where "execute_items env r its (Suc i) rest (append_outputs byPort outs) e1 = (Inr out, e')"
    unfolding execute_items.simps then_do_Inr_iff by blast
  then show ?case by (rule Cons.IH [OF distinct_append_outputs [OF Cons.prems(1)]])
qed (simp add: return_do_def)

lemma mset_routed_ports:
  "distinct ps \<Longrightarrow> mset (concat (map (\<lambda>p. filter (\<lambda>x. g x = p) xs) ps)) = mset (filter (\<lambda>x. g x \<in> set ps) xs)"
proof (induction ps)
  case (Cons p ps)
  have "mset (filter (\<lambda>x. g x \<in> set (p # ps)) xs) = mset (filter (\<lambda>x. g x = p) xs) + mset (filter (\<lambda>x. g x \<in> set ps) xs)"
    using Cons.prems by (induction xs) auto
  then show ?case using Cons by simp
qed simp

lemma ordered_inputs_mset:
  assumes "distinct (jkeys m)" "distinct (opt_or prefer [])"
  shows "mset (ordered_inputs m prefer) = mset (jkeys m)"
proof -
  let ?q = "filter (\<lambda>k. k \<in> set (jkeys m)) (opt_or prefer [])"
  have "distinct (?q @ filter (\<lambda>k. k \<notin> set ?q) (jkeys m))" using assms by auto
  moreover have "set (?q @ filter (\<lambda>k. k \<notin> set ?q) (jkeys m)) = set (jkeys m)" by auto
  ultimately have "mset (?q @ filter (\<lambda>k. k \<notin> set ?q) (jkeys m)) = mset (jkeys m)"
    using set_eq_iff_mset_eq_distinct [OF _ assms(1)] by blast
  then show ?thesis by (simp add: ordered_inputs_def Let_def)
qed

lemma mset_concat_map: "mset (concat (map f ks)) = sum_mset (image_mset (\<lambda>k. mset (f k)) (mset ks))"
  by (induction ks) simp_all

lemma mset_append_inputs:
  assumes "distinct (jkeys m)" "distinct (opt_or prefer [])"
  shows "mset (append_inputs m (ordered_inputs m prefer)) = mset (concat (map (jget_list m) (jkeys m)))"
  by (simp only: append_inputs_def mset_concat_map ordered_inputs_mset [OF assms])

text \<open>Items with origins of their own come out by origin.\<close>

lemma origins_inj:
  assumes "map origin_index ys = map Some os" "distinct os" "y \<in> set ys" "z \<in> set ys" "origin_index y = origin_index z"
  shows "y = z"
proof -
  have "distinct (map origin_index ys)" unfolding assms(1) using assms(2) by (simp add: distinct_map inj_on_def)
  then show ?thesis using assms(3-5) unfolding distinct_map inj_on_def by blast
qed

lemma find_by_origin:
  assumes "map origin_index ys = map Some os" "distinct os" "set xs = set ys" "y \<in> set ys" "origin_index y = Some i"
  shows "find (\<lambda>it. origin_index it = Some i) xs = Some y"
proof (cases "find (\<lambda>it. origin_index it = Some i) xs")
  case None
  then show ?thesis using assms(3-5) by (auto simp: find_None_iff)
next
  case (Some z)
  then have "z \<in> set ys" "origin_index z = Some i" using assms(3) by (auto dest: find_Some_mem simp: find_Some_iff)
  then show ?thesis using origins_inj [OF assms(1,2) _ assms(4)] assms(5) Some by simp
qed

lemma known_origins_map: "map origin_index ys = map Some os \<Longrightarrow> known_origins ys = os"
  by (induction ys arbitrary: os) (auto simp: List.map_filter_def)

lemma map_filter_restores:
  assumes "map origin_index ys = map Some os" "\<And>y i. y \<in> set ys \<Longrightarrow> origin_index y = Some i \<Longrightarrow> g i = Some y"
  shows "List.map_filter g os = ys"
  using assms
proof (induction ys arbitrary: os)
  case (Cons y ys)
  then obtain i os' where os: "os = i # os'" "origin_index y = Some i" "map origin_index ys = map Some os'" by auto
  have "g i = Some y" using Cons.prems(2) os(2) by simp
  moreover have "List.map_filter g os' = ys" using Cons.prems(2) by (intro Cons.IH [OF os(3)]) simp
  ultimately show ?case by (simp add: os(1) List.map_filter_def)
qed (simp add: List.map_filter_def)

lemma pass_through_restores:
  assumes "mset (append_inputs m order) = mset ys" "map origin_index ys = map Some os" "sorted_wrt (<) os"
  shows "pass_through m order = ys"
proof -
  let ?xs = "append_inputs m order"
  have set: "set ?xs = set ys" using assms(1) by (metis set_mset_mset)
  have os: "sorted os" "distinct os" using assms(3) by (simp_all add: strict_sorted_iff)
  have "mset (known_origins ?xs) = mset (known_origins ys)"
    using assms(1) by (simp add: List.map_filter_def mset_filter)
  then have eq: "mset (known_origins ?xs) = mset os" by (simp only: known_origins_map [OF assms(2)])
  then have "distinct (known_origins ?xs)" using os(2) mset_eq_imp_distinct_iff by blast
  moreover have "sort (known_origins ?xs) = os" using eq os(1) by (intro properties_for_sort) simp_all
  moreover have "List.map_filter (\<lambda>i. find (\<lambda>it. origin_index it = Some i) ?xs) os = ys"
    by (rule map_filter_restores [OF assms(2) find_by_origin [OF assms(2) os(2) set]])
  moreover have "origin_index y \<noteq> None" if "y \<in> set ys" for y
  proof -
    have "origin_index y \<in> set (map origin_index ys)" using that by simp
    then show ?thesis unfolding assms(2) by auto
  qed
  then have "filter (\<lambda>it. origin_index it = None) ?xs = []" using set by (auto simp: filter_empty_conv)
  ultimately show ?thesis by (simp add: pass_through_eq Let_def distinct_remdups_id)
qed

lemma port_get: "inj port \<Longrightarrow> jget (map (\<lambda>(p, b). (port p, b)) m) (port p) = jget m p"
  by (induction m) (auto simp: inj_def)

lemma port_list: "inj port \<Longrightarrow> jget_list (map (\<lambda>(p, b). (port p, b)) m) (port p) = jget_list m p"
  by (simp add: port_get)

section \<open>Properties\<close>

text \<open>A router keeps the origin of an item that has one.\<close>

lemma not_an_index: "string_of_nat k \<noteq> ''originIndex''"
proof
  assume "string_of_nat k = ''originIndex''"
  then show False using string_of_nat_digits [of k] by (auto simp: is_digit_def)
qed

lemma js_number_case: "js_number v = (case v of JNum n \<Rightarrow> Some n | _ \<Rightarrow> None)"
  by (cases v) simp_all

lemma index_fields: "map_of (map (\<lambda>(i, v). (string_of_nat i, v)) ys) ''originIndex'' = None"
  by (induction ys) (simp_all add: not_an_index not_an_index [symmetric] split_beta)

lemma field_origin: "Option.bind (jget (object_fields v) ''originIndex'') js_number = js_number (js_field v ''originIndex'')"
proof (cases v)
  case (JObj fs)
  then show ?thesis by (cases "jget fs ''originIndex''") simp_all
qed (simp_all add: index_fields del: map_of_eq_None_iff)

lemma cm_origin: "Option.bind (jget (cm_fields it) ''originIndex'') js_number = origin_index it"
  unfolding cm_fields_def field_origin origin_index_def js_number_case by (cases "it_meta it") simp_all

lemma origin_tag_item: "origin_index (tag_item n i it) = Some (opt_or (origin_index it) (of_nat i))"
  by (simp add: tag_item_def Let_def cm_origin origin_index_def)

lemma tagged_batch_origins:
  assumes "list_all (\<lambda>it. origin_index it = None) its"
  shows "map origin_index (tagged_batch n its) = map Some (map of_nat [0..<length its])"
proof (rule nth_equalityI)
  fix k
  assume "k < length (map origin_index (tagged_batch n its))"
  then have "k < length its" by (simp add: tagged_batch_def)
  then show "map origin_index (tagged_batch n its) ! k = map Some (map of_nat [0..<length its]) ! k"
    using assms by (simp add: tagged_batch_def nth_enumerate_eq origin_tag_item list_all_length)
qed (simp add: tagged_batch_def)

lemma routed_parts:
  assumes "distinct ps" "\<And>i it. route i it \<notin> set ps \<Longrightarrow> (i, it) \<notin> set (enumerate 0 its)"
  shows "mset (concat (map (routed n route its) ps)) = mset (tagged_batch n its)"
proof -
  let ?tag = "\<lambda>(i, it). tag_item n i it" and ?es = "enumerate 0 its"
  have "concat (map (routed n route its) ps) = map ?tag (concat (map (\<lambda>p. filter (\<lambda>x. (case x of (i, it) \<Rightarrow> route i it) = p) ?es) ps))"
    by (induction ps) (simp_all add: routed_def case_prod_unfold)
  moreover have "filter (\<lambda>x. (case x of (i, it) \<Rightarrow> route i it) \<in> set ps) ?es = ?es" using assms(2) by (auto simp: filter_id_conv)
  ultimately show ?thesis using mset_routed_ports [OF assms(1), of "\<lambda>(i, it). route i it" ?es]
    by (simp add: tagged_batch_def)
qed

text \<open>
  C25. A batch of items without origins that an If or a Switch node divides, and a Merge node in its default mode puts together
  again from the ports in use, is the batch: every item once, with its mark, in the old order, whatever the ports of the merge
  node are called and whichever it prefers.
\<close>

theorem merge_restores_routed:
  assumes "xe_execute env (nc_type (nx_config (ar_ctx r))) = if_node (\<lambda>it i _ _. Inr (P i it))
      \<or> xe_execute env (nc_type (nx_config (ar_ctx r))) = switch_node c
        \<and> sw_resolveCaseKey c = (\<lambda>it i _ _. return_do (key i it))"
    and "execute_runnable env r its e = (Inr out, e')" "its \<noteq> []" "list_all (\<lambda>it. origin_index it = None) its"
    and "inj port" "distinct (opt_or prefer [])"
  shows "merge_items PassThrough prefer (map (\<lambda>(p, b). (port p, b)) out) = tagged_batch (nx_nodeId (ar_ctx r)) its"
proof -
  let ?m = "map (\<lambda>(p, b). (port p, b)) out" and ?n = "nx_nodeId (ar_ctx r)"
  obtain route where "routes_by env r route"
    using assms(1) if_node_routes switch_node_routes by (metis (no_types, lifting))
  then have port: "jget_list out p = routed ?n route its p" for p using routes_batch assms(2,3) by blast
  have run: "execute_items env r its 0 its [] e = (Inr out, e')" using assms(2,3) by (simp add: execute_runnable_def)
  have keys: "distinct (jkeys out)" by (rule distinct_execute_items [OF _ run]) simp
  have used: "(i, it) \<notin> set (enumerate 0 its)" if out: "route i it \<notin> set (jkeys out)" for i it
  proof
    assume it: "(i, it) \<in> set (enumerate 0 its)"
    have "jget out (route i it) = None" using out by (simp add: map_of_eq_None_iff)
    then have "routed ?n route its (route i it) = []" using port [of "route i it"] by simp
    moreover have "tag_item ?n i it \<in> set (routed ?n route its (route i it))"
      unfolding routed_def set_map set_filter by (rule image_eqI [of _ _ "(i, it)"]) (use it in simp_all)
    ultimately show False by simp
  qed
  have m: "jkeys ?m = map port (jkeys out)" by (simp add: comp_def case_prod_unfold)
  have lists: "map (jget_list ?m) (jkeys ?m) = map (routed ?n route its) (jkeys out)"
  proof -
    have "map (jget_list ?m) (map port ks) = map (routed ?n route its) ks" for ks
      by (induction ks) (simp_all only: list.map port_list [OF assms(5)] port)
    then show ?thesis unfolding m .
  qed
  have "distinct (jkeys ?m)" unfolding m using keys assms(5) by (simp only: distinct_map) (simp add: inj_on_def inj_def)
  then have "mset (append_inputs ?m (ordered_inputs ?m prefer)) = mset (concat (map (routed ?n route its) (jkeys out)))"
    using mset_append_inputs [OF _ assms(6), of ?m] unfolding lists by blast
  also have "\<dots> = mset (tagged_batch ?n its)" by (rule routed_parts [OF keys used])
  finally have "pass_through ?m (ordered_inputs ?m prefer) = tagged_batch ?n its"
    by (rule pass_through_restores [OF _ tagged_batch_origins [OF assms(4)]]) (simp add: sorted_wrt_map)
  then show ?thesis by (simp add: merge_items_def Let_def)
qed

definition sample_even :: executor_env where
  "sample_even = sample_executor (if_node (\<lambda>it i _ _. Inr (even i)))"

lemma merge_restores_routed_witness:
  "\<exists>out e'. execute_runnable sample_even sample_activation [sample_item ''x'', sample_item ''y''] (sample_host sample_waiting) = (Inr out, e')
    \<and> length out = 2 \<and> map it_json (merge_items PassThrough None out) = [JStr ''x'', JStr ''y'']"
proof -
  let ?its = "[sample_item ''x'', sample_item ''y'']"
  let ?r = "execute_runnable sample_even sample_activation ?its (sample_host sample_waiting)"
  have "case fst ?r of Inr out \<Rightarrow> length out = 2 | Inl _ \<Rightarrow> False" by code_simp
  then obtain out e' where out: "?r = (Inr out, e')" "length out = 2" by (cases ?r) (auto split: sum.splits)
  have "merge_items PassThrough None (map (\<lambda>(p, b). (id p, b)) out) = tagged_batch (nx_nodeId (ar_ctx sample_activation)) ?its"
    by (rule merge_restores_routed [OF _ out(1), where P = "\<lambda>i _. even i"])
       (simp_all add: sample_even_def sample_item_def json_item_def origin_index_def)
  moreover have "map (\<lambda>(p, b). (id p, b)) out = out" by (simp add: case_prod_unfold)
  moreover have "map it_json (tagged_batch n ?its) = [JStr ''x'', JStr ''y'']" for n
    by (simp add: tagged_batch_def tag_item_def Let_def sample_item_def json_item_def)
  ultimately show ?thesis using out by auto
qed

text \<open>A filter keeps the items that pass, as they are and in order.\<close>

lemma filter_node_thins:
  assumes "xe_execute env (nc_type (nx_config (ar_ctx r))) = filter_node (\<lambda>it i _ _. Inr (P i it))"
    and "execute_runnable env r its e = (Inr out, e')" "its \<noteq> []"
  shows "jget_list out ''main'' = map snd (filter (\<lambda>(i, it). P i it) (enumerate 0 its))"
proof -
  let ?g = "\<lambda>a. Inr (RawValue (if P (xa_itemIndex a) (xa_item a) then js_of_item (xa_item a) else JArr [])) :: js_error + raw_output"
  have code: "xe_execute env (nc_type (nx_config (ar_ctx r))) a e = (case ?g a of Inl err \<Rightarrow> Inl (thrown err) | Inr raw \<Rightarrow> Inr raw, e)" for a e
    by (simp add: assms(1) filter_node_def as_node_def lift_result_def then_do_def return_do_def)
  have same: "apply_output keep it it = it" for keep it by (cases "it_binary it"; cases keep) (simp_all add: apply_output_def)
  have whole: "normalize_execute_result keep it (RawValue (js_of_item it)) = Inr [(''main'', [it])]" for keep it
    using normalize_preserves_items [of keep it it] same by simp
  have none: "normalize_execute_result keep it (RawValue (JArr [])) = Inr [(''main'', [])]" for keep it
    by (simp add: normalize_execute_result_def is_unbranded_ports_def array_fan_out_def)
  have "jget_list out ''main'' = concat (map (\<lambda>x. if P (fst x) (snd x) then [snd x] else []) (enumerate 0 its))"
  proof (rule runnable_port [OF assms(2,3)])
    fix k e1 outs e2
    assume "execute_item env r its k (its ! k) e1 = (Inr outs, e2)"
    from execute_item_code [OF this code] show "port_items ''main'' outs = (if P (fst (k, its ! k)) (snd (k, its ! k)) then [snd (k, its ! k)] else [])"
      by (auto simp: args_for_def whole none port_items_def split: if_splits)
  qed
  then show ?thesis unfolding concat_if_filter by (simp add: case_prod_unfold)
qed

text \<open>
  Two items can share an origin although they come from different ones: of a batch that holds an item marked by a router and
  one that has lost its mark, the next router gives the second the index at which it stands, and the merge behind it drops one
  of the two.
\<close>

theorem merge_drops_mixed_items:
  assumes "origin_index x = None" "origin_index y = None"
  shows "merge_items PassThrough None [(''true'', [y]), (''false'', [tag_item n 1 x])] = [tag_item n 1 x, y]
    \<and> merge_items PassThrough None [(''true'', [tag_item n' 0 (tag_item n 1 x)]), (''false'', [tag_item n' 1 y])]
      = [tag_item n' 1 y]"
proof -
  have ports: "ordered_inputs [(''true'', ps), (''false'', qs)] None = [''false'', ''true'']" for ps qs :: items
  proof -
    have "stable_sort string_less [''true'', ''false''] = [''false'', ''true'']" by code_simp
    then show ?thesis by (simp add: ordered_inputs_def)
  qed
  show ?thesis using assms
    by (simp add: merge_items_def ports pass_through_eq append_inputs_def Let_def origin_tag_item List.map_filter_def)
qed

lemma merge_drops_mixed_items_witness:
  "length (merge_items PassThrough None [(''true'', [tag_item ''second'' 0 (tag_item ''first'' 1 (sample_item ''x''))]),
      (''false'', [tag_item ''second'' 1 (sample_item ''y'')])]) = 1"
proof -
  have "origin_index (sample_item s) = None" for s by (simp add: sample_item_def json_item_def origin_index_def)
  from merge_drops_mixed_items [OF this this, of "''y''" "''first''" "''x''" "''second''"] show ?thesis by simp
qed

text \<open>What is merged by position is an object with a property per input, not the fields of the inputs.\<close>

lemma merged_by_position_nests:
  "merge_items MergeByPosition None [(''left'', [json_item v]), (''right'', [json_item w])]
    = [json_item (JObj [(''left'', v), (''right'', w)])]"
proof -
  have "stable_sort string_less [''left'', ''right''] = [''left'', ''right'']" by code_simp
  then show ?thesis
    by (simp add: merge_items_def ordered_inputs_def merge_by_position_def merge_at_def nth_item_def json_item_def List.map_filter_def Let_def)
qed

end
