(* ===== verification/HumanTasks.thy ===== *)
theory HumanTasks
  imports Agent
begin

text \<open>
  Human tasks on the side of the host: the tokens that let someone without a session decide a task
  (\<open>host/src/hitl/HitlResumeTokenSigner.ts\<close>), approval nodes (\<open>core/src/authoring/defineHumanApprovalNode.types.ts\<close>) and the
  inbox one of them delivers to, the table of tasks (\<open>PrismaHumanTaskStore.ts\<close>) and the handlers that resolve a task and
  resume its run: a decision, the callback of the control plane, the token endpoint and the timeout.  A handler is an action
  on the table, the queue of timeouts and the engine.  Parameters: the HMAC and the hash, the parser of decision schemas,
  the code of approval channels, the texts of errors of the database, and what the queue says when a job is removed.  A
  time is read from its ISO text by a parameter; telemetry and logging are left out.
\<close>

section \<open>Numbers from strings\<close>

text \<open>\<open>Number(text)\<close>.  A finite value is the rational that the text denotes, not the nearest double.\<close>

datatype js_number = NotANumber | InfiniteNumber | FiniteNumber rat

definition ten_to :: "int \<Rightarrow> rat" where
  "ten_to n = (if 0 \<le> n then 10 ^ nat n else 1 / 10 ^ nat (- n))"

definition read_sign :: "string \<Rightarrow> bool \<times> string" where
  "read_sign s =
    (case s of
       c # r \<Rightarrow> if c = CHR ''-'' then (True, r) else if c = CHR ''+'' then (False, r) else (False, s)
     | [] \<Rightarrow> (False, s))"

definition read_exponent :: "string \<Rightarrow> int option" where
  "read_exponent s =
    (case s of
       [] \<Rightarrow> Some 0
     | c # r \<Rightarrow>
         if c \<in> {CHR ''e'', CHR ''E''}
         then let (neg, ds) = read_sign r
              in if ds = [] \<or> \<not> list_all is_digit ds then None
                 else Some (if neg then - int (digits_value ds) else int (digits_value ds))
         else None)"

definition read_decimal :: "string \<Rightarrow> rat option" where
  "read_decimal s =
    (let whole = takeWhile is_digit s;
         rest = dropWhile is_digit s;
         (part, rest) = (case rest of
             c # r \<Rightarrow> if c = CHR ''.'' then (takeWhile is_digit r, dropWhile is_digit r) else ([], rest)
           | [] \<Rightarrow> ([], rest))
     in if whole = [] \<and> part = [] then None
        else map_option (\<lambda>x. (of_nat (digits_value whole) + of_nat (digits_value part) / 10 ^ length part) * ten_to x) (read_exponent rest))"

definition digit_in :: "nat \<Rightarrow> char \<Rightarrow> nat option" where
  "digit_in base c =
    (let n = (of_char c :: nat);
         d = (if 48 \<le> n \<and> n \<le> 57 then n - 48 else if 97 \<le> n \<and> n \<le> 122 then n - 87 else if 65 \<le> n \<and> n \<le> 90 then n - 55 else base)
     in if d < base then Some d else None)"

definition read_base :: "nat \<Rightarrow> string \<Rightarrow> rat option" where
  "read_base base s =
    (if s = [] then None
     else map_option of_nat (fold (\<lambda>c v. Option.bind v (\<lambda>v. map_option (\<lambda>d. base * v + d) (digit_in base c))) s (Some 0)))"

definition read_radix :: "string \<Rightarrow> rat option" where
  "read_radix s =
    (case s of
       z # x # r \<Rightarrow>
         if z \<noteq> CHR ''0'' then None
         else if x \<in> {CHR ''x'', CHR ''X''} then read_base 16 r
         else if x \<in> {CHR ''o'', CHR ''O''} then read_base 8 r
         else if x \<in> {CHR ''b'', CHR ''B''} then read_base 2 r
         else None
     | _ \<Rightarrow> None)"

definition finite_number :: "rat \<Rightarrow> js_number" where
  "finite_number v = (if 2 ^ 1024 - 2 ^ 970 \<le> \<bar>v\<bar> then InfiniteNumber else FiniteNumber v)"

text \<open>A number that is small is recognised as finite without the power of two.\<close>

lemma finite_number_code [code]:
  "finite_number v = (if \<bar>v\<bar> < 1000000000000000000000 then FiniteNumber v
    else if 2 ^ 1024 - 2 ^ 970 \<le> \<bar>v\<bar> then InfiniteNumber else FiniteNumber v)"
proof -
  have "(1000000000000000000000 :: rat) \<le> 2 ^ 1024 - 2 ^ 970" by simp
  thus ?thesis unfolding finite_number_def by (auto simp del: power_numeral)
qed

definition to_number :: "string \<Rightarrow> js_number" where
  "to_number text =
    (let s = js_trim text
     in if s = [] then FiniteNumber 0
        else (case read_radix s of
            Some v \<Rightarrow> finite_number v
          | None \<Rightarrow>
              let (neg, u) = read_sign s
              in if u = ''Infinity'' then InfiniteNumber
                 else (case read_decimal u of
                     Some v \<Rightarrow> finite_number (if neg then - v else v)
                   | None \<Rightarrow> NotANumber)))"

section \<open>Resume tokens\<close>

fun split_on :: "char \<Rightarrow> string \<Rightarrow> string list" where
  "split_on c [] = [[]]"
| "split_on c (x # xs) =
    (if x = c then [] # split_on c xs
     else (case split_on c xs of [] \<Rightarrow> [[x]] | p # ps \<Rightarrow> (x # p) # ps))"

record signing_env =
  sg_authSecret :: "string option"
  sg_hmac :: "string \<Rightarrow> string \<Rightarrow> string"
  sg_sha256 :: "string \<Rightarrow> string"

datatype token_refusal = TokenMalformed | TokenBadSig | TokenExpired

datatype token_check = TokenOk string string "rat option" | TokenRefused token_refusal

definition signing_secret :: "signing_env \<Rightarrow> string option" where
  "signing_secret env =
    Option.bind (sg_authSecret env) (\<lambda>raw. if js_trim raw = [] then None else Some (js_trim raw))"

definition require_secret :: "signing_env \<Rightarrow> js_error + string" where
  "require_secret env =
    (case signing_secret env of
       None \<Rightarrow> Inl (plain_error ''HitlResumeTokenSigner: AUTH_SECRET is required.'')
     | Some k \<Rightarrow> Inr k)"

definition token_payload :: "string \<Rightarrow> string \<Rightarrow> string \<Rightarrow> string" where
  "token_payload taskId expiresAt hash8 = taskId @ ''.'' @ expiresAt @ ''.'' @ hash8"

definition signed_with :: "signing_env \<Rightarrow> string \<Rightarrow> string \<Rightarrow> string" where
  "signed_with env k payload = payload @ ''.'' @ sg_hmac env k payload"

text \<open>The time of expiry is in milliseconds; the token carries whole seconds.\<close>

definition sign_token :: "signing_env \<Rightarrow> string \<Rightarrow> int \<Rightarrow> string \<Rightarrow> js_error + string" where
  "sign_token env taskId expiresMs hash =
    bind_result (require_secret env) (\<lambda>k.
      Inr (signed_with env k (token_payload taskId (string_of_int (expiresMs div 1000)) (take 8 hash))))"

text \<open>\<open>new Date(ms)\<close>: whole milliseconds, and no valid time beyond the range of dates.\<close>

definition date_of_ms :: "rat \<Rightarrow> rat option" where
  "date_of_ms ms =
    (if 8640000000000000 < \<bar>ms\<bar> then None else Some (of_int (if 0 \<le> ms then \<lfloor>ms\<rfloor> else \<lceil>ms\<rceil>)))"

definition verify_token :: "signing_env \<Rightarrow> int \<Rightarrow> string \<Rightarrow> js_error + token_check" where
  "verify_token env nowMs token =
    (case split_on (CHR ''.'') token of
       [taskId, expiresAt, hash8, received] \<Rightarrow>
         (case to_number expiresAt of
            FiniteNumber seconds \<Rightarrow>
              bind_result (require_secret env) (\<lambda>k.
                if sg_hmac env k (token_payload taskId expiresAt hash8) \<noteq> received then Inr (TokenRefused TokenBadSig)
                else let date = date_of_ms (seconds * 1000)
                     in if (case date of Some ms \<Rightarrow> ms \<le> of_int nowMs | None \<Rightarrow> False) then Inr (TokenRefused TokenExpired)
                        else Inr (TokenOk taskId hash8 date))
          | _ \<Rightarrow> Inr (TokenRefused TokenMalformed))
     | _ \<Rightarrow> Inr (TokenRefused TokenMalformed))"

text \<open>What \<open>NodeSuspensionHandler\<close> is given to sign with, where there is a secret.\<close>

definition token_signer_with :: "signing_env \<Rightarrow> (iso_time \<Rightarrow> int) \<Rightarrow> string \<Rightarrow> token_signer" where
  "token_signer_with env millis k =
    \<lparr>tk_sign = (\<lambda>taskId expiresAt hash.
       signed_with env k (token_payload taskId (string_of_int (millis expiresAt div 1000)) (take 8 hash))),
     tk_hashToken = sg_sha256 env\<rparr>"

definition hash_token :: "signing_env \<Rightarrow> string \<Rightarrow> string" where
  "hash_token env token = sg_sha256 env token"

section \<open>Approval nodes\<close>

text \<open>What an author gives \<open>defineHumanApprovalNode\<close>.  \<open>ap_hasApproved\<close>: the schema is an object with a field
  \<open>approved\<close>; \<open>ap_predicateSource\<close>: the text of the predicate.\<close>

record 'c approval_options =
  ap_key :: string
  ap_title :: string
  ap_channel :: string
  ap_schema :: jsval
  ap_hasApproved :: bool
  ap_parse :: "jsval \<Rightarrow> js_error + jsval"
  ap_approvedPredicate :: "(jsval \<Rightarrow> bool) option"
  ap_predicateSource :: string
  ap_defaultTimeout :: "string option"
  ap_defaultOnTimeout :: "on_timeout option"
  ap_deliver :: "'c \<Rightarrow> task_handle \<Rightarrow> item \<Rightarrow> (jsval, engine) engine_action"
  ap_onDecision :: "(jsval \<Rightarrow> task_actor \<Rightarrow> task_handle \<Rightarrow> jsval \<Rightarrow> item \<Rightarrow> (unit, engine) engine_action) option"
  ap_onTimeout :: "(task_handle \<Rightarrow> jsval \<Rightarrow> item \<Rightarrow> on_timeout \<Rightarrow> (unit, engine) engine_action) option"

definition resolve_approved_predicate :: "'c approval_options \<Rightarrow> js_error + (jsval \<Rightarrow> bool)" where
  "resolve_approved_predicate opts =
    (case ap_approvedPredicate opts of
       Some p \<Rightarrow> Inr p
     | None \<Rightarrow>
         if ap_hasApproved opts then Inr (\<lambda>d. js_field d ''approved'' = JBool True)
         else Inl (plain_error (''defineHumanApprovalNode: decisionSchema has no '' @ quoted ''approved'' @
           '' field and no approvedPredicate was provided. '' @
           ''Either add { approved: z.boolean() } to the decision schema or supply approvedPredicate explicitly.'')))"

text \<open>The fields that \<open>{...value}\<close> copies.\<close>

fun spread_fields :: "jsval \<Rightarrow> (string, jsval) jmap" where
  "spread_fields (JObj m) = m"
| "spread_fields (JArr xs) = map (\<lambda>(i, x). (string_of_nat i, x)) (enumerate 0 xs)"
| "spread_fields (JStr s) = map (\<lambda>(i, c). (string_of_nat i, JStr [c])) (enumerate 0 s)"
| "spread_fields _ = []"

definition merge_decision :: "item \<Rightarrow> (string, jsval) jmap \<Rightarrow> item" where
  "merge_decision it decision =
    \<lparr>it_json = JObj (jset ''decision'' (JObj decision) (jspread [] (spread_fields (it_json it)))),
     it_binary = it_binary it, it_meta = it_meta it, it_paired = None\<rparr>"

definition optional_call :: "('f \<Rightarrow> (unit, engine) engine_action) \<Rightarrow> 'f option \<Rightarrow> (unit, engine) engine_action" where
  "optional_call call f = (case f of None \<Rightarrow> return_do () | Some g \<Rightarrow> call g)"

text \<open>A timeout is merged as it is; a decision is checked against the schema, reported to the channel and judged.\<close>

definition timeout_merged ::
  "'c approval_options \<Rightarrow> item \<Rightarrow> resume_context \<Rightarrow> on_timeout \<Rightarrow> string \<Rightarrow> iso_time \<Rightarrow> (item, engine) engine_action" where
  "timeout_merged opts it ctx policy status at' =
    after_do (optional_call (\<lambda>f. f (rx_task ctx) (rx_delivery ctx) it policy) (ap_onTimeout opts))
      (return_do (merge_decision it [(''status'', JStr status), (''decidedAt'', JStr at')]))"

definition decision_fields :: "bool \<Rightarrow> task_actor \<Rightarrow> iso_time \<Rightarrow> jsval \<Rightarrow> (string, jsval) jmap" where
  "decision_fields approved actor at' parsed =
    [(''status'', JStr (if approved then ''approved'' else ''rejected'')), (''actor'', js_of_actor actor),
     (''decidedAt'', JStr at'), (''note'', js_field parsed ''note''), (''payload'', parsed)]"

definition handle_resume ::
  "'c approval_options \<Rightarrow> (jsval \<Rightarrow> bool) \<Rightarrow> item \<Rightarrow> resume_context \<Rightarrow> (item, engine) engine_action" where
  "handle_resume opts approved it ctx =
    (case rx_decision ctx of
       TimedOut t \<Rightarrow> timeout_merged opts it ctx HaltOnTimeout ''timed-out'' t
     | AutoAccepted t \<Rightarrow> timeout_merged opts it ctx AutoAcceptOnTimeout ''auto-accepted'' t
     | Decided v actor t \<Rightarrow>
         then_do (lift_result (ap_parse opts v)) (\<lambda>parsed.
         after_do (optional_call (\<lambda>f. f parsed actor (rx_task ctx) (rx_delivery ctx) it) (ap_onDecision opts))
           (return_do (merge_decision it (decision_fields (approved parsed) actor t parsed)))))"

definition build_subject :: "string \<Rightarrow> item \<Rightarrow> workflow_id \<Rightarrow> node_id \<Rightarrow> jsval" where
  "build_subject title it w n =
    JObj [(''title'', JStr title), (''summary'', JStr []),
      (''attributes'', JObj [(''workflowId'', JStr w), (''nodeId'', JStr n), (''item'', it_json it)])]"

definition approval_request :: "'c approval_options \<Rightarrow> 'c \<Rightarrow> item \<Rightarrow> workflow_id \<Rightarrow> node_id \<Rightarrow> suspension_request" where
  "approval_request opts config it w n =
    \<lparr>sq_decisionSchema = ap_schema opts, sq_timeout = opt_or (ap_defaultTimeout opts) ''24h'',
     sq_onTimeout = opt_or (ap_defaultOnTimeout opts) HaltOnTimeout, sq_subject = build_subject (ap_title opts) it w n,
     sq_metadata = Some [(''channel'', JStr (ap_channel opts)), (''nodeKey'', JStr (ap_key opts)),
       (''approvedPredicateSource'', if ap_approvedPredicate opts = None then JNull else JStr (ap_predicateSource opts))],
     sq_deliver = (\<lambda>handle. ap_deliver opts config handle it)\<rparr>"

text \<open>Executing the node for an item: suspended the first time (the request is thrown), and answered once there is a
  decision.\<close>

datatype approval_outcome = ApprovalSuspends suspension_request | ApprovalReturns item

definition execute_approval ::
  "'c approval_options \<Rightarrow> (jsval \<Rightarrow> bool) \<Rightarrow> 'c \<Rightarrow> item \<Rightarrow> workflow_id \<Rightarrow> node_id \<Rightarrow> resume_context option
    \<Rightarrow> (approval_outcome, engine) engine_action" where
  "execute_approval opts approved config it w n resume =
    (case resume of
       None \<Rightarrow> return_do (ApprovalSuspends (approval_request opts config it w n))
     | Some ctx \<Rightarrow> then_do (handle_resume opts approved it ctx) (\<lambda>out. return_do (ApprovalReturns out)))"

section \<open>The inbox\<close>

text \<open>Arguments of a delivery: task, subject, priority, item and workspace.\<close>

record inbox_channel =
  ic_deliver :: "task_handle \<Rightarrow> jsval \<Rightarrow> string \<Rightarrow> item \<Rightarrow> string option \<Rightarrow> (jsval, engine) engine_action"
  ic_onDecision :: "(jsval \<Rightarrow> jsval \<Rightarrow> task_actor \<Rightarrow> (unit, engine) engine_action) option"
  ic_onTimeout :: "(jsval \<Rightarrow> on_timeout \<Rightarrow> (unit, engine) engine_action) option"

record inbox_env =
  ix_pairedWorkspace :: "string option"
  ix_local :: "inbox_channel option"
  ix_controlPlane :: "inbox_channel option"

definition resolve_inbox :: "inbox_env \<Rightarrow> js_error + inbox_channel \<times> string option" where
  "resolve_inbox env =
    (case (ix_pairedWorkspace env, ix_controlPlane env) of
       (Some w, Some cp) \<Rightarrow> Inr (cp, Some w)
     | _ \<Rightarrow>
         (case ix_local env of
            Some l \<Rightarrow> Inr (l, None)
          | None \<Rightarrow> Inl (plain_error (''InboxChannelResolver: no inbox channel is registered. '' @
              ''Register a LocalInboxChannel or ControlPlaneInboxChannel.''))))"

record inbox_config =
  xc_title :: "item \<Rightarrow> string"
  xc_body :: "item \<Rightarrow> string"
  xc_priority :: string
  xc_timeout :: string
  xc_onTimeout :: on_timeout

definition inbox_deliver ::
  "inbox_env option \<Rightarrow> workflow_id \<Rightarrow> inbox_config \<Rightarrow> task_handle \<Rightarrow> item \<Rightarrow> (jsval, engine) engine_action" where
  "inbox_deliver resolver w config task it =
    (case resolver of
       None \<Rightarrow> throw_do (plain_error ''inboxApproval: no InboxChannelResolver registered. Ensure the host DI container is wired.'')
     | Some env \<Rightarrow>
         then_do (lift_result (resolve_inbox env)) (\<lambda>(channel, workspaceId).
           ic_deliver channel task
             (JObj [(''title'', JStr (xc_title config it)), (''summary'', JStr (xc_body config it)),
                (''attributes'', JObj [(''workflowId'', JStr w), (''item'', it_json it)])])
             (xc_priority config) it workspaceId))"

definition inbox_notify ::
  "inbox_env option \<Rightarrow> (inbox_channel \<Rightarrow> (unit, engine) engine_action) \<Rightarrow> (unit, engine) engine_action" where
  "inbox_notify resolver call =
    (case resolver of
       None \<Rightarrow> return_do ()
     | Some env \<Rightarrow> then_do (lift_result (resolve_inbox env)) (\<lambda>(channel, _). call channel))"

definition inbox_approval ::
  "inbox_env option \<Rightarrow> workflow_id \<Rightarrow> jsval \<Rightarrow> (jsval \<Rightarrow> js_error + jsval) \<Rightarrow> inbox_config approval_options" where
  "inbox_approval resolver w schema parse =
    \<lparr>ap_key = ''inbox.approval'', ap_title = ''Inbox Approval'', ap_channel = ''inbox'', ap_schema = schema,
     ap_hasApproved = True, ap_parse = parse, ap_approvedPredicate = None, ap_predicateSource = [],
     ap_defaultTimeout = Some ''24h'', ap_defaultOnTimeout = Some HaltOnTimeout,
     ap_deliver = inbox_deliver resolver w,
     ap_onDecision = Some (\<lambda>decision actor task delivery it.
       inbox_notify resolver (\<lambda>ch. optional_call (\<lambda>f. f delivery decision actor) (ic_onDecision ch))),
     ap_onTimeout = Some (\<lambda>task delivery it policy.
       inbox_notify resolver (\<lambda>ch. optional_call (\<lambda>f. f delivery policy) (ic_onTimeout ch)))\<rparr>"

text \<open>The inbox of a local installation, and the one of a control plane reached by signed HTTP.\<close>

definition local_inbox :: inbox_channel where
  "local_inbox =
    \<lparr>ic_deliver = (\<lambda>task subject priority it w.
       return_do (JObj [(''kind'', JStr ''local''), (''inboxItemId'', JStr (th_taskId task))])),
     ic_onDecision = None, ic_onTimeout = None\<rparr>"

record http_reply =
  hr_ok :: bool
  hr_status :: nat
  hr_text :: string
  hr_json :: "js_error + jsval"

record control_plane =
  cl_url :: string
  cl_workspaceId :: string
  cl_post :: "string \<Rightarrow> jsval \<Rightarrow> (http_reply, engine) engine_action"
  cl_now :: clock

definition push_failed :: "http_reply \<Rightarrow> js_error" where
  "push_failed reply =
    plain_error (''ControlPlaneInboxChannel: CP push failed with status '' @ string_of_nat (hr_status reply) @ '': '' @ hr_text reply)"

definition pushed_task :: "control_plane \<Rightarrow> task_handle \<Rightarrow> jsval \<Rightarrow> string \<Rightarrow> item \<Rightarrow> jsval" where
  "pushed_task cp task subject priority it =
    JObj [(''taskId'', JStr (th_taskId task)), (''workspaceId'', JStr (cl_workspaceId cp)), (''runId'', JStr (th_runId task)),
      (''nodeId'', JStr (th_nodeId task)), (''subject'', subject), (''priority'', JStr priority),
      (''expiresAt'', JStr (th_expiresAt task)), (''resumeUrl'', JStr (th_resumeUrl task)),
      (''item'', JObj [(''json'', it_json it), (''hasBinary'', JBool (it_binary it \<noteq> None))]),
      (''agentReasoning'', opt_or (jget (opt_or (th_metadata task) []) ''agentReasoning'') JUndefined)]"

definition control_plane_deliver ::
  "control_plane \<Rightarrow> task_handle \<Rightarrow> jsval \<Rightarrow> string \<Rightarrow> item \<Rightarrow> string option \<Rightarrow> (jsval, engine) engine_action" where
  "control_plane_deliver cp task subject priority it w =
    then_do (cl_post cp (cl_url cp @ ''/internal/hitl/tasks'') (pushed_task cp task subject priority it)) (\<lambda>reply.
    after_do (assert_do (hr_ok reply) (push_failed reply))
    (then_do (lift_result (hr_json reply)) (\<lambda>json.
      return_do (JObj [(''kind'', JStr ''cp''), (''inboxItemId'', js_field json ''inboxItemId''),
        (''workspaceId'', JStr (cl_workspaceId cp))]))))"

definition resolved_url :: "control_plane \<Rightarrow> jsval \<Rightarrow> string" where
  "resolved_url cp delivery = cl_url cp @ ''/internal/hitl/tasks/'' @ js_string (js_field delivery ''inboxItemId'') @ ''/resolved''"

text \<open>A reply that is not ok is only logged.\<close>

definition control_plane_decided :: "control_plane \<Rightarrow> jsval \<Rightarrow> jsval \<Rightarrow> task_actor \<Rightarrow> (unit, engine) engine_action" where
  "control_plane_decided cp delivery decision actor =
    (if js_field delivery ''kind'' \<noteq> JStr ''cp'' then return_do ()
     else then_do (now_do (cl_now cp)) (\<lambda>now.
       then_do (cl_post cp (resolved_url cp delivery)
         (JObj [(''decision'', decision), (''actor'', js_of_actor actor), (''resolvedAt'', JStr now)])) (\<lambda>_. return_do ())))"

fun timeout_policy_text :: "on_timeout \<Rightarrow> string" where
  "timeout_policy_text HaltOnTimeout = ''halt''"
| "timeout_policy_text AutoAcceptOnTimeout = ''auto-accept''"

definition control_plane_timed_out :: "control_plane \<Rightarrow> jsval \<Rightarrow> on_timeout \<Rightarrow> (unit, engine) engine_action" where
  "control_plane_timed_out cp delivery policy =
    (if js_field delivery ''kind'' \<noteq> JStr ''cp'' then return_do ()
     else then_do (now_do (cl_now cp)) (\<lambda>now.
       then_do (cl_post cp (resolved_url cp delivery)
         (JObj [(''decision'', JObj [(''kind'', JStr ''timeout''), (''policy'', JStr (timeout_policy_text policy))]),
            (''resolvedAt'', JStr now)])) (\<lambda>_. return_do ())))"

definition control_plane_inbox :: "control_plane \<Rightarrow> inbox_channel" where
  "control_plane_inbox cp =
    \<lparr>ic_deliver = control_plane_deliver cp, ic_onDecision = Some (control_plane_decided cp),
     ic_onTimeout = Some (control_plane_timed_out cp)\<rparr>"

section \<open>The table of tasks\<close>

text \<open>A row of the table; JSON columns hold the values they are the text of.\<close>

record stored_task = human_task +
  tr_decision :: "jsval option"
  tr_decidedAt :: "iso_time option"
  tr_decidedBy :: "task_actor option"

definition row_of :: "human_task \<Rightarrow> stored_task" where
  "row_of t = human_task.extend t \<lparr>tr_decision = None, tr_decidedAt = None, tr_decidedBy = None\<rparr>"

record timeout_job =
  tj_taskId :: string
  tj_delayMs :: int

text \<open>The tasks by id, the queue of timeouts by job id (\<open>None\<close> without redis) and the engine.\<close>

record hitl_host =
  hh_tasks :: "(string, stored_task) jmap"
  hh_timeouts :: "(string, timeout_job) jmap option"
  hh_engine :: engine

datatype host_error = RequestError nat string | ServerError js_error

type_synonym 'a host_action = "(host_error, 'a, hitl_host) action"

record hitl_env =
  hv_continuation :: continuation_env
  hv_clock :: clock
  hv_hasStore :: bool
  hv_validate :: "string \<Rightarrow> jsval \<Rightarrow> js_error + string option"
  hv_signing :: signing_env
  hv_millis :: "iso_time \<Rightarrow> int"
  hv_pairedWorkspace :: string
  hv_duplicateRow :: js_error
  hv_missingRow :: js_error
  hv_removeError :: "string \<Rightarrow> hitl_host \<Rightarrow> js_error option"

definition on_engine :: "('a, engine) engine_action \<Rightarrow> 'a host_action" where
  "on_engine m H = (case m (hh_engine H) of (r, e) \<Rightarrow> (map_sum ServerError id r, H\<lparr>hh_engine := e\<rparr>))"

definition find_task :: "string \<Rightarrow> hitl_host \<Rightarrow> stored_task option" where
  "find_task taskId H = jget (hh_tasks H) taskId"

definition find_by_token_hash :: "string \<Rightarrow> hitl_host \<Rightarrow> stored_task option" where
  "find_by_token_hash h H = find (\<lambda>t. ht_resumeTokenHash t = h) (map snd (hh_tasks H))"

definition create_task :: "hitl_env \<Rightarrow> human_task \<Rightarrow> unit host_action" where
  "create_task env t =
    then_do (gets_do (find_task (ht_id t))) (\<lambda>found.
      if found \<noteq> None then throw_do (ServerError (hv_duplicateRow env))
      else update_do (\<lambda>H. H\<lparr>hh_tasks := jset (ht_id t) (row_of t) (hh_tasks H)\<rparr>))"

text \<open>\<open>update({where: {id}})\<close>: whatever the row's status.\<close>

definition update_task :: "hitl_env \<Rightarrow> string \<Rightarrow> (stored_task \<Rightarrow> stored_task) \<Rightarrow> unit host_action" where
  "update_task env taskId f =
    then_do (gets_do (find_task taskId)) (\<lambda>found.
      case found of
        None \<Rightarrow> throw_do (ServerError (hv_missingRow env))
      | Some t \<Rightarrow> update_do (\<lambda>H. H\<lparr>hh_tasks := jset taskId (f t) (hh_tasks H)\<rparr>))"

text \<open>An undefined decision leaves its column as it is.\<close>

definition decided_row :: "jsval \<Rightarrow> task_actor \<Rightarrow> iso_time \<Rightarrow> stored_task \<Rightarrow> stored_task" where
  "decided_row decision actor at' t =
    t\<lparr>ht_status := TaskDecided, tr_decision := (if decision = JUndefined then tr_decision t else Some decision),
      tr_decidedAt := Some at', tr_decidedBy := Some actor\<rparr>"

definition mark_decided :: "hitl_env \<Rightarrow> string \<Rightarrow> jsval \<Rightarrow> task_actor \<Rightarrow> iso_time \<Rightarrow> unit host_action" where
  "mark_decided env taskId decision actor at' = update_task env taskId (decided_row decision actor at')"

definition mark_timed_out :: "hitl_env \<Rightarrow> string \<Rightarrow> unit host_action" where
  "mark_timed_out env taskId = update_task env taskId (\<lambda>t. t\<lparr>ht_status := TaskTimedOut\<rparr>)"

definition mark_auto_accepted :: "hitl_env \<Rightarrow> string \<Rightarrow> unit host_action" where
  "mark_auto_accepted env taskId = update_task env taskId (\<lambda>t. t\<lparr>ht_status := TaskAutoAccepted\<rparr>)"

definition mark_cancelled :: "hitl_env \<Rightarrow> string \<Rightarrow> unit host_action" where
  "mark_cancelled env taskId = update_task env taskId (\<lambda>t. t\<lparr>ht_status := TaskCancelled\<rparr>)"

definition cancel_pending_for_run :: "run_id \<Rightarrow> unit host_action" where
  "cancel_pending_for_run r = update_do (\<lambda>H. H\<lparr>hh_tasks :=
    map (\<lambda>(k, t). (k, if ht_runId t = r \<and> ht_status t = TaskPending then t\<lparr>ht_status := TaskCancelled\<rparr> else t)) (hh_tasks H)\<rparr>)"

section \<open>The queue of timeouts\<close>

definition timeout_job_id :: "string \<Rightarrow> string" where
  "timeout_job_id taskId = ''hitl_timeout__'' @ taskId"

text \<open>The queue keeps the first job of an id.\<close>

definition enqueue_timeout_job :: "hitl_env \<Rightarrow> string \<Rightarrow> iso_time \<Rightarrow> unit host_action" where
  "enqueue_timeout_job env taskId expiresAt =
    then_do (gets_do hh_timeouts) (\<lambda>queue.
      case queue of
        None \<Rightarrow> return_do ()
      | Some jobs \<Rightarrow>
          then_do (on_engine (now_do (hv_clock env))) (\<lambda>now.
            let delay = max 0 (hv_millis env expiresAt - hv_millis env now)
            in if jhas jobs (timeout_job_id taskId) then return_do ()
               else update_do (\<lambda>H. H\<lparr>hh_timeouts := Some (jset (timeout_job_id taskId) \<lparr>tj_taskId = taskId, tj_delayMs = delay\<rparr> jobs)\<rparr>)))"

definition cancel_timeout_job :: "hitl_env \<Rightarrow> string \<Rightarrow> unit host_action" where
  "cancel_timeout_job env taskId =
    then_do (gets_do (\<lambda>H. (hh_timeouts H, hv_removeError env (timeout_job_id taskId) H))) (\<lambda>(queue, refused).
      case queue of
        None \<Rightarrow> return_do ()
      | Some jobs \<Rightarrow>
          if \<not> jhas jobs (timeout_job_id taskId) then return_do ()
          else (case refused of
              Some e \<Rightarrow> throw_do (ServerError e)
            | None \<Rightarrow> update_do (\<lambda>H. H\<lparr>hh_timeouts := Some (jremove (timeout_job_id taskId) jobs)\<rparr>)))"

section \<open>Resolving a task\<close>

fun task_status_text :: "task_status \<Rightarrow> string" where
  "task_status_text TaskPending = ''pending''"
| "task_status_text TaskDecided = ''decided''"
| "task_status_text TaskTimedOut = ''timed_out''"
| "task_status_text TaskAutoAccepted = ''auto_accepted''"
| "task_status_text TaskCancelled = ''cancelled''"

definition hitl_unavailable :: host_error where
  "hitl_unavailable = RequestError 503 ''HITL is not available in this configuration''"

definition task_not_found :: host_error where
  "task_not_found = RequestError 404 ''HumanTask not found''"

definition task_not_pending :: "task_status \<Rightarrow> host_error" where
  "task_not_pending s = RequestError 409 (''HumanTask is not pending (current status: '' @ task_status_text s @ '')'')"

text \<open>What the run is resumed with; the handle has neither a token nor the metadata of the task.\<close>

definition resume_context_of :: "stored_task \<Rightarrow> resume_decision \<Rightarrow> resume_context" where
  "resume_context_of t d =
    \<lparr>rx_decision = d, rx_delivery = (if ht_deliveryRef t = JUndefined then JNull else ht_deliveryRef t),
     rx_task = \<lparr>th_taskId = ht_id t, th_runId = ht_runId t, th_nodeId = ht_nodeId t, th_expiresAt = ht_expiresAt t,
       th_resumeUrl = [], th_metadata = None\<rparr>\<rparr>"

definition resume_task :: "hitl_env \<Rightarrow> stored_task \<Rightarrow> resume_decision \<Rightarrow> run_result host_action" where
  "resume_task env t d = on_engine (resume_run (hv_continuation env) (ht_runId t) (ht_id t) (resume_context_of t d))"

text \<open>The checks of a decision, and what follows them: the checks do not reserve the task.\<close>

definition check_decision :: "hitl_env \<Rightarrow> string \<Rightarrow> jsval \<Rightarrow> stored_task host_action" where
  "check_decision env taskId decision =
    after_do (assert_do (hv_hasStore env) hitl_unavailable)
    (then_do (gets_do (find_task taskId)) (\<lambda>found.
     then_do (expect_do found task_not_found) (\<lambda>t.
     after_do (assert_do (ht_status t = TaskPending) (task_not_pending (ht_status t)))
    (then_do (lift_result (map_sum ServerError id (hv_validate env (ht_decisionSchemaJson t) decision))) (\<lambda>invalid.
      case invalid of
        Some msg \<Rightarrow> throw_do (RequestError 422 (''Decision does not match the expected schema: '' @ msg))
      | None \<Rightarrow> return_do t)))))"

datatype decided_run = DecidedRunning | DecidedHalted

fun decided_status :: "run_result \<Rightarrow> decided_run" where
  "decided_status (ResFailed _ _) = DecidedHalted"
| "decided_status (ResHalted _ _) = DecidedHalted"
| "decided_status _ = DecidedRunning"

definition apply_decision :: "hitl_env \<Rightarrow> string \<Rightarrow> jsval \<Rightarrow> task_actor \<Rightarrow> stored_task \<Rightarrow> decided_run host_action" where
  "apply_decision env taskId decision actor t =
    then_do (on_engine (now_do (hv_clock env))) (\<lambda>decidedAt.
    after_do (mark_decided env taskId decision actor decidedAt)
    (after_do (cancel_timeout_job env taskId)
    (then_do (resume_task env t (Decided decision actor decidedAt)) (\<lambda>res.
      return_do (decided_status res)))))"

definition decide_task :: "hitl_env \<Rightarrow> string \<Rightarrow> jsval \<Rightarrow> task_actor \<Rightarrow> decided_run host_action" where
  "decide_task env taskId decision actor =
    then_do (check_decision env taskId decision) (apply_decision env taskId decision actor)"

text \<open>The agent looks for its checkpoint, cast from the value it is stored as, in the metadata of the task it is
  resumed with.\<close>

definition on_rejected_of :: "jsval \<Rightarrow> on_rejected" where
  "on_rejected_of v = (if v = JStr ''halt'' then HaltIfRejected else ReturnIfRejected)"

definition resume_agent ::
  "'w agent_env \<Rightarrow> jsval \<Rightarrow> message_args \<Rightarrow> (jsval \<Rightarrow> agent_checkpoint) \<Rightarrow> resume_context \<Rightarrow> (jsval, 'w) agent_action" where
  "resume_agent env input args cast ctx =
    (let metadata = opt_or (th_metadata (rx_task ctx)) []
     in execute_resumed env input args (map_option cast (jget metadata ''agentCheckpoint''))
          (on_rejected_of (opt_or (jget metadata ''onRejected'') JUndefined)) (rx_decision ctx))"

section \<open>Tokens, callbacks and timeouts\<close>

text \<open>The endpoint without a session: the token has to be of the task and of the schema the task still has.\<close>

definition validate_resume_token :: "hitl_env \<Rightarrow> string \<Rightarrow> string \<Rightarrow> string host_action" where
  "validate_resume_token env taskId token =
    then_do (on_engine (now_do (hv_clock env))) (\<lambda>now.
    then_do (lift_result (map_sum ServerError id (verify_token (hv_signing env) (hv_millis env now) token))) (\<lambda>checked.
    case checked of
      TokenRefused TokenExpired \<Rightarrow> throw_do (RequestError 410 ''Resume token has expired'')
    | TokenRefused _ \<Rightarrow> throw_do (RequestError 401 ''Invalid resume token'')
    | TokenOk tokenTask hash8 expiresAt \<Rightarrow>
        after_do (assert_do (tokenTask = taskId) (RequestError 401 ''Token taskId does not match''))
        (after_do (assert_do (hv_hasStore env) hitl_unavailable)
        (then_do (gets_do (find_task taskId)) (\<lambda>found.
         then_do (expect_do found task_not_found) (\<lambda>t.
         after_do (assert_do (take 8 (ht_decisionSchemaHash t) = hash8)
           (RequestError 410 ''Schema has changed since this token was issued''))
         (return_do hash8)))))))"

definition resume_by_token :: "hitl_env \<Rightarrow> string \<Rightarrow> string \<Rightarrow> jsval \<Rightarrow> decided_run host_action" where
  "resume_by_token env taskId token decision =
    then_do (validate_resume_token env taskId token) (\<lambda>_.
      decide_task env taskId decision \<lparr>ta_actorId = ''token-bearer'', ta_displayName = None\<rparr>)"

definition decide_by_session :: "hitl_env \<Rightarrow> string \<Rightarrow> jsval \<Rightarrow> task_actor option \<Rightarrow> decided_run host_action" where
  "decide_by_session env taskId decision decidedBy =
    decide_task env taskId decision (opt_or decidedBy \<lparr>ta_actorId = ''session-user'', ta_displayName = None\<rparr>)"

datatype callback_body = CallbackTimeout | CallbackDecision jsval "task_actor option"

datatype callback_reply = CallbackOk | CallbackRefused nat string

definition reply_of_error :: "host_error \<Rightarrow> callback_reply host_action" where
  "reply_of_error e =
    (case e of
       RequestError n msg \<Rightarrow> return_do (CallbackRefused n msg)
     | ServerError _ \<Rightarrow> throw_do e)"

definition handle_callback :: "hitl_env \<Rightarrow> string \<Rightarrow> callback_body \<Rightarrow> callback_reply host_action" where
  "handle_callback env taskId body =
    (if \<not> hv_hasStore env then reply_of_error hitl_unavailable
     else then_do (gets_do (find_task taskId)) (\<lambda>found.
       case found of
         None \<Rightarrow> reply_of_error task_not_found
       | Some t \<Rightarrow>
           if ht_workspaceId t \<noteq> None \<and> ht_workspaceId t \<noteq> Some (hv_pairedWorkspace env)
           then reply_of_error (RequestError 403 ''Workspace mismatch'')
           else if ht_status t \<noteq> TaskPending then reply_of_error (task_not_pending (ht_status t))
           else (case body of
               CallbackTimeout \<Rightarrow> after_do (mark_timed_out env taskId) (return_do CallbackOk)
             | CallbackDecision decision actor \<Rightarrow>
                 catch_do
                   (then_do (decide_task env taskId decision (opt_or actor \<lparr>ta_actorId = ''cp-reviewer'', ta_displayName = None\<rparr>))
                     (\<lambda>_. return_do CallbackOk))
                   reply_of_error)))"

definition process_timeout :: "hitl_env \<Rightarrow> string \<Rightarrow> unit host_action" where
  "process_timeout env taskId =
    then_do (gets_do (find_task taskId)) (\<lambda>found.
      case found of
        None \<Rightarrow> return_do ()
      | Some t \<Rightarrow>
          if ht_status t \<noteq> TaskPending then return_do ()
          else then_do (on_engine (now_do (hv_clock env))) (\<lambda>now.
            (case ht_onTimeout t of
               AutoAcceptOnTimeout \<Rightarrow>
                 after_do (mark_auto_accepted env taskId) (then_do (resume_task env t (AutoAccepted now)) (\<lambda>_. return_do ()))
             | HaltOnTimeout \<Rightarrow>
                 after_do (mark_timed_out env taskId) (then_do (resume_task env t (TimedOut now)) (\<lambda>_. return_do ())))))"

text \<open>The worker takes a job that is in the queue; finished or failed, the job is removed.\<close>

definition run_timeout_job :: "hitl_env \<Rightarrow> timeout_job \<Rightarrow> unit host_action" where
  "run_timeout_job env job H =
    (case process_timeout env (tj_taskId job) H of
       (r, H') \<Rightarrow> (r, H'\<lparr>hh_timeouts := map_option (jremove (timeout_job_id (tj_taskId job))) (hh_timeouts H')\<rparr>))"

section \<open>Histories\<close>

text \<open>One handler at a time; between them the engine does what it does.  \<open>markCancelled\<close> has no caller.\<close>

inductive hitl_step :: "hitl_env \<Rightarrow> hitl_host \<Rightarrow> hitl_host \<Rightarrow> bool" for env where
  step_created: "create_task env t H = (r, H') \<Longrightarrow> hitl_step env H H'"
| step_enqueued: "enqueue_timeout_job env i expiresAt H = (r, H') \<Longrightarrow> hitl_step env H H'"
| step_decided: "decide_task env i decision actor H = (r, H') \<Longrightarrow> hitl_step env H H'"
| step_by_token: "resume_by_token env i token decision H = (r, H') \<Longrightarrow> hitl_step env H H'"
| step_called_back: "handle_callback env i body H = (r, H') \<Longrightarrow> hitl_step env H H'"
| step_timed_out: "jobs = hh_timeouts H \<Longrightarrow> jobs \<noteq> None \<Longrightarrow> job \<in> set (map snd (the jobs)) \<Longrightarrow>
    run_timeout_job env job H = (r, H') \<Longrightarrow> hitl_step env H H'"
| step_cancelled: "cancel_pending_for_run run H = (r, H') \<Longrightarrow> hitl_step env H H'"
| step_engine: "hitl_step env H (H\<lparr>hh_engine := e\<rparr>)"

end
