(* ===== verification/HumanTaskFacts.thy ===== *)
theory HumanTaskFacts
  imports HumanTasks RunLifecycle
begin

text \<open>
  What the handlers of human tasks guarantee: a token is accepted only if it was signed, the token of a suspended task is
  accepted, a decision resumes the run, a task is resolved once in every history of whole handlers; and where they fall
  short: a decision or a timeout that is recorded without the run going on, and two handlers that overlap.
\<close>

section \<open>Tokens\<close>

lemma split_on_nonempty [simp]: "split_on c s \<noteq> []"
  by (induction s) (auto split: list.split)

lemma split_on_plain: "c \<notin> set s \<Longrightarrow> split_on c s = [s]"
  by (induction s) auto

lemma split_on_append: "c \<notin> set s \<Longrightarrow> split_on c (s @ c # t) = s # split_on c t"
  by (induction s) (auto split: list.split)

lemma split_on_join: "join_strings [c] (split_on c s) = s"
proof (induction s)
  case (Cons x xs)
  then show ?case
    by (cases "split_on c xs"; cases "tl (split_on c xs)") (auto split: list.split)
qed simp

lemma number_of_digits:
  assumes "ds \<noteq> []" "\<forall>c \<in> set ds. is_digit c"
  shows "read_decimal ds = Some (of_nat (digits_value ds))"
proof -
  have all: "takeWhile is_digit ds = ds" "dropWhile is_digit ds = []" using assms by auto
  show ?thesis unfolding read_decimal_def Let_def all using assms(1) by (simp add: read_exponent_def ten_to_def digits_value_def)
qed

lemma not_digit_dot [simp]: "\<not> is_digit (CHR ''.'')" "\<not> is_digit (CHR ''-'')" "\<not> is_digit (CHR ''+'')"
  "\<not> is_digit (CHR ''I'')" "\<not> is_digit (CHR ''x'')" "\<not> is_digit (CHR ''X'')" "\<not> is_digit (CHR ''o'')" "\<not> is_digit (CHR ''O'')"
  "\<not> is_digit (CHR ''b'')" "\<not> is_digit (CHR ''B'')"
  by (simp_all add: is_digit_def)

lemma digit_no_space: "is_digit c \<Longrightarrow> \<not> is_js_space c"
  by (auto simp: is_digit_def is_js_space_def)

lemma drop_while_none: "\<forall>c \<in> set s. \<not> P c \<Longrightarrow> dropWhile P s = s"
  by (cases s) auto

lemma trim_plain: "\<forall>c \<in> set s. \<not> is_js_space c \<Longrightarrow> js_trim s = s"
  unfolding js_trim_def by (simp add: drop_while_none)

lemma digits_not_radix: "\<forall>c \<in> set ds. is_digit c \<Longrightarrow> read_radix ds = None"
  unfolding read_radix_def by (auto split: list.split)

lemma number_of_signed_digits:
  assumes "ds \<noteq> []" "\<forall>c \<in> set ds. is_digit c"
  shows "to_number ds = finite_number (of_nat (digits_value ds))"
    and "to_number (CHR ''-'' # ds) = finite_number (- of_nat (digits_value ds))"
proof -
  have dec: "read_decimal ds = Some (of_nat (digits_value ds))" by (rule number_of_digits [OF assms])
  have inf: "ds \<noteq> ''Infinity''" using assms(2) by auto
  have no_sign: "read_sign ds = (False, ds)" using assms unfolding read_sign_def by (auto split: list.split)
  have trim: "js_trim ds = ds" "js_trim (CHR ''-'' # ds) = CHR ''-'' # ds"
    using assms(2) digit_no_space by (auto intro!: trim_plain simp: is_js_space_def)
  show "to_number ds = finite_number (of_nat (digits_value ds))"
    unfolding to_number_def Let_def trim using assms(1) inf by (simp add: digits_not_radix [OF assms(2)] no_sign dec)
  have sign: "read_sign (CHR ''-'' # ds) = (True, ds)" "read_radix (CHR ''-'' # ds) = None"
    by (simp_all add: read_sign_def read_radix_def split: list.split)
  show "to_number (CHR ''-'' # ds) = finite_number (- of_nat (digits_value ds))"
    unfolding to_number_def Let_def trim sign using inf by (simp add: dec)
qed

lemma number_of_string_of_int:
  assumes "\<bar>n\<bar> < 2 ^ 1024 - 2 ^ 970"
  shows "to_number (string_of_int n) = FiniteNumber (of_int n)"
proof -
  have "\<bar>of_int n :: rat\<bar> < of_int (2 ^ 1024 - 2 ^ 970)" using assms by (simp only: of_int_abs [symmetric] of_int_less_iff)
  also have "(of_int (2 ^ 1024 - 2 ^ 970) :: rat) = 2 ^ 1024 - 2 ^ 970" by (simp only: of_int_diff of_int_power of_int_numeral)
  finally have small: "finite_number (of_int n) = FiniteNumber (of_int n)"
    unfolding finite_number_def by (simp only: not_le [symmetric] if_False)
  have digits: "string_of_nat m \<noteq> []" "\<forall>c \<in> set (string_of_nat m). is_digit c" "digits_value (string_of_nat m) = m" for m
    using string_of_nat_digits by blast+
  show ?thesis
  proof (cases "n < 0")
    case True
    hence "- rat_of_nat (nat (- n)) = of_int n" by (simp add: of_nat_nat)
    thus ?thesis using number_of_signed_digits(2) [OF digits(1,2)] True small by (simp add: string_of_int_def digits(3))
  next
    case False
    hence "rat_of_nat (nat n) = of_int n" by (simp add: of_nat_nat)
    thus ?thesis using number_of_signed_digits(1) [OF digits(1,2)] False small by (simp add: string_of_int_def digits(3))
  qed
qed

lemma string_of_int_no_dot: "CHR ''.'' \<notin> set (string_of_int n)"
  using string_of_nat_digits [of "nat n"] string_of_nat_digits [of "nat (- n)"] by (auto simp: string_of_int_def)

lemma token_parts:
  assumes "CHR ''.'' \<notin> set i" "CHR ''.'' \<notin> set e" "CHR ''.'' \<notin> set h" "CHR ''.'' \<notin> set s"
  shows "split_on (CHR ''.'') (token_payload i e h @ ''.'' @ s) = [i, e, h, s]"
  using assms by (simp add: token_payload_def split_on_append split_on_plain)

definition plain_signatures :: "signing_env \<Rightarrow> bool" where
  "plain_signatures env = (\<forall>k p. CHR ''.'' \<notin> set (sg_hmac env k p))"

lemma verify_signed:
  assumes "signing_secret env = Some k" "plain_signatures env" "CHR ''.'' \<notin> set taskId" "CHR ''.'' \<notin> set hash8"
    and "0 \<le> ms" "ms \<le> 8640000000000000"
  shows "verify_token env nowMs (signed_with env k (token_payload taskId (string_of_int (ms div 1000)) hash8)) =
    Inr (if ms div 1000 * 1000 \<le> nowMs then TokenRefused TokenExpired
         else TokenOk taskId hash8 (Some (of_int (ms div 1000 * 1000))))"
proof -
  let ?s = "ms div 1000"
  have range: "0 \<le> ?s" "?s * 1000 \<le> 8640000000000000" using assms(5,6) by auto
  have parts: "split_on (CHR ''.'') (signed_with env k (token_payload taskId (string_of_int ?s) hash8))
      = [taskId, string_of_int ?s, hash8, sg_hmac env k (token_payload taskId (string_of_int ?s) hash8)]"
    unfolding signed_with_def by (rule token_parts) (use assms string_of_int_no_dot in \<open>auto simp: plain_signatures_def\<close>)
  have "?s < 2 ^ 54" using range by simp
  also have "(2::int) ^ 54 \<le> 2 ^ 1024 - 2 ^ 970" by simp
  finally have num: "to_number (string_of_int ?s) = FiniteNumber (of_int ?s)"
    using range by (intro number_of_string_of_int) simp
  have "(of_int ?s * 1000 :: rat) = of_int (?s * 1000)" by simp
  hence date: "date_of_ms (of_int ?s * 1000) = Some (of_int (?s * 1000))"
    using range unfolding date_of_ms_def by (simp del: of_int_mult flip: of_int_abs)
  show ?thesis unfolding verify_token_def parts
    by (simp add: num assms(1) require_secret_def date Let_def del: of_int_mult)
qed

section \<open>The handlers, step by step\<close>

lemma map_of_map_values: "map_of (map (\<lambda>(k, v). (k, f v)) m) k = map_option f (map_of m k)"
  by (induction m) auto

lemma find_updated [simp]: "find_task i (H\<lparr>hh_tasks := jset j t (hh_tasks H)\<rparr>) = (if i = j then Some t else find_task i H)"
  by (simp add: find_task_def)

lemma find_other [simp]:
  "find_task i (H\<lparr>hh_timeouts := q\<rparr>) = find_task i H" "find_task i (H\<lparr>hh_engine := e\<rparr>) = find_task i H"
  by (simp_all add: find_task_def)

lemma on_engine_keeps [keeps_intros]: "keeps (\<lambda>H. find_task i H = row) (on_engine m)"
  by (rule keepsI) (simp add: on_engine_def split: prod.split)

lemma update_other_keeps: "i \<noteq> j \<Longrightarrow> keeps (\<lambda>H. find_task i H = row) (update_task env j f)"
  unfolding update_task_def by (intro keeps_intros keeps_update) simp

lemma cancel_keeps [keeps_intros]: "keeps (\<lambda>H. find_task i H = row) (cancel_timeout_job env j)"
  unfolding cancel_timeout_job_def by (intro keeps_intros keeps_update) simp

lemma wp_on_engine [wp_simps]:
  "wp (on_engine m) Q H = wp m (\<lambda>r e. Q (map_sum ServerError id r) (H\<lparr>hh_engine := e\<rparr>)) (hh_engine H)"
  by (simp add: wp_def on_engine_def split: prod.split)

lemma check_decision_result:
  "check_decision env i d H =
    (if \<not> hv_hasStore env then Inl hitl_unavailable
     else case find_task i H of
         None \<Rightarrow> Inl task_not_found
       | Some t \<Rightarrow>
           if ht_status t \<noteq> TaskPending then Inl (task_not_pending (ht_status t))
           else (case hv_validate env (ht_decisionSchemaJson t) d of
               Inl e \<Rightarrow> Inl (ServerError e)
             | Inr (Some msg) \<Rightarrow> Inl (RequestError 422 (''Decision does not match the expected schema: '' @ msg))
             | Inr None \<Rightarrow> Inr t), H)"
  by (auto simp: check_decision_def then_do_def gets_do_def expect_do_def assert_do_def lift_result_def throw_do_def return_do_def
      split: option.split sum.split)

lemma decide_other_keeps:
  assumes "i \<noteq> j"
  shows "keeps (\<lambda>H. find_task i H = row) (decide_task env j d a)"
proof -
  have "keeps (\<lambda>H. find_task i H = row) (check_decision env j d)" by (simp add: keeps_def check_decision_result)
  moreover have "keeps (\<lambda>H. find_task i H = row) (apply_decision env j d a t)" for t
    unfolding apply_decision_def mark_decided_def resume_task_def by (intro keeps_intros update_other_keeps [OF assms])
  ultimately show ?thesis unfolding decide_task_def by (intro keeps_intros)
qed

lemma decide_resolved:
  assumes "find_task i H = Some t" "ht_status t \<noteq> TaskPending"
  shows "decide_task env i d a H = (Inl (if hv_hasStore env then task_not_pending (ht_status t) else hitl_unavailable), H)"
  using assms by (simp add: decide_task_def then_do_def check_decision_result)

lemma timeout_resolved:
  assumes "find_task i H = Some t" "ht_status t \<noteq> TaskPending"
  shows "process_timeout env i H = (Inr (), H)"
  using assms by (simp add: process_timeout_def then_do_def gets_do_def return_do_def)

lemma callback_resolved:
  assumes "find_task i H = Some t" "ht_status t \<noteq> TaskPending"
  shows "\<exists>n msg. handle_callback env i body H = (Inr (CallbackRefused n msg), H)"
  using assms
  by (simp add: handle_callback_def then_do_def gets_do_def reply_of_error_def hitl_unavailable_def task_not_pending_def return_do_def)

text \<open>A handler keeps the row of a task that is resolved.\<close>

lemma resolved_keepsI:
  assumes "i \<noteq> j \<Longrightarrow> keeps (\<lambda>H. find_task i H = Some t) m"
    and "\<And>H. find_task j H = Some t \<Longrightarrow> find_task j (snd (m H)) = Some t"
  shows "keeps (\<lambda>H. find_task i H = Some t) m"
  by (cases "i = j") (auto intro: assms(1) keepsI assms(2))

lemma decide_keeps: "ht_status t \<noteq> TaskPending \<Longrightarrow> keeps (\<lambda>H. find_task i H = Some t) (decide_task env j d a)"
  by (rule resolved_keepsI [where j = j]) (simp_all add: decide_other_keeps decide_resolved)

lemma timeout_keeps: "ht_status t \<noteq> TaskPending \<Longrightarrow> keeps (\<lambda>H. find_task i H = Some t) (process_timeout env j)"
proof (rule resolved_keepsI [where j = j])
  assume "i \<noteq> j"
  then show "keeps (\<lambda>H. find_task i H = Some t) (process_timeout env j)"
    unfolding process_timeout_def mark_auto_accepted_def mark_timed_out_def resume_task_def
    by (intro keeps_intros) (auto split: on_timeout.split intro!: keeps_intros update_other_keeps)
qed (simp add: timeout_resolved)

lemma callback_keeps: "ht_status t \<noteq> TaskPending \<Longrightarrow> keeps (\<lambda>H. find_task i H = Some t) (handle_callback env j body)"
proof (rule resolved_keepsI [where j = j])
  have reply: "keeps (\<lambda>H. find_task i H = Some t) (reply_of_error e)" for e
    unfolding reply_of_error_def by (auto split: host_error.split intro!: keeps_intros)
  assume "i \<noteq> j"
  then show "keeps (\<lambda>H. find_task i H = Some t) (handle_callback env j body)"
    unfolding handle_callback_def mark_timed_out_def
    by (intro keeps_intros reply) (auto split: callback_body.split intro!: keeps_intros reply update_other_keeps decide_other_keeps)
next
  fix H assume "ht_status t \<noteq> TaskPending" "find_task j H = Some t"
  then show "find_task j (snd (handle_callback env j body H)) = Some t" using callback_resolved [of j H t env body] by auto
qed

lemma by_token_keeps: "ht_status t \<noteq> TaskPending \<Longrightarrow> keeps (\<lambda>H. find_task i H = Some t) (resume_by_token env j tok d)"
  unfolding resume_by_token_def validate_resume_token_def
  by (intro keeps_intros decide_keeps) (auto split: token_check.split token_refusal.split intro!: keeps_intros)

lemma step_keeps_resolved:
  assumes "hitl_step env H H'" "find_task i H = Some t" "ht_status t \<noteq> TaskPending"
  shows "find_task i H' = Some t"
  using assms(1)
proof cases
  case (step_created t' r)
  then show ?thesis using assms(2)
    by (auto simp: create_task_def then_do_def gets_do_def throw_do_def update_do_def find_task_def split: if_splits)
next
  case (step_enqueued j at' r)
  have "keeps (\<lambda>H. find_task i H = Some t) (enqueue_timeout_job env j at')"
    unfolding enqueue_timeout_job_def by (intro keeps_intros keeps_update) simp
  from this assms(2) step_enqueued show ?thesis by (rule keeps_result)
next
  case (step_decided j d a r)
  from decide_keeps [OF assms(3)] assms(2) this show ?thesis by (rule keeps_result)
next
  case (step_by_token j tok d r)
  from by_token_keeps [OF assms(3)] assms(2) this show ?thesis by (rule keeps_result)
next
  case (step_called_back j body r)
  from callback_keeps [OF assms(3)] assms(2) this show ?thesis by (rule keeps_result)
next
  case (step_timed_out jobs job r)
  obtain r' H1 where run: "process_timeout env (tj_taskId job) H = (r', H1)" by fastforce
  have "find_task i H1 = Some t" using timeout_keeps [OF assms(3)] assms(2) run by (rule keeps_result)
  then show ?thesis using step_timed_out run by (auto simp: run_timeout_job_def)
next
  case (step_cancelled run r)
  then have "H' = H\<lparr>hh_tasks := map (\<lambda>(k, t). (k, if ht_runId t = run \<and> ht_status t = TaskPending
      then t\<lparr>ht_status := TaskCancelled\<rparr> else t)) (hh_tasks H)\<rparr>"
    by (simp add: cancel_pending_for_run_def update_do_def)
  then show ?thesis using assms(2,3) by (simp add: find_task_def map_of_map_values)
next
  case (step_engine e)
  then show ?thesis using assms(2) by simp
qed

lemma history_keeps_resolved:
  assumes "(hitl_step env)\<^sup>*\<^sup>* H H'" "find_task i H = Some t" "ht_status t \<noteq> TaskPending"
  shows "find_task i H' = Some t"
  using assms by (induction rule: rtranclp_induct) (auto intro: step_keeps_resolved)

section \<open>Resolving and resuming\<close>

definition removal :: "hitl_env \<Rightarrow> string \<Rightarrow> hitl_host \<Rightarrow> js_error + (string, timeout_job) jmap option" where
  "removal env i H =
    (case hh_timeouts H of
       None \<Rightarrow> Inr None
     | Some jobs \<Rightarrow>
         if \<not> jhas jobs (timeout_job_id i) then Inr (Some jobs)
         else (case hv_removeError env (timeout_job_id i) H of
             Some e \<Rightarrow> Inl e
           | None \<Rightarrow> Inr (Some (jremove (timeout_job_id i) jobs))))"

lemma cancel_eval:
  "cancel_timeout_job env i H =
    (case removal env i H of Inl e \<Rightarrow> (Inl (ServerError e), H) | Inr q \<Rightarrow> (Inr (), H\<lparr>hh_timeouts := q\<rparr>))"
  by (cases H) (auto simp: cancel_timeout_job_def removal_def then_do_def gets_do_def return_do_def throw_do_def update_do_def
      split: option.split)

text \<open>The host after a row has been changed at the time of the clock.\<close>

definition ticked :: "engine \<Rightarrow> engine" where
  "ticked e = e\<lparr>wo_clock := Suc (wo_clock e)\<rparr>"

definition now_of :: "hitl_env \<Rightarrow> hitl_host \<Rightarrow> iso_time" where
  "now_of env H = hv_clock env (wo_clock (hh_engine H))"

definition marked :: "string \<Rightarrow> stored_task \<Rightarrow> hitl_host \<Rightarrow> hitl_host" where
  "marked i t H = H\<lparr>hh_engine := ticked (hh_engine H), hh_tasks := jset i t (hh_tasks H)\<rparr>"

lemma ticked_sel [simp]: "wo_runs (ticked e) = wo_runs e" "load_run r (ticked e) = load_run r e"
  by (simp_all add: ticked_def load_run_def)

lemma marked_sel [simp]:
  "find_task j (marked i t H) = (if j = i then Some t else find_task j H)" "hh_engine (marked i t H) = ticked (hh_engine H)"
  "hh_timeouts (marked i t H) = hh_timeouts H"
  by (simp_all add: marked_def find_task_def)

definition resumed_by :: "hitl_env \<Rightarrow> stored_task \<Rightarrow> resume_decision \<Rightarrow> hitl_host \<Rightarrow> (js_error + run_result) \<times> engine" where
  "resumed_by env t d H = resume_run (hv_continuation env) (ht_runId t) (ht_id t) (resume_context_of t d) (hh_engine H)"

lemma resume_task_eval:
  "resume_task env t d H = (map_sum ServerError id (fst (resumed_by env t d H)), H\<lparr>hh_engine := snd (resumed_by env t d H)\<rparr>)"
  by (simp add: resume_task_def on_engine_def resumed_by_def split: prod.split)

lemma now_eval: "on_engine (now_do (hv_clock env)) H = (Inr (now_of env H), H\<lparr>hh_engine := ticked (hh_engine H)\<rparr>)"
  by (simp add: on_engine_def now_do_def now_of_def ticked_def)

lemma update_eval: "find_task i H = Some t \<Longrightarrow> update_task env i f H = (Inr (), H\<lparr>hh_tasks := jset i (f t) (hh_tasks H)\<rparr>)"
  by (simp add: update_task_def then_do_def gets_do_def update_do_def)

lemma map_sum_ends:
  "map_sum f g x = Inl y \<longleftrightarrow> (\<exists>e. x = Inl e \<and> y = f e)" "map_sum f g x = Inr z \<longleftrightarrow> (\<exists>v. x = Inr v \<and> z = g v)"
  by (cases x; auto)+

lemma apply_decision_eval:
  assumes "find_task i H = Some t'"
  shows "apply_decision env i d a t H =
    (let H1 = marked i (decided_row d a (now_of env H) t') H
     in case removal env i H1 of
          Inl e \<Rightarrow> (Inl (ServerError e), H1)
        | Inr q \<Rightarrow> (case resumed_by env t (Decided d a (now_of env H)) H1 of
              (r, e) \<Rightarrow> (map_sum ServerError decided_status r, H1\<lparr>hh_timeouts := q, hh_engine := e\<rparr>)))"
proof -
  have "find_task i (H\<lparr>hh_engine := ticked (hh_engine H)\<rparr>) = Some t'" using assms by simp
  note mark = update_eval [OF this]
  have same: "resumed_by env t x (H1\<lparr>hh_timeouts := q\<rparr>) = resumed_by env t x H1" for x H1 q
    by (simp add: resumed_by_def)
  show ?thesis
    unfolding apply_decision_def mark_decided_def then_do_Inr [OF now_eval]
    by (auto simp: then_do_def mark cancel_eval resume_task_eval marked_def Let_def return_do_def same map_sum_ends
        split: sum.split prod.split)
qed

lemma process_timeout_eval:
  assumes "find_task i H = Some t" "ht_status t = TaskPending"
  shows "process_timeout env i H =
    (let auto = (ht_onTimeout t = AutoAcceptOnTimeout);
         H1 = marked i (t\<lparr>ht_status := if auto then TaskAutoAccepted else TaskTimedOut\<rparr>) H
     in case resumed_by env t (if auto then AutoAccepted (now_of env H) else TimedOut (now_of env H)) H1 of
          (r, e) \<Rightarrow> (map_sum ServerError (\<lambda>_. ()) r, H1\<lparr>hh_engine := e\<rparr>))"
proof -
  have "find_task i (H\<lparr>hh_engine := ticked (hh_engine H)\<rparr>) = Some t" using assms by simp
  note mark = update_eval [OF this]
  have run: "process_timeout env i H = (case ht_onTimeout t of
      AutoAcceptOnTimeout \<Rightarrow> after_do (mark_auto_accepted env i) (then_do (resume_task env t (AutoAccepted (now_of env H))) (\<lambda>_. return_do ()))
    | HaltOnTimeout \<Rightarrow> after_do (mark_timed_out env i) (then_do (resume_task env t (TimedOut (now_of env H))) (\<lambda>_. return_do ())))
      (H\<lparr>hh_engine := ticked (hh_engine H)\<rparr>)"
    using assms by (simp add: process_timeout_def then_do_def gets_do_def now_eval split: on_timeout.split)
  show ?thesis
    unfolding run
    by (cases "ht_onTimeout t") (auto simp: mark_auto_accepted_def mark_timed_out_def mark then_do_def
        resume_task_eval marked_def Let_def return_do_def map_sum_ends split: sum.split prod.split)
qed

text \<open>What a handler that resumed the run did to it: the run was suspended on the task and now waits for the task's node,
  which is to get the decision.\<close>

definition resumes_run :: "stored_task \<Rightarrow> resume_decision \<Rightarrow> engine \<Rightarrow> engine \<Rightarrow> bool" where
  "resumes_run t d e e' =
    (\<exists>st entry u act pe. load_run (ht_runId t) e = Some st \<and> rs_status st = RunSuspended
      \<and> entry \<in> set (opt_or (rs_suspension st) []) \<and> se_taskId entry = ht_id t
      \<and> load_run (rs_runId st) e' = Some u \<and> rs_status u = RunPending
      \<and> rs_pending u = Some pe \<and> pe_activationId pe = act \<and> pe_nodeId pe = se_nodeId entry
      \<and> rs_pendingResume u = Some \<lparr>pu_activationId = act, pu_nodeId = se_nodeId entry, pu_resumeContext = resume_context_of t d\<rparr>
      \<and> (\<forall>r. r \<noteq> rs_runId st \<longrightarrow> load_run r e' = load_run r e))"

lemma resumed_by_effect:
  assumes "resumed_by env t d H = (Inr res, e')"
  shows "resumes_run t d (hh_engine H) e' \<and> decided_status res = DecidedRunning"
proof -
  from resume_run_effect [OF assms [unfolded resumed_by_def]] obtain st w entry u where
    "load_run (ht_runId t) (hh_engine H) = Some st" "rs_status st = RunSuspended" "entry \<in> set (opt_or (rs_suspension st) [])"
    "se_taskId entry = ht_id t" "load_run (rs_runId st) e' = Some u"
    "resumed_as (hv_continuation env) (hh_engine H) st w entry (resume_context_of t d) u" "result_fits res u"
    "\<forall>r. r \<noteq> rs_runId st \<longrightarrow> load_run r e' = load_run r (hh_engine H)" by blast
  moreover from this have "decided_status res = DecidedRunning" by (cases res) (auto simp: resumed_as_def)
  ultimately show ?thesis unfolding resumes_run_def resumed_as_def by blast
qed

lemma resumes_run_ticked [simp]: "resumes_run t d (ticked e) e' = resumes_run t d e e'"
  by (simp add: resumes_run_def)

lemma decide_cases:
  assumes "decide_task env i d a H = (r, H')"
  obtains (refused) "H' = H" "\<exists>e. r = Inl e"
  | (resolved) t where "find_task i H = Some t" "ht_status t = TaskPending" "hv_validate env (ht_decisionSchemaJson t) d = Inr None"
      "hv_hasStore env" "apply_decision env i d a t H = (r, H')"
  using assms unfolding decide_task_def then_do_def check_decision_result
  by (auto split: if_splits option.splits sum.splits)

text \<open>C17. When a decision is accepted, the task was pending and its value passed the schema; the task is stored as decided,
  with that value, by that person; the run, which was suspended on the task, waits for the task's node to run again with the
  decision; no other task and no other run changes.  The caller is told that the run is running, whatever was decided.\<close>

theorem decision_resumes_run:
  assumes "decide_task env i d a H = (Inr s, H')"
  shows "\<exists>t at'. find_task i H = Some t \<and> ht_status t = TaskPending \<and> hv_validate env (ht_decisionSchemaJson t) d = Inr None
    \<and> find_task i H' = Some (decided_row d a at' t) \<and> (\<forall>j. j \<noteq> i \<longrightarrow> find_task j H' = find_task j H)
    \<and> resumes_run t (Decided d a at') (hh_engine H) (hh_engine H') \<and> s = DecidedRunning"
  using assms
proof (cases rule: decide_cases)
  case (resolved t)
  let ?at = "now_of env H" and ?H1 = "marked i (decided_row d a (now_of env H) t) H"
  obtain q res e where q: "removal env i ?H1 = Inr q" "resumed_by env t (Decided d a ?at) ?H1 = (Inr res, e)"
    "H' = ?H1\<lparr>hh_timeouts := q, hh_engine := e\<rparr>" "s = decided_status res"
    using resolved(5) unfolding apply_decision_eval [OF resolved(1)] Let_def by (auto simp: map_sum_ends split: sum.splits prod.splits)
  from resumed_by_effect [OF q(2)] have "resumes_run t (Decided d a ?at) (hh_engine H) (hh_engine H')" "s = DecidedRunning"
    using q(3,4) by simp_all
  moreover have "find_task i H' = Some (decided_row d a ?at t)" "\<forall>j. j \<noteq> i \<longrightarrow> find_task j H' = find_task j H"
    using q(3) by simp_all
  ultimately show ?thesis using resolved(1-3) by blast
qed simp

text \<open>C16. In every history of whole handlers a task that has been resolved keeps its row: a later decision is a conflict, a
  later timeout does nothing and a later callback is refused, and none of them touches the engine or a run.\<close>

theorem tasks_resolved_once:
  assumes "(hitl_step env)\<^sup>*\<^sup>* H H'" "find_task i H = Some t" "ht_status t \<noteq> TaskPending"
  shows "find_task i H' = Some t
    \<and> decide_task env i d a H' = (Inl (if hv_hasStore env then task_not_pending (ht_status t) else hitl_unavailable), H')
    \<and> process_timeout env i H' = (Inr (), H')
    \<and> (\<exists>n msg. handle_callback env i body H' = (Inr (CallbackRefused n msg), H'))"
proof -
  note row = history_keeps_resolved [OF assms]
  show ?thesis
    using row decide_resolved [OF row assms(3)] timeout_resolved [OF row assms(3)] callback_resolved [OF row assms(3)] by blast
qed

text \<open>C18. When the control plane reports a timeout of a pending task, the task is stored as timed out but the run is not
  resumed; and from then on, whatever happens, no decision, timeout or callback about this task reaches the run.\<close>

theorem callback_timeout_strands_run:
  assumes "find_task i H = Some t" "ht_status t = TaskPending" "hv_hasStore env"
    and "ht_workspaceId t = None \<or> ht_workspaceId t = Some (hv_pairedWorkspace env)"
    and "handle_callback env i CallbackTimeout H = (r, H1)" "(hitl_step env)\<^sup>*\<^sup>* H1 H2"
  shows "r = Inr CallbackOk \<and> hh_engine H1 = hh_engine H \<and> find_task i H2 = Some (t\<lparr>ht_status := TaskTimedOut\<rparr>)
    \<and> decide_task env i d a H2 = (Inl (task_not_pending TaskTimedOut), H2) \<and> process_timeout env i H2 = (Inr (), H2)
    \<and> (\<exists>n msg. handle_callback env i body H2 = (Inr (CallbackRefused n msg), H2))"
proof -
  let ?t = "t\<lparr>ht_status := TaskTimedOut\<rparr>"
  have mark: "update_task env i (\<lambda>t. t\<lparr>ht_status := TaskTimedOut\<rparr>) H = (Inr (), H\<lparr>hh_tasks := jset i ?t (hh_tasks H)\<rparr>)"
    by (rule update_eval [OF assms(1)])
  hence "handle_callback env i CallbackTimeout H = (Inr CallbackOk, H\<lparr>hh_tasks := jset i ?t (hh_tasks H)\<rparr>)"
    using assms(1-4) by (auto simp: handle_callback_def then_do_def gets_do_def mark_timed_out_def return_do_def)
  with assms(5) have H1: "r = Inr CallbackOk" "H1 = H\<lparr>hh_tasks := jset i ?t (hh_tasks H)\<rparr>" by simp_all
  have resolved: "ht_status ?t \<noteq> TaskPending" by simp
  have row: "find_task i H2 = Some ?t"
    by (rule history_keeps_resolved [OF assms(6) _ resolved]) (simp add: H1(2))
  show ?thesis
    using H1 row decide_resolved [OF row resolved] timeout_resolved [OF row resolved] callback_resolved [OF row resolved] assms(3)
    by simp
qed

lemma not_suspended_throws:
  assumes "load_run (ht_runId t) (hh_engine H) = Some st" "rs_status st \<noteq> RunSuspended"
  shows "\<exists>e. resumed_by env t d H = (Inl e, hh_engine H)"
  using assms by (simp add: resumed_by_def resume_run_def then_do_def gets_do_def expect_do_def assert_do_def)

text \<open>A decision whose checks passed before the timeout of the task was processed, and which is recorded after it: the
  run goes on with the timeout, but the task is stored as decided; the second handler fails, not with a conflict, only
  when it resumes the run.\<close>

theorem overlapping_resolutions_disagree:
  assumes "check_decision env i d H = (Inr t, H)" "process_timeout env i H = (Inr (), H1)"
    and "\<forall>r st. load_run r (hh_engine H) = Some st \<longrightarrow> rs_runId st = r"
  shows "\<exists>e H2 u pr row at' k. apply_decision env i d a t H1 = (Inl (ServerError e), H2)
    \<and> find_task i H2 = Some row \<and> ht_status row = TaskDecided \<and> tr_decidedBy row = Some a
    \<and> load_run (ht_runId t) (hh_engine H2) = Some u \<and> rs_status u = RunPending \<and> rs_pendingResume u = Some pr
    \<and> pu_resumeContext pr = resume_context_of t k \<and> (k = TimedOut at' \<or> k = AutoAccepted at')"
proof -
  have t: "find_task i H = Some t" "ht_status t = TaskPending"
    using assms(1) by (auto simp: check_decision_result split: if_splits option.splits sum.splits)
  let ?auto = "ht_onTimeout t = AutoAcceptOnTimeout" and ?at = "now_of env H"
  let ?k = "if ?auto then AutoAccepted ?at else TimedOut ?at" and ?s = "if ?auto then TaskAutoAccepted else TaskTimedOut"
  obtain res e where run: "resumed_by env t ?k (marked i (t\<lparr>ht_status := ?s\<rparr>) H) = (Inr res, e)"
    "H1 = (marked i (t\<lparr>ht_status := ?s\<rparr>) H)\<lparr>hh_engine := e\<rparr>"
    using assms(2) unfolding process_timeout_eval [OF t] Let_def by (auto simp: map_sum_ends split: prod.splits)
  from resumed_by_effect [OF run(1)] have "resumes_run t ?k (hh_engine H) e" by simp
  then obtain u pr where u: "load_run (ht_runId t) e = Some u" "rs_status u = RunPending" "rs_pendingResume u = Some pr"
    "pu_resumeContext pr = resume_context_of t ?k"
    unfolding resumes_run_def using assms(3) by force
  have row: "find_task i H1 = Some (t\<lparr>ht_status := ?s\<rparr>)" using run(2) by simp
  let ?H2 = "marked i (decided_row d a (now_of env H1) (t\<lparr>ht_status := ?s\<rparr>)) H1"
  have e1: "hh_engine H1 = e" using run(2) by simp
  have "\<exists>err. resumed_by env t (Decided d a (now_of env H1)) ?H2 = (Inl err, hh_engine ?H2)"
    by (rule not_suspended_throws [of _ _ u]) (use u e1 in simp_all)
  then obtain err where err: "resumed_by env t (Decided d a (now_of env H1)) ?H2 = (Inl err, ticked e)" using e1 by auto
  obtain e2 H2 where fin: "apply_decision env i d a t H1 = (Inl (ServerError e2), H2)"
    and H2: "find_task i H2 = find_task i ?H2" "load_run (ht_runId t) (hh_engine H2) = Some u"
    unfolding apply_decision_eval [OF row] Let_def using err u(1) e1 by (cases "removal env i ?H2") auto
  have "find_task i H2 = Some (decided_row d a (now_of env H1) (t\<lparr>ht_status := ?s\<rparr>))" using H2(1) by simp
  moreover have "?k = TimedOut ?at \<or> ?k = AutoAccepted ?at" by simp
  ultimately show ?thesis
    using fin H2(2) u(2-4) unfolding decided_row_def by (intro exI conjI) (assumption | simp)+
qed

section \<open>Tokens of tasks\<close>

lemma validate_eval:
  "validate_resume_token env i token H =
    (case verify_token (hv_signing env) (hv_millis env (now_of env H)) token of
       Inl e \<Rightarrow> Inl (ServerError e)
     | Inr (TokenRefused r) \<Rightarrow>
         Inl (if r = TokenExpired then RequestError 410 ''Resume token has expired'' else RequestError 401 ''Invalid resume token'')
     | Inr (TokenOk j h x) \<Rightarrow>
         if j \<noteq> i then Inl (RequestError 401 ''Token taskId does not match'')
         else if \<not> hv_hasStore env then Inl hitl_unavailable
         else (case find_task i H of
             None \<Rightarrow> Inl task_not_found
           | Some t \<Rightarrow>
               if take 8 (ht_decisionSchemaHash t) \<noteq> h then Inl (RequestError 410 ''Schema has changed since this token was issued'')
               else Inr h),
     H\<lparr>hh_engine := ticked (hh_engine H)\<rparr>)"
  unfolding validate_resume_token_def then_do_Inr [OF now_eval]
  by (auto simp: then_do_def lift_result_def throw_do_def assert_do_def gets_do_def expect_do_def return_do_def
      split: sum.split token_check.split token_refusal.split option.split)

text \<open>C19. A token that the endpoint accepts for a task is the signature, under the secret of the installation, of that task
  and of the schema the task still has; accepting it changes no task.\<close>

theorem accepted_tokens_are_signed:
  assumes "validate_resume_token env i token H = (Inr h, H')"
  shows "\<exists>k exp t. signing_secret (hv_signing env) = Some k \<and> token = signed_with (hv_signing env) k (token_payload i exp h)
    \<and> find_task i H = Some t \<and> h = take 8 (ht_decisionSchemaHash t) \<and> hh_tasks H' = hh_tasks H"
proof -
  from assms obtain x t where ok: "verify_token (hv_signing env) (hv_millis env (now_of env H)) token = Inr (TokenOk i h x)"
    "find_task i H = Some t" "h = take 8 (ht_decisionSchemaHash t)" "hh_tasks H' = hh_tasks H"
    unfolding validate_eval by (auto split: sum.splits token_check.splits option.splits if_splits)
  then obtain exp sig where parts: "split_on (CHR ''.'') token = [i, exp, h, sig]"
    and k: "bind_result (require_secret (hv_signing env)) (\<lambda>k. if sg_hmac (hv_signing env) k (token_payload i exp h) \<noteq> sig
      then Inr (TokenRefused TokenBadSig) else Inr (TokenOk i h x)) = Inr (TokenOk i h x)"
    unfolding verify_token_def
    by (auto split: list.splits js_number.splits simp: bind_result_Inr_iff Let_def split: if_splits)
  from k obtain k' where "signing_secret (hv_signing env) = Some k'" "sg_hmac (hv_signing env) k' (token_payload i exp h) = sig"
    by (auto simp: require_secret_def bind_result_Inr_iff split: option.splits if_splits)
  moreover have "token = token_payload i exp h @ ''.'' @ sig"
    using split_on_join [of "CHR ''.''" token] unfolding parts by (simp add: token_payload_def)
  ultimately show ?thesis using ok(2-4) unfolding signed_with_def by blast
qed

text \<open>C29. The token that a suspended item hands to its channel is accepted by the endpoint for its own task, as long as the
  task is stored with its schema and until the second before it expires, and then refused as expired; for another task it
  is refused.\<close>

theorem suspended_token_accepted:
  assumes "signing_secret (hv_signing env) = Some k" "plain_signatures (hv_signing env)" "hv_hasStore env"
    and "sp_signer senv = Some (token_signer_with (hv_signing env) (hv_millis env) k)"
    and "resume_token senv i expiresAt (hash_schema senv (sq_decisionSchema sq)) = (token, tokenHash)"
    and "find_task i H = Some t"
    and "ht_decisionSchemaHash t = ht_decisionSchemaHash (human_task_of senv it sq i expiresAt tokenHash ref createdAt)"
    and "CHR ''.'' \<notin> set i" "CHR ''.'' \<notin> set (hash_schema senv (sq_decisionSchema sq))"
    and "0 \<le> hv_millis env expiresAt" "hv_millis env expiresAt \<le> 8640000000000000"
  shows "fst (validate_resume_token env i token H) =
      (if hv_millis env expiresAt div 1000 * 1000 \<le> hv_millis env (now_of env H)
       then Inl (RequestError 410 ''Resume token has expired'') else Inr (take 8 (ht_decisionSchemaHash t)))
    \<and> (j \<noteq> i \<longrightarrow> (\<exists>e. fst (validate_resume_token env j token H) = Inl e))"
proof -
  let ?h = "take 8 (hash_schema senv (sq_decisionSchema sq))"
  have token: "token = signed_with (hv_signing env) k (token_payload i (string_of_int (hv_millis env expiresAt div 1000)) ?h)"
    using assms(4,5) by (simp add: resume_token_def token_signer_with_def Let_def)
  have dot: "CHR ''.'' \<notin> set ?h" using assms(9) set_take_subset by fastforce
  note ver = verify_signed [OF assms(1,2,8) dot assms(10,11), folded token]
  have h: "take 8 (ht_decisionSchemaHash t) = ?h" using assms(7) by (simp add: human_task_of_def)
  show ?thesis unfolding validate_eval ver using assms(3,6) h by simp
qed

section \<open>Approval nodes and agents\<close>

lemma merged_decision_fields:
  assumes "it_json it = JObj m" "distinct (jkeys m)"
  shows "js_field (it_json (merge_decision it ds)) ''decision'' = JObj ds"
    and "k \<noteq> ''decision'' \<Longrightarrow> js_field (it_json (merge_decision it ds)) k = js_field (it_json it) k"
proof -
  have "jget (jspread [] m) k = jget m k" unfolding jget_jspread [OF assms(2)] by (cases "jget m k") simp_all
  then show "k \<noteq> ''decision'' \<Longrightarrow> js_field (it_json (merge_decision it ds)) k = js_field (it_json it) k"
    by (simp add: merge_decision_def assms(1))
qed (simp add: merge_decision_def)

lemma optional_call_cases: "then_do (optional_call c f) k e = (Inr x, e') \<Longrightarrow> \<exists>e1. k () e1 = (Inr x, e')"
  by (auto simp: then_do_def split: prod.splits sum.splits)

lemma resumed_output:
  assumes "handle_resume opts approved it ctx e = (Inr out, e')"
  shows "case rx_decision ctx of
      TimedOut t \<Rightarrow> out = merge_decision it [(''status'', JStr ''timed-out''), (''decidedAt'', JStr t)]
    | AutoAccepted t \<Rightarrow> out = merge_decision it [(''status'', JStr ''auto-accepted''), (''decidedAt'', JStr t)]
    | Decided v actor t \<Rightarrow> \<exists>p. ap_parse opts v = Inr p \<and> out = merge_decision it (decision_fields (approved p) actor t p)"
  using assms unfolding handle_resume_def timeout_merged_def
  by (auto simp: then_do_Inr_iff lift_result_def return_do_def split: resume_decision.splits)

text \<open>What an approval node returns for an item once its task is resolved: the item with its binary attachments and its
  other fields as they were and the decision in the field \<open>decision\<close>, overwriting one that was there; and the engine makes
  of it what was decided: an approval or an automatic acceptance lets the run go on, a rejection or a timeout halts it.\<close>

theorem approval_decides_run:
  assumes "execute_approval opts approved config it w n (Some ctx) e = (Inr answer, e')"
    and "it_json it = JObj m" "distinct (jkeys m)"
  shows "\<exists>out. answer = ApprovalReturns out \<and> it_binary out = it_binary it \<and> it_meta out = it_meta it
    \<and> (\<forall>k. k \<noteq> ''decision'' \<longrightarrow> js_field (it_json out) k = js_field (it_json it) k)
    \<and> resolve_hitl_status [(''main'', [out])] =
      (case rx_decision ctx of
         TimedOut _ \<Rightarrow> Some (HitlHalt NsHitlTimeout HitlTimeout)
       | AutoAccepted _ \<Rightarrow> Some (HitlContinue NsHitlAutoAccepted)
       | Decided v _ _ \<Rightarrow> (case ap_parse opts v of
             Inl _ \<Rightarrow> None
           | Inr p \<Rightarrow> Some (if approved p then HitlContinue NsHitlApproved else HitlHalt NsHitlRejected HitlRejected)))"
proof -
  from assms(1) obtain out where out: "answer = ApprovalReturns out" "handle_resume opts approved it ctx e = (Inr out, e')"
    unfolding execute_approval_def by (auto simp: then_do_Inr_iff return_do_def)
  note res = resumed_output [OF out(2)]
  have status: "resolve_hitl_status [(''main'', [merge_decision it ds])] = resolve_hitl_status [(''main'', [json_item (JObj [(''decision'', JObj ds)])])]" for ds
    using merged_decision_fields(1) [OF assms(2,3), of ds] by (simp add: resolve_hitl_status_def json_item_def)
  obtain ds where ds: "out = merge_decision it ds" using res by (auto split: resume_decision.splits)
  have "resolve_hitl_status [(''main'', [out])] = (case rx_decision ctx of
         TimedOut _ \<Rightarrow> Some (HitlHalt NsHitlTimeout HitlTimeout)
       | AutoAccepted _ \<Rightarrow> Some (HitlContinue NsHitlAutoAccepted)
       | Decided v _ _ \<Rightarrow> (case ap_parse opts v of
             Inl _ \<Rightarrow> None
           | Inr p \<Rightarrow> Some (if approved p then HitlContinue NsHitlApproved else HitlHalt NsHitlRejected HitlRejected)))"
    using res by (auto simp: status split: resume_decision.splits)
      (simp_all add: resolve_hitl_status_def json_item_def decision_fields_def)
  moreover have "it_binary out = it_binary it" "it_meta out = it_meta it" unfolding ds by (simp_all add: merge_decision_def)
  ultimately show ?thesis using out(1) merged_decision_fields(2) [OF assms(2,3)] unfolding ds by blast
qed

text \<open>C30. An agent that a human task suspended never goes on where it was: whatever was decided, and whatever checkpoint the
  stored task has, the handlers resume the run without the metadata of the task, and the agent starts again from its prompt.\<close>

theorem resumed_agent_starts_over:
  assumes "decide_task env i d a H = (Inr s, H') \<or> process_timeout env i H = (Inr (), H')"
    and "find_task i H = Some t" "ht_status t = TaskPending"
  shows "\<exists>u pr r. load_run r (hh_engine H') = Some u \<and> rs_pendingResume u = Some pr \<and> th_taskId (rx_task (pu_resumeContext pr)) = ht_id t
    \<and> (\<forall>(aenv :: 'w agent_env) input args cast. resume_agent aenv input args cast (pu_resumeContext pr) = execute_agent aenv input args)"
proof -
  have agent: "resume_agent aenv input args cast (resume_context_of t k) = execute_agent aenv input args"
    for k and aenv :: "'w agent_env" and input args cast
    by (simp add: resume_agent_def resume_context_of_def execute_resumed_def)
  have "\<exists>k. resumes_run t k (hh_engine H) (hh_engine H')"
    using assms(1)
  proof
    assume "decide_task env i d a H = (Inr s, H')"
    then show ?thesis
    proof (cases rule: decide_cases)
      case (resolved t')
      hence "t' = t" using assms(2) by simp
      then show ?thesis using resolved(5) unfolding apply_decision_eval [OF assms(2)] Let_def
        by (auto simp: map_sum_ends split: sum.splits prod.splits dest!: resumed_by_effect)
    qed simp
  next
    assume "process_timeout env i H = (Inr (), H')"
    then show ?thesis unfolding process_timeout_eval [OF assms(2,3)] Let_def
      by (auto simp: map_sum_ends split: prod.splits dest!: resumed_by_effect)
  qed
  then obtain k u pr r where "load_run r (hh_engine H') = Some u" "rs_pendingResume u = Some pr" "pu_resumeContext pr = resume_context_of t k"
    unfolding resumes_run_def by force
  moreover have "th_taskId (rx_task (resume_context_of t k)) = ht_id t" by (simp add: resume_context_of_def)
  ultimately show ?thesis using agent by (intro exI conjI allI) (assumption | simp)+
qed

section \<open>Witnesses\<close>

definition sample_env :: hitl_env where
  "sample_env =
    \<lparr>hv_continuation = sample_continuation sample_pair, hv_clock = (\<lambda>n. string_of_nat n), hv_hasStore = True,
     hv_validate = (\<lambda>_ _. Inr None),
     hv_signing = \<lparr>sg_authSecret = Some '' key '', sg_hmac = (\<lambda>k p. rev (filter is_digit (k @ p))), sg_sha256 = rev\<rparr>,
     hv_millis = (\<lambda>t. int (digits_value t)), hv_pairedWorkspace = ''ws'', hv_duplicateRow = plain_error ''duplicate'',
     hv_missingRow = plain_error ''missing'', hv_removeError = (\<lambda>_ _. None)\<rparr>"

definition sample_item_at :: suspended_item where
  "sample_item_at = \<lparr>si_runId = ''r'', si_nodeId = ''a'', si_activationId = ''act1'', si_itemIndex = 0, si_state = sample_run\<rparr>"

definition sample_request_for :: suspension_request where
  "sample_request_for =
    \<lparr>sq_decisionSchema = JStr ''schema'', sq_timeout = ''1h'', sq_onTimeout = HaltOnTimeout, sq_subject = JNull, sq_metadata = None,
     sq_deliver = (\<lambda>_. return_do JUndefined)\<rparr>"

definition sample_suspension_env :: suspension_env where
  "sample_suspension_env =
    \<lparr>sp_newTaskId = string_of_nat, sp_plusMs = (\<lambda>t _. t), sp_schemaJson = (\<lambda>_. ''schema''), sp_sha256 = (\<lambda>s. s @ s),
     sp_signer = Some (token_signer_with (hv_signing sample_env) (hv_millis sample_env) ''key''), sp_createTask = None,
     sp_enqueueTimeout = None, sp_workspaceId = Some ''ws''\<rparr>"

definition sample_row :: stored_task where
  "sample_row = row_of (human_task_of sample_suspension_env sample_item_at sample_request_for ''task'' ''9000'' ''hash'' JUndefined ''7'')"

definition sample_hitl :: hitl_host where
  "sample_hitl = \<lparr>hh_tasks = [(''task'', sample_row)], hh_timeouts = None, hh_engine = sample_host sample_suspended\<rparr>"

definition sample_reviewer :: task_actor where
  "sample_reviewer = \<lparr>ta_actorId = ''eve'', ta_displayName = None\<rparr>"

lemma sample_row_sel [simp]:
  "ht_id sample_row = ''task''" "ht_runId sample_row = ''r''" "ht_nodeId sample_row = ''a''" "ht_status sample_row = TaskPending"
  "ht_onTimeout sample_row = HaltOnTimeout" "ht_workspaceId sample_row = Some ''ws''"
  by (simp_all add: sample_row_def row_of_def human_task_of_def human_task.defs sample_item_at_def sample_request_for_def
      sample_suspension_env_def)

lemma sample_find [simp]: "find_task ''task'' sample_hitl = Some sample_row" "hh_engine sample_hitl = sample_host sample_suspended"
  "hh_timeouts sample_hitl = None"
  by (simp_all add: sample_hitl_def find_task_def)

lemma sample_env_sel [simp]:
  "hv_hasStore sample_env" "hv_validate sample_env s v = Inr None" "hv_pairedWorkspace sample_env = ''ws''"
  "hv_continuation sample_env = sample_continuation sample_pair"
  by (simp_all add: sample_env_def)

lemma sample_resumed_by: "\<exists>res e. resumed_by sample_env sample_row k (marked ''task'' row sample_hitl) = (Inr res, e)"
  using sample_resumes [of "resume_context_of sample_row k" "Suc (wo_clock (sample_host sample_suspended))"]
  by (simp add: resumed_by_def ticked_def)

lemma sample_checked: "check_decision sample_env ''task'' v sample_hitl = (Inr sample_row, sample_hitl)"
  by (simp add: check_decision_result)

lemma sample_decides: "\<exists>s H. decide_task sample_env ''task'' v a sample_hitl = (Inr s, H)"
  using sample_resumed_by [of "Decided v a (now_of sample_env sample_hitl)" "decided_row v a (now_of sample_env sample_hitl) sample_row"]
  by (auto simp: decide_task_def then_do_def sample_checked apply_decision_eval [OF sample_find(1)] Let_def removal_def)

lemma sample_times_out: "\<exists>H. process_timeout sample_env ''task'' sample_hitl = (Inr (), H)"
  using sample_resumed_by [of "TimedOut (now_of sample_env sample_hitl)" "sample_row\<lparr>ht_status := TaskTimedOut\<rparr>"]
  by (auto simp: process_timeout_eval [OF sample_find(1)] Let_def)

lemma decision_resumes_run_witness:
  "\<exists>H' at'. decide_task sample_env ''task'' (JBool True) sample_reviewer sample_hitl = (Inr DecidedRunning, H')
    \<and> resumes_run sample_row (Decided (JBool True) sample_reviewer at') (sample_host sample_suspended) (hh_engine H')"
proof -
  obtain s H' where run: "decide_task sample_env ''task'' (JBool True) sample_reviewer sample_hitl = (Inr s, H')"
    using sample_decides by blast
  from decision_resumes_run [OF this] run show ?thesis by auto
qed

lemma tasks_resolved_once_witness:
  "\<exists>H'. (hitl_step sample_env)\<^sup>*\<^sup>* sample_hitl H'
    \<and> decide_task sample_env ''task'' JNull sample_reviewer H' = (Inl (task_not_pending TaskDecided), H')"
proof -
  obtain s H' where run: "decide_task sample_env ''task'' (JBool True) sample_reviewer sample_hitl = (Inr s, H')"
    using sample_decides by blast
  hence step: "hitl_step sample_env sample_hitl H'" by (rule hitl_step.step_decided)
  obtain at' where "find_task ''task'' H' = Some (decided_row (JBool True) sample_reviewer at' sample_row)"
    using run by (cases rule: decide_cases)
      (auto simp: apply_decision_eval [OF sample_find(1)] Let_def removal_def split: prod.splits)
  from tasks_resolved_once [OF rtranclp.rtrancl_refl this] have
    "decide_task sample_env ''task'' JNull sample_reviewer H' = (Inl (task_not_pending TaskDecided), H')"
    by (simp add: decided_row_def)
  with step show ?thesis by blast
qed

lemma callback_timeout_strands_run_witness:
  "\<exists>H1. handle_callback sample_env ''task'' CallbackTimeout sample_hitl = (Inr CallbackOk, H1)
    \<and> hh_engine H1 = sample_host sample_suspended
    \<and> decide_task sample_env ''task'' JNull sample_reviewer H1 = (Inl (task_not_pending TaskTimedOut), H1)"
proof -
  obtain r H1 where run: "handle_callback sample_env ''task'' CallbackTimeout sample_hitl = (r, H1)" by fastforce
  have "ht_workspaceId sample_row = None \<or> ht_workspaceId sample_row = Some (hv_pairedWorkspace sample_env)" by simp
  from callback_timeout_strands_run [OF sample_find(1) sample_row_sel(4) sample_env_sel(1) this run rtranclp.rtrancl_refl] run
  show ?thesis by auto
qed

lemma overlapping_resolutions_disagree_witness:
  "\<exists>H1 e H2 row. process_timeout sample_env ''task'' sample_hitl = (Inr (), H1)
    \<and> apply_decision sample_env ''task'' JNull sample_reviewer sample_row H1 = (Inl (ServerError e), H2)
    \<and> find_task ''task'' H2 = Some row \<and> ht_status row = TaskDecided"
proof -
  obtain H1 where run: "process_timeout sample_env ''task'' sample_hitl = (Inr (), H1)" using sample_times_out by blast
  have id: "rs_runId sample_suspended = ''r''"
    by (simp add: sample_suspended_def sample_run_def initial_run_state_def sample_create_def)
  have "\<forall>r st. load_run r (hh_engine sample_hitl) = Some st \<longrightarrow> rs_runId st = r"
    using id by (simp add: load_run_def sample_host_def)
  from overlapping_resolutions_disagree [OF sample_checked run this] run show ?thesis by blast
qed

lemma sample_signs: "signing_secret (hv_signing sample_env) = Some ''key''" "plain_signatures (hv_signing sample_env)"
proof -
  have "js_trim '' key '' = ''key''" by code_simp
  thus "signing_secret (hv_signing sample_env) = Some ''key''" by (simp add: sample_env_def signing_secret_def)
  show "plain_signatures (hv_signing sample_env)" by (auto simp: plain_signatures_def sample_env_def)
qed

lemma sample_time: "now_of sample_env sample_hitl = string_of_nat (wo_clock (sample_host sample_suspended))"
  "hv_millis sample_env (now_of sample_env sample_hitl) = int (wo_clock (sample_host sample_suspended))"
  using string_of_nat_digits by (simp_all add: now_of_def sample_env_def)

lemma sample_clock: "wo_clock (sample_host sample_suspended) < 9000"
  by code_simp

definition sample_token :: string where
  "sample_token = fst (resume_token sample_suspension_env ''task'' ''9000'' (hash_schema sample_suspension_env (sq_decisionSchema sample_request_for)))"

lemma suspended_token_accepted_witness:
  "fst (validate_resume_token sample_env ''task'' sample_token sample_hitl) = Inr ''schemasc''
    \<and> (\<exists>e. fst (validate_resume_token sample_env ''other'' sample_token sample_hitl) = Inl e)"
proof -
  let ?h = "hash_schema sample_suspension_env (sq_decisionSchema sample_request_for)"
  have h: "?h = ''schemaschema''" by (simp add: hash_schema_def sample_suspension_env_def)
  obtain hash where tok: "resume_token sample_suspension_env ''task'' ''9000'' ?h = (sample_token, hash)"
    unfolding sample_token_def by (metis prod.collapse)
  have signer: "sp_signer sample_suspension_env = Some (token_signer_with (hv_signing sample_env) (hv_millis sample_env) ''key'')"
    by (simp add: sample_suspension_env_def)
  have row: "ht_decisionSchemaHash sample_row =
      ht_decisionSchemaHash (human_task_of sample_suspension_env sample_item_at sample_request_for ''task'' ''9000'' hash JUndefined ''7'')"
    by (simp add: sample_row_def row_of_def human_task_of_def human_task.defs)
  have millis: "hv_millis sample_env ''9000'' = 9000" by code_simp
  have dots: "CHR ''.'' \<notin> set ''task''" "CHR ''.'' \<notin> set ?h" by (simp_all add: h)
  have range: "0 \<le> hv_millis sample_env ''9000''" "hv_millis sample_env ''9000'' \<le> 8640000000000000" by (simp_all add: millis)
  have "ht_decisionSchemaHash sample_row = ''schemaschema''"
    using row h by (simp add: human_task_of_def)
  with suspended_token_accepted [OF sample_signs sample_env_sel(1) signer tok sample_find(1) row dots range, of "''other''"]
  show ?thesis using sample_clock by (simp add: millis sample_time(2))
qed

lemma accepted_tokens_are_signed_witness:
  "\<exists>H' t. validate_resume_token sample_env ''task'' (signed_with (hv_signing sample_env) ''key'' (token_payload ''task'' ''9'' ''schemasc'')) sample_hitl
      = (Inr ''schemasc'', H')
    \<and> find_task ''task'' sample_hitl = Some t \<and> take 8 (ht_decisionSchemaHash t) = ''schemasc'' \<and> hh_tasks H' = hh_tasks sample_hitl"
proof -
  let ?token = "signed_with (hv_signing sample_env) ''key'' (token_payload ''task'' ''9'' ''schemasc'')"
  have nine: "string_of_int (9000 div 1000) = ''9''" by code_simp
  have "verify_token (hv_signing sample_env) (hv_millis sample_env (now_of sample_env sample_hitl)) ?token
      = Inr (TokenOk ''task'' ''schemasc'' (Some (of_int (9000 div 1000 * 1000))))"
    using verify_signed [OF sample_signs, of "''task''" "''schemasc''" 9000] sample_clock unfolding nine sample_time(2) by simp
  moreover have "take 8 (ht_decisionSchemaHash sample_row) = ''schemasc''"
    by (simp add: sample_row_def row_of_def human_task.defs human_task_of_def hash_schema_def sample_suspension_env_def)
  ultimately have "fst (validate_resume_token sample_env ''task'' ?token sample_hitl) = Inr ''schemasc''"
    unfolding validate_eval by (simp add: sample_find sample_env_sel)
  then obtain H' where "validate_resume_token sample_env ''task'' ?token sample_hitl = (Inr ''schemasc'', H')"
    by (metis prod.collapse)
  with accepted_tokens_are_signed [OF this] show ?thesis by auto
qed

definition sample_inbox :: inbox_config where
  "sample_inbox =
    \<lparr>xc_title = (\<lambda>_. ''Approve''), xc_body = (\<lambda>_. ''?''), xc_priority = ''low'', xc_timeout = ''1h'', xc_onTimeout = AutoAcceptOnTimeout\<rparr>"

lemma approval_decides_run_witness:
  "\<exists>out e'. execute_approval (inbox_approval None ''wf'' JNull Inr) (\<lambda>d. js_field d ''approved'' = JBool True) sample_inbox
      (json_item (JObj [(''n'', JNum 1), (''decision'', JNull)])) ''wf'' ''a'' (Some sample_decision) sample_engine = (Inr (ApprovalReturns out), e')
    \<and> js_field (it_json out) ''n'' = JNum 1 \<and> resolve_hitl_status [(''main'', [out])] = Some (HitlContinue NsHitlAutoAccepted)"
proof -
  let ?opts = "inbox_approval None ''wf'' JNull Inr" and ?ok = "\<lambda>d. js_field d ''approved'' = JBool True"
  let ?m = "[(''n'', JNum 1), (''decision'', JNull)]"
  obtain out where run: "execute_approval ?opts ?ok sample_inbox (json_item (JObj ?m)) ''wf'' ''a'' (Some sample_decision) sample_engine
      = (Inr (ApprovalReturns out), sample_engine)"
    by (simp add: execute_approval_def handle_resume_def timeout_merged_def sample_decision_def optional_call_def inbox_approval_def
        inbox_notify_def then_do_def return_do_def)
  have m: "it_json (json_item (JObj ?m)) = JObj ?m" "distinct (jkeys ?m)" by (simp_all add: json_item_def)
  from approval_decides_run [OF run m] have res: "js_field (it_json out) ''n'' = js_field (JObj ?m) ''n''"
    "resolve_hitl_status [(''main'', [out])] = Some (HitlContinue NsHitlAutoAccepted)"
    by (auto simp: json_item_def sample_decision_def)
  show ?thesis using run res by auto
qed

lemma resumed_agent_starts_over_witness:
  "\<exists>H' u pr r. process_timeout sample_env ''task'' sample_hitl = (Inr (), H') \<and> load_run r (hh_engine H') = Some u
    \<and> rs_pendingResume u = Some pr
    \<and> (\<forall>(aenv :: 'w agent_env) input args cast. resume_agent aenv input args cast (pu_resumeContext pr) = execute_agent aenv input args)"
proof -
  obtain H' where run: "process_timeout sample_env ''task'' sample_hitl = (Inr (), H')" using sample_times_out by blast
  from resumed_agent_starts_over [OF disjI2 [OF this] sample_find(1) sample_row_sel(4)] run show ?thesis by blast
qed

end
