(* ===== verification/Pairing.thy ===== *)
theory Pairing
  imports HumanTaskFacts
begin

text \<open>
  \<open>host/src/pairing\<close>: the requests that an installation and its control plane exchange.  Each carries a time stamp, a nonce
  and a signature of the request under a shared secret; the receiver refuses old requests and, with a store of nonces,
  repeated ones.  Parameters: the HMAC and the hash, the parser of URLs, random numbers, the text of numbers that are not
  integers.  Times are milliseconds.
\<close>

section \<open>Signing\<close>

record pairing_config =
  pc_workspaceId :: string
  pc_pairingSecret :: string
  pc_controlPlaneUrl :: string

record pairing_env =
  px_hmac :: "string \<Rightarrow> string \<Rightarrow> string"
  px_sha256 :: "string \<Rightarrow> string"
  px_parseUrl :: "string \<Rightarrow> js_error + string \<times> string"
  px_decodedLength :: "string \<Rightarrow> nat"
  px_numberText :: "rat \<Rightarrow> string"

text \<open>Pairing is off when a variable is missing or empty.\<close>

definition nonempty_var :: "(string, string) jmap \<Rightarrow> string \<Rightarrow> string option" where
  "nonempty_var vars k = Option.bind (jget vars k) (\<lambda>v. if v = [] then None else Some v)"

definition create_pairing :: "pairing_env \<Rightarrow> (string, string) jmap \<Rightarrow> js_error + pairing_config option" where
  "create_pairing env vars =
    (case (nonempty_var vars ''WORKSPACE_ID'', nonempty_var vars ''WORKSPACE_PAIRING_SECRET'', nonempty_var vars ''CONTROL_PLANE_URL'') of
       (Some w, Some secret, Some url) \<Rightarrow>
         if px_decodedLength env secret \<noteq> 32
         then Inl (plain_error (''WORKSPACE_PAIRING_SECRET must be a base64-encoded 32-byte value (got '' @
           string_of_nat (px_decodedLength env secret) @ '' bytes). '' @ ''Generate a valid secret with: openssl rand -base64 32''))
         else Inr (Some \<lparr>pc_workspaceId = w, pc_pairingSecret = secret, pc_controlPlaneUrl = url\<rparr>)
     | _ \<Rightarrow> Inr None)"

definition upper_char :: "char \<Rightarrow> char" where
  "upper_char c = (let n = (of_char c :: nat) in if 97 \<le> n \<and> n \<le> 122 then char_of (n - 32) else c)"

definition signed_path :: "pairing_env \<Rightarrow> string \<Rightarrow> js_error + string" where
  "signed_path env url = map_sum id (\<lambda>(path, search). map lower_char (path @ search)) (px_parseUrl env url)"

definition base_string :: "pairing_env \<Rightarrow> string \<Rightarrow> string \<Rightarrow> string \<Rightarrow> string \<Rightarrow> string \<Rightarrow> string" where
  "base_string env method path ts nonce body =
    join_strings [CHR 0x0A] [map upper_char method, path, ts, nonce, px_sha256 env body]"

definition auth_prefix :: string where
  "auth_prefix = ''Codemation-Hmac ''"

definition auth_header :: "string \<Rightarrow> string \<Rightarrow> string \<Rightarrow> string \<Rightarrow> string" where
  "auth_header workspaceId ts nonce sig =
    auth_prefix @ ''v=1,workspaceId='' @ workspaceId @ '',ts='' @ ts @ '',nonce='' @ nonce @ '',sig='' @ sig"

definition sign_request ::
  "pairing_env \<Rightarrow> pairing_config option \<Rightarrow> int \<Rightarrow> string \<Rightarrow> string \<Rightarrow> string \<Rightarrow> string \<Rightarrow> js_error + string" where
  "sign_request env config nowMs nonce method url body =
    (case config of
       None \<Rightarrow> Inl (plain_error (''HmacRequestSigner.sign called without a registered PairingConfig '' @
         [char_of (226 :: nat), char_of (128 :: nat), char_of (148 :: nat)] @ '' workspace is not in managed mode.''))
     | Some c \<Rightarrow>
         let ts = string_of_int (nowMs div 1000)
         in bind_result (signed_path env url) (\<lambda>path.
              Inr (auth_header (pc_workspaceId c) ts nonce
                (px_hmac env (pc_pairingSecret c) (base_string env method path ts nonce body)))))"

section \<open>Nonces\<close>

text \<open>\<open>InMemoryHmacNonceStore\<close>: seconds of expiry by nonce.  Expired nonces go first.\<close>

type_synonym nonce_memory = "(string, int) jmap"

definition record_in_memory :: "int \<Rightarrow> string \<Rightarrow> int \<Rightarrow> nonce_memory \<Rightarrow> bool \<times> nonce_memory" where
  "record_in_memory nowMs nonce expiresMs store =
    (let kept = filter (\<lambda>(_, expiry). \<not> expiry \<le> nowMs div 1000) store
     in if jhas kept nonce then (False, kept) else (True, jset nonce (expiresMs div 1000) kept))"

text \<open>\<open>PrismaHmacNonceStore\<close>: milliseconds of expiry by nonce, which is unique.\<close>

type_synonym nonce_table = "(string, int) jmap"

definition record_in_table :: "int \<Rightarrow> string \<Rightarrow> int \<Rightarrow> nonce_table \<Rightarrow> bool \<times> nonce_table" where
  "record_in_table nowMs nonce expiresMs table =
    (let kept = filter (\<lambda>(_, expiry). \<not> expiry < nowMs) table
     in if jhas kept nonce then (False, kept) else (True, jset nonce expiresMs kept))"

section \<open>Verifying\<close>

record auth_fields =
  af_v :: string
  af_workspaceId :: string
  af_ts :: js_number
  af_nonce :: string
  af_sig :: string

definition header_field :: "string \<Rightarrow> (string \<times> string) option" where
  "header_field part =
    (let k = takeWhile (\<lambda>c. c \<noteq> CHR ''='') part
     in if k = part then None else Some (js_trim k, js_trim (drop (length k + 1) part)))"

definition header_fields :: "string \<Rightarrow> (string, string) jmap option" where
  "header_fields payload =
    fold (\<lambda>part m. Option.bind m (\<lambda>m. map_option (\<lambda>(k, v). jset k v m) (header_field part))) (split_on (CHR '','') payload) (Some [])"

definition parse_header :: "string \<Rightarrow> auth_fields option" where
  "parse_header header =
    Option.bind (header_fields (drop (length auth_prefix) header)) (\<lambda>fields.
      case (nonempty_var fields ''v'', nonempty_var fields ''workspaceId'', nonempty_var fields ''ts'',
            nonempty_var fields ''nonce'', nonempty_var fields ''sig'') of
        (Some v, Some w, Some ts, Some nonce, Some sig) \<Rightarrow>
          Some \<lparr>af_v = v, af_workspaceId = w, af_ts = to_number ts, af_nonce = nonce, af_sig = sig\<rparr>
      | _ \<Rightarrow> None)"

datatype pairing_failure = AuthMissing | AuthVersion | AuthExpired | AuthWorkspace | AuthSignature | AuthReplay

definition timestamp_window :: int where
  "timestamp_window = 300"

definition nonce_ttl :: int where
  "nonce_ttl = 600"

text \<open>\<open>Math.abs(nowSec - ts) > 300\<close>, which is false of a time stamp that is no number.\<close>

definition too_far :: "int \<Rightarrow> js_number \<Rightarrow> bool" where
  "too_far nowSec ts =
    (case ts of
       FiniteNumber t \<Rightarrow> of_int timestamp_window < \<bar>of_int nowSec - t\<bar>
     | InfiniteNumber \<Rightarrow> True
     | NotANumber \<Rightarrow> False)"

text \<open>The text of a number in a template; the texts of infinite numbers, which are refused before, do not matter.\<close>

definition number_text :: "pairing_env \<Rightarrow> js_number \<Rightarrow> string" where
  "number_text env x =
    (case x of
       FiniteNumber t \<Rightarrow> if t = of_int \<lfloor>t\<rfloor> \<and> \<bar>t\<bar> < 10 ^ 21 then string_of_int \<lfloor>t\<rfloor> else px_numberText env t
     | NotANumber \<Rightarrow> ''NaN''
     | InfiniteNumber \<Rightarrow> ''Infinity'')"

definition check_signature ::
  "pairing_env \<Rightarrow> pairing_config \<Rightarrow> string \<Rightarrow> string \<Rightarrow> string \<Rightarrow> auth_fields \<Rightarrow> js_error + bool" where
  "check_signature env c method url body parts =
    bind_result (signed_path env url) (\<lambda>path.
      Inr (px_hmac env (pc_pairingSecret c) (base_string env method path (number_text env (af_ts parts)) (af_nonce parts) body)
           = af_sig parts))"

text \<open>Everything before the nonce: the request is refused, or its fields are genuine.\<close>

definition authenticate ::
  "pairing_env \<Rightarrow> pairing_config option \<Rightarrow> int \<Rightarrow> string \<Rightarrow> string \<Rightarrow> string \<Rightarrow> string option \<Rightarrow> js_error + (pairing_failure + auth_fields)" where
  "authenticate env config nowMs method url body header =
    (case config of
       None \<Rightarrow> Inl (plain_error (''IncomingHmacVerifier.verify called without a registered PairingConfig '' @
         [char_of (226 :: nat), char_of (128 :: nat), char_of (148 :: nat)] @ '' workspace is not in managed mode.''))
     | Some c \<Rightarrow>
         if js_trim (pc_pairingSecret c) = []
         then Inl (plain_error (''IncomingHmacVerifier: pairingSecret is not configured '' @
           [char_of (226 :: nat), char_of (128 :: nat), char_of (148 :: nat)] @ '' cannot verify HMAC requests.''))
         else (case header of
           None \<Rightarrow> Inr (Inl AuthMissing)
         | Some h \<Rightarrow>
             if \<not> starts_with auth_prefix h then Inr (Inl AuthMissing)
             else (case parse_header h of
               None \<Rightarrow> Inr (Inl AuthMissing)
             | Some parts \<Rightarrow>
                 if af_v parts \<noteq> ''1'' then Inr (Inl AuthVersion)
                 else if too_far (nowMs div 1000) (af_ts parts) then Inr (Inl AuthExpired)
                 else if af_workspaceId parts \<noteq> pc_workspaceId c then Inr (Inl AuthWorkspace)
                 else bind_result (check_signature env c method url body parts) (\<lambda>genuine.
                   Inr (if genuine then Inr parts else Inl AuthSignature)))))"

definition nonce_key :: "auth_fields \<Rightarrow> string" where
  "nonce_key parts = af_workspaceId parts @ '':'' @ af_nonce parts"

definition nonce_expiry :: "int \<Rightarrow> int" where
  "nonce_expiry nowMs = (nowMs div 1000 + nonce_ttl) * 1000"

text \<open>\<open>storeMs\<close> is when the store of nonces looks at the clock.\<close>

definition verify_request ::
  "(int \<Rightarrow> string \<Rightarrow> int \<Rightarrow> 's \<Rightarrow> bool \<times> 's) \<Rightarrow> pairing_env \<Rightarrow> pairing_config option \<Rightarrow> int \<Rightarrow> int
    \<Rightarrow> string \<Rightarrow> string \<Rightarrow> string \<Rightarrow> string option \<Rightarrow> 's \<Rightarrow> (js_error + (pairing_failure + string)) \<times> 's" where
  "verify_request record_if_new env config nowMs storeMs method url body header s =
    (case authenticate env config nowMs method url body header of
       Inl e \<Rightarrow> (Inl e, s)
     | Inr (Inl failure) \<Rightarrow> (Inr (Inl failure), s)
     | Inr (Inr parts) \<Rightarrow>
         let (new, s') = record_if_new storeMs (nonce_key parts) (nonce_expiry nowMs) s
         in (Inr (if new then Inr (af_workspaceId parts) else Inl AuthReplay), s'))"

text \<open>The middleware: any failure is a 401; a GET or HEAD has no body.\<close>

definition admitted ::
  "(int \<Rightarrow> string \<Rightarrow> int \<Rightarrow> 's \<Rightarrow> bool \<times> 's) \<Rightarrow> pairing_env \<Rightarrow> pairing_config option \<Rightarrow> int \<Rightarrow> int
    \<Rightarrow> string \<Rightarrow> string \<Rightarrow> string \<Rightarrow> string option \<Rightarrow> 's \<Rightarrow> (js_error + bool) \<times> 's" where
  "admitted record_if_new env config nowMs storeMs method url body header s =
    (case verify_request record_if_new env config nowMs storeMs method url
        (if method = ''GET'' \<or> method = ''HEAD'' then [] else body) header s of
       (Inl e, s') \<Rightarrow> (Inl e, s')
     | (Inr (Inl _), s') \<Rightarrow> (Inr False, s')
     | (Inr (Inr _), s') \<Rightarrow> (Inr True, s'))"

section \<open>Genuine requests\<close>

lemma genuine_fields:
  assumes "authenticate env config nowMs method url body header = Inr (Inr parts)"
  shows "parse_header (the header) = Some parts"
  using assms
  by (auto simp: authenticate_def bind_result_Inr_iff split: option.splits if_splits)

lemma genuine_time:
  assumes "authenticate env config nowMs method url body header = Inr (Inr parts)"
  shows "\<not> too_far (nowMs div 1000) (af_ts parts)"
  using assms
  by (auto simp: authenticate_def bind_result_Inr_iff split: option.splits if_splits)

section \<open>Stores of nonces\<close>

text \<open>What the verifier relies on: a nonce is recorded until its second of expiry, stays recorded and is refused until then.\<close>

locale nonce_store =
  fixes record_if_new :: "int \<Rightarrow> string \<Rightarrow> int \<Rightarrow> 's \<Rightarrow> bool \<times> 's"
    and holds :: "'s \<Rightarrow> string \<Rightarrow> int \<Rightarrow> bool"
  assumes recorded: "record_if_new now k (e * 1000) s = (True, s') \<Longrightarrow> holds s' k e"
    and kept: "holds s k e \<Longrightarrow> now < e * 1000 \<Longrightarrow> holds (snd (record_if_new now k' x s)) k e"
    and refused: "holds s k e \<Longrightarrow> now < e * 1000 \<Longrightarrow> \<not> fst (record_if_new now k x s)"

text \<open>Requests one after another; the clock does not go back.\<close>

inductive verify_history ::
  "(int \<Rightarrow> string \<Rightarrow> int \<Rightarrow> 's \<Rightarrow> bool \<times> 's) \<Rightarrow> pairing_env \<Rightarrow> pairing_config option \<Rightarrow> int \<Rightarrow> 's \<Rightarrow> int \<Rightarrow> 's \<Rightarrow> bool"
  for record_if_new env config t s where
  history_start: "verify_history record_if_new env config t s t s"
| history_request: "verify_history record_if_new env config t s t1 s1 \<Longrightarrow> t1 \<le> nowMs \<Longrightarrow> nowMs \<le> storeMs \<Longrightarrow>
    verify_request record_if_new env config nowMs storeMs method url body header s1 = (r, s2) \<Longrightarrow>
    verify_history record_if_new env config t s storeMs s2"

context nonce_store begin

lemma request_keeps:
  assumes "verify_request record_if_new env config nowMs storeMs method url body header s = (r, s')"
    and "holds s k e" "storeMs < e * 1000"
  shows "holds s' k e"
  using assms kept [of s k e storeMs]
  by (auto simp: verify_request_def split: sum.splits prod.splits) (metis snd_conv)

lemma history_keeps:
  assumes "verify_history record_if_new env config t s t' s'" "holds s k e" "t' < e * 1000"
  shows "holds s' k e"
  using assms
proof (induction rule: verify_history.induct)
  case (history_request t1 s1 nowMs storeMs meth url body header r s2)
  then have "holds s1 k e" by simp
  then show ?case using request_keeps [OF history_request.hyps(4)] history_request.prems(2) by blast
qed

lemma accepted_recorded:
  assumes "verify_request record_if_new env config nowMs storeMs method url body header s = (Inr (Inr w), s')"
  shows "\<exists>parts. authenticate env config nowMs method url body header = Inr (Inr parts)
    \<and> record_if_new storeMs (nonce_key parts) (nonce_expiry nowMs) s = (True, s') \<and> w = af_workspaceId parts"
  using assms by (auto simp: verify_request_def split: sum.splits prod.splits if_splits)

lemma accepted_again:
  assumes "verify_request record_if_new env config now1 store1 m1 u1 b1 header s = (Inr (Inr w1), s1)"
    and "verify_history record_if_new env config store1 s1 t s2" "t \<le> store2"
    and "verify_request record_if_new env config now2 store2 m2 u2 b2 header s2 = (Inr (Inr w2), s3)"
  shows "nonce_expiry now1 \<le> store2"
proof (rule ccontr)
  assume early: "\<not> nonce_expiry now1 \<le> store2"
  obtain p1 where p1: "authenticate env config now1 m1 u1 b1 header = Inr (Inr p1)"
    "record_if_new store1 (nonce_key p1) (nonce_expiry now1) s = (True, s1)" using accepted_recorded [OF assms(1)] by blast
  obtain p2 where p2: "authenticate env config now2 m2 u2 b2 header = Inr (Inr p2)"
    "record_if_new store2 (nonce_key p2) (nonce_expiry now2) s2 = (True, s3)" using accepted_recorded [OF assms(4)] by blast
  have same: "p2 = p1" using genuine_fields [OF p1(1)] genuine_fields [OF p2(1)] by simp
  have "holds s1 (nonce_key p1) (now1 div 1000 + nonce_ttl)" using recorded p1(2) by (simp add: nonce_expiry_def)
  hence "holds s2 (nonce_key p1) (now1 div 1000 + nonce_ttl)"
    by (rule history_keeps [OF assms(2)]) (use assms(3) early in \<open>simp add: nonce_expiry_def\<close>)
  thus False using refused [of s2 "nonce_key p1" "now1 div 1000 + nonce_ttl" store2 "nonce_expiry now2"] early p2(2) same
    by (simp add: nonce_expiry_def)
qed

end

lemma map_of_filter_kept: "map_of m k = Some v \<Longrightarrow> P (k, v) \<Longrightarrow> map_of (filter P m) k = Some v"
  by (induction m) (auto split: if_splits)

definition has_nonce :: "(string, int) jmap \<Rightarrow> string \<Rightarrow> int \<Rightarrow> bool" where
  "has_nonce s k e = (jget s k = Some e)"

interpretation memory: nonce_store record_in_memory has_nonce
proof
  show "record_in_memory now k (e * 1000) s = (True, s') \<Longrightarrow> has_nonce s' k e" for now k e s s'
    by (auto simp: record_in_memory_def has_nonce_def Let_def split: if_splits)
next
  fix s k e now k' x
  assume h: "has_nonce s k e" "now < e * 1000"
  have live: "now div 1000 < e" using h(2) by linarith
  have get: "jget (filter (\<lambda>(_, expiry). \<not> expiry \<le> now div 1000) s) k = Some e"
    using h(1) live by (intro map_of_filter_kept) (auto simp: has_nonce_def)
  show "has_nonce (snd (record_in_memory now k' x s)) k e"
    using get by (auto simp: record_in_memory_def has_nonce_def Let_def jhas_def)
  show "\<not> fst (record_in_memory now k x s)" using get by (simp add: record_in_memory_def Let_def jhas_def)
qed

definition has_row :: "(string, int) jmap \<Rightarrow> string \<Rightarrow> int \<Rightarrow> bool" where
  "has_row s k e = (jget s k = Some (e * 1000))"

interpretation table: nonce_store record_in_table has_row
proof
  show "record_in_table now k (e * 1000) s = (True, s') \<Longrightarrow> has_row s' k e" for now k e s s'
    by (auto simp: record_in_table_def has_row_def Let_def split: if_splits)
next
  fix s k e now k' x
  assume h: "has_row s k e" "now < e * 1000"
  have get: "jget (filter (\<lambda>(_, expiry). \<not> expiry < now) s) k = Some (e * 1000)"
    using h by (intro map_of_filter_kept) (auto simp: has_row_def)
  show "has_row (snd (record_in_table now k' x s)) k e"
    using get by (auto simp: record_in_table_def has_row_def Let_def jhas_def)
  show "\<not> fst (record_in_table now k x s)" using get by (simp add: record_in_table_def Let_def jhas_def)
qed


section \<open>What is signed is accepted\<close>

lemma take_while_prefix: "x \<notin> set s \<Longrightarrow> takeWhile (\<lambda>c. c \<noteq> x) (s @ x # t) = s"
  by (induction s) auto

lemma field_of: "CHR ''='' \<notin> set k \<Longrightarrow> header_field (k @ CHR ''='' # v) = Some (js_trim k, js_trim v)"
  by (simp add: header_field_def take_while_prefix)

definition plain_field :: "string \<Rightarrow> bool" where
  "plain_field v = (v \<noteq> [] \<and> CHR '','' \<notin> set v \<and> (\<forall>c \<in> set v. \<not> is_js_space c))"

lemma parse_signed:
  assumes "plain_field w" "plain_field ts" "plain_field nonce" "plain_field sig"
  shows "parse_header (auth_header w ts nonce sig) =
    Some \<lparr>af_v = ''1'', af_workspaceId = w, af_ts = to_number ts, af_nonce = nonce, af_sig = sig\<rparr>"
proof -
  have parts: "split_on (CHR '','') (drop (length auth_prefix) (auth_header w ts nonce sig))
      = [''v=1'', ''workspaceId='' @ w, ''ts='' @ ts, ''nonce='' @ nonce, ''sig='' @ sig]"
    using assms by (simp add: auth_header_def auth_prefix_def plain_field_def split_on_append split_on_plain)
  have trims: "js_trim w = w" "js_trim ts = ts" "js_trim nonce = nonce" "js_trim sig = sig"
    using assms by (auto simp: plain_field_def intro: trim_plain)
  have keys: "js_trim ''v'' = ''v''" "js_trim ''1'' = ''1''" "js_trim ''workspaceId'' = ''workspaceId''" "js_trim ''ts'' = ''ts''"
    "js_trim ''nonce'' = ''nonce''" "js_trim ''sig'' = ''sig''" by code_simp+
  have fields: "header_field ''v=1'' = Some (''v'', ''1'')" "header_field (''workspaceId='' @ w) = Some (''workspaceId'', w)"
    "header_field (''ts='' @ ts) = Some (''ts'', ts)" "header_field (''nonce='' @ nonce) = Some (''nonce'', nonce)"
    "header_field (''sig='' @ sig) = Some (''sig'', sig)"
    using field_of [of "''v''" "''1''"] field_of [of "''workspaceId''" w] field_of [of "''ts''" ts] field_of [of "''nonce''" nonce]
      field_of [of "''sig''" sig] by (simp_all add: trims keys)
  have "header_fields (drop (length auth_prefix) (auth_header w ts nonce sig))
      = Some [(''v'', ''1''), (''workspaceId'', w), (''ts'', ts), (''nonce'', nonce), (''sig'', sig)]"
    unfolding header_fields_def parts using fields by simp
  thus ?thesis using assms by (simp add: parse_header_def nonempty_var_def plain_field_def)
qed

definition sample_pairing_env :: pairing_env where
  "sample_pairing_env =
    \<lparr>px_hmac = (\<lambda>k p. ''s'' @ k), px_sha256 = (\<lambda>s. s), px_parseUrl = (\<lambda>u. Inr (u, [])), px_decodedLength = length, px_numberText = (\<lambda>_. [])\<rparr>"

definition sample_pairing :: pairing_config where
  "sample_pairing = \<lparr>pc_workspaceId = ''ws'', pc_pairingSecret = ''key='', pc_controlPlaneUrl = ''cp''\<rparr>"

definition sample_header :: string where
  "sample_header = auth_header ''ws'' ''1300'' ''n=='' ''skey=''"

definition sample_parts :: auth_fields where
  "sample_parts = \<lparr>af_v = ''1'', af_workspaceId = ''ws'', af_ts = FiniteNumber 1300, af_nonce = ''n=='', af_sig = ''skey=''\<rparr>"

lemma sample_parsed: "parse_header sample_header = Some sample_parts"
proof -
  have plain: "plain_field ''ws''" "plain_field ''1300''" "plain_field ''n==''" "plain_field ''skey=''"
    by (simp_all add: plain_field_def is_js_space_def)
  have "to_number ''1300'' = finite_number (of_nat (digits_value ''1300''))"
    by (rule number_of_signed_digits) (simp_all add: is_digit_def)
  also have "\<dots> = FiniteNumber 1300" by (simp add: digits_value_def finite_number_code)
  finally show ?thesis by (simp add: sample_header_def parse_signed [OF plain] sample_parts_def)
qed

lemma sample_authentic:
  assumes "\<bar>now - 1300\<bar> \<le> 300"
  shows "authenticate sample_pairing_env (Some sample_pairing) (now * 1000) ''POST'' ''/x'' ''b'' (Some sample_header) = Inr (Inr sample_parts)"
proof -
  have "\<bar>of_int now - 1300 :: rat\<bar> = of_int \<bar>now - 1300\<bar>" by simp
  hence near: "\<not> too_far now (FiniteNumber 1300)"
    using assms unfolding too_far_def timestamp_window_def by (simp only: js_number.case of_int_less_iff)
  have prefix: "starts_with auth_prefix sample_header" by (simp add: sample_header_def auth_header_def starts_with_def)
  have secret: "js_trim (pc_pairingSecret sample_pairing) \<noteq> []" by (simp add: sample_pairing_def js_trim_def is_js_space_def)
  have sel: "af_v sample_parts = ''1''" "af_ts sample_parts = FiniteNumber 1300" "af_workspaceId sample_parts = pc_workspaceId sample_pairing"
    by (simp_all add: sample_parts_def sample_pairing_def)
  have "check_signature sample_pairing_env sample_pairing ''POST'' ''/x'' ''b'' sample_parts = Inr True"
    by (simp add: check_signature_def signed_path_def sample_pairing_env_def sample_pairing_def sample_parts_def)
  thus ?thesis by (simp add: authenticate_def prefix sample_parsed secret sel near)
qed

lemma sample_accepted:
  "verify_request record_in_memory sample_pairing_env (Some sample_pairing) 1000000 1000000 ''POST'' ''/x'' ''b'' (Some sample_header) []
    = (Inr (Inr ''ws''), [(''ws:n=='', 1600)])"
  "verify_request record_in_memory sample_pairing_env (Some sample_pairing) 1600000 1600000 ''POST'' ''/x'' ''b'' (Some sample_header)
      [(''ws:n=='', 1600)] = (Inr (Inr ''ws''), [(''ws:n=='', 2200)])"
  using sample_authentic [of 1000] sample_authentic [of 1600]
  by (simp_all add: verify_request_def record_in_memory_def nonce_key_def nonce_expiry_def nonce_ttl_def sample_parts_def jhas_def Let_def)


text \<open>C20. A request signed with the secret and workspace of a pairing is genuine to a receiver with the same pairing whose
  clock is within 300 seconds, for the same method, body and path, and for no time else.\<close>

theorem signed_request_genuine:
  assumes "sign_request env (Some c) sentMs nonce method url body = Inr header"
    and "plain_field (pc_workspaceId c)" "plain_field nonce" "\<forall>p. plain_field (px_hmac env (pc_pairingSecret c) p)"
    and "js_trim (pc_pairingSecret c) \<noteq> []" "0 \<le> sentMs" "sentMs < 10 ^ 18"
  shows "authenticate env (Some c) nowMs method url body (Some header) =
    Inr (if 300 < \<bar>nowMs div 1000 - sentMs div 1000\<bar> then Inl AuthExpired
         else Inr \<lparr>af_v = ''1'', af_workspaceId = pc_workspaceId c, af_ts = FiniteNumber (of_int (sentMs div 1000)), af_nonce = nonce,
           af_sig = px_hmac env (pc_pairingSecret c) (base_string env method (projr (signed_path env url)) (string_of_int (sentMs div 1000)) nonce body)\<rparr>)"
proof -
  let ?t = "sentMs div 1000"
  obtain path where path: "signed_path env url = Inr path"
    and header: "header = auth_header (pc_workspaceId c) (string_of_int ?t) nonce
        (px_hmac env (pc_pairingSecret c) (base_string env method path (string_of_int ?t) nonce body))"
    using assms(1) by (auto simp: sign_request_def Let_def bind_result_Inr_iff)
  have range: "0 \<le> ?t" "?t < 10 ^ 15" using assms(6,7) by auto
  have num: "to_number (string_of_int ?t) = FiniteNumber (of_int ?t)"
  proof (rule number_of_string_of_int)
    have "(10::int) ^ 15 \<le> 2 ^ 1024 - 2 ^ 970" by simp
    thus "\<bar>?t\<bar> < 2 ^ 1024 - 2 ^ 970" using range by linarith
  qed
  have "plain_field (string_of_int ?t)"
    using string_of_nat_digits [of "nat ?t"] range digit_no_space
    by (auto simp: plain_field_def string_of_int_def is_digit_def)
  from parse_signed [OF assms(2) this assms(3) assms(4) [rule_format]] num
  have parsed: "parse_header header = Some \<lparr>af_v = ''1'', af_workspaceId = pc_workspaceId c, af_ts = FiniteNumber (of_int ?t), af_nonce = nonce,
      af_sig = px_hmac env (pc_pairingSecret c) (base_string env method path (string_of_int ?t) nonce body)\<rparr>"
    unfolding header by simp
  have small: "\<bar>of_int ?t :: rat\<bar> < 10 ^ 21"
  proof -
    have "of_int ?t < (of_int (10 ^ 15) :: rat)" using range(2) by (simp only: of_int_less_iff)
    thus ?thesis using range(1) by simp
  qed
  hence shown: "number_text env (FiniteNumber (of_int ?t)) = string_of_int ?t" by (simp add: number_text_def)
  have far: "too_far (nowMs div 1000) (FiniteNumber (of_int ?t)) = (300 < \<bar>nowMs div 1000 - ?t\<bar>)"
  proof -
    have "\<bar>of_int (nowMs div 1000) - of_int ?t :: rat\<bar> = of_int \<bar>nowMs div 1000 - ?t\<bar>" by simp
    thus ?thesis unfolding too_far_def timestamp_window_def by (simp only: js_number.case of_int_less_iff)
  qed
  have prefix: "starts_with auth_prefix header" unfolding header by (simp add: auth_header_def starts_with_def)
  show ?thesis
    using assms(5) by (simp add: authenticate_def prefix parsed far check_signature_def path shown)
qed

lemma signed_request_genuine_witness:
  "\<exists>header. sign_request sample_pairing_env (Some sample_pairing) 1300000 ''n=='' ''POST'' ''/x'' ''b'' = Inr header
    \<and> is_ok (authenticate sample_pairing_env (Some sample_pairing) 1000000 ''POST'' ''/x'' ''b'' (Some header))"
proof -
  obtain header where h: "sign_request sample_pairing_env (Some sample_pairing) 1300000 ''n=='' ''POST'' ''/x'' ''b'' = Inr header"
    by (simp add: sign_request_def sample_pairing_env_def signed_path_def Let_def)
  have plain: "plain_field (pc_workspaceId sample_pairing)" "plain_field ''n==''" "js_trim (pc_pairingSecret sample_pairing) \<noteq> []"
    "\<forall>p. plain_field (px_hmac sample_pairing_env (pc_pairingSecret sample_pairing) p)"
    by (simp_all add: plain_field_def sample_pairing_def sample_pairing_env_def is_js_space_def js_trim_def)
  from signed_request_genuine [OF h plain(1,2,4,3), of 1000000] h show ?thesis by (auto simp: is_ok_def)
qed

end
