(* ===== verification/RunIntents.thy ===== *)
theory RunIntents
  imports RunStart Triggers Pairing
begin

text \<open>
  How runs are asked for from outside: the index of webhook endpoints
  (\<open>core/src/runtime/WorkflowRepositoryWebhookTriggerMatcher.ts\<close>), the intents of \<open>core/src/runtime/RunIntentService.ts\<close>, the
  parts of the facade \<open>orchestration/Engine.ts\<close> that the other theories do not have, and the commands of the host that
  start, replay or are sent by a webhook (\<open>host/src/application/commands\<close>).  The state is the engine, the triggers, the
  loaded workflows and the index.  Parameters: the functions of trigger configurations, the binary service, the parser of
  JSON, the stored debugger overlays, the check of credentials.  Copies made through JSON are the values themselves.
\<close>

section \<open>Webhook endpoints\<close>

record webhook_match =
  wm_endpointPath :: string
  wm_workflowId :: workflow_id
  wm_nodeId :: node_id
  wm_methods :: "jsval list"
  wm_parseJsonBody :: "(jsval \<Rightarrow> js_error + jsval) option"

record matcher =
  ma_routes :: "(string, webhook_match) jmap"
  ma_active :: bool
  ma_log :: "diagnostic list"

record matcher_env =
  me_isActive :: "workflow_id \<Rightarrow> bool"
  me_parseJsonBody :: "node_config \<Rightarrow> (jsval \<Rightarrow> js_error + jsval) option"

definition normalize_path :: "string \<Rightarrow> string" where
  "normalize_path p = js_trim p"

definition try_match :: "matcher_env \<Rightarrow> workflow \<Rightarrow> node_def \<Rightarrow> webhook_match option" where
  "try_match env w d =
    (if nd_kind d \<noteq> TriggerKind then None
     else (case (jget (nc_fields (nd_config d)) ''endpointKey'', jget (nc_fields (nd_config d)) ''methods'') of
         (Some (JStr key), Some (JArr methods)) \<Rightarrow>
           if key = [] \<or> methods = [] then None
           else Some \<lparr>wm_endpointPath = key, wm_workflowId = wf_id w, wm_nodeId = nd_id d, wm_methods = methods,
             wm_parseJsonBody = me_parseJsonBody env (nd_config d)\<rparr>
       | _ \<Rightarrow> None))"

definition collect_paths :: "matcher_env \<Rightarrow> workflow \<Rightarrow> string list" where
  "collect_paths env w = map wm_endpointPath (List.map_filter (try_match env w) (wf_nodes w))"

definition workflow_text :: "workflow \<Rightarrow> string" where
  "workflow_text w = ''Workflow '' @ quoted (wf_name w) @ '' ('' @ wf_id w @ '')''"

definition inactive_message :: "matcher_env \<Rightarrow> workflow \<Rightarrow> string" where
  "inactive_message env w =
    (let paths = collect_paths env w
     in if paths \<noteq> []
        then workflow_text w @ '' is inactive; webhook routes not registered: '' @ join_strings '', '' (map quoted paths)
        else workflow_text w @ '' is inactive; no repository webhook routes for its triggers (other trigger kinds are unchanged).'')"

definition duplicate_message :: "string \<Rightarrow> webhook_match \<Rightarrow> webhook_match \<Rightarrow> string" where
  "duplicate_message key old new =
    ''Duplicate webhook endpoint path '' @ quoted key @ '' (workflows '' @ quoted (wm_workflowId old) @ '' and ''
      @ quoted (wm_workflowId new) @ ''); using '' @ quoted (wm_workflowId new) @ ''.''"

definition add_log :: "diagnostic \<Rightarrow> matcher \<Rightarrow> matcher" where
  "add_log d m = m\<lparr>ma_log := ma_log m @ [d]\<rparr>"

definition add_route :: "webhook_match \<Rightarrow> matcher \<Rightarrow> matcher" where
  "add_route x m =
    (let key = normalize_path (wm_endpointPath x);
         m1 = (case jget (ma_routes m) key of
             None \<Rightarrow> m
           | Some old \<Rightarrow> add_log (WarnMessage (duplicate_message key old x)) m)
     in m1\<lparr>ma_routes := jset key x (ma_routes m1)\<rparr>)"

definition add_workflow_routes :: "matcher_env \<Rightarrow> workflow \<Rightarrow> matcher \<Rightarrow> matcher" where
  "add_workflow_routes env w m =
    (if \<not> me_isActive env (wf_id w)
     then if filter (\<lambda>n. nd_kind n = TriggerKind) (wf_nodes w) \<noteq> [] then add_log (InfoMessage (inactive_message env w)) m else m
     else fold (\<lambda>d m. case try_match env w d of None \<Rightarrow> m | Some x \<Rightarrow> add_route x m) (wf_nodes w) m)"

definition rebuild_routes :: "matcher_env \<Rightarrow> workflow list \<Rightarrow> matcher \<Rightarrow> matcher" where
  "rebuild_routes env ws m = fold (add_workflow_routes env) ws (m\<lparr>ma_routes := []\<rparr>)"

definition routes_loaded :: "matcher_env \<Rightarrow> workflow list \<Rightarrow> matcher \<Rightarrow> matcher" where
  "routes_loaded env ws m = rebuild_routes env ws (m\<lparr>ma_active := True\<rparr>)"

definition routes_stopped :: "matcher \<Rightarrow> matcher" where
  "routes_stopped m = m\<lparr>ma_active := False, ma_routes := []\<rparr>"

definition reload_routes :: "matcher_env \<Rightarrow> workflow list \<Rightarrow> matcher \<Rightarrow> matcher" where
  "reload_routes env ws m = (if \<not> ma_active m then m else rebuild_routes env ws m)"

definition lookup_route :: "matcher \<Rightarrow> string \<Rightarrow> webhook_match option" where
  "lookup_route m p = (if \<not> ma_active m then None else jget (ma_routes m) (normalize_path p))"

definition match_route :: "matcher \<Rightarrow> string \<Rightarrow> string \<Rightarrow> webhook_match option" where
  "match_route m p http =
    (case lookup_route m p of None \<Rightarrow> None | Some x \<Rightarrow> if JStr http \<in> set (wm_methods x) then Some x else None)"

datatype webhook_resolution = WebhookNotFound | WebhookMethodNotAllowed webhook_match | WebhookOk webhook_match

definition resolve_webhook_trigger :: "matcher \<Rightarrow> string \<Rightarrow> string \<Rightarrow> webhook_resolution" where
  "resolve_webhook_trigger m p http =
    (case lookup_route m p of
       None \<Rightarrow> WebhookNotFound
     | Some x \<Rightarrow> if JStr http \<notin> set (wm_methods x) then WebhookMethodNotAllowed x else WebhookOk x)"

section \<open>The facade\<close>

record gateway =
  gw_engine :: engine
  gw_triggers :: trigger_host
  gw_workflows :: "workflow list"
  gw_matcher :: matcher

record intent_env =
  iv_start :: start_env
  iv_triggers :: trigger_env
  iv_parseJsonBody :: "node_config \<Rightarrow> (jsval \<Rightarrow> js_error + jsval) option"

definition matcher_part :: "intent_env \<Rightarrow> matcher_env" where
  "matcher_part env = \<lparr>me_isActive = tv_isActive (iv_triggers env), me_parseJsonBody = iv_parseJsonBody env\<rparr>"

type_synonym 'a intent_action = "(js_error, 'a, gateway) action"

definition in_engine :: "('a, engine) engine_action \<Rightarrow> 'a intent_action" where
  "in_engine m G = (case m (gw_engine G) of (r, e) \<Rightarrow> (r, G\<lparr>gw_engine := e\<rparr>))"

definition in_triggers :: "'a trigger_action \<Rightarrow> 'a intent_action" where
  "in_triggers m G = (case m (gw_triggers G) of (r, h) \<Rightarrow> (r, G\<lparr>gw_triggers := h\<rparr>))"

text \<open>The services see the workflows that are loaded.\<close>

definition live_triggers :: "intent_env \<Rightarrow> gateway \<Rightarrow> trigger_env" where
  "live_triggers env G = (iv_triggers env)\<lparr>tv_workflows := gw_workflows G\<rparr>"

definition load_workflows :: "intent_env \<Rightarrow> workflow list \<Rightarrow> unit intent_action" where
  "load_workflows env ws =
    update_do (\<lambda>G. G\<lparr>gw_workflows := ws, gw_matcher := routes_loaded (matcher_part env) ws (gw_matcher G)\<rparr>)"

definition sync_for_activation :: "intent_env \<Rightarrow> workflow_id \<Rightarrow> unit intent_action" where
  "sync_for_activation env w =
    then_do (gets_do (live_triggers env)) (\<lambda>tv.
    after_do (in_triggers (sync_workflow_triggers tv w))
      (update_do (\<lambda>G. G\<lparr>gw_matcher := reload_routes (matcher_part env) (gw_workflows G) (gw_matcher G)\<rparr>)))"

definition stop_engine :: "intent_env \<Rightarrow> unit intent_action" where
  "stop_engine env =
    then_do (gets_do (live_triggers env)) (\<lambda>tv.
    after_do (in_triggers (stop_all_triggers tv)) (update_do (\<lambda>G. G\<lparr>gw_matcher := routes_stopped (gw_matcher G)\<rparr>)))"

definition start_engine :: "intent_env \<Rightarrow> workflow list \<Rightarrow> unit intent_action" where
  "start_engine env ws =
    after_do (stop_engine env)
    (after_do (load_workflows env ws)
    (then_do (gets_do (live_triggers env)) (\<lambda>tv. in_triggers (start_triggers tv))))"

definition trigger_test_items :: "intent_env \<Rightarrow> workflow \<Rightarrow> node_id \<Rightarrow> items option intent_action" where
  "trigger_test_items env w n = then_do (gets_do (live_triggers env)) (\<lambda>tv. in_triggers (create_trigger_test_items tv w n))"

section \<open>Intents\<close>

definition is_trigger_node :: "workflow \<Rightarrow> node_id \<Rightarrow> bool" where
  "is_trigger_node w n = (map_option nd_kind (find (\<lambda>d. nd_id d = n) (wf_nodes w)) = Some TriggerKind)"

definition first_trigger :: "workflow \<Rightarrow> node_id option" where
  "first_trigger w = map_option nd_id (find (\<lambda>d. nd_kind d = TriggerKind) (wf_nodes w))"

text \<open>\<open>WorkflowDefinition.ts\<close>: an empty id is falsy.\<close>

definition given :: "string option \<Rightarrow> string option" where
  "given x = Option.bind x (\<lambda>s. if s = [] then None else Some s)"

record start_intent =
  sw_workflow :: workflow
  sw_startAt :: "node_id option"
  sw_items :: items
  sw_synthesize :: bool
  sw_parent :: "parent_ref option"
  sw_options :: "execution_options option"
  sw_snapshot :: "workflow_snapshot option"
  sw_mutable :: "mutable_run_state option"
  sw_currentState :: "current_state option"
  sw_stop :: "stop_condition option"
  sw_reset :: "reset_request option"

record rerun_intent =
  rf_workflow :: workflow
  rf_nodeId :: node_id
  rf_currentState :: current_state
  rf_items :: "items option"
  rf_synthesize :: bool
  rf_parent :: "parent_ref option"
  rf_options :: "execution_options option"
  rf_snapshot :: "workflow_snapshot option"
  rf_mutable :: "mutable_run_state option"

definition stop_at_trigger :: "start_intent \<Rightarrow> node_id option" where
  "stop_at_trigger a =
    (case sw_stop a of
       Some (NodeCompletedStop n) \<Rightarrow> if is_trigger_node (sw_workflow a) n then Some n else None
     | _ \<Rightarrow> None)"

definition start_trigger_node :: "start_intent \<Rightarrow> node_id option" where
  "start_trigger_node a =
    (case stop_at_trigger a of
       Some n \<Rightarrow> Some n
     | None \<Rightarrow>
         if \<not> sw_synthesize a then None
         else (case given (sw_startAt a) of
             Some s \<Rightarrow> if is_trigger_node (sw_workflow a) s then Some s else first_trigger (sw_workflow a)
           | None \<Rightarrow> first_trigger (sw_workflow a)))"

definition rerun_trigger_node :: "rerun_intent \<Rightarrow> node_id option" where
  "rerun_trigger_node a =
    (if is_trigger_node (rf_workflow a) (rf_nodeId a) then Some (rf_nodeId a)
     else if \<not> rf_synthesize a then None
     else first_trigger (rf_workflow a))"

text \<open>An empty node id is falsy.\<close>

definition items_or_test_items :: "intent_env \<Rightarrow> workflow \<Rightarrow> items option \<Rightarrow> node_id option \<Rightarrow> items option intent_action" where
  "items_or_test_items env w its trigger =
    (if opt_or its [] \<noteq> [] then return_do its
     else (case given trigger of
         None \<Rightarrow> return_do its
       | Some n \<Rightarrow> then_do (trigger_test_items env w n) (\<lambda>made. return_do (opt_else made its))))"

definition start_request :: "start_intent \<Rightarrow> items option \<Rightarrow> current_state_request" where
  "start_request a its =
    \<lparr>cr_workflow = sw_workflow a, cr_items = its, cr_parent = sw_parent a, cr_executionOptions = sw_options a,
     cr_workflowSnapshot = sw_snapshot a, cr_mutableState = sw_mutable a, cr_currentState = sw_currentState a,
     cr_stopCondition = Some (opt_or (sw_stop a) WorkflowCompleted), cr_reset = sw_reset a\<rparr>"

definition start_workflow :: "intent_env \<Rightarrow> start_intent \<Rightarrow> run_result intent_action" where
  "start_workflow env a =
    then_do (items_or_test_items env (sw_workflow a) (Some (sw_items a)) (start_trigger_node a)) (\<lambda>its.
      let at_node = (if sw_currentState a = None \<and> sw_stop a = None \<and> sw_reset a = None then given (sw_startAt a) else None)
      in case at_node of
        Some n \<Rightarrow>
          in_engine (run_workflow (iv_start env) (sw_workflow a) n (opt_or its []) (sw_parent a) (sw_options a) (sw_snapshot a) (sw_mutable a))
      | None \<Rightarrow> in_engine (run_workflow_from_state (iv_start env) (start_request a its)))"

definition rerun_from_node :: "intent_env \<Rightarrow> rerun_intent \<Rightarrow> run_result intent_action" where
  "rerun_from_node env a =
    then_do (items_or_test_items env (rf_workflow a) (rf_items a) (rerun_trigger_node a)) (\<lambda>its.
      case its of
        Some given_items \<Rightarrow>
          in_engine (run_workflow (iv_start env) (rf_workflow a) (rf_nodeId a) given_items (rf_parent a) (rf_options a) (rf_snapshot a) (rf_mutable a))
      | None \<Rightarrow>
          in_engine (run_workflow_from_state (iv_start env)
            \<lparr>cr_workflow = rf_workflow a, cr_items = None, cr_parent = rf_parent a, cr_executionOptions = rf_options a,
             cr_workflowSnapshot = rf_snapshot a, cr_mutableState = rf_mutable a, cr_currentState = Some (rf_currentState a),
             cr_stopCondition = Some WorkflowCompleted, cr_reset = Some \<lparr>rr_clearFromNodeId = rf_nodeId a\<rparr>\<rparr>))"

section \<open>Webhooks\<close>

definition webhook_options :: execution_options where
  "webhook_options = empty_execution_options\<lparr>eo_localOnly := Some True, eo_webhook := Some True\<rparr>"

fun halt_reason_text :: "halt_reason \<Rightarrow> string" where
  "halt_reason_text HitlRejected = ''hitl-rejected''"
| "halt_reason_text HitlTimeout = ''hitl-timeout''"
| "halt_reason_text HitlCancelled = ''hitl-cancelled''"

text \<open>What the end of the run answers the request with.\<close>

fun answer_of_completion :: "run_result \<Rightarrow> js_error + webhook_result option" where
  "answer_of_completion (ResFailed h msg) = Inl (plain_error msg)"
| "answer_of_completion (ResHalted h reason) = Inl (plain_error (''Run halted: '' @ halt_reason_text reason))"
| "answer_of_completion (ResCompleted h outs) = Inr (Some \<lparr>wr_header = h, wr_runStatus = WhCompleted, wr_response = outs\<rparr>)"
| "answer_of_completion (ResPending h pe) = Inr None"

text \<open>\<open>None\<close>: the request waits, as \<open>who\<close>, for a node to respond or for the run to end, whichever comes first.\<close>

definition run_webhook_match :: "intent_env \<Rightarrow> nat \<Rightarrow> webhook_match \<Rightarrow> item \<Rightarrow> webhook_result option intent_action" where
  "run_webhook_match env who x it =
    then_do (gets_do (\<lambda>G. find (\<lambda>w. wf_id w = wm_workflowId x) (gw_workflows G))) (\<lambda>found.
    then_do (expect_do found (plain_error (''Unknown workflowId: '' @ wm_workflowId x))) (\<lambda>w.
    then_do (in_engine (run_workflow (iv_start env) w (wm_nodeId x) [it] None (Some webhook_options) None None)) (\<lambda>res.
      case res of
        ResFailed h msg \<Rightarrow> throw_do (plain_error msg)
      | ResCompleted h outs \<Rightarrow> return_do (Some \<lparr>wr_header = h, wr_runStatus = WhCompleted, wr_response = outs\<rparr>)
      | _ \<Rightarrow>
          let r = rh_runId (result_header res)
          in after_do (in_engine (update_do (wait_for_webhook_response_of r who)))
             (then_do (in_engine (wait_for_completion (cont_env (iv_start env)) r who)) (\<lambda>ended.
                case ended of None \<Rightarrow> return_do None | Some end_result \<Rightarrow> lift_result (answer_of_completion end_result))))))"

definition run_matched_webhook :: "intent_env \<Rightarrow> nat \<Rightarrow> string \<Rightarrow> string \<Rightarrow> item \<Rightarrow> webhook_result option intent_action" where
  "run_matched_webhook env who p http it =
    then_do (gets_do (\<lambda>G. resolve_webhook_trigger (gw_matcher G) p http)) (\<lambda>resolution.
      case resolution of
        WebhookNotFound \<Rightarrow> throw_do (plain_error ''Unknown webhook endpoint'')
      | WebhookMethodNotAllowed _ \<Rightarrow> throw_do (plain_error ''Method not allowed'')
      | WebhookOk x \<Rightarrow> run_webhook_match env who x it)"

section \<open>Webhook requests\<close>

text \<open>\<open>decodeURIComponent\<close>.  Escapes of bytes beyond ASCII are left to \<open>wide\<close>.\<close>

fun hex_escapes :: "string \<Rightarrow> nat option list" where
  "hex_escapes [] = []"
| "hex_escapes (c # s) =
    (if c = CHR ''%''
     then (case s of
         a # b # _ \<Rightarrow> (case (digit_in 16 a, digit_in 16 b) of (Some x, Some y) \<Rightarrow> Some (16 * x + y) | _ \<Rightarrow> None)
       | _ \<Rightarrow> None) # hex_escapes s
     else hex_escapes s)"

definition uri_malformed :: js_error where
  "uri_malformed =
    \<lparr>err_kind = PlainError, err_message = ''URI malformed'', err_name = ''URIError'', err_stack = None, err_details = None, err_nodeId = None\<rparr>"

fun decode_ascii :: "string \<Rightarrow> string" where
  "decode_ascii (p # a # b # s) =
    (if p = CHR ''%''
     then (case (digit_in 16 a, digit_in 16 b) of
         (Some x, Some y) \<Rightarrow> char_of (16 * x + y) # decode_ascii s
       | _ \<Rightarrow> p # decode_ascii (a # b # s))
     else p # decode_ascii (a # b # s))"
| "decode_ascii s = s"

definition decode_uri :: "(string \<Rightarrow> js_error + string) \<Rightarrow> string \<Rightarrow> js_error + string" where
  "decode_uri wide s =
    (if None \<in> set (hex_escapes s) then Inl uri_malformed
     else if list_ex (\<lambda>e. case e of Some n \<Rightarrow> 128 \<le> n | None \<Rightarrow> False) (hex_escapes s) then wide s
     else Inr (decode_ascii s))"

text \<open>A request as the handler reads it: the fields of a form are texts or files, a file as the attachment that the binary
  service makes of it.\<close>

datatype form_part = FormText string | FormFile "js_error + binary_attachment"

record http_request =
  hq_method :: string
  hq_url :: string
  hq_headers :: "(string \<times> string) list"
  hq_query :: "(string \<times> string) list"
  hq_body :: string
  hq_form :: "js_error + (string \<times> form_part) list"

record webhook_env = intent_env +
  iv_decodeWide :: "string \<Rightarrow> js_error + string"
  iv_parseJson :: "string \<Rightarrow> js_error + jsval"

definition string_fields :: "(string \<times> string) list \<Rightarrow> jsval" where
  "string_fields kvs = JObj (fold (\<lambda>(k, v) m. jset k (JStr v) m) kvs [])"

definition content_type :: "http_request \<Rightarrow> string" where
  "content_type q = map lower_char (opt_or (jget (hq_headers q) ''content-type'') [])"

text \<open>The body as parsed and as the trigger's own parser changes it; \<open>None\<close> when nothing is parsed.\<close>

definition parse_json_body ::
  "(string \<Rightarrow> js_error + jsval) \<Rightarrow> http_request \<Rightarrow> (jsval \<Rightarrow> js_error + jsval) option \<Rightarrow> js_error + (jsval \<times> jsval) option" where
  "parse_json_body parse q own =
    (if hq_body q = [] then Inr None
     else if own = None \<and> \<not> str_includes ''application/json'' (content_type q) then Inr None
     else bind_result (parse (hq_body q)) (\<lambda>raw.
       case own of
         None \<Rightarrow> Inr (Some (raw, raw))
       | Some f \<Rightarrow> bind_result (f raw) (\<lambda>v. Inr (Some (raw, v)))))"

definition request_fields :: "http_request \<Rightarrow> (string \<times> jsval) list \<Rightarrow> jsval" where
  "request_fields q extra =
    JObj ((''headers'', string_fields (hq_headers q)) # extra
      @ [(''method'', JStr (map upper_char (hq_method q))), (''url'', JStr (hq_url q)), (''query'', string_fields (hq_query q))])"

definition plain_request_item :: "(string \<Rightarrow> js_error + jsval) \<Rightarrow> http_request \<Rightarrow> webhook_match \<Rightarrow> js_error + item" where
  "plain_request_item parse q x =
    bind_result (parse_json_body parse q (wm_parseJsonBody x)) (\<lambda>parsed.
      let body = (case parsed of Some (raw, _) \<Rightarrow> Some raw | None \<Rightarrow> if hq_body q = [] then None else Some (JStr (hq_body q)));
          present = (\<lambda>k v. case v of Some u \<Rightarrow> if u = JUndefined then [] else [(k, u)] | None \<Rightarrow> [])
      in Inr (json_item (request_fields q (present ''body'' body @ present ''json'' (map_option snd parsed)))))"

definition add_part :: "string \<times> form_part \<Rightarrow> (string, jsval) jmap \<times> (string, binary_attachment) jmap
    \<Rightarrow> js_error + (string, jsval) jmap \<times> (string, binary_attachment) jmap" where
  "add_part kp acc =
    (case (kp, acc) of
       ((k, FormText v), (texts, files)) \<Rightarrow> Inr (jset k (JStr v) texts, files)
     | ((k, FormFile r), (texts, files)) \<Rightarrow> bind_result r (\<lambda>a. Inr (texts, jset k a files)))"

definition form_item :: "http_request \<Rightarrow> js_error + item" where
  "form_item q =
    bind_result (hq_form q) (\<lambda>parts.
    bind_result (fold_result add_part parts ([], [])) (\<lambda>(texts, files).
      Inr \<lparr>it_json = (case request_fields q [] of JObj m \<Rightarrow> JObj (m @ [(''formFields'', JObj texts)]) | v \<Rightarrow> v),
           it_binary = (if files = [] then None else Some files), it_meta = None, it_paired = None\<rparr>))"

definition request_item :: "(string \<Rightarrow> js_error + jsval) \<Rightarrow> http_request \<Rightarrow> webhook_match \<Rightarrow> js_error + item" where
  "request_item parse q x =
    (if str_includes ''multipart/form-data'' (content_type q) then form_item q else plain_request_item parse q x)"

text \<open>The command: the path, decoded by the route already, is decoded again; any error but its own is a bad request.\<close>

datatype invocation = InvocationAnswered jsval | InvocationWaits

type_synonym 'a command_action = "(host_error, 'a, gateway) action"

definition as_command :: "'a intent_action \<Rightarrow> 'a command_action" where
  "as_command m G = (case m G of (r, G') \<Rightarrow> (map_sum ServerError id r, G'))"

definition bad_request :: "host_error \<Rightarrow> 'a command_action" where
  "bad_request e =
    (case e of
       RequestError _ _ \<Rightarrow> throw_do e
     | ServerError err \<Rightarrow> throw_do (RequestError 400 (err_message err)))"

definition last_json :: "items \<Rightarrow> jsval" where
  "last_json its = (if its = [] then JNull else if it_json (last its) = JUndefined then JNull else it_json (last its))"

definition handle_webhook_invocation ::
  "webhook_env \<Rightarrow> nat \<Rightarrow> string \<Rightarrow> string \<Rightarrow> item \<Rightarrow> invocation command_action" where
  "handle_webhook_invocation env who endpointPath http it =
    catch_do
      (then_do (lift_result (map_sum ServerError id (decode_uri (iv_decodeWide env) endpointPath))) (\<lambda>p.
       then_do (gets_do (\<lambda>G. resolve_webhook_trigger (gw_matcher G) p (map upper_char http))) (\<lambda>resolution.
         case resolution of
           WebhookNotFound \<Rightarrow> throw_do (RequestError 404 ''Unknown webhook endpoint'')
         | WebhookMethodNotAllowed _ \<Rightarrow> throw_do (RequestError 405 ''Method not allowed'')
         | WebhookOk x \<Rightarrow>
             then_do (as_command (run_webhook_match (intent_env.truncate env) who x it)) (\<lambda>result.
               return_do (case result of
                   None \<Rightarrow> InvocationWaits
                 | Some r \<Rightarrow> InvocationAnswered (last_json (wr_response r)))))))
      bad_request"

text \<open>The route.  An error that is not the command's is answered with 500.\<close>

datatype webhook_reply = ReplyJson jsval | ReplyError nat string | ReplyLater

definition post_webhook :: "webhook_env \<Rightarrow> nat \<Rightarrow> string \<Rightarrow> http_request \<Rightarrow> webhook_reply command_action" where
  "post_webhook env who param q =
    catch_do
      (then_do (lift_result (map_sum ServerError id (decode_uri (iv_decodeWide env) param))) (\<lambda>p.
       then_do (gets_do (\<lambda>G. resolve_webhook_trigger (gw_matcher G) p (map upper_char (hq_method q)))) (\<lambda>resolution.
         case resolution of
           WebhookNotFound \<Rightarrow> return_do (ReplyError 404 ''Unknown webhook endpoint'')
         | WebhookMethodNotAllowed _ \<Rightarrow> return_do (ReplyError 405 ''Method not allowed'')
         | WebhookOk x \<Rightarrow>
             then_do (lift_result (map_sum ServerError id (request_item (iv_parseJson env) q x))) (\<lambda>it.
             then_do (handle_webhook_invocation env who p (map upper_char (hq_method q)) it) (\<lambda>result.
               return_do (case result of InvocationWaits \<Rightarrow> ReplyLater | InvocationAnswered v \<Rightarrow> ReplyJson v))))))
      (\<lambda>e. return_do (case e of RequestError n msg \<Rightarrow> ReplyError n msg | ServerError err \<Rightarrow> ReplyError 500 (err_message err)))"

section \<open>Starting and replaying on request\<close>

text \<open>\<open>ItemsInputNormalizer.ts\<close>: a value, an item or a list of either.\<close>

fun has_own_json :: "jsval \<Rightarrow> bool" where
  "has_own_json (JObj m) = jhas m ''json''"
| "has_own_json _ = False"

definition normalize_item :: "jsval \<Rightarrow> item" where
  "normalize_item raw = (if has_own_json raw then item_of_js raw else json_item raw)"

fun normalize_items :: "jsval \<Rightarrow> items" where
  "normalize_items JUndefined = []"
| "normalize_items JNull = []"
| "normalize_items (JArr xs) = map normalize_item xs"
| "normalize_items v = [normalize_item v]"

record debugger_overlay =
  ov_workflowId :: workflow_id
  ov_copiedFromRunId :: "run_id option"
  ov_currentState :: current_state

record create_run_request =
  bo_workflowId :: "string option"
  bo_items :: jsval
  bo_synthesize :: "bool option"
  bo_currentState :: "current_state option"
  bo_startAt :: "string option"
  bo_stopAt :: "string option"
  bo_clearFrom :: "string option"
  bo_mode :: "run_mode option"
  bo_sourceRunId :: "string option"

record command_env = intent_env +
  cv_definition :: "workflow_id \<Rightarrow> workflow option"
  cv_overlay :: "workflow_id \<Rightarrow> debugger_overlay option"
  cv_assertCredentials :: "workflow_id \<Rightarrow> host_error option"

abbreviation intents :: "command_env \<Rightarrow> intent_env" where
  "intents env \<equiv> intent_env.truncate env"

definition empty_current_state :: current_state where
  "empty_current_state =
    \<lparr>cu_outputsByNode = [], cu_nodeSnapshotsByNodeId = [], cu_connectionInvocations = Some [], cu_mutableState = Some \<lparr>mr_nodesById = []\<rparr>\<rparr>"

text \<open>\<open>WorkflowDebuggerOverlayStateFactory.cloneCurrentState\<close>.\<close>

definition clone_overlay_state :: "current_state option \<Rightarrow> current_state" where
  "clone_overlay_state cur =
    (case cur of
       None \<Rightarrow> empty_current_state
     | Some c \<Rightarrow> c\<lparr>cu_mutableState := Some (opt_or (cu_mutableState c) \<lparr>mr_nodesById = []\<rparr>)\<rparr>)"

definition state_of_run :: "run_state \<Rightarrow> current_state" where
  "state_of_run st =
    \<lparr>cu_outputsByNode = rs_outputsByNode st, cu_nodeSnapshotsByNodeId = rs_nodeSnapshotsByNodeId st, cu_connectionInvocations = None,
     cu_mutableState = rs_mutableState st\<rparr>"

definition requested_state ::
  "workflow_id \<Rightarrow> current_state option \<Rightarrow> run_state option \<Rightarrow> debugger_overlay option \<Rightarrow> current_state" where
  "requested_state w requested source overlay =
    (case requested of
       Some c \<Rightarrow> clone_overlay_state (Some c)
     | None \<Rightarrow>
         let base = (case source of Some st \<Rightarrow> state_of_run st | None \<Rightarrow> clone_overlay_state (map_option ov_currentState overlay))
         in (case (source, overlay) of
               (Some _, Some ov) \<Rightarrow>
                 if ov_workflowId ov \<noteq> w then base else base\<lparr>cu_mutableState := cu_mutableState (ov_currentState ov)\<rparr>
             | _ \<Rightarrow> base))"

definition reusable_state :: "current_state \<Rightarrow> bool" where
  "reusable_state c =
    (cu_outputsByNode c \<noteq> [] \<or> cu_nodeSnapshotsByNodeId c \<noteq> [] \<or> mr_nodesById (opt_or (cu_mutableState c) \<lparr>mr_nodesById = []\<rparr>) \<noteq> [])"

definition has_output_items :: "node_outputs option \<Rightarrow> bool" where
  "has_output_items outs = list_ex (\<lambda>(_, its). its \<noteq> []) (opt_or outs [])"

definition has_trigger_data :: "workflow \<Rightarrow> current_state \<Rightarrow> bool" where
  "has_trigger_data w c =
    list_ex (\<lambda>d. nd_kind d = TriggerKind \<and>
      (has_output_items (jget (cu_outputsByNode c) (nd_id d))
       \<or> has_output_items (Option.bind (Option.bind (cu_mutableState c) (\<lambda>m. jget (mr_nodesById m) (nd_id d))) mn_pinnedOutputsByPort)))
      (wf_nodes w)"

definition resolve_synthesize :: "workflow \<Rightarrow> run_mode option \<Rightarrow> items option \<Rightarrow> bool option \<Rightarrow> current_state \<Rightarrow> bool" where
  "resolve_synthesize w mode its wish c =
    (if opt_or its [] \<noteq> [] then False
     else if wish = Some True then True
     else if mode \<noteq> Some ManualRun then opt_or wish False
     else if \<not> list_ex (\<lambda>d. nd_kind d = TriggerKind) (wf_nodes w) then opt_or wish False
     else if has_trigger_data w c then opt_or wish False
     else True)"

definition is_trigger_start :: "workflow \<Rightarrow> string option \<Rightarrow> bool" where
  "is_trigger_start w startAt =
    (let n = opt_else startAt (opt_else (first_trigger w) (case wf_nodes w of [] \<Rightarrow> None | d # _ \<Rightarrow> Some (nd_id d)))
     in case given n of None \<Rightarrow> False | Some s \<Rightarrow> is_trigger_node w s)"

definition run_request_items :: "workflow \<Rightarrow> string option \<Rightarrow> items option \<Rightarrow> items" where
  "run_request_items w startAt its =
    (case its of Some l \<Rightarrow> l | None \<Rightarrow> if is_trigger_start w startAt then [] else [json_item (JObj [])])"

definition command_workflow :: "command_env \<Rightarrow> create_run_request \<Rightarrow> run_state option \<Rightarrow> workflow option" where
  "command_workflow env body source =
    (if bo_currentState body \<noteq> None then Option.bind (given (bo_workflowId body)) (cv_definition env)
     else if given (bo_sourceRunId body) \<noteq> None
     then Option.bind source (\<lambda>st. ce_resolveWorkflow (iv_start env) (rs_workflowId st) (rs_workflowSnapshot st))
     else Option.bind (given (bo_workflowId body)) (cv_definition env))"

definition requested_options :: "create_run_request \<Rightarrow> debugger_overlay option \<Rightarrow> execution_options option" where
  "requested_options body overlay =
    (case bo_mode body of
       None \<Rightarrow> None
     | Some mode \<Rightarrow>
         let source = opt_else (bo_sourceRunId body) (Option.bind overlay ov_copiedFromRunId)
         in Some (empty_execution_options\<lparr>eo_mode := Some mode, eo_sourceWorkflowId := bo_workflowId body, eo_sourceRunId := source,
              eo_derivedFromRunId := source\<rparr>))"

definition requested_stop :: "string option \<Rightarrow> stop_condition" where
  "requested_stop stopAt = (case given stopAt of None \<Rightarrow> WorkflowCompleted | Some n \<Rightarrow> NodeCompletedStop n)"

record run_command_result =
  rr_header :: run_header
  rr_result :: run_result
  rr_state :: "run_state option"

definition with_stored_state :: "run_result \<Rightarrow> run_command_result command_action" where
  "with_stored_state res =
    (let h = result_header res
     in gets_do (\<lambda>G. \<lparr>rr_header = h, rr_result = res, rr_state = load_run (rh_runId h) (gw_engine G)\<rparr>))"

definition start_intent_of ::
  "create_run_request \<Rightarrow> workflow \<Rightarrow> run_state option \<Rightarrow> debugger_overlay option \<Rightarrow> current_state \<Rightarrow> items option \<Rightarrow> bool \<Rightarrow> start_intent" where
  "start_intent_of body w source overlay cur its synth =
    \<lparr>sw_workflow = w,
     sw_startAt = (if given (bo_startAt body) \<noteq> None \<and> given (bo_sourceRunId body) = None \<and> given (bo_stopAt body) = None
       then bo_startAt body else None),
     sw_items = run_request_items w (bo_startAt body) its, sw_synthesize = synth, sw_parent = None,
     sw_options = requested_options body overlay, sw_snapshot = Option.bind source rs_workflowSnapshot,
     sw_mutable = cu_mutableState cur, sw_currentState = Some cur,
     sw_stop = (if given (bo_startAt body) \<noteq> None \<and> given (bo_sourceRunId body) = None \<and> bo_currentState body = None
         \<and> given (bo_stopAt body) = None then None else Some (requested_stop (bo_stopAt body))),
     sw_reset = map_option (\<lambda>n. \<lparr>rr_clearFromNodeId = n\<rparr>) (given (bo_clearFrom body))\<rparr>"

definition start_workflow_run :: "command_env \<Rightarrow> create_run_request \<Rightarrow> run_command_result command_action" where
  "start_workflow_run env body =
    (case given (bo_workflowId body) of
       None \<Rightarrow> throw_do (RequestError 400 ''Missing workflowId'')
     | Some wid \<Rightarrow>
         then_do (gets_do (\<lambda>G. Option.bind (given (bo_sourceRunId body)) (\<lambda>r. load_run r (gw_engine G)))) (\<lambda>loaded.
         let source = (if bo_currentState body = None then loaded else None);
             overlay = cv_overlay env wid
         in then_do (expect_do (command_workflow env body loaded) (RequestError 404 ''Unknown workflowId'')) (\<lambda>w.
            case cv_assertCredentials env wid of
              Some e \<Rightarrow> throw_do e
            | None \<Rightarrow>
                let its = (if bo_items body \<in> {JUndefined, JNull} then None else Some (normalize_items (bo_items body)));
                    cur = requested_state wid (bo_currentState body) source overlay;
                    synth = resolve_synthesize w (bo_mode body) its (bo_synthesize body) cur
                in then_do (as_command
                     (case given (bo_startAt body) of
                        Some n \<Rightarrow>
                          if reusable_state cur \<and> given (bo_clearFrom body) = None
                          then rerun_from_node (intents env)
                            \<lparr>rf_workflow = w, rf_nodeId = n, rf_currentState = cur, rf_items = its, rf_synthesize = synth, rf_parent = None,
                             rf_options = requested_options body overlay, rf_snapshot = Option.bind source rs_workflowSnapshot,
                             rf_mutable = cu_mutableState cur\<rparr>
                          else start_workflow (intents env) (start_intent_of body w source overlay cur its synth)
                      | None \<Rightarrow> start_workflow (intents env) (start_intent_of body w source overlay cur its synth)))
                   with_stored_state)))"

record replay_request =
  rp_items :: jsval
  rp_synthesize :: "bool option"
  rp_mode :: "run_mode option"

definition replayed_mutable :: "run_state \<Rightarrow> node_id \<Rightarrow> items option \<Rightarrow> mutable_run_state" where
  "replayed_mutable st n its =
    (let base = opt_or (rs_mutableState st) \<lparr>mr_nodesById = []\<rparr>
     in case its of
          None \<Rightarrow> base
        | Some l \<Rightarrow>
            let node = opt_or (jget (mr_nodesById base) n) \<lparr>mn_pinnedOutputsByPort = None, mn_lastDebugInput = None\<rparr>
            in \<lparr>mr_nodesById = jset n (node\<lparr>mn_lastDebugInput := Some l\<rparr>) (mr_nodesById base)\<rparr>)"

definition replay_options :: "run_state \<Rightarrow> run_mode option \<Rightarrow> execution_options" where
  "replay_options st mode =
    (let old = opt_or (rs_executionOptions st) empty_execution_options
     in empty_execution_options\<lparr>eo_mode := Some (opt_or mode (opt_or (eo_mode old) ManualRun)),
          eo_sourceWorkflowId := Some (opt_or (eo_sourceWorkflowId old) (rs_workflowId st)),
          eo_sourceRunId := Some (opt_or (eo_sourceRunId old) (rs_runId st)), eo_derivedFromRunId := Some (rs_runId st),
          eo_isMutable := Some True\<rparr>)"

definition replay_node :: "command_env \<Rightarrow> (string \<Rightarrow> js_error + string) \<Rightarrow> run_id \<Rightarrow> string \<Rightarrow> replay_request \<Rightarrow> run_command_result command_action" where
  "replay_node env wide r rawNode body =
    then_do (gets_do (\<lambda>G. load_run r (gw_engine G))) (\<lambda>loaded.
    then_do (expect_do loaded (RequestError 404 ''Unknown runId'')) (\<lambda>st.
    after_do (assert_do (Option.bind (rs_executionOptions st) eo_isMutable = Some True)
      (RequestError 403 (''Run '' @ rs_runId st @ '' is immutable'')))
    (then_do (expect_do (ce_resolveWorkflow (iv_start env) (rs_workflowId st) (rs_workflowSnapshot st))
        (RequestError 404 ''Unknown workflow for run'')) (\<lambda>w.
     then_do (lift_result (map_sum ServerError id (decode_uri wide rawNode))) (\<lambda>n.
       let its = (if rp_items body \<in> {JUndefined, JNull} then None else Some (normalize_items (rp_items body)));
           mutable = replayed_mutable st n its
       in then_do (as_command (rerun_from_node (intents env)
            \<lparr>rf_workflow = w, rf_nodeId = n, rf_currentState = (state_of_run st)\<lparr>cu_mutableState := Some mutable\<rparr>, rf_items = its,
             rf_synthesize = opt_or (rp_synthesize body) False, rf_parent = None, rf_options = Some (replay_options st (rp_mode body)),
             rf_snapshot = rs_workflowSnapshot st, rf_mutable = Some mutable\<rparr>))
          with_stored_state)))))"

end
