(* ===== verification/RunIntentFacts.thy ===== *)
theory RunIntentFacts
  imports RunIntents
begin

text \<open>
  What requests from outside lead to: which endpoints are found, what becomes of an endpoint with a percent sign, the node a
  run is to start at, and what replaying a node leaves of the run it replays.
\<close>

section \<open>Endpoints\<close>

text \<open>The matches a list of workflows offers, in order: those of the triggers of active workflows.\<close>

definition offered :: "matcher_env \<Rightarrow> workflow list \<Rightarrow> webhook_match list" where
  "offered env ws =
    concat (map (\<lambda>w. if me_isActive env (wf_id w) then List.map_filter (try_match env w) (wf_nodes w) else []) ws)"

lemma routes_add_log [simp]: "ma_routes (add_log d m) = ma_routes m" "ma_active (add_log d m) = ma_active m"
  by (simp_all add: add_log_def)

lemma routes_add_route [simp]:
  "ma_routes (add_route x m) = jset (normalize_path (wm_endpointPath x)) x (ma_routes m)" "ma_active (add_route x m) = ma_active m"
  by (simp_all add: add_route_def Let_def split: option.split)

lemma routes_of_nodes:
  "ma_routes (fold (\<lambda>d m. case try_match env w d of None \<Rightarrow> m | Some x \<Rightarrow> add_route x m) ds m)
     = ma_routes (fold add_route (List.map_filter (try_match env w) ds) m)
   \<and> ma_active (fold (\<lambda>d m. case try_match env w d of None \<Rightarrow> m | Some x \<Rightarrow> add_route x m) ds m) = ma_active m"
proof (induction ds arbitrary: m)
  case (Cons d ds)
  then show ?case by (cases "try_match env w d") (simp_all add: List.map_filter_def)
qed (simp add: List.map_filter_def)

lemma routes_congruent: "ma_routes m = ma_routes m' \<Longrightarrow> ma_routes (fold add_route xs m) = ma_routes (fold add_route xs m')"
  by (induction xs arbitrary: m m') simp_all

lemma active_fold [simp]: "ma_active (fold add_route xs m) = ma_active m"
  by (induction xs arbitrary: m) simp_all

lemma routes_of_workflow:
  "ma_routes (add_workflow_routes env w m) = ma_routes (fold add_route (offered env [w]) m)
   \<and> ma_active (add_workflow_routes env w m) = ma_active m"
  using routes_of_nodes [of env w "wf_nodes w" m] by (simp add: add_workflow_routes_def offered_def)

lemma routes_of_workflows:
  "ma_routes (fold (add_workflow_routes env) ws m) = ma_routes (fold add_route (offered env ws) m)
   \<and> ma_active (fold (add_workflow_routes env) ws m) = ma_active m"
proof (induction ws arbitrary: m)
  case (Cons w ws)
  have "ma_routes (fold add_route (offered env ws) (add_workflow_routes env w m))
      = ma_routes (fold add_route (offered env ws) (fold add_route (offered env [w]) m))"
    by (rule routes_congruent) (simp add: routes_of_workflow)
  then show ?case using Cons routes_of_workflow [of env w m] by (simp add: offered_def)
qed (simp add: offered_def)

lemma route_of_fold:
  "jget (ma_routes (fold add_route xs m)) k =
    opt_else (find (\<lambda>x. normalize_path (wm_endpointPath x) = k) (rev xs)) (jget (ma_routes m) k)"
proof (induction xs rule: rev_induct)
  case (snoc x xs)
  then show ?case by auto
qed simp

lemma rebuilt_lookup:
  "lookup_route (rebuild_routes e v m) p =
    (if ma_active m then find (\<lambda>x. js_trim (wm_endpointPath x) = js_trim p) (rev (offered e v)) else None)"
  using routes_of_workflows [of e v "m\<lparr>ma_routes := []\<rparr>"] route_of_fold [of "offered e v" "m\<lparr>ma_routes := []\<rparr>" "js_trim p"]
  by (simp add: lookup_route_def rebuild_routes_def normalize_path_def) (metis opt_else.elims)

lemma endpoints_found:
  "lookup_route (routes_loaded env ws m) p = find (\<lambda>x. js_trim (wm_endpointPath x) = js_trim p) (rev (offered env ws))"
  by (simp add: routes_loaded_def rebuilt_lookup)

text \<open>C36. Once workflows are loaded, the endpoint found for a path is the last one, in the order of workflows and their nodes,
  that a trigger of an active workflow declares with this path, blanks at both ends aside; reloading after a change of
  activation follows the same rule, and nothing is found after a stop.\<close>

theorem endpoints_of_active_workflows:
  "lookup_route (routes_loaded env ws m) p
      = find (\<lambda>x. js_trim (wm_endpointPath x) = js_trim p) (rev (offered env ws))
   \<and> lookup_route (reload_routes env' ws' (routes_loaded env ws m)) p
      = find (\<lambda>x. js_trim (wm_endpointPath x) = js_trim p) (rev (offered env' ws'))
   \<and> lookup_route (reload_routes env' ws' (routes_stopped m)) p = None"
proof -
  have "ma_active (routes_loaded env ws m)"
    using routes_of_workflows by (simp add: routes_loaded_def rebuild_routes_def)
  then have "lookup_route (reload_routes env' ws' (routes_loaded env ws m)) p
      = find (\<lambda>x. js_trim (wm_endpointPath x) = js_trim p) (rev (offered env' ws'))"
    by (simp add: reload_routes_def rebuilt_lookup)
  moreover have "lookup_route (reload_routes env' ws' (routes_stopped m)) p = None"
    by (simp add: reload_routes_def routes_stopped_def lookup_route_def)
  ultimately show ?thesis using endpoints_found by blast
qed

section \<open>Percent signs\<close>

lemma no_escapes: "CHR ''%'' \<notin> set s \<Longrightarrow> hex_escapes s = []"
  by (induction s) auto

lemma decode_ascii_plain: "CHR ''%'' \<notin> set s \<Longrightarrow> decode_ascii s = s"
  by (induction s rule: decode_ascii.induct) auto

lemma decode_plain: "CHR ''%'' \<notin> set s \<Longrightarrow> decode_uri wide s = Inr s"
  by (simp add: decode_uri_def no_escapes decode_ascii_plain)

lemma upper_upper [simp]: "upper_char (upper_char c) = upper_char c" "upper_char \<circ> upper_char = upper_char"
proof -
  have idem: "upper_char (upper_char c) = upper_char c" for c
  proof (cases "97 \<le> (of_char c :: nat) \<and> of_char c \<le> (122 :: nat)")
    case True
    have "(of_char c - 32) mod 256 = (of_char c - 32 :: nat)" using True by (intro mod_less) linarith
    moreover have "\<not> 97 \<le> (of_char c - 32 :: nat)" using True by linarith
    ultimately show ?thesis using True by (simp add: upper_char_def Let_def)
  qed (auto simp: upper_char_def Let_def)
  show "upper_char (upper_char c) = upper_char c" by (rule idem)
  show "upper_char \<circ> upper_char = upper_char" by (simp add: fun_eq_iff idem)
qed

text \<open>C37. The path of a webhook request is decoded twice.  If the path that the route finds an endpoint under has no percent
  sign, that endpoint's run is started and its last item answers, a failure being a bad request; if it has one that is not
  followed by two hexadecimal digits, the request is refused as bad and nothing is started.\<close>

theorem webhook_paths_decoded_twice:
  assumes "decode_uri (iv_decodeWide env) param = Inr p"
    and "resolve_webhook_trigger (gw_matcher G) p (map upper_char (hq_method q)) = WebhookOk x"
    and "request_item (iv_parseJson env) q x = Inr it"
  shows "(CHR ''%'' \<notin> set p \<longrightarrow> post_webhook env who param q G =
      (case run_webhook_match (intent_env.truncate env) who x it G of
         (Inl e, G') \<Rightarrow> (Inr (ReplyError 400 (err_message e)), G')
       | (Inr None, G') \<Rightarrow> (Inr ReplyLater, G')
       | (Inr (Some r), G') \<Rightarrow> (Inr (ReplyJson (last_json (wr_response r))), G')))
    \<and> (None \<in> set (hex_escapes p) \<longrightarrow> post_webhook env who param q G = (Inr (ReplyError 400 ''URI malformed''), G))"
proof (intro conjI impI)
  assume plain: "CHR ''%'' \<notin> set p"
  show "post_webhook env who param q G =
      (case run_webhook_match (intent_env.truncate env) who x it G of
         (Inl e, G') \<Rightarrow> (Inr (ReplyError 400 (err_message e)), G')
       | (Inr None, G') \<Rightarrow> (Inr ReplyLater, G')
       | (Inr (Some r), G') \<Rightarrow> (Inr (ReplyJson (last_json (wr_response r))), G'))"
  proof -
    obtain r G' where run: "run_webhook_match (intent_env.truncate env) who x it G = (r, G')" by fastforce
    have command: "handle_webhook_invocation env who p (map upper_char (hq_method q)) it G =
        (case r of Inl e \<Rightarrow> (Inl (RequestError 400 (err_message e)), G')
         | Inr None \<Rightarrow> (Inr InvocationWaits, G') | Inr (Some a) \<Rightarrow> (Inr (InvocationAnswered (last_json (wr_response a))), G'))"
      using assms(2) decode_plain [OF plain]
      by (cases r) (auto simp: handle_webhook_invocation_def then_do_def catch_do_def lift_result_def gets_do_def as_command_def run
          bad_request_def throw_do_def return_do_def split: option.split)
    show ?thesis using assms run
      by (cases r) (auto simp: post_webhook_def command then_do_def catch_do_def lift_result_def gets_do_def return_do_def split: option.split)
  qed
next
  assume "None \<in> set (hex_escapes p)"
  then have "decode_uri (iv_decodeWide env) p = Inl uri_malformed" by (simp add: decode_uri_def)
  then show "post_webhook env who param q G = (Inr (ReplyError 400 ''URI malformed''), G)"
    using assms
    by (simp add: post_webhook_def handle_webhook_invocation_def then_do_def catch_do_def lift_result_def gets_do_def
        bad_request_def throw_do_def return_do_def uri_malformed_def)
qed

section \<open>Starting and replaying\<close>

text \<open>Asked to run a workflow with items from a node on, the host runs it from its beginning: with no earlier state of the
  workflow to go on from, the node to start at changes nothing.\<close>

theorem start_node_ignored:
  assumes "given (bo_workflowId body) = Some wid" "bo_currentState body = None" "given (bo_sourceRunId body) = None"
    and "given (bo_stopAt body) = None" "normalize_items (bo_items body) \<noteq> []"
    and "\<not> reusable_state (clone_overlay_state (map_option ov_currentState (cv_overlay env wid)))"
  shows "start_workflow_run env (body\<lparr>bo_startAt := Some n\<rparr>) G = start_workflow_run env (body\<lparr>bo_startAt := None\<rparr>) G"
proof -
  have its: "bo_items body \<notin> {JUndefined, JNull}" using assms(5) by auto
  let ?cur = "clone_overlay_state (map_option ov_currentState (cv_overlay env wid))"
  have cur: "requested_state wid None None (cv_overlay env wid) = ?cur" by (simp add: requested_state_def)
  have options: "requested_options (body\<lparr>bo_startAt := s\<rparr>) ov = requested_options body ov" for s ov
    by (simp add: requested_options_def split: option.split)
  have same: "start_workflow (intents env) (start_intent_of (body\<lparr>bo_startAt := Some n\<rparr>) w None overlay cur (Some l) False)
      = start_workflow (intents env) (start_intent_of (body\<lparr>bo_startAt := None\<rparr>) w None overlay cur (Some l) False)"
    if "l \<noteq> []" for w overlay cur l
    using that assms(2-4)
    by (simp add: start_workflow_def start_intent_of_def items_or_test_items_def run_request_items_def start_request_def
        requested_stop_def options Let_def given_def fun_eq_iff then_do_def return_do_def)
  have flow: "command_workflow env (body\<lparr>bo_startAt := s\<rparr>) l = command_workflow env body l" for s l
    by (simp add: command_workflow_def)
  have eval: "start_workflow_run env (body\<lparr>bo_startAt := s\<rparr>) G =
      (case command_workflow env body None of
         None \<Rightarrow> (Inl (RequestError 404 ''Unknown workflowId''), G)
       | Some w \<Rightarrow> (case cv_assertCredentials env wid of
           Some e \<Rightarrow> (Inl e, G)
         | None \<Rightarrow> then_do (as_command (start_workflow (intents env) (start_intent_of (body\<lparr>bo_startAt := s\<rparr>) w None (cv_overlay env wid) ?cur
             (Some (normalize_items (bo_items body))) False))) with_stored_state G))" for s
    using assms its
    by (cases "given s") (auto simp: start_workflow_run_def Let_def then_do_Inr [OF gets_do_eval] flow cur resolve_synthesize_def
        expect_do_def throw_do_def then_do_def split: option.split)
  show ?thesis unfolding eval by (auto simp: same [OF assms(5)] split: option.split)
qed

lemma in_engine_run: "in_engine m G = (r, G') \<Longrightarrow> \<exists>e. m (gw_engine G) = (r, e) \<and> gw_engine G' = e"
  by (auto simp: in_engine_def split: prod.splits)

lemma test_items_engine: "items_or_test_items env w its t G = (r, G') \<Longrightarrow> gw_engine G' = gw_engine G"
  by (auto simp: items_or_test_items_def trigger_test_items_def in_triggers_def then_do_def gets_do_def return_do_def
      split: if_splits option.splits sum.splits prod.splits)

text \<open>However an intent starts a run, it is one start of the engine.\<close>

lemma start_started:
  assumes "start_workflow env a G = (x, G') \<or> rerun_from_node env b G = (x, G')"
  shows "gw_engine G' = gw_engine G \<and> (\<exists>e. x = Inl e)
    \<or> started (te_newRunId (iv_start env) (en_ids (gw_engine G))) (gw_engine G) x (gw_engine G')"
proof -
  have run: "started (te_newRunId (iv_start env) (en_ids (gw_engine G))) (gw_engine G) y (gw_engine G2)"
    if "gw_engine G1 = gw_engine G"
      "in_engine (run_workflow (iv_start env) w n its p o1 sn mu) G1 = (y, G2)
       \<or> in_engine (run_workflow_from_state (iv_start env) rq) G1 = (y, G2)" for G1 G2 y w n its p o1 sn mu rq
    using that(2)
  proof
    assume "in_engine (run_workflow (iv_start env) w n its p o1 sn mu) G1 = (y, G2)"
    from in_engine_run [OF this] show ?thesis using wp_result [OF conjunct1 [OF started_wp]] that(1) by metis
  next
    assume "in_engine (run_workflow_from_state (iv_start env) rq) G1 = (y, G2)"
    from in_engine_run [OF this] show ?thesis using wp_result [OF conjunct2 [OF started_wp]] that(1) by metis
  qed
  from assms show ?thesis
  proof
    assume "start_workflow env a G = (x, G')"
    then show ?thesis unfolding start_workflow_def then_do_def
      by (auto simp: Let_def split: prod.splits sum.splits option.splits dest!: test_items_engine dest: run [OF _ disjI1] run [OF _ disjI2])
  next
    assume "rerun_from_node env b G = (x, G')"
    then show ?thesis unfolding rerun_from_node_def then_do_def
      by (auto split: prod.splits sum.splits option.splits dest!: test_items_engine dest: run [OF _ disjI1] run [OF _ disjI2])
  qed
qed


section \<open>Witnesses\<close>

definition sample_intents :: intent_env where
  "sample_intents = \<lparr>iv_start = sample_start, iv_triggers = sample_triggers True (SetupReturn None), iv_parseJsonBody = \<lambda>_. None\<rparr>"

definition sample_commands :: command_env where
  "sample_commands = intent_env.extend sample_intents
    (command_env.fields (\<lambda>w. if w = ''wf'' then Some sample_workflow else None) (\<lambda>_. None) (\<lambda>_. None))"

definition sample_webhooks :: webhook_env where
  "sample_webhooks = intent_env.extend sample_intents
    (webhook_env.fields (\<lambda>_. Inl uri_malformed) (\<lambda>_. Inl (plain_error ''not JSON'')))"

definition hooked_workflow :: workflow where
  "hooked_workflow = sample_of
    [(sample_node ''t'' TriggerKind None)\<lparr>nd_config := (sample_config TriggerKind None)
       \<lparr>nc_fields := [(''endpointKey'', JStr ''50%''), (''methods'', JArr [JStr ''POST''])]\<rparr>\<rparr>] []"

definition sample_gateway :: "run_state \<Rightarrow> gateway" where
  "sample_gateway st =
    \<lparr>gw_engine = sample_host st, gw_triggers = idle_host, gw_workflows = [hooked_workflow],
     gw_matcher = routes_loaded (matcher_part sample_intents) [hooked_workflow] \<lparr>ma_routes = [], ma_active = False, ma_log = []\<rparr>\<rparr>"

definition sample_hook :: webhook_match where
  "sample_hook = \<lparr>wm_endpointPath = ''50%'', wm_workflowId = ''wf'', wm_nodeId = ''t'', wm_methods = [JStr ''POST''], wm_parseJsonBody = None\<rparr>"

definition sample_post :: http_request where
  "sample_post = \<lparr>hq_method = ''post'', hq_url = ''https://host/api/webhooks/50%2525'', hq_headers = [], hq_query = [], hq_body = [],
    hq_form = Inr []\<rparr>"

lemma webhook_paths_decoded_twice_witness:
  "post_webhook sample_webhooks 7 ''50%25'' sample_post (sample_gateway sample_run)
     = (Inr (ReplyError 400 ''URI malformed''), sample_gateway sample_run)"
proof -
  have 1: "decode_uri (iv_decodeWide sample_webhooks) ''50%25'' = Inr ''50%''"
  proof -
    have "decode_uri (\<lambda>_. Inl uri_malformed) ''50%25'' = Inr ''50%''" by code_simp
    then show ?thesis by (simp add: sample_webhooks_def intent_env.defs webhook_env.defs sample_intents_def)
  qed
  have off: "offered (matcher_part sample_intents) [hooked_workflow] = [sample_hook]"
    by (simp add: offered_def matcher_part_def sample_intents_def hooked_workflow_def sample_of_def sample_node_def sample_config_def
        try_match_def List.map_filter_def sample_hook_def)
  have up: "map upper_char (hq_method sample_post) = ''POST''"
    by (simp add: sample_post_def) code_simp
  have "lookup_route (gw_matcher (sample_gateway sample_run)) ''50%'' = Some sample_hook"
    using endpoints_found [of "matcher_part sample_intents" "[hooked_workflow]"] by (simp add: sample_gateway_def off sample_hook_def)
  then have 2: "resolve_webhook_trigger (gw_matcher (sample_gateway sample_run)) ''50%'' (map upper_char (hq_method sample_post)) = WebhookOk sample_hook"
    unfolding up by (simp add: resolve_webhook_trigger_def sample_hook_def)
  have "request_item (\<lambda>_. Inl (plain_error ''not JSON'')) sample_post sample_hook \<noteq> Inl e" for e
    by (simp add: request_item_def plain_request_item_def parse_json_body_def sample_post_def content_type_def Let_def)
  then obtain it where 3: "request_item (iv_parseJson sample_webhooks) sample_post sample_hook = Inr it"
    by (cases "request_item (\<lambda>_. Inl (plain_error ''not JSON'')) sample_post sample_hook")
       (auto simp: sample_webhooks_def intent_env.defs webhook_env.defs sample_intents_def)
  have "None \<in> set (hex_escapes ''50%'')" by code_simp
  with webhook_paths_decoded_twice [OF 1 2 3, of 7] show ?thesis by blast
qed

definition sample_body :: create_run_request where
  "sample_body = \<lparr>bo_workflowId = Some ''wf'', bo_items = JArr [JObj []], bo_synthesize = None, bo_currentState = None, bo_startAt = None,
    bo_stopAt = None, bo_clearFrom = None, bo_mode = Some ManualRun, bo_sourceRunId = None\<rparr>"

lemma start_node_ignored_witness:
  "start_workflow_run sample_commands (sample_body\<lparr>bo_startAt := Some ''m''\<rparr>) (sample_gateway sample_run)
     = start_workflow_run sample_commands sample_body (sample_gateway sample_run)"
proof -
  have "start_workflow_run sample_commands (sample_body\<lparr>bo_startAt := Some ''m''\<rparr>) (sample_gateway sample_run)
     = start_workflow_run sample_commands (sample_body\<lparr>bo_startAt := None\<rparr>) (sample_gateway sample_run)"
    by (rule start_node_ignored [where wid = "''wf''"])
       (simp_all add: sample_body_def given_def sample_commands_def sample_intents_def intent_env.defs command_env.defs
          clone_overlay_state_def empty_current_state_def reusable_state_def)
  then show ?thesis by (simp add: sample_body_def)
qed


end
