(* ===== verification/RunTables.thy ===== *)
theory RunTables
  imports RunIntentFacts
begin

text \<open>
  The runs in the database of the host (\<open>host/src/infrastructure/persistence/PrismaWorkflowRunRepository.ts\<close>): a run is a row of
  its own, rows for the entries of its queue and its pending activation, rows for the executions of nodes and for the
  invocations of connections, and a projection of slots for the canvas.  The database is a record of tables by primary key; a
  transaction is a function to an error, which leaves the tables as they were, or to the tables after it.  A column of JSON text
  holds the value whose text it is.  Parameters: the order that the database has for texts, the locale's order, escapes beyond
  ASCII, the text of a violated key, date arithmetic; and what other clients do to the database between two steps of a save.
  Columns that are never written or read, and the table of workflow snapshots with its key, are left out.
\<close>

section \<open>Tables\<close>

datatype work_status = WorkQueued | WorkClaimed

record work_item =
  wi_runId :: run_id
  wi_workflowId :: workflow_id
  wi_status :: work_status
  wi_targetNodeId :: node_id
  wi_batchId :: string
  wi_queueName :: "string option"
  wi_claimToken :: "string option"
  wi_availableAt :: iso_time
  wi_enqueuedAt :: iso_time
  wi_itemsIn :: nat
  wi_inputsByPortJson :: inputs_by_port

text \<open>The JSON texts of an execution: ports with items for a node, any value for a connection.\<close>

datatype row_json = PortsText "(port_key, items) jmap" | ValueText jsval

datatype instance_kind = NodeActivationRow | ConnectionInvocationRow

record instance_row =
  xi_runId :: run_id
  xi_workflowId :: workflow_id
  xi_slotNodeId :: node_id
  xi_workflowNodeId :: node_id
  xi_kind :: instance_kind
  xi_connectionKind :: "string option"
  xi_activationId :: "activation_id option"
  xi_batchId :: string
  xi_runIndex :: nat
  xi_status :: node_status
  xi_queuedAt :: "iso_time option"
  xi_startedAt :: "iso_time option"
  xi_finishedAt :: "iso_time option"
  xi_updatedAt :: iso_time
  xi_itemCount :: nat
  xi_inputJson :: "row_json option"
  xi_outputJson :: "row_json option"
  xi_errorJson :: "node_error option"
  xi_outputItemCount :: "nat option"
  xi_failedItemCount :: "nat option"
  xi_usedPinnedOutput :: "bool option"
  xi_iterationId :: "string option"
  xi_itemIndex :: "nat option"
  xi_parentInvocationId :: "string option"
  xi_childRunId :: "run_id option"

record hitl_columns =
  hs_suspension :: "suspension_entry list option"
  hs_pendingResume :: "pending_resume option"
  hs_reason :: "halt_reason option"

record run_row =
  rw_workflowId :: workflow_id
  rw_startedAt :: iso_time
  rw_finishedAt :: "iso_time option"
  rw_status :: run_status
  rw_revision :: int
  rw_parent :: "parent_ref option"
  rw_executionOptions :: "execution_options option"
  rw_control :: "run_control option"
  rw_workflowSnapshot :: "workflow_snapshot option"
  rw_policySnapshot :: "policy_snapshot option"
  rw_engineCounters :: "engine_counters option"
  rw_mutableState :: "mutable_run_state option"
  rw_hitlState :: "hitl_columns option"
  rw_outputsByNode :: "(node_id, node_outputs) jmap"
  rw_updatedAt :: iso_time
  rw_testSuiteRunId :: "string option"
  rw_testCaseIndex :: "nat option"
  rw_testCaseLabel :: "string option"
  rw_testCaseStatus :: "string option"

record slot_state =
  sl_latestInstanceId :: "string option"
  sl_latestTerminalInstanceId :: "string option"
  sl_latestRunningInstanceId :: "string option"
  sl_latestStatus :: "node_status option"
  sl_invocationCount :: nat
  sl_runCount :: nat

record run_db =
  pd_runs :: "(run_id, run_row) jmap"
  pd_workItems :: "(string, work_item) jmap"
  pd_instances :: "(string, instance_row) jmap"
  pd_projections :: "(run_id, (node_id, slot_state) jmap) jmap"

record table_env =
  tb_textLess :: "string \<Rightarrow> string \<Rightarrow> bool"
  tb_localeLess :: "string \<Rightarrow> string \<Rightarrow> bool"
  tb_decodeWide :: "string \<Rightarrow> js_error + string"
  tb_keyViolated :: "string \<Rightarrow> js_error"
  tb_rowMissing :: js_error
  tb_secondsBefore :: "iso_time \<Rightarrow> int \<Rightarrow> iso_time"

section \<open>Creating\<close>

definition create_run_row :: "table_env \<Rightarrow> iso_time \<Rightarrow> create_run_args \<Rightarrow> run_db \<Rightarrow> js_error + run_db" where
  "create_run_row env now a db =
    (if jhas (pd_runs db) (ca_runId a) then Inl (tb_keyViolated env (ca_runId a))
     else let test = Option.bind (ca_executionOptions a) eo_testContext
          in Inr (db\<lparr>pd_runs := jset (ca_runId a)
            \<lparr>rw_workflowId = ca_workflowId a, rw_startedAt = ca_startedAt a, rw_finishedAt = None, rw_status = RunRunning,
             rw_revision = 0, rw_parent = ca_parent a, rw_executionOptions = ca_executionOptions a, rw_control = ca_control a,
             rw_workflowSnapshot = ca_workflowSnapshot a, rw_policySnapshot = ca_policySnapshot a,
             rw_engineCounters = ca_engineCounters a, rw_mutableState = ca_mutableState a, rw_hitlState = None,
             rw_outputsByNode = [], rw_updatedAt = now, rw_testSuiteRunId = map_option tc_testSuiteRunId test,
             rw_testCaseIndex = map_option tc_testCaseIndex test, rw_testCaseLabel = Option.bind test tc_testCaseLabel,
             rw_testCaseStatus = map_option (\<lambda>_. ''running'') test\<rparr> (pd_runs db)\<rparr>))"

section \<open>Rows of a state\<close>

definition entry_inputs :: "queue_entry \<Rightarrow> inputs_by_port" where
  "entry_inputs q =
    (case qe_collect q of
       Some c \<Rightarrow> cs_received c
     | None \<Rightarrow> [(opt_or (qe_toInput q) ''in'', qe_input q)])"

definition count_items :: "(port_key, items) jmap option \<Rightarrow> nat" where
  "count_items ports = (\<Sum>(_, its) \<leftarrow> opt_or ports []. length its)"

definition batch_or_first :: "string option \<Rightarrow> string" where
  "batch_or_first b = opt_or b ''batch_1''"

definition queued_item_id :: "run_id \<Rightarrow> nat \<Rightarrow> queue_entry \<Rightarrow> string" where
  "queued_item_id r i q = r @ '':queued:'' @ string_of_nat i @ '':'' @ qe_nodeId q @ '':'' @ batch_or_first (qe_batchId q)"

definition queued_item :: "run_state \<Rightarrow> iso_time \<Rightarrow> queue_entry \<Rightarrow> work_item" where
  "queued_item st now q =
    \<lparr>wi_runId = rs_runId st, wi_workflowId = rs_workflowId st, wi_status = WorkQueued, wi_targetNodeId = qe_nodeId q,
     wi_batchId = batch_or_first (qe_batchId q), wi_queueName = None, wi_claimToken = None, wi_availableAt = now,
     wi_enqueuedAt = now, wi_itemsIn = count_items (Some (entry_inputs q)), wi_inputsByPortJson = entry_inputs q\<rparr>"

definition claimed_item :: "run_state \<Rightarrow> pending_execution \<Rightarrow> work_item" where
  "claimed_item st p =
    \<lparr>wi_runId = rs_runId st, wi_workflowId = rs_workflowId st, wi_status = WorkClaimed, wi_targetNodeId = pe_nodeId p,
     wi_batchId = batch_or_first (pe_batchId p), wi_queueName = pe_queue p, wi_claimToken = Some (pe_activationId p),
     wi_availableAt = pe_enqueuedAt p, wi_enqueuedAt = pe_enqueuedAt p, wi_itemsIn = pe_itemsIn p,
     wi_inputsByPortJson = pe_inputsByPort p\<rparr>"

definition build_work_items :: "run_state \<Rightarrow> iso_time \<Rightarrow> (string \<times> work_item) list" where
  "build_work_items st now =
    map (\<lambda>(i, q). (queued_item_id (rs_runId st) i q, queued_item st now q)) (enumerate 0 (rs_queue st))
    @ (case rs_pending st of None \<Rightarrow> [] | Some p \<Rightarrow> [(pe_activationId p, claimed_item st p)])"

definition node_instance_id :: "run_id \<Rightarrow> node_id \<Rightarrow> node_snapshot \<Rightarrow> string" where
  "node_instance_id r n s = r @ '':node:'' @ n @ '':'' @ opt_or (ns_activationId s) ''na''"

definition pending_batch :: "run_state \<Rightarrow> string" where
  "pending_batch st = opt_or (Option.bind (rs_pending st) pe_batchId) ''batch_1''"

definition node_row :: "run_state \<Rightarrow> node_id \<Rightarrow> node_snapshot \<Rightarrow> instance_row" where
  "node_row st n s =
    (let given_items = count_items (ns_inputsByPort s);
         item_count = (if given_items \<noteq> 0 then given_items else count_items (ns_outputs s))
     in \<lparr>xi_runId = rs_runId st, xi_workflowId = rs_workflowId st, xi_slotNodeId = n, xi_workflowNodeId = n,
         xi_kind = NodeActivationRow, xi_connectionKind = None, xi_activationId = ns_activationId s, xi_batchId = pending_batch st,
         xi_runIndex = 1, xi_status = ns_status s, xi_queuedAt = ns_queuedAt s, xi_startedAt = ns_startedAt s,
         xi_finishedAt = ns_finishedAt s, xi_updatedAt = ns_updatedAt s, xi_itemCount = item_count,
         xi_inputJson = map_option PortsText (ns_inputsByPort s), xi_outputJson = map_option PortsText (ns_outputs s),
         xi_errorJson = ns_error s, xi_outputItemCount = map_option (\<lambda>outs. count_items (Some outs)) (ns_outputs s),
         xi_failedItemCount = (if ns_status s = NsFailed then Some item_count else None),
         xi_usedPinnedOutput = ns_usedPinnedOutput s, xi_iterationId = None, xi_itemIndex = None, xi_parentInvocationId = None,
         xi_childRunId = ns_childRunId s\<rparr>)"

definition invocation_row :: "run_state \<Rightarrow> nat \<Rightarrow> connection_invocation \<Rightarrow> instance_row" where
  "invocation_row st i v =
    \<lparr>xi_runId = rs_runId st, xi_workflowId = rs_workflowId st, xi_slotNodeId = ci_connectionNodeId v,
     xi_workflowNodeId = ci_parentAgentNodeId v, xi_kind = ConnectionInvocationRow, xi_connectionKind = Some ''languageModel'',
     xi_activationId = Some (ci_parentAgentActivationId v), xi_batchId = pending_batch st, xi_runIndex = i, xi_status = ci_status v,
     xi_queuedAt = ci_queuedAt v, xi_startedAt = ci_startedAt v, xi_finishedAt = ci_finishedAt v, xi_updatedAt = ci_updatedAt v,
     xi_itemCount = 0, xi_inputJson = map_option ValueText (ci_managedInput v),
     xi_outputJson = map_option ValueText (ci_managedOutput v), xi_errorJson = ci_error v, xi_outputItemCount = None,
     xi_failedItemCount = None, xi_usedPinnedOutput = None, xi_iterationId = ci_iterationId v, xi_itemIndex = ci_itemIndex v,
     xi_parentInvocationId = ci_parentInvocationId v, xi_childRunId = None\<rparr>"

definition build_instances :: "run_state \<Rightarrow> (string \<times> instance_row) list" where
  "build_instances st =
    map (\<lambda>(n, s). (node_instance_id (rs_runId st) n s, node_row st n s)) (rs_nodeSnapshotsByNodeId st)
    @ map (\<lambda>(i, v). (ci_invocationId v, invocation_row st i v))
        (enumerate 0 (filter (\<lambda>v. ci_runId v = rs_runId st) (opt_or (rs_connectionInvocations st) [])))"

definition slot_of_snapshot :: "run_id \<Rightarrow> node_id \<Rightarrow> node_snapshot \<Rightarrow> slot_state" where
  "slot_of_snapshot r n s =
    (let inst = node_instance_id r n s
     in \<lparr>sl_latestInstanceId = Some inst,
         sl_latestTerminalInstanceId = (if ns_status s \<in> {NsCompleted, NsFailed} then Some inst else None),
         sl_latestRunningInstanceId = (if ns_status s \<in> {NsQueued, NsRunning} then Some inst else None),
         sl_latestStatus = Some (ns_status s), sl_invocationCount = 0,
         sl_runCount = (if ns_status s \<in> {NsCompleted, NsFailed} then 1 else 0)\<rparr>)"

definition empty_slot :: slot_state where
  "empty_slot =
    \<lparr>sl_latestInstanceId = None, sl_latestTerminalInstanceId = None, sl_latestRunningInstanceId = None, sl_latestStatus = None,
     sl_invocationCount = 0, sl_runCount = 0\<rparr>"

definition build_projection :: "run_state \<Rightarrow> (node_id, slot_state) jmap" where
  "build_projection st =
    fold (\<lambda>v m. let old = opt_or (jget m (ci_connectionNodeId v)) empty_slot
               in jset (ci_connectionNodeId v) (old\<lparr>sl_invocationCount := sl_invocationCount old + 1\<rparr>) m)
      (opt_or (rs_connectionInvocations st) [])
      (fold (\<lambda>(n, s) m. jset n (slot_of_snapshot (rs_runId st) n s) m) (rs_nodeSnapshotsByNodeId st) [])"

text \<open>Outputs of a node that has a snapshot are kept with the snapshot only.\<close>

definition persisted_outputs :: "run_state \<Rightarrow> (node_id, node_outputs) jmap" where
  "persisted_outputs st = filter (\<lambda>(n, _). \<not> jhas (rs_nodeSnapshotsByNodeId st) n) (rs_outputsByNode st)"

definition build_hitl :: "run_state \<Rightarrow> hitl_columns option" where
  "build_hitl st =
    (let suspended = (if opt_or (rs_suspension st) [] \<noteq> [] then rs_suspension st else None)
     in if suspended = None \<and> rs_pendingResume st = None \<and> rs_reason st = None then None
        else Some \<lparr>hs_suspension = suspended, hs_pendingResume = rs_pendingResume st, hs_reason = rs_reason st\<rparr>)"

section \<open>Loading\<close>

definition ports_of_text :: "row_json option \<Rightarrow> (port_key, items) jmap option" where
  "ports_of_text t = (case t of Some (PortsText m) \<Rightarrow> Some m | _ \<Rightarrow> None)"

definition value_of_text :: "row_json option \<Rightarrow> jsval option" where
  "value_of_text t = (case t of Some (ValueText v) \<Rightarrow> Some v | _ \<Rightarrow> None)"

definition snapshot_of_row :: "run_id \<Rightarrow> workflow_id \<Rightarrow> node_id \<Rightarrow> instance_row \<Rightarrow> node_snapshot" where
  "snapshot_of_row r w n x =
    \<lparr>ns_runId = r, ns_workflowId = w, ns_nodeId = n, ns_activationId = xi_activationId x, ns_parent = None,
     ns_status = xi_status x, ns_usedPinnedOutput = xi_usedPinnedOutput x, ns_queuedAt = xi_queuedAt x,
     ns_startedAt = xi_startedAt x, ns_finishedAt = xi_finishedAt x, ns_updatedAt = xi_updatedAt x,
     ns_inputsByPort = ports_of_text (xi_inputJson x), ns_outputs = ports_of_text (xi_outputJson x), ns_error = xi_errorJson x,
     ns_childRunId = xi_childRunId x\<rparr>"

definition invocation_of_row :: "run_id \<Rightarrow> workflow_id \<Rightarrow> string \<times> instance_row \<Rightarrow> connection_invocation" where
  "invocation_of_row r w kx =
    (let (k, x) = kx
     in \<lparr>ci_invocationId = k, ci_runId = r, ci_workflowId = w, ci_connectionNodeId = xi_slotNodeId x,
         ci_parentAgentNodeId = xi_workflowNodeId x,
         ci_parentAgentActivationId = opt_or (xi_activationId x) (''synthetic_'' @ xi_workflowNodeId x), ci_status = xi_status x,
         ci_managedInput = value_of_text (xi_inputJson x), ci_managedOutput = value_of_text (xi_outputJson x),
         ci_statusLabel = None, ci_subjectName = None, ci_error = xi_errorJson x, ci_queuedAt = xi_queuedAt x,
         ci_startedAt = xi_startedAt x, ci_finishedAt = xi_finishedAt x, ci_updatedAt = xi_updatedAt x,
         ci_iterationId = xi_iterationId x, ci_itemIndex = xi_itemIndex x, ci_parentInvocationId = xi_parentInvocationId x\<rparr>)"

text \<open>Of several executions of a node, the first of those that were updated last.\<close>

definition latest_row :: "instance_row \<Rightarrow> (node_id, instance_row) jmap \<Rightarrow> (node_id, instance_row) jmap" where
  "latest_row x m =
    (case jget m (xi_slotNodeId x) of
       None \<Rightarrow> jset (xi_slotNodeId x) x m
     | Some prev \<Rightarrow> if string_less (xi_updatedAt prev) (xi_updatedAt x) then jset (xi_slotNodeId x) x m else m)"

definition instance_less :: "table_env \<Rightarrow> string \<times> instance_row \<Rightarrow> string \<times> instance_row \<Rightarrow> bool" where
  "instance_less env a b =
    (tb_textLess env (xi_slotNodeId (snd a)) (xi_slotNodeId (snd b))
     \<or> xi_slotNodeId (snd a) = xi_slotNodeId (snd b) \<and> xi_runIndex (snd a) < xi_runIndex (snd b))"

definition instances_of :: "table_env \<Rightarrow> run_id \<Rightarrow> run_db \<Rightarrow> (string \<times> instance_row) list" where
  "instances_of env r db = stable_sort (instance_less env) (filter (\<lambda>(_, x). xi_runId x = r) (pd_instances db))"

definition loaded_snapshots :: "run_id \<Rightarrow> workflow_id \<Rightarrow> (string \<times> instance_row) list \<Rightarrow> (node_id, node_snapshot) jmap" where
  "loaded_snapshots r w xs =
    map (\<lambda>(n, x). (n, snapshot_of_row r w n x))
      (fold latest_row (filter (\<lambda>x. xi_kind x = NodeActivationRow) (map snd xs)) [])"

definition loaded_invocations :: "run_id \<Rightarrow> workflow_id \<Rightarrow> (string \<times> instance_row) list \<Rightarrow> connection_invocation list" where
  "loaded_invocations r w xs =
    map (invocation_of_row r w)
      (stable_sort (\<lambda>a b. xi_runIndex (snd a) < xi_runIndex (snd b)) (filter (\<lambda>(_, x). xi_kind x = ConnectionInvocationRow) xs))"

definition pending_of_item :: "string \<Rightarrow> work_item \<Rightarrow> pending_execution" where
  "pending_of_item k x =
    \<lparr>pe_runId = wi_runId x, pe_activationId = opt_or (wi_claimToken x) k, pe_workflowId = wi_workflowId x,
     pe_nodeId = wi_targetNodeId x, pe_itemsIn = wi_itemsIn x, pe_inputsByPort = wi_inputsByPortJson x,
     pe_receiptId = opt_or (wi_claimToken x) k, pe_queue = wi_queueName x, pe_batchId = Some (wi_batchId x),
     pe_enqueuedAt = wi_enqueuedAt x\<rparr>"

definition entry_of_item :: "work_item \<Rightarrow> queue_entry" where
  "entry_of_item x =
    (case wi_inputsByPortJson x of
       [] \<Rightarrow> \<lparr>qe_nodeId = wi_targetNodeId x, qe_input = [], qe_toInput = None, qe_batchId = Some (wi_batchId x), qe_from = None,
         qe_collect = None\<rparr>
     | [(port, its)] \<Rightarrow>
         \<lparr>qe_nodeId = wi_targetNodeId x, qe_input = its, qe_toInput = (if port = ''in'' then None else Some port),
          qe_batchId = Some (wi_batchId x), qe_from = None, qe_collect = None\<rparr>
     | ports \<Rightarrow>
         \<lparr>qe_nodeId = wi_targetNodeId x, qe_input = [], qe_toInput = None, qe_batchId = Some (wi_batchId x), qe_from = None,
          qe_collect = Some \<lparr>cs_expectedInputs = jkeys ports, cs_received = ports\<rparr>\<rparr>)"

text \<open>Queued before claimed, then by time and by id.\<close>

definition item_less :: "table_env \<Rightarrow> string \<times> work_item \<Rightarrow> string \<times> work_item \<Rightarrow> bool" where
  "item_less env a b =
    (let (i, x) = a; (j, y) = b
     in wi_status x = WorkQueued \<and> wi_status y = WorkClaimed
        \<or> wi_status x = wi_status y \<and> (tb_textLess env (wi_enqueuedAt x) (wi_enqueuedAt y)
            \<or> wi_enqueuedAt x = wi_enqueuedAt y \<and> tb_textLess env i j))"

definition items_of_run :: "table_env \<Rightarrow> run_id \<Rightarrow> run_db \<Rightarrow> (string \<times> work_item) list" where
  "items_of_run env r db = stable_sort (item_less env) (filter (\<lambda>(_, x). wi_runId x = r) (pd_workItems db))"

definition loaded_pending :: "(string \<times> work_item) list \<Rightarrow> pending_execution option" where
  "loaded_pending xs =
    fold (\<lambda>(k, x) p. if wi_status x = WorkClaimed then Some (pending_of_item k x) else p) xs None"

definition loaded_queue :: "(string \<times> work_item) list \<Rightarrow> queue_entry list" where
  "loaded_queue xs = map (\<lambda>(k, x). entry_of_item x) (filter (\<lambda>(_, x). wi_status x = WorkQueued) xs)"

definition scheduling_rows :: "table_env \<Rightarrow> run_id \<Rightarrow> run_db \<Rightarrow> (pending_execution option \<times> queue_entry list) option" where
  "scheduling_rows env r db =
    (if \<not> jhas (pd_runs db) r then None
     else Some (loaded_pending (items_of_run env r db), loaded_queue (items_of_run env r db)))"

definition load_scheduling_rows ::
  "table_env \<Rightarrow> string \<Rightarrow> run_db \<Rightarrow> js_error + (pending_execution option \<times> queue_entry list) option" where
  "load_scheduling_rows env runId db =
    bind_result (decode_uri (tb_decodeWide env) runId) (\<lambda>r. Inr (scheduling_rows env r db))"

definition merged_outputs :: "(node_id, node_outputs) jmap \<Rightarrow> (node_id, node_snapshot) jmap \<Rightarrow> (node_id, node_outputs) jmap" where
  "merged_outputs persisted snaps =
    fold (\<lambda>(n, s) m. case ns_outputs s of None \<Rightarrow> m | Some outs \<Rightarrow> jset n outs m) snaps persisted"

definition with_parent :: "parent_ref option \<Rightarrow> (node_id, node_snapshot) jmap \<Rightarrow> (node_id, node_snapshot) jmap" where
  "with_parent p snaps = (case p of None \<Rightarrow> snaps | Some _ \<Rightarrow> map (\<lambda>(n, s). (n, s\<lparr>ns_parent := p\<rparr>)) snaps)"

definition state_of_rows ::
  "table_env \<Rightarrow> run_id \<Rightarrow> run_row \<Rightarrow> (pending_execution option \<times> queue_entry list) option \<Rightarrow> run_db \<Rightarrow> run_state" where
  "state_of_rows env r row scheduling db =
    (let instances = instances_of env r db;
         snaps = loaded_snapshots r (rw_workflowId row) instances;
         invocations = loaded_invocations r (rw_workflowId row) instances
     in \<lparr>rs_runId = r, rs_workflowId = rw_workflowId row, rs_startedAt = rw_startedAt row, rs_finishedAt = rw_finishedAt row,
         rs_revision = Some (rw_revision row), rs_parent = rw_parent row, rs_executionOptions = rw_executionOptions row,
         rs_control = rw_control row, rs_workflowSnapshot = rw_workflowSnapshot row, rs_mutableState = rw_mutableState row,
         rs_policySnapshot = rw_policySnapshot row, rs_engineCounters = rw_engineCounters row, rs_status = rw_status row,
         rs_reason = Option.bind (rw_hitlState row) hs_reason, rs_pending = Option.bind scheduling fst, rs_queue = opt_or (map_option snd scheduling) [],
         rs_outputsByNode = merged_outputs (rw_outputsByNode row) snaps,
         rs_nodeSnapshotsByNodeId = with_parent (rw_parent row) snaps,
         rs_connectionInvocations = (if invocations = [] then None else Some invocations),
         rs_suspension = Option.bind (rw_hitlState row) hs_suspension,
         rs_pendingResume = Option.bind (rw_hitlState row) hs_pendingResume\<rparr>)"

text \<open>The id is decoded, and once more for the queue.\<close>

definition load_rows :: "table_env \<Rightarrow> string \<Rightarrow> run_db \<Rightarrow> js_error + run_state option" where
  "load_rows env runId db =
    bind_result (decode_uri (tb_decodeWide env) runId) (\<lambda>r.
      case jget (pd_runs db) r of
        None \<Rightarrow> Inr None
      | Some row \<Rightarrow>
          bind_result (load_scheduling_rows env r db) (\<lambda>scheduling. Inr (Some (state_of_rows env r row scheduling db))))"

section \<open>Saving\<close>

definition add_work_item :: "table_env \<Rightarrow> string \<times> work_item \<Rightarrow> (string, work_item) jmap \<Rightarrow> js_error + (string, work_item) jmap" where
  "add_work_item env kx m = (if jhas m (fst kx) then Inl (tb_keyViolated env (fst kx)) else Inr (jset (fst kx) (snd kx) m))"

definition replace_work_items :: "table_env \<Rightarrow> run_id \<Rightarrow> (string \<times> work_item) list \<Rightarrow> run_db \<Rightarrow> js_error + run_db" where
  "replace_work_items env r xs db =
    bind_result (fold_result (add_work_item env) xs (filter (\<lambda>(_, x). wi_runId x \<noteq> r) (pd_workItems db)))
      (\<lambda>m. Inr (db\<lparr>pd_workItems := m\<rparr>))"

text \<open>An update leaves the columns of the key, the index and the iteration as they are.\<close>

definition updated_instance :: "instance_row \<Rightarrow> instance_row \<Rightarrow> instance_row" where
  "updated_instance new old =
    new\<lparr>xi_runId := xi_runId old, xi_runIndex := xi_runIndex old, xi_iterationId := xi_iterationId old, xi_itemIndex := xi_itemIndex old,
        xi_parentInvocationId := xi_parentInvocationId old\<rparr>"

definition max_index_by_slot :: "(string \<times> instance_row) list \<Rightarrow> (node_id, nat) jmap" where
  "max_index_by_slot xs =
    fold (\<lambda>(_, x) m. jset (xi_slotNodeId x) (max (opt_or (jget m (xi_slotNodeId x)) 0) (xi_runIndex x)) m) xs []"

definition upsert_instance ::
  "table_env \<Rightarrow> (string \<times> instance_row) list \<Rightarrow> string \<times> instance_row \<Rightarrow> (string, instance_row) jmap \<times> (node_id, nat) jmap
    \<Rightarrow> js_error + (string, instance_row) jmap \<times> (node_id, nat) jmap" where
  "upsert_instance env existing kx acc =
    (let (k, x) = kx; (rows, maxima) = acc
     in case jget existing k of
          Some old \<Rightarrow> Inr (jset k (updated_instance x (opt_or (jget rows k) old)) rows, maxima)
        | None \<Rightarrow>
            if jhas rows k then Inl (tb_keyViolated env k)
            else let i = opt_or (jget maxima (xi_slotNodeId x)) 0 + 1
                 in Inr (jset k (x\<lparr>xi_runIndex := i\<rparr>) rows, jset (xi_slotNodeId x) i maxima))"

definition save_instances :: "table_env \<Rightarrow> run_id \<Rightarrow> (string \<times> instance_row) list \<Rightarrow> run_db \<Rightarrow> js_error + run_db" where
  "save_instances env r xs db =
    (let existing = filter (\<lambda>(_, x). xi_runId x = r) (pd_instances db)
     in bind_result (fold_result (upsert_instance env existing) xs (pd_instances db, max_index_by_slot existing))
          (\<lambda>(rows, _). Inr (db\<lparr>pd_instances := rows\<rparr>)))"

definition concurrent_update :: "run_id \<Rightarrow> js_error" where
  "concurrent_update r = plain_error (''Concurrent run update detected for run '' @ r @ ''.'')"

definition row_of_state :: "run_state \<Rightarrow> iso_time \<Rightarrow> run_row \<Rightarrow> run_row" where
  "row_of_state st now row =
    row\<lparr>rw_workflowId := rs_workflowId st, rw_startedAt := rs_startedAt st, rw_status := rs_status st,
        rw_finishedAt := rs_finishedAt st, rw_updatedAt := now, rw_revision := opt_or (rs_revision st) 0 + 1,
        rw_parent := rs_parent st, rw_executionOptions := rs_executionOptions st, rw_control := rs_control st,
        rw_workflowSnapshot := rs_workflowSnapshot st, rw_policySnapshot := rs_policySnapshot st,
        rw_engineCounters := rs_engineCounters st, rw_mutableState := rs_mutableState st, rw_hitlState := build_hitl st,
        rw_outputsByNode := persisted_outputs st\<rparr>"

text \<open>The row is updated where its revision is the one the state was read with.\<close>

definition update_run_row :: "run_state \<Rightarrow> iso_time \<Rightarrow> run_db \<Rightarrow> js_error + run_db" where
  "update_run_row st now db =
    (case jget (pd_runs db) (rs_runId st) of
       None \<Rightarrow> Inl (concurrent_update (rs_runId st))
     | Some row \<Rightarrow>
         if rw_revision row \<noteq> opt_or (rs_revision st) 0 then Inl (concurrent_update (rs_runId st))
         else Inr (db\<lparr>pd_runs := jset (rs_runId st) (row_of_state st now row) (pd_runs db)\<rparr>))"

text \<open>The other tables refer to the row of the run, which therefore has to be there.\<close>

definition save_once :: "table_env \<Rightarrow> iso_time \<Rightarrow> run_state \<Rightarrow> run_db \<Rightarrow> js_error + run_db" where
  "save_once env now st db =
    (if \<not> jhas (pd_runs db) (rs_runId st) then Inl (tb_keyViolated env (rs_runId st))
     else bind_result (replace_work_items env (rs_runId st) (build_work_items st now) db) (\<lambda>db1.
       bind_result (save_instances env (rs_runId st) (build_instances st) db1) (\<lambda>db2.
         update_run_row st now (db2\<lparr>pd_projections := jset (rs_runId st) (build_projection st) (pd_projections db2)\<rparr>))))"

section \<open>Conflicts\<close>

text \<open>An object spread copies the properties an object has, whether their value is \<open>undefined\<close> or not.  Of the properties that
  \<open>mergeConcurrentState\<close> does not name, these may be missing; one with a value is there.\<close>

datatype optional_property = FinishedAtProperty | SuspensionProperty | PendingResumeProperty | ReasonProperty

definition pick_property :: "bool \<Rightarrow> 'a option \<Rightarrow> 'a option \<Rightarrow> 'a option" where
  "pick_property own desired latest = (if own \<or> desired \<noteq> None then desired else latest)"

definition merge_node_snapshots :: "(node_id, node_snapshot) jmap \<Rightarrow> (node_id, node_snapshot) jmap \<Rightarrow> (node_id, node_snapshot) jmap" where
  "merge_node_snapshots latest desired =
    fold (\<lambda>(n, s) m. case jget m n of
        None \<Rightarrow> jset n s m
      | Some current \<Rightarrow> if string_less (ns_updatedAt s) (ns_updatedAt current) then m else jset n s m) desired latest"

definition record_less :: "table_env \<Rightarrow> connection_invocation \<Rightarrow> connection_invocation \<Rightarrow> bool" where
  "record_less env a b =
    (tb_localeLess env (ci_updatedAt a) (ci_updatedAt b)
     \<or> \<not> tb_localeLess env (ci_updatedAt b) (ci_updatedAt a) \<and> tb_localeLess env (ci_invocationId a) (ci_invocationId b))"

definition merge_invocations ::
  "table_env \<Rightarrow> connection_invocation list option \<Rightarrow> connection_invocation list option \<Rightarrow> connection_invocation list" where
  "merge_invocations env latest desired =
    stable_sort (record_less env) (map snd
      (fold (\<lambda>v m. case jget m (ci_invocationId v) of
          None \<Rightarrow> jset (ci_invocationId v) v m
        | Some current \<Rightarrow> if string_less (ci_updatedAt v) (ci_updatedAt current) then m else jset (ci_invocationId v) v m)
        (opt_or desired []) (fold (\<lambda>v m. jset (ci_invocationId v) v m) (opt_or latest []) [])))"

definition merge_concurrent :: "table_env \<Rightarrow> optional_property set \<Rightarrow> run_state \<Rightarrow> run_state \<Rightarrow> run_state" where
  "merge_concurrent env own latest desired =
    desired\<lparr>rs_finishedAt := pick_property (FinishedAtProperty \<in> own) (rs_finishedAt desired) (rs_finishedAt latest),
      rs_revision := rs_revision latest,
      rs_parent := opt_else (rs_parent desired) (rs_parent latest),
      rs_executionOptions := opt_else (rs_executionOptions desired) (rs_executionOptions latest),
      rs_control := opt_else (rs_control desired) (rs_control latest),
      rs_workflowSnapshot := opt_else (rs_workflowSnapshot desired) (rs_workflowSnapshot latest),
      rs_mutableState := opt_else (rs_mutableState desired) (rs_mutableState latest),
      rs_policySnapshot := opt_else (rs_policySnapshot desired) (rs_policySnapshot latest),
      rs_engineCounters := opt_else (rs_engineCounters desired) (rs_engineCounters latest),
      rs_reason := pick_property (ReasonProperty \<in> own) (rs_reason desired) (rs_reason latest),
      rs_outputsByNode := jspread (rs_outputsByNode latest) (rs_outputsByNode desired),
      rs_nodeSnapshotsByNodeId := merge_node_snapshots (rs_nodeSnapshotsByNodeId latest) (rs_nodeSnapshotsByNodeId desired),
      rs_connectionInvocations := Some (merge_invocations env (rs_connectionInvocations latest) (rs_connectionInvocations desired)),
      rs_suspension := pick_property (SuspensionProperty \<in> own) (rs_suspension desired) (rs_suspension latest),
      rs_pendingResume := pick_property (PendingResumeProperty \<in> own) (rs_pendingResume desired) (rs_pendingResume latest)\<rparr>"

text \<open>The properties a loaded state has.\<close>

definition loaded_properties :: "run_id \<Rightarrow> run_db \<Rightarrow> optional_property set" where
  "loaded_properties r db =
    (if Option.bind (jget (pd_runs db) r) rw_hitlState = None then {FinishedAtProperty}
     else {FinishedAtProperty, SuspensionProperty, PendingResumeProperty, ReasonProperty})"

definition is_concurrent :: "js_error \<Rightarrow> bool" where
  "is_concurrent e = str_includes ''Concurrent run update detected'' (err_message e)"

text \<open>Three attempts; \<open>others n\<close> is what happens to the database while the save waits for the n-th time.\<close>

primrec save_attempts ::
  "table_env \<Rightarrow> (nat \<Rightarrow> iso_time) \<Rightarrow> (nat \<Rightarrow> run_db \<Rightarrow> run_db) \<Rightarrow> nat \<Rightarrow> optional_property set \<Rightarrow> run_state \<Rightarrow> run_db
    \<Rightarrow> (js_error + unit) \<times> run_db" where
  "save_attempts env now others 0 own st db =
    (case save_once env (now 0) st db of Inl e \<Rightarrow> (Inl e, db) | Inr db' \<Rightarrow> (Inr (), db'))"
| "save_attempts env now others (Suc k) own st db =
    (case save_once env (now (Suc k)) st db of
       Inr db' \<Rightarrow> (Inr (), db')
     | Inl e \<Rightarrow>
         if \<not> is_concurrent e then (Inl e, db)
         else let db1 = others (2 * k + 1) db
              in case load_rows env (rs_runId st) db1 of
                   Inl e' \<Rightarrow> (Inl e', db1)
                 | Inr None \<Rightarrow> (Inl e, db1)
                 | Inr (Some latest) \<Rightarrow>
                     save_attempts env now others k (own \<union> loaded_properties (rs_runId latest) db1)
                       (merge_concurrent env own latest st) (others (2 * k) db1))"

definition save_rows ::
  "table_env \<Rightarrow> (nat \<Rightarrow> iso_time) \<Rightarrow> (nat \<Rightarrow> run_db \<Rightarrow> run_db) \<Rightarrow> optional_property set \<Rightarrow> run_state \<Rightarrow> run_db \<Rightarrow> (js_error + unit) \<times> run_db" where
  "save_rows env now others own st db = save_attempts env now others 2 own st db"

section \<open>Deleting and listing\<close>

text \<open>The rows of a run go with it.\<close>

definition delete_run_row :: "table_env \<Rightarrow> string \<Rightarrow> run_db \<Rightarrow> js_error + run_db" where
  "delete_run_row env runId db =
    bind_result (decode_uri (tb_decodeWide env) runId) (\<lambda>r.
      if \<not> jhas (pd_runs db) r then Inl (tb_rowMissing env)
      else Inr \<lparr>pd_runs = jremove r (pd_runs db), pd_workItems = filter (\<lambda>(_, x). wi_runId x \<noteq> r) (pd_workItems db),
            pd_instances = filter (\<lambda>(_, x). xi_runId x \<noteq> r) (pd_instances db), pd_projections = jremove r (pd_projections db)\<rparr>)"

definition update_case_status :: "table_env \<Rightarrow> string \<Rightarrow> string \<Rightarrow> run_db \<Rightarrow> js_error + run_db" where
  "update_case_status env runId status db =
    bind_result (decode_uri (tb_decodeWide env) runId) (\<lambda>r.
      case jget (pd_runs db) r of
        None \<Rightarrow> Inl (tb_rowMissing env)
      | Some row \<Rightarrow> Inr (db\<lparr>pd_runs := jset r (row\<lparr>rw_testCaseStatus := Some status\<rparr>) (pd_runs db)\<rparr>))"

record listed_run = run_summary +
  su_testCaseStatus :: "string option"

definition known_case_status :: "string option \<Rightarrow> string option" where
  "known_case_status v =
    Option.bind v (\<lambda>s. if s \<in> {''running'', ''succeeded'', ''failed'', ''errored'', ''cancelled''} then Some s else None)"

definition listed_of_row :: "run_id \<times> run_row \<Rightarrow> listed_run" where
  "listed_of_row rr =
    (let (r, row) = rr
     in \<lparr>su_runId = r, su_workflowId = rw_workflowId row, su_startedAt = rw_startedAt row, su_status = rw_status row,
         su_finishedAt = (if rw_status row \<in> {RunCompleted, RunFailed} then Some (opt_or (rw_finishedAt row) (rw_updatedAt row)) else None),
         su_parent = rw_parent row, su_executionOptions = rw_executionOptions row,
         su_testCaseStatus = known_case_status (rw_testCaseStatus row)\<rparr>)"

definition list_run_rows :: "table_env \<Rightarrow> string option \<Rightarrow> nat option \<Rightarrow> run_db \<Rightarrow> js_error + listed_run list" where
  "list_run_rows env workflowId limit db =
    bind_result (case given workflowId of None \<Rightarrow> Inr None | Some w \<Rightarrow> map_sum id Some (decode_uri (tb_decodeWide env) w)) (\<lambda>wid.
      let rows = filter (\<lambda>(_, row). case given wid of None \<Rightarrow> True | Some w \<Rightarrow> rw_workflowId row = w) (pd_runs db)
      in Inr (map listed_of_row (take (opt_or limit 50)
           (stable_sort (\<lambda>a b. tb_textLess env (rw_startedAt (snd b)) (rw_startedAt (snd a))) rows))))"

definition candidate_of_row :: "run_id \<times> run_row \<Rightarrow> prune_candidate" where
  "candidate_of_row rr =
    (let (r, row) = rr
     in \<lparr>pc_runId = r, pc_workflowId = rw_workflowId row, pc_startedAt = rw_startedAt row,
         pc_finishedAt = opt_or (rw_finishedAt row) (rw_updatedAt row)\<rparr>)"

definition retention_over :: "table_env \<Rightarrow> iso_time \<Rightarrow> int \<Rightarrow> run_row \<Rightarrow> bool" where
  "retention_over env now default_seconds row =
    (let seconds = opt_or (Option.bind (rw_policySnapshot row) ps_retentionSeconds) default_seconds
     in string_less (opt_or (rw_finishedAt row) (rw_updatedAt row)) (tb_secondsBefore env now seconds))"

definition rows_older_than :: "table_env \<Rightarrow> iso_time \<Rightarrow> int \<Rightarrow> nat option \<Rightarrow> run_db \<Rightarrow> prune_candidate list" where
  "rows_older_than env now default_seconds limit db =
    (let n = opt_or limit 100;
         ended = filter (\<lambda>(_, row). rw_status row \<in> {RunCompleted, RunFailed}) (pd_runs db);
         oldest = take (4 * n) (stable_sort (\<lambda>a b. tb_textLess env (rw_updatedAt (snd a)) (rw_updatedAt (snd b))) ended)
     in map candidate_of_row (take n (filter (\<lambda>(_, row). retention_over env now default_seconds row) oldest)))"

section \<open>Details for the canvas\<close>

record instance_dto =
  id_instanceId :: string
  id_slotNodeId :: node_id
  id_workflowNodeId :: node_id
  id_kind :: instance_kind
  id_connectionKind :: "string option"
  id_runIndex :: nat
  id_batchId :: string
  id_activationId :: "activation_id option"
  id_status :: node_status
  id_queuedAt :: "iso_time option"
  id_startedAt :: "iso_time option"
  id_finishedAt :: "iso_time option"
  id_itemCount :: nat
  id_inputJson :: "row_json option"
  id_outputJson :: "row_json option"
  id_error :: "node_error option"
  id_iterationId :: "string option"
  id_itemIndex :: "nat option"
  id_parentInvocationId :: "string option"
  id_childRunId :: "run_id option"

definition dto_of_row :: "string \<times> instance_row \<Rightarrow> instance_dto" where
  "dto_of_row kx =
    (let (k, x) = kx
     in \<lparr>id_instanceId = k, id_slotNodeId = xi_slotNodeId x, id_workflowNodeId = xi_workflowNodeId x, id_kind = xi_kind x,
         id_connectionKind = xi_connectionKind x, id_runIndex = xi_runIndex x, id_batchId = xi_batchId x,
         id_activationId = xi_activationId x, id_status = xi_status x, id_queuedAt = xi_queuedAt x, id_startedAt = xi_startedAt x,
         id_finishedAt = xi_finishedAt x, id_itemCount = xi_itemCount x, id_inputJson = xi_inputJson x,
         id_outputJson = xi_outputJson x, id_error = xi_errorJson x, id_iterationId = xi_iterationId x,
         id_itemIndex = xi_itemIndex x, id_parentInvocationId = xi_parentInvocationId x, id_childRunId = xi_childRunId x\<rparr>)"

record run_detail =
  rd_runId :: run_id
  rd_workflowId :: workflow_id
  rd_startedAt :: iso_time
  rd_finishedAt :: "iso_time option"
  rd_status :: run_status
  rd_workflowSnapshot :: "workflow_snapshot option"
  rd_mutableState :: "mutable_run_state option"
  rd_slotStates :: "(node_id \<times> slot_state) list"
  rd_executionInstances :: "instance_dto list"

definition updated_less :: "table_env \<Rightarrow> string \<times> instance_row \<Rightarrow> string \<times> instance_row \<Rightarrow> bool" where
  "updated_less env a b =
    (tb_textLess env (xi_updatedAt (snd a)) (xi_updatedAt (snd b))
     \<or> xi_updatedAt (snd a) = xi_updatedAt (snd b) \<and> xi_runIndex (snd a) < xi_runIndex (snd b))"

definition load_run_detail :: "table_env \<Rightarrow> string \<Rightarrow> run_db \<Rightarrow> js_error + run_detail option" where
  "load_run_detail env runId db =
    bind_result (decode_uri (tb_decodeWide env) runId) (\<lambda>r. Inr
      (map_option (\<lambda>row. \<lparr>rd_runId = r, rd_workflowId = rw_workflowId row, rd_startedAt = rw_startedAt row,
          rd_finishedAt = rw_finishedAt row, rd_status = rw_status row, rd_workflowSnapshot = rw_workflowSnapshot row,
          rd_mutableState = rw_mutableState row, rd_slotStates = opt_or (jget (pd_projections db) r) [],
          rd_executionInstances =
            map dto_of_row (stable_sort (updated_less env) (filter (\<lambda>(_, x). xi_runId x = r) (pd_instances db)))\<rparr>)
        (jget (pd_runs db) r)))"

section \<open>Keys of binaries\<close>

definition js_of_ports :: "(port_key, items) jmap \<Rightarrow> jsval" where
  "js_of_ports ports = JObj (map (\<lambda>(p, its). (p, JArr (map js_of_item its))) ports)"

definition js_of_mutable :: "mutable_run_state \<Rightarrow> jsval" where
  "js_of_mutable m =
    JObj [(''nodesById'', JObj (map (\<lambda>(n, x). (n, JObj
      (optional_field ''pinnedOutputsByPort'' (map_option js_of_ports (mn_pinnedOutputsByPort x))
       @ optional_field ''lastDebugInput'' (map_option (\<lambda>its. JArr (map js_of_item its)) (mn_lastDebugInput x))))) (mr_nodesById m)))]"

fun js_of_row :: "row_json \<Rightarrow> jsval" where
  "js_of_row (PortsText m) = js_of_ports m"
| "js_of_row (ValueText v) = v"

text \<open>An object with the fields of an attachment is one, wherever it is, and is not searched further.\<close>

definition attachment_key :: "(string \<times> jsval) list \<Rightarrow> string option" where
  "attachment_key m =
    (case (jget m ''id'', jget m ''storageKey'', jget m ''mimeType'', jget m ''size'') of
       (Some (JStr _), Some (JStr key), Some (JStr _), Some (JNum _)) \<Rightarrow> Some key
     | _ \<Rightarrow> None)"

fun binary_keys :: "jsval \<Rightarrow> string list" where
  "binary_keys (JArr xs) = concat (map binary_keys xs)"
| "binary_keys (JObj m) =
    (case attachment_key m of
       Some key \<Rightarrow> if key = [] then [] else [key]
     | None \<Rightarrow> concat (map (\<lambda>(_, v). binary_keys v) m))"
| "binary_keys _ = []"

definition list_binary_keys :: "table_env \<Rightarrow> string \<Rightarrow> run_db \<Rightarrow> js_error + string list" where
  "list_binary_keys env runId db =
    bind_result (decode_uri (tb_decodeWide env) runId) (\<lambda>r. Inr
      (case jget (pd_runs db) r of
         None \<Rightarrow> []
       | Some row \<Rightarrow>
           let instances = filter (\<lambda>x. xi_runId x = r) (map snd (pd_instances db));
               texts = [JObj (map (\<lambda>(n, ports). (n, js_of_ports ports)) (rw_outputsByNode row))]
                 @ (case rw_mutableState row of None \<Rightarrow> [] | Some m \<Rightarrow> [js_of_mutable m])
                 @ concat (map (\<lambda>x. map js_of_row (case xi_inputJson x of None \<Rightarrow> [] | Some t \<Rightarrow> [t])
                     @ map js_of_row (case xi_outputJson x of None \<Rightarrow> [] | Some t \<Rightarrow> [t])) instances)
           in stable_sort (tb_localeLess env) (dedupe (concat (map binary_keys texts)))))"

end
