(* ===== verification/RunTableFacts.thy ===== *)
theory RunTableFacts
  imports RunTables
begin

text \<open>
  What becomes of a run that is written to the database and read again: which parts come back, which do not, and what two
  clients that write the same run do to each other.
\<close>

section \<open>Rows\<close>

lemma jset_new: "\<not> jhas m k \<Longrightarrow> jset k v m = m @ [(k, v)]"
  by (induction m) (auto simp: jhas_def split: if_splits)

lemma stable_sort_sorted: "sorted_wrt (\<lambda>a b. \<not> before b a) xs \<Longrightarrow> stable_sort before xs = xs"
  by (induction xs) (auto simp: stable_sort_def neq_Nil_conv split: list.split, metis insert_stable.simps list.exhaust list.set_intros(1))

lemma added_work_items: "fold_result (add_work_item env) xs m = Inr m' \<Longrightarrow> m' = m @ xs"
proof (induction xs arbitrary: m)
  case (Cons x xs)
  then have "\<not> jhas m (fst x)" and "fold_result (add_work_item env) xs (m @ [x]) = Inr m'"
    by (simp_all add: add_work_item_def [of env x] jset_new split: if_splits)
  from Cons.IH [OF this(2)] show ?case by simp
qed simp

lemma built_items_of_run: "(k, x) \<in> set (build_work_items st now) \<Longrightarrow> wi_runId x = rs_runId st"
  by (auto simp: build_work_items_def queued_item_def claimed_item_def split: option.splits)

lemma built_rows_of_run: "(k, x) \<in> set (build_instances st) \<Longrightarrow> xi_runId x = rs_runId st"
  by (auto simp: build_instances_def node_row_def invocation_row_def Let_def)

text \<open>What a successful transaction leaves.\<close>

lemma saved_tables:
  assumes "save_once env now st db = Inr db'"
  obtains row mx where "jget (pd_runs db) (rs_runId st) = Some row" "rw_revision row = opt_or (rs_revision st) 0"
    "pd_runs db' = jset (rs_runId st) (row_of_state st now row) (pd_runs db)"
    "pd_workItems db' = filter (\<lambda>(_, x). wi_runId x \<noteq> rs_runId st) (pd_workItems db) @ build_work_items st now"
    "fold_result (upsert_instance env (filter (\<lambda>(_, x). xi_runId x = rs_runId st) (pd_instances db))) (build_instances st)
       (pd_instances db, max_index_by_slot (filter (\<lambda>(_, x). xi_runId x = rs_runId st) (pd_instances db)))
       = Inr (pd_instances db', mx)"
    "pd_projections db' = jset (rs_runId st) (build_projection st) (pd_projections db)"
proof -
  from assms obtain items db2 where 1: "fold_result (add_work_item env) (build_work_items st now)
        (filter (\<lambda>(_, x). wi_runId x \<noteq> rs_runId st) (pd_workItems db)) = Inr items"
      "save_instances env (rs_runId st) (build_instances st) (db\<lparr>pd_workItems := items\<rparr>) = Inr db2"
      "update_run_row st now (db2\<lparr>pd_projections := jset (rs_runId st) (build_projection st) (pd_projections db2)\<rparr>) = Inr db'"
    by (auto simp: save_once_def replace_work_items_def bind_result_Inr_iff split: if_splits)
  from 1(2) obtain rows mx where 2: "fold_result (upsert_instance env (filter (\<lambda>(_, x). xi_runId x = rs_runId st) (pd_instances db)))
        (build_instances st) (pd_instances db, max_index_by_slot (filter (\<lambda>(_, x). xi_runId x = rs_runId st) (pd_instances db)))
       = Inr (rows, mx)" "db2 = db\<lparr>pd_workItems := items, pd_instances := rows\<rparr>"
    by (auto simp: save_instances_def bind_result_Inr_iff Let_def)
  from 1(3) 2(2) obtain row where "jget (pd_runs db) (rs_runId st) = Some row" "rw_revision row = opt_or (rs_revision st) 0"
      "db' = db\<lparr>pd_workItems := items, pd_instances := rows,
        pd_projections := jset (rs_runId st) (build_projection st) (pd_projections db),
        pd_runs := jset (rs_runId st) (row_of_state st now row) (pd_runs db)\<rparr>"
    by (auto simp: update_run_row_def split: option.splits if_splits)
  then show thesis using that [of row mx] 2(1) added_work_items [OF 1(1)] by simp
qed

section \<open>The queue\<close>

definition reread_entry :: "queue_entry \<Rightarrow> queue_entry" where
  "reread_entry q =
    (let b = Some (batch_or_first (qe_batchId q));
         job = (\<lambda>port its. \<lparr>qe_nodeId = qe_nodeId q, qe_input = its, qe_toInput = (if port = ''in'' then None else Some port),
           qe_batchId = b, qe_from = None, qe_collect = None\<rparr>)
     in case map_option cs_received (qe_collect q) of
          None \<Rightarrow> job (opt_or (qe_toInput q) ''in'') (qe_input q)
        | Some [] \<Rightarrow> job ''in'' []
        | Some [(port, its)] \<Rightarrow> job port its
        | Some ports \<Rightarrow> \<lparr>qe_nodeId = qe_nodeId q, qe_input = [], qe_toInput = None, qe_batchId = b, qe_from = None,
            qe_collect = Some \<lparr>cs_expectedInputs = jkeys ports, cs_received = ports\<rparr>\<rparr>)"

definition reread_pending :: "run_state \<Rightarrow> pending_execution \<Rightarrow> pending_execution" where
  "reread_pending st p =
    p\<lparr>pe_runId := rs_runId st, pe_workflowId := rs_workflowId st, pe_receiptId := pe_activationId p,
      pe_batchId := Some (batch_or_first (pe_batchId p))\<rparr>"

text \<open>The database does not order the rows of a queue against the order of the queue.\<close>

definition keeps_queue_order :: "table_env \<Rightarrow> iso_time \<Rightarrow> run_state \<Rightarrow> bool" where
  "keeps_queue_order env now st =
    (\<not> tb_textLess env now now \<and>
     (\<forall>i < length (rs_queue st). \<forall>j < i. \<not> tb_textLess env (queued_item_id (rs_runId st) i (rs_queue st ! i))
        (queued_item_id (rs_runId st) j (rs_queue st ! j))))"

lemma entry_of_queued: "entry_of_item (queued_item st now q) = reread_entry q"
  by (simp add: entry_of_item_def queued_item_def reread_entry_def entry_inputs_def Let_def split: option.split list.split prod.split)

lemma pending_of_claimed: "pending_of_item k (claimed_item st p) = reread_pending st p"
  by (simp add: pending_of_item_def claimed_item_def reread_pending_def)

lemma built_items_sorted:
  assumes "keeps_queue_order env now st"
  shows "stable_sort (item_less env) (build_work_items st now) = build_work_items st now"
proof (rule stable_sort_sorted)
  let ?qs = "map (\<lambda>(i, q). (queued_item_id (rs_runId st) i q, queued_item st now q)) (enumerate 0 (rs_queue st))"
  have "sorted_wrt (\<lambda>a b. \<not> item_less env b a) ?qs"
    using assms
    by (auto simp: sorted_wrt_iff_nth_less nth_enumerate_eq item_less_def queued_item_def keeps_queue_order_def)
  then show "sorted_wrt (\<lambda>a b. \<not> item_less env b a) (build_work_items st now)"
    by (auto simp: build_work_items_def sorted_wrt_append item_less_def queued_item_def claimed_item_def split: option.split)
qed

lemma queue_rows_only: "fold (\<lambda>(k, x) p. if wi_status x = WorkClaimed then Some (pending_of_item k x) else p)
    (map (\<lambda>(i, q). (f i q, queued_item st now q)) qs) p = p"
  by (induction qs arbitrary: p) (auto simp: queued_item_def)

lemma loaded_built:
  "loaded_pending (build_work_items st now) = map_option (reread_pending st) (rs_pending st)"
  "loaded_queue (build_work_items st now) = map reread_entry (rs_queue st)"
proof -
  show "loaded_pending (build_work_items st now) = map_option (reread_pending st) (rs_pending st)"
    by (auto simp: loaded_pending_def build_work_items_def queue_rows_only pending_of_claimed split: option.split)
       (simp add: claimed_item_def)
  have queued: "map (\<lambda>(k, x). entry_of_item x) (filter (\<lambda>(_, x). wi_status x = WorkQueued)
      (map (\<lambda>(i, q). (f i q, queued_item st now q)) (enumerate n qs))) = map reread_entry qs" for f n qs
  proof (induction qs arbitrary: n)
    case (Cons q qs)
    have "wi_status (queued_item st now q) = WorkQueued" by (simp add: queued_item_def)
    with Cons show ?case by (simp add: entry_of_queued)
  qed simp
  show "loaded_queue (build_work_items st now) = map reread_entry (rs_queue st)"
    using queued [of "queued_item_id (rs_runId st)" 0 "rs_queue st"]
    by (auto simp: loaded_queue_def build_work_items_def claimed_item_def split: option.split)
qed

lemma saved_items:
  assumes "save_once env now st db = Inr db'" "keeps_queue_order env now st"
  shows "items_of_run env (rs_runId st) db' = build_work_items st now"
proof -
  have "filter (\<lambda>(_, x). wi_runId x = rs_runId st) (build_work_items st now) = build_work_items st now"
    using built_items_of_run by (auto simp: filter_id_conv)
  then show ?thesis
    using built_items_sorted [OF assms(2)] by - (rule saved_tables [OF assms(1)], simp add: items_of_run_def split_def)
qed

text \<open>What loading gives for an id without percent signs.\<close>

definition load_row :: "table_env \<Rightarrow> run_id \<Rightarrow> run_db \<Rightarrow> run_state option" where
  "load_row env r db = map_option (\<lambda>row. state_of_rows env r row (scheduling_rows env r db) db) (jget (pd_runs db) r)"

lemma load_plain: "CHR ''%'' \<notin> set r \<Longrightarrow> load_rows env r db = Inr (load_row env r db)"
  by (simp add: load_rows_def load_scheduling_rows_def load_row_def decode_plain split: option.split)

lemma saved_state:
  assumes "save_once env now st db = Inr db'"
  obtains row where "load_row env (rs_runId st) db' = Some (state_of_rows env (rs_runId st) (row_of_state st now row)
      (Some (loaded_pending (items_of_run env (rs_runId st) db'), loaded_queue (items_of_run env (rs_runId st) db'))) db')"
  using assms by (rule saved_tables) (simp add: load_row_def scheduling_rows_def jhas_def that)


text \<open>Up to ten entries of a queue keep their order when the database compares the codes of characters; an eleventh is read
  before the third.\<close>

lemma string_less_prefix: "string_less (p @ a) (p @ b) = string_less a b"
  by (induction p) auto

lemma digit_less: "j < i \<Longrightarrow> i < 10 \<Longrightarrow> \<not> string_less (string_of_nat i @ s) (string_of_nat j @ t)"
proof -
  have "\<forall>i < 10. \<forall>j < i. length (string_of_nat j) = 1 \<and> length (string_of_nat i) = 1
      \<and> (of_char (hd (string_of_nat j)) :: nat) < of_char (hd (string_of_nat i))"
    by code_simp
  moreover assume "j < i" "i < 10"
  ultimately have len: "length (string_of_nat j) = 1" "length (string_of_nat i) = 1"
      "(of_char (hd (string_of_nat j)) :: nat) < of_char (hd (string_of_nat i))" by blast+
  then obtain c d where "string_of_nat j = [c]" "string_of_nat i = [d]" by (auto simp: length_Suc_conv)
  with len(3) show ?thesis by auto
qed

lemma ten_entries_keep_order:
  assumes "tb_textLess env = string_less" "length (rs_queue st) \<le> 10"
  shows "keeps_queue_order env now st"
  using assms by (auto simp: keeps_queue_order_def queued_item_id_def string_less_prefix digit_less string_less_irrefl)

lemma eleventh_entry_before_third: "string_less (queued_item_id r 10 q) (queued_item_id r 2 q')"
proof -
  have "string_of_nat 10 = ''10''" "string_of_nat 2 = ''2''" by code_simp+
  then show ?thesis by (simp add: queued_item_id_def string_less_prefix)
qed

section \<open>Merge nodes\<close>

text \<open>C12. A merge node that has received the items of its first branch when its run is written to the database is read back as a
  job of its own.  When the second branch arrives, the node runs once for each branch, with the items of the other missing,
  where the queue that was written has it run once, with both.\<close>

theorem stored_merge_runs_twice:
  assumes "save_once env now st db = Inr db'" "keeps_queue_order env now st"
    and "rs_queue st = [\<lparr>qe_nodeId = n, qe_input = [], qe_toInput = None, qe_batchId = Some b, qe_from = None,
      qe_collect = Some \<lparr>cs_expectedInputs = [p1, p2], cs_received = [(p1, its1)]\<rparr>\<rparr>]"
    and "p1 \<noteq> p2" "topo_expected (pl_topology pl) n = [p1, p2]" "jget (tp_defsById (pl_topology pl)) n = Some d" "nd_kind d = NodeKind"
    and "to_nodeId (ea_to a) = n" "to_collectKey (ea_to a) = p2" "ea_batchId a = b"
    and "scheduling_rows env (rs_runId st) db' = Some (pend, queue)"
  shows "next_activation pl (enqueue_collect pl a (rs_queue st)) = Inr (Some (MultiActivation n [(p1, its1), (p2, ea_items a)] b), [])
    \<and> (\<exists>rest. next_activation pl (enqueue_collect pl a queue) = Inr (Some (SingleActivation n its1 b), rest)
        \<and> next_activation pl rest = Inr (Some (MultiActivation n [(p2, ea_items a), (p1, [])] b), []))"
proof -
  let ?job = "\<lparr>qe_nodeId = n, qe_input = its1, qe_toInput = (if p1 = ''in'' then None else Some p1), qe_batchId = Some b, qe_from = None,
    qe_collect = None\<rparr>"
  let ?late = "\<lparr>qe_nodeId = n, qe_input = [], qe_toInput = None, qe_batchId = Some b, qe_from = None,
    qe_collect = Some \<lparr>cs_expectedInputs = [p1, p2], cs_received = [(p2, ea_items a)]\<rparr>\<rparr>"
  have "jget (pd_runs db') (rs_runId st) \<noteq> None" using assms(1) by (rule saved_tables) simp
  then have queue: "queue = [?job]"
    using assms(11) unfolding scheduling_rows_def saved_items [OF assms(1,2)] loaded_built
    by (simp add: assms(3) reread_entry_def batch_or_first_def split: if_splits)
  have arrived: "enqueue_collect pl a queue = [?job, ?late]"
    by (simp add: queue enqueue_collect_def is_collect_for_def entry_batch_def new_collect_def receive_def assms(5,8,9,10))
  have first: "next_activation pl [?job, ?late] = Inr (Some (SingleActivation n its1 b), [?late])"
    using assms(4,6,7)
    by (simp add: next_activation.simps [of pl "[?job, ?late]"] resolve_ready_collect_def collect_ready_def remove_at_def
        entry_batch_def jhas_def)
  have second: "next_activation pl [?late] = Inr (Some (MultiActivation n [(p2, ea_items a), (p1, [])] b), [])"
    using assms(4)
    by (simp add: next_activation.simps [of pl "[?late]"] resolve_ready_collect_def collect_ready_def resolve_sealed_collect_def
        has_received_def try_dequeue_collect_def fill_missing_def remove_at_def entry_batch_def jhas_def)
  have "next_activation pl (enqueue_collect pl a (rs_queue st)) = Inr (Some (MultiActivation n [(p1, its1), (p2, ea_items a)] b), [])"
    using assms(4)
    by (simp add: assms(3,8,9,10) enqueue_collect_def is_collect_for_def entry_batch_def receive_def next_activation.simps
        resolve_ready_collect_def collect_ready_def try_dequeue_collect_def remove_at_def jhas_def)
  with first second arrived show ?thesis by simp
qed

section \<open>Two clients\<close>

lemma merged_sel [simp]:
  "rs_runId (merge_concurrent env own latest st) = rs_runId st" "rs_status (merge_concurrent env own latest st) = rs_status st"
  "rs_pending (merge_concurrent env own latest st) = rs_pending st" "rs_queue (merge_concurrent env own latest st) = rs_queue st"
  "rs_workflowId (merge_concurrent env own latest st) = rs_workflowId st"
  by (simp_all add: merge_concurrent_def)

lemma attempts_end_in_save:
  "save_attempts env now others k own st db = (Inr (), db') \<Longrightarrow>
    \<exists>t moment db1. save_once env moment t db1 = Inr db' \<and> rs_runId t = rs_runId st \<and> rs_status t = rs_status st
      \<and> rs_pending t = rs_pending st \<and> rs_queue t = rs_queue st \<and> rs_workflowId t = rs_workflowId st"
proof (induction k arbitrary: own st db)
  case (Suc k)
  then show ?case
    by (auto simp: Let_def split: sum.splits if_splits option.splits dest!: Suc.IH) fastforce+
qed (auto split: sum.splits)

lemma filter_claimed: "filter (\<lambda>(_, x). wi_status x = WorkClaimed) (build_work_items st now)
    = (case rs_pending st of None \<Rightarrow> [] | Some p \<Rightarrow> [(pe_activationId p, claimed_item st p)])"
proof -
  have "filter (\<lambda>(_, x). wi_status x = WorkClaimed) (map (\<lambda>(i, q). (f i q, queued_item st now q)) qs) = []" for f qs
    by (induction qs) (auto simp: queued_item_def)
  then show ?thesis by (auto simp: build_work_items_def claimed_item_def split: option.split)
qed

lemma loaded_pending_filter:
  "loaded_pending xs = fold (\<lambda>(k, x) p. Some (pending_of_item k x)) (filter (\<lambda>(_, x). wi_status x = WorkClaimed) xs) None"
proof -
  have "fold (\<lambda>(k, x) p. if wi_status x = WorkClaimed then Some (pending_of_item k x) else p) xs p
      = fold (\<lambda>(k, x) p. Some (pending_of_item k x)) (filter (\<lambda>(_, x). wi_status x = WorkClaimed) xs) p" for p
    by (induction xs arbitrary: p) auto
  then show ?thesis by (simp add: loaded_pending_def)
qed

lemma singleton_of_mset: "mset xs = mset [x] \<Longrightarrow> xs = [x]" "mset xs = mset [] \<Longrightarrow> xs = []"
  by (cases xs; auto simp: single_is_union)+

lemma loaded_after_save:
  assumes "save_once env now st db = Inr db'"
  shows "loaded_pending (items_of_run env (rs_runId st) db') = map_option (reread_pending st) (rs_pending st)"
    and "mset (loaded_queue (items_of_run env (rs_runId st) db')) = mset (map reread_entry (rs_queue st))"
proof -
  have "filter (\<lambda>(_, x). wi_runId x = rs_runId st) (build_work_items st now) = build_work_items st now"
    using built_items_of_run by (auto simp: filter_id_conv)
  then have items: "items_of_run env (rs_runId st) db' = stable_sort (item_less env) (build_work_items st now)"
    using assms by - (rule saved_tables [OF assms], simp add: items_of_run_def split_def)
  have "mset (filter (\<lambda>(_, x). wi_status x = WorkClaimed) (stable_sort (item_less env) (build_work_items st now)))
      = mset (case rs_pending st of None \<Rightarrow> [] | Some p \<Rightarrow> [(pe_activationId p, claimed_item st p)])"
    using filter_claimed [of st now] by (metis mset_filter mset_stable_sort)
  then have "filter (\<lambda>(_, x). wi_status x = WorkClaimed) (stable_sort (item_less env) (build_work_items st now))
      = (case rs_pending st of None \<Rightarrow> [] | Some p \<Rightarrow> [(pe_activationId p, claimed_item st p)])"
    by (cases "rs_pending st") (simp_all only: option.case singleton_of_mset)
  then show "loaded_pending (items_of_run env (rs_runId st) db') = map_option (reread_pending st) (rs_pending st)"
    by (simp add: items loaded_pending_filter pending_of_claimed split: option.split)
  have "mset (loaded_queue (stable_sort (item_less env) xs)) = mset (loaded_queue xs)" for xs
    by (simp add: loaded_queue_def)
  then show "mset (loaded_queue (items_of_run env (rs_runId st) db')) = mset (map reread_entry (rs_queue st))"
    unfolding items using loaded_built(2) [of st now] by simp
qed

text \<open>C14. A save that returns has overwritten what the run had become meanwhile, whatever other clients have stored before it or
  between its attempts: the status, the pending activation and the queue are those of the saved state, even if the run had
  ended.\<close>

theorem last_save_wins:
  assumes "save_rows env now others own st db = (Inr (), db')" "CHR ''%'' \<notin> set (rs_runId st)"
  shows "\<exists>t. load_rows env (rs_runId st) db' = Inr (Some t) \<and> rs_status t = rs_status st
    \<and> rs_pending t = map_option (reread_pending st) (rs_pending st) \<and> mset (rs_queue t) = mset (map reread_entry (rs_queue st))"
proof -
  from assms(1) obtain u moment db1 where u: "save_once env moment u db1 = Inr db'" "rs_runId u = rs_runId st" "rs_status u = rs_status st"
      "rs_pending u = rs_pending st" "rs_queue u = rs_queue st" "rs_workflowId u = rs_workflowId st"
    unfolding save_rows_def using attempts_end_in_save by blast
  have "reread_pending u = reread_pending st" by (simp add: reread_pending_def fun_eq_iff u)
  with u loaded_after_save [OF u(1)] show ?thesis
    by - (rule saved_state [OF u(1)], simp add: load_plain assms(2) state_of_rows_def row_of_state_def Let_def)
qed

text \<open>A state without a revision, as \<open>ActivationEnqueueService\<close> writes it, fits the row of a new run only: every later one is a
  conflict, whoever else writes.\<close>

lemma unread_revision_never_fits:
  assumes "rs_revision st = None" "jget (pd_runs db) (rs_runId st) = Some row" "rw_revision row \<noteq> 0"
  shows "save_once env now st db \<noteq> Inr db'"
proof
  assume "save_once env now st db = Inr db'"
  then show False by (rule saved_tables) (use assms in simp)
qed

section \<open>Other runs\<close>

definition rows_of_run :: "run_id \<Rightarrow> run_db \<Rightarrow> run_row option \<times> (string \<times> work_item) list \<times> (string \<times> instance_row) list" where
  "rows_of_run r db =
    (jget (pd_runs db) r, filter (\<lambda>(_, x). wi_runId x = r) (pd_workItems db), filter (\<lambda>(_, x). xi_runId x = r) (pd_instances db))"

lemma load_of_rows: "rows_of_run r db = rows_of_run r db' \<Longrightarrow> load_row env r db = load_row env r db'"
  by (simp add: rows_of_run_def load_row_def state_of_rows_def scheduling_rows_def jhas_def items_of_run_def instances_of_def)

lemma filter_jset_other: "xi_runId v \<noteq> r \<Longrightarrow> (\<And>old. jget m k = Some old \<Longrightarrow> xi_runId old \<noteq> r) \<Longrightarrow>
    filter (\<lambda>(_, x). xi_runId x = r) (jset k v m) = filter (\<lambda>(_, x). xi_runId x = r) m"
proof (induction m)
  case (Cons p m)
  then show ?case by (cases p) (auto split: if_splits)
qed auto

lemma upsert_cases:
  assumes "fold_result (upsert_instance env existing) ((k, x) # xs) (rows, mx) = Inr r"
  shows "case jget existing k of
      Some old \<Rightarrow> fold_result (upsert_instance env existing) xs (jset k (updated_instance x (opt_or (jget rows k) old)) rows, mx) = Inr r
    | None \<Rightarrow> \<not> jhas rows k \<and> (\<exists>i mx'. fold_result (upsert_instance env existing) xs (jset k (x\<lparr>xi_runIndex := i\<rparr>) rows, mx') = Inr r)"
proof -
  from assms obtain acc where "upsert_instance env existing (k, x) (rows, mx) = Inr acc"
    "fold_result (upsert_instance env existing) xs acc = Inr r"
    by (cases "upsert_instance env existing (k, x) (rows, mx)") simp_all
  then show ?thesis by (auto simp: upsert_instance_def Let_def split: option.splits if_splits)
qed

lemma upsert_keeps_others:
  assumes "fold_result (upsert_instance env existing) xs (rows, mx) = Inr (rows', mx')"
    and "\<forall>(k, x) \<in> set xs. xi_runId x = r" "\<forall>k x. jget existing k = Some x \<longrightarrow> (\<exists>y. jget rows k = Some y \<and> xi_runId y = r)"
    and "r' \<noteq> r"
  shows "filter (\<lambda>(_, x). xi_runId x = r') rows' = filter (\<lambda>(_, x). xi_runId x = r') rows"
  using assms(1-3)
proof (induction xs arbitrary: rows mx)
  case (Cons kx xs)
  obtain k x where kx: "kx = (k, x)" by fastforce
  show ?case
  proof (cases "jget existing k")
    case None
    then obtain i mx2 where step: "\<not> jhas rows k"
      "fold_result (upsert_instance env existing) xs (jset k (x\<lparr>xi_runIndex := i\<rparr>) rows, mx2) = Inr (rows', mx')"
      using upsert_cases [OF Cons.prems(1) [unfolded kx]] by auto
    have ex: "\<forall>k' x'. jget existing k' = Some x' \<longrightarrow> (\<exists>y. jget (jset k (x\<lparr>xi_runIndex := i\<rparr>) rows) k' = Some y \<and> xi_runId y = r)"
      using Cons.prems(2,3) kx by auto
    have "filter (\<lambda>(_, x). xi_runId x = r') (jset k (x\<lparr>xi_runIndex := i\<rparr>) rows) = filter (\<lambda>(_, x). xi_runId x = r') rows"
      using Cons.prems(2) kx step(1) assms(4) by (intro filter_jset_other) (auto simp: jhas_def)
    with Cons.IH [OF step(2) _ ex] Cons.prems(2) show ?thesis by simp
  next
    case (Some old)
    with Cons.prems(3) obtain y where y: "jget rows k = Some y" "xi_runId y = r" by blast
    have step: "fold_result (upsert_instance env existing) xs (jset k (updated_instance x y) rows, mx) = Inr (rows', mx')"
      using upsert_cases [OF Cons.prems(1) [unfolded kx]] Some y(1) by simp
    have run: "xi_runId (updated_instance x y) = r" using y(2) by (simp add: updated_instance_def)
    have ex: "\<forall>k' x'. jget existing k' = Some x' \<longrightarrow> (\<exists>z. jget (jset k (updated_instance x y) rows) k' = Some z \<and> xi_runId z = r)"
      using Cons.prems(3) run by auto
    have "filter (\<lambda>(_, x). xi_runId x = r') (jset k (updated_instance x y) rows) = filter (\<lambda>(_, x). xi_runId x = r') rows"
      using run y assms(4) by (intro filter_jset_other) auto
    with Cons.IH [OF step _ ex] Cons.prems(2) show ?thesis by simp
  qed
qed simp

lemma jget_filter_run:
  "distinct (jkeys m) \<Longrightarrow> jget (filter (\<lambda>(_, x). xi_runId x = r) m) k = Some x \<Longrightarrow> jget m k = Some x \<and> xi_runId x = r"
  by (induction m) (auto split: if_splits simp: image_iff dest!: jget_Some_key)

lemma save_once_keeps_others:
  assumes "save_once env now st db = Inr db'" "r \<noteq> rs_runId st" "distinct (jkeys (pd_instances db))"
  shows "rows_of_run r db' = rows_of_run r db"
proof (rule saved_tables [OF assms(1)])
  fix row mx
  assume s: "pd_runs db' = jset (rs_runId st) (row_of_state st now row) (pd_runs db)"
    "pd_workItems db' = filter (\<lambda>(_, x). wi_runId x \<noteq> rs_runId st) (pd_workItems db) @ build_work_items st now"
    "fold_result (upsert_instance env (filter (\<lambda>(_, x). xi_runId x = rs_runId st) (pd_instances db))) (build_instances st)
       (pd_instances db, max_index_by_slot (filter (\<lambda>(_, x). xi_runId x = rs_runId st) (pd_instances db)))
       = Inr (pd_instances db', mx)"
  have "filter (\<lambda>(_, x). xi_runId x = r) (pd_instances db') = filter (\<lambda>(_, x). xi_runId x = r) (pd_instances db)"
    by (rule upsert_keeps_others [OF s(3) _ _ assms(2)]) (use built_rows_of_run jget_filter_run [OF assms(3)] in blast)+
  moreover have "filter (\<lambda>(_, x). wi_runId x = r) (build_work_items st now) = []"
    using built_items_of_run assms(2) by (auto simp: filter_empty_conv)
  moreover have "filter (\<lambda>(_, x). wi_runId x = r) (filter (\<lambda>(_, x). wi_runId x \<noteq> rs_runId st) m)
      = filter (\<lambda>(_, x). wi_runId x = r) m" for m
    using assms(2) by (induction m) auto
  ultimately show ?thesis using s(1,2) assms(2) by (simp add: rows_of_run_def)
qed

lemma attempts_keep_others:
  assumes "save_attempts env now (\<lambda>_ d. d) k own st db = (x, db')" "r \<noteq> rs_runId st" "distinct (jkeys (pd_instances db))"
  shows "rows_of_run r db' = rows_of_run r db \<and> (\<forall>e. x = Inl e \<longrightarrow> db' = db)"
  using assms
proof (induction k arbitrary: own st)
  case (Suc k)
  from Suc.prems(1) show ?case
    by (auto simp: Let_def save_once_keeps_others Suc.prems(2,3) split: sum.splits if_splits option.splits
        dest!: Suc.IH [OF _ _ Suc.prems(3)] simp del: save_attempts.simps(1))
qed (auto simp: save_once_keeps_others split: sum.splits)

text \<open>Saving a run changes no other run, also where both have invocations of the same id; and a save that fails has changed
  nothing at all.\<close>

lemma save_touches_one_run:
  assumes "save_rows env now (\<lambda>_ d. d) own st db = (x, db')" "r \<noteq> rs_runId st" "distinct (jkeys (pd_instances db))"
  shows "load_row env r db' = load_row env r db \<and> (\<forall>e. x = Inl e \<longrightarrow> db' = db)"
  using attempts_keep_others [OF assms [unfolded save_rows_def]] load_of_rows by blast

section \<open>Snapshots of nodes\<close>

lemma updated_instance_sel [simp]:
  "xi_runId (updated_instance x y) = xi_runId y" "xi_kind (updated_instance x y) = xi_kind x"
  "xi_slotNodeId (updated_instance x y) = xi_slotNodeId x" "xi_updatedAt (updated_instance x y) = xi_updatedAt x"
  "snapshot_of_row r w n (updated_instance x y) = snapshot_of_row r w n x"
  by (simp_all add: updated_instance_def snapshot_of_row_def)

lemma snapshot_of_index [simp]: "snapshot_of_row r w n (x\<lparr>xi_runIndex := i\<rparr>) = snapshot_of_row r w n x"
  by (simp add: snapshot_of_row_def)

text \<open>What an upserted row has of the row it was given.\<close>

definition stored_row :: "instance_row \<Rightarrow> instance_row \<Rightarrow> bool" where
  "stored_row x y = (xi_kind y = xi_kind x \<and> xi_slotNodeId y = xi_slotNodeId x \<and> xi_updatedAt y = xi_updatedAt x
     \<and> (\<forall>r w n. snapshot_of_row r w n y = snapshot_of_row r w n x))"

lemma upserted_rows:
  assumes "fold_result (upsert_instance env existing) xs (rows, mx) = Inr (rows', mx')"
    and "\<forall>(k, x) \<in> set xs. xi_runId x = r" "\<forall>k x. jget existing k = Some x \<longrightarrow> (\<exists>y. jget rows k = Some y \<and> xi_runId y = r)"
    and "distinct (map fst xs)" "distinct (jkeys rows)"
  shows "distinct (jkeys rows') \<and> (\<forall>k. case jget xs k of
      None \<Rightarrow> jget rows' k = jget rows k
    | Some x \<Rightarrow> \<exists>y. jget rows' k = Some y \<and> xi_runId y = r \<and> stored_row x y)"
  using assms
proof (induction xs arbitrary: rows mx)
  case (Cons kx xs)
  obtain k x where kx: "kx = (k, x)" by fastforce
  have fresh: "jget xs k = None" using Cons.prems(4) kx by (force dest: jget_Some_key simp: not_Some_eq [symmetric])
  have "\<exists>y mx2. fold_result (upsert_instance env existing) xs (jset k y rows, mx2) = Inr (rows', mx') \<and> xi_runId y = r \<and> stored_row x y"
  proof (cases "jget existing k")
    case None
    then obtain i mx2 where "fold_result (upsert_instance env existing) xs (jset k (x\<lparr>xi_runIndex := i\<rparr>) rows, mx2) = Inr (rows', mx')"
      using upsert_cases [OF Cons.prems(1) [unfolded kx]] by auto
    moreover have "xi_runId x = r" using Cons.prems(2) kx by simp
    ultimately show ?thesis by (intro exI [of _ "x\<lparr>xi_runIndex := i\<rparr>"] exI [of _ mx2]) (simp add: stored_row_def)
  next
    case (Some old)
    with Cons.prems(3) obtain z where "jget rows k = Some z" "xi_runId z = r" by blast
    with Some upsert_cases [OF Cons.prems(1) [unfolded kx]] show ?thesis
      by (intro exI [of _ "updated_instance x z"] exI [of _ mx]) (simp add: stored_row_def)
  qed
  then obtain y mx2 where y: "fold_result (upsert_instance env existing) xs (jset k y rows, mx2) = Inr (rows', mx')"
    "xi_runId y = r" "stored_row x y" by blast
  have rest: "distinct (jkeys rows') \<and> (\<forall>k'. case jget xs k' of
      None \<Rightarrow> jget rows' k' = jget (jset k y rows) k'
    | Some x \<Rightarrow> \<exists>z. jget rows' k' = Some z \<and> xi_runId z = r \<and> stored_row x z)"
    by (rule Cons.IH [OF y(1)]) (use Cons.prems(2-5) y(2) in auto)
  have "case jget (kx # xs) k' of None \<Rightarrow> jget rows' k' = jget rows k'
    | Some x \<Rightarrow> \<exists>y. jget rows' k' = Some y \<and> xi_runId y = r \<and> stored_row x y" for k'
  proof (cases "k' = k")
    case True
    have "jget rows' k = jget (jset k y rows) k" using rest [THEN conjunct2, rule_format, of k] fresh by simp
    then have "jget rows' k' = Some y" using True by simp
    then show ?thesis using True y(2,3) kx by simp
  next
    case False
    then have "jget (kx # xs) k' = jget xs k'" "jget (jset k y rows) k' = jget rows k'" using kx by auto
    then show ?thesis using rest [THEN conjunct2, THEN spec, of k'] by (simp only:)
  qed
  with rest show ?case by blast
qed simp

text \<open>Of the rows of a node, one that was updated after all others is read.\<close>

lemma latest_row_wins:
  assumes "x \<in> set xs" "\<forall>y \<in> set xs. xi_slotNodeId y = xi_slotNodeId x \<longrightarrow> y = x \<or> string_less (xi_updatedAt y) (xi_updatedAt x)"
    and "\<forall>y. jget m (xi_slotNodeId x) = Some y \<longrightarrow> y = x \<or> string_less (xi_updatedAt y) (xi_updatedAt x)"
  shows "jget (fold latest_row xs m) (xi_slotNodeId x) = Some x"
proof -
  have kept: "jget (fold latest_row ys m') (xi_slotNodeId x) = Some x"
    if "jget m' (xi_slotNodeId x) = Some x"
      "\<forall>y \<in> set ys. xi_slotNodeId y = xi_slotNodeId x \<longrightarrow> y = x \<or> string_less (xi_updatedAt y) (xi_updatedAt x)" for ys m'
    using that
  proof (induction ys arbitrary: m')
    case (Cons y ys)
    have "\<not> string_less (xi_updatedAt x) (xi_updatedAt y)" if "xi_slotNodeId y = xi_slotNodeId x"
      using Cons.prems(2) that string_less_irrefl string_less_trans by (metis list.set_intros(1))
    then have "jget (latest_row y m') (xi_slotNodeId x) = Some x"
      using Cons.prems(1) by (auto simp: latest_row_def split: option.split)
    with Cons show ?case by simp
  qed simp
  show ?thesis using assms
  proof (induction xs arbitrary: m)
    case (Cons y ys)
    show ?case
    proof (cases "y = x")
      case True
      then have "jget (latest_row y m) (xi_slotNodeId x) = Some x"
        using Cons.prems(3) by (auto simp: latest_row_def split: option.split)
      with kept Cons.prems(2) show ?thesis by simp
    next
      case False
      have "\<forall>z. jget (latest_row y m) (xi_slotNodeId x) = Some z \<longrightarrow> z = x \<or> string_less (xi_updatedAt z) (xi_updatedAt x)"
        using Cons.prems(2,3) False by (auto simp: latest_row_def split: option.split if_splits)
      with Cons False show ?thesis by simp
    qed
  qed simp
qed

lemma latest_row_none: "\<forall>y \<in> set xs. xi_slotNodeId y \<noteq> n \<Longrightarrow> jget (fold latest_row xs m) n = jget m n"
proof (induction xs arbitrary: m)
  case (Cons y ys)
  then have "jget (latest_row y m) n = jget m n" by (auto simp: latest_row_def split: option.split)
  with Cons show ?case by simp
qed simp

lemma distinct_latest: "distinct (jkeys m) \<Longrightarrow> distinct (jkeys (fold latest_row xs m))"
  by (induction xs arbitrary: m) (auto simp: latest_row_def split: option.split)

text \<open>No other execution of a node was updated as late as the one of the state, and none is stored of a node without a snapshot.\<close>

definition newest_rows :: "run_state \<Rightarrow> run_db \<Rightarrow> bool" where
  "newest_rows st db =
    (\<forall>k x. jget (pd_instances db) k = Some x \<and> xi_runId x = rs_runId st \<and> xi_kind x = NodeActivationRow \<longrightarrow>
      (\<exists>s. jget (rs_nodeSnapshotsByNodeId st) (xi_slotNodeId x) = Some s
        \<and> (k = node_instance_id (rs_runId st) (xi_slotNodeId x) s \<or> string_less (xi_updatedAt x) (ns_updatedAt s))))"

lemma built_node_rows:
  assumes "(k, x) \<in> set (build_instances st)" "xi_kind x = NodeActivationRow"
  shows "\<exists>s. (xi_slotNodeId x, s) \<in> set (rs_nodeSnapshotsByNodeId st) \<and> k = node_instance_id (rs_runId st) (xi_slotNodeId x) s
    \<and> x = node_row st (xi_slotNodeId x) s"
  using assms by (auto simp: build_instances_def node_row_def invocation_row_def Let_def)

lemma row_of_snapshot:
  "snapshot_of_row r w n (node_row st n s) =
    s\<lparr>ns_runId := r, ns_workflowId := w, ns_nodeId := n, ns_parent := None\<rparr>"
  by (simp add: snapshot_of_row_def node_row_def Let_def ports_of_text_def split: option.split)

text \<open>The rows of executions of nodes that are stored after a save.\<close>

lemma stored_node_rows:
  assumes "save_once env now st db = Inr db'" "distinct (jkeys (pd_instances db))" "distinct (map fst (build_instances st))"
    and "distinct (jkeys (rs_nodeSnapshotsByNodeId st))" "newest_rows st db"
  shows "distinct (jkeys (pd_instances db'))"
    and "(k, y) \<in> set (pd_instances db') \<Longrightarrow> xi_runId y = rs_runId st \<Longrightarrow> xi_kind y = NodeActivationRow \<Longrightarrow>
      \<exists>s. jget (rs_nodeSnapshotsByNodeId st) (xi_slotNodeId y) = Some s
        \<and> (k = node_instance_id (rs_runId st) (xi_slotNodeId y) s \<or> string_less (xi_updatedAt y) (ns_updatedAt s))"
    and "jget (rs_nodeSnapshotsByNodeId st) n = Some s \<Longrightarrow>
      \<exists>y. jget (pd_instances db') (node_instance_id (rs_runId st) n s) = Some y \<and> xi_runId y = rs_runId st
        \<and> stored_row (node_row st n s) y"
proof -
  have up: "distinct (jkeys (pd_instances db')) \<and> (\<forall>k. case jget (build_instances st) k of
      None \<Rightarrow> jget (pd_instances db') k = jget (pd_instances db) k
    | Some x \<Rightarrow> \<exists>y. jget (pd_instances db') k = Some y \<and> xi_runId y = rs_runId st \<and> stored_row x y)"
  proof (rule saved_tables [OF assms(1)])
    fix mx
    assume "fold_result (upsert_instance env (filter (\<lambda>(_, x). xi_runId x = rs_runId st) (pd_instances db))) (build_instances st)
       (pd_instances db, max_index_by_slot (filter (\<lambda>(_, x). xi_runId x = rs_runId st) (pd_instances db)))
       = Inr (pd_instances db', mx)"
    then show ?thesis
      by (rule upserted_rows [OF _ _ _ assms(3,2)]) (use built_rows_of_run jget_filter_run [OF assms(2)] in blast)+
  qed
  then show dist: "distinct (jkeys (pd_instances db'))" by blast
  have snap: "jget (rs_nodeSnapshotsByNodeId st) m = Some t" if "(m, t) \<in> set (rs_nodeSnapshotsByNodeId st)" for m t
    using that assms(4) by simp
  have build: "jget (build_instances st) k = Some x" if "(k, x) \<in> set (build_instances st)" for k x
    using that assms(3) by simp
  show "\<exists>s. jget (rs_nodeSnapshotsByNodeId st) (xi_slotNodeId y) = Some s
      \<and> (k = node_instance_id (rs_runId st) (xi_slotNodeId y) s \<or> string_less (xi_updatedAt y) (ns_updatedAt s))"
    if y: "(k, y) \<in> set (pd_instances db')" "xi_runId y = rs_runId st" "xi_kind y = NodeActivationRow"
  proof (cases "jget (build_instances st) k")
    case None
    then have "jget (pd_instances db) k = Some y" using up [THEN conjunct2, THEN spec, of k] y(1) dist by simp
    with assms(5) y(2,3) show ?thesis unfolding newest_rows_def by blast
  next
    case (Some x)
    from up [THEN conjunct2, rule_format, of k] Some y(1) dist have "stored_row x y" by auto
    then have same: "xi_kind x = NodeActivationRow" "xi_slotNodeId y = xi_slotNodeId x" using y(3) by (simp_all add: stored_row_def)
    from Some have "(k, x) \<in> set (build_instances st)" by (rule map_of_SomeD)
    from built_node_rows [OF this same(1)] snap show ?thesis unfolding same(2) by blast
  qed
  show "\<exists>y. jget (pd_instances db') (node_instance_id (rs_runId st) n s) = Some y \<and> xi_runId y = rs_runId st
      \<and> stored_row (node_row st n s) y" if s: "jget (rs_nodeSnapshotsByNodeId st) n = Some s"
  proof -
    have "(node_instance_id (rs_runId st) n s, node_row st n s) \<in> set (build_instances st)"
      using map_of_SomeD [OF s] by (force simp: build_instances_def)
    from up [THEN conjunct2, rule_format, of "node_instance_id (rs_runId st) n s"] build [OF this] show ?thesis by simp
  qed
qed

lemma jget_with_parent:
  "jget (with_parent p snaps) n = map_option (\<lambda>s. if p = None then s else s\<lparr>ns_parent := p\<rparr>) (jget snaps n)"
  by (cases p) (simp_all add: with_parent_def jget_map_val option.map_id0 [unfolded id_def])

lemma opt_else_None: "opt_else x None = x"
  by (cases x) simp_all

lemma jget_merged_outputs:
  assumes "distinct (jkeys snaps)"
  shows "jget (merged_outputs persisted snaps) n = opt_else (Option.bind (jget snaps n) ns_outputs) (jget persisted n)"
  using assms
proof (induction snaps arbitrary: persisted)
  case (Cons ms snaps)
  obtain m s where ms: "ms = (m, s)" by fastforce
  have step: "merged_outputs persisted (ms # snaps)
      = merged_outputs (case ns_outputs s of None \<Rightarrow> persisted | Some outs \<Rightarrow> jset m outs persisted) snaps"
    by (simp add: merged_outputs_def ms)
  have "jget snaps m = None" using Cons.prems ms by (simp add: map_of_eq_None_iff)
  then show ?case unfolding step using Cons ms by (auto split: option.splits)
qed (simp add: merged_outputs_def)

lemma loaded_node_rows:
  assumes "save_once env now st db = Inr db'" "distinct (jkeys (pd_instances db))" "distinct (map fst (build_instances st))"
    and "distinct (jkeys (rs_nodeSnapshotsByNodeId st))" "newest_rows st db"
  shows "jget (loaded_snapshots (rs_runId st) w (instances_of env (rs_runId st) db')) n =
    map_option (\<lambda>s. s\<lparr>ns_runId := rs_runId st, ns_workflowId := w, ns_nodeId := n, ns_parent := None\<rparr>) (jget (rs_nodeSnapshotsByNodeId st) n)"
proof -
  let ?rows = "filter (\<lambda>x. xi_kind x = NodeActivationRow) (map snd (instances_of env (rs_runId st) db'))"
  note rows = stored_node_rows [OF assms]
  have row: "y \<in> set ?rows \<longleftrightarrow> (\<exists>k. (k, y) \<in> set (pd_instances db') \<and> xi_runId y = rs_runId st \<and> xi_kind y = NodeActivationRow)" for y
    by (force simp: instances_of_def)
  show ?thesis
  proof (cases "jget (rs_nodeSnapshotsByNodeId st) n")
    case None
    then have "\<forall>y \<in> set ?rows. xi_slotNodeId y \<noteq> n" using rows(2) row by fastforce
    then show ?thesis using None by (simp add: loaded_snapshots_def jget_map_val latest_row_none)
  next
    case (Some s)
    from rows(3) [OF Some] obtain y where y: "jget (pd_instances db') (node_instance_id (rs_runId st) n s) = Some y"
      "xi_runId y = rs_runId st" "stored_row (node_row st n s) y" by blast
    then have node: "xi_kind y = NodeActivationRow" "xi_slotNodeId y = n" "xi_updatedAt y = ns_updatedAt s"
      "snapshot_of_row r w n y = s\<lparr>ns_runId := r, ns_workflowId := w, ns_nodeId := n, ns_parent := None\<rparr>" for r
      by (simp_all add: stored_row_def row_of_snapshot) (simp_all add: node_row_def Let_def)
    have "y \<in> set ?rows" using row map_of_SomeD [OF y(1)] y(2) node(1) by blast
    moreover have "z = y \<or> string_less (xi_updatedAt z) (xi_updatedAt y)" if z: "z \<in> set ?rows" "xi_slotNodeId z = xi_slotNodeId y" for z
    proof -
      from z(1) row obtain k where k: "(k, z) \<in> set (pd_instances db')" "xi_runId z = rs_runId st" "xi_kind z = NodeActivationRow" by blast
      from rows(2) [OF this] z(2) node(2) Some
      have "k = node_instance_id (rs_runId st) n s \<or> string_less (xi_updatedAt z) (ns_updatedAt s)" by auto
      moreover have "z = y" if "k = node_instance_id (rs_runId st) n s" using k(1) rows(1) y(1) that by simp
      ultimately show ?thesis using node(3) by auto
    qed
    ultimately have "jget (fold latest_row ?rows []) (xi_slotNodeId y) = Some y" by (intro latest_row_wins) auto
    then show ?thesis using Some node by (simp add: loaded_snapshots_def jget_map_val)
  qed
qed


section \<open>Witnesses\<close>

definition sample_tables :: table_env where
  "sample_tables =
    \<lparr>tb_textLess = string_less, tb_localeLess = string_less, tb_decodeWide = Inr, tb_keyViolated = (\<lambda>k. plain_error (''duplicate '' @ k)),
     tb_rowMissing = plain_error ''missing'', tb_secondsBefore = (\<lambda>t _. t)\<rparr>"

definition sample_row_of :: "run_status \<Rightarrow> int \<Rightarrow> run_row" where
  "sample_row_of status revision =
    \<lparr>rw_workflowId = ''wf'', rw_startedAt = ''2026-01-01'', rw_finishedAt = None, rw_status = status, rw_revision = revision,
     rw_parent = None, rw_executionOptions = None, rw_control = None, rw_workflowSnapshot = None, rw_policySnapshot = None,
     rw_engineCounters = None, rw_mutableState = None, rw_hitlState = None, rw_outputsByNode = [], rw_updatedAt = ''t0'',
     rw_testSuiteRunId = None, rw_testCaseIndex = None, rw_testCaseLabel = None, rw_testCaseStatus = None\<rparr>"

definition sample_db :: "run_status \<Rightarrow> int \<Rightarrow> run_db" where
  "sample_db status revision =
    \<lparr>pd_runs = [(''r'', sample_row_of status revision), (''s'', sample_row_of RunPending 1)], pd_workItems = [], pd_instances = [],
     pd_projections = []\<rparr>"

lemma sample_order: "length (rs_queue st) \<le> 10 \<Longrightarrow> keeps_queue_order sample_tables now st"
  by (rule ten_entries_keep_order) (simp_all add: sample_tables_def)

lemma sample_run_id: "rs_runId sample_run = ''r''" "rs_runId sample_waiting = ''r''" "rs_queue sample_run = []" "rs_queue sample_waiting = []"
  by (simp_all add: sample_waiting_def sample_run_def sample_create_def initial_run_state_def)


definition half_merged :: queue_entry where
  "half_merged = \<lparr>qe_nodeId = ''m'', qe_input = [], qe_toInput = None, qe_batchId = Some ''batch_1'', qe_from = None,
    qe_collect = Some \<lparr>cs_expectedInputs = [''left'', ''right''], cs_received = [(''left'', [sample_item ''x''])]\<rparr>\<rparr>"

definition second_branch :: enqueue_args where
  "second_branch = \<lparr>ea_batchId = ''batch_1'', ea_to = hd (topo_outgoing (pl_topology sample_planner) ''b''),
    ea_from = \<lparr>or_node = ''b'', or_output = ''main''\<rparr>, ea_items = [sample_item ''y'']\<rparr>"

lemma stored_merge_runs_twice_witness:
  "\<exists>db' pend queue rest. save_once sample_tables ''t1'' (sample_run\<lparr>rs_queue := [half_merged]\<rparr>) (sample_db RunRunning 0) = Inr db'
    \<and> scheduling_rows sample_tables ''r'' db' = Some (pend, queue)
    \<and> next_activation sample_planner (enqueue_collect sample_planner second_branch queue)
        = Inr (Some (SingleActivation ''m'' [sample_item ''x''] ''batch_1''), rest)
    \<and> next_activation sample_planner rest
        = Inr (Some (MultiActivation ''m'' [(''right'', [sample_item ''y'']), (''left'', [])] ''batch_1''), [])"
proof -
  let ?st = "sample_run\<lparr>rs_queue := [half_merged]\<rparr>"
  have "is_ok (save_once sample_tables ''t1'' ?st (sample_db RunRunning 0))" by code_simp
  then obtain db' where saved: "save_once sample_tables ''t1'' ?st (sample_db RunRunning 0) = Inr db'" by (auto simp: is_ok_iff)
  then have "jget (pd_runs db') (rs_runId ?st) \<noteq> None" by (rule saved_tables) simp
  then obtain pend queue where queue: "scheduling_rows sample_tables (rs_runId ?st) db' = Some (pend, queue)"
    by (auto simp: scheduling_rows_def jhas_def)
  have order: "keeps_queue_order sample_tables ''t1'' ?st" by (rule sample_order) simp
  have st: "rs_queue ?st = [\<lparr>qe_nodeId = ''m'', qe_input = [], qe_toInput = None, qe_batchId = Some ''batch_1'', qe_from = None,
      qe_collect = Some \<lparr>cs_expectedInputs = [''left'', ''right''], cs_received = [(''left'', [sample_item ''x''])]\<rparr>\<rparr>]"
    by (simp add: half_merged_def)
  have topo: "topo_expected (pl_topology sample_planner) ''m'' = [''left'', ''right'']" by code_simp
  have d: "jget (tp_defsById (pl_topology sample_planner)) ''m'' = Some (sample_node ''m'' NodeKind None)" by code_simp
  have kind: "nd_kind (sample_node ''m'' NodeKind None) = NodeKind" by (simp add: sample_node_def)
  have a: "to_nodeId (ea_to second_branch) = ''m''" "to_collectKey (ea_to second_branch) = ''right''" "ea_batchId second_branch = ''batch_1''"
    by code_simp+
  have "ea_items second_branch = [sample_item ''y'']" by (simp add: second_branch_def)
  with stored_merge_runs_twice [OF saved order st _ topo d kind a queue] saved queue show ?thesis
    by (auto simp: sample_run_id)
qed

lemma last_save_wins_witness:
  "\<exists>db' t. rs_revision sample_waiting = Some 0
    \<and> save_rows sample_tables (\<lambda>_. ''t1'') (\<lambda>_ d. d) {} sample_waiting (sample_db RunCompleted 3) = (Inr (), db')
    \<and> load_rows sample_tables ''r'' db' = Inr (Some t) \<and> rs_status t = RunPending"
proof -
  let ?save = "save_rows sample_tables (\<lambda>_. ''t1'') (\<lambda>_ d. d) {} sample_waiting (sample_db RunCompleted 3)"
  have "fst ?save = Inr ()" by code_simp
  then obtain db' where saved: "?save = (Inr (), db')" by (metis prod.collapse)
  have "rs_revision sample_waiting = Some 0" "rs_status sample_waiting = RunPending"
    by (simp_all add: sample_waiting_def sample_run_def sample_create_def initial_run_state_def)
  with last_save_wins [OF saved] saved show ?thesis by (auto simp: sample_run_id)
qed

lemma save_touches_one_run_witness:
  "\<exists>x db'. save_rows sample_tables (\<lambda>_. ''t1'') (\<lambda>_ d. d) {} sample_waiting (sample_db RunRunning 0) = (x, db')
    \<and> load_row sample_tables ''s'' db' = load_row sample_tables ''s'' (sample_db RunRunning 0)"
proof -
  obtain x db' where saved: "save_rows sample_tables (\<lambda>_. ''t1'') (\<lambda>_ d. d) {} sample_waiting (sample_db RunRunning 0) = (x, db')" by fastforce
  have "''s'' \<noteq> rs_runId sample_waiting" "distinct (jkeys (pd_instances (sample_db RunRunning 0)))"
    by (simp_all add: sample_run_id sample_db_def)
  from save_touches_one_run [OF saved this] saved show ?thesis by blast
qed

definition queued_again :: node_snapshot where
  "queued_again =
    \<lparr>ns_runId = ''r'', ns_workflowId = ''wf'', ns_nodeId = ''a'', ns_activationId = Some ''act2'', ns_parent = None, ns_status = NsQueued,
     ns_usedPinnedOutput = None, ns_queuedAt = Some ''t1'', ns_startedAt = None, ns_finishedAt = None, ns_updatedAt = ''t1'',
     ns_inputsByPort = None, ns_outputs = None, ns_error = None, ns_childRunId = None\<rparr>"


end
