(* ===== verification/Spec2Isabelle.thy ===== *)
theory Spec2Isabelle
  imports ExecutionFacts Snapshots Triggers TestSuite Dsl AgentRuns CoreNodesFacts RunTableFacts
begin

text \<open>
  Verification development for codemation, an engine that runs workflows: graphs of nodes that pass batches of items on along
  their edges.  Paths below are relative to \<open>packages/core/src\<close> unless another package is named.

  \<^bold>\<open>How the program works.\<close>  A program builds a workflow (\<open>workflow/dsl\<close>), and the host registers it.  A run is started by a
  trigger, by hand or by another run (\<open>orchestration/RunStartService.ts\<close>); a planner turns the workflow into a topology and
  checks it (\<open>planning/\<close>), and a queue of jobs is seeded with the outputs of the trigger, or with what a frontier planner finds
  to be due in an earlier run.  The next job of the queue becomes an activation, which is stored as the one thing the run waits
  for and dispatched, to a scheduler in the process or to a worker.  The executor runs the node's code per item, with retries;
  the continuation service stores the outcome, routes the outputs into the queue and dispatches the next activation, or ends the
  run, tells the callers that wait for it and deletes it if its storage policy says so.  A node may park its run until a person
  decides.  A stored run carries a snapshot of its workflow, from which it is continued after a restart.

  \<^bold>\<open>Conventions.\<close>  A JavaScript object is a record, a \<open>Map\<close> or a dictionary an association list in insertion order (\<open>jmap\<close> of
  \<open>CmPrelude\<close>), a thrown error the left side of a sum, a number without a bound of its own a \<open>nat\<close>, \<open>int\<close> or \<open>rat\<close>.  Code that
  changes state is an \<open>action\<close> (\<open>Actions\<close>): a function from a state to a result and the new state, which an error does not undo.
  The state of the engine is one record (\<open>engine\<close> of \<open>Scheduling\<close>): stored runs, events, waiting callers, queues of the inline
  scheduler, jobs handed to workers.  Code that awaits something else is an action too and may do anything in between; where
  interleaving is the point (scheduler, polling, test suites) the stretches between two awaits are the rules of an \<open>inductive\<close>
  step relation.  Third-party code (Zod, the language model, \<open>JSON\<close>, clocks, ids, hashes, the container) is a parameter.

  \<^bold>\<open>Theories, in the order they build on each other.\<close>
  \<^item> \<open>CmPrelude\<close>, \<open>Actions\<close>: maps, results, strings, the interface \<open>keyed_store\<close>; actions with rules for invariants (\<open>keeps\<close>) and
    for outcomes (\<open>wp\<close>), one per construct.
  \<^item> \<open>Contracts\<close>, \<open>Classifier\<close>, \<open>Topology\<close>, \<open>Planning\<close>: the data of workflows and runs (\<open>contracts/\<close>), which nodes execute and what
    the ids of their children are, the indices of the planner, the check for cycles.  Shown: the indices agree, ids can be read
    back, the search accepts exactly the acyclic workflows.
  \<^item> \<open>QueuePlanner\<close>, \<open>Frontier\<close>, \<open>RunSemantics\<close>, \<open>Sample\<close>: the queue of jobs (\<open>planning/RunQueuePlanner.ts\<close>), what is due in a
    current state (\<open>CurrentStateFrontierPlanner.ts\<close>), node snapshots and pinned outputs (\<open>execution/RunStateSemantics.ts\<close>), and the
    sample workflow of many witnesses.  Shown: routing ends and delivers, a queue is never stuck, a plan runs only what is ready.
  \<^item> \<open>Policies\<close>, \<open>Events\<close>, \<open>Repository\<close>: limits and storage policies, the event bus, the stored runs with the writer of node states;
    the interface \<open>run_repository\<close> holds for the repository in memory and for the one that publishes events.
  \<^item> \<open>Scheduling\<close>, \<open>Dispatch\<close>, \<open>Continuation\<close>, \<open>RunLifecycle\<close>, \<open>RunStart\<close>: activation requests and their inputs, the schedulers and
    waiting callers, everything that can happen to a run that waits, and its start.  Shown: one job per stored activation, first
    in first out, an outcome is applied once, a run ends or goes on.
  \<^item> \<open>Outputs\<close>, \<open>Retry\<close>, \<open>Suspension\<close>, \<open>NodeExecution\<close>, \<open>ExecutionFacts\<close>: what a node returns, how it is repeated, how it is parked,
    the executor and both its drivers.
  \<^item> \<open>Lifecycle\<close>: all operations on stored runs as steps of a state machine that refines a small machine of phases.
  \<^item> \<open>ConfigCodec\<close>, \<open>Snapshots\<close>: the stored form of a workflow and the way back (\<open>workflowSnapshots/\<close>).
  \<^item> \<open>Polling\<close>, \<open>Triggers\<close>: setting triggers up and taking them down, polling with its window of seen keys.
  \<^item> \<open>TestSuite\<close>: the orchestrator that runs one case per item (\<open>orchestration/TestSuiteOrchestrator.ts\<close>).
  \<^item> \<open>Dsl\<close>: the workflow builder, ids and ports (\<open>workflow/dsl\<close>, \<open>validation/\<close>, \<open>ai/\<close>).
  \<^item> \<open>ToolSearch\<close>, \<open>Agent\<close>, \<open>AgentFacts\<close>, \<open>AgentRuns\<close>: the agent node of \<open>packages/core-nodes\<close> with its tools.
  \<^item> \<open>CoreNodes\<close>, \<open>CoreNodesFacts\<close>: the nodes of \<open>packages/core-nodes\<close> that shape the flow of items, and their triggers.
  \<^item> \<open>HumanTasks\<close>, \<open>HumanTaskFacts\<close>: decisions by people (\<open>packages/host/src/hitl\<close>, \<open>application/hitl\<close>), from the approval node
    and the token of a task to the handlers that resolve it and resume its run; a history of whole handlers is the step relation
    \<open>hitl_step\<close>.  Shown: a task is resolved once, a decision resumes its run, tokens are genuine; and what is lost on the way.
  \<^item> \<open>Pairing\<close>: signed requests between an installation and its control plane (\<open>packages/host/src/pairing\<close>), with the interface
    \<open>nonce_store\<close> that both stores of nonces satisfy.
  \<^item> \<open>RunIntents\<close>, \<open>RunIntentFacts\<close>: the index of webhook endpoints, the intents and commands that start and replay runs
    (\<open>runtime/\<close>, \<open>orchestration/Engine.ts\<close>, \<open>packages/host/src/application/commands\<close>).
  \<^item> \<open>RunTables\<close>, \<open>RunTableFacts\<close>: the runs in the database of the host (\<open>PrismaWorkflowRunRepository.ts\<close>) as tables by key.  A
    save tries three times; a function says what other clients do between its steps.  Shown: what of a run comes back and what
    does not, that the last save wins, that other runs stay as they were.
  \<^bold>\<open>Fuel and termination.\<close>  Three mutual or nested recursions of the code run on fuel, and running out is an error value of its own:
  \<open>depth_first_search\<close> has one unit more than the workflow has nodes, each visit marks a new node; \<open>enqueue_edge\<close> one more than there
  are nodes with outgoing edges, in an accepted workflow an empty path visits each once (\<open>routing_terminates\<close>);
  \<open>collect_required_node\<close> one more than there are nodes with incoming edges, each call adds a node (\<open>plan_frontier_errors\<close>: it never
  overflows).  \<open>apply_pinned_queue_skips\<close> may loop in principle, so it is partial, and \<open>pinned_skips_terminate\<close> proves that it
  returns for accepted workflows.  \<open>next_activation\<close>, \<open>descendants_loop\<close> and \<open>register_nested\<close> have termination proofs.

  \<^bold>\<open>Properties that report defects.\<close>  Some theorems state what the code does where it does not do what it means to:
  \<open>suspended_turn_loses_results\<close>, \<open>callback_timeout_strands_run\<close>, \<open>resumed_agent_starts_over\<close>, \<open>webhook_paths_decoded_twice\<close>,
  \<open>stored_merge_runs_twice\<close>, \<open>last_save_wins\<close>,
  and lemmas such as \<open>persisted_runs_never_notify\<close>, \<open>planning_error_outcome\<close>, \<open>merge_drops_mixed_items\<close>, \<open>start_node_ignored\<close>,
  \<open>overlapping_resolutions_disagree\<close>, \<open>retries_repeat_suspension\<close>, \<open>pinned_merge_queued_twice\<close>, \<open>late_suspension_reopens\<close>,
  \<open>thrown_case_hides_end\<close>, \<open>stop_during_first_poll_leaks\<close> and \<open>array_functions_lost\<close>.

  \<^bold>\<open>Not modelled.\<close>  Telemetry, costs and binary attachments, which do not influence a run; the wiring of the parts in the container;
  type-level helpers for authors; the connection-node snapshots that the agent writes beside its records; the nodes that call
  services; the host beyond the parts named above (HTTP, most of the database, sign-in), the canvas and web packages, the command line and the
  build tools, which present, store or transport what the engine computes.  \<open>JSON\<close> values have rational numbers, so rounding of
  floating-point numbers, \<open>NaN\<close> and infinities are outside the model; strings are lists of 8-bit characters.
\<close>

end
